(* ===== verification/Prelude.thy ===== *)
theory Prelude
  imports Main "HOL-Library.Word" "HOL-Library.Multiset" "HOL-Library.Sublist"
begin

text \<open>
  Shared ground of the development: the machine integer types of the C++ sources, the
  collections of simplification rules that the component theories extend, a loop-free reading
  of fixed-width integers as bytes, and the list and option lemmas that several components use.
\<close>

unbundle bit_operations_syntax

section \<open>Collections\<close>

named_theorems op_defs \<open>definitions of the modelled operations, unfolded by \<open>simp add: op_defs\<close>\<close>
named_theorems inv_intros \<open>preservation lemmas of the component invariants\<close>

section \<open>Machine integers\<close>

type_synonym u8 = "8 word"
type_synonym u16 = "16 word"
type_synonym u32 = "32 word"
type_synonym u64 = "64 word"
type_synonym bytes = "8 word list"

text \<open>The value range of \<open>int16_t\<close>, and the wrap-around of a conversion to it.\<close>

definition fits_int16 :: "int \<Rightarrow> bool" where
  "fits_int16 x \<longleftrightarrow> - 32768 \<le> x \<and> x \<le> 32767"

definition wrap_int16 :: "int \<Rightarrow> int" where
  "wrap_int16 x = (x + 32768) mod 65536 - 32768"

lemma wrap_int16_fits [simp]: "fits_int16 (wrap_int16 x)"
proof -
  have "0 \<le> (x + 32768) mod 65536" and "(x + 32768) mod 65536 < 65536"
    by simp_all
  then show ?thesis by (simp add: wrap_int16_def fits_int16_def)
qed

lemma wrap_int16_id [simp]: "fits_int16 x \<Longrightarrow> wrap_int16 x = x"
  by (simp add: wrap_int16_def fits_int16_def)

lemma fits_int16_sint [simp]: "fits_int16 (sint (w :: u16))"
  using sint_greater_eq [of w] sint_less [of w] by (simp add: fits_int16_def)

lemma sint_u16_nonneg:
  fixes w :: u16
  assumes "0 \<le> sint w"
  shows "sint w = int (unat w)"
proof -
  have s: "sint w = (uint w + 32768) mod 65536 - 32768"
    using int_word_sint [of "uint w", where 'a = 16] by simp
  have bounds: "0 \<le> uint w" "uint w < 65536"
    using uint_lt2p [of w] by simp_all
  show ?thesis
  proof (cases "uint w < 32768")
    case True
    then show ?thesis using bounds by (simp add: s)
  next
    case False
    then have "(uint w - 32768 + 65536) mod 65536 = uint w - 32768"
      using bounds by (subst mod_add_self2) simp
    then show ?thesis using assms bounds by (simp add: s add.commute)
  qed
qed

text \<open>The integer division of C++ drops the fraction.\<close>

definition cxx_div :: "int \<Rightarrow> int \<Rightarrow> int" where
  "cxx_div x n = (let q = \<bar>x\<bar> div \<bar>n\<bar> in if x < 0 \<longleftrightarrow> n < 0 then q else - q)"

lemma mult_div_bounds:
  fixes a b :: int
  assumes "0 < b"
  shows "b * (a div b) \<le> a \<and> a < b * (a div b) + b"
proof -
  have "b * (a div b) + a mod b = a" by simp
  moreover have "0 \<le> a mod b" and "a mod b < b" using assms by simp_all
  ultimately show ?thesis by linarith
qed

lemma cxx_div_decomp:
  assumes "0 < b"
  shows "\<bar>a - cxx_div a b * b\<bar> < b"
  using mult_div_bounds [OF assms, of a] mult_div_bounds [OF assms, of "- a"] assms
  by (auto simp: cxx_div_def Let_def abs_if algebra_simps)

section \<open>Lists\<close>

lemma sorted_wrt_removed:
  "sorted_wrt P (xs @ y # ys) \<Longrightarrow> sorted_wrt P (xs @ ys)"
  by (auto simp: sorted_wrt_append)

lemma last_in_mset: "xs \<noteq> [] \<Longrightarrow> mset (butlast xs) = mset xs - {#last xs#}"
  by (cases xs rule: rev_cases) auto

lemma list_update_append_length: "(xs @ x # ys)[length xs := z] = xs @ z # ys"
  by simp

end
