(* ===== verification/Input_Packets.thy ===== *)
theory Input_Packets
  imports Prelude
begin

text \<open>
  The client's input packets (\<^verbatim>\<open>third-party/moonlight-common-c/src/Input.h\<close>) and their
  batching in \<^verbatim>\<open>src/input.cpp\<close>. A packet is the struct view of the buffer with every field in
  host byte order; the magic number of the header chooses the constructor, and the fields of
  \<^verbatim>\<open>netfloat\<close> type are the 32 bits that were received. A 16-bit field is a word; where the code
  reads it as a \<^verbatim>\<open>short\<close> the model reads it with \<open>sint\<close>.
\<close>

section \<open>Packets\<close>

type_synonym netfloat = u32

record rel_mouse_packet =
  rm_deltaX :: u16
  rm_deltaY :: u16

record abs_mouse_packet =
  am_x :: u16
  am_y :: u16
  am_width :: u16
  am_height :: u16

record scroll_packet =
  sc_amt1 :: u16
  sc_amt2 :: u16

record keyboard_packet =
  kb_release :: bool
  kb_flags :: u8
  kb_keyCode :: u16
  kb_modifiers :: u8

record multi_controller_packet =
  mc_controllerNumber :: u16
  mc_activeGamepadMask :: u16
  mc_buttonFlags :: u16
  mc_leftTrigger :: u8
  mc_rightTrigger :: u8
  mc_leftStickX :: u16
  mc_leftStickY :: u16
  mc_rightStickX :: u16
  mc_rightStickY :: u16
  mc_buttonFlags2 :: u16

record touch_packet =
  tp_eventType :: u8
  tp_rotation :: u16
  tp_pointerId :: u32
  tp_x :: netfloat
  tp_y :: netfloat
  tp_pressureOrDistance :: netfloat
  tp_contactAreaMajor :: netfloat
  tp_contactAreaMinor :: netfloat

record pen_packet =
  pn_eventType :: u8
  pn_toolType :: u8
  pn_penButtons :: u8
  pn_x :: netfloat
  pn_y :: netfloat
  pn_pressureOrDistance :: netfloat
  pn_rotation :: u16
  pn_tilt :: u8
  pn_contactAreaMajor :: netfloat
  pn_contactAreaMinor :: netfloat

record controller_arrival_packet =
  ca_controllerNumber :: u8
  ca_type :: u8
  ca_capabilities :: u16
  ca_supportedButtonFlags :: u32

record controller_touch_packet =
  ct_controllerNumber :: u8
  ct_eventType :: u8
  ct_pointerId :: u32
  ct_x :: netfloat
  ct_y :: netfloat
  ct_pressure :: netfloat

record controller_motion_packet =
  cm_controllerNumber :: u8
  cm_motionType :: u8
  cm_x :: netfloat
  cm_y :: netfloat
  cm_z :: netfloat

record controller_battery_packet =
  cb_controllerNumber :: u8
  cb_batteryState :: u8
  cb_batteryPercentage :: u8

datatype packet =
    Rel_mouse rel_mouse_packet
  | Abs_mouse abs_mouse_packet
  | Mouse_button bool u8
  | Scroll scroll_packet
  | Hscroll u16
  | Keyboard keyboard_packet
  | Unicode bytes
  | Multi_controller multi_controller_packet
  | Touch touch_packet
  | Pen pen_packet
  | Controller_arrival controller_arrival_packet
  | Controller_touch controller_touch_packet
  | Controller_motion controller_motion_packet
  | Controller_battery controller_battery_packet
  | Unknown_magic u32

text \<open>The header's magic; the two flavours of button and key packets have one each.\<close>

fun packet_magic :: "packet \<Rightarrow> u32" where
  "packet_magic (Rel_mouse _) = 0x7"
| "packet_magic (Abs_mouse _) = 0x5"
| "packet_magic (Mouse_button release _) = (if release then 0x9 else 0x8)"
| "packet_magic (Scroll _) = 0xA"
| "packet_magic (Hscroll _) = 0x55000001"
| "packet_magic (Keyboard p) = (if kb_release p then 0x4 else 0x3)"
| "packet_magic (Unicode _) = 0x17"
| "packet_magic (Multi_controller _) = 0xC"
| "packet_magic (Touch _) = 0x55000002"
| "packet_magic (Pen _) = 0x55000003"
| "packet_magic (Controller_arrival _) = 0x55000004"
| "packet_magic (Controller_touch _) = 0x55000005"
| "packet_magic (Controller_motion _) = 0x55000006"
| "packet_magic (Controller_battery _) = 0x55000007"
| "packet_magic (Unknown_magic m) = m"

section \<open>Batching\<close>

text \<open>
  The result says whether the source entry was merged into the destination, which is then the
  second component; the code writes through the \<open>dest\<close> pointer only in that case.
\<close>

datatype 'p batch_result = Batched 'p | Not_batchable | Terminate_batch

text \<open>
  \<^verbatim>\<open>__builtin_add_overflow(a, b, &res)\<close> on shorts: the flag is true when the sum does not fit,
  and \<open>res\<close> is the sum modulo \<open>2^16\<close>.
\<close>

definition builtin_add_overflow :: "u16 \<Rightarrow> u16 \<Rightarrow> bool \<times> u16" where
  "builtin_add_overflow a b = (\<not> fits_int16 (sint a + sint b), a + b)"

definition batch_rel_mouse :: "rel_mouse_packet \<Rightarrow> rel_mouse_packet \<Rightarrow> rel_mouse_packet batch_result"
where
  "batch_rel_mouse dest src =
     (case builtin_add_overflow (rm_deltaX dest) (rm_deltaX src) of (ovX, deltaX) \<Rightarrow>
        if \<not> ovX then Terminate_batch
        else case builtin_add_overflow (rm_deltaY dest) (rm_deltaY src) of (ovY, deltaY) \<Rightarrow>
          if \<not> ovY then Terminate_batch
          else Batched (dest\<lparr>rm_deltaX := deltaX, rm_deltaY := deltaY\<rparr>))"

definition batch_abs_mouse :: "abs_mouse_packet \<Rightarrow> abs_mouse_packet \<Rightarrow> abs_mouse_packet batch_result"
where
  "batch_abs_mouse dest src =
     (if am_width dest \<noteq> am_width src \<or> am_height dest \<noteq> am_height src then Terminate_batch
      else Batched src)"

definition batch_scroll :: "scroll_packet \<Rightarrow> scroll_packet \<Rightarrow> scroll_packet batch_result" where
  "batch_scroll dest src =
     (case builtin_add_overflow (sc_amt1 dest) (sc_amt1 src) of (ov, scrollAmt) \<Rightarrow>
        if \<not> ov then Terminate_batch
        else Batched (dest\<lparr>sc_amt1 := scrollAmt, sc_amt2 := scrollAmt\<rparr>))"

definition batch_hscroll :: "u16 \<Rightarrow> u16 \<Rightarrow> u16 batch_result" where
  "batch_hscroll dest src =
     (case builtin_add_overflow dest src of (ov, scrollAmt) \<Rightarrow>
        if \<not> ov then Terminate_batch else Batched scrollAmt)"

definition batch_multi_controller :: "multi_controller_packet \<Rightarrow> multi_controller_packet
    \<Rightarrow> multi_controller_packet batch_result" where
  "batch_multi_controller dest src =
     (if mc_activeGamepadMask dest \<noteq> mc_activeGamepadMask src then Terminate_batch
      else if mc_controllerNumber dest \<noteq> mc_controllerNumber src then Not_batchable
      else if mc_buttonFlags dest \<noteq> mc_buttonFlags src \<or> mc_buttonFlags2 dest \<noteq> mc_buttonFlags2 src
      then Terminate_batch
      else Batched src)"

definition LI_TOUCH_EVENT_HOVER :: u8 where "LI_TOUCH_EVENT_HOVER = 0x00"
definition LI_TOUCH_EVENT_MOVE :: u8 where "LI_TOUCH_EVENT_MOVE = 0x03"

definition batch_touch :: "touch_packet \<Rightarrow> touch_packet \<Rightarrow> touch_packet batch_result" where
  "batch_touch dest src =
     (if tp_eventType dest \<noteq> LI_TOUCH_EVENT_MOVE \<and> tp_eventType dest \<noteq> LI_TOUCH_EVENT_HOVER
      then Terminate_batch
      else if tp_eventType src \<noteq> LI_TOUCH_EVENT_MOVE \<and> tp_eventType src \<noteq> LI_TOUCH_EVENT_HOVER
      then Terminate_batch
      else if tp_pointerId dest \<noteq> tp_pointerId src then Not_batchable
      else if tp_eventType dest \<noteq> tp_eventType src then Terminate_batch
      else Batched src)"

definition batch_pen :: "pen_packet \<Rightarrow> pen_packet \<Rightarrow> pen_packet batch_result" where
  "batch_pen dest src =
     (if pn_eventType dest \<noteq> LI_TOUCH_EVENT_MOVE \<and> pn_eventType dest \<noteq> LI_TOUCH_EVENT_HOVER
      then Terminate_batch
      else if pn_eventType dest \<noteq> pn_eventType src then Terminate_batch
      else if pn_penButtons dest \<noteq> pn_penButtons src then Terminate_batch
      else if pn_toolType dest \<noteq> pn_toolType src then Terminate_batch
      else Batched src)"

definition batch_controller_touch :: "controller_touch_packet \<Rightarrow> controller_touch_packet
    \<Rightarrow> controller_touch_packet batch_result" where
  "batch_controller_touch dest src =
     (if ct_eventType dest \<noteq> LI_TOUCH_EVENT_MOVE \<and> ct_eventType dest \<noteq> LI_TOUCH_EVENT_HOVER
      then Terminate_batch
      else if ct_controllerNumber dest \<noteq> ct_controllerNumber src then Not_batchable
      else if ct_eventType src \<noteq> LI_TOUCH_EVENT_MOVE \<and> ct_eventType src \<noteq> LI_TOUCH_EVENT_HOVER
      then Terminate_batch
      else if ct_pointerId dest \<noteq> ct_pointerId src then Not_batchable
      else if ct_eventType dest \<noteq> ct_eventType src then Terminate_batch
      else Batched src)"

definition batch_controller_motion :: "controller_motion_packet \<Rightarrow> controller_motion_packet
    \<Rightarrow> controller_motion_packet batch_result" where
  "batch_controller_motion dest src =
     (if cm_controllerNumber dest \<noteq> cm_controllerNumber src then Not_batchable
      else if cm_motionType dest \<noteq> cm_motionType src then Not_batchable
      else Batched src)"

fun map_batch :: "('p \<Rightarrow> 'q) \<Rightarrow> 'p batch_result \<Rightarrow> 'q batch_result" where
  "map_batch f (Batched p) = Batched (f p)"
| "map_batch f Not_batchable = Not_batchable"
| "map_batch f Terminate_batch = Terminate_batch"

text \<open>
  The dispatch: the magic numbers must agree, which makes both packets the same struct, and the
  magic chooses the struct's own function.
\<close>

definition batch :: "packet \<Rightarrow> packet \<Rightarrow> packet batch_result" where
  "batch dest src =
     (if packet_magic dest \<noteq> packet_magic src then Terminate_batch
      else case dest of
       Rel_mouse d \<Rightarrow>
         (case src of Rel_mouse s \<Rightarrow> map_batch Rel_mouse (batch_rel_mouse d s) | _ \<Rightarrow> Terminate_batch)
     | Abs_mouse d \<Rightarrow>
         (case src of Abs_mouse s \<Rightarrow> map_batch Abs_mouse (batch_abs_mouse d s) | _ \<Rightarrow> Terminate_batch)
     | Scroll d \<Rightarrow>
         (case src of Scroll s \<Rightarrow> map_batch Scroll (batch_scroll d s) | _ \<Rightarrow> Terminate_batch)
     | Hscroll d \<Rightarrow>
         (case src of Hscroll s \<Rightarrow> map_batch Hscroll (batch_hscroll d s) | _ \<Rightarrow> Terminate_batch)
     | Multi_controller d \<Rightarrow>
         (case src of Multi_controller s \<Rightarrow> map_batch Multi_controller (batch_multi_controller d s) | _ \<Rightarrow> Terminate_batch)
     | Touch d \<Rightarrow>
         (case src of Touch s \<Rightarrow> map_batch Touch (batch_touch d s) | _ \<Rightarrow> Terminate_batch)
     | Pen d \<Rightarrow>
         (case src of Pen s \<Rightarrow> map_batch Pen (batch_pen d s) | _ \<Rightarrow> Terminate_batch)
     | Controller_touch d \<Rightarrow>
         (case src of Controller_touch s \<Rightarrow> map_batch Controller_touch (batch_controller_touch d s) | _ \<Rightarrow> Terminate_batch)
     | Controller_motion d \<Rightarrow>
         (case src of Controller_motion s \<Rightarrow> map_batch Controller_motion (batch_controller_motion d s) | _ \<Rightarrow> Terminate_batch)
     | _ \<Rightarrow> Terminate_batch)"

text \<open>
  The loop of \<^verbatim>\<open>passthrough_next_message\<close> over the rest of the queue: merged entries are erased,
  entries that cannot be merged are stepped over, and the loop stops at the first that ends it.
\<close>

fun batch_queue :: "('p \<Rightarrow> 'p \<Rightarrow> 'p batch_result) \<Rightarrow> 'p \<Rightarrow> 'p list \<Rightarrow> 'p \<times> 'p list" where
  "batch_queue bat payload [] = (payload, [])"
| "batch_queue bat payload (e # es) =
     (case bat payload e of
        Terminate_batch \<Rightarrow> (payload, e # es)
      | Batched payload' \<Rightarrow> batch_queue bat payload' es
      | Not_batchable \<Rightarrow> (case batch_queue bat payload es of (p, rest) \<Rightarrow> (p, e # rest)))"

definition take_next_message :: "packet list \<Rightarrow> (packet \<times> packet list) option" where
  "take_next_message q =
     (case q of [] \<Rightarrow> None | payload # rest \<Rightarrow> Some (batch_queue batch payload rest))"

lemmas batch_defs = batch_rel_mouse_def batch_abs_mouse_def batch_scroll_def batch_hscroll_def
  batch_multi_controller_def batch_touch_def batch_pen_def batch_controller_touch_def
  batch_controller_motion_def builtin_add_overflow_def

declare batch_defs [op_defs]

section \<open>What batching may assume\<close>

text \<open>
  A batching function over packets that carry the state of a device: merging keeps what was observed of the
  newer packet, an entry that is stepped over may as well be processed before, and it is stepped over by the merged
  packet, too. \<open>state_like\<close> are the packets the contract speaks about.
\<close>

locale state_batching =
  fixes bat :: "'p \<Rightarrow> 'p \<Rightarrow> 'p batch_result"
    and state_like :: "'p \<Rightarrow> bool"
    and effect :: "'p \<Rightarrow> 's \<Rightarrow> 's"
  assumes batched: "state_like d \<Longrightarrow> bat d s = Batched m \<Longrightarrow> state_like m \<and> effect m st = effect s (effect d st)"
    and stays: "state_like d \<Longrightarrow> bat d s = Batched m \<Longrightarrow> bat d e = Not_batchable \<Longrightarrow> bat m e = Not_batchable"
    and commute: "state_like d \<Longrightarrow> bat d e = Not_batchable \<Longrightarrow> effect e (effect d st) = effect d (effect e st)"
begin

lemma batch_queue_transparent:
  "state_like p \<Longrightarrow> batch_queue bat p es = (m, rest) \<Longrightarrow>
   state_like m \<and> (\<forall>e. bat p e = Not_batchable \<longrightarrow> bat m e = Not_batchable) \<and>
   fold effect rest (effect m st) = fold effect es (effect p st)"
proof (induction es arbitrary: p m rest st)
  case Nil
  then show ?case by simp
next
  case (Cons e es)
  show ?case
  proof (cases "bat p e")
    case (Batched p')
    note merged = batched [OF Cons.prems(1) Batched] stays [OF Cons.prems(1) Batched]
    from merged Cons.IH [of p' m rest st] Cons.prems(2) Batched show ?thesis by simp
  next
    case Not_batchable
    with Cons.prems(2) obtain rest' where
      r: "batch_queue bat p es = (m, rest')" "rest = e # rest'"
      by (auto split: prod.splits)
    from Cons.IH [OF Cons.prems(1) r(1), of "effect e st"]
    have m: "state_like m" "\<forall>e. bat p e = Not_batchable \<longrightarrow> bat m e = Not_batchable"
      and f: "fold effect rest' (effect m (effect e st)) = fold effect es (effect p (effect e st))"
      by simp_all
    then have "bat m e = Not_batchable" using Not_batchable by blast
    then show ?thesis
      using m f r(2) commute [OF Cons.prems(1) Not_batchable] commute [OF m(1), of e] by simp
  next
    case Terminate_batch
    with Cons.prems show ?thesis by simp
  qed
qed

end

lemma batch_queue_subseq:
  "batch_queue bat p es = (m, rest) \<Longrightarrow> subseq rest es"
  by (induction es arbitrary: p rest) (auto split: batch_result.splits prod.splits)

lemma batch_queue_length:
  "length (snd (batch_queue bat p es)) \<le> length es"
  by (metis batch_queue_subseq list_emb_length prod.collapse)

section \<open>What is observed of the packets\<close>

text \<open>
  The devices that report where something is. A packet either moves a device on, or it is an event: a press, a release, a
  text, a finger that goes down or up.
\<close>

datatype device =
    Pointer
  | Gamepad u16
  | Finger u32
  | Stylus
  | Pad_finger u8 u32
  | Sensor u8 u8

definition moves_on :: "u8 \<Rightarrow> bool" where
  "moves_on eventType \<longleftrightarrow> eventType = LI_TOUCH_EVENT_MOVE \<or> eventType = LI_TOUCH_EVENT_HOVER"

datatype packet_kind = Motion device | Pad_event u8 | Event

fun kind_of :: "packet \<Rightarrow> packet_kind" where
  "kind_of (Abs_mouse _) = Motion Pointer"
| "kind_of (Multi_controller p) = Motion (Gamepad (mc_controllerNumber p))"
| "kind_of (Touch p) = (if moves_on (tp_eventType p) then Motion (Finger (tp_pointerId p)) else Event)"
| "kind_of (Pen p) = (if moves_on (pn_eventType p) then Motion Stylus else Event)"
| "kind_of (Controller_touch p) =
     (if moves_on (ct_eventType p) then Motion (Pad_finger (ct_controllerNumber p) (ct_pointerId p)) else Pad_event (ct_controllerNumber p))"
| "kind_of (Controller_motion p) = Motion (Sensor (cm_controllerNumber p) (cm_motionType p))"
| "kind_of _ = Event"

text \<open>
  Of two reports of a device the first is only a place on the way if nothing but positions changed: the same buttons
  and tool, the same controllers, both on or both above the surface, the same area of reference.
\<close>

definition on_the_way :: "packet \<Rightarrow> packet \<Rightarrow> bool" where
  "on_the_way p q \<longleftrightarrow>
     (case p of
        Abs_mouse p \<Rightarrow> (case q of Abs_mouse q \<Rightarrow> am_width p = am_width q \<and> am_height p = am_height q | _ \<Rightarrow> False)
      | Multi_controller p \<Rightarrow> (case q of Multi_controller q \<Rightarrow> mc_activeGamepadMask p = mc_activeGamepadMask q \<and>
          mc_buttonFlags p = mc_buttonFlags q \<and> mc_buttonFlags2 p = mc_buttonFlags2 q | _ \<Rightarrow> False)
      | Touch p \<Rightarrow> (case q of Touch q \<Rightarrow> tp_eventType p = tp_eventType q | _ \<Rightarrow> False)
      | Pen p \<Rightarrow> (case q of Pen q \<Rightarrow> pn_eventType p = pn_eventType q \<and> pn_penButtons p = pn_penButtons q \<and>
          pn_toolType p = pn_toolType q | _ \<Rightarrow> False)
      | Controller_touch p \<Rightarrow> (case q of Controller_touch q \<Rightarrow> ct_eventType p = ct_eventType q | _ \<Rightarrow> False)
      | Controller_motion p \<Rightarrow> (case q of Controller_motion q \<Rightarrow> True | _ \<Rightarrow> False)
      | _ \<Rightarrow> False)"

text \<open>
  What an observer of the processed packets knows: of each device all its reports but the places on the way, the
  masks of controllers as they changed, and every event with all that was known when it happened. Pads are
  observed separately: with an event of a pad goes what was known of all devices but the fingers on other pads.
\<close>

type_synonym reports = "device \<Rightarrow> packet list"

record observation =
  ob_reports :: reports
  ob_masks :: "u16 list"
  ob_pad_events :: "u8 \<Rightarrow> (packet \<times> reports \<times> u16 list) list"
  ob_events :: "(packet \<times> reports \<times> u16 list \<times> (u8 \<Rightarrow> (packet \<times> reports \<times> u16 list) list)) list"

definition add_report :: "packet \<Rightarrow> packet list \<Rightarrow> packet list" where
  "add_report p ps = (if ps \<noteq> [] \<and> on_the_way (last ps) p then butlast ps @ [p] else ps @ [p])"

definition add_mask :: "packet \<Rightarrow> u16 list \<Rightarrow> u16 list" where
  "add_mask p masks =
     (case p of
        Multi_controller c \<Rightarrow> if masks \<noteq> [] \<and> last masks = mc_activeGamepadMask c then masks else masks @ [mc_activeGamepadMask c]
      | _ \<Rightarrow> masks)"

definition seen_from :: "u8 \<Rightarrow> reports \<Rightarrow> reports" where
  "seen_from n reports = (\<lambda>d. case d of Pad_finger k _ \<Rightarrow> if k = n then reports d else [] | _ \<Rightarrow> reports d)"

definition observe :: "packet \<Rightarrow> observation \<Rightarrow> observation" where
  "observe p ob =
     (case kind_of p of
        Motion d \<Rightarrow> ob\<lparr>ob_reports := (ob_reports ob)(d := add_report p (ob_reports ob d)), ob_masks := add_mask p (ob_masks ob)\<rparr>
      | Pad_event n \<Rightarrow> ob\<lparr>ob_pad_events := (ob_pad_events ob)
          (n := ob_pad_events ob n @ [(p, seen_from n (ob_reports ob), ob_masks ob)])\<rparr>
      | Event \<Rightarrow> ob\<lparr>ob_events := ob_events ob @ [(p, ob_reports ob, ob_masks ob, ob_pad_events ob)]\<rparr>)"

definition increments :: "packet \<Rightarrow> bool" where
  "increments p \<longleftrightarrow> (case p of Rel_mouse _ \<Rightarrow> True | Scroll _ \<Rightarrow> True | Hscroll _ \<Rightarrow> True | _ \<Rightarrow> False)"

lemma map_batch_simps [simp]:
  "map_batch f r = Batched q \<longleftrightarrow> (\<exists>p. r = Batched p \<and> q = f p)"
  "map_batch f r = Not_batchable \<longleftrightarrow> r = Not_batchable"
  "map_batch f r = Terminate_batch \<longleftrightarrow> r = Terminate_batch"
  by (cases r; auto)+

text \<open>What the functions of the structs guarantee.\<close>

lemma batch_merged:
  assumes "\<not> increments d" and "batch d s = Batched m"
  shows "m = s \<and> \<not> increments s \<and> on_the_way d s \<and> (\<exists>v. kind_of d = Motion v \<and> kind_of s = Motion v) \<and>
    (\<forall>masks. add_mask s (add_mask d masks) = add_mask s masks)"
  using assms
  by (cases d; cases s) (auto simp: batch_def batch_defs increments_def moves_on_def on_the_way_def add_mask_def split: if_splits)

lemma on_the_way_trans: "on_the_way d s \<Longrightarrow> on_the_way p s = on_the_way p d"
  by (cases d; cases s; simp add: on_the_way_def) (cases p; auto)+

lemma batch_stays:
  assumes "\<not> increments d" and "batch d s = Batched m" and "batch d e = Not_batchable"
  shows "batch m e = Not_batchable"
  using assms
  by (cases d; cases s; simp add: batch_def batch_defs increments_def split: if_splits)
    (cases e; auto simp: batch_def batch_defs split: if_splits)+

lemma batch_stepped:
  assumes "\<not> increments d" and "batch d e = Not_batchable"
  shows "(\<exists>v w. kind_of d = Motion v \<and> kind_of e = Motion w \<and> v \<noteq> w \<and>
      (\<forall>masks. add_mask e (add_mask d masks) = add_mask d (add_mask e masks))) \<or>
    (\<exists>k i n. kind_of d = Motion (Pad_finger k i) \<and> kind_of e = Pad_event n \<and> k \<noteq> n \<and> (\<forall>masks. add_mask d masks = masks))"
  using assms
  by (cases d; cases e) (auto simp: batch_def batch_defs increments_def moves_on_def add_mask_def split: if_splits)

lemma observe_merged:
  assumes "on_the_way d s" and "kind_of d = Motion v" and "kind_of s = Motion v"
    and "\<And>masks. add_mask s (add_mask d masks) = add_mask s masks"
  shows "observe s (observe d ob) = observe s ob"
proof -
  have "add_report s (add_report d ps) = add_report s ps" for ps
    using assms(1) on_the_way_trans [OF assms(1)] by (auto simp: add_report_def)
  then show ?thesis using assms(2-4) by (simp add: observe_def)
qed

interpretation devices: state_batching batch "\<lambda>p. \<not> increments p" observe
proof unfold_locales
  fix d s m :: packet and ob :: observation
  assume "\<not> increments d" and "batch d s = Batched m"
  from batch_merged [OF this] observe_merged [of d s _ ob]
  show "\<not> increments m \<and> observe m ob = observe s (observe d ob)" by auto
next
  fix d e :: packet and ob :: observation
  assume "\<not> increments d" and "batch d e = Not_batchable"
  from batch_stepped [OF this] show "observe e (observe d ob) = observe d (observe e ob)"
  proof (elim disjE exE conjE)
    fix v w
    assume "kind_of d = Motion v" "kind_of e = Motion w" "v \<noteq> w"
      "\<forall>masks. add_mask e (add_mask d masks) = add_mask d (add_mask e masks)"
    then show ?thesis by (simp add: observe_def fun_upd_twist)
  next
    fix k i n
    assume pad: "kind_of d = Motion (Pad_finger k i)" "kind_of e = Pad_event n" "k \<noteq> n" "\<forall>masks. add_mask d masks = masks"
    then have "seen_from n ((ob_reports ob)(Pad_finger k i := r)) = seen_from n (ob_reports ob)" for r
      by (auto simp: seen_from_def split: device.split)
    then show ?thesis using pad by (simp add: observe_def)
  qed
qed (use batch_stays in blast)

section \<open>Properties\<close>


definition sample_motion :: "u8 \<Rightarrow> u32 \<Rightarrow> packet" where
  "sample_motion n x = Controller_motion
     \<lparr>cm_controllerNumber = n, cm_motionType = 1, cm_x = x, cm_y = 0, cm_z = 0\<rparr>"


text \<open>
  Relative motion and wheel packets are merged only when the sum does \<^emph>\<open>not\<close> fit a 16-bit
  integer (\<^verbatim>\<open>__builtin_add_overflow\<close> reports overflow with \<open>true\<close>, and the code negates it): a pair
  whose sums fit always ends the batch, and a merged packet never carries the sum of the two.
\<close>

theorem batch_increments_inverted:
  "(fits_int16 (sint (rm_deltaX d) + sint (rm_deltaX s)) \<or>
    fits_int16 (sint (rm_deltaY d) + sint (rm_deltaY s)) \<longrightarrow>
      batch (Rel_mouse d) (Rel_mouse s) = Terminate_batch) \<and>
   (batch (Rel_mouse d) (Rel_mouse s) = Batched (Rel_mouse m) \<longrightarrow>
      sint (rm_deltaX m) \<noteq> sint (rm_deltaX d) + sint (rm_deltaX s) \<and>
      sint (rm_deltaY m) \<noteq> sint (rm_deltaY d) + sint (rm_deltaY s)) \<and>
   (fits_int16 (sint (sc_amt1 sd) + sint (sc_amt1 ss)) \<longrightarrow>
      batch (Scroll sd) (Scroll ss) = Terminate_batch) \<and>
   (fits_int16 (sint ha + sint hb) \<longrightarrow> batch (Hscroll ha) (Hscroll hb) = Terminate_batch)"
proof -
  have "sint (a + b) \<noteq> sint a + sint b" if "\<not> fits_int16 (sint a + sint b)" for a b :: u16
    using that by (metis fits_int16_sint)
  then show ?thesis
    by (auto simp: batch_def batch_defs split: if_splits)
qed

theorem batch_increments_inverted_witness:
  "batch (Hscroll 120) (Hscroll 120) = Terminate_batch \<and>
   batch (Hscroll 32767) (Hscroll 1) = Batched (Hscroll 32768) \<and>
   sint (32768 :: u16) = - 32768"
proof -
  have "fits_int16 (sint (120 :: u16) + sint (120 :: u16))" by (simp add: fits_int16_def)
  with batch_increments_inverted [where ha = 120 and hb = 120 and d = undefined and s = undefined
      and m = undefined and sd = undefined and ss = undefined]
  show ?thesis by (simp add: batch_def batch_defs fits_int16_def)
qed

end
