(* ===== verification/Task_Pool.thy ===== *)
theory Task_Pool
  imports Prelude
begin

text \<open>
  \<^verbatim>\<open>src/task_pool.h\<close> and the worker loop of \<^verbatim>\<open>src/thread_pool.h\<close>. The pool holds a
  FIFO of tasks to run now and a vector of timer tasks ordered by falling deadline, so that the
  back of the vector is the next one due. A task is a heap object: its id is its address
  (\<open>0\<close> is the null pointer), and its body is a value of a type parameter, the closure. Every
  method of the class holds \<^verbatim>\<open>_task_mutex\<close>, so each is one atomic function of the state.
  The clock is an argument: \<^verbatim>\<open>steady_clock::now()\<close> is the parameter \<open>now\<close>.

  The interface \<open>deadline_queue\<close> states what a client of the timers relies on; it is
  interpreted on the pool at the end of the theory.
\<close>

section \<open>State\<close>

type_synonym task_id = nat
type_synonym time_point = int

text \<open>
  \<^verbatim>\<open>__task\<close> is a \<^verbatim>\<open>unique_ptr\<close>: \<open>None\<close> is the null pointer left behind by a move.
\<close>

type_synonym 'a task = "(task_id \<times> 'a) option"

record 'a task_pool =
  p_tasks :: "'a task list"
  p_timer_tasks :: "(time_point \<times> 'a task) list"

definition empty_pool :: "'a task_pool" where
  "empty_pool = \<lparr>p_tasks = [], p_timer_tasks = []\<rparr>"

text \<open>\<^verbatim>\<open>&*task\<close>, the address a task is compared by.\<close>

fun task_addr :: "'a task \<Rightarrow> task_id" where
  "task_addr None = 0"
| "task_addr (Some (i, _)) = i"

section \<open>Operations\<close>

definition pool_push :: "task_id \<times> 'a \<Rightarrow> 'a task_pool \<Rightarrow> 'a task_pool" where
  "pool_push t p = p\<lparr>p_tasks := p_tasks p @ [Some t]\<rparr>"

text \<open>The position of the first entry with a smaller deadline; the new entry goes there.\<close>

fun insert_timer :: "time_point \<times> 'a task \<Rightarrow> (time_point \<times> 'a task) list
    \<Rightarrow> (time_point \<times> 'a task) list" where
  "insert_timer e [] = [e]"
| "insert_timer e (x # xs) = (if fst x < fst e then e # x # xs else x # insert_timer e xs)"

definition push_timer :: "time_point \<times> 'a task \<Rightarrow> 'a task_pool \<Rightarrow> 'a task_pool" where
  "push_timer e p = p\<lparr>p_timer_tasks := insert_timer e (p_timer_tasks p)\<rparr>"

text \<open>
  The templated overload computes the deadline and returns the address of the new task.
\<close>

definition push_delayed :: "time_point \<Rightarrow> task_id \<times> 'a \<Rightarrow> int \<Rightarrow> 'a task_pool
    \<Rightarrow> task_id \<times> 'a task_pool" where
  "push_delayed now t duration p = (fst t, push_timer (now + duration, Some t) p)"

text \<open>
  \<^verbatim>\<open>delay\<close>: the entry gets its new deadline, then one pass from its position to the front
  swaps it with its predecessor while the deadline is larger.
\<close>

fun find_timer :: "task_id \<Rightarrow> (time_point \<times> 'a task) list \<Rightarrow> nat option" where
  "find_timer i [] = None"
| "find_timer i (x # xs) =
     (if task_addr (snd x) = i then Some 0 else map_option Suc (find_timer i xs))"

fun bubble_front :: "nat \<Rightarrow> (time_point \<times> 'a task) list \<Rightarrow> (time_point \<times> 'a task) list" where
  "bubble_front 0 ts = ts"
| "bubble_front (Suc k) ts = bubble_front k
     (if fst (ts ! k) < fst (ts ! Suc k) then ts[k := ts ! Suc k, Suc k := ts ! k] else ts)"

definition delay_task :: "time_point \<Rightarrow> task_id \<Rightarrow> int \<Rightarrow> 'a task_pool \<Rightarrow> 'a task_pool" where
  "delay_task now i duration p =
     (case find_timer i (p_timer_tasks p) of
        None \<Rightarrow> p
      | Some k \<Rightarrow> p\<lparr>p_timer_tasks := bubble_front k
          ((p_timer_tasks p)[k := (now + duration, snd (p_timer_tasks p ! k))])\<rparr>)"

fun remove_timer :: "task_id \<Rightarrow> (time_point \<times> 'a task) list \<Rightarrow> (time_point \<times> 'a task) list" where
  "remove_timer i [] = []"
| "remove_timer i (x # xs) = (if task_addr (snd x) = i then xs else x # remove_timer i xs)"

definition cancel_task :: "task_id \<Rightarrow> 'a task_pool \<Rightarrow> bool \<times> 'a task_pool" where
  "cancel_task i p =
     (find_timer i (p_timer_tasks p) \<noteq> None,
      p\<lparr>p_timer_tasks := remove_timer i (p_timer_tasks p)\<rparr>)"

text \<open>
  \<^verbatim>\<open>pop(task_id)\<close> moves the pair out of the vector and leaves the emptied entry in place:
  the deadline stays, the pointer is null.
\<close>

definition pop_timer_id :: "task_id \<Rightarrow> 'a task_pool
    \<Rightarrow> (time_point \<times> 'a task) option \<times> 'a task_pool" where
  "pop_timer_id i p =
     (case find_timer i (p_timer_tasks p) of
        None \<Rightarrow> (None, p)
      | Some k \<Rightarrow> (Some (p_timer_tasks p ! k),
          p\<lparr>p_timer_tasks := (p_timer_tasks p)[k := (fst (p_timer_tasks p ! k), None)]\<rparr>))"

text \<open>\<^verbatim>\<open>pop()\<close>: a task to run now, else the back of the timers if it is due.\<close>

definition timer_due :: "time_point \<Rightarrow> 'a task_pool \<Rightarrow> bool" where
  "timer_due now p \<longleftrightarrow> p_timer_tasks p \<noteq> [] \<and> fst (last (p_timer_tasks p)) \<le> now"

definition pool_pop :: "time_point \<Rightarrow> 'a task_pool \<Rightarrow> 'a task option \<times> 'a task_pool" where
  "pool_pop now p =
     (case p_tasks p of
        t # ts \<Rightarrow> (Some t, p\<lparr>p_tasks := ts\<rparr>)
      | [] \<Rightarrow>
          if timer_due now p
          then (Some (snd (last (p_timer_tasks p))), p\<lparr>p_timer_tasks := butlast (p_timer_tasks p)\<rparr>)
          else (None, p))"

definition pool_ready :: "time_point \<Rightarrow> 'a task_pool \<Rightarrow> bool" where
  "pool_ready now p \<longleftrightarrow> p_tasks p \<noteq> [] \<or> timer_due now p"

definition pool_next :: "'a task_pool \<Rightarrow> time_point option" where
  "pool_next p = (if p_timer_tasks p = [] then None else Some (fst (last (p_timer_tasks p))))"

lemmas pool_defs = pool_push_def push_timer_def push_delayed_def cancel_task_def pool_pop_def
  pool_ready_def pool_next_def timer_due_def

declare pool_defs [op_defs]

section \<open>The worker loop\<close>

text \<open>
  One turn of \<^verbatim>\<open>ThreadPool::_main\<close>. A task that is popped is run; a null task is
  dereferenced. Otherwise, with \<^verbatim>\<open>_lock\<close> held, \<^verbatim>\<open>ready()\<close> is asked again at a later
  instant, then the stop flag is read, then the worker sleeps.
\<close>

datatype 'a worker_action =
    Run "task_id \<times> 'a"
  | Null_deref
  | Poll_again
  | Leave
  | Wait_until time_point
  | Wait_notify

definition worker_turn :: "bool \<Rightarrow> time_point \<Rightarrow> time_point \<Rightarrow> 'a task_pool
    \<Rightarrow> 'a worker_action \<times> 'a task_pool" where
  "worker_turn continue now now' p =
     (case pool_pop now p of
        (Some (Some t), p') \<Rightarrow> (Run t, p')
      | (Some None, p') \<Rightarrow> (Null_deref, p')
      | (None, p') \<Rightarrow>
          if pool_ready now' p' then (Poll_again, p')
          else if \<not> continue then (Leave, p')
          else (case pool_next p' of
                  Some tp \<Rightarrow> (Wait_until tp, p')
                | None \<Rightarrow> (Wait_notify, p')))"

text \<open>
  After the stop flag, the remaining loop \<^verbatim>\<open>while (auto task = this->pop())\<close>, with the clock
  fixed and tasks that push nothing; the fuel is the number of entries.
\<close>

fun drain_turns :: "(time_point \<Rightarrow> 'q \<Rightarrow> 'x option \<times> 'q) \<Rightarrow> nat \<Rightarrow> time_point \<Rightarrow> 'q
    \<Rightarrow> 'x list \<times> 'q" where
  "drain_turns pop 0 now p = ([], p)"
| "drain_turns pop (Suc n) now p =
     (case pop now p of
        (None, p') \<Rightarrow> ([], p')
      | (Some t, p') \<Rightarrow> (let (ts, p'') = drain_turns pop n now p' in (t # ts, p'')))"

definition drain_pool :: "time_point \<Rightarrow> 'a task_pool \<Rightarrow> 'a task list \<times> 'a task_pool" where
  "drain_pool now p =
     drain_turns pool_pop (length (p_tasks p) + length (p_timer_tasks p)) now p"

section \<open>What a client of the pool relies on\<close>

text \<open>
  Tasks to run now come first and in order; timers are a bag of deadlines, the earliest due one
  is taken, and nothing is taken before its deadline.
\<close>

locale deadline_queue =
  fixes inv :: "'q \<Rightarrow> bool"
    and immediate :: "'q \<Rightarrow> 'x list"
    and pending :: "'q \<Rightarrow> (time_point \<times> 'x) multiset"
    and insert :: "time_point \<times> 'x \<Rightarrow> 'q \<Rightarrow> 'q"
    and pop :: "time_point \<Rightarrow> 'q \<Rightarrow> 'x option \<times> 'q"
    and next_deadline :: "'q \<Rightarrow> time_point option"
  assumes inv_insert: "inv q \<Longrightarrow> inv (insert e q)"
    and immediate_insert: "inv q \<Longrightarrow> immediate (insert e q) = immediate q"
    and pending_insert: "inv q \<Longrightarrow> pending (insert e q) = add_mset e (pending q)"
    and pop_immediate: "inv q \<Longrightarrow> immediate q = t # ts \<Longrightarrow>
      \<exists>q'. pop now q = (Some t, q') \<and> inv q' \<and> immediate q' = ts \<and> pending q' = pending q"
    and pop_timer: "inv q \<Longrightarrow> immediate q = [] \<Longrightarrow> pop now q = (Some x, q') \<Longrightarrow>
      inv q' \<and> immediate q' = [] \<and>
      (\<exists>d \<le> now. pending q = add_mset (d, x) (pending q') \<and> (\<forall>e \<in># pending q'. d \<le> fst e))"
    and pop_nothing: "inv q \<Longrightarrow> pop now q = (None, q') \<Longrightarrow>
      q' = q \<and> immediate q = [] \<and> (\<forall>e \<in># pending q. now < fst e)"
    and next_deadline_None: "inv q \<Longrightarrow> next_deadline q = None \<longleftrightarrow> pending q = {#}"
    and next_deadline_Some: "inv q \<Longrightarrow> next_deadline q = Some d \<Longrightarrow>
      (\<exists>x. (d, x) \<in># pending q) \<and> (\<forall>e \<in># pending q. d \<le> fst e)"
begin

lemma drain_timers:
  assumes "inv q" and "immediate q = []" and "size (pending q) \<le> n"
    and "drain_turns pop n now q = (ts, q')"
  shows "inv q' \<and> immediate q' = [] \<and> pending q' = filter_mset (\<lambda>e. now < fst e) (pending q) \<and>
    (\<exists>es. ts = map snd es \<and> sorted (map fst es) \<and>
       mset es = filter_mset (\<lambda>e. fst e \<le> now) (pending q))"
  using assms
proof (induction n arbitrary: q ts)
  case 0
  then show ?case by auto
next
  case (Suc n)
  show ?case
  proof (cases "pop now q")
    case (Pair r p)
    show ?thesis
    proof (cases r)
      case None
      with Pair Suc.prems have "p = q" and late: "\<forall>e \<in># pending q. now < fst e"
        using pop_nothing by blast+
      with Pair None Suc.prems have "ts = []" "q' = q" by auto
      moreover from late have "filter_mset (\<lambda>e. now < fst e) (pending q) = pending q"
        by (simp add: filter_mset_eq_conv)
      moreover from late have "filter_mset (\<lambda>e. fst e \<le> now) (pending q) = {#}"
        by fastforce
      ultimately show ?thesis using Suc.prems by simp
    next
      case (Some x)
      with Pair Suc.prems pop_timer [of q now x p]
      obtain d where d: "d \<le> now" "pending q = add_mset (d, x) (pending p)"
        "\<forall>e \<in># pending p. d \<le> fst e" and p: "inv p" "immediate p = []"
        by blast
      obtain ts' where ts': "drain_turns pop n now p = (ts', q')" "ts = x # ts'"
        using Pair Some Suc.prems by (auto split: prod.splits)
      from d Suc.prems(3) have "size (pending p) \<le> n" by simp
      from Suc.IH [OF p this ts'(1)] obtain es where
        es: "ts' = map snd es" "sorted (map fst es)"
          "mset es = filter_mset (\<lambda>e. fst e \<le> now) (pending p)"
        and q': "inv q' \<and> immediate q' = [] \<and>
          pending q' = filter_mset (\<lambda>e. now < fst e) (pending p)"
        by blast
      have "\<forall>e \<in> set es. d \<le> fst e"
        using es(3) d(3) by (metis filter_mset_eq_conv mset_subset_eqD set_mset_mset multiset_filter_subset)
      then have "ts = map snd ((d, x) # es) \<and> sorted (map fst ((d, x) # es)) \<and>
          mset ((d, x) # es) = filter_mset (\<lambda>e. fst e \<le> now) (pending q)"
        using es ts'(2) d by auto
      with q' d show ?thesis by (metis (mono_tags, lifting) filter_mset_add_mset fst_conv not_le)
    qed
  qed
qed

lemma drain_all:
  assumes "inv q" and "length (immediate q) + size (pending q) \<le> n"
    and "drain_turns pop n now q = (ts, q')"
  shows "inv q' \<and> immediate q' = [] \<and> pending q' = filter_mset (\<lambda>e. now < fst e) (pending q) \<and>
    (\<exists>es. ts = immediate q @ map snd es \<and> sorted (map fst es) \<and>
       mset es = filter_mset (\<lambda>e. fst e \<le> now) (pending q))"
  using assms
proof (induction "immediate q" arbitrary: q n ts)
  case Nil
  then show ?case using drain_timers [of q n now ts q'] by simp
next
  case (Cons t rest)
  have imm: "immediate q = t # rest" using Cons.hyps(2) by simp
  from pop_immediate [OF Cons.prems(1) imm, of now]
  obtain p where p: "pop now q = (Some t, p)" "inv p" "immediate p = rest" "pending p = pending q"
    by blast
  obtain m where n: "n = Suc m"
    using Cons.prems(2) imm by (cases n) simp_all
  obtain ts' where ts': "drain_turns pop m now p = (ts', q')" "ts = t # ts'"
    using Cons.prems(3) p(1) n by (auto split: prod.splits)
  have "length (immediate p) + size (pending p) \<le> m"
    using Cons.prems(2) n p imm by simp
  from Cons.hyps(1) [OF p(3) [symmetric] p(2) this ts'(1)] ts'(2) p imm show ?case
    by simp
qed

text \<open>A worker that sleeps until the next deadline does not oversleep a task.\<close>

lemma sleep_safe:
  assumes "inv q" and "next_deadline q = Some d" and "(t, x) \<in># pending q"
  shows "d \<le> t"
  using next_deadline_Some [OF assms(1,2)] assms(3) by fastforce

end

section \<open>The pool's invariant\<close>

definition timers_desc :: "(time_point \<times> 'a task) list \<Rightarrow> bool" where
  "timers_desc ts \<longleftrightarrow> sorted_wrt (\<lambda>x y. fst y \<le> fst x) ts"

definition no_null :: "'a task_pool \<Rightarrow> bool" where
  "no_null p \<longleftrightarrow> None \<notin> set (p_tasks p) \<and> None \<notin> snd ` set (p_timer_tasks p)"

definition pool_inv :: "'a task_pool \<Rightarrow> bool" where
  "pool_inv p \<longleftrightarrow> timers_desc (p_timer_tasks p)"

lemma timers_desc_simps [simp]:
  "timers_desc []"
  "timers_desc (x # xs) \<longleftrightarrow> (\<forall>y \<in> set xs. fst y \<le> fst x) \<and> timers_desc xs"
  by (simp_all add: timers_desc_def)

lemma timers_desc_append [simp]:
  "timers_desc (xs @ ys) \<longleftrightarrow>
     timers_desc xs \<and> timers_desc ys \<and> (\<forall>x \<in> set xs. \<forall>y \<in> set ys. fst y \<le> fst x)"
  by (simp add: timers_desc_def sorted_wrt_append)

lemma mset_insert_timer [simp]: "mset (insert_timer e xs) = add_mset e (mset xs)"
  by (induction xs) auto

lemma set_insert_timer [simp]: "set (insert_timer e xs) = insert e (set xs)"
  by (metis mset_insert_timer set_mset_add_mset_insert set_mset_mset)

lemma timers_desc_insert [simp]: "timers_desc (insert_timer e xs) \<longleftrightarrow> timers_desc xs"
proof (induction xs)
  case (Cons x xs)
  then show ?case by (cases "fst x < fst e") (fastforce+)
qed simp

lemma insert_timer_last: "\<forall>x \<in> set xs. fst e \<le> fst x \<Longrightarrow> insert_timer e xs = xs @ [e]"
  by (induction xs) auto

lemma insert_timer_snoc: "fst x < fst e \<Longrightarrow> insert_timer e (xs @ [x]) = insert_timer e xs @ [x]"
  by (induction xs) auto

lemma bubble_front_insert:
  "timers_desc xs \<Longrightarrow> bubble_front (length xs) (xs @ e # ys) = insert_timer e xs @ ys"
proof (induction xs arbitrary: e ys rule: rev_induct)
  case Nil
  then show ?case by simp
next
  case (snoc x xs)
  show ?case
  proof (cases "fst x < fst e")
    case True
    have "(xs @ x # e # ys)[length xs := e, Suc (length xs) := x] = xs @ e # x # ys"
      by (simp add: list_update_append)
    with True snoc show ?thesis by (simp add: nth_append insert_timer_snoc)
  next
    case False
    with snoc.prems have "\<forall>y \<in> set (xs @ [x]). fst e \<le> fst y" by fastforce
    moreover from snoc.prems have "insert_timer x xs = xs @ [x]" by (simp add: insert_timer_last)
    ultimately show ?thesis using False snoc by (simp add: nth_append insert_timer_last)
  qed
qed

lemma find_timer_SomeD:
  "find_timer i ts = Some k \<Longrightarrow> k < length ts \<and> task_addr (snd (ts ! k)) = i"
  by (induction ts arbitrary: k) (auto split: if_splits)

lemma remove_timer_absent: "find_timer i ts = None \<Longrightarrow> remove_timer i ts = ts"
  by (induction ts) (auto split: if_splits)

lemma remove_timer_split:
  "find_timer i ts = Some k \<Longrightarrow> remove_timer i ts = take k ts @ drop (Suc k) ts"
  by (induction ts arbitrary: k) (auto split: if_splits)

lemma timers_split:
  "k < length ts \<Longrightarrow> ts = take k ts @ ts ! k # drop (Suc k) ts"
  by (rule id_take_nth_drop)

text \<open>The effect of \<^verbatim>\<open>delay\<close>: the entry is taken out and inserted among its predecessors.\<close>

lemma delay_task_effect:
  assumes "pool_inv p" and "find_timer i (p_timer_tasks p) = Some k"
  shows "p_timer_tasks (delay_task now i duration p) =
    insert_timer (now + duration, snd (p_timer_tasks p ! k)) (take k (p_timer_tasks p))
      @ drop (Suc k) (p_timer_tasks p)"
proof -
  let ?ts = "p_timer_tasks p"
  have k: "k < length ?ts" using find_timer_SomeD [OF assms(2)] by simp
  have "timers_desc (take k ?ts)"
    using assms(1) timers_split [OF k] unfolding pool_inv_def
    by (metis timers_desc_append)
  moreover have "?ts[k := e] = take k ?ts @ e # drop (Suc k) ?ts" for e
    using k by (simp add: upd_conv_take_nth_drop)
  ultimately show ?thesis
    using assms(2) k bubble_front_insert [of "take k ?ts"]
    by (simp add: delay_task_def)
qed

lemma timers_desc_below:
  assumes "timers_desc (drop k ts)"
  shows "(\<forall>y \<in> set (drop k ts). fst y \<le> d) \<longleftrightarrow> (k < length ts \<longrightarrow> fst (ts ! k) \<le> d)"
proof (cases "k < length ts")
  case True
  then have "drop k ts = ts ! k # drop (Suc k) ts"
    by (simp add: Cons_nth_drop_Suc)
  moreover from this assms have "\<forall>y \<in> set (drop (Suc k) ts). fst y \<le> fst (ts ! k)"
    by simp
  ultimately show ?thesis using True by (auto intro: order.trans)
qed simp

section \<open>Preservation\<close>

lemma pool_inv_empty [simp]: "pool_inv empty_pool"
  by (simp add: pool_inv_def empty_pool_def)

lemma pool_inv_push [simp]: "pool_inv (pool_push t p) \<longleftrightarrow> pool_inv p"
  by (simp add: pool_inv_def op_defs)

lemma pool_inv_push_timer [simp]: "pool_inv (push_timer e p) \<longleftrightarrow> pool_inv p"
  by (simp add: pool_inv_def op_defs)

lemma timers_desc_butlast: "timers_desc ts \<Longrightarrow> timers_desc (butlast ts)"
  by (metis append_butlast_last_id butlast.simps(1) timers_desc_append)

lemma pool_inv_pop: "pool_inv p \<Longrightarrow> pool_inv (snd (pool_pop now p))"
  by (auto simp: pool_inv_def op_defs timers_desc_butlast split: list.splits)

lemma pool_inv_cancel: "pool_inv p \<Longrightarrow> pool_inv (snd (cancel_task i p))"
proof (cases "find_timer i (p_timer_tasks p)")
  case None
  then show "pool_inv p \<Longrightarrow> ?thesis"
    by (simp add: pool_inv_def op_defs remove_timer_absent)
next
  case (Some k)
  then have "k < length (p_timer_tasks p)" using find_timer_SomeD by blast
  then show "pool_inv p \<Longrightarrow> ?thesis"
    using timers_split [of k "p_timer_tasks p"] Some
    unfolding pool_inv_def
    by (simp add: op_defs remove_timer_split)
      (metis append_Cons append_assoc append_Nil timers_desc_append timers_desc_simps(2) list.set_intros(2))
qed

lemmas pool_invs = pool_inv_pop pool_inv_cancel

declare pool_invs [inv_intros]

lemma last_least: "timers_desc ts \<Longrightarrow> e \<in> set ts \<Longrightarrow> fst (last ts) \<le> fst e"
  by (induction ts rule: rev_induct) auto

section \<open>The pool provides the interface\<close>

interpretation pool: deadline_queue pool_inv p_tasks "\<lambda>p. mset (p_timer_tasks p)" push_timer
  pool_pop pool_next
proof unfold_locales
  fix q :: "'a task_pool" and t ts now
  assume "pool_inv q" and "p_tasks q = t # ts"
  then show "\<exists>q'. pool_pop now q = (Some t, q') \<and> pool_inv q' \<and> p_tasks q' = ts \<and>
      mset (p_timer_tasks q') = mset (p_timer_tasks q)"
    by (simp add: pool_pop_def pool_inv_def)
next
  fix q q' :: "'a task_pool" and x now
  assume q: "pool_inv q" "p_tasks q = []" "pool_pop now q = (Some x, q')"
  let ?ts = "p_timer_tasks q"
  from q have ts: "?ts \<noteq> []" "fst (last ?ts) \<le> now" "x = snd (last ?ts)"
    "q' = q\<lparr>p_timer_tasks := butlast ?ts\<rparr>"
    by (auto simp: pool_pop_def timer_due_def split: if_splits)
  then have "mset ?ts = add_mset (last ?ts) (mset (butlast ?ts))"
    by (metis append_butlast_last_id mset.simps(1) mset.simps(2) mset_append
        union_mset_add_mset_right add.right_neutral)
  moreover have "\<forall>e \<in> set (butlast ?ts). fst (last ?ts) \<le> fst e"
    using q(1) last_least unfolding pool_inv_def by (metis in_set_butlastD)
  ultimately show "pool_inv q' \<and> p_tasks q' = [] \<and>
      (\<exists>d \<le> now. mset ?ts = add_mset (d, x) (mset (p_timer_tasks q')) \<and>
        (\<forall>e \<in># mset (p_timer_tasks q'). d \<le> fst e))"
    using q ts by (auto simp: pool_inv_def timers_desc_butlast intro!: exI [of _ "fst (last ?ts)"])
next
  fix q q' :: "'a task_pool" and now
  assume "pool_inv q" and "pool_pop now q = (None, q')"
  then show "q' = q \<and> p_tasks q = [] \<and> (\<forall>e \<in># mset (p_timer_tasks q). now < fst e)"
    using last_least [of "p_timer_tasks q"]
    by (fastforce simp: pool_pop_def timer_due_def pool_inv_def split: list.splits if_splits)
next
  fix q :: "'a task_pool" and d
  assume "pool_inv q" and "pool_next q = Some d"
  then show "(\<exists>x. (d, x) \<in># mset (p_timer_tasks q)) \<and> (\<forall>e \<in># mset (p_timer_tasks q). d \<le> fst e)"
    using last_least [of "p_timer_tasks q"] last_in_set [of "p_timer_tasks q"]
    by (auto simp: pool_next_def pool_inv_def split: if_splits
        intro!: exI [of _ "snd (last (p_timer_tasks q))"])
qed (auto simp: op_defs pool_inv_def)

section \<open>Properties\<close>

text \<open>
  The shutdown drain of the pool runs every task that is ready and no other: first the tasks
  pushed to run now, in the order they were pushed, then the timer tasks that are due, in the
  order of their deadlines; the timers that are not due stay in the pool, and the order of the
  timers is kept.
\<close>

theorem drain_pool_order:
  assumes "pool_inv p" and "drain_pool now p = (out, p')"
  shows "pool_inv p' \<and> p_tasks p' = [] \<and>
    mset (p_timer_tasks p') = filter_mset (\<lambda>e. now < fst e) (mset (p_timer_tasks p)) \<and>
    (\<exists>due. out = p_tasks p @ map snd due \<and> sorted (map fst due) \<and>
       mset due = filter_mset (\<lambda>e. fst e \<le> now) (mset (p_timer_tasks p)))"
  using pool.drain_all [OF assms(1) _ assms(2) [unfolded drain_pool_def]] by simp

definition sample_pool :: "nat task_pool" where
  "sample_pool = push_timer (30, Some (5, 50)) (push_timer (10, Some (3, 30))
     (push_timer (20, Some (4, 40)) (pool_push (2, 20) empty_pool)))"

theorem drain_pool_order_witness:
  "drain_pool 25 sample_pool =
     ([Some (2, 20), Some (3, 30), Some (4, 40)],
      \<lparr>p_tasks = [], p_timer_tasks = [(30, Some (5, 50))]\<rparr>) \<and>
   p_tasks (snd (drain_pool 25 sample_pool)) = []"
proof -
  have run: "drain_pool 25 sample_pool =
     ([Some (2, 20), Some (3, 30), Some (4, 40)],
      \<lparr>p_tasks = [], p_timer_tasks = [(30, Some (5, 50))]\<rparr>)"
    by (simp add: drain_pool_def sample_pool_def empty_pool_def op_defs numeral_eq_Suc)
  have "pool_inv sample_pool" by (simp add: sample_pool_def)
  from drain_pool_order [OF this run] run show ?thesis by simp
qed

text \<open>
  \<^verbatim>\<open>delay\<close> keeps the timers in order exactly when the new deadline is not earlier than the
  deadline of the entry behind it: the pass only moves an entry towards the front, so moving a
  task to an earlier time than its successor's leaves the vector out of order.
\<close>

theorem delay_task_order:
  assumes "pool_inv p" and "find_timer i (p_timer_tasks p) = Some k"
  shows "pool_inv (delay_task now i duration p) \<longleftrightarrow>
    (Suc k < length (p_timer_tasks p) \<longrightarrow>
       fst (p_timer_tasks p ! Suc k) \<le> now + duration)"
proof -
  let ?ts = "p_timer_tasks p"
  have k: "k < length ?ts" using find_timer_SomeD [OF assms(2)] by simp
  let ?e = "(now + duration, snd (?ts ! k))"
  have desc: "timers_desc (take k ?ts @ ?ts ! k # drop (Suc k) ?ts)"
    using assms(1) timers_split [OF k] unfolding pool_inv_def by metis
  then have "timers_desc (insert_timer ?e (take k ?ts) @ drop (Suc k) ?ts) \<longleftrightarrow>
      (\<forall>y \<in> set (drop (Suc k) ?ts). fst y \<le> now + duration)"
    by simp
  also have "\<dots> \<longleftrightarrow> (Suc k < length ?ts \<longrightarrow> fst (?ts ! Suc k) \<le> now + duration)"
    using desc timers_desc_below [of "Suc k" ?ts] by simp
  finally show ?thesis
    unfolding pool_inv_def delay_task_effect [OF assms] .
qed

theorem delay_task_order_witness:
  "\<not> pool_inv (delay_task 0 5 15 sample_pool) \<and> pool_next (delay_task 0 5 15 sample_pool) = Some 10 \<and>
   pool_inv (delay_task 0 5 20 sample_pool)"
proof -
  have ts: "p_timer_tasks sample_pool =
      [(30, Some (5, 50)), (20, Some (4, 40)), (10, Some (3, 30))]"
    by (simp add: sample_pool_def empty_pool_def op_defs)
  have inv: "pool_inv sample_pool" by (simp add: sample_pool_def)
  have f: "find_timer 5 (p_timer_tasks sample_pool) = Some 0" by (simp add: ts)
  show ?thesis
    using delay_task_order [OF inv f, of 0 15] delay_task_order [OF inv f, of 0 20]
    by (simp add: ts pool_next_def delay_task_def)
qed

text \<open>
  A worker never sleeps while work is ready: when it decides to wait, no task is ready to run
  at that instant, and when it waits for an instant, every timer is due at that instant or later;
  it leaves the loop only after the stop flag.
\<close>

theorem worker_turn_no_oversleep:
  assumes "pool_inv p" and "worker_turn continue now now' p = (act, p')"
    and "act = Wait_until tp \<or> act = Wait_notify"
  shows "continue \<and> p_tasks p' = [] \<and> (\<forall>e \<in> set (p_timer_tasks p'). now' < fst e) \<and>
    (\<forall>e \<in> set (p_timer_tasks p'). act = Wait_until tp \<longrightarrow> tp \<le> fst e) \<and>
    (act = Wait_notify \<longrightarrow> p_timer_tasks p' = [])"
proof (cases "pool_pop now p")
  case (Pair r q)
  show ?thesis
  proof (cases r)
    case None
    with Pair have q: "q = p" using pool.pop_nothing [OF assms(1)] by blast
    from None Pair assms(2,3) have idle: "\<not> pool_ready now' p" "continue" "p' = p"
      and act: "act = (case pool_next p of Some tp \<Rightarrow> Wait_until tp | None \<Rightarrow> Wait_notify)"
      by (auto simp: worker_turn_def q split: if_splits option.splits)
    then have "pool_pop now' p = (None, p)"
      by (auto simp: op_defs split: list.splits)
    from pool.pop_nothing [OF assms(1) this] have "\<forall>e \<in> set (p_timer_tasks p). now' < fst e"
      "p_tasks p = []" by simp_all
    moreover have "act = Wait_until tp \<Longrightarrow> e \<in> set (p_timer_tasks p) \<Longrightarrow> tp \<le> fst e" for e
      using act pool.sleep_safe [OF assms(1), of tp "fst e" "snd e"] by (auto split: option.splits)
    moreover have "act = Wait_notify \<Longrightarrow> p_timer_tasks p = []"
      using act by (auto simp: pool_next_def split: option.splits if_splits)
    ultimately show ?thesis using idle by simp
  next
    case (Some t)
    with Pair assms(2,3) show ?thesis
      by (cases t) (auto simp: worker_turn_def)
  qed
qed

theorem worker_turn_no_oversleep_witness:
  "worker_turn True 5 6 (push_timer (9, Some (3, 30 :: nat)) empty_pool) =
     (Wait_until 9, push_timer (9, Some (3, 30)) empty_pool) \<and> (6 :: int) < 9"
proof -
  have run: "worker_turn True 5 6 (push_timer (9, Some (3, 30 :: nat)) empty_pool) =
     (Wait_until 9, push_timer (9, Some (3, 30)) empty_pool)"
    by (simp add: worker_turn_def empty_pool_def op_defs)
  have "pool_inv (push_timer (9, Some (3, 30 :: nat)) empty_pool)" by simp
  from worker_turn_no_oversleep [OF this run] run show ?thesis
    by (simp add: empty_pool_def op_defs)
qed

text \<open>
  \<^verbatim>\<open>pop(task_id)\<close> leaves an emptied entry in the vector: while nothing else is ready, a
  worker that comes by once its deadline has passed takes the null pointer and dereferences it.
\<close>

theorem pop_timer_id_leaves_null:
  assumes "p_tasks p = []" and "p_timer_tasks p = ts @ [(d, Some (i, x))]"
    and "find_timer i ts = None" and "d \<le> now"
  shows "fst (pop_timer_id i p) = Some (d, Some (i, x)) \<and>
    fst (worker_turn continue now now' (snd (pop_timer_id i p))) = Null_deref"
proof -
  have "find_timer i (ts @ [(d, Some (i, x))]) = Some (length ts)"
    using assms(3) by (induction ts) (auto split: if_splits)
  then show ?thesis
    using assms by (simp add: pop_timer_id_def worker_turn_def op_defs)
qed

theorem pop_timer_id_leaves_null_witness:
  "fst (worker_turn True 9 9 (snd (pop_timer_id 3 (push_timer (9, Some (3, 30 :: nat)) empty_pool))))
     = Null_deref"
  using pop_timer_id_leaves_null
    [of "push_timer (9, Some (3, 30 :: nat)) empty_pool" "[]" 9 3 30 9 True 9]
  by (simp add: empty_pool_def op_defs)

end
