(* ===== verification/Thread_Safe.thy ===== *)
theory Thread_Safe
  imports Prelude "HOL-Library.Char_ord" "HOL-Library.List_Lexorder"
begin

text \<open>
  The monitors of \<^verbatim>\<open>src/thread_safe.h\<close>: \<^verbatim>\<open>event_t\<close>, \<^verbatim>\<open>alarm_raw_t\<close>, \<^verbatim>\<open>queue_t\<close>,
  the reference counted \<^verbatim>\<open>shared_t\<close> and the mailbox \<^verbatim>\<open>mail_raw_t\<close>. Every method runs
  under the object's mutex, so a method is one atomic function of the state, and a thread that
  waits on the condition variable is split at the wait: the call that enters the monitor and the
  call that resumes after a wake-up. \<open>Blocks\<close> is the result of a call that (still) waits.
\<close>

datatype 'r outcome = Blocks | Returns 'r

section \<open>event_t\<close>

text \<open>\<^verbatim>\<open>_continue\<close> and \<^verbatim>\<open>_status\<close>; \<^verbatim>\<open>util::false_v\<close> is \<open>None\<close>.\<close>

record 'a event =
  ev_continue :: bool
  ev_status :: "'a option"

definition new_event :: "'a event" where
  "new_event = \<lparr>ev_continue = True, ev_status = None\<rparr>"

definition event_raise :: "'a \<Rightarrow> 'a event \<Rightarrow> 'a event" where
  "event_raise v e = (if \<not> ev_continue e then e else e\<lparr>ev_status := Some v\<rparr>)"

text \<open>
  \<^verbatim>\<open>pop()\<close>: the guard at the entry and the guard after every wake-up are the same test, so
  one function serves both.
\<close>

definition event_pop :: "'a event \<Rightarrow> 'a option outcome \<times> 'a event" where
  "event_pop e =
     (if \<not> ev_continue e then (Returns None, e)
      else case ev_status e of
        None \<Rightarrow> (Blocks, e)
      | Some v \<Rightarrow> (Returns (Some v), e\<lparr>ev_status := None\<rparr>))"

text \<open>
  \<^verbatim>\<open>pop(delay)\<close>: \<^verbatim>\<open>wait_for\<close> with a predicate; \<open>expired\<close> says whether the delay has
  passed when the predicate is evaluated.
\<close>

definition event_pop_for :: "bool \<Rightarrow> 'a event \<Rightarrow> 'a option outcome \<times> 'a event" where
  "event_pop_for expired e =
     (let success = (ev_status e \<noteq> None \<or> \<not> ev_continue e)
      in if \<not> success \<and> \<not> expired then (Blocks, e)
         else if \<not> success \<or> \<not> ev_continue e then (Returns None, e)
         else (Returns (ev_status e), e\<lparr>ev_status := None\<rparr>))"

definition event_view :: "'a event \<Rightarrow> 'a option outcome" where
  "event_view e =
     (if \<not> ev_continue e then Returns None
      else case ev_status e of None \<Rightarrow> Blocks | Some v \<Rightarrow> Returns (Some v))"

text \<open>
  \<^verbatim>\<open>view(delay)\<close>: the loop tests \<^verbatim>\<open>_status\<close> first, so once the thread waits, a value
  that was raised before a \<^verbatim>\<open>stop()\<close> is still returned after it.
\<close>

definition event_view_for_enter :: "'a event \<Rightarrow> 'a option outcome" where
  "event_view_for_enter e =
     (if \<not> ev_continue e then Returns None
      else case ev_status e of Some v \<Rightarrow> Returns (Some v) | None \<Rightarrow> Blocks)"

definition event_view_for_wake :: "bool \<Rightarrow> 'a event \<Rightarrow> 'a option outcome" where
  "event_view_for_wake timed_out e =
     (if timed_out then Returns None
      else case ev_status e of
        Some v \<Rightarrow> Returns (Some v)
      | None \<Rightarrow> if \<not> ev_continue e then Returns None else Blocks)"

definition event_peek :: "'a event \<Rightarrow> bool" where
  "event_peek e \<longleftrightarrow> ev_continue e \<and> ev_status e \<noteq> None"

definition event_stop :: "'a event \<Rightarrow> 'a event" where
  "event_stop e = e\<lparr>ev_continue := False\<rparr>"

definition event_reset :: "'a event \<Rightarrow> 'a event" where
  "event_reset e = \<lparr>ev_continue = True, ev_status = None\<rparr>"

definition event_running :: "'a event \<Rightarrow> bool" where
  "event_running e = ev_continue e"

lemmas event_defs = new_event_def event_raise_def event_pop_def event_pop_for_def event_view_def
  event_view_for_enter_def event_view_for_wake_def event_peek_def event_stop_def event_reset_def
  event_running_def

declare event_defs [op_defs]

section \<open>alarm_raw_t\<close>

record 'a alarm =
  al_status :: "'a option"
  al_rang :: bool

definition new_alarm :: "'a alarm" where
  "new_alarm = \<lparr>al_status = None, al_rang = False\<rparr>"

definition alarm_ring :: "'a option \<Rightarrow> 'a alarm \<Rightarrow> 'a alarm" where
  "alarm_ring st a = a\<lparr>al_status := st, al_rang := True\<rparr>"

text \<open>\<^verbatim>\<open>wait\<close> and the timed waits, with the extra predicate (constantly false without one).\<close>

definition alarm_wait :: "bool \<Rightarrow> 'a alarm \<Rightarrow> unit outcome" where
  "alarm_wait pred a = (if al_rang a \<or> pred then Returns () else Blocks)"

definition alarm_wait_for :: "bool \<Rightarrow> bool \<Rightarrow> 'a alarm \<Rightarrow> bool outcome" where
  "alarm_wait_for expired pred a =
     (if al_rang a \<or> pred then Returns True else if expired then Returns False else Blocks)"

definition alarm_reset :: "'a alarm \<Rightarrow> 'a alarm" where
  "alarm_reset a = \<lparr>al_status = None, al_rang = False\<rparr>"

section \<open>queue_t\<close>

record 'a queue =
  q_continue :: bool
  q_max_elements :: nat
  q_queue :: "'a list"

definition new_queue :: "nat \<Rightarrow> 'a queue" where
  "new_queue max_elements = \<lparr>q_continue = True, q_max_elements = max_elements, q_queue = []\<rparr>"

text \<open>A full queue is emptied before the new element goes in.\<close>

definition queue_raise :: "'a \<Rightarrow> 'a queue \<Rightarrow> 'a queue" where
  "queue_raise v q =
     (if \<not> q_continue q then q
      else if length (q_queue q) = q_max_elements q then q\<lparr>q_queue := [v]\<rparr>
      else q\<lparr>q_queue := q_queue q @ [v]\<rparr>)"

definition queue_peek :: "'a queue \<Rightarrow> bool" where
  "queue_peek q \<longleftrightarrow> q_continue q \<and> q_queue q \<noteq> []"

definition queue_pop :: "'a queue \<Rightarrow> 'a option outcome \<times> 'a queue" where
  "queue_pop q =
     (if \<not> q_continue q then (Returns None, q)
      else case q_queue q of
        [] \<Rightarrow> (Blocks, q)
      | v # vs \<Rightarrow> (Returns (Some v), q\<lparr>q_queue := vs\<rparr>))"

definition queue_pop_for_wake :: "bool \<Rightarrow> 'a queue \<Rightarrow> 'a option outcome \<times> 'a queue" where
  "queue_pop_for_wake timed_out q =
     (if timed_out then (Returns None, q)
      else case q_queue q of
        v # vs \<Rightarrow> (Returns (Some v), q\<lparr>q_queue := vs\<rparr>)
      | [] \<Rightarrow> if \<not> q_continue q then (Returns None, q) else (Blocks, q))"

definition queue_stop :: "'a queue \<Rightarrow> 'a queue" where
  "queue_stop q = q\<lparr>q_continue := False\<rparr>"

lemmas queue_defs = new_queue_def queue_raise_def queue_peek_def queue_pop_def
  queue_pop_for_wake_def queue_stop_def

declare queue_defs [op_defs]

section \<open>shared_t\<close>

text \<open>
  The count, and the world that the construct and destruct functions act on. A handle is a
  \<^verbatim>\<open>ptr_t\<close>; the count is a \<^verbatim>\<open>uint32_t\<close>. Instances are static objects, so the count starts
  at zero.
\<close>

record 'w shared =
  sh_count :: u32
  sh_world :: 'w

definition shared_ref :: "('w \<Rightarrow> int \<times> 'w) \<Rightarrow> 'w shared \<Rightarrow> bool \<times> 'w shared" where
  "shared_ref construct s =
     (if sh_count s = 0
      then (case construct (sh_world s) of (rc, w) \<Rightarrow>
              if rc \<noteq> 0 then (False, s\<lparr>sh_world := w\<rparr>)
              else (True, s\<lparr>sh_world := w, sh_count := sh_count s + 1\<rparr>))
      else (True, s\<lparr>sh_count := sh_count s + 1\<rparr>))"

definition shared_release :: "('w \<Rightarrow> 'w) \<Rightarrow> 'w shared \<Rightarrow> 'w shared" where
  "shared_release destruct s =
     (let c = sh_count s - 1
      in if c = 0 then s\<lparr>sh_count := c, sh_world := destruct (sh_world s)\<rparr>
         else s\<lparr>sh_count := c\<rparr>)"

text \<open>
  The special members of \<^verbatim>\<open>ptr_t\<close>, over a store that says which handles own the object.
\<close>

record 'w handles =
  hd_shared :: "'w shared"
  hd_owns :: "nat set"

definition ptr_ref :: "('w \<Rightarrow> int \<times> 'w) \<Rightarrow> nat \<Rightarrow> 'w handles \<Rightarrow> 'w handles" where
  "ptr_ref construct h st =
     (case shared_ref construct (hd_shared st) of (ok, s) \<Rightarrow>
        st\<lparr>hd_shared := s, hd_owns := (if ok then insert h (hd_owns st) else hd_owns st)\<rparr>)"

definition ptr_copy :: "('w \<Rightarrow> int \<times> 'w) \<Rightarrow> nat \<Rightarrow> nat \<Rightarrow> 'w handles \<Rightarrow> 'w handles" where
  "ptr_copy construct h h' st =
     (if h \<notin> hd_owns st then st
      else st\<lparr>hd_shared := snd (shared_ref construct (hd_shared st)),
              hd_owns := insert h' (hd_owns st)\<rparr>)"

definition ptr_drop :: "('w \<Rightarrow> 'w) \<Rightarrow> nat \<Rightarrow> 'w handles \<Rightarrow> 'w handles" where
  "ptr_drop destruct h st =
     (if h \<in> hd_owns st
      then st\<lparr>hd_shared := shared_release destruct (hd_shared st), hd_owns := hd_owns st - {h}\<rparr>
      else st)"

definition ptr_move_new :: "nat \<Rightarrow> nat \<Rightarrow> 'w handles \<Rightarrow> 'w handles" where
  "ptr_move_new h h' st =
     (if h \<in> hd_owns st then st\<lparr>hd_owns := insert h' (hd_owns st - {h})\<rparr> else st)"

definition ptr_move_assign :: "('w \<Rightarrow> 'w) \<Rightarrow> nat \<Rightarrow> nat \<Rightarrow> 'w handles \<Rightarrow> 'w handles" where
  "ptr_move_assign destruct h h' st = ptr_move_new h h' (ptr_drop destruct h' st)"

lemmas shared_defs = shared_ref_def shared_release_def ptr_ref_def ptr_copy_def ptr_drop_def
  ptr_move_new_def ptr_move_assign_def

section \<open>mail_raw_t\<close>

text \<open>
  \<^verbatim>\<open>id_to_post\<close> in key order, with the address of the post each weak pointer was made from;
  \<open>ml_live\<close> are the posts that still have an owner. \<^verbatim>\<open>event\<close> and \<^verbatim>\<open>queue\<close> have the same
  body up to the type of the post.
\<close>

record mail =
  ml_posts :: "(string \<times> nat) list"
  ml_live :: "nat set"

fun mail_emplace :: "string \<Rightarrow> nat \<Rightarrow> (string \<times> nat) list \<Rightarrow> (string \<times> nat) list" where
  "mail_emplace k p [] = [(k, p)]"
| "mail_emplace k p ((k', p') # xs) =
     (if k < k' then (k, p) # (k', p') # xs else (k', p') # mail_emplace k p xs)"

text \<open>The result \<open>None\<close> is the null pointer that locking an expired weak pointer gives.\<close>

definition mail_get :: "string \<Rightarrow> nat \<Rightarrow> mail \<Rightarrow> nat option \<times> mail" where
  "mail_get k fresh m =
     (case map_of (ml_posts m) k of
        Some p \<Rightarrow> (if p \<in> ml_live m then Some p else None, m)
      | None \<Rightarrow> (Some fresh, m\<lparr>ml_posts := mail_emplace k fresh (ml_posts m),
                            ml_live := insert fresh (ml_live m)\<rparr>))"

fun erase_first_expired :: "nat set \<Rightarrow> (string \<times> nat) list \<Rightarrow> (string \<times> nat) list" where
  "erase_first_expired live [] = []"
| "erase_first_expired live ((k, p) # xs) =
     (if p \<notin> live then xs else (k, p) # erase_first_expired live xs)"

definition mail_cleanup :: "mail \<Rightarrow> mail" where
  "mail_cleanup m = m\<lparr>ml_posts := erase_first_expired (ml_live m) (ml_posts m)\<rparr>"

text \<open>The last owner goes away: the post expires, then its destructor calls \<^verbatim>\<open>cleanup\<close>.\<close>

definition mail_expire :: "nat \<Rightarrow> mail \<Rightarrow> mail" where
  "mail_expire p m = m\<lparr>ml_live := ml_live m - {p}\<rparr>"

lemmas mail_defs = mail_get_def mail_cleanup_def mail_expire_def

section \<open>The loops that drain a mailbox\<close>

text \<open>
  \<^verbatim>\<open>while (c->peek()) { auto v = c->pop(); ... *v ... }\<close>: the sole consumer of an event or a
  queue empties it. \<open>None\<close> is a run that blocks inside the loop, dereferences an empty result,
  or exhausts the fuel.
\<close>

fun drain_channel :: "('c \<Rightarrow> bool) \<Rightarrow> ('c \<Rightarrow> 'a option outcome \<times> 'c) \<Rightarrow> nat \<Rightarrow> 'c
    \<Rightarrow> ('a list \<times> 'c) option" where
  "drain_channel peek pop 0 c = (if peek c then None else Some ([], c))"
| "drain_channel peek pop (Suc n) c =
     (if \<not> peek c then Some ([], c)
      else case pop c of
        (Returns (Some v), c') \<Rightarrow> map_option (\<lambda>(vs, c''). (v # vs, c'')) (drain_channel peek pop n c')
      | _ \<Rightarrow> None)"

text \<open>What those loops rely on; both monitors provide it.\<close>

locale channel =
  fixes raise :: "'a \<Rightarrow> 'c \<Rightarrow> 'c"
    and pop :: "'c \<Rightarrow> 'a option outcome \<times> 'c"
    and peek :: "'c \<Rightarrow> bool"
    and stop :: "'c \<Rightarrow> 'c"
    and running :: "'c \<Rightarrow> bool"
    and contents :: "'c \<Rightarrow> 'a list"
  assumes peek_iff: "peek c \<longleftrightarrow> running c \<and> contents c \<noteq> []"
    and pop_value: "running c \<Longrightarrow> contents c = v # vs \<Longrightarrow>
      \<exists>c'. pop c = (Returns (Some v), c') \<and> running c' \<and> contents c' = vs"
    and pop_empty: "running c \<Longrightarrow> contents c = [] \<Longrightarrow> pop c = (Blocks, c)"
    and pop_stopped: "\<not> running c \<Longrightarrow> pop c = (Returns None, c)"
    and running_stop: "\<not> running (stop c)"
    and running_raise: "running (raise v c) = running c"
    and last_raise: "running c \<Longrightarrow> contents (raise v c) \<noteq> [] \<and> last (contents (raise v c)) = v"
    and raise_stopped: "\<not> running c \<Longrightarrow> raise v c = c"
begin

lemma drain_contents:
  "running c \<Longrightarrow> length (contents c) \<le> n \<Longrightarrow>
   \<exists>c'. drain_channel peek pop n c = Some (contents c, c') \<and> running c' \<and> contents c' = []"
proof (induction n arbitrary: c)
  case 0
  then show ?case by (simp add: peek_iff)
next
  case (Suc n)
  show ?case
  proof (cases "contents c")
    case Nil
    with Suc.prems show ?thesis by (simp add: peek_iff)
  next
    case (Cons v vs)
    from pop_value [OF Suc.prems(1) Cons]
    obtain c' where c': "pop c = (Returns (Some v), c')" "running c'" "contents c' = vs"
      by blast
    with Suc.prems(2) Cons have "length (contents c') \<le> n" by simp
    from Suc.IH [OF c'(2) this] c' Cons Suc.prems(1) show ?thesis
      by (auto simp: peek_iff)
  qed
qed

lemma drain_stopped: "\<not> running c \<Longrightarrow> drain_channel peek pop n c = Some ([], c)"
  by (cases n) (simp_all add: peek_iff)

lemma pop_after_stop: "pop (stop c) = (Returns None, stop c)"
  by (rule pop_stopped [OF running_stop])

lemma raise_after_stop: "raise v (stop c) = stop c"
  by (rule raise_stopped [OF running_stop])

lemma drain_after_raise:
  assumes "running c" and "length (contents (raise v c)) \<le> n"
  shows "\<exists>vs c'. drain_channel peek pop n (raise v c) = Some (vs @ [v], c')"
  using drain_contents [of "raise v c" n] assms last_raise [OF assms(1), of v]
  by (metis append_butlast_last_id running_raise)

end

definition event_contents :: "'a event \<Rightarrow> 'a list" where
  "event_contents e = (case ev_status e of None \<Rightarrow> [] | Some v \<Rightarrow> [v])"

interpretation event: channel event_raise event_pop event_peek event_stop ev_continue event_contents
  by unfold_locales
    (auto simp: event_defs event_contents_def split: option.splits if_splits)

interpretation queue: channel queue_raise queue_pop queue_peek queue_stop q_continue q_queue
  by unfold_locales (auto simp: queue_defs split: list.splits)

section \<open>Runs of a queue\<close>

text \<open>The monitor calls of all threads in the order the mutex grants them.\<close>

datatype 'a queue_op = Q_raise 'a | Q_pop | Q_wake bool | Q_stop

definition delivered :: "'a option outcome \<Rightarrow> 'a list" where
  "delivered r = (case r of Returns (Some v) \<Rightarrow> [v] | _ \<Rightarrow> [])"

fun queue_step :: "'a queue_op \<Rightarrow> 'a queue \<Rightarrow> 'a list \<times> 'a queue" where
  "queue_step (Q_raise v) q = ([], queue_raise v q)"
| "queue_step Q_pop q = (delivered (fst (queue_pop q)), snd (queue_pop q))"
| "queue_step (Q_wake timed_out) q =
     (delivered (fst (queue_pop_for_wake timed_out q)), snd (queue_pop_for_wake timed_out q))"
| "queue_step Q_stop q = ([], queue_stop q)"

fun queue_run :: "'a queue_op list \<Rightarrow> 'a queue \<Rightarrow> 'a list \<times> 'a queue" where
  "queue_run [] q = ([], q)"
| "queue_run (s # ss) q =
     (case queue_step s q of (vs, q') \<Rightarrow>
        case queue_run ss q' of (ws, q'') \<Rightarrow> (vs @ ws, q''))"

fun raised :: "'a queue_op list \<Rightarrow> 'a list" where
  "raised [] = []"
| "raised (Q_raise v # ss) = v # raised ss"
| "raised (_ # ss) = raised ss"

lemma delivered_simps [simp]:
  "delivered Blocks = []" "delivered (Returns None) = []" "delivered (Returns (Some v)) = [v]"
  by (simp_all add: delivered_def)

lemma queue_step_consume:
  "s = Q_pop \<or> s = Q_wake b \<or> s = Q_stop \<Longrightarrow>
   q_max_elements (snd (queue_step s q)) = q_max_elements q \<and>
   fst (queue_step s q) @ q_queue (snd (queue_step s q)) = q_queue q"
  by (auto simp: queue_defs split: list.splits)

lemma queue_run_cases:
  "queue_run (s # ss) q =
     (fst (queue_step s q) @ fst (queue_run ss (snd (queue_step s q))),
      snd (queue_run ss (snd (queue_step s q))))"
  by (simp add: split: prod.splits)

lemma queue_run_subseq:
  "subseq (fst (queue_run ss q) @ q_queue (snd (queue_run ss q))) (q_queue q @ raised ss)"
proof (induction ss arbitrary: q)
  case Nil
  then show ?case by simp
next
  case (Cons s ss)
  let ?q = "snd (queue_step s q)"
  have IH: "subseq (fst (queue_run ss ?q) @ q_queue (snd (queue_run ss ?q))) (q_queue ?q @ raised ss)"
    by (rule Cons.IH)
  show ?case
  proof (cases "\<exists>v. s = Q_raise v")
    case True
    then obtain v where s: "s = Q_raise v" by blast
    have "subseq (q_queue ?q @ raised ss) (q_queue q @ v # raised ss)"
      by (auto simp: s queue_raise_def subseq_append')
    with IH show ?thesis by (auto simp: s queue_run_cases simp del: queue_run.simps(2)
        intro: subseq_order.order_trans)
  next
    case False
    then have "raised (s # ss) = raised ss" and
      "fst (queue_step s q) @ q_queue ?q = q_queue q"
      using queue_step_consume [of s] by (cases s; auto)+
    then show ?thesis using IH
      by (simp add: queue_run_cases subseq_append_iff del: queue_run.simps(2))
        (metis append_assoc subseq_append' subseq_order.order_refl list_emb_append_mono)
  qed
qed

lemma queue_run_bounded:
  "0 < q_max_elements q \<Longrightarrow> length (q_queue q) \<le> q_max_elements q \<Longrightarrow>
   length (q_queue (snd (queue_run ss q))) \<le> q_max_elements q \<and>
   q_max_elements (snd (queue_run ss q)) = q_max_elements q"
proof (induction ss arbitrary: q)
  case Nil
  then show ?case by simp
next
  case (Cons s ss)
  have "q_max_elements (snd (queue_step s q)) = q_max_elements q \<and>
      length (q_queue (snd (queue_step s q))) \<le> q_max_elements q"
    using Cons.prems by (cases s) (auto simp: queue_defs split: list.splits)
  with Cons.prems Cons.IH [of "snd (queue_step s q)"] show ?case
    by (simp add: queue_run_cases del: queue_run.simps(2))
qed

lemma queue_run_exact:
  "q_continue q \<Longrightarrow> Q_stop \<notin> set ss \<Longrightarrow>
   length (q_queue q) + length (raised ss) \<le> q_max_elements q \<Longrightarrow>
   fst (queue_run ss q) @ q_queue (snd (queue_run ss q)) = q_queue q @ raised ss"
proof (induction ss arbitrary: q)
  case Nil
  then show ?case by simp
next
  case (Cons s ss)
  let ?q = "snd (queue_step s q)"
  have "q_continue ?q \<and> q_max_elements ?q = q_max_elements q"
    using Cons.prems by (cases s) (auto simp: queue_defs split: list.splits)
  moreover have "fst (queue_step s q) @ q_queue ?q @ raised ss = q_queue q @ raised (s # ss)"
    using Cons.prems by (cases s) (auto simp: queue_defs split: list.splits)
  moreover from this have "length (q_queue ?q) + length (raised ss) \<le> q_max_elements q"
    using Cons.prems(3) by (metis le_trans length_append le_add2)
  ultimately show ?case using Cons.IH [of ?q] Cons.prems(2)
    by (simp add: queue_run_cases del: queue_run.simps(2))
qed

section \<open>Life of a shared object\<close>

text \<open>
  The world records what the two functions did. \<open>life_after\<close> reads a record from the oldest
  entry on: \<open>Some b\<close> when it alternates, with \<open>b\<close> saying whether the object is alive at the end.
\<close>

datatype life = Started | Start_failed | Ended

fun life_step :: "bool \<Rightarrow> life \<Rightarrow> bool option" where
  "life_step False Started = Some True"
| "life_step False Start_failed = Some False"
| "life_step True Ended = Some False"
| "life_step _ _ = None"

fun life_after :: "bool \<Rightarrow> life list \<Rightarrow> bool option" where
  "life_after b [] = Some b"
| "life_after b (x # xs) = Option.bind (life_step b x) (\<lambda>b'. life_after b' xs)"

lemma life_after_snoc: "life_after b (xs @ [x]) = Option.bind (life_after b xs) (\<lambda>b'. life_step b' x)"
  by (induction xs arbitrary: b) (simp, simp split: Option.bind_split)

text \<open>The construct function may fail depending on the world.\<close>

definition log_construct :: "(life list \<Rightarrow> int) \<Rightarrow> life list \<Rightarrow> int \<times> life list" where
  "log_construct fails w = (fails w, w @ [if fails w \<noteq> 0 then Start_failed else Started])"

definition log_destruct :: "life list \<Rightarrow> life list" where
  "log_destruct w = w @ [Ended]"

text \<open>What the program does with handles; a constructor acts on a handle that owns nothing.\<close>

datatype handle_op = New_ref nat | New_copy nat nat | New_move nat nat | Assign_move nat nat | Drop nat

fun handle_step :: "(life list \<Rightarrow> int) \<Rightarrow> handle_op \<Rightarrow> life list handles \<Rightarrow> life list handles" where
  "handle_step fails (New_ref h) st =
     (if h \<in> hd_owns st then st else ptr_ref (log_construct fails) h st)"
| "handle_step fails (New_copy h h') st =
     (if h' \<in> hd_owns st then st else ptr_copy (log_construct fails) h h' st)"
| "handle_step fails (New_move h h') st = (if h' \<in> hd_owns st then st else ptr_move_new h h' st)"
| "handle_step fails (Assign_move h h') st = ptr_move_assign log_destruct h h' st"
| "handle_step fails (Drop h) st = ptr_drop log_destruct h st"

definition handles_run :: "(life list \<Rightarrow> int) \<Rightarrow> handle_op list \<Rightarrow> life list handles" where
  "handles_run fails ops =
     fold (handle_step fails) ops
       \<lparr>hd_shared = \<lparr>sh_count = 0, sh_world = []\<rparr>, hd_owns = {}\<rparr>"

text \<open>The count is the number of owning handles, and the object is alive while there is one.\<close>

definition handles_inv :: "nat \<Rightarrow> life list handles \<Rightarrow> bool" where
  "handles_inv n st \<longleftrightarrow> finite (hd_owns st) \<and> card (hd_owns st) \<le> n \<and>
     sh_count (hd_shared st) = of_nat (card (hd_owns st)) \<and>
     life_after False (sh_world (hd_shared st)) = Some (hd_owns st \<noteq> {})"

lemma count_zero_iff:
  "n < 2 ^ 32 \<Longrightarrow> (of_nat n :: u32) = 0 \<longleftrightarrow> n = 0"
  by (auto simp: word_of_nat_eq_0_iff dest: nat_dvd_not_less)

lemma drop_inv:
  assumes "handles_inv n st" and "n < 2 ^ 32"
  shows "handles_inv n (ptr_drop log_destruct h st)"
proof (cases "h \<in> hd_owns st")
  case False
  then show ?thesis using assms(1) by (simp add: ptr_drop_def)
next
  case True
  from assms(1) have fin: "finite (hd_owns st)" and le: "card (hd_owns st) \<le> n"
    and cnt: "sh_count (hd_shared st) = of_nat (card (hd_owns st))"
    and life: "life_after False (sh_world (hd_shared st)) = Some (hd_owns st \<noteq> {})"
    by (auto simp: handles_inv_def)
  obtain m where m: "card (hd_owns st) = Suc m"
    using True fin by (metis card_gt_0_iff empty_iff gr0_implies_Suc)
  have m': "card (hd_owns st - {h}) = m" using True fin m by simp
  have dec: "sh_count (hd_shared st) - 1 = (of_nat m :: u32)" using cnt m by simp
  have "m < 2 ^ 32" using le m assms(2) by simp
  from count_zero_iff [OF this] have z: "(of_nat m :: u32) = 0 \<longleftrightarrow> hd_owns st - {h} = {}"
    using m' fin by (metis card_0_eq finite_Diff)
  from life True have "life_after False (sh_world (hd_shared st)) = Some True" by auto
  then show ?thesis
    using True fin le m m' dec z
    by (auto simp: handles_inv_def ptr_drop_def shared_release_def Let_def log_destruct_def
        life_after_snoc)
qed

lemma ref_inv:
  assumes "handles_inv n st" and "n < 2 ^ 32" and "h \<notin> hd_owns st"
  shows "handles_inv (Suc n) (ptr_ref (log_construct fails) h st)"
proof -
  from assms(1) have fin: "finite (hd_owns st)" and le: "card (hd_owns st) \<le> n"
    and cnt: "sh_count (hd_shared st) = of_nat (card (hd_owns st))"
    and life: "life_after False (sh_world (hd_shared st)) = Some (hd_owns st \<noteq> {})"
    by (auto simp: handles_inv_def)
  have z: "sh_count (hd_shared st) = 0 \<longleftrightarrow> hd_owns st = {}"
    using count_zero_iff [of "card (hd_owns st)"] cnt fin le assms(2) by simp
  show ?thesis
    using fin le cnt life z assms(3)
    by (cases "hd_owns st = {}")
      (auto simp: handles_inv_def ptr_ref_def shared_ref_def log_construct_def life_after_snoc
        add.commute)
qed

lemma copy_eq_ref:
  assumes "handles_inv n st" and "n < 2 ^ 32" and "h \<in> hd_owns st"
  shows "ptr_copy c h h' st = ptr_ref c h' st"
proof -
  have "sh_count (hd_shared st) \<noteq> 0"
    using assms count_zero_iff [of "card (hd_owns st)"]
    by (auto simp: handles_inv_def)
  with assms(3) show ?thesis by (simp add: ptr_copy_def ptr_ref_def shared_ref_def)
qed

lemma move_inv:
  assumes "handles_inv n st" and "h' \<notin> hd_owns st \<or> h = h'"
  shows "handles_inv n (ptr_move_new h h' st)"
proof (cases "h \<in> hd_owns st")
  case True
  have "card (insert h' (hd_owns st - {h})) = card (hd_owns st)"
  proof (cases "h = h'")
    case False
    with True assms have "h' \<notin> hd_owns st - {h}" "finite (hd_owns st)"
      by (auto simp: handles_inv_def)
    then have "card (insert h' (hd_owns st - {h})) = Suc (card (hd_owns st - {h}))"
      by (intro card_insert_disjoint) auto
    also have "\<dots> = card (hd_owns st)"
      using True \<open>finite (hd_owns st)\<close> by (intro card_Suc_Diff1)
    finally show ?thesis .
  qed (use True in \<open>simp add: insert_absorb\<close>)
  with True assms show ?thesis by (auto simp: handles_inv_def ptr_move_new_def)
qed (use assms in \<open>simp add: ptr_move_new_def\<close>)

lemma handles_inv_mono: "handles_inv n st \<Longrightarrow> n \<le> m \<Longrightarrow> handles_inv m st"
  by (auto simp: handles_inv_def)

lemma handle_step_inv:
  assumes "handles_inv n st" and "n < 2 ^ 32"
  shows "handles_inv (Suc n) (handle_step fails x st)"
proof (cases x)
  case (New_ref h)
  then show ?thesis using assms by (simp add: ref_inv handles_inv_mono [of n])
next
  case (New_copy h h')
  then show ?thesis
    using assms copy_eq_ref [OF assms, of h] ref_inv [OF assms, of h']
    by (cases "h \<in> hd_owns st") (auto simp: ptr_copy_def handles_inv_mono [of n])
next
  case (New_move h h')
  then show ?thesis using assms move_inv [of n st h' h]
    by (auto intro: handles_inv_mono)
next
  case (Assign_move h h')
  have "h' \<notin> hd_owns (ptr_drop log_destruct h' st)" by (auto simp: ptr_drop_def)
  then show ?thesis using Assign_move drop_inv [OF assms, of h'] move_inv [of n _ h' h]
    by (simp add: ptr_move_assign_def handles_inv_mono [of n])
next
  case (Drop h)
  then show ?thesis using drop_inv [OF assms] by (simp add: handles_inv_mono [of n])
qed

lemma handles_run_inv:
  "length ops < 2 ^ 32 \<Longrightarrow> handles_inv (length ops) (handles_run fails ops)"
proof (induction ops rule: rev_induct)
  case Nil
  then show ?case by (simp add: handles_run_def handles_inv_def)
next
  case (snoc x xs)
  then have "handles_inv (length xs) (handles_run fails xs)" by simp
  from handle_step_inv [OF this] snoc.prems show ?case
    by (simp add: handles_run_def)
qed

section \<open>Posts of a mailbox\<close>

text \<open>
  A run of the mailbox: threads ask for a post by name (with the address a new post would get),
  drop the last owner of a post, and run the destructor's \<^verbatim>\<open>cleanup\<close>.
\<close>

datatype mail_op = M_get string nat | M_expire nat | M_cleanup

fun mail_step :: "mail_op \<Rightarrow> mail \<Rightarrow> mail" where
  "mail_step (M_get k p) m = (if p \<in> snd ` set (ml_posts m) then m else snd (mail_get k p m))"
| "mail_step (M_expire p) m = mail_expire p m"
| "mail_step M_cleanup m = mail_cleanup m"

text \<open>Keys and posts are distinct, and a live post is in the table.\<close>

definition mail_inv :: "mail \<Rightarrow> bool" where
  "mail_inv m \<longleftrightarrow> distinct (map fst (ml_posts m)) \<and> distinct (map snd (ml_posts m)) \<and>
     ml_live m \<subseteq> snd ` set (ml_posts m)"

definition expired_posts :: "mail \<Rightarrow> nat" where
  "expired_posts m = length (filter (\<lambda>e. snd e \<notin> ml_live m) (ml_posts m))"

lemma mail_emplace_mset: "mset (mail_emplace k p xs) = add_mset (k, p) (mset xs)"
  by (induction k p xs rule: mail_emplace.induct) auto

lemma mail_emplace_set [simp]: "set (mail_emplace k p xs) = insert (k, p) (set xs)"
  by (metis mail_emplace_mset set_mset_add_mset_insert set_mset_mset)

lemma mail_emplace_distinct:
  "distinct (map f (mail_emplace k p xs)) \<longleftrightarrow> distinct (map f ((k, p) # xs))"
  by (rule mset_eq_imp_distinct_iff) (simp add: mail_emplace_mset)

lemma map_of_mail_emplace:
  "map_of xs k = None \<Longrightarrow> map_of (mail_emplace k p xs) = (map_of xs)(k \<mapsto> p)"
  by (induction k p xs rule: mail_emplace.induct) (auto split: if_splits)

lemma erase_first_expired_set: "set (erase_first_expired live xs) \<subseteq> set xs"
  by (induction live xs rule: erase_first_expired.induct) auto

lemma erase_first_expired_live:
  "(k, p) \<in> set xs \<Longrightarrow> p \<in> live \<Longrightarrow> (k, p) \<in> set (erase_first_expired live xs)"
  by (induction live xs rule: erase_first_expired.induct) auto

lemma erase_first_expired_distinct:
  "distinct (map f xs) \<Longrightarrow> distinct (map f (erase_first_expired live xs))"
  using erase_first_expired_set
  by (induction live xs rule: erase_first_expired.induct) fastforce+

lemma erase_first_expired_count:
  "length (filter (\<lambda>e. snd e \<notin> live) (erase_first_expired live xs)) =
   length (filter (\<lambda>e. snd e \<notin> live) xs) - 1"
  by (induction live xs rule: erase_first_expired.induct) auto

lemma mail_step_inv: "mail_inv m \<Longrightarrow> mail_inv (mail_step x m)"
proof (cases x)
  case (M_get k p)
  assume inv: "mail_inv m"
  show ?thesis
  proof (cases "p \<in> snd ` set (ml_posts m) \<or> map_of (ml_posts m) k \<noteq> None")
    case True
    with M_get inv show ?thesis by (auto simp: mail_get_def)
  next
    case False
    then have "k \<notin> fst ` set (ml_posts m)" by (simp add: map_of_eq_None_iff)
    with False M_get inv show ?thesis
      by (auto simp: mail_get_def mail_inv_def mail_emplace_distinct)
  qed
next
  case (M_expire p)
  then show "mail_inv m \<Longrightarrow> ?thesis" by (auto simp: mail_inv_def mail_expire_def)
next
  case M_cleanup
  then show "mail_inv m \<Longrightarrow> ?thesis"
    by (force simp: mail_inv_def mail_cleanup_def erase_first_expired_distinct
        intro: erase_first_expired_live)
qed

lemma mail_step_other:
  assumes "mail_inv m" and "map_of (ml_posts m) k = Some p" and "p \<in> ml_live m" and "x \<noteq> M_expire p"
  shows "map_of (ml_posts (mail_step x m)) k = Some p \<and> p \<in> ml_live (mail_step x m)"
proof (cases x)
  case (M_get k' p')
  then show ?thesis using assms
    by (auto simp: mail_get_def map_of_mail_emplace split: option.splits)
next
  case (M_expire q)
  then show ?thesis using assms by (auto simp: mail_expire_def)
next
  case M_cleanup
  from assms(2) have "(k, p) \<in> set (erase_first_expired (ml_live m) (ml_posts m))"
    by (meson map_of_SomeD erase_first_expired_live assms(3))
  moreover have "distinct (map fst (erase_first_expired (ml_live m) (ml_posts m)))"
    using assms(1) erase_first_expired_distinct unfolding mail_inv_def by blast
  ultimately show ?thesis using M_cleanup assms(3) by (simp add: mail_cleanup_def)
qed

section \<open>Properties\<close>

text \<open>
  Order of delivery of a \<^verbatim>\<open>queue_t\<close>: whatever the threads do, the values handed out, followed
  by the values still waiting, are a subsequence of the values put in, in the same order, and the
  queue never holds more than its bound; while the bound is not reached and nobody stops the queue,
  nothing is lost.
\<close>

theorem queue_run_fifo:
  assumes "0 < n" and "queue_run ss (new_queue n) = (out, q)"
  shows "subseq (out @ q_queue q) (raised ss) \<and> length (q_queue q) \<le> n \<and>
    (Q_stop \<notin> set ss \<and> length (raised ss) \<le> n \<longrightarrow> out @ q_queue q = raised ss)"
  using queue_run_subseq [of ss "new_queue n"] queue_run_bounded [of "new_queue n" ss]
    queue_run_exact [of "new_queue n" ss] assms
  by (simp add: new_queue_def)

theorem queue_run_fifo_witness:
  "queue_run [Q_raise 1, Q_raise 2, Q_pop, Q_raise 3, Q_raise (4 :: nat), Q_pop] (new_queue 2) =
     ([1, 4], \<lparr>q_continue = True, q_max_elements = 2, q_queue = []\<rparr>) \<and>
   subseq [1, 4] [1, 2, 3, 4 :: nat]"
proof -
  have run: "queue_run [Q_raise 1, Q_raise 2, Q_pop, Q_raise 3, Q_raise (4 :: nat), Q_pop] (new_queue 2) =
     ([1, 4], \<lparr>q_continue = True, q_max_elements = 2, q_queue = []\<rparr>)"
    by (simp add: queue_defs)
  from queue_run_fifo [OF _ run] run show ?thesis by simp
qed

text \<open>
  A consumer that drains a mailbox in a \<^verbatim>\<open>while (peek()) pop()\<close> loop neither blocks nor reads an
  empty result, for an event and for a queue: from the queue it gets everything that is waiting, in
  order, and from the event the last value raised.
\<close>

theorem drain_mailboxes:
  "(q_continue q \<longrightarrow> (\<exists>q'. drain_channel queue_peek queue_pop (length (q_queue q)) q =
       Some (q_queue q, q') \<and> q_queue q' = [] \<and> q_continue q')) \<and>
   (ev_continue e \<longrightarrow> (\<exists>e'. drain_channel event_peek event_pop 1 (event_raise v e) =
       Some ([v], e') \<and> event_pop e' = (Blocks, e'))) \<and>
   drain_channel queue_peek queue_pop n (queue_stop q) = Some ([], queue_stop q)"
proof (intro conjI impI)
  assume "q_continue q"
  from queue.drain_contents [OF this order.refl]
  show "\<exists>q'. drain_channel queue_peek queue_pop (length (q_queue q)) q =
      Some (q_queue q, q') \<and> q_queue q' = [] \<and> q_continue q'"
    by auto
next
  assume "ev_continue e"
  then have r: "ev_continue (event_raise v e)" by (simp add: event.running_raise)
  have c: "event_contents (event_raise v e) = [v]"
    using \<open>ev_continue e\<close> by (simp add: event_contents_def event_raise_def)
  from event.drain_contents [OF r, of 1] c
  obtain e' where "drain_channel event_peek event_pop 1 (event_raise v e) = Some ([v], e')"
    "ev_continue e'" "event_contents e' = []" by auto
  with event.pop_empty show "\<exists>e'. drain_channel event_peek event_pop 1 (event_raise v e) =
      Some ([v], e') \<and> event_pop e' = (Blocks, e')" by blast
next
  show "drain_channel queue_peek queue_pop n (queue_stop q) = Some ([], queue_stop q)"
    by (rule queue.drain_stopped [OF queue.running_stop])
qed

theorem drain_mailboxes_witness:
  "drain_channel queue_peek queue_pop 2 (queue_raise 8 (queue_raise (7 :: nat) (new_queue 32))) =
     Some ([7, 8], new_queue 32) \<and>
   drain_channel event_peek event_pop 1 (event_raise 2 (event_raise (1 :: nat) new_event)) =
     Some ([2], new_event) \<and> event_pop (new_event :: nat event) = (Blocks, new_event)"
proof -
  have q: "drain_channel queue_peek queue_pop 2 (queue_raise 8 (queue_raise (7 :: nat) (new_queue 32))) =
     Some ([7, 8], new_queue 32)"
    by (simp add: queue_defs numeral_2_eq_2)
  have e: "drain_channel event_peek event_pop 1 (event_raise 2 (event_raise (1 :: nat) new_event)) =
     Some ([2], new_event)"
    by (simp add: event_defs)
  have "ev_continue (event_raise (1 :: nat) new_event)" by (simp add: event_defs)
  with drain_mailboxes [where e = "event_raise (1 :: nat) new_event" and v = 2
      and q = "new_queue 32 :: nat queue" and n = 0] e
  have "event_pop (new_event :: nat event) = (Blocks, new_event)" by auto
  with q e show ?thesis by blast
qed

text \<open>
  C1. Life of a \<^verbatim>\<open>shared_t\<close> object: however handles are taken, copied, moved and dropped, the
  construct and destruct functions alternate, the object is alive exactly while a handle owns it,
  and the 32-bit count is the number of owning handles.
\<close>

theorem handles_run_life:
  assumes "length ops < 2 ^ 32" and "st = handles_run fails ops"
  shows "life_after False (sh_world (hd_shared st)) = Some (hd_owns st \<noteq> {}) \<and>
    unat (sh_count (hd_shared st)) = card (hd_owns st)"
proof -
  from handles_run_inv [OF assms(1), of fails] assms(2)
  have "handles_inv (length ops) st" by simp
  moreover from this assms(1) have "card (hd_owns st) < 2 ^ 32"
    by (simp add: handles_inv_def)
  ultimately show ?thesis
    by (simp add: handles_inv_def unat_of_nat)
qed

theorem handles_run_life_witness:
  "sh_world (hd_shared (handles_run (\<lambda>_. 0) [New_ref 1, New_copy 1 2, Drop 1, New_move 2 3, Drop 3, New_ref 4]))
     = [Started, Ended, Started] \<and>
   life_after False [Started, Ended, Started] = Some True"
proof -
  let ?ops = "[New_ref 1, New_copy 1 2, Drop 1, New_move 2 3, Drop 3, New_ref 4]"
  have w: "sh_world (hd_shared (handles_run (\<lambda>_. 0) ?ops)) = [Started, Ended, Started]"
    and o: "hd_owns (handles_run (\<lambda>_. 0) ?ops) \<noteq> {}"
    by (simp_all add: handles_run_def shared_defs log_construct_def log_destruct_def)
  show ?thesis using handles_run_life [of ?ops _ "\<lambda>_. 0", OF _ refl] w o by simp
qed

text \<open>
  Everyone who asks a mailbox for the same name gets the same post for as long as that post has
  an owner, whatever other posts are created, dropped and cleaned up meanwhile.
\<close>

theorem mail_get_stable:
  assumes "mail_inv m" and "mail_get k p m = (Some p', m')"
    and "p \<notin> snd ` set (ml_posts m)" and "M_expire p' \<notin> set ops"
  shows "fst (mail_get k q (fold mail_step ops m')) = Some p'"
proof -
  have m': "mail_inv m'"
    using mail_step_inv [OF assms(1), of "M_get k p"] assms(2,3) by simp
  have "map_of (ml_posts m') k = Some p' \<and> p' \<in> ml_live m'"
    using assms(2) by (auto simp: mail_get_def map_of_mail_emplace split: option.splits if_splits)
  with m' assms(4) have "map_of (ml_posts (fold mail_step ops m')) k = Some p' \<and>
      p' \<in> ml_live (fold mail_step ops m')"
  proof (induction ops arbitrary: m')
    case Nil
    then show ?case by simp
  next
    case (Cons x xs)
    from Cons.IH [OF mail_step_inv [OF Cons.prems(1), of x]]
      mail_step_other [OF Cons.prems(1), of k p' x] Cons.prems(2,3)
    show ?case by auto
  qed
  then show ?thesis by (simp add: mail_get_def)
qed

theorem mail_get_stable_witness:
  "fst (mail_get ''idr'' 9 (fold mail_step [M_get ''hdr'' 2, M_expire 2, M_cleanup]
     (snd (mail_get ''idr'' 1 \<lparr>ml_posts = [], ml_live = {}\<rparr>)))) = Some 1"
proof -
  have inv: "mail_inv \<lparr>ml_posts = [], ml_live = {}\<rparr>" by (simp add: mail_inv_def)
  have get: "mail_get ''idr'' 1 \<lparr>ml_posts = [], ml_live = {}\<rparr> =
      (Some 1, \<lparr>ml_posts = [(''idr'', 1)], ml_live = {1}\<rparr>)"
    by (simp add: mail_get_def)
  have "fst (mail_get ''idr'' 9 (fold mail_step [M_get ''hdr'' 2, M_expire 2, M_cleanup]
      \<lparr>ml_posts = [(''idr'', 1)], ml_live = {1}\<rparr>)) = Some 1"
    by (rule mail_get_stable [OF inv get]) simp_all
  then show ?thesis by (simp only: get snd_conv)
qed

end
