(* ===== verification/Input_State.thy ===== *)
theory Input_State
  imports Input_Packets Task_Pool Thread_Safe
begin

text \<open>
  The state of \<^verbatim>\<open>src/input.cpp\<close>: the file's global variables, the \<^verbatim>\<open>input_t\<close> of every
  client, the task pool the handlers push to, and the calls made to the platform layer
  (\<^verbatim>\<open>platf::*\<close>), recorded in order. Single precision arithmetic is a parameter, the record
  \<open>float_ops\<close> of the operations the code uses, so nothing is assumed about rounding.
\<close>

section \<open>Floating point operations\<close>

text \<open>
  \<open>fl_angle\<close> is the conversion to \<^verbatim>\<open>float\<close> of \<^verbatim>\<open>M_PI / 4\<close> (\<open>None\<close>) or of
  \<^verbatim>\<open>rotation * (M_PI / 180)\<close>, \<open>fl_add_half_pi a\<close> of \<^verbatim>\<open>a + M_PI / 2\<close>, and
  \<open>fl_hypot x y\<close> of \<^verbatim>\<open>sqrt(pow(x, 2) + pow(y, 2))\<close>, which the code computes in double.
\<close>

record 'f float_ops =
  fl_of_int :: "int \<Rightarrow> 'f"
  fl_of_bits :: "netfloat \<Rightarrow> 'f"
  fl_to_int :: "'f \<Rightarrow> int"
  fl_add :: "'f \<Rightarrow> 'f \<Rightarrow> 'f"
  fl_sub :: "'f \<Rightarrow> 'f \<Rightarrow> 'f"
  fl_mul :: "'f \<Rightarrow> 'f \<Rightarrow> 'f"
  fl_div :: "'f \<Rightarrow> 'f \<Rightarrow> 'f"
  fl_less :: "'f \<Rightarrow> 'f \<Rightarrow> bool"
  fl_eq :: "'f \<Rightarrow> 'f \<Rightarrow> bool"
  fl_angle :: "int option \<Rightarrow> 'f"
  fl_add_half_pi :: "'f \<Rightarrow> 'f"
  fl_cos :: "'f \<Rightarrow> 'f"
  fl_sin :: "'f \<Rightarrow> 'f"
  fl_hypot :: "'f \<Rightarrow> 'f \<Rightarrow> 'f"

text \<open>\<^verbatim>\<open>std::clamp(v, lo, hi)\<close>.\<close>

definition fl_clamp :: "'f float_ops \<Rightarrow> 'f \<Rightarrow> 'f \<Rightarrow> 'f \<Rightarrow> 'f" where
  "fl_clamp F v lo hi = (if fl_less F v lo then lo else if fl_less F hi v then hi else v)"

section \<open>Platform data\<close>

record platf_port =
  pp_offset_x :: int
  pp_offset_y :: int
  pp_width :: int
  pp_height :: int
  pp_logical_width :: int
  pp_logical_height :: int

record 'f touch_port =
  tpt_port :: platf_port
  tpt_env_width :: int
  tpt_env_height :: int
  tpt_client_offsetX :: 'f
  tpt_client_offsetY :: 'f
  tpt_scalar_inv :: 'f
  tpt_scalar_tpcoords :: 'f
  tpt_env_logical_width :: int
  tpt_env_logical_height :: int

text \<open>\<^verbatim>\<open>explicit operator bool\<close>.\<close>

definition touch_port_valid :: "'f touch_port \<Rightarrow> bool" where
  "touch_port_valid tp \<longleftrightarrow> pp_width (tpt_port tp) \<noteq> 0 \<and> pp_height (tpt_port tp) \<noteq> 0 \<and>
     tpt_env_width tp \<noteq> 0 \<and> tpt_env_height tp \<noteq> 0"

record gamepad_state =
  gs_buttonFlags :: u32
  gs_lt :: u8
  gs_rt :: u8
  gs_lsX :: u16
  gs_lsY :: u16
  gs_rsX :: u16
  gs_rsY :: u16

definition gamepad_state_zero :: gamepad_state where
  "gamepad_state_zero = \<lparr>gs_buttonFlags = 0, gs_lt = 0, gs_rt = 0, gs_lsX = 0, gs_lsY = 0,
     gs_rsX = 0, gs_rsY = 0\<rparr>"

record gamepad_arrival =
  ga_type :: u8
  ga_capabilities :: u16
  ga_supportedButtons :: u32

record 'f touch_input =
  ti_eventType :: u8
  ti_rotation :: u16
  ti_pointerId :: u32
  ti_x :: 'f
  ti_y :: 'f
  ti_pressureOrDistance :: 'f
  ti_contactAreaMajor :: 'f
  ti_contactAreaMinor :: 'f

record 'f pen_input =
  pi_eventType :: u8
  pi_toolType :: u8
  pi_penButtons :: u8
  pi_tilt :: u8
  pi_rotation :: u16
  pi_x :: 'f
  pi_y :: 'f
  pi_pressureOrDistance :: 'f
  pi_contactAreaMajor :: 'f
  pi_contactAreaMinor :: 'f

text \<open>\<^verbatim>\<open>gamepad_id_t\<close> is the pair of the global index and the client's own index.\<close>

datatype 'f platf_call =
    Move_mouse int int
  | Abs_mouse_to platf_port 'f 'f
  | Button_mouse nat bool
  | Scroll_by int
  | Hscroll_by int
  | Keyboard_update u16 bool u8
  | Unicode_text bytes
  | Alloc_gamepad "int \<times> nat" gamepad_arrival
  | Free_gamepad int
  | Gamepad_update int gamepad_state
  | Gamepad_touch "int \<times> nat" u8 u32 'f 'f 'f
  | Gamepad_motion "int \<times> nat" u8 'f 'f 'f
  | Gamepad_battery "int \<times> nat" u8 u8
  | Touch_update platf_port "'f touch_input"
  | Pen_update platf_port "'f pen_input"

section \<open>Per-client and global state\<close>

datatype button_state = BS_NONE | BS_DOWN | BS_UP

record gamepad =
  gp_gamepad_state :: gamepad_state
  gp_back_timeout_id :: task_id
  gp_id :: int
  gp_back_button_state :: button_state

definition new_gamepad :: gamepad where
  "new_gamepad = \<lparr>gp_gamepad_state = gamepad_state_zero, gp_back_timeout_id = 0, gp_id = - 1,
     gp_back_button_state = BS_NONE\<rparr>"

definition MAX_GAMEPADS :: nat where "MAX_GAMEPADS = 16"

record 'f client_input =
  ci_shortcutFlags :: u32
  ci_gamepads :: "gamepad list"
  ci_touch_port_event :: "'f touch_port event"
  ci_input_queue :: "packet list"
  ci_mouse_left_button_timeout :: task_id
  ci_touch_port :: "'f touch_port"
  ci_accumulated_vscroll_delta :: int
  ci_accumulated_hscroll_delta :: int

text \<open>The closures that the file pushes to the task pool, with what they capture.\<close>

datatype input_task =
    T_passthrough_next nat
  | T_repeat_key u16 u8 u8
  | T_release_left nat bool
  | T_back_timeout nat nat
  | T_free_gamepad int
  | T_reset
  | T_nudge

text \<open>
  \<open>is_key_press\<close> is the \<^verbatim>\<open>unordered_map\<close> in its iteration order; \<open>is_clients\<close> gives the
  \<^verbatim>\<open>input_t\<close> of a client number.
\<close>

record 'f input_state =
  is_key_press_repeat_id :: task_id
  is_key_press :: "(u32 \<times> bool) list"
  is_mouse_press :: "bool list"
  is_gamepadMask :: "bool list"
  is_clients :: "nat \<Rightarrow> 'f client_input"
  is_pool :: "input_task task_pool"
  is_display_cursor :: bool
  is_switch_display :: "int event"
  is_out :: "'f platf_call list"

text \<open>
  What the handlers read: the configuration, the clock, the address the allocator gives to a new
  task when the addresses in the list are in use, the answer of \<^verbatim>\<open>platf::alloc_gamepad\<close>
  (\<open>True\<close> is failure), and the float operations.
\<close>

record 'f input_env =
  en_mouse :: bool
  en_keyboard :: bool
  en_controller :: bool
  en_high_resolution_scrolling :: bool
  en_keybindings :: "int \<Rightarrow> int option"
  en_key_repeat_delay :: int
  en_key_repeat_period :: int
  en_back_button_timeout :: int
  en_now :: time_point
  en_new_task :: "task_id list \<Rightarrow> task_id"
  en_alloc_fails :: "int \<times> nat \<Rightarrow> gamepad_arrival \<Rightarrow> bool"
  en_float :: "'f float_ops"

definition milliseconds :: "int \<Rightarrow> int" where
  "milliseconds n = n * 1000000"

section \<open>Small steps shared by the handlers\<close>

definition emit :: "'f platf_call \<Rightarrow> 'f input_state \<Rightarrow> 'f input_state" where
  "emit a s = s\<lparr>is_out := is_out s @ [a]\<rparr>"

definition upd_client :: "nat \<Rightarrow> ('f client_input \<Rightarrow> 'f client_input) \<Rightarrow> 'f input_state
    \<Rightarrow> 'f input_state" where
  "upd_client c f s = s\<lparr>is_clients := (is_clients s)(c := f (is_clients s c))\<rparr>"

definition upd_gamepad :: "nat \<Rightarrow> nat \<Rightarrow> (gamepad \<Rightarrow> gamepad) \<Rightarrow> 'f input_state \<Rightarrow> 'f input_state" where
  "upd_gamepad c n f = upd_client c (\<lambda>ci. ci\<lparr>ci_gamepads := (ci_gamepads ci)[n := f (ci_gamepads ci ! n)]\<rparr>)"

definition live_tasks :: "'a task_pool \<Rightarrow> task_id list" where
  "live_tasks p = map task_addr (p_tasks p) @ map (task_addr \<circ> snd) (p_timer_tasks p)"

definition push_now :: "'f input_env \<Rightarrow> input_task \<Rightarrow> 'f input_state \<Rightarrow> 'f input_state" where
  "push_now env t s =
     s\<lparr>is_pool := pool_push (en_new_task env (live_tasks (is_pool s)), t) (is_pool s)\<rparr>"

definition push_later :: "'f input_env \<Rightarrow> input_task \<Rightarrow> int \<Rightarrow> 'f input_state
    \<Rightarrow> task_id \<times> 'f input_state" where
  "push_later env t duration s =
     (case push_delayed (en_now env) (en_new_task env (live_tasks (is_pool s)), t) duration (is_pool s) of
        (i, p) \<Rightarrow> (i, s\<lparr>is_pool := p\<rparr>))"

definition cancel_id :: "task_id \<Rightarrow> 'f input_state \<Rightarrow> 'f input_state" where
  "cancel_id i s = s\<lparr>is_pool := snd (cancel_task i (is_pool s))\<rparr>"

lemmas step_defs = emit_def upd_client_def upd_gamepad_def push_now_def push_later_def cancel_id_def

declare step_defs [op_defs]

section \<open>Ids and keys\<close>

fun alloc_id_from :: "nat \<Rightarrow> bool list \<Rightarrow> int" where
  "alloc_id_from x [] = - 1"
| "alloc_id_from x (b # bs) = (if \<not> b then int x else alloc_id_from (Suc x) bs)"

text \<open>\<^verbatim>\<open>alloc_id\<close>: the first clear bit is set and returned, \<open>-1\<close> when there is none.\<close>

definition alloc_id :: "bool list \<Rightarrow> int \<times> bool list" where
  "alloc_id m = (let x = alloc_id_from 0 m in (x, if x < 0 then m else m[nat x := True]))"

definition free_id :: "bool list \<Rightarrow> int \<Rightarrow> bool list" where
  "free_id m i = m[nat i := False]"

definition make_kpid :: "u16 \<Rightarrow> u8 \<Rightarrow> u32" where
  "make_kpid vk flags = (push_bit 8 (ucast vk) OR ucast flags)"

definition vk_from_kpid :: "u32 \<Rightarrow> u16" where
  "vk_from_kpid kpid = ucast (drop_bit 8 kpid)"

definition flags_from_kpid :: "u32 \<Rightarrow> u8" where
  "flags_from_kpid kpid = ucast (kpid AND 0xFF)"

text \<open>\<^verbatim>\<open>key_press[k]\<close>: the element, inserted as \<^verbatim>\<open>false\<close> when it is missing.\<close>

definition kp_get :: "u32 \<Rightarrow> (u32 \<times> bool) list \<Rightarrow> bool" where
  "kp_get k m = (case map_of m k of Some b \<Rightarrow> b | None \<Rightarrow> False)"

fun kp_set :: "u32 \<Rightarrow> bool \<Rightarrow> (u32 \<times> bool) list \<Rightarrow> (u32 \<times> bool) list" where
  "kp_set k b [] = [(k, b)]"
| "kp_set k b ((k', b') # m) = (if k = k' then (k, b) # m else (k', b') # kp_set k b m)"

definition kp_touch :: "u32 \<Rightarrow> (u32 \<times> bool) list \<Rightarrow> (u32 \<times> bool) list" where
  "kp_touch k m = kp_set k (kp_get k m) m"

definition VKEY_SHIFT :: u16 where "VKEY_SHIFT = 0x10"
definition VKEY_LSHIFT :: u16 where "VKEY_LSHIFT = 0xA0"
definition VKEY_RSHIFT :: u16 where "VKEY_RSHIFT = 0xA1"
definition VKEY_CONTROL :: u16 where "VKEY_CONTROL = 0x11"
definition VKEY_LCONTROL :: u16 where "VKEY_LCONTROL = 0xA2"
definition VKEY_RCONTROL :: u16 where "VKEY_RCONTROL = 0xA3"
definition VKEY_MENU :: u16 where "VKEY_MENU = 0x12"
definition VKEY_LMENU :: u16 where "VKEY_LMENU = 0xA4"
definition VKEY_RMENU :: u16 where "VKEY_RMENU = 0xA5"

lemmas vkey_defs = VKEY_SHIFT_def VKEY_LSHIFT_def VKEY_RSHIFT_def VKEY_CONTROL_def
  VKEY_LCONTROL_def VKEY_RCONTROL_def VKEY_MENU_def VKEY_LMENU_def VKEY_RMENU_def

text \<open>The bits of \<^verbatim>\<open>shortkey_e\<close> and of the packet's modifiers.\<close>

definition SK_CTRL :: u32 where "SK_CTRL = 0x1"
definition SK_ALT :: u32 where "SK_ALT = 0x2"
definition SK_SHIFT :: u32 where "SK_SHIFT = 0x4"
definition SK_SHORTCUT :: u32 where "SK_SHORTCUT = SK_CTRL OR SK_ALT OR SK_SHIFT"
definition MODIFIER_SHIFT :: u8 where "MODIFIER_SHIFT = 0x01"
definition MODIFIER_CTRL :: u8 where "MODIFIER_CTRL = 0x02"
definition MODIFIER_ALT :: u8 where "MODIFIER_ALT = 0x04"

lemmas modifier_defs = SK_CTRL_def SK_ALT_def SK_SHIFT_def SK_SHORTCUT_def MODIFIER_SHIFT_def
  MODIFIER_CTRL_def MODIFIER_ALT_def

definition is_modifier :: "u16 \<Rightarrow> bool" where
  "is_modifier keyCode \<longleftrightarrow> keyCode \<in> {VKEY_SHIFT, VKEY_LSHIFT, VKEY_RSHIFT, VKEY_CONTROL,
     VKEY_LCONTROL, VKEY_RCONTROL, VKEY_MENU, VKEY_LMENU, VKEY_RMENU}"

definition update_shortcutFlags :: "u32 \<Rightarrow> u16 \<Rightarrow> bool \<Rightarrow> u32" where
  "update_shortcutFlags flags keyCode release =
     (let upd = (\<lambda>bit. if release then flags AND NOT bit else flags OR bit)
      in if keyCode \<in> {VKEY_SHIFT, VKEY_LSHIFT, VKEY_RSHIFT} then upd SK_SHIFT
         else if keyCode \<in> {VKEY_CONTROL, VKEY_LCONTROL, VKEY_RCONTROL} then upd SK_CTRL
         else if keyCode \<in> {VKEY_MENU, VKEY_LMENU, VKEY_RMENU} then upd SK_ALT
         else flags)"

definition map_keycode :: "'f input_env \<Rightarrow> u16 \<Rightarrow> u16" where
  "map_keycode env keycode =
     (case en_keybindings env (sint keycode) of Some v \<Rightarrow> word_of_int v | None \<Rightarrow> keycode)"

end
