(* ===== verification/Input.thy ===== *)
theory Input
  imports Input_State
begin

text \<open>
  The handlers of \<^verbatim>\<open>src/input.cpp\<close>: one function per \<^verbatim>\<open>passthrough\<close> overload, the closures
  they push to the task pool, the message queue and the reset. A handler takes the environment, the
  number of the client and the state.
\<close>

section \<open>Mouse\<close>

definition DISABLE_LEFT_BUTTON_DELAY :: task_id where "DISABLE_LEFT_BUTTON_DELAY = 1"
definition ENABLE_LEFT_BUTTON_DELAY :: task_id where "ENABLE_LEFT_BUTTON_DELAY = 0"

definition passthrough_rel_mouse :: "'f input_env \<Rightarrow> nat \<Rightarrow> rel_mouse_packet \<Rightarrow> 'f input_state
    \<Rightarrow> 'f input_state" where
  "passthrough_rel_mouse env c p s =
     (if \<not> en_mouse env then s
      else emit (Move_mouse (sint (rm_deltaX p)) (sint (rm_deltaY p)))
        (upd_client c (\<lambda>ci. ci\<lparr>ci_mouse_left_button_timeout := DISABLE_LEFT_BUTTON_DELAY\<rparr>) s))"

text \<open>The touch port is replaced when a new one waits in the event.\<close>

definition refresh_touch_port :: "nat \<Rightarrow> 'f input_state \<Rightarrow> 'f input_state" where
  "refresh_touch_port c s =
     (let ev = ci_touch_port_event (is_clients s c)
      in if event_peek ev
         then (case event_pop ev of
             (Returns (Some tp), ev') \<Rightarrow>
               upd_client c (\<lambda>ci. ci\<lparr>ci_touch_port := tp, ci_touch_port_event := ev'\<rparr>) s
           | (_, ev') \<Rightarrow> upd_client c (\<lambda>ci. ci\<lparr>ci_touch_port_event := ev'\<rparr>) s)
         else s)"

text \<open>The arithmetic of \<^verbatim>\<open>client_to_touchport\<close> for one axis.\<close>

definition touchport_axis :: "'f float_ops \<Rightarrow> int \<Rightarrow> int \<Rightarrow> 'f \<Rightarrow> 'f \<Rightarrow> 'f \<Rightarrow> 'f \<Rightarrow> 'f \<Rightarrow> 'f" where
  "touchport_axis F port_size port_offset client_offset scalar_inv scalar_tpcoords val sz =
     (let scalar = fl_div F (fl_of_int F port_size) sz;
          x = fl_mul F (fl_clamp F val (fl_of_int F 0) sz) scalar;
          x = fl_clamp F x client_offset (fl_sub F (fl_mul F sz scalar) client_offset);
          x = fl_mul F (fl_sub F x client_offset) scalar_inv
      in fl_div F (fl_add F x (fl_mul F (fl_of_int F port_offset) scalar_tpcoords)) scalar_tpcoords)"

definition client_to_touchport :: "'f input_env \<Rightarrow> nat \<Rightarrow> 'f \<times> 'f \<Rightarrow> 'f \<times> 'f \<Rightarrow> 'f input_state
    \<Rightarrow> ('f \<times> 'f) option \<times> 'f input_state" where
  "client_to_touchport env c val sz s =
     (let s' = refresh_touch_port c s; tp = ci_touch_port (is_clients s' c); F = en_float env
      in if \<not> touch_port_valid tp then (None, s')
         else (Some
           (touchport_axis F (pp_width (tpt_port tp)) (pp_offset_x (tpt_port tp))
              (tpt_client_offsetX tp) (tpt_scalar_inv tp) (tpt_scalar_tpcoords tp) (fst val) (fst sz),
            touchport_axis F (pp_height (tpt_port tp)) (pp_offset_y (tpt_port tp))
              (tpt_client_offsetY tp) (tpt_scalar_inv tp) (tpt_scalar_tpcoords tp) (snd val) (snd sz)),
           s'))"

definition passthrough_abs_mouse :: "'f input_env \<Rightarrow> nat \<Rightarrow> abs_mouse_packet \<Rightarrow> 'f input_state
    \<Rightarrow> 'f input_state" where
  "passthrough_abs_mouse env c p s =
     (if \<not> en_mouse env then s
      else
        let s = (if ci_mouse_left_button_timeout (is_clients s c) = DISABLE_LEFT_BUTTON_DELAY
                 then upd_client c (\<lambda>ci. ci\<lparr>ci_mouse_left_button_timeout := ENABLE_LEFT_BUTTON_DELAY\<rparr>) s
                 else s);
            fi = (\<lambda>w. fl_of_int (en_float env) (sint w))
        in if am_width p = 0 \<or> am_height p = 0 then s
           else case client_to_touchport env c (fi (am_x p), fi (am_y p))
               (fi (am_width p), fi (am_height p)) s of
             (None, s) \<Rightarrow> s
           | (Some (x, y), s) \<Rightarrow>
               let tp = ci_touch_port (is_clients s c);
                   (w, h) = (if tpt_env_logical_width tp \<noteq> 0 \<and> tpt_env_logical_height tp \<noteq> 0
                             then (tpt_env_logical_width tp, tpt_env_logical_height tp)
                             else (tpt_env_width tp, tpt_env_height tp))
               in emit (Abs_mouse_to \<lparr>pp_offset_x = pp_offset_x (tpt_port tp),
                    pp_offset_y = pp_offset_y (tpt_port tp), pp_width = w, pp_height = h,
                    pp_logical_width = 0, pp_logical_height = 0\<rparr> x y) s)"

definition BUTTON_LEFT :: nat where "BUTTON_LEFT = 1"
definition BUTTON_RIGHT :: nat where "BUTTON_RIGHT = 3"

definition set_mouse_press :: "nat \<Rightarrow> bool \<Rightarrow> 'f input_state \<Rightarrow> 'f input_state" where
  "set_mouse_press button b s = s\<lparr>is_mouse_press := (is_mouse_press s)[button := b]\<rparr>"

definition passthrough_mouse_button :: "'f input_env \<Rightarrow> nat \<Rightarrow> bool \<Rightarrow> u8 \<Rightarrow> 'f input_state
    \<Rightarrow> 'f input_state" where
  "passthrough_mouse_button env c release b s =
     (let button = unat b; tracked = (0 < button \<and> button < length (is_mouse_press s))
      in if \<not> en_mouse env then s
         else if tracked \<and> is_mouse_press s ! button \<noteq> release then s
         else
           let s = (if tracked then set_mouse_press button (\<not> release) s else s);
               timeout = ci_mouse_left_button_timeout (is_clients s c)
           in if button = BUTTON_LEFT \<and> release \<and> timeout = 0
              then (case push_later env (T_release_left c release) (milliseconds 10) s of
                  (i, s) \<Rightarrow> upd_client c (\<lambda>ci. ci\<lparr>ci_mouse_left_button_timeout := i\<rparr>) s)
              else if button = BUTTON_RIGHT \<and> \<not> release \<and> DISABLE_LEFT_BUTTON_DELAY < timeout
              then set_mouse_press BUTTON_RIGHT False
                (emit (Button_mouse BUTTON_RIGHT True) (emit (Button_mouse BUTTON_RIGHT False) s))
              else emit (Button_mouse button release) s)"

text \<open>The closure of the delayed release of the left button.\<close>

definition run_release_left :: "nat \<Rightarrow> bool \<Rightarrow> 'f input_state \<Rightarrow> 'f input_state" where
  "run_release_left c release s =
     (if is_mouse_press s ! BUTTON_LEFT then s
      else upd_client c (\<lambda>ci. ci\<lparr>ci_mouse_left_button_timeout := 0\<rparr>)
        (set_mouse_press BUTTON_LEFT False (emit (Button_mouse BUTTON_LEFT release) s)))"

definition WHEEL_DELTA :: int where "WHEEL_DELTA = 120"

definition passthrough_scroll :: "'f input_env \<Rightarrow> nat \<Rightarrow> scroll_packet \<Rightarrow> 'f input_state
    \<Rightarrow> 'f input_state" where
  "passthrough_scroll env c p s =
     (if \<not> en_mouse env then s
      else if en_high_resolution_scrolling env then emit (Scroll_by (sint (sc_amt1 p))) s
      else
        let acc = ci_accumulated_vscroll_delta (is_clients s c) + sint (sc_amt1 p);
            full_ticks = cxx_div acc WHEEL_DELTA
        in if full_ticks \<noteq> 0
           then upd_client c (\<lambda>ci. ci\<lparr>ci_accumulated_vscroll_delta := acc - full_ticks * WHEEL_DELTA\<rparr>)
             (emit (Scroll_by (full_ticks * WHEEL_DELTA)) s)
           else upd_client c (\<lambda>ci. ci\<lparr>ci_accumulated_vscroll_delta := acc\<rparr>) s)"

definition passthrough_hscroll :: "'f input_env \<Rightarrow> nat \<Rightarrow> u16 \<Rightarrow> 'f input_state \<Rightarrow> 'f input_state" where
  "passthrough_hscroll env c amount s =
     (if \<not> en_mouse env then s
      else if en_high_resolution_scrolling env then emit (Hscroll_by (sint amount)) s
      else
        let acc = ci_accumulated_hscroll_delta (is_clients s c) + sint amount;
            full_ticks = cxx_div acc WHEEL_DELTA
        in if full_ticks \<noteq> 0
           then upd_client c (\<lambda>ci. ci\<lparr>ci_accumulated_hscroll_delta := acc - full_ticks * WHEEL_DELTA\<rparr>)
             (emit (Hscroll_by (full_ticks * WHEEL_DELTA)) s)
           else upd_client c (\<lambda>ci. ci\<lparr>ci_accumulated_hscroll_delta := acc\<rparr>) s)"

section \<open>Keyboard\<close>

definition passthrough_unicode :: "'f input_env \<Rightarrow> bytes \<Rightarrow> 'f input_state \<Rightarrow> 'f input_state" where
  "passthrough_unicode env text s =
     (if \<not> en_keyboard env then s else emit (Unicode_text text) s)"

text \<open>
  \<^verbatim>\<open>apply_shortcut\<close>: the result is the \<^verbatim>\<open>int\<close> that is compared with 0.
\<close>

definition apply_shortcut :: "u16 \<Rightarrow> 'f input_state \<Rightarrow> int \<times> 'f input_state" where
  "apply_shortcut keyCode s =
     (if 0x70 \<le> sint keyCode \<and> sint keyCode \<le> 0x7C
      then (1, s\<lparr>is_switch_display := event_raise (sint keyCode - 0x70) (is_switch_display s)\<rparr>)
      else if keyCode = 0x4E then (1, s\<lparr>is_display_cursor := \<not> is_display_cursor s\<rparr>)
      else (0, s))"

definition send_modifiers :: "bool \<Rightarrow> u8 \<Rightarrow> u8 \<Rightarrow> 'f input_state \<Rightarrow> 'f input_state" where
  "send_modifiers release flags synthetic s =
     (let s = (if synthetic AND MODIFIER_SHIFT \<noteq> 0 then emit (Keyboard_update VKEY_SHIFT release flags) s else s);
          s = (if synthetic AND MODIFIER_CTRL \<noteq> 0 then emit (Keyboard_update VKEY_CONTROL release flags) s else s)
      in if synthetic AND MODIFIER_ALT \<noteq> 0 then emit (Keyboard_update VKEY_MENU release flags) s else s)"

definition send_key_and_modifiers :: "'f input_env \<Rightarrow> u16 \<Rightarrow> bool \<Rightarrow> u8 \<Rightarrow> u8 \<Rightarrow> 'f input_state
    \<Rightarrow> 'f input_state" where
  "send_key_and_modifiers env key_code release flags synthetic s =
     (let s = (if \<not> release then send_modifiers False flags synthetic s else s);
          s = emit (Keyboard_update (map_keycode env key_code) release flags) s
      in if \<not> release then send_modifiers True flags synthetic s else s)"

definition repeat_key :: "'f input_env \<Rightarrow> u16 \<Rightarrow> u8 \<Rightarrow> u8 \<Rightarrow> 'f input_state \<Rightarrow> 'f input_state" where
  "repeat_key env key_code flags synthetic s =
     (let k = make_kpid key_code flags;
          s' = s\<lparr>is_key_press := kp_touch k (is_key_press s)\<rparr>
      in if \<not> kp_get k (is_key_press s) then s'\<lparr>is_key_press_repeat_id := 0\<rparr>
         else case push_later env (T_repeat_key key_code flags synthetic) (en_key_repeat_period env)
             (send_key_and_modifiers env key_code False flags synthetic s') of
           (i, s) \<Rightarrow> s\<lparr>is_key_press_repeat_id := i\<rparr>)"

definition synthetic_modifiers :: "u32 \<Rightarrow> u8 \<Rightarrow> u8" where
  "synthetic_modifiers shortcutFlags modifiers =
     (let bit = (\<lambda>sk md. if shortcutFlags AND sk = 0 \<and> modifiers AND md \<noteq> 0 then md else 0)
      in bit SK_SHIFT MODIFIER_SHIFT OR bit SK_CTRL MODIFIER_CTRL OR bit SK_ALT MODIFIER_ALT)"

text \<open>
  The part of the handler after the duplicate and shortcut checks: \<^verbatim>\<open>pressed = !release\<close>, the
  platform calls and the shortcut flags.
\<close>

definition commit_key :: "'f input_env \<Rightarrow> nat \<Rightarrow> u16 \<Rightarrow> bool \<Rightarrow> u8 \<Rightarrow> u8 \<Rightarrow> 'f input_state
    \<Rightarrow> 'f input_state" where
  "commit_key env c keyCode release flags synthetic s =
     (let s = s\<lparr>is_key_press := kp_set (make_kpid keyCode flags) (\<not> release) (is_key_press s)\<rparr>;
          s = send_key_and_modifiers env keyCode release flags synthetic s
      in upd_client c (\<lambda>ci. ci\<lparr>ci_shortcutFlags :=
           update_shortcutFlags (ci_shortcutFlags ci) (map_keycode env keyCode) release\<rparr>) s)"

definition restart_repeat :: "'f input_env \<Rightarrow> u16 \<Rightarrow> u8 \<Rightarrow> u8 \<Rightarrow> 'f input_state \<Rightarrow> 'f input_state" where
  "restart_repeat env keyCode flags synthetic s =
     (let s = (if is_key_press_repeat_id s \<noteq> 0 then cancel_id (is_key_press_repeat_id s) s else s)
      in if 0 < en_key_repeat_delay env
         then (case push_later env (T_repeat_key keyCode flags synthetic) (en_key_repeat_delay env) s of
             (i, s) \<Rightarrow> s\<lparr>is_key_press_repeat_id := i\<rparr>)
         else s)"

definition passthrough_keyboard :: "'f input_env \<Rightarrow> nat \<Rightarrow> keyboard_packet \<Rightarrow> 'f input_state
    \<Rightarrow> 'f input_state" where
  "passthrough_keyboard env c p s =
     (if \<not> en_keyboard env then s
      else
        let release = kb_release p; flags = kb_flags p; keyCode = kb_keyCode p AND 0x00FF;
            k = make_kpid keyCode flags;
            shortcutFlags = ci_shortcutFlags (is_clients s c);
            synthetic = (if \<not> release \<and> \<not> is_modifier keyCode
                         then synthetic_modifiers shortcutFlags (kb_modifiers p) else 0);
            pressed = kp_get k (is_key_press s);
            s = s\<lparr>is_key_press := kp_touch k (is_key_press s)\<rparr>
        in if \<not> pressed
           then if \<not> release
                then (if shortcutFlags = SK_SHORTCUT \<and> 0 < fst (apply_shortcut keyCode s)
                      then snd (apply_shortcut keyCode s)
                      else commit_key env c keyCode release flags synthetic
                        (restart_repeat env keyCode flags synthetic
                          (if shortcutFlags = SK_SHORTCUT then snd (apply_shortcut keyCode s) else s)))
                else s
           else if \<not> release then s
           else commit_key env c keyCode release flags synthetic s)"

section \<open>Touch and pen\<close>

text \<open>\<^verbatim>\<open>monitor_touch_port\<close>: the port of the monitor and the normalised coordinates.\<close>

definition monitor_touch_port :: "'f float_ops \<Rightarrow> 'f touch_port \<Rightarrow> 'f \<times> 'f
    \<Rightarrow> (platf_port \<times> 'f \<times> 'f) option" where
  "monitor_touch_port F tp coords =
     (let dim = (\<lambda>n. fl_div F (fl_mul F (fl_of_int F n) (tpt_scalar_inv tp)) (tpt_scalar_tpcoords tp));
          w = dim (pp_width (tpt_port tp)); h = dim (pp_height (tpt_port tp));
          not_positive = (\<lambda>x. fl_less F x (fl_of_int F 0) \<or> fl_eq F x (fl_of_int F 0))
      in if not_positive w \<or> not_positive h then None
         else Some
           (\<lparr>pp_offset_x = pp_offset_x (tpt_port tp), pp_offset_y = pp_offset_y (tpt_port tp),
             pp_width = fl_to_int F w, pp_height = fl_to_int F h,
             pp_logical_width = 0, pp_logical_height = 0\<rparr>,
            fl_div F (fl_sub F (fst coords) (fl_of_int F (pp_offset_x (tpt_port tp)))) w,
            fl_div F (fl_sub F (snd coords) (fl_of_int F (pp_offset_y (tpt_port tp)))) h))"

definition multiply_polar_by_cartesian_scalar :: "'f float_ops \<Rightarrow> 'f \<Rightarrow> 'f \<Rightarrow> 'f \<times> 'f \<Rightarrow> 'f" where
  "multiply_polar_by_cartesian_scalar F r angle scalar =
     fl_hypot F (fl_mul F (fl_mul F r (fl_cos F angle)) (fst scalar))
       (fl_mul F (fl_mul F r (fl_sin F angle)) (snd scalar))"

definition LI_ROT_UNKNOWN :: u16 where "LI_ROT_UNKNOWN = 0xFFFF"

definition scale_client_contact_area :: "'f float_ops \<Rightarrow> 'f \<times> 'f \<Rightarrow> u16 \<Rightarrow> 'f \<times> 'f \<Rightarrow> 'f \<times> 'f" where
  "scale_client_contact_area F val rotation scalar =
     (let angle = fl_angle F (if rotation = LI_ROT_UNKNOWN then None else Some (uint rotation));
          major = fst val;
          minor = (if \<not> fl_eq F (snd val) (fl_of_int F 0) then snd val else fst val)
      in (multiply_polar_by_cartesian_scalar F major angle scalar,
          multiply_polar_by_cartesian_scalar F minor (fl_add_half_pi F angle) scalar))"

definition from_clamped_netfloat :: "'f float_ops \<Rightarrow> netfloat \<Rightarrow> 'f" where
  "from_clamped_netfloat F b = fl_clamp F (fl_of_bits F b) (fl_of_int F 0) (fl_of_int F 1)"

text \<open>
  The part that the touch and the pen handlers share: the coordinates on the monitor, the port,
  the rotation and the contact area, or \<open>None\<close> on the early returns.
\<close>

definition surface_event :: "'f input_env \<Rightarrow> nat \<Rightarrow> netfloat \<times> netfloat \<Rightarrow> u16 \<Rightarrow> netfloat \<times> netfloat
    \<Rightarrow> 'f input_state \<Rightarrow> (platf_port \<times> ('f \<times> 'f) \<times> u16 \<times> ('f \<times> 'f)) option \<times> 'f input_state" where
  "surface_event env c xy rotation area s =
     (let F = en_float env; full = fl_of_int F 65535;
          scaled = (\<lambda>b. fl_mul F (from_clamped_netfloat F b) full)
      in case client_to_touchport env c (scaled (fst xy), scaled (snd xy)) (full, full) s of
           (None, s) \<Rightarrow> (None, s)
         | (Some coords, s) \<Rightarrow>
             (case monitor_touch_port F (ci_touch_port (is_clients s c)) coords of
                None \<Rightarrow> (None, s)
              | Some (port, x, y) \<Rightarrow>
                  let rot = (if rotation \<noteq> LI_ROT_UNKNOWN then rotation mod 360 else rotation)
                  in (Some (port, (x, y), rot,
                        scale_client_contact_area F (scaled (fst area), scaled (snd area)) rot
                          (fl_div F (fl_of_int F (pp_width port)) full,
                           fl_div F (fl_of_int F (pp_height port)) full)), s)))"

definition passthrough_touch :: "'f input_env \<Rightarrow> nat \<Rightarrow> touch_packet \<Rightarrow> 'f input_state
    \<Rightarrow> 'f input_state" where
  "passthrough_touch env c p s =
     (if \<not> en_mouse env then s
      else case surface_event env c (tp_x p, tp_y p) (tp_rotation p)
          (tp_contactAreaMajor p, tp_contactAreaMinor p) s of
        (None, s) \<Rightarrow> s
      | (Some (port, (x, y), rot, (major, minor)), s) \<Rightarrow>
          emit (Touch_update port
            \<lparr>ti_eventType = tp_eventType p, ti_rotation = rot, ti_pointerId = tp_pointerId p,
             ti_x = x, ti_y = y,
             ti_pressureOrDistance = from_clamped_netfloat (en_float env) (tp_pressureOrDistance p),
             ti_contactAreaMajor = major, ti_contactAreaMinor = minor\<rparr>) s)"

definition passthrough_pen :: "'f input_env \<Rightarrow> nat \<Rightarrow> pen_packet \<Rightarrow> 'f input_state
    \<Rightarrow> 'f input_state" where
  "passthrough_pen env c p s =
     (if \<not> en_mouse env then s
      else case surface_event env c (pn_x p, pn_y p) (pn_rotation p)
          (pn_contactAreaMajor p, pn_contactAreaMinor p) s of
        (None, s) \<Rightarrow> s
      | (Some (port, (x, y), rot, (major, minor)), s) \<Rightarrow>
          emit (Pen_update port
            \<lparr>pi_eventType = pn_eventType p, pi_toolType = pn_toolType p,
             pi_penButtons = pn_penButtons p, pi_tilt = pn_tilt p, pi_rotation = rot,
             pi_x = x, pi_y = y,
             pi_pressureOrDistance = from_clamped_netfloat (en_float env) (pn_pressureOrDistance p),
             pi_contactAreaMajor = major, pi_contactAreaMinor = minor\<rparr>) s)"

section \<open>Controllers\<close>

definition gamepad_of :: "'f input_state \<Rightarrow> nat \<Rightarrow> nat \<Rightarrow> gamepad" where
  "gamepad_of s c n = ci_gamepads (is_clients s c) ! n"

definition n_gamepads :: "'f input_state \<Rightarrow> nat \<Rightarrow> nat" where
  "n_gamepads s c = length (ci_gamepads (is_clients s c))"

text \<open>
  \<^verbatim>\<open>alloc_id\<close>, \<^verbatim>\<open>platf::alloc_gamepad\<close> and \<^verbatim>\<open>free_id\<close> on its failure, as both
  controller handlers do them; the result is the slot.
\<close>

definition claim_slot :: "'f input_env \<Rightarrow> nat \<Rightarrow> gamepad_arrival \<Rightarrow> 'f input_state
    \<Rightarrow> int option \<times> 'f input_state" where
  "claim_slot env n arrival s =
     (case alloc_id (is_gamepadMask s) of (i, m) \<Rightarrow>
        let s = s\<lparr>is_gamepadMask := m\<rparr>
        in if i < 0 then (None, s)
           else let s = emit (Alloc_gamepad (i, n) arrival) s
             in if en_alloc_fails env (i, n) arrival
                then (None, s\<lparr>is_gamepadMask := free_id (is_gamepadMask s) i\<rparr>)
                else (Some i, s))"

definition free_gamepad :: "int \<Rightarrow> 'f input_state \<Rightarrow> 'f input_state" where
  "free_gamepad i s =
     (let s = emit (Free_gamepad i) (emit (Gamepad_update i gamepad_state_zero) s)
      in s\<lparr>is_gamepadMask := free_id (is_gamepadMask s) i\<rparr>)"

definition passthrough_controller_arrival :: "'f input_env \<Rightarrow> nat \<Rightarrow> controller_arrival_packet
    \<Rightarrow> 'f input_state \<Rightarrow> 'f input_state" where
  "passthrough_controller_arrival env c p s =
     (let n = unat (ca_controllerNumber p)
      in if \<not> en_controller env then s
         else if n_gamepads s c \<le> n then s
         else if 0 \<le> gp_id (gamepad_of s c n) then s
         else case claim_slot env n \<lparr>ga_type = ca_type p, ga_capabilities = ca_capabilities p,
             ga_supportedButtons = ca_supportedButtonFlags p\<rparr> s of
           (None, s) \<Rightarrow> s
         | (Some i, s) \<Rightarrow> upd_gamepad c n (\<lambda>g. g\<lparr>gp_id := i\<rparr>) s)"

definition BACK :: u32 where "BACK = 0x0020"
definition HOME :: u32 where "HOME = 0x0400"

text \<open>The back button emulation: the flags to report and the state of the machine.\<close>

fun back_button :: "button_state \<Rightarrow> u32 \<Rightarrow> button_state \<times> u32" where
  "back_button BS_UP flags =
     (if BACK AND flags = 0 then BS_NONE else BS_UP, flags AND NOT BACK)"
| "back_button BS_DOWN flags =
     (if BACK AND flags \<noteq> 0 then BS_NONE else BS_DOWN, flags OR BACK)"
| "back_button BS_NONE flags = (BS_NONE, flags)"

text \<open>The report of an allocated controller, from the state switch to the end of the handler.\<close>

definition report_controller :: "'f input_env \<Rightarrow> nat \<Rightarrow> nat \<Rightarrow> gamepad_state \<Rightarrow> 'f input_state
    \<Rightarrow> 'f input_state" where
  "report_controller env c n st s =
     (let g = gamepad_of s c n;
          (back_state, flags) = back_button (gp_back_button_state g) (gs_buttonFlags st);
          st = st\<lparr>gs_buttonFlags := flags\<rparr>;
          s = upd_gamepad c n (\<lambda>g. g\<lparr>gp_back_button_state := back_state\<rparr>) s;
          changed = flags XOR gs_buttonFlags (gp_gamepad_state g);
          s = (if BACK AND changed \<noteq> 0
               then if BACK AND flags \<noteq> 0
                    then if 0 \<le> en_back_button_timeout env
                         then (case push_later env (T_back_timeout c n) (en_back_button_timeout env) s of
                             (i, s) \<Rightarrow> upd_gamepad c n (\<lambda>g. g\<lparr>gp_back_timeout_id := i\<rparr>) s)
                         else s
                    else if gp_back_timeout_id g \<noteq> 0
                         then upd_gamepad c n (\<lambda>g. g\<lparr>gp_back_timeout_id := 0\<rparr>)
                           (cancel_id (gp_back_timeout_id g) s)
                         else s
               else s)
      in upd_gamepad c n (\<lambda>g. g\<lparr>gp_gamepad_state := st\<rparr>) (emit (Gamepad_update (gp_id g) st) s))"

definition passthrough_multi_controller :: "'f input_env \<Rightarrow> nat \<Rightarrow> multi_controller_packet
    \<Rightarrow> 'f input_state \<Rightarrow> 'f input_state" where
  "passthrough_multi_controller env c p s =
     (if \<not> en_controller env then s
      else if sint (mc_controllerNumber p) < 0 \<or> int (n_gamepads s c) \<le> sint (mc_controllerNumber p)
      then s
      else
        let n = unat (mc_controllerNumber p); g = gamepad_of s c n;
            active = bit (mc_activeGamepadMask p) n;
            st = \<lparr>gs_buttonFlags = ucast (mc_buttonFlags p) OR push_bit 16 (ucast (mc_buttonFlags2 p)),
                  gs_lt = mc_leftTrigger p, gs_rt = mc_rightTrigger p,
                  gs_lsX = mc_leftStickX p, gs_lsY = mc_leftStickY p,
                  gs_rsX = mc_rightStickX p, gs_rsY = mc_rightStickY p\<rparr>
        in if active \<and> gp_id g < 0
           then (case claim_slot env n \<lparr>ga_type = 0, ga_capabilities = 0, ga_supportedButtons = 0\<rparr> s of
               (None, s) \<Rightarrow> s
             | (Some i, s) \<Rightarrow>
                 report_controller env c n st (upd_gamepad c n (\<lambda>g. g\<lparr>gp_id := i\<rparr>) s))
           else if \<not> active \<and> 0 \<le> gp_id g
           then upd_gamepad c n (\<lambda>g. g\<lparr>gp_id := - 1\<rparr>) (free_gamepad (gp_id g) s)
           else if gp_id g < 0 then s
           else report_controller env c n st s)"

text \<open>The closure of the back button timeout: HOME is pressed and released.\<close>

definition run_back_timeout :: "nat \<Rightarrow> nat \<Rightarrow> 'f input_state \<Rightarrow> 'f input_state" where
  "run_back_timeout c n s =
     (let g = gamepad_of s c n;
          st1 = (gp_gamepad_state g)\<lparr>gs_buttonFlags := gs_buttonFlags (gp_gamepad_state g) AND NOT BACK\<rparr>;
          st2 = st1\<lparr>gs_buttonFlags := gs_buttonFlags st1 OR HOME\<rparr>;
          st3 = st2\<lparr>gs_buttonFlags := gs_buttonFlags st2 AND NOT HOME\<rparr>
      in upd_gamepad c n (\<lambda>g. g\<lparr>gp_back_button_state := BS_UP, gp_gamepad_state := st3,
             gp_back_timeout_id := 0\<rparr>)
           (emit (Gamepad_update (gp_id g) st3)
             (emit (Gamepad_update (gp_id g) st2) (emit (Gamepad_update (gp_id g) st1) s))))"

text \<open>The three handlers that need an allocated controller and make one platform call.\<close>

definition with_gamepad :: "'f input_env \<Rightarrow> nat \<Rightarrow> u8 \<Rightarrow> (int \<times> nat \<Rightarrow> 'f platf_call) \<Rightarrow> 'f input_state
    \<Rightarrow> 'f input_state" where
  "with_gamepad env c number call s =
     (let n = unat number
      in if \<not> en_controller env then s
         else if n_gamepads s c \<le> n then s
         else if gp_id (gamepad_of s c n) < 0 then s
         else emit (call (gp_id (gamepad_of s c n), n)) s)"

definition passthrough_controller_touch :: "'f input_env \<Rightarrow> nat \<Rightarrow> controller_touch_packet
    \<Rightarrow> 'f input_state \<Rightarrow> 'f input_state" where
  "passthrough_controller_touch env c p =
     with_gamepad env c (ct_controllerNumber p) (\<lambda>gid. Gamepad_touch gid (ct_eventType p)
       (ct_pointerId p) (from_clamped_netfloat (en_float env) (ct_x p))
       (from_clamped_netfloat (en_float env) (ct_y p))
       (from_clamped_netfloat (en_float env) (ct_pressure p)))"

definition passthrough_controller_motion :: "'f input_env \<Rightarrow> nat \<Rightarrow> controller_motion_packet
    \<Rightarrow> 'f input_state \<Rightarrow> 'f input_state" where
  "passthrough_controller_motion env c p =
     with_gamepad env c (cm_controllerNumber p) (\<lambda>gid. Gamepad_motion gid (cm_motionType p)
       (fl_of_bits (en_float env) (cm_x p)) (fl_of_bits (en_float env) (cm_y p))
       (fl_of_bits (en_float env) (cm_z p)))"

definition passthrough_controller_battery :: "'f input_env \<Rightarrow> nat \<Rightarrow> controller_battery_packet
    \<Rightarrow> 'f input_state \<Rightarrow> 'f input_state" where
  "passthrough_controller_battery env c p =
     with_gamepad env c (cb_controllerNumber p) (\<lambda>gid. Gamepad_battery gid (cb_batteryState p)
       (cb_batteryPercentage p))"

section \<open>The message queue, reset, and the tasks\<close>

definition dispatch :: "'f input_env \<Rightarrow> nat \<Rightarrow> packet \<Rightarrow> 'f input_state \<Rightarrow> 'f input_state" where
  "dispatch env c payload s =
     (case payload of
        Rel_mouse p \<Rightarrow> passthrough_rel_mouse env c p s
      | Abs_mouse p \<Rightarrow> passthrough_abs_mouse env c p s
      | Mouse_button release b \<Rightarrow> passthrough_mouse_button env c release b s
      | Scroll p \<Rightarrow> passthrough_scroll env c p s
      | Hscroll amount \<Rightarrow> passthrough_hscroll env c amount s
      | Keyboard p \<Rightarrow> passthrough_keyboard env c p s
      | Unicode text \<Rightarrow> passthrough_unicode env text s
      | Multi_controller p \<Rightarrow> passthrough_multi_controller env c p s
      | Touch p \<Rightarrow> passthrough_touch env c p s
      | Pen p \<Rightarrow> passthrough_pen env c p s
      | Controller_arrival p \<Rightarrow> passthrough_controller_arrival env c p s
      | Controller_touch p \<Rightarrow> passthrough_controller_touch env c p s
      | Controller_motion p \<Rightarrow> passthrough_controller_motion env c p s
      | Controller_battery p \<Rightarrow> passthrough_controller_battery env c p s
      | Unknown_magic _ \<Rightarrow> s)"

definition passthrough_next_message :: "'f input_env \<Rightarrow> nat \<Rightarrow> 'f input_state \<Rightarrow> 'f input_state" where
  "passthrough_next_message env c s =
     (case take_next_message (ci_input_queue (is_clients s c)) of
        None \<Rightarrow> s
      | Some (payload, rest) \<Rightarrow>
          dispatch env c payload (upd_client c (\<lambda>ci. ci\<lparr>ci_input_queue := rest\<rparr>) s))"

text \<open>Called by the control stream with the data of one message.\<close>

definition passthrough :: "'f input_env \<Rightarrow> nat \<Rightarrow> packet \<Rightarrow> 'f input_state \<Rightarrow> 'f input_state" where
  "passthrough env c input_data s =
     push_now env (T_passthrough_next c)
       (upd_client c (\<lambda>ci. ci\<lparr>ci_input_queue := ci_input_queue ci @ [input_data]\<rparr>) s)"

definition input_reset :: "'f input_env \<Rightarrow> nat \<Rightarrow> 'f input_state \<Rightarrow> 'f input_state" where
  "input_reset env c s =
     push_now env T_reset
       (cancel_id (ci_mouse_left_button_timeout (is_clients s c)) (cancel_id (is_key_press_repeat_id s) s))"

definition release_button :: "nat \<Rightarrow> 'f input_state \<Rightarrow> 'f input_state" where
  "release_button x s =
     (if is_mouse_press s ! x then set_mouse_press x False (emit (Button_mouse x True) s) else s)"

definition release_key :: "u32 \<Rightarrow> 'f input_state \<Rightarrow> 'f input_state" where
  "release_key k s =
     (if \<not> kp_get k (is_key_press s) then s
      else (emit (Keyboard_update (vk_from_kpid k AND 0x00FF) True (flags_from_kpid k)) s)
        \<lparr>is_key_press := kp_set k False (is_key_press s)\<rparr>)"

definition run_reset :: "'f input_state \<Rightarrow> 'f input_state" where
  "run_reset s =
     (let s = fold release_button [0..<length (is_mouse_press s)] s
      in fold release_key (map fst (is_key_press s)) s)"

definition run_task :: "'f input_env \<Rightarrow> input_task \<Rightarrow> 'f input_state \<Rightarrow> 'f input_state" where
  "run_task env t s =
     (case t of
        T_passthrough_next c \<Rightarrow> passthrough_next_message env c s
      | T_repeat_key key flags synthetic \<Rightarrow> repeat_key env key flags synthetic s
      | T_release_left c release \<Rightarrow> run_release_left c release s
      | T_back_timeout c n \<Rightarrow> run_back_timeout c n s
      | T_free_gamepad i \<Rightarrow> free_gamepad i s
      | T_reset \<Rightarrow> run_reset s
      | T_nudge \<Rightarrow> emit (Move_mouse (- 1) (- 1)) (emit (Move_mouse 1 1) s))"

text \<open>One turn of the task pool's worker at the environment's instant.\<close>

definition input_turn :: "'f input_env \<Rightarrow> 'f input_state \<Rightarrow> 'f input_state" where
  "input_turn env s =
     (case pool_pop (en_now env) (is_pool s) of
        (Some (Some (_, t)), p) \<Rightarrow> run_task env t (s\<lparr>is_pool := p\<rparr>)
      | (_, p) \<Rightarrow> s\<lparr>is_pool := p\<rparr>)"

section \<open>Allocation\<close>

definition new_client_input :: "'f float_ops \<Rightarrow> 'f client_input" where
  "new_client_input F =
     \<lparr>ci_shortcutFlags = 0, ci_gamepads = replicate MAX_GAMEPADS new_gamepad,
      ci_touch_port_event = new_event, ci_input_queue = [], ci_mouse_left_button_timeout = 0,
      ci_touch_port =
        \<lparr>tpt_port = \<lparr>pp_offset_x = 0, pp_offset_y = 0, pp_width = 0, pp_height = 0,
           pp_logical_width = 0, pp_logical_height = 0\<rparr>,
         tpt_env_width = 0, tpt_env_height = 0,
         tpt_client_offsetX = fl_of_int F 1, tpt_client_offsetY = fl_of_int F 1,
         tpt_scalar_inv = fl_of_int F 0, tpt_scalar_tpcoords = fl_of_int F 0,
         tpt_env_logical_width = 0, tpt_env_logical_height = 0\<rparr>,
      ci_accumulated_vscroll_delta = 0, ci_accumulated_hscroll_delta = 0\<rparr>"

definition input_alloc :: "'f input_env \<Rightarrow> nat \<Rightarrow> 'f input_state \<Rightarrow> 'f input_state" where
  "input_alloc env c s =
     snd (push_later env T_nudge (milliseconds 100)
       (upd_client c (\<lambda>_. new_client_input (en_float env)) s))"

text \<open>The destructors of the client's gamepads push the release of their slots.\<close>

definition input_destroy :: "'f input_env \<Rightarrow> nat \<Rightarrow> 'f input_state \<Rightarrow> 'f input_state" where
  "input_destroy env c s =
     fold (\<lambda>g s. if 0 \<le> gp_id g then push_now env (T_free_gamepad (gp_id g)) s else s)
       (ci_gamepads (is_clients s c)) (upd_client c (\<lambda>ci. ci\<lparr>ci_gamepads := []\<rparr>) s)"

text \<open>\<^verbatim>\<open>probe_gamepads\<close> over the \<^verbatim>\<open>is_enabled\<close> flags and names the platform supports.\<close>

fun probe_gamepads :: "(bool \<times> string) list \<Rightarrow> bool" where
  "probe_gamepads [] = True"
| "probe_gamepads ((is_enabled, name) # gs) =
     (if is_enabled \<and> name \<noteq> ''auto'' then False else probe_gamepads gs)"

definition initial_input :: "'f float_ops \<Rightarrow> 'f input_state" where
  "initial_input F =
     \<lparr>is_key_press_repeat_id = 0, is_key_press = [], is_mouse_press = replicate 5 False,
      is_gamepadMask = replicate MAX_GAMEPADS False, is_clients = (\<lambda>_. new_client_input F),
      is_pool = empty_pool, is_display_cursor = True, is_switch_display = new_event, is_out = []\<rparr>"

end
