(* ===== verification/Input_Props.thy ===== *)
theory Input_Props
  imports Input
begin

text \<open>
  Invariants and behaviour of the input handlers: what a handler leaves alone, the controller
  slots, the message queue, the wheels, the keyboard, and what a reset releases.
\<close>

section \<open>Frames\<close>

text \<open>Timers never hold the tasks that take messages from a queue or free a slot.\<close>

fun timer_kind :: "input_task \<Rightarrow> bool" where
  "timer_kind (T_repeat_key _ _ _) = True"
| "timer_kind (T_release_left _ _) = True"
| "timer_kind (T_back_timeout _ _) = True"
| "timer_kind T_nudge = True"
| "timer_kind _ = False"

definition timers_ok :: "'f input_state \<Rightarrow> bool" where
  "timers_ok s \<longleftrightarrow> (\<forall>e \<in> set (p_timer_tasks (is_pool s)). \<exists>i t. snd e = Some (i, t) \<and> timer_kind t)"

text \<open>The ids of a client's controllers.\<close>

definition pad_ids :: "'f input_state \<Rightarrow> nat \<Rightarrow> int list" where
  "pad_ids s c = map gp_id (ci_gamepads (is_clients s c))"

text \<open>
  A step that neither runs nor pushes immediate tasks, leaves every message queue alone, and keeps
  the timers in kind.
\<close>

definition calm :: "'f input_state \<Rightarrow> 'f input_state \<Rightarrow> bool" where
  "calm s s' \<longleftrightarrow> p_tasks (is_pool s') = p_tasks (is_pool s) \<and>
     (\<forall>c. ci_input_queue (is_clients s' c) = ci_input_queue (is_clients s c)) \<and>
     (timers_ok s \<longrightarrow> timers_ok s')"

text \<open>A step that leaves the slots and their owners alone.\<close>

definition slots_kept :: "'f input_state \<Rightarrow> 'f input_state \<Rightarrow> bool" where
  "slots_kept s s' \<longleftrightarrow> is_gamepadMask s' = is_gamepadMask s \<and> (\<forall>c. pad_ids s' c = pad_ids s c)"

lemma calm_refl [simp]: "calm s s" by (simp add: calm_def)

lemma calm_trans [trans]: "calm s t \<Longrightarrow> calm t u \<Longrightarrow> calm s u" by (auto simp: calm_def)

lemma slots_kept_refl [simp]: "slots_kept s s" by (simp add: slots_kept_def)

lemma slots_kept_trans [trans]: "slots_kept s t \<Longrightarrow> slots_kept t u \<Longrightarrow> slots_kept s u"
  by (auto simp: slots_kept_def)

text \<open>Both frames are kept by a step whose parts keep them: one rule per primitive.\<close>

definition framed :: "'f input_state \<Rightarrow> 'f input_state \<Rightarrow> bool" where
  "framed s s' \<longleftrightarrow> calm s s' \<and> slots_kept s s'"

lemma framed_refl [simp]: "framed s s" by (simp add: framed_def)

lemma framed_emit [simp]: "framed s (emit a t) \<longleftrightarrow> framed s t"
  by (simp add: framed_def calm_def slots_kept_def emit_def timers_ok_def pad_ids_def)

lemma framed_fields [simp]:
  "framed s (t\<lparr>is_key_press := kp\<rparr>) \<longleftrightarrow> framed s t"
  "framed s (t\<lparr>is_key_press_repeat_id := i\<rparr>) \<longleftrightarrow> framed s t"
  "framed s (t\<lparr>is_mouse_press := mp\<rparr>) \<longleftrightarrow> framed s t"
  "framed s (t\<lparr>is_switch_display := ev\<rparr>) \<longleftrightarrow> framed s t"
  "framed s (t\<lparr>is_display_cursor := b\<rparr>) \<longleftrightarrow> framed s t"
  by (simp_all add: framed_def calm_def slots_kept_def timers_ok_def pad_ids_def)

lemma framed_upd_client:
  assumes "\<And>ci. ci_input_queue (f ci) = ci_input_queue ci"
    and "\<And>ci. map gp_id (ci_gamepads (f ci)) = map gp_id (ci_gamepads ci)"
  shows "framed s (upd_client c f t) \<longleftrightarrow> framed s t"
proof -
  have "ci_input_queue (is_clients (upd_client c f t) d) = ci_input_queue (is_clients t d)"
    and "pad_ids (upd_client c f t) d = pad_ids t d" for d
    using assms by (simp_all add: upd_client_def pad_ids_def)
  then show ?thesis
    by (simp add: framed_def calm_def slots_kept_def timers_ok_def) (simp add: upd_client_def)
qed

lemma framed_clients [simp]:
  "framed s (upd_client c (\<lambda>ci. ci\<lparr>ci_mouse_left_button_timeout := i\<rparr>) t) \<longleftrightarrow> framed s t"
  "framed s (upd_client c (\<lambda>ci. ci\<lparr>ci_touch_port := tp, ci_touch_port_event := ev\<rparr>) t) \<longleftrightarrow> framed s t"
  "framed s (upd_client c (\<lambda>ci. ci\<lparr>ci_touch_port_event := ev\<rparr>) t) \<longleftrightarrow> framed s t"
  "framed s (upd_client c (\<lambda>ci. ci\<lparr>ci_accumulated_vscroll_delta := n\<rparr>) t) \<longleftrightarrow> framed s t"
  "framed s (upd_client c (\<lambda>ci. ci\<lparr>ci_accumulated_hscroll_delta := n\<rparr>) t) \<longleftrightarrow> framed s t"
  "framed s (upd_client c (\<lambda>ci. ci\<lparr>ci_shortcutFlags := fl ci\<rparr>) t) \<longleftrightarrow> framed s t"
  by (simp_all add: framed_upd_client)

lemma framed_upd_gamepad:
  assumes "\<And>g. gp_id (f g) = gp_id g"
  shows "framed s (upd_gamepad c n f t) \<longleftrightarrow> framed s t"
  unfolding upd_gamepad_def
proof (rule framed_upd_client)
  fix ci :: "'a client_input"
  show "map gp_id (ci_gamepads (ci\<lparr>ci_gamepads := (ci_gamepads ci)[n := f (ci_gamepads ci ! n)]\<rparr>)) =
      map gp_id (ci_gamepads ci)"
    using assms by (cases "n < length (ci_gamepads ci)")
      (simp_all add: map_update list_update_beyond list_update_same_conv)
qed simp

lemma framed_gamepads [simp]:
  "framed s (upd_gamepad c n (\<lambda>g. g\<lparr>gp_back_button_state := b\<rparr>) t) \<longleftrightarrow> framed s t"
  "framed s (upd_gamepad c n (\<lambda>g. g\<lparr>gp_back_timeout_id := i\<rparr>) t) \<longleftrightarrow> framed s t"
  "framed s (upd_gamepad c n (\<lambda>g. g\<lparr>gp_gamepad_state := st\<rparr>) t) \<longleftrightarrow> framed s t"
  "framed s (upd_gamepad c n (\<lambda>g. g\<lparr>gp_back_button_state := b, gp_gamepad_state := st,
     gp_back_timeout_id := i\<rparr>) t) \<longleftrightarrow> framed s t"
  by (simp_all add: framed_upd_gamepad)

lemma remove_timer_subset: "set (remove_timer i ts) \<subseteq> set ts"
  by (induction ts) auto

lemma framed_cancel [simp]: "framed s t \<Longrightarrow> framed s (cancel_id i t)"
  using remove_timer_subset [of i "p_timer_tasks (is_pool t)"]
  by (auto simp: framed_def calm_def slots_kept_def cancel_id_def cancel_task_def timers_ok_def pad_ids_def)

lemma framed_push_later:
  "framed s t \<Longrightarrow> timer_kind k \<Longrightarrow> framed s (snd (push_later env k d t))"
  by (auto simp: framed_def calm_def slots_kept_def push_later_def push_delayed_def push_timer_def
      timers_ok_def pad_ids_def)

lemma framed_push_laterD:
  "push_later env k d t = (i, t') \<Longrightarrow> framed s t \<Longrightarrow> timer_kind k \<Longrightarrow> framed s t'"
  by (metis framed_push_later snd_conv)

section \<open>Handlers that keep the frame\<close>

lemma framed_refresh [simp]: "framed s t \<Longrightarrow> framed s (refresh_touch_port c t)"
  by (auto simp: refresh_touch_port_def Let_def split: prod.splits outcome.splits option.splits)

lemma framed_client_to_touchport:
  "client_to_touchport env c v sz t = (r, t') \<Longrightarrow> framed s t \<Longrightarrow> framed s t'"
  by (auto simp: client_to_touchport_def Let_def split: if_splits)

lemma framed_surface_event:
  "surface_event env c xy rot area t = (r, t') \<Longrightarrow> framed s t \<Longrightarrow> framed s t'"
  by (auto simp: surface_event_def Let_def split: prod.splits option.splits
      dest: framed_client_to_touchport)

lemma framed_send_modifiers [simp]: "framed s (send_modifiers r f m t) \<longleftrightarrow> framed s t"
  by (simp add: send_modifiers_def Let_def)

lemma framed_send_key [simp]: "framed s (send_key_and_modifiers env k r f m t) \<longleftrightarrow> framed s t"
  by (simp add: send_key_and_modifiers_def Let_def)

lemma framed_commit_key [simp]: "framed s (commit_key env c k r f m t) \<longleftrightarrow> framed s t"
  by (simp add: commit_key_def Let_def)

lemma framed_restart_repeat [simp]: "framed s t \<Longrightarrow> framed s (restart_repeat env k f m t)"
  by (auto simp: restart_repeat_def Let_def split: prod.splits intro: framed_push_laterD)

lemma framed_apply_shortcut [simp]: "framed s t \<Longrightarrow> framed s (snd (apply_shortcut k t))"
  by (simp add: apply_shortcut_def)

lemma framed_repeat_key: "framed s t \<Longrightarrow> framed s (repeat_key env k f m t)"
  by (auto simp: repeat_key_def Let_def split: prod.splits intro: framed_push_laterD)

lemma framed_set_mouse_press [simp]: "framed s (set_mouse_press b v t) \<longleftrightarrow> framed s t"
  by (simp add: set_mouse_press_def)

lemma framed_report [simp]: "framed s t \<Longrightarrow> framed s (report_controller env c n st t)"
  by (simp add: report_controller_def Let_def case_prod_unfold framed_push_later)

lemma framed_rel_mouse: "framed s (passthrough_rel_mouse env c p s)"
  by (simp add: passthrough_rel_mouse_def Let_def case_prod_unfold framed_push_later)

lemma framed_mouse_button: "framed s (passthrough_mouse_button env c rel b s)"
  by (simp add: passthrough_mouse_button_def Let_def case_prod_unfold framed_push_later)

lemma framed_scroll: "framed s (passthrough_scroll env c p s)"
  by (simp add: passthrough_scroll_def Let_def case_prod_unfold framed_push_later)

lemma framed_hscroll: "framed s (passthrough_hscroll env c p s)"
  by (simp add: passthrough_hscroll_def Let_def case_prod_unfold framed_push_later)

lemma framed_keyboard: "framed s (passthrough_keyboard env c p s)"
  by (simp add: passthrough_keyboard_def Let_def case_prod_unfold framed_push_later)

lemma framed_unicode: "framed s (passthrough_unicode env p s)"
  by (simp add: passthrough_unicode_def Let_def case_prod_unfold framed_push_later)

lemma framed_controller_touch: "framed s (passthrough_controller_touch env c p s)"
  by (simp add: passthrough_controller_touch_def with_gamepad_def Let_def)

lemma framed_controller_motion: "framed s (passthrough_controller_motion env c p s)"
  by (simp add: passthrough_controller_motion_def with_gamepad_def Let_def)

lemma framed_controller_battery: "framed s (passthrough_controller_battery env c p s)"
  by (simp add: passthrough_controller_battery_def with_gamepad_def Let_def)

lemma framed_abs_mouse: "framed s (passthrough_abs_mouse env c p s)"
  by (auto simp: passthrough_abs_mouse_def Let_def split: prod.splits option.splits
      dest: framed_client_to_touchport [where s = s])

lemma framed_touch: "framed s (passthrough_touch env c p s)"
  by (auto simp: passthrough_touch_def split: prod.splits option.splits
      dest: framed_surface_event [where s = s])

lemma framed_pen: "framed s (passthrough_pen env c p s)"
  by (auto simp: passthrough_pen_def split: prod.splits option.splits
      dest: framed_surface_event [where s = s])

lemma framed_release_left: "framed s (run_release_left c r s)"
  by (simp add: run_release_left_def)

lemma framed_back_timeout: "framed s (run_back_timeout c n s)"
  by (simp add: run_back_timeout_def Let_def)

lemmas framed_handlers = framed_rel_mouse framed_mouse_button framed_scroll
  framed_hscroll framed_keyboard framed_unicode framed_controller_touch framed_controller_motion
  framed_controller_battery framed_abs_mouse framed_touch framed_pen
  framed_release_left framed_back_timeout

section \<open>Wheels\<close>

text \<open>What the handlers sent to the platform's wheels in all.\<close>

fun wheel_sum :: "'f platf_call list \<Rightarrow> int" where
  "wheel_sum [] = 0"
| "wheel_sum (Scroll_by n # cs) = n + wheel_sum cs"
| "wheel_sum (_ # cs) = wheel_sum cs"

lemma wheel_sum_append [simp]: "wheel_sum (xs @ ys) = wheel_sum xs + wheel_sum ys"
  by (induction xs rule: wheel_sum.induct) simp_all

abbreviation vscroll_rest :: "'f input_state \<Rightarrow> nat \<Rightarrow> int" where
  "vscroll_rest s c \<equiv> ci_accumulated_vscroll_delta (is_clients s c)"

lemma scroll_step:
  fixes s :: "'f input_state" and c p
  assumes "en_mouse env" and "\<not> en_high_resolution_scrolling env"
  defines "s' \<equiv> passthrough_scroll env c p s"
  shows "wheel_sum (is_out s') + vscroll_rest s' c
      = wheel_sum (is_out s) + vscroll_rest s c + sint (sc_amt1 p)"
    and "\<bar>vscroll_rest s' c\<bar> < WHEEL_DELTA"
    and "\<exists>k. is_out s' = is_out s @ (if k = 0 then [] else [Scroll_by (k * WHEEL_DELTA)])"
proof -
  define acc where "acc = vscroll_rest s c + sint (sc_amt1 p)"
  have rest: "\<bar>acc - cxx_div acc WHEEL_DELTA * WHEEL_DELTA\<bar> < WHEEL_DELTA"
    by (rule cxx_div_decomp) (simp add: WHEEL_DELTA_def)
  have s': "s' = (if cxx_div acc WHEEL_DELTA \<noteq> 0
      then upd_client c (\<lambda>ci. ci\<lparr>ci_accumulated_vscroll_delta := acc - cxx_div acc WHEEL_DELTA * WHEEL_DELTA\<rparr>)
        (emit (Scroll_by (cxx_div acc WHEEL_DELTA * WHEEL_DELTA)) s)
      else upd_client c (\<lambda>ci. ci\<lparr>ci_accumulated_vscroll_delta := acc\<rparr>) s)"
    using assms by (simp add: passthrough_scroll_def acc_def Let_def)
  show "wheel_sum (is_out s') + vscroll_rest s' c
      = wheel_sum (is_out s) + vscroll_rest s c + sint (sc_amt1 p)"
    unfolding s' by (simp add: step_defs acc_def)
  show "\<bar>vscroll_rest s' c\<bar> < WHEEL_DELTA"
    unfolding s' using rest by (auto simp: step_defs)
  show "\<exists>k. is_out s' = is_out s @ (if k = 0 then [] else [Scroll_by (k * WHEEL_DELTA)])"
    unfolding s' by (rule exI [of _ "cxx_div acc WHEEL_DELTA"]) (simp add: step_defs)
qed

text \<open>
  Without high resolution scrolling no wheel motion is lost and none is invented: over any
  sequence of scroll packets the amounts sent to the platform and what is still accumulated add up
  to the amounts received, every call is a whole number of notches, and less than one notch is
  ever held back.
\<close>

theorem scroll_conserved:
  fixes s :: "'f input_state" and c ps
  assumes mouse: "en_mouse env" and low: "\<not> en_high_resolution_scrolling env"
    and start: "\<bar>vscroll_rest s c\<bar> < WHEEL_DELTA"
  defines "s' \<equiv> fold (passthrough_scroll env c) ps s"
  shows "(\<exists>new. is_out s' = is_out s @ new \<and>
      wheel_sum new + vscroll_rest s' c = vscroll_rest s c + (\<Sum>p\<leftarrow>ps. sint (sc_amt1 p)) \<and>
      (\<forall>a \<in> set new. \<exists>k. k \<noteq> 0 \<and> a = Scroll_by (k * WHEEL_DELTA))) \<and>
    \<bar>vscroll_rest s' c\<bar> < WHEEL_DELTA"
  unfolding s'_def using start
proof (induction ps arbitrary: s)
  case Nil
  then show ?case by simp
next
  case (Cons p ps)
  define t where "t = passthrough_scroll env c p s"
  note step = scroll_step [OF mouse low, of c p s, folded t_def]
  obtain k where k: "is_out t = is_out s @ (if k = 0 then [] else [Scroll_by (k * WHEEL_DELTA)])"
    using step(3) by blast
  obtain new where new: "is_out (fold (passthrough_scroll env c) ps t) = is_out t @ new"
      "wheel_sum new + vscroll_rest (fold (passthrough_scroll env c) ps t) c
        = vscroll_rest t c + (\<Sum>p\<leftarrow>ps. sint (sc_amt1 p))"
      "\<forall>a \<in> set new. \<exists>k. k \<noteq> 0 \<and> a = Scroll_by (k * WHEEL_DELTA)"
    and bound: "\<bar>vscroll_rest (fold (passthrough_scroll env c) ps t) c\<bar> < WHEEL_DELTA"
    using Cons.IH [OF step(2)] by blast
  let ?head = "if k = 0 then [] else [Scroll_by (k * WHEEL_DELTA)]"
  have "wheel_sum ?head + vscroll_rest t c = vscroll_rest s c + sint (sc_amt1 p)"
    using step(1) by (cases "k = 0") (simp_all add: k)
  then have "wheel_sum (?head @ new) + vscroll_rest (fold (passthrough_scroll env c) ps t) c
      = vscroll_rest s c + (\<Sum>p\<leftarrow>p # ps. sint (sc_amt1 p))"
    using new(2) by (cases "k = 0") simp_all
  moreover have "is_out (fold (passthrough_scroll env c) ps t) = is_out s @ ?head @ new"
    using new(1) k by simp
  moreover have "\<forall>a \<in> set (?head @ new). \<exists>k. k \<noteq> 0 \<and> a = Scroll_by (k * WHEEL_DELTA)"
    using new(3) by auto
  moreover have "fold (passthrough_scroll env c) (p # ps) s = fold (passthrough_scroll env c) ps t"
    by (simp add: t_def)
  ultimately show ?case using bound by (intro conjI exI [of _ "?head @ new"]) simp_all
qed

text \<open>A concrete environment and state, for the instances below.\<close>

definition sample_floats :: "int float_ops" where
  "sample_floats = \<lparr>fl_of_int = id, fl_of_bits = (\<lambda>_. 0), fl_to_int = id, fl_add = (+), fl_sub = (-),
     fl_mul = (*), fl_div = (div), fl_less = (<), fl_eq = (=), fl_angle = (\<lambda>_. 0),
     fl_add_half_pi = id, fl_cos = id, fl_sin = id, fl_hypot = (+)\<rparr>"

definition sample_env :: "int input_env" where
  "sample_env = \<lparr>en_mouse = True, en_keyboard = True, en_controller = True,
     en_high_resolution_scrolling = False,
     en_keybindings = [0x10 \<mapsto> 0xA0, 0x11 \<mapsto> 0xA2, 0x12 \<mapsto> 0xA4],
     en_key_repeat_delay = 500000000, en_key_repeat_period = 40000000,
     en_back_button_timeout = 2000000000, en_now = 1000,
     en_new_task = (\<lambda>live. 2 + fold max live 0), en_alloc_fails = (\<lambda>_ _. False),
     en_float = sample_floats\<rparr>"

theorem scroll_conserved_witness:
  "\<bar>vscroll_rest (fold (passthrough_scroll sample_env 0)
      [\<lparr>sc_amt1 = 100, sc_amt2 = 0\<rparr>, \<lparr>sc_amt1 = 100, sc_amt2 = 0\<rparr>] (initial_input sample_floats)) 0\<bar> < WHEEL_DELTA"
  by (rule scroll_conserved [THEN conjunct2])
    (simp_all add: sample_env_def initial_input_def new_client_input_def WHEEL_DELTA_def)

end
