(* ===== verification/Input_Slots.thy ===== *)
theory Input_Slots
  imports Input_Props
begin

text \<open>
  The sessions' controllers and the slots of the platform: which slot belongs to whom while
  messages arrive, tasks run, and clients come and go, and that no message is left in a queue.
\<close>

section \<open>Who holds a slot\<close>

text \<open>
  \<open>ids c\<close> are the slots in the controllers of client \<open>c\<close> (negative: none), \<open>fr\<close> the slots whose
  release is queued by a destructor. A slot is marked exactly when it is held or being released,
  and it has one owner.
\<close>

definition owner :: "(nat \<Rightarrow> int list) \<Rightarrow> nat \<Rightarrow> nat \<Rightarrow> nat \<Rightarrow> bool" where
  "owner ids i c n \<longleftrightarrow> n < length (ids c) \<and> ids c ! n = int i"

definition slots_inv :: "bool list \<Rightarrow> (nat \<Rightarrow> int list) \<Rightarrow> int list \<Rightarrow> bool" where
  "slots_inv m ids fr \<longleftrightarrow> length m = 16 \<and>
     (\<forall>i. ((\<exists>c n. owner ids i c n) \<or> int i \<in> set fr) \<longleftrightarrow> i < 16 \<and> m ! i) \<and>
     (\<forall>i c n c' n'. owner ids i c n \<longrightarrow> owner ids i c' n' \<longrightarrow> c = c' \<and> n = n') \<and>
     (\<forall>i c n. owner ids i c n \<longrightarrow> int i \<notin> set fr) \<and> distinct fr \<and> (\<forall>x \<in> set fr. 0 \<le> x)"

lemma alloc_id_from_range:
  "alloc_id_from x m = - 1 \<and> (\<forall>i < length m. m ! i) \<or>
    (\<exists>i < length m. alloc_id_from x m = int (x + i) \<and> \<not> m ! i \<and> (\<forall>j < i. m ! j))"
proof (induction m arbitrary: x)
  case Nil
  then show ?case by simp
next
  case (Cons b m)
  show ?case
  proof (cases b)
    case True
    show ?thesis
      using Cons.IH [of "Suc x"]
    proof (elim disjE exE conjE)
      assume "alloc_id_from (Suc x) m = - 1" and "\<forall>i < length m. m ! i"
      then show ?thesis using True by (auto simp: nth_Cons split: nat.split)
    next
      fix i
      assume "i < length m" and "alloc_id_from (Suc x) m = int (Suc x + i)" and "\<not> m ! i"
        and "\<forall>j < i. m ! j"
      then show ?thesis using True
        by (intro disjI2 exI [of _ "Suc i"]) (auto simp: nth_Cons split: nat.split)
    qed
  qed auto
qed

lemma alloc_id_cases:
  assumes "alloc_id m = (x, m')"
  obtains (full) "x = - 1" and "m' = m" and "\<forall>i < length m. m ! i"
  | (slot) i where "x = int i" and "i < length m" and "\<not> m ! i" and "m' = m[i := True]"
      and "\<forall>j < i. m ! j"
  using alloc_id_from_range [of 0 m] assms by (auto simp: alloc_id_def Let_def)

lemma free_alloc_id: "alloc_id m = (x, m') \<Longrightarrow> 0 \<le> x \<Longrightarrow> free_id m' x = m"
  by (erule alloc_id_cases) (auto simp: free_id_def list_update_same_conv)

lemma owner_upd:
  assumes "n < length (ids c)"
  shows "owner (ids(c := (ids c)[n := x])) i d k \<longleftrightarrow>
    (if d = c \<and> k = n then x = int i else owner ids i d k)"
  using assms by (auto simp: owner_def nth_list_update)

lemma ex2_if:
  "\<not> P c n \<Longrightarrow> (\<exists>d k. if d = c \<and> k = n then Q else P d k) \<longleftrightarrow> Q \<or> (\<exists>d k. P d k)"
  by auto

lemma slots_inv_claim:
  assumes inv: "slots_inv m ids fr" and alloc: "alloc_id m = (x, m')" and "0 \<le> x"
    and n: "n < length (ids c)" and none: "ids c ! n < 0"
  shows "slots_inv m' (ids(c := (ids c)[n := x])) fr"
  using alloc
proof (cases rule: alloc_id_cases)
  case full
  then show ?thesis using \<open>0 \<le> x\<close> by simp
next
  case (slot i)
  have unowned: "\<not> owner ids i d k" and notfr: "int i \<notin> set fr" for d k
    using inv slot by (auto simp: slots_inv_def)
  have nothere: "\<not> owner ids j c n" for j
    using none by (simp add: owner_def)
  have own: "owner (ids(c := (ids c)[n := x])) j d k \<longleftrightarrow>
      (if d = c \<and> k = n then j = i else owner ids j d k)" for j d k
    by (auto simp: owner_upd [of n ids c, OF n] slot(1))
  have mark: "j < 16 \<longrightarrow> (m' ! j \<longleftrightarrow> j = i \<or> m ! j)" for j
    using slot inv by (auto simp: slots_inv_def nth_list_update)
  have "((\<exists>d k. owner (ids(c := (ids c)[n := x])) j d k) \<or> int j \<in> set fr) \<longleftrightarrow> j < 16 \<and> m' ! j" for j
  proof -
    have "(\<exists>d k. owner (ids(c := (ids c)[n := x])) j d k) \<longleftrightarrow> j = i \<or> (\<exists>d k. owner ids j d k)"
      using nothere by (simp add: own ex2_if)
    moreover have "((\<exists>d k. owner ids j d k) \<or> int j \<in> set fr) \<longleftrightarrow> j < 16 \<and> m ! j"
      using inv by (simp add: slots_inv_def)
    moreover have "j = i \<longrightarrow> j < 16" using inv slot by (simp add: slots_inv_def)
    ultimately show ?thesis using mark [of j] by argo
  qed
  moreover have "length m' = 16" and "distinct fr" and "\<forall>x \<in> set fr. 0 \<le> x"
    using inv slot by (auto simp: slots_inv_def)
  moreover have "d = d' \<and> k = k'"
    if "owner (ids(c := (ids c)[n := x])) j d k" and "owner (ids(c := (ids c)[n := x])) j d' k'" for j d k d' k'
  proof -
    have "if d = c \<and> k = n then j = i else owner ids j d k"
      and "if d' = c \<and> k' = n then j = i else owner ids j d' k'"
      using that unfolding own by simp_all
    moreover have "owner ids j d k \<Longrightarrow> owner ids j d' k' \<Longrightarrow> d = d' \<and> k = k'"
      using inv unfolding slots_inv_def by blast
    ultimately show ?thesis using unowned by (auto split: if_splits)
  qed
  moreover have "int j \<notin> set fr" if "owner (ids(c := (ids c)[n := x])) j d k" for j d k
  proof -
    have "owner ids j d k \<Longrightarrow> int j \<notin> set fr" using inv unfolding slots_inv_def by blast
    with that notfr show ?thesis unfolding own by (auto split: if_splits)
  qed
  ultimately show ?thesis unfolding slots_inv_def by blast
qed

lemma slots_invD:
  assumes "slots_inv m ids fr"
  shows slots_inv_length: "length m = 16"
    and slots_inv_distinct: "distinct fr"
    and slots_inv_mask: "i < 16 \<Longrightarrow> m ! i \<longleftrightarrow> (\<exists>c n. owner ids i c n) \<or> int i \<in> set fr"
    and slots_inv_owned: "owner ids i c n \<Longrightarrow> i < 16"
    and slots_inv_freed: "int i \<in> set fr \<Longrightarrow> i < 16"
    and slots_inv_unique: "owner ids i c n \<Longrightarrow> owner ids i c' n' \<Longrightarrow> c = c' \<and> n = n'"
    and slots_inv_apart: "owner ids i c n \<Longrightarrow> int i \<notin> set fr"
    and slots_inv_nonneg: "x \<in> set fr \<Longrightarrow> 0 \<le> x"
  using assms unfolding slots_inv_def by blast+

lemma slots_inv_mark:
  assumes inv: "slots_inv m ids fr"
    and own: "\<And>i c n. owner ids' i c n \<Longrightarrow> owner ids i c n"
    and "distinct fr'" and sub: "set fr' \<subseteq> set fr" and "length m' = 16"
    and "\<And>i. i < 16 \<Longrightarrow> m' ! i \<longleftrightarrow> (\<exists>c n. owner ids' i c n) \<or> int i \<in> set fr'"
  shows "slots_inv m' ids' fr'"
proof -
  have "i < 16" if "(\<exists>c n. owner ids' i c n) \<or> int i \<in> set fr'" for i
    using that slots_inv_owned [OF inv] slots_inv_freed [OF inv] own sub by blast
  moreover have "int i \<notin> set fr'" if "owner ids' i c n" for i c n
    using slots_inv_apart [OF inv own [OF that]] sub by blast
  moreover have "0 \<le> x" if "x \<in> set fr'" for x
    using that slots_inv_nonneg [OF inv] sub by blast
  moreover have "c = c' \<and> n = n'" if "owner ids' i c n" and "owner ids' i c' n'" for i c n c' n'
    using slots_inv_unique [OF inv own own] that by blast
  ultimately show ?thesis using assms(3,5,6) unfolding slots_inv_def by blast
qed

lemma slots_inv_free_held:
  assumes inv: "slots_inv m ids fr" and n: "n < length (ids c)" and held: "0 \<le> ids c ! n"
  shows "slots_inv (free_id m (ids c ! n)) (ids(c := (ids c)[n := - 1])) fr"
proof -
  obtain i where i: "ids c ! n = int i" using held by (metis nat_0_le)
  then have own: "owner ids i c n" using n by (simp add: owner_def)
  have own': "owner (ids(c := (ids c)[n := - 1])) j d k \<longleftrightarrow> owner ids j d k \<and> j \<noteq> i" for j d k
  proof (cases "d = c \<and> k = n")
    case True
    then show ?thesis using i by (simp add: owner_upd [of n ids c, OF n]) (auto simp: owner_def)
  next
    case False
    then have "owner ids j d k \<Longrightarrow> j \<noteq> i" using slots_inv_unique [OF inv own, of d k] by blast
    with False show ?thesis by (auto simp: owner_upd [of n ids c, OF n])
  qed
  note len = slots_inv_length [OF inv]
  show ?thesis
  proof (rule slots_inv_mark [OF inv])
    fix j assume j: "j < (16 :: nat)"
    show "free_id m (ids c ! n) ! j \<longleftrightarrow>
        (\<exists>d k. owner (ids(c := (ids c)[n := - 1])) j d k) \<or> int j \<in> set fr"
    proof (cases "j = i")
      case True
      then show ?thesis using slots_inv_apart [OF inv own] j len unfolding own'
        by (simp add: free_id_def i)
    next
      case False
      then show ?thesis using slots_inv_mask [OF inv j] unfolding own' by (simp add: free_id_def i)
    qed
  qed (simp_all add: own' free_id_def len slots_inv_distinct [OF inv])
qed

lemma slots_inv_run_free:
  assumes inv: "slots_inv m ids (x # fr)"
  shows "slots_inv (free_id m x) ids fr"
proof -
  have "0 \<le> x" by (rule slots_inv_nonneg [OF inv]) simp
  then obtain i where i: "x = int i" by (metis nat_0_le)
  have unowned: "\<not> owner ids i c n" for c n using slots_inv_apart [OF inv] i by fastforce
  have notfr: "int i \<notin> set fr" using slots_inv_distinct [OF inv] i by simp
  note len = slots_inv_length [OF inv]
  show ?thesis
  proof (rule slots_inv_mark [OF inv])
    fix j assume j: "j < (16 :: nat)"
    show "free_id m x ! j \<longleftrightarrow> (\<exists>c n. owner ids j c n) \<or> int j \<in> set fr"
    proof (cases "j = i")
      case True
      then show ?thesis using unowned notfr j len by (simp add: free_id_def i)
    next
      case False
      then show ?thesis using slots_inv_mask [OF inv j] by (simp add: free_id_def i)
    qed
  qed (use slots_inv_distinct [OF inv] in \<open>auto simp: free_id_def len\<close>)
qed

lemma distinct_filter_nth:
  assumes "\<And>i j. i < length xs \<Longrightarrow> j < length xs \<Longrightarrow> P (xs ! i) \<Longrightarrow> xs ! i = xs ! j \<Longrightarrow> i = j"
  shows "distinct (filter P xs)"
  using assms
proof (induction xs)
  case (Cons x xs)
  have "distinct (filter P xs)"
    using Cons.prems [of "Suc i" "Suc j" for i j] by (intro Cons.IH) auto
  moreover have "x \<notin> set xs" if "P x"
    using that Cons.prems [of 0 "Suc j" for j] by (auto simp: in_set_conv_nth)
  ultimately show ?case by auto
qed simp

lemma slots_inv_destroy:
  assumes inv: "slots_inv m ids fr"
  shows "slots_inv m (ids(c := [])) (fr @ filter (\<lambda>x. 0 \<le> x) (ids c))"
proof -
  let ?mine = "filter (\<lambda>x. 0 \<le> x) (ids c)"
  have own: "owner (ids(c := [])) i d k \<longleftrightarrow> owner ids i d k \<and> d \<noteq> c" for i d k
    by (auto simp: owner_def)
  have mine: "int i \<in> set ?mine \<longleftrightarrow> (\<exists>k. owner ids i c k)" for i
    by (auto simp: owner_def in_set_conv_nth)
  have apart: "int i \<notin> set fr" if "int i \<in> set ?mine" for i
    using that slots_inv_apart [OF inv] unfolding mine by blast
  have "set fr \<inter> set ?mine = {}"
    using apart by (auto) (metis int_nat_eq)
  moreover have "distinct ?mine"
  proof (rule distinct_filter_nth)
    fix i j
    assume "i < length (ids c)" and "j < length (ids c)" and "0 \<le> ids c ! i" and "ids c ! i = ids c ! j"
    then have "owner ids (nat (ids c ! i)) c i" and "owner ids (nat (ids c ! i)) c j"
      by (simp_all add: owner_def)
    then show "i = j" using slots_inv_unique [OF inv] by blast
  qed
  ultimately have dist: "distinct (fr @ ?mine)" using slots_inv_distinct [OF inv] by simp
  have range: "i < 16" if "(\<exists>d k. owner (ids(c := [])) i d k) \<or> int i \<in> set (fr @ ?mine)" for i
    using that slots_inv_owned [OF inv] slots_inv_freed [OF inv] mine unfolding own set_append by blast
  have mark: "((\<exists>d k. owner (ids(c := [])) i d k) \<or> int i \<in> set (fr @ ?mine))
      \<longleftrightarrow> (\<exists>d k. owner ids i d k) \<or> int i \<in> set fr" for i
    using mine unfolding own set_append by blast
  have "((\<exists>d k. owner (ids(c := [])) i d k) \<or> int i \<in> set (fr @ ?mine)) \<longleftrightarrow> i < 16 \<and> m ! i" for i
    using mark slots_inv_mask [OF inv] range by metis
  moreover have "int i \<notin> set (fr @ ?mine)" if "owner (ids(c := [])) i d k" for i d k
    using that slots_inv_apart [OF inv] slots_inv_unique [OF inv] mine unfolding own by auto
  moreover have "\<forall>x \<in> set (fr @ ?mine). 0 \<le> x" using slots_inv_nonneg [OF inv] by auto
  moreover have "d = d' \<and> k = k'" if "owner (ids(c := [])) i d k" and "owner (ids(c := [])) i d' k'" for i d k d' k'
    using that slots_inv_unique [OF inv] unfolding own by blast
  ultimately show ?thesis using dist slots_inv_length [OF inv] unfolding slots_inv_def by blast
qed

lemma slots_inv_open:
  assumes inv: "slots_inv m ids fr" and none: "\<forall>x \<in> set (ids c). x < 0"
  shows "slots_inv m (ids(c := replicate k (- 1))) fr"
proof -
  have "int i \<in> set (ids c)" if "owner ids i c n" for i n
    using that unfolding owner_def by (metis nth_mem)
  then have "\<not> owner ids i c n" for i n
    using none by force
  then have own: "owner (ids(c := replicate k (- 1))) i d n \<longleftrightarrow> owner ids i d n" for i d n
    by (cases "d = c") (auto simp: owner_def)
  show ?thesis
    by (rule slots_inv_mark [OF inv])
      (simp_all add: own slots_inv_length [OF inv] slots_inv_distinct [OF inv] slots_inv_mask [OF inv])
qed

section \<open>The steps of the system\<close>

definition freeing :: "input_task task list \<Rightarrow> int list" where
  "freeing ts = concat (map (\<lambda>t. case t of Some (_, T_free_gamepad i) \<Rightarrow> [i] | _ \<Rightarrow> []) ts)"

text \<open>The number of queued \<^verbatim>\<open>passthrough_next_message\<close> tasks of a client.\<close>

definition wakeups :: "nat \<Rightarrow> input_task task list \<Rightarrow> nat" where
  "wakeups c ts = length (filter (\<lambda>t. \<exists>i. t = Some (i, T_passthrough_next c)) ts)"

lemma freeing_simps [simp]:
  "freeing [] = []" "freeing (None # ts) = freeing ts"
  "freeing (Some (i, T_free_gamepad x) # ts) = x # freeing ts"
  "freeing (xs @ ys) = freeing xs @ freeing ys"
  by (simp_all add: freeing_def)

lemma freeing_other [simp]:
  "\<forall>x. t \<noteq> T_free_gamepad x \<Longrightarrow> freeing (Some (i, t) # ts) = freeing ts"
  by (cases t) (simp_all add: freeing_def)

lemma wakeups_simps [simp]:
  "wakeups c [] = 0" "wakeups c (xs @ ys) = wakeups c xs + wakeups c ys"
  "wakeups c (Some (i, T_passthrough_next d) # ts) = (if d = c then 1 else 0) + wakeups c ts"
  by (auto simp: wakeups_def)

lemma wakeups_other [simp]:
  "\<forall>d. t \<noteq> T_passthrough_next d \<Longrightarrow> wakeups c (Some (i, t) # ts) = wakeups c ts"
  by (simp add: wakeups_def)

text \<open>The client a closure holds on to.\<close>

fun task_client :: "input_task \<Rightarrow> nat option" where
  "task_client (T_passthrough_next c) = Some c"
| "task_client (T_release_left c _) = Some c"
| "task_client (T_back_timeout c _) = Some c"
| "task_client _ = None"

definition client_idle :: "nat \<Rightarrow> 'f input_state \<Rightarrow> bool" where
  "client_idle c s \<longleftrightarrow>
     (\<forall>t \<in> set (p_tasks (is_pool s)) \<union> snd ` set (p_timer_tasks (is_pool s)).
        \<forall>i k. t = Some (i, k) \<longrightarrow> task_client k \<noteq> Some c)"

text \<open>
  What can happen, in any order, at any time and under any configuration: the control stream hands
  over a message, a worker takes a turn, a session is reset, gets a touch port, begins (with a
  client number not in use) or ends (once no task holds on to its \<^verbatim>\<open>input_t\<close>).
\<close>

inductive input_step :: "'f input_state \<Rightarrow> 'f input_state \<Rightarrow> bool" where
  message: "input_step s (passthrough env c p s)"
| turn: "input_step s (input_turn env s)"
| reset: "input_step s (input_reset env c s)"
| port: "input_step s (upd_client c (\<lambda>ci. ci\<lparr>ci_touch_port_event := event_raise tp (ci_touch_port_event ci)\<rparr>) s)"
| begins: "client_idle c s \<Longrightarrow> \<forall>g \<in> set (ci_gamepads (is_clients s c)). gp_id g < 0 \<Longrightarrow>
    input_step s (input_alloc env c s)"
| ends: "client_idle c s \<Longrightarrow> input_step s (input_destroy env c s)"

inductive input_reachable :: "'f input_state \<Rightarrow> bool" where
  start: "input_reachable (initial_input F)"
| step: "input_reachable s \<Longrightarrow> input_step s s' \<Longrightarrow> input_reachable s'"

definition input_inv :: "'f input_state \<Rightarrow> bool" where
  "input_inv s \<longleftrightarrow> slots_inv (is_gamepadMask s) (pad_ids s) (freeing (p_tasks (is_pool s))) \<and>
     (\<forall>c. length (ci_input_queue (is_clients s c)) \<le> wakeups c (p_tasks (is_pool s))) \<and>
     None \<notin> set (p_tasks (is_pool s)) \<and> timers_ok s"

section \<open>Every step keeps the invariant\<close>

text \<open>A step that is calm: the queues, the tasks and the kind of timers are as before.\<close>

lemma input_inv_calm:
  assumes "input_inv s" and "calm s s'"
    and "slots_inv (is_gamepadMask s') (pad_ids s') (freeing (p_tasks (is_pool s)))"
  shows "input_inv s'"
  using assms by (simp add: input_inv_def calm_def)

lemma input_inv_framed:
  assumes inv: "input_inv s" and fr: "framed s s'"
  shows "input_inv s'"
proof (rule input_inv_calm [OF inv])
  have "pad_ids s' = pad_ids s" using fr by (auto simp: framed_def slots_kept_def)
  then show "slots_inv (is_gamepadMask s') (pad_ids s') (freeing (p_tasks (is_pool s)))"
    using inv fr by (simp add: input_inv_def framed_def slots_kept_def)
qed (use fr in \<open>simp add: framed_def\<close>)

lemma claim_slot_frame:
  assumes "claim_slot env n a s = (r, t)"
  shows "calm s t" and "pad_ids t = pad_ids s"
    and "case r of None \<Rightarrow> is_gamepadMask t = is_gamepadMask s
         | Some i \<Rightarrow> 0 \<le> i \<and> alloc_id (is_gamepadMask s) = (i, is_gamepadMask t)"
proof -
  obtain i m where alloc: "alloc_id (is_gamepadMask s) = (i, m)" by fastforce
  note claim = assms [unfolded claim_slot_def alloc, simplified Let_def split_conv]
  have "is_clients t = is_clients s \<and> is_pool t = is_pool s"
    using claim by (auto simp: emit_def split: if_splits)
  then show "calm s t" and "pad_ids t = pad_ids s"
    by (auto simp: calm_def timers_ok_def pad_ids_def fun_eq_iff)
  have "m = is_gamepadMask s" if "i < 0"
    using alloc that by (cases rule: alloc_id_cases) auto
  then show "case r of None \<Rightarrow> is_gamepadMask t = is_gamepadMask s
         | Some i \<Rightarrow> 0 \<le> i \<and> alloc_id (is_gamepadMask s) = (i, is_gamepadMask t)"
    using claim alloc free_alloc_id [OF alloc] by (auto simp: emit_def split: if_splits)
qed

lemma calm_set_id: "calm s t \<Longrightarrow> calm s (upd_gamepad c n (\<lambda>g. g\<lparr>gp_id := i\<rparr>) t)"
  by (auto simp: calm_def timers_ok_def upd_gamepad_def upd_client_def)

lemma pad_ids_set_id [simp]:
  "pad_ids (upd_gamepad c n (\<lambda>g. g\<lparr>gp_id := i\<rparr>) s) = (pad_ids s)(c := (pad_ids s c)[n := i])"
  by (auto simp: pad_ids_def upd_gamepad_def upd_client_def map_update)

lemma mask_set_id [simp]:
  "is_gamepadMask (upd_gamepad c n f s) = is_gamepadMask s"
  by (simp add: upd_gamepad_def upd_client_def)

lemma gamepad_pad_id:
  "n < n_gamepads s c \<Longrightarrow> pad_ids s c ! n = gp_id (gamepad_of s c n)"
  "length (pad_ids s c) = n_gamepads s c"
  by (simp_all add: pad_ids_def gamepad_of_def n_gamepads_def)

lemma input_inv_claim:
  assumes inv: "input_inv s" and claim: "claim_slot env k a s = (Some i, t)"
    and n: "n < n_gamepads s c" and none: "gp_id (gamepad_of s c n) < 0"
  shows "input_inv (upd_gamepad c n (\<lambda>g. g\<lparr>gp_id := i\<rparr>) t)"
proof (rule input_inv_calm [OF inv])
  note frame = claim_slot_frame [OF claim]
  show "calm s (upd_gamepad c n (\<lambda>g. g\<lparr>gp_id := i\<rparr>) t)" by (rule calm_set_id [OF frame(1)])
  have "slots_inv (is_gamepadMask s) (pad_ids s) (freeing (p_tasks (is_pool s)))"
    using inv by (simp add: input_inv_def)
  from slots_inv_claim [OF this, of i "is_gamepadMask t" n c] frame n none
  show "slots_inv (is_gamepadMask (upd_gamepad c n (\<lambda>g. g\<lparr>gp_id := i\<rparr>) t))
      (pad_ids (upd_gamepad c n (\<lambda>g. g\<lparr>gp_id := i\<rparr>) t)) (freeing (p_tasks (is_pool s)))"
    by (simp add: gamepad_pad_id)
qed

lemma input_inv_claim_fails:
  assumes inv: "input_inv s" and claim: "claim_slot env k a s = (None, t)"
  shows "input_inv t"
  using claim_slot_frame [OF claim] inv
  by (intro input_inv_calm [OF inv]) (simp_all add: input_inv_def)

lemma input_inv_remove:
  assumes inv: "input_inv s" and n: "n < n_gamepads s c" and held: "0 \<le> gp_id (gamepad_of s c n)"
  shows "input_inv (upd_gamepad c n (\<lambda>g. g\<lparr>gp_id := - 1\<rparr>) (free_gamepad (gp_id (gamepad_of s c n)) s))"
proof (rule input_inv_calm [OF inv])
  let ?t = "free_gamepad (gp_id (gamepad_of s c n)) s"
  have "calm s ?t" and t: "pad_ids ?t = pad_ids s"
      "is_gamepadMask ?t = free_id (is_gamepadMask s) (gp_id (gamepad_of s c n))"
    by (auto simp: free_gamepad_def calm_def timers_ok_def emit_def pad_ids_def Let_def fun_eq_iff)
  then show "calm s (upd_gamepad c n (\<lambda>g. g\<lparr>gp_id := - 1\<rparr>) ?t)" by (intro calm_set_id)
  have "slots_inv (is_gamepadMask s) (pad_ids s) (freeing (p_tasks (is_pool s)))"
    using inv by (simp add: input_inv_def)
  from slots_inv_free_held [OF this, of n c] n held t
  show "slots_inv (is_gamepadMask (upd_gamepad c n (\<lambda>g. g\<lparr>gp_id := - 1\<rparr>) ?t))
      (pad_ids (upd_gamepad c n (\<lambda>g. g\<lparr>gp_id := - 1\<rparr>) ?t)) (freeing (p_tasks (is_pool s)))"
    by (simp add: gamepad_pad_id)
qed

lemma input_inv_arrival: "input_inv s \<Longrightarrow> input_inv (passthrough_controller_arrival env c p s)"
  by (auto simp: passthrough_controller_arrival_def Let_def split: prod.splits option.splits
      intro: input_inv_claim input_inv_claim_fails)

lemma input_inv_report: "input_inv s \<Longrightarrow> input_inv (report_controller env c n st s)"
  by (erule input_inv_framed) (simp add: framed_report)

lemma input_inv_multi: "input_inv s \<Longrightarrow> input_inv (passthrough_multi_controller env c p s)"
proof -
  assume inv: "input_inv s"
  let ?n = "unat (mc_controllerNumber p)"
  have n: "?n < n_gamepads s c" if "0 \<le> sint (mc_controllerNumber p)" and
      "sint (mc_controllerNumber p) < int (n_gamepads s c)"
  proof -
    have "int ?n < int (n_gamepads s c)"
      using that(2) unfolding sint_u16_nonneg [OF that(1)] .
    then show ?thesis by (simp only: of_nat_less_iff)
  qed
  show ?thesis
    using inv n
    by (auto simp: passthrough_multi_controller_def Let_def not_less not_le
        split: prod.splits option.splits
        intro: input_inv_claim input_inv_claim_fails input_inv_report input_inv_remove)
qed

lemma pad_ids_fields [simp]:
  "pad_ids (s\<lparr>is_pool := p\<rparr>) = pad_ids s"
  "pad_ids (s\<lparr>is_out := out\<rparr>) = pad_ids s"
  "pad_ids (s\<lparr>is_gamepadMask := m\<rparr>) = pad_ids s"
  by (rule ext, simp add: pad_ids_def)+

lemma input_inv_dispatch: "input_inv s \<Longrightarrow> input_inv (dispatch env c p s)"
  by (cases p) (simp_all add: dispatch_def framed_handlers [THEN input_inv_framed [rotated]]
    input_inv_arrival input_inv_multi)

lemma take_next_message_shorter:
  assumes "take_next_message q = Some (p, rest)"
  shows "length rest < length q"
proof (cases q)
  case (Cons e es)
  then show ?thesis using assms batch_queue_length [of batch e es]
    by (simp add: take_next_message_def)
qed (use assms in \<open>simp add: take_next_message_def\<close>)

lemma framed_run_reset: "framed s (run_reset s)"
proof -
  have buttons: "framed s t \<Longrightarrow> framed s (fold release_button xs t)" for xs and t :: "'a input_state"
    by (induction xs arbitrary: t) (simp_all add: release_button_def)
  have keys: "framed s t \<Longrightarrow> framed s (fold release_key ks t)" for ks and t :: "'a input_state"
    by (induction ks arbitrary: t) (simp_all add: release_key_def)
  show ?thesis by (simp add: run_reset_def Let_def buttons keys)
qed

text \<open>A task that was just taken from the front of the pool, or a due timer.\<close>

lemma input_inv_run_task:
  assumes inv: "input_inv s" and ts: "p_tasks (is_pool s) = Some (i, t) # ts"
  shows "input_inv (run_task env t (s\<lparr>is_pool := (is_pool s)\<lparr>p_tasks := ts\<rparr>\<rparr>))"
proof -
  let ?s = "s\<lparr>is_pool := (is_pool s)\<lparr>p_tasks := ts\<rparr>\<rparr>"
  have kept: "timers_ok ?s" "None \<notin> set ts" and pads: "pad_ids ?s = pad_ids s"
    using inv ts by (auto simp: input_inv_def timers_ok_def pad_ids_def fun_eq_iff)
  have slots: "slots_inv (is_gamepadMask s) (pad_ids s) (freeing (Some (i, t) # ts))"
    and queues: "length (ci_input_queue (is_clients s c)) \<le> wakeups c (Some (i, t) # ts)" for c
    using inv unfolding input_inv_def ts by blast+
  have plain: "input_inv ?s" if "\<forall>x. t \<noteq> T_free_gamepad x" and "\<forall>c. t \<noteq> T_passthrough_next c"
    using slots queues kept pads that by (simp add: input_inv_def)
  show ?thesis
  proof (cases t)
    case (T_passthrough_next c)
    have others: "length (ci_input_queue (is_clients s d)) \<le> (if d = c then 1 else 0) + wakeups d ts" for d
      using queues [of d] T_passthrough_next by auto
    show ?thesis
    proof (cases "take_next_message (ci_input_queue (is_clients s c))")
      case None
      then have "ci_input_queue (is_clients s c) = []"
        by (auto simp: take_next_message_def split: list.splits)
      then have "length (ci_input_queue (is_clients s d)) \<le> wakeups d ts" for d
        using others [of d] by (cases "d = c") simp_all
      then have "input_inv ?s" using slots kept pads T_passthrough_next by (simp add: input_inv_def)
      then show ?thesis using None T_passthrough_next
        by (simp add: run_task_def passthrough_next_message_def)
    next
      case (Some pr)
      obtain p rest where pr: "pr = (p, rest)" by fastforce
      let ?t = "upd_client c (\<lambda>ci. ci\<lparr>ci_input_queue := rest\<rparr>) ?s"
      have "length rest < length (ci_input_queue (is_clients s c))"
        using take_next_message_shorter Some pr by blast
      then have "length (ci_input_queue (is_clients ?t d)) \<le> wakeups d ts" for d
        using others [of d] by (cases "d = c") (simp_all add: upd_client_def)
      moreover have "pad_ids ?t = pad_ids s" by (auto simp: pad_ids_def upd_client_def fun_eq_iff)
      moreover have "is_gamepadMask ?t = is_gamepadMask s" and "is_pool ?t = is_pool ?s"
        by (simp_all add: upd_client_def)
      ultimately have "input_inv ?t" using slots kept T_passthrough_next
        by (simp add: input_inv_def timers_ok_def)
      then show ?thesis using Some pr T_passthrough_next
        by (simp add: run_task_def passthrough_next_message_def input_inv_dispatch)
    qed
  next
    case (T_free_gamepad x)
    have "slots_inv (free_id (is_gamepadMask s) x) (pad_ids s) (freeing ts)"
      by (rule slots_inv_run_free) (use slots T_free_gamepad in simp)
    moreover have "length (ci_input_queue (is_clients s c)) \<le> wakeups c ts" for c
      using queues [of c] T_free_gamepad by simp
    ultimately show ?thesis using kept pads T_free_gamepad
      by (simp add: run_task_def free_gamepad_def Let_def emit_def input_inv_def timers_ok_def)
  next
    case T_nudge
    then show ?thesis using plain by (simp add: run_task_def input_inv_framed [of ?s])
  next
    case T_reset
    then show ?thesis using plain input_inv_framed [OF _ framed_run_reset] by (simp add: run_task_def)
  next
    case (T_repeat_key a b c)
    then show ?thesis using plain input_inv_framed [OF _ framed_repeat_key [OF framed_refl]]
      by (simp add: run_task_def)
  next
    case (T_release_left c r)
    then show ?thesis using plain input_inv_framed [OF _ framed_release_left] by (simp add: run_task_def)
  next
    case (T_back_timeout c n)
    then show ?thesis using plain input_inv_framed [OF _ framed_back_timeout] by (simp add: run_task_def)
  qed
qed

lemma input_inv_turn: "input_inv s \<Longrightarrow> input_inv (input_turn env s)"
proof (cases "p_tasks (is_pool s)")
  case (Cons t ts)
  assume inv: "input_inv s"
  obtain i k where t: "t = Some (i, k)" using inv Cons by (cases t) (auto simp: input_inv_def)
  show ?thesis using input_inv_run_task [OF inv Cons [unfolded t], of env]
    by (simp add: input_turn_def pool_pop_def Cons t)
next
  case Nil
  assume inv: "input_inv s"
  let ?ts = "p_timer_tasks (is_pool s)"
  let ?s = "s\<lparr>is_pool := (is_pool s)\<lparr>p_timer_tasks := butlast ?ts\<rparr>\<rparr>"
  show ?thesis
  proof (cases "timer_due (en_now env) (is_pool s)")
    case False
    then show ?thesis using inv Nil by (simp add: input_turn_def pool_pop_def)
  next
    case True
    have rest: "input_inv ?s"
      using inv by (auto simp: input_inv_def timers_ok_def dest: in_set_butlastD)
    have "?ts \<noteq> []" using True by (auto simp: timer_due_def)
    then obtain i k where last: "snd (last ?ts) = Some (i, k)" and kind: "timer_kind k"
      using inv unfolding input_inv_def timers_ok_def by (metis last_in_set)
    have "input_inv (run_task env k ?s)"
      using kind rest input_inv_framed [OF rest framed_repeat_key [OF framed_refl]]
        input_inv_framed [OF rest framed_release_left] input_inv_framed [OF rest framed_back_timeout]
      by (cases k) (simp_all add: run_task_def input_inv_framed [OF rest])
    then show ?thesis using True Nil by (simp add: input_turn_def pool_pop_def last)
  qed
qed

lemma input_inv_push_now:
  assumes "input_inv s" and "\<forall>x. t \<noteq> T_free_gamepad x"
  shows "input_inv (push_now env t s)"
  using assms by (cases t)
    (auto simp: input_inv_def push_now_def pool_push_def timers_ok_def intro: le_trans)

lemma input_inv_message: "input_inv s \<Longrightarrow> input_inv (passthrough env c p s)"
proof -
  assume inv: "input_inv s"
  let ?q = "upd_client c (\<lambda>ci. ci\<lparr>ci_input_queue := ci_input_queue ci @ [p]\<rparr>) s"
  have "pad_ids ?q = pad_ids s" by (rule ext) (simp add: pad_ids_def upd_client_def)
  moreover have "ci_input_queue (is_clients ?q d) =
      ci_input_queue (is_clients s d) @ (if d = c then [p] else [])" for d
    by (simp add: upd_client_def)
  moreover have "is_gamepadMask ?q = is_gamepadMask s" and "is_pool ?q = is_pool s"
    by (simp_all add: upd_client_def)
  ultimately show ?thesis
    using inv by (auto simp: passthrough_def push_now_def pool_push_def input_inv_def timers_ok_def)
qed

lemma input_inv_reset: "input_inv s \<Longrightarrow> input_inv (input_reset env c s)"
  unfolding input_reset_def
  by (rule input_inv_push_now) (auto intro: input_inv_framed)

lemma input_inv_port:
  "input_inv s \<Longrightarrow> input_inv (upd_client c (\<lambda>ci. ci\<lparr>ci_touch_port_event := f (ci_touch_port_event ci)\<rparr>) s)"
  by (erule input_inv_framed, rule framed_upd_client [THEN iffD2]) simp_all

lemma input_inv_begins:
  assumes inv: "input_inv s" and none: "\<forall>g \<in> set (ci_gamepads (is_clients s c)). gp_id g < 0"
  shows "input_inv (input_alloc env c s)"
  unfolding input_alloc_def
proof (rule input_inv_framed)
  let ?t = "upd_client c (\<lambda>_. new_client_input (en_float env)) s"
  show "framed ?t (snd (push_later env T_nudge (milliseconds 100) ?t))"
    by (rule framed_push_later) simp_all
  have "pad_ids ?t = (pad_ids s)(c := replicate 16 (- 1))"
    by (rule ext) (simp add: pad_ids_def upd_client_def new_client_input_def new_gamepad_def MAX_GAMEPADS_def)
  moreover have "slots_inv (is_gamepadMask s) ((pad_ids s)(c := replicate 16 (- 1))) (freeing (p_tasks (is_pool s)))"
    by (rule slots_inv_open) (use inv none in \<open>auto simp: input_inv_def pad_ids_def\<close>)
  ultimately show "input_inv ?t"
    using inv by (simp add: input_inv_def timers_ok_def) (simp add: upd_client_def new_client_input_def)
qed

lemma push_free_step:
  "is_gamepadMask (push_now env k s) = is_gamepadMask s"
  "is_clients (push_now env k s) = is_clients s"
  "p_timer_tasks (is_pool (push_now env k s)) = p_timer_tasks (is_pool s)"
  "freeing (p_tasks (is_pool (push_now env (T_free_gamepad i) s))) = freeing (p_tasks (is_pool s)) @ [i]"
  "wakeups c (p_tasks (is_pool (push_now env (T_free_gamepad i) s))) = wakeups c (p_tasks (is_pool s))"
  "None \<notin> set (p_tasks (is_pool s)) \<Longrightarrow> None \<notin> set (p_tasks (is_pool (push_now env k s)))"
  by (simp_all add: push_now_def pool_push_def)

lemma push_frees:
  fixes s :: "'f input_state" and gs env
  defines "t \<equiv> fold (\<lambda>g s. if 0 \<le> gp_id g then push_now env (T_free_gamepad (gp_id g)) s else s) gs s"
  shows "is_gamepadMask t = is_gamepadMask s" and "is_clients t = is_clients s"
    and "p_timer_tasks (is_pool t) = p_timer_tasks (is_pool s)"
    and "freeing (p_tasks (is_pool t)) = freeing (p_tasks (is_pool s)) @ filter (\<lambda>x. 0 \<le> x) (map gp_id gs)"
    and "wakeups c (p_tasks (is_pool t)) = wakeups c (p_tasks (is_pool s))"
    and "None \<notin> set (p_tasks (is_pool s)) \<Longrightarrow> None \<notin> set (p_tasks (is_pool t))"
  unfolding t_def by (induction gs arbitrary: s) (simp_all add: push_free_step)

lemma input_inv_ends:
  assumes inv: "input_inv s"
  shows "input_inv (input_destroy env c s)"
proof -
  let ?t = "upd_client c (\<lambda>ci. ci\<lparr>ci_gamepads := []\<rparr>) s"
  let ?gs = "ci_gamepads (is_clients s c)"
  note pushed = push_frees [where env = env and gs = ?gs and s = ?t, folded input_destroy_def]
  have "pad_ids (input_destroy env c s) = (pad_ids s)(c := [])"
    using pushed by (intro ext) (simp add: pad_ids_def upd_client_def)
  moreover have "slots_inv (is_gamepadMask s) ((pad_ids s)(c := []))
      (freeing (p_tasks (is_pool s)) @ filter (\<lambda>x. 0 \<le> x) (pad_ids s c))"
    using inv by (intro slots_inv_destroy) (simp add: input_inv_def)
  moreover have "pad_ids s c = map gp_id ?gs" by (simp add: pad_ids_def)
  moreover have "ci_input_queue (is_clients ?t d) = ci_input_queue (is_clients s d)" for d
    by (simp add: upd_client_def)
  moreover have "is_gamepadMask ?t = is_gamepadMask s" "is_pool ?t = is_pool s"
    by (simp_all add: upd_client_def)
  ultimately show ?thesis using inv pushed by (simp add: input_inv_def timers_ok_def)
qed

lemma input_inv_start: "input_inv (initial_input F)"
  by (auto simp: input_inv_def initial_input_def slots_inv_def owner_def pad_ids_def new_client_input_def
      new_gamepad_def MAX_GAMEPADS_def empty_pool_def timers_ok_def)

lemma input_reachable_inv: "input_reachable s \<Longrightarrow> input_inv s"
proof (induction rule: input_reachable.induct)
  case (step s s')
  from step.hyps(2) step.IH show ?case
    by (cases rule: input_step.cases)
      (simp_all add: input_inv_message input_inv_turn input_inv_reset input_inv_port input_inv_begins
        input_inv_ends)
qed (rule input_inv_start)

section \<open>Properties\<close>

lemma owner_gamepad:
  "owner (pad_ids s) i c n \<longleftrightarrow> n < n_gamepads s c \<and> gp_id (gamepad_of s c n) = int i"
  by (auto simp: owner_def gamepad_pad_id)

lemma in_freeing: "i \<in> set (freeing ts) \<longleftrightarrow> (\<exists>k. Some (k, T_free_gamepad i) \<in> set ts)"
  unfolding freeing_def by (force split: option.splits prod.splits input_task.splits)

text \<open>
  C3. The slots of the platform's controllers are never shared and never lost: at any time, two
  different controllers (of one client or of two) hold different slots; a slot is marked as taken
  exactly when a controller holds it or the release queued by the end of its session is still to
  run; and every held slot is one of the 16.
\<close>

theorem controller_slots_exclusive:
  assumes "input_reachable s"
  shows "length (is_gamepadMask s) = 16 \<and>
    (\<forall>c n c' n'. n < n_gamepads s c \<longrightarrow> n' < n_gamepads s c' \<longrightarrow> 0 \<le> gp_id (gamepad_of s c n) \<longrightarrow>
      gp_id (gamepad_of s c' n') = gp_id (gamepad_of s c n) \<longrightarrow> c' = c \<and> n' = n) \<and>
    (\<forall>c n. n < n_gamepads s c \<longrightarrow> gp_id (gamepad_of s c n) < 16) \<and>
    (\<forall>i < 16. is_gamepadMask s ! i \<longleftrightarrow>
      (\<exists>c n. n < n_gamepads s c \<and> gp_id (gamepad_of s c n) = int i) \<or>
      (\<exists>k. Some (k, T_free_gamepad (int i)) \<in> set (p_tasks (is_pool s))))"
proof -
  have inv: "slots_inv (is_gamepadMask s) (pad_ids s) (freeing (p_tasks (is_pool s)))"
    using input_reachable_inv [OF assms] by (simp add: input_inv_def)
  have own: "owner (pad_ids s) (nat (gp_id (gamepad_of s c n))) c n"
    if "n < n_gamepads s c" and "0 \<le> gp_id (gamepad_of s c n)" for c n
    using that by (simp add: owner_gamepad)
  have "c' = c \<and> n' = n" if "n < n_gamepads s c" and "n' < n_gamepads s c'"
      and "0 \<le> gp_id (gamepad_of s c n)" and "gp_id (gamepad_of s c' n') = gp_id (gamepad_of s c n)"
    for c n c' n'
  proof -
    have "owner (pad_ids s) (nat (gp_id (gamepad_of s c n))) c' n'"
      using that by (simp add: owner_gamepad)
    then show ?thesis using slots_inv_unique [OF inv own [OF that(1,3)]] by blast
  qed
  moreover have "gp_id (gamepad_of s c n) < 16" if "n < n_gamepads s c" for c n
  proof (cases "0 \<le> gp_id (gamepad_of s c n)")
    case True
    then show ?thesis using slots_inv_owned [OF inv own [OF that True]] by simp
  qed simp
  moreover have "is_gamepadMask s ! i \<longleftrightarrow>
      (\<exists>c n. n < n_gamepads s c \<and> gp_id (gamepad_of s c n) = int i) \<or>
      (\<exists>k. Some (k, T_free_gamepad (int i)) \<in> set (p_tasks (is_pool s)))" if "i < 16" for i
    using slots_inv_mask [OF inv that] unfolding owner_gamepad in_freeing .
  ultimately show ?thesis using slots_inv_length [OF inv]
    by (intro conjI allI impI) (assumption | blast)+
qed

definition sample_arrival :: packet where
  "sample_arrival = Controller_arrival \<lparr>ca_controllerNumber = 3, ca_type = 1, ca_capabilities = 0,
     ca_supportedButtonFlags = 0\<rparr>"

definition sample_session :: "int input_state" where
  "sample_session = input_turn sample_env (passthrough sample_env 0 sample_arrival (initial_input sample_floats))"

lemma sample_session_reachable: "input_reachable sample_session"
  unfolding sample_session_def
  by (rule input_reachable.step [OF input_reachable.step [OF input_reachable.start input_step.message]
    input_step.turn])

theorem controller_slots_exclusive_witness:
  "gp_id (gamepad_of sample_session 0 3) = 0 \<and> is_gamepadMask sample_session ! 0 \<and>
    gp_id (gamepad_of sample_session 0 2) \<noteq> 0"
proof -
  have taken: "gp_id (gamepad_of sample_session 0 3) = 0" and n: "n_gamepads sample_session 0 = 16"
    by code_simp+
  note slots = controller_slots_exclusive [OF sample_session_reachable]
  have "\<exists>c n. n < n_gamepads sample_session c \<and> gp_id (gamepad_of sample_session c n) = int 0"
    by (rule exI [of _ 0], rule exI [of _ 3]) (simp add: taken n)
  then have "is_gamepadMask sample_session ! 0"
    using slots [THEN conjunct2, THEN conjunct2, THEN conjunct2, rule_format, of 0] by simp
  moreover have "gp_id (gamepad_of sample_session 0 2) \<noteq> 0"
    using slots [THEN conjunct2, THEN conjunct1, rule_format, of 3 0 2 0] taken n by auto
  ultimately show ?thesis using taken by simp
qed

text \<open>
  C4. No message is left behind: a client's queue never holds more messages than there are
  \<^verbatim>\<open>passthrough_next_message\<close> tasks for that client in the pool, although one task may consume
  several messages by batching; so when the pool has no task to run, every queue is empty.
\<close>

theorem no_message_stranded:
  assumes "input_reachable s"
  shows "length (ci_input_queue (is_clients s c))
      \<le> length (filter (\<lambda>t. \<exists>i. t = Some (i, T_passthrough_next c)) (p_tasks (is_pool s))) \<and>
    (p_tasks (is_pool s) = [] \<longrightarrow> ci_input_queue (is_clients s c) = [])"
proof -
  have "length (ci_input_queue (is_clients s c)) \<le> wakeups c (p_tasks (is_pool s))"
    using input_reachable_inv [OF assms] by (simp add: input_inv_def)
  then show ?thesis unfolding wakeups_def by auto
qed

theorem no_message_stranded_witness: "ci_input_queue (is_clients sample_session 0) = []"
proof -
  have "p_tasks (is_pool sample_session) = []"
    by code_simp
  then show ?thesis using no_message_stranded [OF sample_session_reachable, of 0] by blast
qed

end
