(* ===== verification/Input_Release.thy ===== *)
theory Input_Release
  imports Input_Props
begin

text \<open>
  Pressing and releasing: the filter of the keyboard handler, what a reset releases, and three
  sequences after which a button, a key or a controller report is not what the client asked for.
\<close>

unbundle bit_operations_syntax

section \<open>The map of the keys\<close>

lemma kp_get_simps [simp]:
  "kp_get k [] = False" "kp_get k ((a, b) # m) = (if k = a then b else kp_get k m)"
  by (simp_all add: kp_get_def)

lemma kp_get_set [simp]: "kp_get k (kp_set j b m) = (if k = j then b else kp_get k m)"
proof (induction m)
  case (Cons e m)
  then show ?case by (cases e; cases "k = j") auto
qed simp

lemma kp_get_touch [simp]: "kp_get k (kp_touch j m) = kp_get k m"
  by (simp add: kp_touch_def)

lemma kp_set_keys: "k \<in> fst ` set m \<Longrightarrow> map fst (kp_set k b m) = map fst m"
proof (induction m)
  case (Cons e m)
  then show ?case by (cases e; cases "k = fst e") simp_all
qed simp

lemma vk_make_kpid [simp]: "vk_from_kpid (make_kpid vk flags) = vk"
  by (rule bit_word_eqI) (auto simp: vk_from_kpid_def make_kpid_def bit_simps dest: bit_imp_le_length)

lemma flags_make_kpid [simp]: "flags_from_kpid (make_kpid vk flags) = flags"
proof -
  have low: "k AND 0xFF = take_bit 8 k" for k :: u32
    by (simp add: take_bit_eq_mask mask_eq_exp_minus_1)
  show ?thesis unfolding flags_from_kpid_def make_kpid_def low
    by (rule bit_word_eqI) (auto simp: bit_simps dest: bit_imp_le_length)
qed

section \<open>The keyboard handler\<close>

text \<open>The shortcut keys: they are not sent to the platform.\<close>

definition consumed :: "u32 \<Rightarrow> u16 \<Rightarrow> bool" where
  "consumed shortcutFlags keyCode \<longleftrightarrow> shortcutFlags = SK_SHORTCUT \<and>
     (0x70 \<le> sint keyCode \<and> sint keyCode \<le> 0x7C \<or> keyCode = 0x4E)"

lemma apply_shortcut_consumed:
  "shortcutFlags = SK_SHORTCUT \<Longrightarrow> 0 < fst (apply_shortcut keyCode s) \<longleftrightarrow> consumed shortcutFlags keyCode"
  "shortcutFlags = SK_SHORTCUT \<Longrightarrow> \<not> consumed shortcutFlags keyCode \<Longrightarrow> snd (apply_shortcut keyCode s) = s"
  by (auto simp: apply_shortcut_def consumed_def)

lemma apply_shortcut_keeps [simp]:
  "is_out (snd (apply_shortcut k s)) = is_out s" "is_key_press (snd (apply_shortcut k s)) = is_key_press s"
  by (simp_all add: apply_shortcut_def)

text \<open>The modifier keys that are pressed before the key and released after it.\<close>

definition modifier_keys :: "u8 \<Rightarrow> u16 list" where
  "modifier_keys m = (if m AND MODIFIER_SHIFT \<noteq> 0 then [VKEY_SHIFT] else []) @
     (if m AND MODIFIER_CTRL \<noteq> 0 then [VKEY_CONTROL] else []) @
     (if m AND MODIFIER_ALT \<noteq> 0 then [VKEY_MENU] else [])"

lemma send_modifiers_out:
  "is_out (send_modifiers r flags m s) = is_out s @ map (\<lambda>k. Keyboard_update k r flags) (modifier_keys m)"
  "is_key_press (send_modifiers r flags m s) = is_key_press s"
  by (simp_all add: send_modifiers_def modifier_keys_def emit_def Let_def)

definition key_calls :: "'f input_env \<Rightarrow> u16 \<Rightarrow> bool \<Rightarrow> u8 \<Rightarrow> u8 \<Rightarrow> 'f platf_call list" where
  "key_calls env keyCode release flags m =
     (let ms = if release then [] else modifier_keys m
      in map (\<lambda>k. Keyboard_update k False flags) ms @ [Keyboard_update (map_keycode env keyCode) release flags] @
         map (\<lambda>k. Keyboard_update k True flags) ms)"

lemma send_key_out:
  "is_out (send_key_and_modifiers env k r flags m s) = is_out s @ key_calls env k r flags m"
  "is_key_press (send_key_and_modifiers env k r flags m s) = is_key_press s"
  by (simp_all add: send_key_and_modifiers_def Let_def send_modifiers_out key_calls_def)
    (simp_all add: emit_def send_modifiers_out)

lemma commit_key_out:
  "is_out (commit_key env c k r flags m s) = is_out s @ key_calls env k r flags m"
  "is_key_press (commit_key env c k r flags m s) = kp_set (make_kpid k flags) (\<not> r) (is_key_press s)"
  by (simp_all add: commit_key_def Let_def upd_client_def send_key_out)

lemma restart_repeat_keeps [simp]:
  "is_out (restart_repeat env k flags m s) = is_out s"
  "is_key_press (restart_repeat env k flags m s) = is_key_press s"
  by (simp_all add: restart_repeat_def Let_def cancel_id_def push_later_def split: prod.split)

lemma keyboard_effect:
  fixes s :: "'f input_state" and p :: keyboard_packet and c :: nat
  assumes "en_keyboard env"
  defines "key \<equiv> kb_keyCode p AND 0x00FF"
  defines "kpid \<equiv> make_kpid key (kb_flags p)"
  defines "m \<equiv> (if \<not> kb_release p \<and> \<not> is_modifier key
      then synthetic_modifiers (ci_shortcutFlags (is_clients s c)) (kb_modifiers p) else 0)"
  defines "s' \<equiv> passthrough_keyboard env c p s"
  shows "kp_get kpid (is_key_press s) \<noteq> kb_release p \<Longrightarrow> s' = s\<lparr>is_key_press := kp_touch kpid (is_key_press s)\<rparr>"
    and "kp_get kpid (is_key_press s) = kb_release p \<Longrightarrow> \<not> kb_release p \<Longrightarrow>
      consumed (ci_shortcutFlags (is_clients s c)) key \<Longrightarrow>
      is_out s' = is_out s \<and> is_key_press s' = kp_touch kpid (is_key_press s)"
    and "kp_get kpid (is_key_press s) = kb_release p \<Longrightarrow>
      kb_release p \<or> \<not> consumed (ci_shortcutFlags (is_clients s c)) key \<Longrightarrow>
      is_out s' = is_out s @ key_calls env key (kb_release p) (kb_flags p) m \<and>
      is_key_press s' = kp_set kpid (\<not> kb_release p) (kp_touch kpid (is_key_press s))"
  using assms
  by (simp_all add: passthrough_keyboard_def Let_def apply_shortcut_consumed commit_key_out)
    (auto simp: commit_key_out apply_shortcut_consumed consumed_def)

text \<open>
  The keyboard handler forwards edges only. A press of a key that is down, or a release of one
  that is up, reaches neither the platform nor the repeat timer; a shortcut is swallowed; in every
  other case the platform sees the mapped key once, between a press and a release of exactly the
  same synthetic modifiers, and the table of pressed keys changes at that key alone.
\<close>

theorem keyboard_forwards_edges:
  fixes s :: "'f input_state" and p :: keyboard_packet and c :: nat
  assumes "en_keyboard env"
  defines "key \<equiv> kb_keyCode p AND 0x00FF"
  defines "kpid \<equiv> make_kpid key (kb_flags p)"
  defines "s' \<equiv> passthrough_keyboard env c p s"
  shows "if kp_get kpid (is_key_press s) \<noteq> kb_release p
    then is_out s' = is_out s \<and> is_pool s' = is_pool s \<and> (\<forall>j. kp_get j (is_key_press s') = kp_get j (is_key_press s))
    else if \<not> kb_release p \<and> consumed (ci_shortcutFlags (is_clients s c)) key
    then is_out s' = is_out s \<and> (\<forall>j. kp_get j (is_key_press s') = kp_get j (is_key_press s))
    else (\<exists>ms. is_out s' = is_out s @ map (\<lambda>k. Keyboard_update k False (kb_flags p)) ms @
          [Keyboard_update (map_keycode env key) (kb_release p) (kb_flags p)] @
          map (\<lambda>k. Keyboard_update k True (kb_flags p)) ms \<and>
        (kb_release p \<longrightarrow> ms = []) \<and> set ms \<subseteq> {VKEY_SHIFT, VKEY_CONTROL, VKEY_MENU}) \<and>
      (\<forall>j. kp_get j (is_key_press s') =
        (if j = kpid then \<not> kb_release p else kp_get j (is_key_press s)))"
proof -
  define m where "m = (if \<not> kb_release p \<and> \<not> is_modifier key
      then synthetic_modifiers (ci_shortcutFlags (is_clients s c)) (kb_modifiers p) else 0)"
  note effect = keyboard_effect [OF assms(1), of p s c, folded key_def, folded kpid_def m_def s'_def]
  have calls: "\<exists>ms. key_calls env key (kb_release p) (kb_flags p) m =
        map (\<lambda>k. Keyboard_update k False (kb_flags p)) ms @
          [Keyboard_update (map_keycode env key) (kb_release p) (kb_flags p)] @
          map (\<lambda>k. Keyboard_update k True (kb_flags p)) ms \<and>
        (kb_release p \<longrightarrow> ms = []) \<and> set ms \<subseteq> {VKEY_SHIFT, VKEY_CONTROL, VKEY_MENU}"
    by (rule exI [of _ "if kb_release p then [] else modifier_keys m"])
      (auto simp: key_calls_def modifier_keys_def)
  show ?thesis
    using effect calls by (auto split: if_splits)
qed

theorem keyboard_forwards_edges_witness:
  "is_out (passthrough_keyboard sample_env 0
      \<lparr>kb_release = False, kb_flags = 0, kb_keyCode = 0x8041, kb_modifiers = MODIFIER_SHIFT\<rparr>
      (initial_input sample_floats)) =
    [Keyboard_update VKEY_SHIFT False 0, Keyboard_update 0x41 False 0, Keyboard_update VKEY_SHIFT True 0] \<and>
   is_out (passthrough_keyboard sample_env 0
      \<lparr>kb_release = True, kb_flags = 0, kb_keyCode = 0x8041, kb_modifiers = 0\<rparr>
      (initial_input sample_floats)) = []"
proof -
  have on: "en_keyboard sample_env" by (simp add: sample_env_def)
  have "is_out (passthrough_keyboard sample_env 0
      \<lparr>kb_release = True, kb_flags = 0, kb_keyCode = 0x8041, kb_modifiers = 0\<rparr>
      (initial_input sample_floats)) = []"
    using keyboard_forwards_edges [OF on, of
      "\<lparr>kb_release = True, kb_flags = 0, kb_keyCode = 0x8041, kb_modifiers = 0\<rparr>"
      "initial_input sample_floats" 0]
    by (simp add: initial_input_def)
  then show ?thesis by (intro conjI) code_simp
qed

section \<open>Reset\<close>

lemma fold_release_button:
  assumes "distinct xs" and "\<forall>x \<in> set xs. x < length (is_mouse_press s)"
  shows "is_out (fold release_button xs s) =
        is_out s @ map (\<lambda>x. Button_mouse x True) (filter (\<lambda>x. is_mouse_press s ! x) xs) \<and>
      length (is_mouse_press (fold release_button xs s)) = length (is_mouse_press s) \<and>
      (\<forall>x < length (is_mouse_press s).
        is_mouse_press (fold release_button xs s) ! x \<longleftrightarrow> is_mouse_press s ! x \<and> x \<notin> set xs) \<and>
      is_key_press (fold release_button xs s) = is_key_press s"
  using assms
proof (induction xs arbitrary: s)
  case (Cons y ys)
  let ?t = "release_button y s"
  have y: "y < length (is_mouse_press s)" "y \<notin> set ys" using Cons.prems by simp_all
  have unpressed: "\<not> xs ! i \<Longrightarrow> xs[i := False] = xs" for xs :: "bool list" and i
    by (metis list_update_id)
  have t: "is_out ?t = is_out s @ (if is_mouse_press s ! y then [Button_mouse y True] else [])"
    "is_mouse_press ?t = (is_mouse_press s)[y := False]" "is_key_press ?t = is_key_press s"
    using unpressed by (auto simp: release_button_def set_mouse_press_def emit_def)
  have same: "filter (\<lambda>x. is_mouse_press ?t ! x) ys = filter (\<lambda>x. is_mouse_press s ! x) ys"
    using y by (intro filter_cong refl) (auto simp: t nth_list_update)
  have IH: "is_out (fold release_button ys ?t) =
        is_out ?t @ map (\<lambda>x. Button_mouse x True) (filter (\<lambda>x. is_mouse_press ?t ! x) ys) \<and>
      length (is_mouse_press (fold release_button ys ?t)) = length (is_mouse_press ?t) \<and>
      (\<forall>x < length (is_mouse_press ?t).
        is_mouse_press (fold release_button ys ?t) ! x \<longleftrightarrow> is_mouse_press ?t ! x \<and> x \<notin> set ys) \<and>
      is_key_press (fold release_button ys ?t) = is_key_press ?t"
    by (rule Cons.IH) (use Cons.prems in \<open>simp_all add: t\<close>)
  show ?case using IH y unfolding same by (auto simp: t nth_list_update)
qed simp

lemma fold_release_key:
  assumes "distinct ks"
  shows "is_out (fold release_key ks s) =
        is_out s @ map (\<lambda>k. Keyboard_update (vk_from_kpid k AND 0x00FF) True (flags_from_kpid k))
          (filter (\<lambda>k. kp_get k (is_key_press s)) ks) \<and>
      (\<forall>j. kp_get j (is_key_press (fold release_key ks s)) \<longleftrightarrow> kp_get j (is_key_press s) \<and> j \<notin> set ks) \<and>
      is_mouse_press (fold release_key ks s) = is_mouse_press s"
  using assms
proof (induction ks arbitrary: s)
  case (Cons k ks)
  let ?t = "release_key k s"
  have t: "is_out ?t = is_out s @ (if kp_get k (is_key_press s)
      then [Keyboard_update (vk_from_kpid k AND 0x00FF) True (flags_from_kpid k)] else [])"
    "kp_get j (is_key_press ?t) \<longleftrightarrow> kp_get j (is_key_press s) \<and> j \<noteq> k"
    "is_mouse_press ?t = is_mouse_press s" for j
    by (auto simp: release_key_def emit_def)
  have same: "filter (\<lambda>k. kp_get k (is_key_press ?t)) ks = filter (\<lambda>k. kp_get k (is_key_press s)) ks"
    using Cons.prems by (intro filter_cong refl) (auto simp: t)
  have "distinct ks" using Cons.prems by simp
  from Cons.IH [OF this, of ?t] show ?case unfolding same by (auto simp: t)
qed simp

text \<open>
  C5. The task of a reset releases everything the tables say is down, once each: the buttons in
  order, then the keys, and afterwards no tracked button and no key is down.
\<close>

theorem run_reset_releases:
  fixes s :: "'f input_state"
  assumes "distinct (map fst (is_key_press s))"
  shows "is_out (run_reset s) = is_out s @
      map (\<lambda>x. Button_mouse x True) (filter (\<lambda>x. is_mouse_press s ! x) [0..<length (is_mouse_press s)]) @
      map (\<lambda>k. Keyboard_update (vk_from_kpid k AND 0x00FF) True (flags_from_kpid k))
        (filter (\<lambda>k. kp_get k (is_key_press s)) (map fst (is_key_press s))) \<and>
    is_mouse_press (run_reset s) = replicate (length (is_mouse_press s)) False \<and>
    (\<forall>k. \<not> kp_get k (is_key_press (run_reset s)))"
proof -
  let ?t = "fold release_button [0..<length (is_mouse_press s)] s"
  have buttons: "is_out ?t = is_out s @ map (\<lambda>x. Button_mouse x True)
        (filter (\<lambda>x. is_mouse_press s ! x) [0..<length (is_mouse_press s)])"
      "length (is_mouse_press ?t) = length (is_mouse_press s)"
      "\<forall>x < length (is_mouse_press s). \<not> is_mouse_press ?t ! x"
      "is_key_press ?t = is_key_press s"
    using fold_release_button [of "[0..<length (is_mouse_press s)]" s] by simp_all
  have up: "is_mouse_press ?t = replicate (length (is_mouse_press s)) False"
    using buttons(2,3) by (intro nth_equalityI) auto
  have run: "run_reset s = fold release_key (map fst (is_key_press s)) ?t"
    by (simp add: run_reset_def Let_def buttons(4))
  have absent: "\<not> kp_get j m" if "j \<notin> set (map fst m)" for j and m :: "(u32 \<times> bool) list"
  proof -
    have "map_of m j = None" using that by (simp add: map_of_eq_None_iff)
    then show ?thesis by (simp add: kp_get_def)
  qed
  note keys = fold_release_key [OF assms, of ?t, folded run]
  show ?thesis using keys up absent unfolding buttons(1,4) by auto
qed

theorem run_reset_releases_witness:
  "is_out (run_reset ((initial_input sample_floats)
      \<lparr>is_mouse_press := [False, True, False, False, False],
       is_key_press := [(make_kpid 0x41 0, True), (make_kpid 0x42 0, False)]\<rparr>)) =
    [Button_mouse 1 True, Keyboard_update 0x41 True 0]"
proof -
  let ?s = "(initial_input sample_floats)
      \<lparr>is_mouse_press := [False, True, False, False, False],
       is_key_press := [(make_kpid 0x41 0, True), (make_kpid 0x42 0, False)]\<rparr>"
  have "distinct (map fst (is_key_press ?s))" by (simp add: make_kpid_def)
  from run_reset_releases [OF this, THEN conjunct1] show ?thesis
    by (simp add: initial_input_def make_kpid_def vk_from_kpid_def flags_from_kpid_def upt_rec)
qed

section \<open>What a reset misses\<close>

lemma remove_timer_single:
  "length (filter (\<lambda>x. task_addr (snd x) = i) ts) \<le> 1 \<Longrightarrow> x \<in> set (remove_timer i ts) \<Longrightarrow>
    task_addr (snd x) \<noteq> i"
proof (induction ts)
  case (Cons t ts)
  then show ?case by (cases "task_addr (snd t) = i") (auto simp: filter_empty_conv)
qed simp

lemma length_filter_remove_timer:
  "length (filter P (remove_timer i ts)) \<le> length (filter P ts)"
  by (induction ts) (auto intro: le_SucI)

lemma length_filter_insert_timer:
  "length (filter P (insert_timer e ts)) = (if P e then 1 else 0) + length (filter P ts)"
  by (induction ts) auto

lemma fold_release_key_out:
  "\<exists>new. is_out (fold release_key ks s) = is_out s @ new \<and> (\<forall>x r. Button_mouse x r \<notin> set new)"
proof (induction ks arbitrary: s)
  case (Cons k ks)
  obtain new where "is_out (fold release_key ks (release_key k s)) = is_out (release_key k s) @ new"
      "\<forall>x r. Button_mouse x r \<notin> set new"
    using Cons.IH by blast
  moreover obtain one where "is_out (release_key k s) = is_out s @ one" "\<forall>x r. Button_mouse x r \<notin> set one"
    by (cases "kp_get k (is_key_press s)") (auto simp: release_key_def emit_def)
  ultimately show ?case by (intro exI [of _ "one @ new"]) simp
qed simp

lemma run_reset_buttons:
  assumes "\<not> is_mouse_press s ! x"
  shows "\<exists>new. is_out (run_reset s) = is_out s @ new \<and> Button_mouse x True \<notin> set new"
proof -
  let ?t = "fold release_button [0..<length (is_mouse_press s)] s"
  have t: "is_out ?t = is_out s @ map (\<lambda>x. Button_mouse x True)
        (filter (\<lambda>x. is_mouse_press s ! x) [0..<length (is_mouse_press s)])"
    and keys: "is_key_press ?t = is_key_press s"
    using fold_release_button [of "[0..<length (is_mouse_press s)]" s] by simp_all
  obtain new where "is_out (fold release_key (map fst (is_key_press s)) ?t) = is_out ?t @ new"
      "\<forall>x r. Button_mouse x r \<notin> set new"
    using fold_release_key_out by blast
  then show ?thesis using assms
    by (intro exI [of _ "map (\<lambda>x. Button_mouse x True)
        (filter (\<lambda>x. is_mouse_press s ! x) [0..<length (is_mouse_press s)]) @ new"])
      (auto simp: run_reset_def Let_def t keys)
qed

text \<open>
  A reset within the ten milliseconds by which the release of the left button is delayed loses
  the release: the handler has already recorded the button as up, the reset cancels the delayed
  release and its own task skips the button, so the platform, which saw the press, never sees the
  release; and a further release is dropped as a duplicate.
\<close>

theorem reset_loses_delayed_release:
  fixes s :: "'f input_state" and c :: nat
  assumes mouse: "en_mouse env" and down: "is_mouse_press s ! BUTTON_LEFT"
    and len: "length (is_mouse_press s) = 5"
    and nodelay: "ci_mouse_left_button_timeout (is_clients s c) = 0"
    and fresh: "\<forall>live. en_new_task env live \<notin> set live"
    and none: "\<forall>e \<in> set (p_timer_tasks (is_pool s)). \<forall>i d r. snd e \<noteq> Some (i, T_release_left d r)"
  defines "s1 \<equiv> passthrough_mouse_button env c True 1 s"
  defines "s2 \<equiv> input_reset env c s1"
  shows "is_out s1 = is_out s \<and> is_out s2 = is_out s \<and>
    (\<forall>e \<in> set (p_timer_tasks (is_pool s2)). \<forall>i d r. snd e \<noteq> Some (i, T_release_left d r)) \<and>
    Button_mouse BUTTON_LEFT True \<notin> set (drop (length (is_out s)) (is_out (run_reset s2))) \<and>
    passthrough_mouse_button env c True 1 s2 = s2"
proof -
  let ?ts = "p_timer_tasks (is_pool s)"
  define a where "a = en_new_task env (live_tasks (is_pool s))"
  define e where "e = (en_now env + milliseconds 10, Some (a, T_release_left c True))"
  have new: "task_addr (snd x) \<noteq> a" if "x \<in> set ?ts" for x
  proof -
    have "task_addr (snd x) \<in> set (live_tasks (is_pool s))" using that by (simp add: live_tasks_def)
    then show ?thesis using fresh unfolding a_def by metis
  qed
  have s1: "is_out s1 = is_out s" "is_mouse_press s1 = (is_mouse_press s)[1 := False]"
      "p_timer_tasks (is_pool s1) = insert_timer e ?ts" "ci_mouse_left_button_timeout (is_clients s1 c) = a"
    using mouse down len nodelay
    by (simp_all add: s1_def passthrough_mouse_button_def BUTTON_LEFT_def Let_def set_mouse_press_def
        push_later_def push_delayed_def push_timer_def upd_client_def e_def a_def)
  define ts2 where "ts2 = remove_timer a (remove_timer (is_key_press_repeat_id s1) (insert_timer e ?ts))"
  have s2: "is_out s2 = is_out s1" "is_mouse_press s2 = is_mouse_press s1"
      "p_timer_tasks (is_pool s2) = ts2" "is_key_press s2 = is_key_press s1" "is_clients s2 = is_clients s1"
    unfolding s2_def ts2_def
    by (simp_all add: input_reset_def push_now_def pool_push_def cancel_id_def cancel_task_def s1)
  have one: "length (filter (\<lambda>x. task_addr (snd x) = a) (insert_timer e ?ts)) = 1"
    using new by (auto simp: length_filter_insert_timer e_def filter_empty_conv)
  have single: "task_addr (snd x) \<noteq> a" if "x \<in> set ts2" for x
    using that unfolding ts2_def
    by (rule remove_timer_single [OF order_trans [OF length_filter_remove_timer eq_refl [OF one]]])
  have lost: "snd x \<noteq> Some (i, T_release_left d r)" if "x \<in> set ts2" for x i d r
  proof -
    have "x \<noteq> e" using single [OF that] by (auto simp: e_def)
    moreover have "x \<in> insert e (set ?ts)"
      using that remove_timer_subset unfolding ts2_def set_insert_timer [symmetric] by blast
    ultimately show ?thesis using none by blast
  qed
  have up: "\<not> is_mouse_press s2 ! 1" "length (is_mouse_press s2) = 5" using len by (simp_all add: s1 s2)
  obtain new where "is_out (run_reset s2) = is_out s2 @ new" "Button_mouse 1 True \<notin> set new"
    using run_reset_buttons [OF up(1)] by blast
  moreover have "passthrough_mouse_button env c True 1 s2 = s2"
    using mouse up by (simp add: passthrough_mouse_button_def Let_def)
  ultimately show ?thesis using lost by (simp add: s1 s2 BUTTON_LEFT_def)
qed

theorem reset_loses_delayed_release_witness:
  "let s = (initial_input sample_floats)\<lparr>is_mouse_press := [False, True, False, False, False]\<rparr>
   in Button_mouse BUTTON_LEFT True \<notin> set (is_out (run_reset (input_reset sample_env 0
        (passthrough_mouse_button sample_env 0 True 1 s))))"
proof -
  let ?s = "(initial_input sample_floats)\<lparr>is_mouse_press := [False, True, False, False, False]\<rparr>"
  have larger: "x \<le> fold max live (b :: nat)" if "x \<in> set live \<or> x \<le> b" for x b live
    using that by (induction live arbitrary: b) (auto simp: max_def)
  have "2 + fold max live 0 \<notin> set live" for live :: "nat list"
    using larger [of "2 + fold max live 0" live 0] by auto
  then have "\<forall>live. en_new_task sample_env live \<notin> set live" by (simp add: sample_env_def)
  from reset_loses_delayed_release [OF _ _ _ _ this, of ?s 0] show ?thesis
    by (simp add: sample_env_def initial_input_def new_client_input_def empty_pool_def BUTTON_LEFT_def)
qed

text \<open>
  A reset releases the key code the client sent, not the one the platform was given. When the
  configuration maps a key to another one, the press reaches the platform as the mapped key, and
  the reset sends no release of the mapped key at all.
\<close>

theorem reset_releases_unmapped_key:
  fixes s :: "'f input_state" and p :: keyboard_packet and c :: nat
  assumes keyboard: "en_keyboard env" and press: "\<not> kb_release p"
    and idle: "is_key_press s = []" and plain: "kb_modifiers p = 0"
    and noshortcut: "ci_shortcutFlags (is_clients s c) \<noteq> SK_SHORTCUT"
  defines "key \<equiv> kb_keyCode p AND 0x00FF"
  assumes mapped: "map_keycode env key \<noteq> key"
  defines "s1 \<equiv> passthrough_keyboard env c p s"
  shows "is_out s1 = is_out s @ [Keyboard_update (map_keycode env key) False (kb_flags p)] \<and>
    (\<exists>buttons. is_out (run_reset s1) = is_out s1 @ map (\<lambda>x. Button_mouse x True) buttons @
      [Keyboard_update key True (kb_flags p)]) \<and>
    (\<forall>flags. Keyboard_update (map_keycode env key) True flags
      \<notin> set (drop (length (is_out s1)) (is_out (run_reset s1))))"
proof -
  let ?kpid = "make_kpid key (kb_flags p)"
  have "synthetic_modifiers f 0 = 0" for f by (simp add: synthetic_modifiers_def Let_def)
  moreover have "modifier_keys 0 = []" by (simp add: modifier_keys_def)
  moreover have "\<not> consumed (ci_shortcutFlags (is_clients s c)) key"
    using noshortcut by (simp add: consumed_def)
  ultimately have s1: "is_out s1 = is_out s @ [Keyboard_update (map_keycode env key) False (kb_flags p)]"
      "is_key_press s1 = [(?kpid, True)]"
    using keyboard_effect(3) [OF keyboard, of p s c, folded key_def s1_def] press idle plain
    by (simp_all add: key_calls_def kp_touch_def)
  define buttons where "buttons = filter (\<lambda>x. is_mouse_press s1 ! x) [0..<length (is_mouse_press s1)]"
  let ?t = "fold release_button [0..<length (is_mouse_press s1)] s1"
  have t: "is_out ?t = is_out s1 @ map (\<lambda>x. Button_mouse x True) buttons"
      "is_key_press ?t = [(?kpid, True)]"
    using fold_release_button [of "[0..<length (is_mouse_press s1)]" s1]
    by (simp_all add: s1 buttons_def)
  have "vk_from_kpid ?kpid AND 0x00FF = key" by (simp add: key_def and.assoc)
  then have reset: "is_out (run_reset s1) = is_out s1 @ map (\<lambda>x. Button_mouse x True) buttons @
      [Keyboard_update key True (kb_flags p)]"
    by (simp add: run_reset_def Let_def t release_key_def emit_def)
  show ?thesis
  proof (intro conjI exI allI)
    show "Keyboard_update (map_keycode env key) True flags
        \<notin> set (drop (length (is_out s1)) (is_out (run_reset s1)))" for flags
      unfolding reset using mapped by auto
  qed (fact s1 reset)+
qed

theorem reset_releases_unmapped_key_witness:
  "Keyboard_update 0xA0 True 0 \<notin> set (is_out (run_reset (passthrough_keyboard sample_env 0
      \<lparr>kb_release = False, kb_flags = 0, kb_keyCode = 0x10, kb_modifiers = 0\<rparr> (initial_input sample_floats))))"
proof -
  let ?p = "\<lparr>kb_release = False, kb_flags = 0, kb_keyCode = 0x10, kb_modifiers = 0\<rparr>"
  let ?s = "initial_input sample_floats"
  let ?s1 = "passthrough_keyboard sample_env 0 ?p ?s"
  have key: "kb_keyCode ?p AND 0x00FF = 0x10" and map: "map_keycode sample_env 0x10 = 0xA0"
    by (simp_all add: map_keycode_def sample_env_def)
  have "en_keyboard sample_env" "\<not> kb_release ?p" "is_key_press ?s = []" "kb_modifiers ?p = 0"
    "ci_shortcutFlags (is_clients ?s 0) \<noteq> SK_SHORTCUT"
    "map_keycode sample_env (kb_keyCode ?p AND 0x00FF) \<noteq> kb_keyCode ?p AND 0x00FF"
    by (simp_all add: map) (simp_all add: sample_env_def initial_input_def new_client_input_def
      SK_SHORTCUT_def SK_CTRL_def SK_ALT_def SK_SHIFT_def)
  from reset_releases_unmapped_key [OF this, unfolded key map] show ?thesis
    by (auto simp: initial_input_def)
qed

section \<open>A controller that leaves\<close>

text \<open>
  Removing a controller does not cancel its back button timer. When the timer runs, the
  platform gets three reports for the controller with index -1.
\<close>

theorem removed_controller_times_out:
  fixes s :: "'f input_state" and p :: multi_controller_packet and c :: nat
  defines "n \<equiv> unat (mc_controllerNumber p)"
  assumes "en_controller env" and num: "0 \<le> sint (mc_controllerNumber p)"
      "sint (mc_controllerNumber p) < int (n_gamepads s c)"
    and inactive: "\<not> bit (mc_activeGamepadMask p) n" and held: "0 \<le> gp_id (gamepad_of s c n)"
    and pending: "(d, Some (i, T_back_timeout c n)) \<in> set (p_timer_tasks (is_pool s))"
  defines "s1 \<equiv> passthrough_multi_controller env c p s"
  shows "(d, Some (i, T_back_timeout c n)) \<in> set (p_timer_tasks (is_pool s1)) \<and>
    gp_id (gamepad_of s1 c n) = - 1 \<and>
    (\<exists>st1 st2 st3. is_out (run_back_timeout c n s1) =
      is_out s1 @ [Gamepad_update (- 1) st1, Gamepad_update (- 1) st2, Gamepad_update (- 1) st3])"
proof -
  have s1: "s1 = upd_gamepad c n (\<lambda>g. g\<lparr>gp_id := - 1\<rparr>) (free_gamepad (gp_id (gamepad_of s c n)) s)"
    using assms(2) num inactive held unfolding s1_def n_def
    by (simp add: passthrough_multi_controller_def Let_def not_le not_less)
  have n: "n < n_gamepads s c"
    using num sint_u16_nonneg [OF num(1)] unfolding n_def by linarith
  have gone: "gp_id (gamepad_of s1 c n) = - 1"
    using n by (simp add: s1 gamepad_of_def upd_gamepad_def upd_client_def free_gamepad_def emit_def
        n_gamepads_def Let_def)
  moreover have "is_pool s1 = is_pool s"
    by (simp add: s1 upd_gamepad_def upd_client_def free_gamepad_def emit_def Let_def)
  moreover have "\<exists>st1 st2 st3. is_out (run_back_timeout c n s1) =
      is_out s1 @ [Gamepad_update (- 1) st1, Gamepad_update (- 1) st2, Gamepad_update (- 1) st3]"
    by (simp add: run_back_timeout_def Let_def gone upd_gamepad_def upd_client_def emit_def)
  ultimately show ?thesis using pending by simp
qed

theorem removed_controller_times_out_witness:
  "let g = new_gamepad\<lparr>gp_id := 0, gp_back_timeout_id := 7\<rparr>;
       s = (initial_input sample_floats)
         \<lparr>is_clients := (\<lambda>_. (new_client_input sample_floats)\<lparr>ci_gamepads := [g]\<rparr>),
          is_pool := empty_pool\<lparr>p_timer_tasks := [(99, Some (7, T_back_timeout 0 0))]\<rparr>\<rparr>;
       p = \<lparr>mc_controllerNumber = 0, mc_activeGamepadMask = 0, mc_buttonFlags = 0,
         mc_leftTrigger = 0, mc_rightTrigger = 0, mc_leftStickX = 0, mc_leftStickY = 0,
         mc_rightStickX = 0, mc_rightStickY = 0, mc_buttonFlags2 = 0\<rparr>;
       s1 = passthrough_multi_controller sample_env 0 p s
   in \<exists>st1 st2 st3. is_out (run_back_timeout 0 0 s1) =
      is_out s1 @ [Gamepad_update (- 1) st1, Gamepad_update (- 1) st2, Gamepad_update (- 1) st3]"
proof -
  let ?g = "new_gamepad\<lparr>gp_id := 0, gp_back_timeout_id := 7\<rparr>"
  let ?s = "(initial_input sample_floats)
         \<lparr>is_clients := (\<lambda>_. (new_client_input sample_floats)\<lparr>ci_gamepads := [?g]\<rparr>),
          is_pool := empty_pool\<lparr>p_timer_tasks := [(99, Some (7, T_back_timeout 0 0))]\<rparr>\<rparr>"
  let ?p = "\<lparr>mc_controllerNumber = 0, mc_activeGamepadMask = 0, mc_buttonFlags = 0,
         mc_leftTrigger = 0, mc_rightTrigger = 0, mc_leftStickX = 0, mc_leftStickY = 0,
         mc_rightStickX = 0, mc_rightStickY = 0, mc_buttonFlags2 = 0\<rparr>"
  have "en_controller sample_env" by (simp add: sample_env_def)
  moreover have "0 \<le> sint (mc_controllerNumber ?p)" by simp
  moreover have "sint (mc_controllerNumber ?p) < int (n_gamepads ?s 0)" by (simp add: n_gamepads_def)
  moreover have "\<not> bit (mc_activeGamepadMask ?p) (unat (mc_controllerNumber ?p))" by simp
  moreover have "0 \<le> gp_id (gamepad_of ?s 0 (unat (mc_controllerNumber ?p)))"
    by (simp add: gamepad_of_def)
  moreover have "(99, Some (7, T_back_timeout 0 (unat (mc_controllerNumber ?p))))
      \<in> set (p_timer_tasks (is_pool ?s))" by simp
  ultimately show ?thesis
    using removed_controller_times_out [of sample_env ?p ?s 0 99 7] by (simp add: Let_def)
qed

end
