(* ===== verification/Byte_Layout.thy ===== *)
theory Byte_Layout
  imports Prelude
begin

text \<open>
  Byte buffers as lists: writing into a buffer, integers in little and in big endian, and cutting
  a buffer into slices. The protocol headers of the streams are read and written with these.
\<close>

unbundle bit_operations_syntax

section \<open>Writing into a buffer\<close>

text \<open>\<^verbatim>\<open>std::copy\<close> of \<open>bs\<close> to offset \<open>off\<close>; the callers show that it fits.\<close>

definition write_at :: "nat \<Rightarrow> 'a list \<Rightarrow> 'a list \<Rightarrow> 'a list" where
  "write_at off bs xs = take off xs @ bs @ drop (off + length bs) xs"

definition read_at :: "nat \<Rightarrow> nat \<Rightarrow> 'a list \<Rightarrow> 'a list" where
  "read_at off n xs = take n (drop off xs)"

lemma length_write_at [simp]: "off + length bs \<le> length xs \<Longrightarrow> length (write_at off bs xs) = length xs"
  by (simp add: write_at_def)

lemma read_write_same:
  "off + length bs \<le> length xs \<Longrightarrow> n = length bs \<Longrightarrow> read_at off n (write_at off bs xs) = bs"
  by (simp add: read_at_def write_at_def)

lemma nth_write_at:
  assumes "off + length bs \<le> length xs" and "i < length xs"
  shows "write_at off bs xs ! i = (if off \<le> i \<and> i < off + length bs then bs ! (i - off) else xs ! i)"
proof -
  consider "i < off" | "off \<le> i" "i < off + length bs" | "off + length bs \<le> i" by linarith
  then show ?thesis
  proof cases
    case 2
    then have "i - off < length bs" by linarith
    then show ?thesis using 2 assms by (simp add: write_at_def nth_append)
  next
    case 3
    then have "drop (off + length bs) xs ! (i - off - length bs) = xs ! i"
      using assms by (subst nth_drop) simp_all
    moreover have "\<not> i - off < length bs" using 3 by linarith
    ultimately show ?thesis using 3 assms by (simp add: write_at_def nth_append)
  qed (use assms in \<open>simp_all add: write_at_def nth_append\<close>)
qed

lemma nth_read_at: "i < n \<Longrightarrow> off + n \<le> length xs \<Longrightarrow> read_at off n xs ! i = xs ! (off + i)"
  by (simp add: read_at_def)

lemma length_read_at: "off + n \<le> length xs \<Longrightarrow> length (read_at off n xs) = n"
  by (simp add: read_at_def)

lemma read_write_other:
  assumes "off + length bs \<le> length xs" and "o' + n \<le> length xs"
    and "o' + n \<le> off \<or> off + length bs \<le> o'"
  shows "read_at o' n (write_at off bs xs) = read_at o' n xs"
proof (rule nth_equalityI)
  show "length (read_at o' n (write_at off bs xs)) = length (read_at o' n xs)"
    using assms(1,2) by (simp add: length_read_at)
  fix i assume "i < length (read_at o' n (write_at off bs xs))"
  then have "i < n" using assms(1,2) by (simp add: length_read_at)
  then show "read_at o' n (write_at off bs xs) ! i = read_at o' n xs ! i"
    using assms by (auto simp: nth_read_at nth_write_at)
qed

lemma write_at_append:
  "length done = off \<Longrightarrow> length bs \<le> r \<Longrightarrow>
    write_at off bs (done @ replicate r z) = done @ bs @ replicate (r - length bs) z"
  by (simp add: write_at_def drop_replicate)

section \<open>Integers\<close>

definition le_bytes :: "nat \<Rightarrow> 'w :: len word \<Rightarrow> bytes" where
  "le_bytes k w = map (\<lambda>i. ucast (drop_bit (8 * i) w)) [0..<k]"

definition be_bytes :: "nat \<Rightarrow> 'w :: len word \<Rightarrow> bytes" where
  "be_bytes k w = rev (le_bytes k w)"

text \<open>The value of a little endian byte string, at the width of the reader.\<close>

fun le_value :: "bytes \<Rightarrow> 'w :: len word" where
  "le_value [] = 0"
| "le_value (b # bs) = ucast b OR push_bit 8 (le_value bs)"

definition be_value :: "bytes \<Rightarrow> 'w :: len word" where
  "be_value bs = le_value (rev bs)"

lemma length_int_bytes [simp]: "length (le_bytes k w) = k" "length (be_bytes k w) = k"
  by (simp_all add: le_bytes_def be_bytes_def)

lemma bit_le_value:
  "bit (le_value bs :: 'w :: len word) n \<longleftrightarrow>
    n < LENGTH('w) \<and> n div 8 < length bs \<and> bit (bs ! (n div 8)) (n mod 8)"
proof (induction bs arbitrary: n)
  case (Cons b bs)
  show ?case
  proof (cases "n < 8")
    case True
    then show ?thesis by (auto simp: bit_simps)
  next
    case False
    then have n: "n div 8 = Suc ((n - 8) div 8)" "n mod 8 = (n - 8) mod 8"
      by (simp_all add: le_div_geq le_mod_geq)
    have "\<not> bit b n" using False by (auto dest: bit_imp_le_length)
    then show ?thesis using False Cons.IH [of "n - 8"] n by (auto simp: bit_simps)
  qed
qed simp

lemma le_value_bytes [simp]:
  fixes w :: "'w :: len word"
  assumes "LENGTH('w) \<le> 8 * k"
  shows "le_value (le_bytes k w) = w"
proof (rule bit_word_eqI)
  fix n assume n: "n < LENGTH('w)"
  then have "n div 8 < k" using assms by auto
  moreover have "8 * (n div 8) + n mod 8 = n" by simp
  ultimately show "bit (le_value (le_bytes k w) :: 'w word) n \<longleftrightarrow> bit w n"
    using n by (simp add: bit_le_value le_bytes_def bit_simps)
qed

lemma be_value_bytes [simp]:
  fixes w :: "'w :: len word"
  assumes "LENGTH('w) \<le> 8 * k"
  shows "be_value (be_bytes k w) = w"
  using assms by (simp add: be_value_def be_bytes_def)

lemma le_bytes_inj:
  fixes v w :: "'w :: len word"
  assumes "LENGTH('w) \<le> 8 * k"
  shows "le_bytes k v = le_bytes k w \<longleftrightarrow> v = w"
  using le_value_bytes [OF assms] by metis

section \<open>Slices\<close>

function chunks :: "nat \<Rightarrow> 'a list \<Rightarrow> 'a list list" where
  "chunks n xs = (if n = 0 \<or> xs = [] then [] else take n xs # chunks n (drop n xs))"
  by auto
termination by (relation "measure (length \<circ> snd)") auto

declare chunks.simps [simp del]

lemma chunks_Nil [simp]: "chunks n [] = []"
  by (simp add: chunks.simps)

lemma chunks_step: "0 < n \<Longrightarrow> xs \<noteq> [] \<Longrightarrow> chunks n xs = take n xs # chunks n (drop n xs)"
  by (subst chunks.simps) simp

lemma concat_chunks: "0 < n \<Longrightarrow> concat (chunks n xs) = xs"
  by (induction n xs rule: chunks.induct) (subst chunks.simps, auto)

text \<open>The number of slices: the division rounded up, as the code computes it.\<close>

definition ceil_div :: "nat \<Rightarrow> nat \<Rightarrow> nat" where
  "ceil_div a b = a div b + (if a mod b \<noteq> 0 then 1 else 0)"

lemma ceil_div_rounded: "0 < b \<Longrightarrow> (a + (b - 1)) div b = ceil_div a b"
proof -
  assume b: "0 < b"
  have a: "a = a mod b + a div b * b" by simp
  have r: "a mod b < b" using b by simp
  show ?thesis
  proof (cases "a mod b = 0")
    case True
    have "(b - 1 + a div b * b) div b = a div b" using b by (subst div_mult_self1) simp_all
    then show ?thesis using a True by (simp add: ceil_div_def add.commute)
  next
    case False
    have "a + (b - 1) = (a mod b - 1) + (a div b + 1) * b"
      using a False b add_mult_distrib [of "a div b" 1 b] by linarith
    also have "\<dots> div b = a div b + 1" using b r False by (subst div_mult_self1) simp_all
    finally show ?thesis using False by (simp add: ceil_div_def)
  qed
qed

lemma ceil_div_bounds:
  assumes "0 < b"
  shows "a \<le> ceil_div a b * b" and "ceil_div a b * b < a + b"
proof -
  have a: "a div b * b + a mod b = a" by simp
  have r: "a mod b < b" using assms by simp
  have c: "ceil_div a b * b = a div b * b + (if a mod b = 0 then 0 else b)"
    by (simp add: ceil_div_def add_mult_distrib)
  have "a \<le> ceil_div a b * b \<and> ceil_div a b * b < a + b"
  proof (cases "a mod b = 0")
    case True
    then have "ceil_div a b * b = a div b * b" using c by presburger
    then show ?thesis using a r True by linarith
  next
    case False
    then have "ceil_div a b * b = a div b * b + b" using c by presburger
    then show ?thesis using a r False by linarith
  qed
  then show "a \<le> ceil_div a b * b" and "ceil_div a b * b < a + b" by blast+
qed

lemma ceil_div_le: "0 < b \<Longrightarrow> a \<le> k * b \<Longrightarrow> ceil_div a b \<le> k"
proof -
  assume b: "0 < b" and a: "a \<le> k * b"
  have "ceil_div a b * b < (k + 1) * b" using ceil_div_bounds(2) [OF b, of a] a by simp
  then show ?thesis using b by (metis Suc_eq_plus1 less_Suc_eq_le mult_less_cancel2)
qed

lemma ceil_div_step: "0 < b \<Longrightarrow> 0 < a \<Longrightarrow> ceil_div a b = Suc (ceil_div (a - b) b)"
proof -
  assume b: "0 < b" and a: "0 < a"
  show ?thesis
  proof (cases "b \<le> a")
    case True
    then show ?thesis using b by (simp add: ceil_div_def le_div_geq le_mod_geq)
  next
    case False
    then show ?thesis using a by (simp add: ceil_div_def)
  qed
qed

lemma length_chunks: "0 < n \<Longrightarrow> length (chunks n xs) = ceil_div (length xs) n"
proof (induction n xs rule: chunks.induct)
  case (1 n xs)
  show ?case
  proof (cases "xs = []")
    case True
    then show ?thesis by (simp add: ceil_div_def)
  next
    case False
    then show ?thesis using 1 by (subst chunks.simps) (simp add: ceil_div_step [of n "length xs"])
  qed
qed

section \<open>Searching\<close>

text \<open>\<^verbatim>\<open>std::search\<close>: the position of the first occurrence.\<close>

fun search_list :: "'a list \<Rightarrow> 'a list \<Rightarrow> nat option" where
  "search_list old [] = (if old = [] then Some 0 else None)"
| "search_list old (x # xs) =
     (if take (length old) (x # xs) = old then Some 0 else map_option Suc (search_list old xs))"

lemma search_list_first:
  "search_list old xs = Some i \<Longrightarrow> take (length old) (drop i xs) = old \<and> i \<le> length xs"
  by (induction old xs arbitrary: i rule: search_list.induct) (auto split: if_splits)

lemma search_list_found:
  "xs = pre @ old @ post \<Longrightarrow> \<exists>i \<le> length pre. search_list old xs = Some i"
proof (induction old xs arbitrary: pre rule: search_list.induct)
  case (2 old x xs)
  show ?case
  proof (cases "take (length old) (x # xs) = old")
    case False
    then obtain y pre' where pre: "pre = y # pre'" using 2(2) by (cases pre) auto
    then obtain i where "i \<le> length pre'" "search_list old xs = Some i"
      using 2(1) [OF False, of pre'] 2(2) by auto
    then show ?thesis using False pre by simp
  qed simp
qed simp

end
