(* ===== verification/Stream_Fec.thy ===== *)
theory Stream_Fec
  imports Byte_Layout
begin

text \<open>
  How \<^verbatim>\<open>src/stream.cpp\<close> cuts an encoded frame into packets: \<^verbatim>\<open>concat_and_insert\<close>,
  \<^verbatim>\<open>replace\<close>, the choice of the FEC blocks in \<^verbatim>\<open>videoBroadcastThread\<close> and
  \<^verbatim>\<open>fec::encode\<close>. Sizes are natural numbers; the Reed-Solomon coder is a parameter.
\<close>

section \<open>Slicing the frame\<close>

text \<open>
  The loop of \<^verbatim>\<open>concat_and_insert\<close>. \<open>cur\<close> is what is left between the iterators \<^verbatim>\<open>next\<close>
  and \<^verbatim>\<open>end\<close>, \<open>k\<close> the number of elements still to do; \<open>None\<close> is a read past the end of
  \<^verbatim>\<open>data2\<close>.
\<close>

fun concat_loop :: "nat \<Rightarrow> nat \<Rightarrow> 'a list \<Rightarrow> nat \<Rightarrow> nat \<Rightarrow> nat \<Rightarrow> 'a list \<Rightarrow> 'a list \<Rightarrow> 'a list option" where
  "concat_loop insert_size slice_size data2 data_size 0 x cur result = Some result"
| "concat_loop insert_size slice_size data2 data_size (Suc k) x cur result =
     (let p = x * (insert_size + slice_size);
          n = (if k = 0 then data_size - x * slice_size else slice_size)
      in if length cur < n
         then let copy_len = length cur; more = n - copy_len;
                  result = write_at (p + insert_size) cur result
              in if length data2 < more then None
                 else concat_loop insert_size n data2 data_size k (Suc x) (drop more data2)
                   (write_at (p + copy_len + insert_size) (take more data2) result)
         else concat_loop insert_size n data2 data_size k (Suc x) (drop n cur)
                (write_at (p + insert_size) (take n cur) result))"

text \<open>The division by \<^verbatim>\<open>slice_size\<close> traps when it is 0.\<close>

definition concat_and_insert :: "nat \<Rightarrow> nat \<Rightarrow> bytes \<Rightarrow> bytes \<Rightarrow> bytes option" where
  "concat_and_insert insert_size slice_size data1 data2 =
     (if slice_size = 0 then None
      else let data_size = length data1 + length data2;
               elements = data_size div slice_size + (if data_size mod slice_size \<noteq> 0 then 1 else 0)
           in concat_loop insert_size slice_size data2 data_size elements 0 data1
                (replicate (elements * insert_size + data_size) 0))"

lemma write_after_gap:
  assumes "g + length bs \<le> z"
  shows "write_at (length out + g) bs (out @ replicate z 0) =
    (out @ replicate g 0 @ bs) @ replicate (z - g - length bs) (0 :: 8 word)"
proof -
  have "out @ replicate z (0 :: 8 word) = (out @ replicate g 0) @ replicate (z - g) 0"
    using assms by (simp add: replicate_add [symmetric])
  then show ?thesis
    using write_at_append [of "out @ replicate g 0" "length out + g" bs "z - g" 0] assms by simp
qed

text \<open>
  The loop writes slice after slice behind its header space. The bytes to come are either the rest
  of the first string and all of the second, or the rest of the second.
\<close>

lemma concat_loop_slices:
  fixes data2 :: bytes
  assumes "0 < sl" and "rem = cur @ data2 \<or> rem = cur"
    and "length out = x * (ins + sl)" and "len = x * sl + length rem"
    and "k = ceil_div (length rem) sl"
  shows "concat_loop ins sl data2 len k x cur (out @ replicate (k * ins + length rem) 0) =
    Some (out @ concat (map (\<lambda>s. replicate ins 0 @ s) (chunks sl rem)))"
  using assms
proof (induction k arbitrary: x cur rem out)
  case 0
  then have "length rem = 0" using ceil_div_bounds(1) [of sl "length rem"] by simp
  then show ?case by simp
next
  case (Suc k)
  have rem: "rem \<noteq> []" using Suc.prems(5) by (auto simp: ceil_div_def)
  define n where "n = (if k = 0 then len - x * sl else sl)"
  have k: "k = ceil_div (length rem - sl) sl"
    using Suc.prems(1,5) rem ceil_div_step [of sl "length rem"] by simp
  have n: "n = min sl (length rem)"
  proof (cases "k = 0")
    case True
    then have "length rem - sl = 0" using k ceil_div_bounds(1) [OF Suc.prems(1), of "length rem - sl"] by simp
    then show ?thesis using True Suc.prems(4) by (simp add: n_def)
  next
    case False
    have "sl \<le> length rem"
    proof (rule ccontr)
      assume "\<not> sl \<le> length rem"
      then show False using k False by (simp add: ceil_div_def)
    qed
    then show ?thesis using False by (simp add: n_def)
  qed
  define out' where "out' = out @ replicate ins 0 @ take n rem"
  define z where "z = Suc k * ins + length rem"
  have chunks: "chunks sl rem = take n rem # chunks sl (drop n rem)"
    using chunks_step [OF Suc.prems(1) rem] n
    by (cases "sl \<le> length rem") (simp_all add: min_def not_le)
  have step: "concat_loop ins n data2 len k (Suc x) cur' (out' @ replicate (z - ins - n) 0) =
      Some (out' @ concat (map (\<lambda>s. replicate ins 0 @ s) (chunks sl (drop n rem))))"
    if "drop n rem = cur' @ data2 \<or> drop n rem = cur'" for cur'
  proof (cases "k = 0")
    case True
    then have "drop n rem = []" using n Suc.prems(4) by (simp add: n_def)
    moreover have "z - ins - n = 0" using True n Suc.prems(4) by (simp add: z_def n_def)
    ultimately show ?thesis using True by simp
  next
    case False
    then have "n = sl" by (simp add: n_def)
    then have "sl \<le> length rem" using n by simp
    then have "concat_loop ins sl data2 len k (Suc x) cur' (out' @ replicate (k * ins + length (drop n rem)) 0) =
      Some (out' @ concat (map (\<lambda>s. replicate ins 0 @ s) (chunks sl (drop n rem))))"
      using Suc.prems that k \<open>n = sl\<close>
      by (intro Suc.IH) (simp_all add: out'_def algebra_simps)
    moreover have "z - ins - n = k * ins + length (drop n rem)"
      using \<open>n = sl\<close> \<open>sl \<le> length rem\<close> by (simp add: z_def)
    ultimately show ?thesis using \<open>n = sl\<close> by simp
  qed
  have "concat_loop ins sl data2 len (Suc k) x cur (out @ replicate z 0) =
      Some (out' @ concat (map (\<lambda>s. replicate ins 0 @ s) (chunks sl (drop n rem))))"
  proof (cases "length cur < n")
    case True
    then have both: "rem = cur @ data2" using Suc.prems(2) n by auto
    let ?more = "n - length cur"
    have more: "?more \<le> length data2" using n both by simp
    have taken: "take n rem = cur @ take ?more data2" and dropped: "drop n rem = drop ?more data2"
      using True both by simp_all
    have "write_at (length out + ins) cur (out @ replicate z 0) =
        (out @ replicate ins 0 @ cur) @ replicate (z - ins - length cur) 0"
      using both by (intro write_after_gap) (simp add: z_def)
    moreover have "write_at (length out + length cur + ins) (take ?more data2)
        ((out @ replicate ins 0 @ cur) @ replicate (z - ins - length cur) 0) =
        out' @ replicate (z - ins - n) 0"
      using write_after_gap [of 0 "take ?more data2" "z - ins - length cur" "out @ replicate ins 0 @ cur"]
        more both True by (simp add: out'_def taken z_def add.commute add.left_commute)
    ultimately show ?thesis
      using True more step [of "drop ?more data2"] dropped Suc.prems(3)
      by (simp add: n_def [symmetric] Let_def add.assoc add.commute add.left_commute)
  next
    case False
    have "ins + n \<le> z" using n by (simp add: z_def)
    have taken: "take n rem = take n cur" using False Suc.prems(2) by auto
    have "write_at (length out + ins) (take n cur) (out @ replicate z 0) =
        out' @ replicate (z - ins - n) 0"
      using write_after_gap [of ins "take n cur" z out] False \<open>ins + n \<le> z\<close>
      by (simp add: out'_def taken min_def not_less)
    moreover have "drop n rem = drop n cur @ data2 \<or> drop n rem = drop n cur"
      using False Suc.prems(2) by auto
    ultimately show ?thesis
      using False step [of "drop n cur"] Suc.prems(3) by (simp add: n_def [symmetric] Let_def)
  qed
  then show ?case using chunks by (simp add: out'_def z_def)
qed

lemma concat_and_insert_all:
  assumes "0 < slice_size"
  shows "concat_and_insert insert_size slice_size data1 data2 =
    Some (concat (map (\<lambda>s. replicate insert_size 0 @ s) (chunks slice_size (data1 @ data2))))"
  using concat_loop_slices [of slice_size "data1 @ data2" data1 data2 "[]" 0 insert_size
      "length (data1 @ data2)" "ceil_div (length (data1 @ data2)) slice_size"] assms
  by (simp add: concat_and_insert_def Let_def ceil_div_def)

text \<open>
  \<^verbatim>\<open>concat_and_insert\<close> is slicing: for any two strings it returns their concatenation cut
  into slices of the given size, each behind the requested number of zero bytes, the last slice
  possibly shorter. It neither reads nor writes out of bounds, wherever the boundary between the
  two strings falls.
\<close>

theorem concat_and_insert_slices:
  assumes "0 < slice_size"
  shows "concat_and_insert insert_size slice_size data1 data2 =
    Some (concat (map (\<lambda>s. replicate insert_size 0 @ s) (chunks slice_size (data1 @ data2))))"
  by (rule concat_and_insert_all [OF assms])

theorem concat_and_insert_slices_witness:
  "concat_and_insert 1 3 [1, 2] [3, 4, 5] = Some [0, 1, 2, 3, 0, 4, 5]"
  using concat_and_insert_slices [of 3 1 "[1, 2]" "[3, 4, 5]"] by (simp add: chunks.simps)

section \<open>Replacing a part of the frame\<close>

definition replace_bytes :: "bytes \<Rightarrow> bytes \<Rightarrow> bytes \<Rightarrow> bytes" where
  "replace_bytes original old new =
     (case search_list old original of
        None \<Rightarrow> original
      | Some i \<Rightarrow> if i = length original then original
                  else take i original @ new @ drop (i + length old) original)"

section \<open>Choosing the FEC blocks\<close>

definition DATA_SHARDS_MAX :: nat where "DATA_SHARDS_MAX = 255"
definition MAX_FEC_BLOCKS :: nat where "MAX_FEC_BLOCKS = 4"

definition max_data_shards_per_fec_block :: "nat \<Rightarrow> nat" where
  "max_data_shards_per_fec_block fecPercentage = (DATA_SHARDS_MAX * 100) div (100 + fecPercentage)"

record block_plan =
  bp_fecPercentage :: nat
  bp_fec_blocks_needed :: nat
  bp_aligned_size :: nat

definition plan_blocks :: "nat \<Rightarrow> nat \<Rightarrow> nat \<Rightarrow> block_plan" where
  "plan_blocks fecPercentage blocksize payload_size =
     (let max_data = max_data_shards_per_fec_block fecPercentage * blocksize;
          needed = (payload_size + (max_data - 1)) div max_data;
          (percentage, blocks) = (if MAX_FEC_BLOCKS < needed then (0, MAX_FEC_BLOCKS) else (fecPercentage, needed));
          unaligned_size = payload_size div blocks
      in \<lparr>bp_fecPercentage = percentage, bp_fec_blocks_needed = blocks,
          bp_aligned_size = ((unaligned_size + (blocksize - 1)) div blocksize) * blocksize\<rparr>)"

text \<open>
  The blocks as parts of the frame. \<^verbatim>\<open>substr\<close> throws when the position is past the end,
  which is \<open>None\<close>: nothing catches it here.
\<close>

definition split_blocks :: "block_plan \<Rightarrow> bytes \<Rightarrow> bytes list option" where
  "split_blocks plan payload =
     (let n = bp_fec_blocks_needed plan; aligned = bp_aligned_size plan
      in those (map (\<lambda>x. if length payload < x * aligned then None
           else Some (if x = n - 1 then drop (x * aligned) payload
                      else take aligned (drop (x * aligned) payload))) [0..<n]))"

section \<open>Encoding a block\<close>

record fec =
  fe_data_shards :: nat
  fe_nr_shards :: nat
  fe_percentage :: nat
  fe_shards :: "bytes list"

definition pad_shard :: "nat \<Rightarrow> bytes \<Rightarrow> bytes" where
  "pad_shard blocksize s = s @ replicate (blocksize - length s) 0"

text \<open>
  \<open>rs p data\<close> are the \<open>p\<close> parity shards of the Reed-Solomon coder for the data shards.
  \<^verbatim>\<open>reed_solomon_new\<close> returns a null pointer for more than 255 shards, and for no data or no
  parity, and \<^verbatim>\<open>reed_solomon_encode\<close> is called with it: \<open>None\<close>, as are the divisions by 0.
\<close>

definition fec_encode :: "(nat \<Rightarrow> bytes list \<Rightarrow> bytes list) \<Rightarrow> bytes \<Rightarrow> nat \<Rightarrow> nat \<Rightarrow> nat \<Rightarrow> fec option" where
  "fec_encode rs payload blocksize fecpercentage minparityshards =
     (let pad = length payload mod blocksize \<noteq> 0;
          data_shards = length payload div blocksize + (if pad then 1 else 0);
          parity = (data_shards * fecpercentage + 99) div 100;
          raised = parity < minparityshards \<and> fecpercentage \<noteq> 0;
          parity_shards = (if raised then minparityshards else parity);
          percentage = (if raised then (100 * parity_shards) div data_shards else fecpercentage);
          data = map (pad_shard blocksize) (chunks blocksize payload)
      in if blocksize = 0 \<or> raised \<and> data_shards = 0 then None
         else if percentage = 0
         then Some \<lparr>fe_data_shards = data_shards, fe_nr_shards = data_shards + parity_shards,
                fe_percentage = percentage, fe_shards = data\<rparr>
         else if DATA_SHARDS_MAX < data_shards + parity_shards \<or> data_shards = 0 \<or> parity_shards = 0
         then None
         else Some \<lparr>fe_data_shards = data_shards, fe_nr_shards = data_shards + parity_shards,
                fe_percentage = percentage, fe_shards = data @ rs parity_shards data\<rparr>)"

section \<open>The blocks fit\<close>

lemma those_map_Some: "those (map (\<lambda>x. Some (f x)) xs) = Some (map f xs)"
  by (induction xs) simp_all

lemma concat_substr:
  "concat (map (\<lambda>x. take a (drop (x * a) xs)) [0..<n]) = take (n * a) (xs :: 'a list)"
proof (induction n)
  case (Suc n)
  have "take (Suc n * a) xs = take (n * a) xs @ take a (drop (n * a) xs)"
    by (metis add.commute mult_Suc take_add)
  then show ?case using Suc by simp
qed simp

text \<open>Splitting at multiples of the aligned size, when the last block is not empty.\<close>

lemma split_blocks_parts:
  assumes n: "0 < bp_fec_blocks_needed plan"
    and last: "(bp_fec_blocks_needed plan - 1) * bp_aligned_size plan < length payload"
  shows "split_blocks plan payload = Some
    (map (\<lambda>x. take (bp_aligned_size plan) (drop (x * bp_aligned_size plan) payload))
        [0..<bp_fec_blocks_needed plan - 1] @
      [drop ((bp_fec_blocks_needed plan - 1) * bp_aligned_size plan) payload])"
proof -
  let ?n = "bp_fec_blocks_needed plan" and ?a = "bp_aligned_size plan"
  have "\<not> length payload < x * ?a" if "x < ?n" for x
  proof -
    have "x * ?a \<le> (?n - 1) * ?a" using that by (intro mult_le_mono1) simp
    then show ?thesis using last by linarith
  qed
  then have "split_blocks plan payload = those (map (\<lambda>x. Some (if x = ?n - 1 then drop (x * ?a) payload
      else take ?a (drop (x * ?a) payload))) [0..<?n])"
    unfolding split_blocks_def Let_def by (intro arg_cong [where f = those] map_cong refl) auto
  also note those_map_Some
  also have "[0..<?n] = [0..<?n - 1] @ [?n - 1]"
    using n by (cases ?n) simp_all
  finally show ?thesis by simp
qed

lemma max_data_shards_bounds:
  assumes "fec \<le> 255"
  shows "71 \<le> max_data_shards_per_fec_block fec"
    and "d \<le> max_data_shards_per_fec_block fec \<Longrightarrow> d + (d * fec + 99) div 100 \<le> 255"
proof -
  have "25500 div 355 \<le> 25500 div (100 + fec)" using assms by (intro div_le_mono2) simp_all
  then show "71 \<le> max_data_shards_per_fec_block fec"
    by (simp add: max_data_shards_per_fec_block_def DATA_SHARDS_MAX_def)
  assume "d \<le> max_data_shards_per_fec_block fec"
  then have "d * (100 + fec) \<le> 25500 div (100 + fec) * (100 + fec)"
    by (intro mult_le_mono1) (simp add: max_data_shards_per_fec_block_def DATA_SHARDS_MAX_def)
  also have "\<dots> \<le> 25500" by (rule div_times_less_eq_dividend)
  finally have fit: "d * 100 + d * fec \<le> 25500" by (simp add: add_mult_distrib2)
  then have "d \<le> 255" by linarith
  have "d * fec + 99 \<le> (255 - d) * 100 + 99" using fit by (simp add: diff_mult_distrib)
  then have "(d * fec + 99) div 100 \<le> ((255 - d) * 100 + 99) div 100" by (rule div_le_mono)
  also have "\<dots> = 255 - d" by simp
  finally show "d + (d * fec + 99) div 100 \<le> 255"
    using \<open>d \<le> 255\<close> by linarith
qed

lemma ceil_div_pos: "0 < a \<Longrightarrow> 0 < b \<Longrightarrow> 0 < ceil_div a b"
  by (simp add: ceil_div_step)

lemma plan_blocks_facts:
  fixes len :: nat
  assumes fec: "fec \<le> 255" and b: "0 < blocksize" and len: "0 < len"
  defines "M \<equiv> max_data_shards_per_fec_block fec" and "plan \<equiv> plan_blocks fec blocksize len"
  defines "n \<equiv> bp_fec_blocks_needed plan"
  shows "0 < n" and "n \<le> 4"
    and "(n - 1) * bp_aligned_size plan < len"
    and "bp_fecPercentage plan = (if 4 < ceil_div len (M * blocksize) then 0 else fec)"
    and "ceil_div len (M * blocksize) \<le> 4 \<Longrightarrow> len \<le> n * (M * blocksize)"
    and "bp_aligned_size plan = ceil_div (len div n) blocksize * blocksize"
    and "n \<le> len"
proof -
  let ?need = "ceil_div len (M * blocksize)"
  have M: "71 \<le> M" unfolding M_def by (rule max_data_shards_bounds(1) [OF fec])
  have MB: "0 < M * blocksize" using M b by simp
  have plan: "n = (if 4 < ?need then 4 else ?need)"
      "bp_fecPercentage plan = (if 4 < ?need then 0 else fec)"
      "bp_aligned_size plan = ceil_div (len div n) blocksize * blocksize"
    unfolding plan_def n_def plan_blocks_def Let_def M_def [symmetric]
      ceil_div_rounded [OF MB] ceil_div_rounded [OF b]
    by (simp_all add: MAX_FEC_BLOCKS_def)
  have need: "0 < ?need" by (rule ceil_div_pos [OF len MB])
  show n0: "0 < n" and n4: "n \<le> 4" using need by (simp_all add: plan(1))
  show "bp_fecPercentage plan = (if 4 < ?need then 0 else fec)" by (rule plan(2))
  show "bp_aligned_size plan = ceil_div (len div n) blocksize * blocksize" by (rule plan(3))
  show "?need \<le> 4 \<Longrightarrow> len \<le> n * (M * blocksize)"
    using ceil_div_bounds(1) [OF MB, of len] by (simp add: plan(1))
  have "n * (M * blocksize) \<le> ?need * (M * blocksize)" by (intro mult_le_mono1) (simp add: plan(1))
  also have "\<dots> < len + M * blocksize" by (rule ceil_div_bounds(2) [OF MB])
  finally have big: "n * (M * blocksize) < len + M * blocksize" .
  define mb where "mb = M * blocksize"
  define q where "q = len div n"
  have "71 * blocksize \<le> mb" unfolding mb_def using M by (intro mult_le_mono1)
  moreover have "bp_aligned_size plan < q + blocksize"
    unfolding plan(3) q_def by (rule ceil_div_bounds(2) [OF b])
  moreover have "n * q \<le> len" "len < n * q + n"
    using n0 dividend_less_times_div [of n len] by (simp_all add: q_def)
  moreover have "n = 1 \<or> n = 2 \<or> n = 3 \<or> n = 4" using n0 n4 by linarith
  ultimately show "(n - 1) * bp_aligned_size plan < len" and "n \<le> len"
    using big len b unfolding mb_def [symmetric] by (elim disjE; simp)+
qed

text \<open>The bound on one block, in units of the block size.\<close>

lemma last_block_bound:
  fixes n q B M :: nat
  assumes n: "0 < n" "n \<le> 4" and B: "3 \<le> B" and len: "len \<le> n * (M * B)"
  defines "a \<equiv> ceil_div (len div n) B * B"
  shows "a \<le> M * B" and "len - (n - 1) * a \<le> M * B"
proof -
  have B0: "0 < B" using B by simp
  define q where "q = len div n"
  have q: "n * q \<le> len" "len < n * q + n"
    using n dividend_less_times_div [of n len] by (simp_all add: q_def)
  obtain k where k: "n = Suc k" using n(1) by (cases n) auto
  have "n * q \<le> n * (M * B)" using q(1) len by linarith
  then have "q \<le> M * B" using n(1) mult_le_cancel1 by blast
  then have cM: "ceil_div q B \<le> M" by (rule ceil_div_le [OF B0])
  then show aM: "a \<le> M * B" unfolding a_def q_def by (rule mult_le_mono1)
  have qa: "q \<le> a" unfolding a_def q_def by (rule ceil_div_bounds(1) [OF B0])
  show "len - (n - 1) * a \<le> M * B"
  proof (cases "ceil_div q B = M")
    case True
    then have "a = M * B" by (simp add: a_def q_def)
    then have "len \<le> (n - 1) * a + M * B"
      using len by (simp add: k)
    then show ?thesis by linarith
  next
    case False
    then have "(ceil_div q B + 1) * B \<le> M * B" using cM by (intro mult_le_mono1) simp
    then have "a + B \<le> M * B" by (simp add: a_def q_def)
    moreover have "(n - 1) * q \<le> (n - 1) * a" using qa by (intro mult_le_mono2)
    moreover have "n * q = (n - 1) * q + q" by (simp add: k)
    ultimately show ?thesis using q qa n B by linarith
  qed
qed

lemma plan_split_blocks:
  assumes "fec \<le> 255" and "32 < blocksize" and "payload \<noteq> []"
  defines "plan \<equiv> plan_blocks fec blocksize (length payload)"
  shows "\<exists>blocks. split_blocks plan payload = Some blocks \<and> concat blocks = payload \<and>
    length blocks = bp_fec_blocks_needed plan \<and> 1 \<le> length blocks \<and> length blocks \<le> 4 \<and> (\<forall>b \<in> set blocks. b \<noteq> []) \<and>
    (\<forall>b \<in> set (butlast blocks). blocksize dvd length b) \<and>
    (bp_fecPercentage plan \<noteq> 0 \<longrightarrow> bp_fecPercentage plan = fec \<and>
      (\<forall>b \<in> set blocks. ceil_div (length b) blocksize +
        (ceil_div (length b) blocksize * fec + 99) div 100 \<le> 255))"
proof -
  define n a where "n = bp_fec_blocks_needed plan" and "a = bp_aligned_size plan"
  define M where "M = max_data_shards_per_fec_block fec"
  have len: "0 < length payload" and B: "0 < blocksize" using assms(2,3) by simp_all
  note facts = plan_blocks_facts [OF assms(1) B len, folded plan_def, folded n_def a_def M_def]
  define parts where "parts = map (\<lambda>x. take a (drop (x * a) payload)) [0..<n - 1]"
  define rest where "rest = drop ((n - 1) * a) payload"
  have split: "split_blocks plan payload = Some (parts @ [rest])"
    using split_blocks_parts [of plan payload] facts unfolding n_def a_def parts_def rest_def by blast
  have whole: "concat (parts @ [rest]) = payload"
    unfolding parts_def rest_def concat_append concat_substr by simp
  have size_part: "length b = a" if part: "b \<in> set parts" for b
  proof -
    obtain x where x: "x < n - 1" "b = take a (drop (x * a) payload)"
      using part unfolding parts_def by auto
    have "Suc x * a \<le> (n - 1) * a" using x(1) by (intro mult_le_mono1) simp
    then show ?thesis using facts(3) x(2) by simp
  qed
  have rest: "rest \<noteq> []" "length rest = length payload - (n - 1) * a"
    using facts(3) by (simp_all add: rest_def)
  have "0 < length payload div n" using facts(1,7) by (simp add: div_greater_zero_iff)
  then have a: "0 < a" "blocksize dvd a"
    using B ceil_div_pos [of "length payload div n" blocksize] unfolding facts(6) by simp_all
  have bound: "d + (d * fec + 99) div 100 \<le> 255"
    if "bp_fecPercentage plan \<noteq> 0" and "b \<in> set (parts @ [rest])" and "d = ceil_div (length b) blocksize" for b d
  proof -
    have "length payload \<le> n * (M * blocksize)"
      using that(1) facts(4,5) by (auto split: if_splits)
    from last_block_bound [OF facts(1,2) _ this] assms(2)
    have "a \<le> M * blocksize" "length rest \<le> M * blocksize" by (simp_all add: facts(6) rest(2))
    then have "length b \<le> M * blocksize" using that(2) size_part by auto
    then have "d \<le> M" unfolding that(3) by (rule ceil_div_le [OF B])
    then show ?thesis unfolding M_def by (rule max_data_shards_bounds(2) [OF assms(1)])
  qed
  show ?thesis
  proof (intro exI conjI)
    show "split_blocks plan payload = Some (parts @ [rest])" by (rule split)
    show "length (parts @ [rest]) = bp_fec_blocks_needed plan"
      using facts(1) by (simp add: parts_def n_def [symmetric])
    show "length (parts @ [rest]) \<le> 4" using facts(1,2) by (simp add: parts_def)
    show "\<forall>b \<in> set (parts @ [rest]). b \<noteq> []" using size_part a(1) rest(1) by force
    show "\<forall>b \<in> set (butlast (parts @ [rest])). blocksize dvd length b" using size_part a(2) by simp
    show "bp_fecPercentage plan \<noteq> 0 \<longrightarrow> bp_fecPercentage plan = fec \<and> (\<forall>b \<in> set (parts @ [rest]).
        ceil_div (length b) blocksize + (ceil_div (length b) blocksize * fec + 99) div 100 \<le> 255)"
      using bound facts(4) by auto
  qed (simp_all add: whole [simplified])
qed

text \<open>
  The frame always fits its FEC blocks. Whatever the size of the frame and whatever configured
  percentage up to 255, splitting never reads past the end, gives one to four non-empty blocks that
  concatenate to the frame, and all but the last are whole packets; and unless parity had to be
  turned off, no block needs more than the 255 data and parity shards of the coder.
\<close>

theorem fec_blocks_fit:
  assumes "fec \<le> 255" and "32 < blocksize" and "payload \<noteq> []"
  defines "plan \<equiv> plan_blocks fec blocksize (length payload)"
  shows "\<exists>blocks. split_blocks plan payload = Some blocks \<and> concat blocks = payload \<and>
    1 \<le> length blocks \<and> length blocks \<le> 4 \<and> (\<forall>b \<in> set blocks. b \<noteq> []) \<and>
    (\<forall>b \<in> set (butlast blocks). blocksize dvd length b) \<and>
    (bp_fecPercentage plan \<noteq> 0 \<longrightarrow> bp_fecPercentage plan = fec \<and>
      (\<forall>b \<in> set blocks. ceil_div (length b) blocksize +
        (ceil_div (length b) blocksize * fec + 99) div 100 \<le> 255))"
  using plan_split_blocks [OF assms(1-3), folded plan_def] by blast

theorem fec_blocks_fit_witness:
  "\<exists>blocks. split_blocks (plan_blocks 20 1040 100) (replicate 100 0) = Some blocks \<and>
    concat blocks = replicate 100 0"
  using fec_blocks_fit [of 20 1040 "replicate 100 0"] by auto

section \<open>What the client makes of a block\<close>

text \<open>
  The client (\<^verbatim>\<open>RtpVideoQueue.c\<close>) is only told the data shards and the percentage and
  computes the number of parity shards itself.
\<close>

definition client_parity_packets :: "nat \<Rightarrow> nat \<Rightarrow> nat" where
  "client_parity_packets bufferDataPackets fecPercentage = (bufferDataPackets * fecPercentage + 99) div 100"

lemma client_parity_raised:
  assumes "0 < d" and "d \<le> 100" and "0 < m"
  shows "client_parity_packets d ((100 * m) div d) = m"
proof -
  define p where "p = (100 * m) div d"
  have p: "d * p \<le> 100 * m" "100 * m < d * p + d"
    using assms(1) dividend_less_times_div [of d "100 * m"] by (simp_all add: p_def)
  have "m * 100 \<le> d * p + 99" and "d * p + 99 < Suc m * 100" using p assms(2) by simp_all
  then have "(d * p + 99) div 100 = m" by (intro div_nat_eqI) (simp_all add: mult.commute)
  then show ?thesis by (simp add: client_parity_packets_def p_def)
qed

lemma fec_encode_cases:
  assumes "fec_encode rs payload blocksize fec minparity = Some f"
  defines "d \<equiv> ceil_div (length payload) blocksize"
  shows "0 < blocksize" and "fe_data_shards f = d"
    and "fe_shards f = map (pad_shard blocksize) (chunks blocksize payload) @
      (if fe_percentage f = 0 then []
       else rs (fe_nr_shards f - d) (map (pad_shard blocksize) (chunks blocksize payload)))"
    and "(d * fec + 99) div 100 < minparity \<and> fec \<noteq> 0 \<and> d \<noteq> 0 \<and> fe_nr_shards f = d + minparity \<and>
        fe_percentage f = (100 * minparity) div d \<or>
      \<not> ((d * fec + 99) div 100 < minparity \<and> fec \<noteq> 0) \<and>
        fe_nr_shards f = d + (d * fec + 99) div 100 \<and> fe_percentage f = fec"
    and "fe_percentage f \<noteq> 0 \<Longrightarrow> fe_nr_shards f \<le> 255"
  using assms(1) unfolding fec_encode_def Let_def ceil_div_def [symmetric] d_def [symmetric]
  by (auto simp: DATA_SHARDS_MAX_def split: if_splits)

text \<open>
  The client agrees with the host on where a block ends: the number of parity shards it
  computes from the two numbers in the packet headers is the number the host sends, when no minimum
  of parity packets is in force, and also when it is, for blocks of up to 100 data packets.
\<close>

theorem client_parity_agrees:
  assumes "fec_encode rs payload blocksize fec minparity = Some f" and "payload \<noteq> []"
    and "minparity \<le> (ceil_div (length payload) blocksize * fec + 99) div 100 \<or> fe_data_shards f \<le> 100"
  shows "client_parity_packets (fe_data_shards f) (fe_percentage f) = fe_nr_shards f - fe_data_shards f"
proof -
  define d where "d = ceil_div (length payload) blocksize"
  note facts = fec_encode_cases [OF assms(1), folded d_def]
  have "0 < d" using facts(1) assms(2) by (simp add: d_def ceil_div_pos)
  from facts(4) show ?thesis
  proof (elim disjE conjE)
    assume raised: "(d * fec + 99) div 100 < minparity" and f: "fe_nr_shards f = d + minparity"
      "fe_percentage f = 100 * minparity div d"
    then have "d \<le> 100" using assms(3) facts(2) by (auto simp: d_def [symmetric])
    then show ?thesis using client_parity_raised [of d minparity] \<open>0 < d\<close> raised f facts(2) by simp
  next
    assume "fe_nr_shards f = d + (d * fec + 99) div 100" and "fe_percentage f = fec"
    then show ?thesis using facts(2) by (simp add: client_parity_packets_def)
  qed
qed

theorem client_parity_agrees_witness:
  "\<exists>f. fec_encode (\<lambda>p data. replicate p []) [1, 2, 3] 2 20 2 = Some f \<and>
    client_parity_packets (fe_data_shards f) (fe_percentage f) = 2"
proof -
  let ?f = "the (fec_encode (\<lambda>p data. replicate p []) [1, 2, 3] 2 20 2)"
  have f: "fec_encode (\<lambda>p data. replicate p []) [1, 2, 3] 2 20 2 = Some ?f" by code_simp
  have "fe_data_shards ?f = 2" and "fe_nr_shards ?f = 4" by code_simp+
  then show ?thesis using f client_parity_agrees [OF f] by auto
qed

text \<open>
  Past 100 data packets a minimum of parity packets can break that agreement: the percentage
  is rounded down, and the client computes fewer parity packets than the host sends. With a
  configured percentage of 1 and a minimum of 3, it happens for 199 packets, whatever their size.
\<close>

theorem client_parity_disagrees:
  assumes "0 < blocksize" and "length payload = 199 * blocksize"
  shows "\<exists>f. fec_encode rs payload blocksize 1 3 = Some f \<and> fe_nr_shards f - fe_data_shards f = 3 \<and>
    client_parity_packets (fe_data_shards f) (fe_percentage f) = 2"
proof -
  have "ceil_div (length payload) blocksize = 199" using assms by (simp add: ceil_div_def)
  then show ?thesis
    using assms(1) unfolding fec_encode_def Let_def ceil_div_def [symmetric]
    by (simp add: DATA_SHARDS_MAX_def client_parity_packets_def)
qed

theorem client_parity_disagrees_witness:
  "\<forall>rs. \<exists>f. fec_encode rs (replicate 199 7) 1 1 3 = Some f \<and> fe_nr_shards f - fe_data_shards f = 3 \<and>
    client_parity_packets (fe_data_shards f) (fe_percentage f) = 2"
  by (intro allI client_parity_disagrees) simp_all

text \<open>
  The minimum of parity packets is the client's to choose, and nothing bounds it: a minimum that
  takes a block over 255 shards makes the coder's constructor return a null pointer, which
  \<^verbatim>\<open>fec::encode\<close> then uses.
\<close>

theorem fec_minimum_overflows:
  assumes "0 < fec" and "0 < blocksize" and "payload \<noteq> []"
    and "(ceil_div (length payload) blocksize * fec + 99) div 100 < minparity"
    and "255 < ceil_div (length payload) blocksize + minparity"
    and "ceil_div (length payload) blocksize \<le> 100 * minparity"
  shows "fec_encode rs payload blocksize fec minparity = None"
proof -
  have "0 < ceil_div (length payload) blocksize" using assms(2,3) by (simp add: ceil_div_pos)
  then have "0 < 100 * minparity div ceil_div (length payload) blocksize"
    using assms(6) by (simp add: div_greater_zero_iff)
  then show ?thesis
    using assms(1,2,4,5) unfolding fec_encode_def Let_def ceil_div_def [symmetric]
    by (simp add: DATA_SHARDS_MAX_def)
qed

theorem fec_minimum_overflows_witness: "\<forall>rs. fec_encode rs [1, 2, 3] 1040 20 255 = None"
  by (intro allI fec_minimum_overflows) (simp_all add: ceil_div_def)

end
