(* ===== verification/Stream_Video.thy ===== *)
theory Stream_Video
  imports Stream_Fec
begin

text \<open>
  The video packets of \<^verbatim>\<open>videoBroadcastThread\<close> in \<^verbatim>\<open>src/stream.cpp\<close>, byte for byte: the
  frame header, the fields stamped into every shard, the encryption of a shard, the batches in
  which the shards are sent, and what the client reads from a packet. Clock and
  timestamp are inputs; the rate control, which only delays the batches, is modelled on its own.
\<close>

unbundle bit_operations_syntax

section \<open>The frame header\<close>

text \<open>Sizes of the packed structs, in bytes.\<close>

definition SIZEOF_NV_VIDEO_PACKET :: nat where "SIZEOF_NV_VIDEO_PACKET = 16"
definition SIZEOF_VIDEO_PACKET_RAW :: nat where "SIZEOF_VIDEO_PACKET_RAW = 32"
definition MAX_RTP_HEADER_SIZE :: nat where "MAX_RTP_HEADER_SIZE = 16"

lemmas video_sizes = SIZEOF_NV_VIDEO_PACKET_def SIZEOF_VIDEO_PACKET_RAW_def MAX_RTP_HEADER_SIZE_def

text \<open>Subtraction on \<^verbatim>\<open>size_t\<close> wraps.\<close>

definition size_sub :: "nat \<Rightarrow> nat \<Rightarrow> nat" where
  "size_sub a b = (a + 2 ^ 64 - b) mod 2 ^ 64"

lemma size_sub_eq: "b \<le> a \<Longrightarrow> a < 2 ^ 64 \<Longrightarrow> size_sub a b = a - b"
proof -
  assume b: "b \<le> a" and a: "a < 2 ^ 64"
  have "a + 2 ^ 64 - b = (a - b) + 2 ^ 64" by (rule Nat.diff_add_assoc2 [OF b])
  moreover have "(a - b) mod 2 ^ 64 = a - b" by (rule mod_less) (use a in linarith)
  ultimately show ?thesis by (simp only: size_sub_def mod_add_self2)
qed

record video_frame =
  vf_data :: bytes
  vf_is_idr :: bool
  vf_after_ref_frame_invalidation :: bool
  vf_frame_index :: u32
  vf_replacements :: "(bytes \<times> bytes) list option"
  vf_duration_us :: "int option"
  vf_timestamp :: u32

text \<open>\<^verbatim>\<open>duration_to_latency\<close>: tenths of a millisecond, clamped to 16 bits.\<close>

definition duration_to_latency :: "int \<Rightarrow> u16" where
  "duration_to_latency duration_us = word_of_int (max 0 (min 65535 (cxx_div (duration_us + 50) 100)))"

definition frame_type :: "video_frame \<Rightarrow> u8" where
  "frame_type f = (if vf_is_idr f then 2 else if vf_after_ref_frame_invalidation f then 5 else 1)"

text \<open>The remainder traps on 0.\<close>

definition last_payload_len :: "nat \<Rightarrow> nat \<Rightarrow> nat option" where
  "last_payload_len packetsize payload_size =
     (let m = size_sub packetsize SIZEOF_NV_VIDEO_PACKET
      in if m = 0 then None
         else Some (if (payload_size + 8) mod m = 0 then m else (payload_size + 8) mod m))"

definition frame_header_bytes :: "video_frame \<Rightarrow> nat \<Rightarrow> bytes" where
  "frame_header_bytes f lastPayloadLen =
     [0x01] @ le_bytes 2 (case vf_duration_us f of None \<Rightarrow> 0 | Some d \<Rightarrow> duration_to_latency d) @
     [frame_type f] @ le_bytes 2 (of_nat lastPayloadLen :: u16) @ [0, 0]"

definition frame_payload :: "video_frame \<Rightarrow> bytes" where
  "frame_payload f =
     (if vf_is_idr f
      then (case vf_replacements f of
          None \<Rightarrow> vf_data f
        | Some rs \<Rightarrow> fold (\<lambda>(old, new) payload. replace_bytes payload old new) rs (vf_data f))
      else vf_data f)"

text \<open>The whole frame, with the space for the packet headers.\<close>

definition frame_buffer :: "nat \<Rightarrow> video_frame \<Rightarrow> bytes option" where
  "frame_buffer packetsize f =
     (let payload = frame_payload f
      in case last_payload_len packetsize (length payload) of
           None \<Rightarrow> None
         | Some n \<Rightarrow> concat_and_insert SIZEOF_VIDEO_PACKET_RAW
             (size_sub (packetsize + MAX_RTP_HEADER_SIZE) SIZEOF_VIDEO_PACKET_RAW)
             (frame_header_bytes f n) payload)"

section \<open>Stamping the packets\<close>

text \<open>
  The offsets are those of \<^verbatim>\<open>video_packet_raw_t\<close>: the RTP header at 0, four reserved bytes at
  12 and the \<^verbatim>\<open>NV_VIDEO_PACKET\<close> at 16.
\<close>

definition FLAG_CONTAINS_PIC_DATA :: u8 where "FLAG_CONTAINS_PIC_DATA = 0x1"
definition FLAG_EOF :: u8 where "FLAG_EOF = 0x2"
definition FLAG_SOF :: u8 where "FLAG_SOF = 0x4"
definition FLAG_EXTENSION :: u8 where "FLAG_EXTENSION = 0x10"

definition multi_fec_blocks :: "nat \<Rightarrow> nat \<Rightarrow> u8" where
  "multi_fec_blocks blockIndex fec_blocks_needed =
     push_bit 4 (of_nat blockIndex) OR push_bit 6 (of_nat (fec_blocks_needed - 1))"

definition stamp_data :: "u32 \<Rightarrow> u32 \<Rightarrow> nat \<Rightarrow> nat \<Rightarrow> nat \<Rightarrow> nat \<Rightarrow> bytes \<Rightarrow> bytes" where
  "stamp_data lowseq frameIndex blockIndex fec_blocks_needed packets x p =
     (let flags = FLAG_CONTAINS_PIC_DATA OR (if x = 0 then FLAG_SOF else 0)
            OR (if x = packets - 1 then FLAG_EOF else 0)
      in write_at 24 [flags]
        (write_at 27 [multi_fec_blocks blockIndex fec_blocks_needed]
        (write_at 26 [0x10]
        (write_at 16 (le_bytes 4 (push_bit 8 (lowseq + of_nat x)))
        (write_at 20 (le_bytes 4 frameIndex) p)))))"

text \<open>The first loop: the data packets of a block, before parity is computed.\<close>

definition stamp_block :: "u32 \<Rightarrow> u32 \<Rightarrow> nat \<Rightarrow> nat \<Rightarrow> nat \<Rightarrow> bytes \<Rightarrow> bytes" where
  "stamp_block lowseq frameIndex blockIndex fec_blocks_needed blocksize current_payload =
     (let packets = (length current_payload + (blocksize - 1)) div blocksize
      in concat (map (\<lambda>(x, p). stamp_data lowseq frameIndex blockIndex fec_blocks_needed packets x p)
           (enumerate 0 (chunks blocksize current_payload))))"

definition fec_info :: "nat \<Rightarrow> fec \<Rightarrow> u32" where
  "fec_info x shards = push_bit 12 (of_nat x) OR push_bit 22 (of_nat (fe_data_shards shards))
     OR push_bit 4 (of_nat (fe_percentage shards))"

text \<open>The second loop: every shard, just before it is sent.\<close>

definition stamp_shard :: "u32 \<Rightarrow> u32 \<Rightarrow> u32 \<Rightarrow> nat \<Rightarrow> nat \<Rightarrow> fec \<Rightarrow> nat \<Rightarrow> bytes \<Rightarrow> bytes" where
  "stamp_shard lowseq frameIndex timestamp blockIndex fec_blocks_needed shards x p =
     write_at 20 (le_bytes 4 frameIndex)
    (write_at 27 [multi_fec_blocks blockIndex fec_blocks_needed]
    (write_at 4 (be_bytes 4 timestamp)
    (write_at 2 (be_bytes 2 (ucast (lowseq + of_nat x) :: u16))
    (write_at 0 [0x80 OR FLAG_EXTENSION]
    (write_at 28 (le_bytes 4 (fec_info x shards)) p)))))"

section \<open>Encryption\<close>

text \<open>The 12 bytes of the initialisation vector: the counter, three zero bytes, \<^verbatim>\<open>'V'\<close>.\<close>

definition video_iv :: "u64 \<Rightarrow> bytes" where
  "video_iv counter = le_bytes 8 counter @ [0, 0, 0] @ [0x56]"

record sent_packet =
  sp_prefix :: bytes
  sp_data :: bytes

text \<open>
  \<open>gcm\<close> is the session's cipher, from the vector and the plaintext to the ciphertext and the tag;
  \<open>None\<close> when the stream is not encrypted.
\<close>

type_synonym gcm_fun = "bytes \<Rightarrow> bytes \<Rightarrow> bytes \<times> bytes"

definition seal_shard :: "gcm_fun option \<Rightarrow> u64 \<Rightarrow> u32 \<Rightarrow> bytes \<Rightarrow> sent_packet \<times> u64" where
  "seal_shard gcm counter frameIndex p =
     (case gcm of
        None \<Rightarrow> (\<lparr>sp_prefix = [], sp_data = p\<rparr>, counter)
      | Some enc \<Rightarrow>
          (case enc (video_iv counter) p of (cipher, tag) \<Rightarrow>
             (\<lparr>sp_prefix = video_iv counter @ le_bytes 4 frameIndex @ tag, sp_data = cipher\<rparr>, counter + 1)))"

fun seal_shards :: "gcm_fun option \<Rightarrow> u64 \<Rightarrow> u32 \<Rightarrow> bytes list \<Rightarrow> sent_packet list \<times> u64" where
  "seal_shards gcm counter frameIndex [] = ([], counter)"
| "seal_shards gcm counter frameIndex (p # ps) =
     (let (q, counter) = seal_shard gcm counter frameIndex p;
          (qs, counter) = seal_shards gcm counter frameIndex ps
      in (q # qs, counter))"

section \<open>Sending a frame\<close>

record video_channel =
  vc_packetsize :: nat
  vc_minRequiredFecPackets :: nat
  vc_lowseq :: u32
  vc_gcm_iv_counter :: u64

text \<open>
  One FEC block: stamped, encoded, stamped again, sealed. \<open>None\<close> is the use of the null pointer
  in \<^verbatim>\<open>fec::encode\<close>.
\<close>

definition send_block :: "(nat \<Rightarrow> bytes list \<Rightarrow> bytes list) \<Rightarrow> gcm_fun option \<Rightarrow> video_frame
    \<Rightarrow> block_plan \<Rightarrow> nat \<Rightarrow> bytes \<Rightarrow> video_channel \<Rightarrow> (sent_packet list \<times> video_channel) option" where
  "send_block rs gcm f plan blockIndex current_payload ch =
     (let blocksize = vc_packetsize ch + MAX_RTP_HEADER_SIZE; n = bp_fec_blocks_needed plan;
          stamped = stamp_block (vc_lowseq ch) (vf_frame_index f) blockIndex n blocksize current_payload
      in case fec_encode rs stamped blocksize (bp_fecPercentage plan) (vc_minRequiredFecPackets ch) of
           None \<Rightarrow> None
         | Some shards \<Rightarrow>
             let ready = map (\<lambda>(x, p). stamp_shard (vc_lowseq ch) (vf_frame_index f) (vf_timestamp f)
                   blockIndex n shards x p) (enumerate 0 (fe_shards shards));
                 (out, counter) = seal_shards gcm (vc_gcm_iv_counter ch) (vf_frame_index f) ready
             in Some (out, ch\<lparr>vc_lowseq := vc_lowseq ch + of_nat (fe_nr_shards shards),
                  vc_gcm_iv_counter := counter\<rparr>))"

fun send_blocks :: "(nat \<Rightarrow> bytes list \<Rightarrow> bytes list) \<Rightarrow> gcm_fun option \<Rightarrow> video_frame \<Rightarrow> block_plan
    \<Rightarrow> nat \<Rightarrow> bytes list \<Rightarrow> video_channel \<Rightarrow> (sent_packet list \<times> video_channel) option" where
  "send_blocks rs gcm f plan blockIndex [] ch = Some ([], ch)"
| "send_blocks rs gcm f plan blockIndex (b # bs) ch =
     (case send_block rs gcm f plan blockIndex b ch of
        None \<Rightarrow> None
      | Some (out, ch) \<Rightarrow>
          (case send_blocks rs gcm f plan (Suc blockIndex) bs ch of
             None \<Rightarrow> None
           | Some (out', ch) \<Rightarrow> Some (out @ out', ch)))"

definition send_frame :: "(nat \<Rightarrow> bytes list \<Rightarrow> bytes list) \<Rightarrow> gcm_fun option \<Rightarrow> nat \<Rightarrow> video_frame
    \<Rightarrow> video_channel \<Rightarrow> (sent_packet list \<times> video_channel) option" where
  "send_frame rs gcm fec_percentage f ch =
     (case frame_buffer (vc_packetsize ch) f of
        None \<Rightarrow> None
      | Some payload \<Rightarrow>
          let plan = plan_blocks fec_percentage (vc_packetsize ch + MAX_RTP_HEADER_SIZE) (length payload)
          in case split_blocks plan payload of
               None \<Rightarrow> None
             | Some blocks \<Rightarrow> send_blocks rs gcm f plan 0 blocks ch)"

text \<open>
  The batches handed to \<^verbatim>\<open>platf::send_batch\<close>, as offset and count: \<open>x\<close> is the shard of the
  loop, \<open>next\<close> the first that is not sent yet.
\<close>

fun batch_loop :: "nat \<Rightarrow> nat \<Rightarrow> nat \<Rightarrow> nat \<Rightarrow> nat \<Rightarrow> (nat \<times> nat) list" where
  "batch_loop shards send_batch_size 0 x next_shard = []"
| "batch_loop shards send_batch_size (Suc k) x next_shard =
     (if send_batch_size \<le> x - next_shard + 1 \<or> x + 1 = shards
      then (next_shard, x - next_shard + 1) # batch_loop shards send_batch_size k (Suc x) (Suc x)
      else batch_loop shards send_batch_size k (Suc x) next_shard)"

definition send_batches :: "nat \<Rightarrow> nat \<Rightarrow> (nat \<times> nat) list" where
  "send_batches blocksize shards =
     batch_loop shards (min 64 ((64 * 1024) div blocksize)) shards 0 0"

section \<open>What the client reads\<close>

text \<open>The fields \<^verbatim>\<open>RtpVideoQueue.c\<close> takes from a packet.\<close>

record client_fields =
  cv_sequenceNumber :: u16
  cv_bufferLowestSequenceNumber :: u16
  cv_fecIndex :: u32
  cv_bufferDataPackets :: u32
  cv_fecPercentage :: u32
  cv_fecCurrentBlockNumber :: u8
  cv_multiFecLastBlockNumber :: u8
  cv_frameIndex :: u32

definition client_view :: "bytes \<Rightarrow> client_fields" where
  "client_view p =
     (let sequenceNumber = be_value (read_at 2 2 p); fecInfo = le_value (read_at 28 4 p) :: u32;
          multiFecBlocks = le_value (read_at 27 1 p) :: u8;
          fecIndex = drop_bit 12 (fecInfo AND 0x3FF000)
      in \<lparr>cv_sequenceNumber = sequenceNumber,
          cv_bufferLowestSequenceNumber = sequenceNumber - ucast fecIndex,
          cv_fecIndex = fecIndex,
          cv_bufferDataPackets = drop_bit 22 (fecInfo AND 0xFFC00000),
          cv_fecPercentage = drop_bit 4 (fecInfo AND 0xFF0),
          cv_fecCurrentBlockNumber = drop_bit 4 multiFecBlocks AND 0x3,
          cv_multiFecLastBlockNumber = drop_bit 6 multiFecBlocks AND 0x3,
          cv_frameIndex = le_value (read_at 20 4 p)\<rparr>)"

lemma fec_info_fields:
  fixes a b c :: u32
  assumes a: "\<And>n. bit a n \<Longrightarrow> n < 10" and b: "\<And>n. bit b n \<Longrightarrow> n < 10" and c: "\<And>n. bit c n \<Longrightarrow> n < 8"
  shows "drop_bit 12 ((push_bit 12 a OR push_bit 22 b OR push_bit 4 c) AND 0x3FF000) = a"
    and "drop_bit 22 ((push_bit 12 a OR push_bit 22 b OR push_bit 4 c) AND 0xFFC00000) = b"
    and "drop_bit 4 ((push_bit 12 a OR push_bit 22 b OR push_bit 4 c) AND 0xFF0) = c"
proof -
  have m: "0x3FF000 = push_bit 12 (mask 10 :: u32)" "0xFFC00000 = push_bit 22 (mask 10 :: u32)"
    "0xFF0 = push_bit 4 (mask 8 :: u32)"
    by (simp_all add: mask_eq_exp_minus_1)
  show "drop_bit 12 ((push_bit 12 a OR push_bit 22 b OR push_bit 4 c) AND 0x3FF000) = a"
    unfolding m by (rule bit_word_eqI) (auto simp: bit_simps dest: a b c)
  show "drop_bit 22 ((push_bit 12 a OR push_bit 22 b OR push_bit 4 c) AND 0xFFC00000) = b"
    unfolding m by (rule bit_word_eqI) (auto simp: bit_simps dest: a b c)
  show "drop_bit 4 ((push_bit 12 a OR push_bit 22 b OR push_bit 4 c) AND 0xFF0) = c"
    unfolding m by (rule bit_word_eqI) (auto simp: bit_simps dest: a b c)
qed

lemma multi_fec_fields:
  fixes a b :: u8
  assumes a: "\<And>n. bit a n \<Longrightarrow> n < 2" and b: "\<And>n. bit b n \<Longrightarrow> n < 2"
  shows "drop_bit 4 (push_bit 4 a OR push_bit 6 b) AND 0x3 = a"
    and "drop_bit 6 (push_bit 4 a OR push_bit 6 b) AND 0x3 = b"
proof -
  have m: "0x3 = (mask 2 :: u8)" by (simp add: mask_eq_exp_minus_1)
  show "drop_bit 4 (push_bit 4 a OR push_bit 6 b) AND 0x3 = a"
    unfolding m by (rule bit_word_eqI) (auto simp: bit_simps dest: a b)
  show "drop_bit 6 (push_bit 4 a OR push_bit 6 b) AND 0x3 = b"
    unfolding m by (rule bit_word_eqI) (auto simp: bit_simps dest: a b)
qed

lemma bit_of_nat_less: "x < 2 ^ k \<Longrightarrow> bit (of_nat x :: 'w :: len word) n \<Longrightarrow> n < k"
  by (metis bit_nat_iff bit_of_nat_iff bit_take_bit_iff take_bit_nat_eq_self)

lemma ucast_add_u16: "(ucast (a + b :: u32) :: u16) = ucast a + ucast b"
proof -
  have "(word_of_int (take_bit 32 k) :: u16) = word_of_int k" for k
    by transfer simp
  then show ?thesis by (simp only: ucast_eq uint_word_arith_bintrs of_int_add) simp
qed

lemma stamp_shard_length [simp]:
  "32 \<le> length p \<Longrightarrow> length (stamp_shard lowseq fi ts i n shards x p) = length p"
  by (simp add: stamp_shard_def)

lemma client_view_stamp:
  assumes "32 \<le> length p" and x: "x < 1024" and d: "fe_data_shards shards < 1024"
    and perc: "fe_percentage shards < 256" and i: "i < n" "n \<le> 4"
  shows "client_view (stamp_shard lowseq fi ts i n shards x p) =
    \<lparr>cv_sequenceNumber = ucast (lowseq + of_nat x), cv_bufferLowestSequenceNumber = ucast lowseq,
     cv_fecIndex = of_nat x, cv_bufferDataPackets = of_nat (fe_data_shards shards),
     cv_fecPercentage = of_nat (fe_percentage shards), cv_fecCurrentBlockNumber = of_nat i,
     cv_multiFecLastBlockNumber = of_nat (n - 1), cv_frameIndex = fi\<rparr>"
proof -
  let ?p = "stamp_shard lowseq fi ts i n shards x p"
  have reads: "read_at 2 2 ?p = be_bytes 2 (ucast (lowseq + of_nat x) :: u16)"
      "read_at 28 4 ?p = le_bytes 4 (fec_info x shards)"
      "read_at 27 1 ?p = [multi_fec_blocks i n]" "read_at 20 4 ?p = le_bytes 4 fi"
    using assms(1) by (simp_all add: stamp_shard_def read_write_same read_write_other)
  have fec: "bit (of_nat x :: u32) k \<Longrightarrow> k < 10" "bit (of_nat (fe_data_shards shards) :: u32) k \<Longrightarrow> k < 10"
      "bit (of_nat (fe_percentage shards) :: u32) k \<Longrightarrow> k < 8" for k
    using x d perc bit_of_nat_less [of x 10] bit_of_nat_less [of "fe_data_shards shards" 10]
      bit_of_nat_less [of "fe_percentage shards" 8] by simp_all
  have "i < 2 ^ 2" "n - 1 < 2 ^ 2" using i by simp_all
  note blocks = this [THEN bit_of_nat_less]
  have v: "be_value (read_at 2 2 ?p) = (ucast (lowseq + of_nat x) :: u16)"
      "le_value (read_at 28 4 ?p) = fec_info x shards"
      "le_value (read_at 27 1 ?p) = multi_fec_blocks i n" "le_value (read_at 20 4 ?p) = fi"
    unfolding reads by simp_all
  have fields: "drop_bit 12 (fec_info x shards AND 0x3FF000) = of_nat x"
      "drop_bit 22 (fec_info x shards AND 0xFFC00000) = of_nat (fe_data_shards shards)"
      "drop_bit 4 (fec_info x shards AND 0xFF0) = of_nat (fe_percentage shards)"
    unfolding fec_info_def by (rule fec_info_fields; erule fec)+
  have block_fields: "drop_bit 4 (multi_fec_blocks i n) AND 0x3 = of_nat i"
      "drop_bit 6 (multi_fec_blocks i n) AND 0x3 = of_nat (n - 1)"
    unfolding multi_fec_blocks_def by (rule multi_fec_fields; erule blocks)+
  show ?thesis
    unfolding client_view_def v Let_def fields block_fields ucast_add_u16 add_diff_cancel_right' ..
qed

section \<open>From the frame to the packets\<close>

lemma chunks_append:
  assumes "0 < n" and "n dvd length xs"
  shows "chunks n (xs @ ys) = chunks n xs @ chunks n ys"
  using assms
proof (induction n xs rule: chunks.induct)
  case (1 n xs)
  show ?case
  proof (cases "xs = []")
    case False
    then have "n \<le> length xs" using 1(2,3) dvd_imp_le by auto
    moreover from this have "n dvd length (drop n xs)" using 1(3) by simp
    ultimately show ?thesis
      using 1 False by (simp add: chunks_step [of n "xs @ ys"] chunks_step [of n xs])
  qed simp
qed

lemma chunks_concat:
  "0 < n \<Longrightarrow> \<forall>b \<in> set (butlast bs). n dvd length b \<Longrightarrow> chunks n (concat bs) = concat (map (chunks n) bs)"
proof (induction bs)
  case (Cons b bs)
  then show ?case by (cases "bs = []") (auto simp: chunks_append)
qed simp

text \<open>Lists that are slices already: whole ones, and a last one that may be shorter.\<close>

fun sliced :: "nat \<Rightarrow> 'a list list \<Rightarrow> bool" where
  "sliced n [] = True"
| "sliced n [c] = (0 < length c \<and> length c \<le> n)"
| "sliced n (c # cs) = (length c = n \<and> sliced n cs)"

lemma sliced_Cons: "sliced n (c # cs) \<longleftrightarrow> (if cs = [] then 0 < length c \<and> length c \<le> n else length c = n \<and> sliced n cs)"
  by (cases cs) simp_all

lemma sliced_chunks: "0 < n \<Longrightarrow> sliced n (chunks n xs)"
proof (induction n xs rule: chunks.induct)
  case (1 n xs)
  show ?case
  proof (cases "xs = []")
    case False
    have "chunks n (drop n xs) = [] \<longleftrightarrow> length xs \<le> n"
      using 1(2) by (simp add: chunks.simps [of n "drop n xs"])
    then show ?thesis using 1 False by (auto simp: chunks_step [of n xs] sliced_Cons)
  qed simp
qed

lemma chunks_sliced: "0 < n \<Longrightarrow> sliced n cs \<Longrightarrow> chunks n (concat cs) = cs"
proof (induction cs)
  case (Cons c cs)
  show ?case
  proof (cases "cs = []")
    case True
    then have "c \<noteq> []" "length c \<le> n" using Cons.prems by (auto simp: sliced_Cons)
    then show ?thesis using True Cons.prems(1) by (simp add: chunks_step)
  next
    case False
    then have "length c = n" "sliced n cs" using Cons.prems by (auto simp: sliced_Cons)
    then have "chunks n (c @ concat cs) = chunks n c @ cs"
      using Cons by (simp add: chunks_append)
    moreover have "chunks n c = [c]"
      using \<open>length c = n\<close> Cons.prems(1) by (subst chunks_step) auto
    ultimately show ?thesis by simp
  qed
qed simp

lemma sliced_map:
  "sliced n cs \<Longrightarrow> (\<And>c. c \<in> set cs \<Longrightarrow> length (f c) = h + length c) \<Longrightarrow> sliced (h + n) (map f cs)"
  by (induction cs) (auto simp: sliced_Cons)

lemma chunks_slices:
  assumes "0 < p"
  shows "chunks (h + p) (concat (map (\<lambda>s. replicate h z @ s) (chunks p xs))) =
    map (\<lambda>s. replicate h z @ s) (chunks p xs)"
  by (rule chunks_sliced) (use assms sliced_chunks sliced_map [of p _ "\<lambda>s. replicate h z @ s" h] in auto)

lemma chunks_lengths: "0 < n \<Longrightarrow> c \<in> set (chunks n xs) \<Longrightarrow> 0 < length c \<and> length c \<le> n"
proof (induction n xs rule: chunks.induct)
  case (1 n xs)
  then show ?case by (cases "xs = []") (auto simp: chunks_step [of n xs])
qed

lemma seal_plain [simp]:
  "seal_shards None counter fi ps = (map (\<lambda>p. \<lparr>sp_prefix = [], sp_data = p\<rparr>) ps, counter)"
  by (induction ps) (simp_all add: seal_shard_def Let_def)

lemma stamp_data_keeps:
  assumes "32 \<le> length p"
  shows "length (stamp_data lowseq fi i n k x p) = length p"
    and "drop 32 (stamp_data lowseq fi i n k x p) = drop 32 p"
  using assms by (simp_all add: stamp_data_def Let_def write_at_def)

lemma stamp_shard_keeps:
  "32 \<le> length p \<Longrightarrow> drop 32 (stamp_shard lowseq fi ts i n shards x p) = drop 32 p"
  by (simp add: stamp_shard_def write_at_def)

lemma sliced_map2:
  "sliced n cs \<Longrightarrow> length ds = length cs \<Longrightarrow> (\<And>i. i < length cs \<Longrightarrow> length (ds ! i) = length (cs ! i)) \<Longrightarrow>
    sliced n ds"
proof (induction cs arbitrary: ds)
  case (Cons c cs)
  then obtain d ds' where ds: "ds = d # ds'" by (cases ds) auto
  have "length d = length c" using Cons.prems(3) [of 0] ds by simp
  moreover have "sliced n ds'" if "cs \<noteq> []"
    using Cons.prems that ds Cons.prems(3) [of "Suc i" for i]
    by (intro Cons.IH) (auto simp: sliced_Cons)
  ultimately show ?case using Cons.prems(1,2) ds by (cases "cs = []") (auto simp: sliced_Cons)
qed simp

lemma nth_enumerate_map:
  "i < length xs \<Longrightarrow> map (\<lambda>(x, p). f x p) (enumerate 0 xs) ! i = f i (xs ! i)"
  by (simp add: nth_enumerate_eq)

lemma chunks_stamp_block:
  assumes B: "0 < blocksize" and long: "\<forall>c \<in> set (chunks blocksize block). 32 \<le> length c"
  defines "cs \<equiv> chunks blocksize block"
  shows "chunks blocksize (stamp_block lowseq fi i n blocksize block) =
    map (\<lambda>(x, p). stamp_data lowseq fi i n (length cs) x p) (enumerate 0 cs)"
proof -
  have packets: "(length block + (blocksize - 1)) div blocksize = length cs"
    unfolding cs_def ceil_div_rounded [OF B] length_chunks [OF B] ..
  have "sliced blocksize (map (\<lambda>(x, p). stamp_data lowseq fi i n (length cs) x p) (enumerate 0 cs))"
    by (rule sliced_map2 [of _ cs])
      (use sliced_chunks [OF B] long in \<open>auto simp: cs_def nth_enumerate_eq stamp_data_keeps\<close>)
  then show ?thesis
    unfolding stamp_block_def Let_def packets cs_def [symmetric] by (rule chunks_sliced [OF B])
qed

lemma length_stamp_block:
  assumes B: "0 < blocksize" and long: "\<forall>c \<in> set (chunks blocksize block). 32 \<le> length c"
  shows "ceil_div (length (stamp_block lowseq fi i n blocksize block)) blocksize = ceil_div (length block) blocksize"
  using arg_cong [OF chunks_stamp_block [OF assms], of length]
  by (simp add: length_chunks [OF B])

text \<open>
  What a block of packets must be for the client: numbered from \<open>lowseq\<close>, the client finds the
  same bounds in every packet, and the data packets carry the slices, padded with zeros.
\<close>

definition block_ok :: "nat \<Rightarrow> u32 \<Rightarrow> u32 \<Rightarrow> nat \<Rightarrow> nat \<Rightarrow> bytes list \<Rightarrow> sent_packet list \<Rightarrow> bool" where
  "block_ok psize lowseq frameIndex i n slices out \<longleftrightarrow>
     (\<exists>percentage. length slices < 1024 \<and> percentage < 256 \<and>
       length out = length slices + client_parity_packets (length slices) percentage \<and>
       (\<forall>x < length out. client_view (sp_data (out ! x)) =
          \<lparr>cv_sequenceNumber = ucast (lowseq + of_nat x), cv_bufferLowestSequenceNumber = ucast lowseq,
           cv_fecIndex = of_nat x, cv_bufferDataPackets = of_nat (length slices),
           cv_fecPercentage = of_nat percentage, cv_fecCurrentBlockNumber = of_nat i,
           cv_multiFecLastBlockNumber = of_nat (n - 1), cv_frameIndex = frameIndex\<rparr>) \<and>
       (\<forall>x < length slices. drop SIZEOF_VIDEO_PACKET_RAW (sp_data (out ! x)) = pad_shard psize (slices ! x)))"

fun blocks_ok :: "nat \<Rightarrow> u32 \<Rightarrow> u32 \<Rightarrow> nat \<Rightarrow> nat \<Rightarrow> bytes list list \<Rightarrow> sent_packet list list \<Rightarrow> bool" where
  "blocks_ok psize lowseq frameIndex i n [] [] = True"
| "blocks_ok psize lowseq frameIndex i n (s # ss) (out # outs) =
     (block_ok psize lowseq frameIndex i n s out \<and>
      blocks_ok psize (lowseq + of_nat (length out)) frameIndex (Suc i) n ss outs)"
| "blocks_ok psize lowseq frameIndex i n _ _ = False"

text \<open>The coder gives the parity shards it was asked for, each of the psize of a block.\<close>

definition coder_ok :: "nat \<Rightarrow> (nat \<Rightarrow> bytes list \<Rightarrow> bytes list) \<Rightarrow> bool" where
  "coder_ok blocksize rs \<longleftrightarrow> (\<forall>p data. length (rs p data) = p \<and> (\<forall>s \<in> set (rs p data). length s = blocksize))"

lemma drop_pad_shard: "k \<le> length s \<Longrightarrow> drop k (pad_shard n s) = pad_shard (n - k) (drop k s)"
  by (simp add: pad_shard_def)

text \<open>The numbers of a block: what \<^verbatim>\<open>fec::encode\<close> sends and what the client expects agree.\<close>

lemma fec_encode_numbers:
  fixes stamped :: bytes and blocksize :: nat
  defines "d \<equiv> ceil_div (length stamped) blocksize"
    and "data \<equiv> map (pad_shard blocksize) (chunks blocksize stamped)"
  assumes B0: "0 < blocksize" and d0: "0 < d" and d: "d \<le> 1000"
    and fit: "fecp \<noteq> 0 \<Longrightarrow> d + (d * fecp + 99) div 100 \<le> 255" and min: "m \<le> 2" and fec: "fecp \<le> 255"
  shows "\<exists>p perc. fec_encode rs stamped blocksize fecp m = Some \<lparr>fe_data_shards = d, fe_nr_shards = d + p,
      fe_percentage = perc, fe_shards = data @ (if perc = 0 then [] else rs p data)\<rparr> \<and>
    perc < 256 \<and> client_parity_packets d perc = p \<and> d + p < 1024 \<and> (perc = 0 \<longrightarrow> p = 0)"
proof -
  define par where "par = (d * fecp + 99) div 100"
  define p where "p = (if par < m \<and> fecp \<noteq> 0 then m else par)"
  define perc where "perc = (if par < m \<and> fecp \<noteq> 0 then 100 * m div d else fecp)"
  have par1: "1 \<le> par" if "fecp \<noteq> 0"
  proof -
    have "0 < d * fecp" using d0 that by simp
    then have "100 div 100 \<le> par" unfolding par_def by (intro div_le_mono) linarith
    then show ?thesis by simp
  qed
  have raised: "d \<le> 100 \<and> p = 2 \<and> perc = 200 div d \<and> 2 \<le> perc \<and> perc \<le> 200"
    if "par < m" "fecp \<noteq> 0"
  proof -
    have m: "m = 2" and "par < 2" using that(1) min par1 [OF that(2)] by simp_all
    then have "d * fecp + 99 < 200"
      unfolding par_def by (simp only: less_mult_imp_div_less div_less_iff_less_mult)
    then have "d * fecp \<le> 100" by simp
    moreover have "d * 1 \<le> d * fecp" using that(2) by (intro mult_le_mono2) simp
    ultimately have "d \<le> 100" by linarith
    moreover have "200 div 100 \<le> 200 div d" using \<open>d \<le> 100\<close> d0 by (intro div_le_mono2)
    moreover have "200 div d \<le> 200" by simp
    ultimately show ?thesis using that m by (simp add: p_def perc_def)
  qed
  have perc: "perc < 256" and perc0: "perc = 0 \<longleftrightarrow> fecp = 0"
    and parity: "client_parity_packets d perc = p"
    using raised fec d0 client_parity_raised [of d 2]
    by (cases "par < m \<and> fecp \<noteq> 0";
        auto simp: perc_def p_def par_def client_parity_packets_def)+
  have total: "perc \<noteq> 0 \<Longrightarrow> d + p \<le> 255" and none: "perc = 0 \<Longrightarrow> p = 0" and "perc \<noteq> 0 \<Longrightarrow> 0 < p"
    using raised fit [folded par_def] perc0 d0 par1 by (auto simp: p_def par_def)
  have perc_eq: "(if par < m \<and> fecp \<noteq> 0 then 100 * p div d else fecp) = perc"
    by (simp add: p_def perc_def)
  have "fec_encode rs stamped blocksize fecp m = Some \<lparr>fe_data_shards = d, fe_nr_shards = d + p,
      fe_percentage = perc, fe_shards = data @ (if perc = 0 then [] else rs p data)\<rparr>"
    using total none d0 B0 \<open>perc \<noteq> 0 \<Longrightarrow> 0 < p\<close>
    unfolding fec_encode_def Let_def ceil_div_def [symmetric] d_def [symmetric]
      par_def [symmetric] p_def [symmetric] perc_eq data_def [symmetric]
    by (cases "perc = 0") (simp_all add: DATA_SHARDS_MAX_def not_less)
  moreover have "d + p < 1024" using total none d by (cases "perc = 0") simp_all
  ultimately show ?thesis using perc parity none by blast
qed

lemma send_block_ok:
  assumes rs: "coder_ok blocksize rs" and B: "blocksize = vc_packetsize ch + MAX_RTP_HEADER_SIZE" "32 < blocksize"
    and block: "block \<noteq> []" "\<forall>c \<in> set (chunks blocksize block). 32 \<le> length c"
    and d: "ceil_div (length block) blocksize \<le> 1000"
    and fit: "bp_fecPercentage plan \<noteq> 0 \<Longrightarrow> ceil_div (length block) blocksize +
      (ceil_div (length block) blocksize * bp_fecPercentage plan + 99) div 100 \<le> 255"
    and min: "vc_minRequiredFecPackets ch \<le> 2" and fec: "bp_fecPercentage plan \<le> 255"
    and i: "i < bp_fec_blocks_needed plan" "bp_fec_blocks_needed plan \<le> 4"
  shows "\<exists>out. send_block rs None f plan i block ch =
      Some (out, ch\<lparr>vc_lowseq := vc_lowseq ch + of_nat (length out)\<rparr>) \<and>
    block_ok (blocksize - 32) (vc_lowseq ch) (vf_frame_index f) i (bp_fec_blocks_needed plan)
      (map (drop 32) (chunks blocksize block)) out"
proof -
  let ?n = "bp_fec_blocks_needed plan" and ?m = "vc_minRequiredFecPackets ch"
  define cs where "cs = chunks blocksize block"
  define d where "d = ceil_div (length block) blocksize"
  have B0: "0 < blocksize" using B(2) by linarith
  have lcs: "length cs = d" unfolding cs_def d_def by (rule length_chunks [OF B0])
  have d0: "0 < d" unfolding d_def using block(1) B0 by (simp add: ceil_div_pos)
  define stamped where "stamped = stamp_block (vc_lowseq ch) (vf_frame_index f) i ?n blocksize block"
  have dst: "ceil_div (length stamped) blocksize = d"
    unfolding stamped_def d_def by (rule length_stamp_block [OF B0 block(2)])
  define data where "data = map (pad_shard blocksize) (chunks blocksize stamped)"
  obtain p perc where encode: "fec_encode rs stamped blocksize (bp_fecPercentage plan) ?m =
      Some \<lparr>fe_data_shards = d, fe_nr_shards = d + p, fe_percentage = perc,
        fe_shards = data @ (if perc = 0 then [] else rs p data)\<rparr>"
    and perc: "perc < 256" and parity: "client_parity_packets d perc = p" and small: "d + p < 1024"
    and none: "perc = 0 \<Longrightarrow> p = 0"
    using fec_encode_numbers [of blocksize stamped "bp_fecPercentage plan" ?m rs] fit d min fec B0 d0
    unfolding dst data_def [symmetric] d_def [symmetric] by blast
  define shards where "shards = \<lparr>fe_data_shards = d, fe_nr_shards = d + p, fe_percentage = perc,
    fe_shards = data @ (if perc = 0 then [] else rs p data)\<rparr>"
  note encode = encode [folded shards_def]
  define shard_list where "shard_list = fe_shards shards"
  have longs: "32 \<le> length c \<and> length c \<le> blocksize" if "c \<in> set cs" for c
    using that block(2) chunks_lengths [OF B0] by (auto simp: cs_def)
  have cstamped: "chunks blocksize stamped =
      map (\<lambda>(x, q). stamp_data (vc_lowseq ch) (vf_frame_index f) i ?n d x q) (enumerate 0 cs)"
    unfolding stamped_def lcs [symmetric] cs_def by (rule chunks_stamp_block [OF B0 block(2)])
  then have ldata: "length data = d" by (simp add: data_def lcs)
  have data_nth: "data ! x = pad_shard blocksize (stamp_data (vc_lowseq ch) (vf_frame_index f) i ?n d x (cs ! x))"
    if "x < d" for x
    using that by (simp add: data_def cstamped lcs nth_enumerate_map nth_enumerate_eq)
  have len_shards: "length shard_list = d + p"
    using rs none by (auto simp: shard_list_def shards_def ldata coder_ok_def)
  have data_part: "shard_list ! x = data ! x" if "x < d" for x
    using that by (simp add: shard_list_def shards_def nth_append ldata)
  have len_data: "length (data ! x) = blocksize" if "x < d" for x
    using that longs [of "cs ! x"] by (simp add: data_nth pad_shard_def stamp_data_keeps lcs)
  have "set shard_list \<subseteq> set data \<union> set (rs p data)"
    by (auto simp: shard_list_def shards_def split: if_splits)
  moreover have "length s = blocksize" if "s \<in> set data" for s
    using that len_data ldata by (auto simp: in_set_conv_nth)
  moreover have "length s = blocksize" if "s \<in> set (rs p data)" for s
    using that rs unfolding coder_ok_def by blast
  ultimately have "length s = blocksize" if "s \<in> set shard_list" for s
    using that by blast
  then have len_shard: "length (shard_list ! x) = blocksize" if "x < d + p" for x
    using that len_shards by simp
  define out where "out = map (\<lambda>q. \<lparr>sp_prefix = [], sp_data = q\<rparr>)
    (map (\<lambda>(x, q). stamp_shard (vc_lowseq ch) (vf_frame_index f) (vf_timestamp f) i ?n shards x q)
      (enumerate 0 shard_list))"
  have lout: "length out = d + p" by (simp add: out_def len_shards)
  have out_nth: "sp_data (out ! x) =
      stamp_shard (vc_lowseq ch) (vf_frame_index f) (vf_timestamp f) i ?n shards x (shard_list ! x)"
    if "x < d + p" for x
    using that by (simp add: out_def len_shards nth_enumerate_eq)
  have view: "client_view (sp_data (out ! x)) =
      \<lparr>cv_sequenceNumber = ucast (vc_lowseq ch + of_nat x), cv_bufferLowestSequenceNumber = ucast (vc_lowseq ch),
       cv_fecIndex = of_nat x, cv_bufferDataPackets = of_nat d, cv_fecPercentage = of_nat perc,
       cv_fecCurrentBlockNumber = of_nat i, cv_multiFecLastBlockNumber = of_nat (?n - 1),
       cv_frameIndex = vf_frame_index f\<rparr>" if "x < d + p" for x
    unfolding out_nth [OF that]
    using client_view_stamp [of "shard_list ! x" x shards i ?n] len_shard [OF that] B(2) small that perc i
    by (simp add: shards_def)
  have slice: "drop 32 (sp_data (out ! x)) = pad_shard (blocksize - 32) (drop 32 (cs ! x))" if "x < d" for x
    using that len_data [OF that] longs [of "cs ! x"] B(2)
    by (simp add: out_nth stamp_shard_keeps data_part data_nth drop_pad_shard stamp_data_keeps lcs)
  have "block_ok (blocksize - 32) (vc_lowseq ch) (vf_frame_index f) i ?n (map (drop 32) cs) out"
    unfolding block_ok_def using small perc parity view slice
    by (intro exI [of _ perc]) (simp add: lcs lout SIZEOF_VIDEO_PACKET_RAW_def)
  moreover have "send_block rs None f plan i block ch =
      Some (out, ch\<lparr>vc_lowseq := vc_lowseq ch + of_nat (length out)\<rparr>)"
    unfolding send_block_def Let_def B(1) [symmetric] stamped_def [symmetric] encode
    by (simp add: out_def shard_list_def [symmetric] len_shards shards_def [THEN arg_cong [where f = fe_nr_shards]])
  ultimately show ?thesis unfolding cs_def by blast
qed

lemma send_blocks_ok:
  assumes rs: "coder_ok blocksize rs" and B: "blocksize = vc_packetsize ch + MAX_RTP_HEADER_SIZE" "32 < blocksize"
    and blocks: "\<forall>b \<in> set bs. b \<noteq> [] \<and> (\<forall>c \<in> set (chunks blocksize b). 32 \<le> length c) \<and>
      ceil_div (length b) blocksize \<le> 1000 \<and> (bp_fecPercentage plan \<noteq> 0 \<longrightarrow> ceil_div (length b) blocksize +
        (ceil_div (length b) blocksize * bp_fecPercentage plan + 99) div 100 \<le> 255)"
    and min: "vc_minRequiredFecPackets ch \<le> 2" and fec: "bp_fecPercentage plan \<le> 255"
    and i: "i + length bs = bp_fec_blocks_needed plan" "bp_fec_blocks_needed plan \<le> 4"
  shows "\<exists>outs. send_blocks rs None f plan i bs ch =
      Some (concat outs, ch\<lparr>vc_lowseq := vc_lowseq ch + of_nat (length (concat outs))\<rparr>) \<and>
    length outs = length bs \<and> blocks_ok (blocksize - 32) (vc_lowseq ch) (vf_frame_index f) i
      (bp_fec_blocks_needed plan) (map (\<lambda>b. map (drop 32) (chunks blocksize b)) bs) outs"
  using B(1) blocks min i(1)
proof (induction bs arbitrary: i ch)
  case Nil
  then show ?case by (intro exI [of _ "[]"]) simp
next
  case (Cons b bs)
  have "\<exists>out. send_block rs None f plan i b ch =
      Some (out, ch\<lparr>vc_lowseq := vc_lowseq ch + of_nat (length out)\<rparr>) \<and>
    block_ok (blocksize - 32) (vc_lowseq ch) (vf_frame_index f) i (bp_fec_blocks_needed plan)
      (map (drop 32) (chunks blocksize b)) out"
    using Cons.prems by (intro send_block_ok [OF rs _ B(2) _ _ _ _ _ fec _ i(2)]) simp_all
  then obtain out where out: "send_block rs None f plan i b ch =
      Some (out, ch\<lparr>vc_lowseq := vc_lowseq ch + of_nat (length out)\<rparr>)"
    "block_ok (blocksize - 32) (vc_lowseq ch) (vf_frame_index f) i (bp_fec_blocks_needed plan)
      (map (drop 32) (chunks blocksize b)) out" by blast
  let ?ch = "ch\<lparr>vc_lowseq := vc_lowseq ch + of_nat (length out)\<rparr>"
  from Cons.IH [of ?ch "Suc i"] Cons.prems obtain outs where
    "send_blocks rs None f plan (Suc i) bs ?ch =
      Some (concat outs, ?ch\<lparr>vc_lowseq := vc_lowseq ?ch + of_nat (length (concat outs))\<rparr>)"
    "length outs = length bs"
    "blocks_ok (blocksize - 32) (vc_lowseq ?ch) (vf_frame_index f) (Suc i)
      (bp_fec_blocks_needed plan) (map (\<lambda>b. map (drop 32) (chunks blocksize b)) bs) outs" by auto
  then show ?case using out by (intro exI [of _ "out # outs"]) (simp add: add.assoc)
qed

lemma length_last_chunk:
  "0 < n \<Longrightarrow> xs \<noteq> [] \<Longrightarrow>
    length (last (chunks n xs)) = (if length xs mod n = 0 then n else length xs mod n)"
proof (induction n xs rule: chunks.induct)
  case (1 n xs)
  show ?case
  proof (cases "length xs \<le> n")
    case True
    then show ?thesis using 1(2,3) by (cases "length xs = n") (auto simp: chunks_step [of n xs])
  next
    case False
    then have "chunks n (drop n xs) \<noteq> []" using 1(2) by (simp add: chunks_step)
    then show ?thesis
      using 1 False by (simp add: chunks_step [of n xs] le_mod_geq [of n "length xs"])
  qed
qed

text \<open>
  C6. A frame arrives. Without video encryption, with packets of 17 to 65535 bytes, a percentage of at
  most 255, a minimum of at most two parity packets and a coder that returns the parity it is asked
  for, a frame that fits 1000 packets with its header is sent as one to four blocks of packets, and the
  fields the client reads from each packet are consistent: consecutive sequence numbers across the
  blocks, the same base, data count and percentage in all the packets of a block, and as many
  parity packets as the client will compute. What the data packets carry behind their headers,
  padded with zeros, is the frame header and the frame cut into slices, and the length of the last
  slice is the length announced in that header. The client's packet index has ten bits, which is why
  the frame is bounded; for a minimum of three or more packets the parity counts of the two sides
  can differ, as shown with the parity counts.
\<close>

theorem send_frame_delivers:
  assumes rs: "coder_ok (vc_packetsize ch + 16) rs" and size: "16 < vc_packetsize ch" "vc_packetsize ch < 65536"
    and fec: "fec \<le> 255" and min: "vc_minRequiredFecPackets ch \<le> 2"
    and fits: "length (frame_payload f) + 8 \<le> 1000 * (vc_packetsize ch - 16)"
  shows "\<exists>outs slices n. send_frame rs None fec f ch =
      Some (concat outs, ch\<lparr>vc_lowseq := vc_lowseq ch + of_nat (length (concat outs))\<rparr>) \<and>
    1 \<le> length outs \<and> length outs \<le> 4 \<and>
    blocks_ok (vc_packetsize ch - 16) (vc_lowseq ch) (vf_frame_index f) 0 (length outs) slices outs \<and>
    concat (concat slices) = frame_header_bytes f n @ frame_payload f \<and> length (last (concat slices)) = n"
proof -
  define B where "B = vc_packetsize ch + 16"
  define m where "m = vc_packetsize ch - 16"
  have B: "0 < B" "32 < B" "32 + m = B" and m: "0 < m" using size by (simp_all add: B_def m_def)
  have subs: "size_sub (vc_packetsize ch) SIZEOF_NV_VIDEO_PACKET = m"
    "size_sub (vc_packetsize ch + MAX_RTP_HEADER_SIZE) SIZEOF_VIDEO_PACKET_RAW = m"
    using size by (simp_all add: video_sizes size_sub_eq m_def)
  define n where "n = (if (length (frame_payload f) + 8) mod m = 0 then m else (length (frame_payload f) + 8) mod m)"
  define content where "content = frame_header_bytes f n @ frame_payload f"
  have content: "length content = length (frame_payload f) + 8"
    by (simp add: content_def frame_header_bytes_def split: option.split)
  then have "content \<noteq> []" by (cases content) simp_all
  define payload where "payload = concat (map (\<lambda>s. replicate 32 0 @ s) (chunks m content))"
  have buffer: "frame_buffer (vc_packetsize ch) f = Some payload"
    using m unfolding frame_buffer_def Let_def last_payload_len_def subs payload_def content_def
    by (simp add: concat_and_insert_all n_def video_sizes)
  have chunks: "chunks B payload = map (\<lambda>s. replicate 32 0 @ s) (chunks m content)"
    unfolding payload_def B(3) [symmetric] by (rule chunks_slices [OF m])
  have "payload \<noteq> []" unfolding payload_def using \<open>content \<noteq> []\<close> m by (simp add: chunks_step)
  define plan where "plan = plan_blocks fec B (length payload)"
  obtain blocks where split: "split_blocks plan payload = Some blocks" and whole: "concat blocks = payload"
    and count: "length blocks = bp_fec_blocks_needed plan" "1 \<le> length blocks" "length blocks \<le> 4"
    and blocks: "\<forall>b \<in> set blocks. b \<noteq> []" "\<forall>b \<in> set (butlast blocks). B dvd length b"
    and perc: "bp_fecPercentage plan \<noteq> 0 \<longrightarrow> bp_fecPercentage plan = fec \<and> (\<forall>b \<in> set blocks.
      ceil_div (length b) B + (ceil_div (length b) B * fec + 99) div 100 \<le> 255)"
    using plan_split_blocks [OF fec B(2) \<open>payload \<noteq> []\<close>, folded plan_def] by blast
  have parts: "concat (map (chunks B) blocks) = chunks B payload"
    unfolding whole [symmetric] by (rule chunks_concat [OF B(1) blocks(2), symmetric])
  have "length (chunks B payload) \<le> 1000"
    unfolding chunks length_map length_chunks [OF m] content
    using ceil_div_le [OF m] fits by (simp add: m_def)
  moreover have "length (chunks B b) \<le> length (chunks B payload)" if "b \<in> set blocks" for b
    using that unfolding parts [symmetric] by (auto simp: length_concat dest: split_list)
  ultimately have each: "ceil_div (length b) B \<le> 1000" if "b \<in> set blocks" for b
    using that length_chunks [OF B(1), of b] by fastforce
  have long: "32 \<le> length c" if "b \<in> set blocks" "c \<in> set (chunks B b)" for b c
  proof -
    have "c \<in> set (chunks B payload)" using that unfolding parts [symmetric] by auto
    then show ?thesis unfolding chunks by auto
  qed
  have "\<exists>outs. send_blocks rs None f plan 0 blocks ch =
      Some (concat outs, ch\<lparr>vc_lowseq := vc_lowseq ch + of_nat (length (concat outs))\<rparr>) \<and>
    length outs = length blocks \<and> blocks_ok (B - 32) (vc_lowseq ch) (vf_frame_index f) 0
      (bp_fec_blocks_needed plan) (map (\<lambda>b. map (drop 32) (chunks B b)) blocks) outs"
    using each long blocks(1) perc count fec min rs B(2)
    by (intro send_blocks_ok) (auto simp: B_def MAX_RTP_HEADER_SIZE_def)
  then obtain outs where outs: "send_blocks rs None f plan 0 blocks ch =
      Some (concat outs, ch\<lparr>vc_lowseq := vc_lowseq ch + of_nat (length (concat outs))\<rparr>)"
    "length outs = length blocks" "blocks_ok (B - 32) (vc_lowseq ch) (vf_frame_index f) 0
      (bp_fec_blocks_needed plan) (map (\<lambda>b. map (drop 32) (chunks B b)) blocks) outs" by blast
  define slices where "slices = map (\<lambda>b. map (drop 32) (chunks B b)) blocks"
  have "concat slices = map (drop 32) (concat (map (chunks B) blocks))"
    by (simp add: slices_def map_concat comp_def)
  also have "\<dots> = chunks m content" unfolding parts chunks by (simp add: comp_def)
  finally have slices: "concat slices = chunks m content" .
  have "send_frame rs None fec f ch = send_blocks rs None f plan 0 blocks ch"
    by (simp add: send_frame_def buffer split plan_def B_def MAX_RTP_HEADER_SIZE_def Let_def
        split [unfolded plan_def B_def])
  moreover have "B - 32 = vc_packetsize ch - 16" by (simp add: B_def)
  moreover have "length (last (chunks m content)) = n"
    unfolding length_last_chunk [OF m \<open>content \<noteq> []\<close>] content n_def ..
  ultimately show ?thesis
    using outs count slices concat_chunks [OF m, of content]
    by (intro exI [of _ outs] exI [of _ slices] exI [of _ n])
      (simp add: content_def [symmetric] slices_def [symmetric])
qed

theorem send_frame_delivers_witness:
  "\<exists>outs slices n. send_frame (\<lambda>p data. replicate p (replicate 1040 0)) None 20
      \<lparr>vf_data = [0, 0, 0, 1, 0x65], vf_is_idr = True, vf_after_ref_frame_invalidation = False,
       vf_frame_index = 7, vf_replacements = None, vf_duration_us = None, vf_timestamp = 90\<rparr>
      \<lparr>vc_packetsize = 1024, vc_minRequiredFecPackets = 2, vc_lowseq = 0xFFFFFFFF, vc_gcm_iv_counter = 0\<rparr> =
      Some (concat outs, \<lparr>vc_packetsize = 1024, vc_minRequiredFecPackets = 2,
        vc_lowseq = 0xFFFFFFFF + of_nat (length (concat outs)), vc_gcm_iv_counter = 0\<rparr>) \<and>
    concat (concat slices) = frame_header_bytes \<lparr>vf_data = [0, 0, 0, 1, 0x65], vf_is_idr = True,
      vf_after_ref_frame_invalidation = False, vf_frame_index = 7, vf_replacements = None,
      vf_duration_us = None, vf_timestamp = 90\<rparr> n @ [0, 0, 0, 1, 0x65]"
  using send_frame_delivers [of "\<lparr>vc_packetsize = 1024, vc_minRequiredFecPackets = 2,
      vc_lowseq = 0xFFFFFFFF, vc_gcm_iv_counter = 0\<rparr>" "\<lambda>p data. replicate p (replicate 1040 0)" 20
      "\<lparr>vf_data = [0, 0, 0, 1, 0x65], vf_is_idr = True, vf_after_ref_frame_invalidation = False,
       vf_frame_index = 7, vf_replacements = None, vf_duration_us = None, vf_timestamp = 90\<rparr>"]
  by (auto simp: coder_ok_def frame_payload_def)

lemma batch_loop_covers:
  assumes "x + k = shards" and "next_shard \<le> x" and "k = 0 \<Longrightarrow> next_shard = x" and "x - next_shard < max 1 sz"
  shows "concat (map (\<lambda>(off, n). [off..<off + n]) (batch_loop shards sz k x next_shard)) = [next_shard..<shards] \<and>
    (\<forall>(off, n) \<in> set (batch_loop shards sz k x next_shard). 0 < n \<and> n \<le> max 1 sz)"
  using assms
proof (induction k arbitrary: x next_shard)
  case (Suc k)
  show ?case
  proof (cases "sz \<le> x - next_shard + 1 \<or> x + 1 = shards")
    case True
    have "concat (map (\<lambda>(off, n). [off..<off + n]) (batch_loop shards sz k (Suc x) (Suc x))) = [Suc x..<shards] \<and>
      (\<forall>(off, n) \<in> set (batch_loop shards sz k (Suc x) (Suc x)). 0 < n \<and> n \<le> max 1 sz)"
      using Suc.prems(1) by (intro Suc.IH) simp_all
    moreover have "[next_shard..<Suc x] @ [Suc x..<shards] = [next_shard..<shards]"
      using Suc.prems(1,2) upt_add_eq_append [of next_shard "Suc x" "shards - Suc x"] by (simp del: upt_Suc)
    moreover have "next_shard + (x - next_shard + 1) = Suc x" using Suc.prems(2) by simp
    ultimately show ?thesis using True Suc.prems(4) by (simp del: upt_Suc) 
  next
    case False
    have "concat (map (\<lambda>(off, n). [off..<off + n]) (batch_loop shards sz k (Suc x) next_shard)) = [next_shard..<shards] \<and>
      (\<forall>(off, n) \<in> set (batch_loop shards sz k (Suc x) next_shard). 0 < n \<and> n \<le> max 1 sz)"
      using Suc.prems False by (intro Suc.IH) auto
    then show ?thesis using False by simp
  qed
qed simp

section \<open>Rate control\<close>

text \<open>
  The pacing of the batches of a frame. \<open>clock\<close> is the time in nanoseconds since the start of the
  frame, \<open>batches\<close> are the sizes of the batches, each with the time the thread spends before it
  reads the clock. The result lists, for each batch, when it is sent and how many packets of the
  frame went before. The division traps when not even one packet fits a millisecond.
\<close>

definition ratecontrol_packets_in_1ms :: "nat \<Rightarrow> nat" where
  "ratecontrol_packets_in_1ms blocksize = 1000000000 * 80 div 100 div 1000 div blocksize div 8"

fun pace_batches :: "nat \<Rightarrow> nat \<Rightarrow> nat \<Rightarrow> nat \<Rightarrow> (nat \<times> nat) list \<Rightarrow> (nat \<times> nat) list option" where
  "pace_batches per_ms group_sent frame_sent clock [] = Some []"
| "pace_batches per_ms group_sent frame_sent clock ((n, elapsed) # batches) =
     (let now = clock + elapsed
      in if per_ms \<le> group_sent \<or> frame_sent = 0
         then if per_ms = 0 then None
              else let now = max now (1000000 * frame_sent div per_ms)
                   in map_option ((#) (now, frame_sent))
                        (pace_batches per_ms n (frame_sent + n) now batches)
         else map_option ((#) (now, frame_sent))
                (pace_batches per_ms (group_sent + n) (frame_sent + n) now batches))"

lemma pace_batches_ahead:
  assumes "0 < per_ms" and "1000000 * frame_sent < (clock + 1) * per_ms + 1000000 * group_sent"
  shows "\<exists>sent. pace_batches per_ms group_sent frame_sent clock batches = Some sent \<and>
    length sent = length batches \<and>
    (\<forall>(t, before) \<in> set sent. 1000000 * before < (t + 1 + 1000000) * per_ms)"
  using assms(2)
proof (induction batches arbitrary: group_sent frame_sent clock)
  case (Cons b batches)
  obtain n elapsed where b: "b = (n, elapsed)" by (cases b)
  show ?case
  proof (cases "per_ms \<le> group_sent \<or> frame_sent = 0")
    case True
    define now where "now = max (clock + elapsed) (1000000 * frame_sent div per_ms)"
    have "1000000 * frame_sent < (1000000 * frame_sent div per_ms + 1) * per_ms"
      using assms(1) dividend_less_div_times [of per_ms "1000000 * frame_sent"] by simp
    also have "\<dots> \<le> (now + 1) * per_ms" by (intro mult_le_mono1) (simp add: now_def)
    finally have now: "1000000 * frame_sent < (now + 1) * per_ms" .
    then have "1000000 * (frame_sent + n) < (now + 1) * per_ms + 1000000 * n" by simp
    from Cons.IH [OF this] now show ?thesis
      using True assms(1) by (auto simp: b now_def [symmetric] add_mult_distrib)
  next
    case False
    have "(clock + 1) * per_ms \<le> (clock + elapsed + 1) * per_ms" by (intro mult_le_mono1) simp
    then have *: "1000000 * frame_sent < (clock + elapsed + 1) * per_ms + 1000000 * group_sent"
      using Cons.prems by linarith
    then have "1000000 * (frame_sent + n) < (clock + elapsed + 1) * per_ms + 1000000 * (group_sent + n)" by simp
    from Cons.IH [OF this] * False show ?thesis
      by (auto simp: b add_mult_distrib)
  qed
qed simp

text \<open>
  The shards of a block are sent once each, in order, in batches of at most 64 packets.
\<close>

theorem send_batches_cover:
  "concat (map (\<lambda>(off, n). [off..<off + n]) (send_batches blocksize shards)) = [0..<shards] \<and>
   list_all (\<lambda>(off, n). 0 < n \<and> n \<le> 64) (send_batches blocksize shards)"
proof -
  define sz where "sz = min 64 ((64 * 1024) div blocksize)"
  have "max 1 sz \<le> 64" by (simp add: sz_def)
  moreover have "0 - 0 < max 1 sz" by simp
  from batch_loop_covers [OF _ _ _ this] have
    "concat (map (\<lambda>(off, n). [off..<off + n]) (batch_loop shards sz shards 0 0)) = [0..<shards]"
    "\<forall>(off, n) \<in> set (batch_loop shards sz shards 0 0). 0 < n \<and> n \<le> max 1 sz" by simp_all
  ultimately show ?thesis
    unfolding send_batches_def sz_def [symmetric] list_all_iff by fastforce
qed

text \<open>
  The rate control holds the stream to 80 \% of a gigabit: however slow or fast the thread runs,
  no batch of a frame leaves more than a millisecond (and a nanosecond of rounding) ahead of the
  constant rate, and with packets of at most 100000 bytes the division by the packets per
  millisecond never traps.
\<close>

theorem pace_batches_rate:
  assumes "0 < blocksize" and "blocksize \<le> 100000"
  shows "\<exists>sent. pace_batches (ratecontrol_packets_in_1ms blocksize) 0 0 0 batches = Some sent \<and>
    length sent = length batches \<and> (\<forall>(t, before) \<in> set sent.
      1000000 * before < (t + 1 + 1000000) * ratecontrol_packets_in_1ms blocksize)"
proof -
  have "800000 div 100000 \<le> 800000 div blocksize" using assms by (intro div_le_mono2) simp_all
  then have "8 div 8 \<le> 800000 div blocksize div 8" by (intro div_le_mono) simp
  then have "0 < ratecontrol_packets_in_1ms blocksize" by (simp add: ratecontrol_packets_in_1ms_def)
  then show ?thesis by (intro pace_batches_ahead) simp_all
qed

theorem pace_batches_rate_witness:
  "\<exists>sent. pace_batches (ratecontrol_packets_in_1ms 1040) 0 0 0 [(64, 10), (64, 10), (20, 10)] = Some sent \<and>
    (\<forall>(t, before) \<in> set sent. 1000000 * before < (t + 1 + 1000000) * 96)"
  using pace_batches_rate [of 1040 "[(64, 10), (64, 10), (20, 10)]"]
  by (auto simp: ratecontrol_packets_in_1ms_def)

end
