(* ===== verification/Stream_Control.thy ===== *)
theory Stream_Control
  imports Stream_Video
begin

text \<open>
  The control stream of \<^verbatim>\<open>src/stream.cpp\<close>: the messages and their encryption, the table of
  sessions and ENet peers of \<^verbatim>\<open>control_server_t\<close>, the handlers of
  \<^verbatim>\<open>controlBroadcastThread\<close> and its loop. Sessions are addresses of a store; the cipher of
  a session is a pair of functions in its record. Every operation that may read outside of a packet
  or let an exception escape returns an option, with \<open>None\<close> for that.
\<close>

unbundle bit_operations_syntax

section \<open>Messages\<close>

definition IDX_START_A :: nat where "IDX_START_A = 0"
definition IDX_START_B :: nat where "IDX_START_B = 1"
definition IDX_INVALIDATE_REF_FRAMES :: nat where "IDX_INVALIDATE_REF_FRAMES = 2"
definition IDX_LOSS_STATS :: nat where "IDX_LOSS_STATS = 3"
definition IDX_INPUT_DATA :: nat where "IDX_INPUT_DATA = 5"
definition IDX_RUMBLE_DATA :: nat where "IDX_RUMBLE_DATA = 6"
definition IDX_TERMINATION :: nat where "IDX_TERMINATION = 7"
definition IDX_PERIODIC_PING :: nat where "IDX_PERIODIC_PING = 8"
definition IDX_REQUEST_IDR_FRAME :: nat where "IDX_REQUEST_IDR_FRAME = 9"
definition IDX_ENCRYPTED :: nat where "IDX_ENCRYPTED = 10"
definition IDX_HDR_MODE :: nat where "IDX_HDR_MODE = 11"
definition IDX_RUMBLE_TRIGGER_DATA :: nat where "IDX_RUMBLE_TRIGGER_DATA = 12"
definition IDX_SET_MOTION_EVENT :: nat where "IDX_SET_MOTION_EVENT = 13"
definition IDX_SET_RGB_LED :: nat where "IDX_SET_RGB_LED = 14"
definition IDX_SET_ADAPTIVE_TRIGGERS :: nat where "IDX_SET_ADAPTIVE_TRIGGERS = 15"

definition packetTypes :: "u16 list" where
  "packetTypes = [0x0305, 0x0307, 0x0301, 0x0201, 0x0204, 0x0206, 0x010b, 0x0109, 0x0200, 0x0302,
     0x0001, 0x010e, 0x5500, 0x5501, 0x5502, 0x5503]"

lemmas idx_defs = IDX_START_A_def IDX_START_B_def IDX_INVALIDATE_REF_FRAMES_def IDX_LOSS_STATS_def
  IDX_INPUT_DATA_def IDX_RUMBLE_DATA_def IDX_TERMINATION_def IDX_PERIODIC_PING_def
  IDX_REQUEST_IDR_FRAME_def IDX_ENCRYPTED_def IDX_HDR_MODE_def IDX_RUMBLE_TRIGGER_DATA_def
  IDX_SET_MOTION_EVENT_def IDX_SET_RGB_LED_def IDX_SET_ADAPTIVE_TRIGGERS_def packetTypes_def

definition SS_ENC_CONTROL_V2 :: u32 where "SS_ENC_CONTROL_V2 = 0x01"
definition ML_FF_SESSION_ID_V1 :: u32 where "ML_FF_SESSION_ID_V1 = 0x02"

text \<open>A packed message: \<^verbatim>\<open>control_header_v2\<close> and the fields behind it.\<close>

definition control_message :: "nat \<Rightarrow> bytes \<Rightarrow> bytes" where
  "control_message idx body = le_bytes 2 (packetTypes ! idx) @ le_bytes 2 (of_nat (length body) :: u16) @ body"

datatype gamepad_feedback =
    rumble u16 u16 u16
  | rumble_triggers u16 u16 u16
  | set_motion_event_state u16 u16 u8
  | set_rgb_led u16 u8 u8 u8
  | set_adaptive_triggers u16 u8 u8 u8 bytes bytes

fun feedback_plaintext :: "gamepad_feedback \<Rightarrow> bytes" where
  "feedback_plaintext (rumble i lowfreq highfreq) = control_message IDX_RUMBLE_DATA
     (le_bytes 4 (0xC0FFEE :: u32) @ le_bytes 2 i @ le_bytes 2 lowfreq @ le_bytes 2 highfreq)"
| "feedback_plaintext (rumble_triggers i left_trigger right_trigger) = control_message IDX_RUMBLE_TRIGGER_DATA
     (le_bytes 2 i @ le_bytes 2 left_trigger @ le_bytes 2 right_trigger)"
| "feedback_plaintext (set_motion_event_state i report_rate motion_type) = control_message IDX_SET_MOTION_EVENT
     (le_bytes 2 i @ le_bytes 2 report_rate @ [motion_type])"
| "feedback_plaintext (set_rgb_led i r g b) = control_message IDX_SET_RGB_LED (le_bytes 2 i @ [r, g, b])"
| "feedback_plaintext (set_adaptive_triggers i event_flags type_left type_right left right) =
     control_message IDX_SET_ADAPTIVE_TRIGGERS
       (le_bytes 2 i @ [event_flags, type_left, type_right] @ left @ right)"

record hdr_info =
  hi_enabled :: bool
  hi_metadata :: bytes

definition hdr_plaintext :: "hdr_info \<Rightarrow> bytes" where
  "hdr_plaintext h = control_message IDX_HDR_MODE ([if hi_enabled h then 1 else 0] @ hi_metadata h)"

definition terminate_plaintext :: bytes where
  "terminate_plaintext = control_message IDX_TERMINATION (be_bytes 4 (0x80030023 :: u32))"

section \<open>Sessions\<close>

datatype session_state = STOPPED | STOPPING | STARTING | RUNNING

text \<open>\<open>gc_encrypt iv plaintext\<close> is the ciphertext and the tag, \<open>gc_decrypt iv tag ciphertext\<close> the plaintext.\<close>

record gcm_cipher =
  gc_encrypt :: "bytes \<Rightarrow> bytes \<Rightarrow> (bytes \<times> bytes) option"
  gc_decrypt :: "bytes \<Rightarrow> bytes \<Rightarrow> bytes \<Rightarrow> bytes option"

record ctl_session =
  cs_controlProtocolType :: int
  cs_encryptionFlagsEnabled :: u32
  cs_mlFeatureFlags :: u32
  cs_cipher :: gcm_cipher
  cs_legacy_input_enc_iv :: bytes
  cs_incoming_iv :: bytes
  cs_outgoing_iv :: bytes
  cs_connect_data :: u32
  cs_expected_peer_address :: string
  cs_peer :: "nat option"
  cs_seq :: u32
  cs_feedback_queue :: "gamepad_feedback list"
  cs_hdr_queue :: "hdr_info option"
  cs_pingTimeout :: int
  cs_localAddress :: string
  cs_launch_session_id :: u32
  cs_shutdown :: bool
  cs_controlEnd :: bool
  cs_state :: session_state

text \<open>What the control thread does to the world, in order.\<close>

datatype ctl_effect =
    ctl_send nat bytes
  | ctl_disconnect nat
  | ctl_launch_clear u32
  | ctl_idr nat
  | ctl_invalidate_ref_frames nat "64 word" "64 word"
  | ctl_input nat bytes
  | ctl_flush

record control_server =
  sv_sessions :: "nat list"
  sv_peer_to_session :: "nat \<Rightarrow> nat option"
  sv_store :: "nat \<Rightarrow> ctl_session"
  sv_log :: "ctl_effect list"

definition ctl_emit :: "ctl_effect \<Rightarrow> control_server \<Rightarrow> control_server" where
  "ctl_emit e sv = sv\<lparr>sv_log := sv_log sv @ [e]\<rparr>"

definition ctl_update :: "nat \<Rightarrow> (ctl_session \<Rightarrow> ctl_session) \<Rightarrow> control_server \<Rightarrow> control_server" where
  "ctl_update s f sv = sv\<lparr>sv_store := (sv_store sv)(s := f (sv_store sv s))\<rparr>"

text \<open>
  \<^verbatim>\<open>session::stop\<close>. It first spins while the session is \<open>STARTING\<close>; nothing ever stores that
  state, so the model has no spinning.
\<close>

definition session_stop :: "ctl_session \<Rightarrow> ctl_session" where
  "session_stop s = (if cs_state s = RUNNING then s\<lparr>cs_state := STOPPING, cs_shutdown := True\<rparr> else s)"

section \<open>Encryption\<close>

definition resize_bytes :: "nat \<Rightarrow> bytes \<Rightarrow> bytes" where
  "resize_bytes n xs = take n xs @ replicate (n - length xs) 0"

text \<open>The vector of a message; the last two bytes tell who sent it.\<close>

definition control_iv :: "bool \<Rightarrow> u8 \<Rightarrow> u32 \<Rightarrow> bytes \<Rightarrow> bytes" where
  "control_iv v2 originator seq iv =
     (if v2 then write_at 11 [0x43] (write_at 10 [originator] (write_at 0 (le_bytes 4 seq) (resize_bytes 12 iv)))
      else write_at 0 [ucast seq] (resize_bytes 16 iv))"

definition encrypted_v2 :: "ctl_session \<Rightarrow> bool" where
  "encrypted_v2 s = (cs_encryptionFlagsEnabled s AND SS_ENC_CONTROL_V2 \<noteq> 0)"

definition encode_control :: "ctl_session \<Rightarrow> bytes \<Rightarrow> bytes \<times> ctl_session" where
  "encode_control s plaintext =
     (if cs_controlProtocolType s \<noteq> 13 then (plaintext, s)
      else let seq = cs_seq s;
               iv = control_iv (encrypted_v2 s) 0x48 seq (cs_outgoing_iv s);
               s = s\<lparr>cs_seq := seq + 1, cs_outgoing_iv := iv\<rparr>
           in case gc_encrypt (cs_cipher s) iv plaintext of
                None \<Rightarrow> ([], s)
              | Some (cipher, tag) \<Rightarrow>
                  if cipher = [] then ([], s)
                  else (le_bytes 2 (0x0001 :: u16) @
                        le_bytes 2 (of_nat (length cipher + 16 + 4) :: u16) @ le_bytes 4 seq @
                        tag @ cipher, s))"

text \<open>Sending to the peer of a session, when it has one.\<close>

definition send_control :: "nat \<Rightarrow> bytes \<Rightarrow> control_server \<Rightarrow> control_server" where
  "send_control s plaintext sv =
     (case cs_peer (sv_store sv s) of
        None \<Rightarrow> sv
      | Some peer \<Rightarrow>
          let (payload, session) = encode_control (sv_store sv s) plaintext
          in ctl_emit (ctl_send peer payload) (ctl_update s (\<lambda>_. session) sv))"

definition send_feedback_msg :: "nat \<Rightarrow> gamepad_feedback \<Rightarrow> control_server \<Rightarrow> control_server" where
  "send_feedback_msg s msg = send_control s (feedback_plaintext msg)"

definition send_hdr_mode :: "nat \<Rightarrow> hdr_info \<Rightarrow> control_server \<Rightarrow> control_server" where
  "send_hdr_mode s h = send_control s (hdr_plaintext h)"

section \<open>Receiving\<close>

text \<open>A peer that is not bound is bound to the first session that waits for it.\<close>

definition session_matches :: "u32 \<Rightarrow> string \<Rightarrow> ctl_session \<Rightarrow> bool" where
  "session_matches connect_data peer_addr s \<longleftrightarrow> cs_peer s = None \<and>
     (if cs_mlFeatureFlags s AND ML_FF_SESSION_ID_V1 \<noteq> 0 then cs_connect_data s = connect_data
      else cs_expected_peer_address s = peer_addr)"

definition get_session :: "nat \<Rightarrow> u32 \<Rightarrow> string \<Rightarrow> string \<Rightarrow> control_server \<Rightarrow> nat option \<times> control_server" where
  "get_session peer connect_data peer_addr local_address sv =
     (case sv_peer_to_session sv peer of
        Some s \<Rightarrow> (Some s, sv)
      | None \<Rightarrow>
          (case find (\<lambda>s. session_matches connect_data peer_addr (sv_store sv s)) (sv_sessions sv) of
             None \<Rightarrow> (None, sv)
           | Some s \<Rightarrow>
               (Some s, (ctl_update s (\<lambda>x. x\<lparr>cs_peer := Some peer, cs_localAddress := local_address\<rparr>)
                   (ctl_emit (ctl_launch_clear (cs_launch_session_id (sv_store sv s))) sv))
                 \<lparr>sv_peer_to_session := (sv_peer_to_session sv)(peer := Some s)\<rparr>)))"

text \<open>
  \<^verbatim>\<open>gcm_t::decrypt\<close>: the tag comes first; \<^verbatim>\<open>substr\<close> throws when there is none, which is the
  outer \<open>None\<close>.
\<close>

definition gcm_decrypt :: "gcm_cipher \<Rightarrow> bytes \<Rightarrow> bytes \<Rightarrow> bytes option option" where
  "gcm_decrypt c iv tagged_cipher =
     (if length tagged_cipher < 16 then None
      else Some (gc_decrypt c iv (take 16 tagged_cipher) (drop 16 tagged_cipher)))"

text \<open>The encrypted input message of old clients. The code checks no length: what lies outside of the
  payload is \<open>None\<close>.\<close>

definition handle_input_data :: "nat \<Rightarrow> bytes \<Rightarrow> control_server \<Rightarrow> control_server option" where
  "handle_input_data s payload sv =
     (if length payload < 4 then None
      else let tagged_cipher_length = sint (be_value (take 4 payload) :: 32 word);
               session = sv_store sv s; iv = cs_legacy_input_enc_iv session
           in if tagged_cipher_length < 0 \<or> int (length payload) < 4 + tagged_cipher_length then None
              else case gcm_decrypt (cs_cipher session) iv (read_at 4 (nat tagged_cipher_length) payload) of
                     None \<Rightarrow> None
                   | Some None \<Rightarrow> Some (ctl_update s session_stop sv)
                   | Some (Some plaintext) \<Rightarrow>
                       if 16 + int (length iv) \<le> tagged_cipher_length
                       then if length iv < 16 then None
                            else Some (ctl_emit (ctl_input s plaintext) (ctl_update s (\<lambda>x. x\<lparr>cs_legacy_input_enc_iv :=
                              write_at 0 (drop (length payload - 16) payload) iv\<rparr>) sv))
                       else Some (ctl_emit (ctl_input s plaintext) sv))"

text \<open>The handlers of plain messages; \<^verbatim>\<open>_map_type_cb\<close> has no others but the encrypted one.\<close>

definition plain_handler :: "u16 \<Rightarrow> nat \<Rightarrow> bytes \<Rightarrow> control_server \<Rightarrow> control_server option" where
  "plain_handler type s payload sv =
     (if type = packetTypes ! IDX_PERIODIC_PING \<or> type = packetTypes ! IDX_START_A \<or>
         type = packetTypes ! IDX_START_B then Some sv
      else if type = packetTypes ! IDX_LOSS_STATS then (if length payload < 16 then None else Some sv)
      else if type = packetTypes ! IDX_REQUEST_IDR_FRAME then Some (ctl_emit (ctl_idr s) sv)
      else if type = packetTypes ! IDX_INVALIDATE_REF_FRAMES
      then (if length payload < 16 then None
            else Some (ctl_emit (ctl_invalidate_ref_frames s (le_value (read_at 0 8 payload))
                   (le_value (read_at 8 8 payload))) sv))
      else if type = packetTypes ! IDX_INPUT_DATA then handle_input_data s payload sv
      else Some sv)"

text \<open>
  The handler of an encrypted message. What it contains is never encrypted again, so the call it
  makes is to a plain handler. The payload starts behind the two bytes of the type.
\<close>

definition handle_encrypted :: "nat \<Rightarrow> bytes \<Rightarrow> control_server \<Rightarrow> control_server option" where
  "handle_encrypted s payload sv =
     (if length payload < 6 then None
      else let len = unat (le_value (read_at 0 2 payload) :: u16); seq = le_value (read_at 2 4 payload) :: u32
           in if len < 16 + 4 + 4 then Some sv
              else if length payload < 6 + (len - 4) then None
              else let session = sv_store sv s;
                       iv = control_iv (encrypted_v2 session) 0x43 seq (cs_incoming_iv session);
                       sv = ctl_update s (\<lambda>x. x\<lparr>cs_incoming_iv := iv\<rparr>) sv
                   in case gcm_decrypt (cs_cipher session) iv (read_at 6 (len - 4) payload) of
                        None \<Rightarrow> None
                      | Some None \<Rightarrow> Some (ctl_update s session_stop sv)
                      | Some (Some plaintext) \<Rightarrow>
                          if length plaintext < 4 then None
                          else let type = le_value (take 2 plaintext)
                               in if type = packetTypes ! IDX_ENCRYPTED then Some (ctl_update s session_stop sv)
                                  else if type = packetTypes ! IDX_INPUT_DATA
                                  then Some (ctl_emit (ctl_input s (drop 4 plaintext)) sv)
                                  else plain_handler type s (drop 4 plaintext) sv)"

text \<open>\<^verbatim>\<open>control_server_t::call\<close> for a packet from the network (\<^verbatim>\<open>reinjected\<close> is false).\<close>

definition control_call :: "u16 \<Rightarrow> nat \<Rightarrow> bytes \<Rightarrow> control_server \<Rightarrow> control_server option" where
  "control_call type s payload sv =
     (if cs_controlProtocolType (sv_store sv s) = 13 \<and> type \<noteq> packetTypes ! IDX_ENCRYPTED then Some sv
      else if type = packetTypes ! IDX_ENCRYPTED then handle_encrypted s payload sv
      else plain_handler type s payload sv)"

datatype enet_event = ENET_RECEIVE bytes | ENET_CONNECT | ENET_DISCONNECT | ENET_NONE

definition control_iterate :: "int \<Rightarrow> int \<Rightarrow> nat \<Rightarrow> u32 \<Rightarrow> string \<Rightarrow> string \<Rightarrow> enet_event
    \<Rightarrow> control_server \<Rightarrow> control_server option" where
  "control_iterate now ping_timeout peer data peer_addr local_address event sv =
     (case get_session peer data peer_addr local_address sv of
        (None, sv) \<Rightarrow> Some (ctl_emit (ctl_disconnect peer) sv)
      | (Some s, sv) \<Rightarrow>
          let sv = ctl_update s (\<lambda>x. x\<lparr>cs_pingTimeout := now + ping_timeout\<rparr>) sv
          in case event of
               ENET_RECEIVE packet \<Rightarrow>
                 if length packet < 2 then None
                 else control_call (le_value (take 2 packet)) s (drop 2 packet) sv
             | ENET_CONNECT \<Rightarrow> Some sv
             | ENET_DISCONNECT \<Rightarrow> Some (ctl_update s session_stop sv)
             | ENET_NONE \<Rightarrow> Some sv)"

section \<open>The loop\<close>

text \<open>The queued feedback and the latest HDR state go to the peer.\<close>

definition flush_feedback :: "nat \<Rightarrow> control_server \<Rightarrow> control_server" where
  "flush_feedback s sv =
     (let queue = cs_feedback_queue (sv_store sv s);
          sv = fold (send_feedback_msg s) queue (ctl_update s (\<lambda>x. x\<lparr>cs_feedback_queue := []\<rparr>) sv)
      in case cs_hdr_queue (sv_store sv s) of
           None \<Rightarrow> sv
         | Some h \<Rightarrow> send_hdr_mode s h (ctl_update s (\<lambda>x. x\<lparr>cs_hdr_queue := None\<rparr>) sv))"

definition drop_session :: "nat \<Rightarrow> control_server \<Rightarrow> control_server" where
  "drop_session s sv = ctl_update s (\<lambda>x. x\<lparr>cs_controlEnd := True\<rparr>)
     (let sv = sv\<lparr>sv_sessions := remove1 s (sv_sessions sv)\<rparr>
      in case cs_peer (sv_store sv s) of
           None \<Rightarrow> sv
         | Some peer \<Rightarrow> ctl_emit (ctl_disconnect peer)
             (sv\<lparr>sv_peer_to_session := (sv_peer_to_session sv)(peer := None)\<rparr>))"

text \<open>
  One pass over the sessions: the ones that timed out are stopped, the stopping ones are removed.
  \<open>waiting\<close> is \<^verbatim>\<open>has_session_awaiting_peer\<close>.
\<close>

fun sweep_sessions :: "int \<Rightarrow> nat list \<Rightarrow> bool \<Rightarrow> control_server \<Rightarrow> bool \<times> control_server" where
  "sweep_sessions now [] waiting sv = (waiting, sv)"
| "sweep_sessions now (s # ss) waiting sv =
     (let sv = (if cs_pingTimeout (sv_store sv s) < now then ctl_update s session_stop sv else sv)
      in if cs_state (sv_store sv s) = STOPPING
         then sweep_sessions now ss waiting (drop_session s sv)
         else if cs_peer (sv_store sv s) = None then sweep_sessions now ss True sv
         else sweep_sessions now ss waiting (flush_feedback s sv))"

definition control_sweep :: "int \<Rightarrow> control_server \<Rightarrow> bool \<times> control_server" where
  "control_sweep now sv = sweep_sessions now (sv_sessions sv) False sv"

text \<open>The end of the thread: every session is told and shut down.\<close>

definition control_terminate :: "control_server \<Rightarrow> control_server" where
  "control_terminate sv = ctl_emit ctl_flush
     (fold (\<lambda>s sv. ctl_update s (\<lambda>x. x\<lparr>cs_shutdown := True, cs_controlEnd := True\<rparr>)
        (send_control s terminate_plaintext sv)) (sv_sessions sv) sv)"

text \<open>
  \<^verbatim>\<open>session::start\<close>, as the control thread sees it: first the session is listed, then it
  gets its timeout and runs.
\<close>

definition session_list :: "nat \<Rightarrow> string \<Rightarrow> control_server \<Rightarrow> control_server" where
  "session_list s addr_string sv =
     (ctl_update s (\<lambda>x. x\<lparr>cs_expected_peer_address := addr_string\<rparr>) sv)\<lparr>sv_sessions := sv_sessions sv @ [s]\<rparr>"

definition session_run :: "int \<Rightarrow> int \<Rightarrow> ctl_session \<Rightarrow> ctl_session" where
  "session_run now ping_timeout x = x\<lparr>cs_pingTimeout := now + ping_timeout, cs_state := RUNNING\<rparr>"

end
