(* ===== verification/Stream_Crypto.thy ===== *)
theory Stream_Crypto
  imports Stream_Control
begin

text \<open>
  The encryption of the streams: no initialisation vector is used twice with a client's key, what
  the host seals the client opens and the other way round, and what does not authenticate has no
  effect. The client is \<^verbatim>\<open>ControlStream.c\<close>.
\<close>

unbundle bit_operations_syntax

section \<open>Initialisation vectors\<close>

lemma length_resize_bytes [simp]: "length (resize_bytes n xs) = n"
  by (simp add: resize_bytes_def)

lemma control_iv_v2:
  shows "length (control_iv True originator seq iv) = 12"
    and "take 4 (control_iv True originator seq iv) = le_bytes 4 seq"
    and "control_iv True originator seq iv ! 10 = originator"
    and "control_iv True originator seq iv ! 11 = 0x43"
  by (simp_all add: control_iv_def write_at_def nth_append min_def)

lemma video_iv_tail: "length (video_iv counter) = 12" "video_iv counter ! 11 = 0x56"
    "take 8 (video_iv counter) = le_bytes 8 counter"
  by (simp_all add: video_iv_def nth_append)

text \<open>The vectors of the messages the host encodes one after the other.\<close>

fun host_nonces :: "ctl_session \<Rightarrow> bytes list \<Rightarrow> bytes list" where
  "host_nonces s [] = []"
| "host_nonces s (m # ms) =
     (let s = snd (encode_control s m) in cs_outgoing_iv s # host_nonces s ms)"

lemma encode_control_state:
  "cs_controlProtocolType s = 13 \<Longrightarrow> snd (encode_control s m) = s\<lparr>cs_seq := cs_seq s + 1,
    cs_outgoing_iv := control_iv (encrypted_v2 s) 0x48 (cs_seq s) (cs_outgoing_iv s)\<rparr>"
  by (simp add: encode_control_def Let_def split: option.split prod.split)

lemma encrypted_v2_update [simp]:
  "encrypted_v2 (s\<lparr>cs_seq := q, cs_outgoing_iv := iv\<rparr>) = encrypted_v2 s"
  by (simp add: encrypted_v2_def)

lemma host_nonces_seq:
  assumes "cs_controlProtocolType s = 13" and "encrypted_v2 s"
  shows "map (take 4) (host_nonces s ms) = map (\<lambda>i. le_bytes 4 (cs_seq s + of_nat i)) [0..<length ms] \<and>
    (\<forall>iv \<in> set (host_nonces s ms). iv ! 10 = 0x48 \<and> iv ! 11 = 0x43)"
  using assms
proof (induction ms arbitrary: s)
  case (Cons m ms)
  then have "cs_controlProtocolType (snd (encode_control s m)) = 13" "encrypted_v2 (snd (encode_control s m))"
    by (simp_all add: encode_control_state)
  from Cons.IH [OF this] Cons.prems show ?case
    by (simp add: Let_def encode_control_state control_iv_v2 upt_conv_Cons map_Suc_upt [symmetric] comp_def
        add.assoc del: upt_Suc)
qed simp

lemma of_nat_below_eq:
  "i < 2 ^ LENGTH('w) \<Longrightarrow> j < 2 ^ LENGTH('w) \<Longrightarrow> (of_nat i :: 'w :: len word) = of_nat j \<longleftrightarrow> i = j"
  by (metis mod_less unat_of_nat)

lemma distinct_counted:
  fixes base :: "'w :: len word"
  assumes "n \<le> 2 ^ LENGTH('w)" and "LENGTH('w) \<le> 8 * k"
  shows "distinct (map (\<lambda>i. le_bytes k (base + of_nat i)) [0..<n])"
proof -
  have "inj_on (\<lambda>i. le_bytes k (base + of_nat i)) {0..<n}"
    using assms(1) by (auto simp: inj_on_def le_bytes_inj [OF assms(2)] of_nat_below_eq)
  then show ?thesis by (simp add: distinct_map)
qed

lemma seal_shards_ivs:
  "map (\<lambda>q. take 12 (sp_prefix q)) (fst (seal_shards (Some enc) counter fi ps)) =
    map (\<lambda>i. video_iv (counter + of_nat i)) [0..<length ps]"
proof (induction ps arbitrary: counter)
  case (Cons p ps)
  show ?case
    by (simp add: seal_shard_def split_beta Let_def Cons.IH video_iv_tail upt_conv_Cons
        map_Suc_upt [symmetric] comp_def add.assoc del: upt_Suc)
qed simp

section \<open>A session to compute with\<close>

text \<open>A cipher that checks the vector it is given, and a session of the encrypted protocol.\<close>

definition sample_cipher :: gcm_cipher where
  "sample_cipher = \<lparr>gc_encrypt = \<lambda>iv p. Some (p, take 16 (iv @ replicate 16 0)),
     gc_decrypt = \<lambda>iv t x. if t = take 16 (iv @ replicate 16 0) then Some x else None\<rparr>"

definition sample_ctl_session :: "gcm_cipher \<Rightarrow> ctl_session" where
  "sample_ctl_session c = \<lparr>cs_controlProtocolType = 13, cs_encryptionFlagsEnabled = 1, cs_mlFeatureFlags = 3,
     cs_cipher = c, cs_legacy_input_enc_iv = replicate 16 0, cs_incoming_iv = [], cs_outgoing_iv = [],
     cs_connect_data = 42, cs_expected_peer_address = [], cs_peer = None, cs_seq = 0,
     cs_feedback_queue = [], cs_hdr_queue = None, cs_pingTimeout = 100, cs_localAddress = [],
     cs_launch_session_id = 1, cs_shutdown = False, cs_controlEnd = False, cs_state = RUNNING\<rparr>"

definition sample_server :: "gcm_cipher \<Rightarrow> control_server" where
  "sample_server c = \<lparr>sv_sessions = [0], sv_peer_to_session = (\<lambda>p. if p = 7 then Some 0 else None),
     sv_store = (\<lambda>_. (sample_ctl_session c)\<lparr>cs_peer := Some 7\<rparr>), sv_log = []\<rparr>"

lemma sample_ctl_simps [simp]:
  "cs_controlProtocolType (sample_ctl_session c) = 13" "encrypted_v2 (sample_ctl_session c)"
  "cs_outgoing_iv (sample_ctl_session c) = []" "cs_incoming_iv (sample_ctl_session c) = []"
  "cs_cipher (sample_ctl_session c) = c" "cs_seq (sample_ctl_session c) = 0"
  by (simp_all add: sample_ctl_session_def encrypted_v2_def SS_ENC_CONTROL_V2_def)

text \<open>
  C7. No nonce is used twice with a client's key. With the version 2 encryption of the control
  stream, the vectors of up to \<open>2 ^ 32\<close> control messages of the host and of up to \<open>2 ^ 64\<close> video
  packets are all different, and none of them is one the client uses for a message of its own,
  whatever its sequence number.
\<close>

theorem nonces_never_repeat:
  assumes "cs_controlProtocolType s = 13" and "encrypted_v2 s"
    and "length ms \<le> 2 ^ 32" and "length ps \<le> 2 ^ 64"
  shows "distinct (host_nonces s ms @
      map (\<lambda>q. take 12 (sp_prefix q)) (fst (seal_shards (Some enc) counter fi ps))) \<and>
    control_iv True 0x43 seq iv \<notin> set (host_nonces s ms @
      map (\<lambda>q. take 12 (sp_prefix q)) (fst (seal_shards (Some enc) counter fi ps)))"
proof -
  note host = host_nonces_seq [OF assms(1,2), of ms]
  have "distinct (map (take 4) (host_nonces s ms))"
    unfolding host [THEN conjunct1] using assms(3) by (intro distinct_counted) simp_all
  then have h: "distinct (host_nonces s ms)" by (simp only: distinct_map)
  have "distinct (map (\<lambda>i. le_bytes 8 (counter + of_nat i)) [0..<length ps])"
    using assms(4) by (intro distinct_counted) simp_all
  then have "distinct (map (take 8) (map (\<lambda>i. video_iv (counter + of_nat i)) [0..<length ps]))"
    by (simp add: comp_def video_iv_tail)
  then have "distinct (map (\<lambda>i. video_iv (counter + of_nat i)) [0..<length ps])" by (simp only: distinct_map)
  moreover have "v ! 11 = 0x56" if "v \<in> set (map (\<lambda>i. video_iv (counter + of_nat i)) [0..<length ps])" for v
    using that by (auto simp: video_iv_tail)
  moreover have "v ! 10 = 0x48" "v ! 11 = 0x43" if "v \<in> set (host_nonces s ms)" for v
    using host [THEN conjunct2] that by blast+
  moreover have "control_iv True 0x43 seq iv ! 10 = 0x43" "control_iv True 0x43 seq iv ! 11 = 0x43"
    by (rule control_iv_v2)+
  ultimately show ?thesis
    unfolding seal_shards_ivs distinct_append set_append using h by fastforce
qed

theorem nonces_never_repeat_witness:
  "distinct (host_nonces (sample_ctl_session sample_cipher) [[1], [2], [3]] @
      map (\<lambda>q. take 12 (sp_prefix q)) (fst (seal_shards (Some (\<lambda>iv p. (p, iv))) 0xFFFFFFFFFFFFFFFF 5 [[1], [2]])))"
  using nonces_never_repeat [of "sample_ctl_session sample_cipher" "[[1], [2], [3]]" "[[1], [2]]"] by simp

section \<open>The client's end\<close>

text \<open>
  \<^verbatim>\<open>sendMessageEnet\<close> with \<^verbatim>\<open>encryptControlMessage\<close>, for a counter \<open>seq\<close>, and
  \<^verbatim>\<open>decryptControlMessageToV1\<close>, whose result starts with the type.
\<close>

definition client_seal :: "bool \<Rightarrow> gcm_cipher \<Rightarrow> u32 \<Rightarrow> u16 \<Rightarrow> bytes \<Rightarrow> bytes option" where
  "client_seal v2 c seq ptype payload =
     (let plaintext = le_bytes 2 ptype @ le_bytes 2 (of_nat (length payload) :: u16) @ payload
      in map_option (\<lambda>(cipher, tag). le_bytes 2 (0x0001 :: u16) @
             le_bytes 2 (of_nat (4 + 16 + 4 + length payload) :: u16) @ le_bytes 4 seq @ tag @ cipher)
           (gc_encrypt c (control_iv v2 0x43 seq []) plaintext))"

definition client_open :: "bool \<Rightarrow> gcm_cipher \<Rightarrow> bytes \<Rightarrow> bytes option" where
  "client_open v2 c packet =
     (let len = unat (le_value (read_at 2 2 packet) :: u16); seq = le_value (read_at 4 4 packet)
      in if length packet < 8 \<or> length packet < len + 4 \<or> len < 4 + 16 + 4 then None
         else map_option (\<lambda>plaintext. take 2 plaintext @ drop 4 plaintext)
           (gc_decrypt c (control_iv v2 0x48 seq []) (read_at 8 16 packet) (read_at 24 (len - 4 - 16) packet)))"

text \<open>What both rely on of AES-GCM: decryption inverts encryption, and the tag has 16 bytes.\<close>

definition gcm_lawful :: "gcm_cipher \<Rightarrow> bool" where
  "gcm_lawful c \<longleftrightarrow> (\<forall>iv p. case gc_encrypt c iv p of None \<Rightarrow> False
     | Some (x, t) \<Rightarrow> length x = length p \<and> length t = 16 \<and> gc_decrypt c iv t x = Some p)"

lemma gcm_lawfulE:
  assumes "gcm_lawful c"
  obtains x t where "gc_encrypt c iv p = Some (x, t)" "length x = length p" "length t = 16"
    "gc_decrypt c iv t x = Some p"
proof -
  assume result: "\<And>x t. gc_encrypt c iv p = Some (x, t) \<Longrightarrow> length x = length p \<Longrightarrow> length t = 16 \<Longrightarrow>
    gc_decrypt c iv t x = Some p \<Longrightarrow> thesis"
  from assms have "case gc_encrypt c iv p of None \<Rightarrow> False
     | Some (x, t) \<Rightarrow> length x = length p \<and> length t = 16 \<and> gc_decrypt c iv t x = Some p"
    unfolding gcm_lawful_def by blast
  then show thesis by (cases "gc_encrypt c iv p") (auto intro: result)
qed

text \<open>A vector that is still unused or was built by the code: its middle bytes are zero.\<close>

definition clean_iv :: "bool \<Rightarrow> bytes \<Rightarrow> bool" where
  "clean_iv v2 iv \<longleftrightarrow> iv = [] \<or> (\<exists>originator seq. iv = control_iv v2 originator seq [])"

lemma control_iv_eq:
  "control_iv True originator seq iv = le_bytes 4 seq @ take 6 (drop 4 (resize_bytes 12 iv)) @ [originator, 0x43]"
  "control_iv False originator seq iv = ucast seq # drop 1 (resize_bytes 16 iv)"
  by (simp_all add: control_iv_def write_at_def drop_take)

lemma resize_bytes_same: "length xs = n \<Longrightarrow> resize_bytes n xs = xs"
  by (simp add: resize_bytes_def)

lemma control_iv_Nil:
  "control_iv True originator seq [] = le_bytes 4 seq @ replicate 6 0 @ [originator, 0x43]"
  "control_iv False originator seq [] = ucast seq # replicate 15 0"
  by (simp_all add: control_iv_eq resize_bytes_def)

lemma control_iv_clean:
  assumes "clean_iv v2 iv"
  shows "control_iv v2 originator seq iv = control_iv v2 originator seq []"
proof (cases v2)
  case True
  have "iv = [] \<or> (\<exists>o' (q :: u32). iv = le_bytes 4 q @ replicate 6 0 @ [o', 0x43])"
    using assms True by (simp add: clean_iv_def control_iv_Nil)
  then consider "iv = []" | o' q where "iv = le_bytes 4 (q :: u32) @ replicate 6 0 @ [o', 0x43]" by blast
  then have "take 6 (drop 4 (resize_bytes 12 iv)) = replicate 6 0"
  proof cases
    case 2
    have "resize_bytes 12 iv = iv" by (rule resize_bytes_same) (simp add: 2)
    then show ?thesis by (simp add: 2)
  qed (simp add: resize_bytes_def)
  then show ?thesis using True by (simp add: control_iv_Nil(1) control_iv_eq(1) [of _ _ iv])
next
  case False
  from assms consider "iv = []" | q where "iv = ucast (q :: u32) # replicate 15 0"
    using False by (auto simp: clean_iv_def control_iv_Nil)
  then have "drop 1 (resize_bytes 16 iv) = replicate 15 0"
  proof cases
    case 2
    have "resize_bytes 16 iv = iv" by (rule resize_bytes_same) (simp add: 2)
    then show ?thesis by (simp add: 2)
  qed (simp add: resize_bytes_def)
  then show ?thesis using False by (simp add: control_iv_Nil(2) control_iv_eq(2) [of _ _ iv])
qed

lemma clean_control_iv: "clean_iv v2 iv \<Longrightarrow> clean_iv v2 (control_iv v2 originator seq iv)"
  by (subst control_iv_clean) (auto simp only: clean_iv_def)

text \<open>The packets of the messages the host encodes one after the other.\<close>

fun encode_all :: "ctl_session \<Rightarrow> bytes list \<Rightarrow> bytes list" where
  "encode_all s [] = []"
| "encode_all s (m # ms) = (let (packet, s) = encode_control s m in packet # encode_all s ms)"

lemma read_at_simps: "read_at off n xs = take n (drop off xs)"
  by (simp add: read_at_def)

lemma sealed_parts:
  fixes len :: u16 and seq :: u32
  assumes "packet = le_bytes 2 (1 :: u16) @ le_bytes 2 len @ le_bytes 4 seq @ tag @ cipher" and "length tag = 16"
  shows "take 2 packet = le_bytes 2 (1 :: u16)" and "read_at 2 2 packet = le_bytes 2 len"
    and "read_at 4 4 packet = le_bytes 4 seq" and "read_at 8 16 packet = tag"
    and "drop 24 packet = cipher" and "length packet = 24 + length cipher"
  using assms by (simp_all add: read_at_def)

lemma unat_of_nat_u16: "n < 65536 \<Longrightarrow> unat (of_nat n :: u16) = n"
  by (simp add: unat_of_nat)

lemma encode_control_opens:
  assumes s: "cs_controlProtocolType s = 13" "clean_iv (encrypted_v2 s) (cs_outgoing_iv s)" and c: "gcm_lawful (cs_cipher s)"
    and body: "length body < 65000"
  shows "client_open (encrypted_v2 s) (cs_cipher s) (fst (encode_control s (control_message i body))) =
    Some (le_bytes 2 (packetTypes ! i) @ body)"
proof -
  let ?m = "control_message i body" and ?iv = "control_iv (encrypted_v2 s) 0x48 (cs_seq s) []"
  obtain x t where xt: "gc_encrypt (cs_cipher s) ?iv ?m = Some (x, t)" "length x = length ?m" "length t = 16"
    "gc_decrypt (cs_cipher s) ?iv t x = Some ?m"
    using gcm_lawfulE [OF c] by blast
  have m: "length ?m = 4 + length body" by (simp add: control_message_def)
  define len where "len = length x + 16 + 4"
  have len: "len = 24 + length body" using xt(2) m by (simp add: len_def)
  then have unat_len: "unat (of_nat len :: u16) = len" by (intro unat_of_nat_u16) (use body in simp)
  define packet where "packet = le_bytes 2 (1 :: u16) @ le_bytes 2 (of_nat len :: u16) @ le_bytes 4 (cs_seq s) @ t @ x"
  have "x \<noteq> []" using xt(2) m by auto
  then have packet: "fst (encode_control s ?m) = packet"
    using s xt(1) by (simp add: encode_control_def Let_def control_iv_clean packet_def len_def)
  note parts = sealed_parts [OF packet_def xt(3)]
  have "read_at 24 (len - 4 - 16) packet = x"
    using parts(5) by (simp add: read_at_def len_def)
  then show ?thesis
    unfolding packet client_open_def Let_def parts using len unat_len parts(6) xt m
    by (simp add: control_message_def)
qed

text \<open>
  C8. What the host sends on the encrypted control stream, the client reads. Any sequence of
  messages, encoded one after the other by a session whose outgoing vector is still unused, opens
  at the client to the types and bodies of the messages, in both versions of the encryption.
\<close>

theorem control_stream_roundtrip:
  assumes "cs_controlProtocolType s = 13" and "cs_outgoing_iv s = []" and "gcm_lawful (cs_cipher s)"
    and "\<forall>(i, body) \<in> set msgs. length body < 65000"
  shows "map (client_open (encrypted_v2 s) (cs_cipher s)) (encode_all s (map (\<lambda>(i, body). control_message i body) msgs)) =
    map (\<lambda>(i, body). Some (le_bytes 2 (packetTypes ! i) @ body)) msgs"
proof -
  have "map (client_open (encrypted_v2 s) (cs_cipher s)) (encode_all s (map (\<lambda>(i, body). control_message i body) msgs)) =
      map (\<lambda>(i, body). Some (le_bytes 2 (packetTypes ! i) @ body)) msgs"
    if "clean_iv (encrypted_v2 s) (cs_outgoing_iv s)"
    using assms(1,3,4) that
  proof (induction msgs arbitrary: s)
    case (Cons m msgs)
    obtain i body where m: "m = (i, body)" by (cases m)
    let ?s = "snd (encode_control s (control_message i body))"
    have s: "cs_controlProtocolType ?s = 13" "encrypted_v2 ?s = encrypted_v2 s" "cs_cipher ?s = cs_cipher s"
        "clean_iv (encrypted_v2 s) (cs_outgoing_iv ?s)"
      using Cons.prems(1,4) by (simp_all add: encode_control_state clean_control_iv)
    have "client_open (encrypted_v2 s) (cs_cipher s) (fst (encode_control s (control_message i body))) =
        Some (le_bytes 2 (packetTypes ! i) @ body)"
      using Cons.prems m by (intro encode_control_opens) auto
    then show ?case
      using Cons.IH [of ?s] Cons.prems s by (simp add: m split_beta Let_def)
  qed simp
  then show ?thesis using assms(2) by (simp add: clean_iv_def)
qed

lemma sample_cipher_lawful: "gcm_lawful sample_cipher"
  by (auto simp: gcm_lawful_def sample_cipher_def min_def)

theorem control_stream_roundtrip_witness:
  "map (client_open True sample_cipher) (encode_all (sample_ctl_session sample_cipher)
      [control_message IDX_HDR_MODE [1], control_message IDX_TERMINATION [0x80, 3, 0, 0x23]]) =
    [Some (le_bytes 2 (0x010e :: u16) @ [1]), Some (le_bytes 2 (0x0109 :: u16) @ [0x80, 3, 0, 0x23])]"
  using control_stream_roundtrip [of "sample_ctl_session sample_cipher"
      "[(IDX_HDR_MODE, [1]), (IDX_TERMINATION, [0x80, 3, 0, 0x23])]"]
  by (simp add: sample_cipher_lawful idx_defs)

section \<open>Towards the host\<close>

lemma ctl_update_same [simp]: "sv_store (ctl_update s f sv) s = f (sv_store sv s)"
  by (simp add: ctl_update_def)

lemma ctl_update_keeps [simp]:
  "sv_sessions (ctl_update s f sv) = sv_sessions sv" "sv_log (ctl_update s f sv) = sv_log sv"
  "sv_peer_to_session (ctl_update s f sv) = sv_peer_to_session sv"
  "s' \<noteq> s \<Longrightarrow> sv_store (ctl_update s f sv) s' = sv_store sv s'"
  by (simp_all add: ctl_update_def)

lemma encrypted_v2_keeps [simp]:
  "encrypted_v2 (x\<lparr>cs_pingTimeout := t\<rparr>) = encrypted_v2 x"
  "encrypted_v2 (x\<lparr>cs_incoming_iv := iv\<rparr>) = encrypted_v2 x"
  by (simp_all add: encrypted_v2_def)

text \<open>Receiving a packet of a peer that is bound to a session of the encrypted protocol.\<close>

lemma iterate_bound:
  assumes "sv_peer_to_session sv peer = Some s" and "cs_controlProtocolType (sv_store sv s) = 13"
    and "2 \<le> length packet"
  shows "control_iterate now timeout peer data peer_addr local_address (ENET_RECEIVE packet) sv =
    (let sv = ctl_update s (\<lambda>x. x\<lparr>cs_pingTimeout := now + timeout\<rparr>) sv
     in if le_value (take 2 packet) = packetTypes ! IDX_ENCRYPTED then handle_encrypted s (drop 2 packet) sv
        else Some sv)"
  using assms by (auto simp: control_iterate_def get_session_def control_call_def Let_def)

text \<open>
  C9. A message of the client has its effect at the host. What the client seals with any sequence
  number is decrypted, and exactly its input, or its handler, follows; the sequence number is not
  compared with earlier ones, so a replayed packet is handled again.
\<close>

theorem client_message_handled:
  assumes bound: "sv_peer_to_session sv peer = Some s" and proto: "cs_controlProtocolType (sv_store sv s) = 13"
    and iv: "clean_iv (encrypted_v2 (sv_store sv s)) (cs_incoming_iv (sv_store sv s))"
    and cipher: "gcm_lawful (cs_cipher (sv_store sv s))"
    and ptype: "ptype \<noteq> packetTypes ! IDX_ENCRYPTED" and len: "length payload < 65000"
    and packet: "client_seal (encrypted_v2 (sv_store sv s)) (cs_cipher (sv_store sv s)) seq ptype payload = Some packet"
  shows "\<exists>sv'. sv' = ctl_update s (\<lambda>x. x\<lparr>cs_pingTimeout := now + timeout,
      cs_incoming_iv := control_iv (encrypted_v2 (sv_store sv s)) 0x43 seq []\<rparr>) sv \<and>
    control_iterate now timeout peer data peer_addr local_address (ENET_RECEIVE packet) sv =
      (if ptype = packetTypes ! IDX_INPUT_DATA then Some (ctl_emit (ctl_input s payload) sv')
       else plain_handler ptype s payload sv')"
proof -
  let ?x = "sv_store sv s"
  let ?iv = "control_iv (encrypted_v2 ?x) 0x43 seq []"
  define plaintext where "plaintext = le_bytes 2 ptype @ le_bytes 2 (of_nat (length payload) :: u16) @ payload"
  obtain x t where xt: "gc_encrypt (cs_cipher ?x) ?iv plaintext = Some (x, t)" "length x = length plaintext"
    "length t = 16" "gc_decrypt (cs_cipher ?x) ?iv t x = Some plaintext"
    using gcm_lawfulE [OF cipher] by blast
  have m: "length plaintext = 4 + length payload" by (simp add: plaintext_def)
  define n where "n = 4 + 16 + 4 + length payload"
  have n: "unat (of_nat n :: u16) = n" unfolding n_def by (intro unat_of_nat_u16) (use len in simp)
  have packet: "packet = le_bytes 2 (1 :: u16) @ le_bytes 2 (of_nat n :: u16) @ le_bytes 4 seq @ t @ x"
    using packet xt(1) by (simp add: client_seal_def Let_def plaintext_def [symmetric] n_def)
  note parts = sealed_parts [OF packet xt(3)]
  have reads: "read_at 0 2 (drop 2 packet) = le_bytes 2 (of_nat n :: u16)" "read_at 2 4 (drop 2 packet) = le_bytes 4 seq"
    "take 16 (read_at 6 (n - 4) (drop 2 packet)) = t" "drop 16 (read_at 6 (n - 4) (drop 2 packet)) = x"
    using xt(2,3) m by (simp_all add: packet read_at_def n_def)
  have len16: "length (read_at 6 (n - 4) (drop 2 packet)) = n - 4"
    using parts(6) xt(2) m by (simp add: read_at_def n_def)
  have vals: "unat (le_value (read_at 0 2 (drop 2 packet)) :: u16) = n"
    "le_value (read_at 2 4 (drop 2 packet)) = seq" unfolding reads using n by simp_all
  have bounds: "24 \<le> n" "6 + (n - 4) \<le> length (drop 2 packet)" "6 \<le> length (drop 2 packet)" "16 \<le> n - 4"
    using parts(6) xt(2) m by (simp_all add: n_def)
  define sv1 where "sv1 = ctl_update s (\<lambda>x. x\<lparr>cs_pingTimeout := now + timeout\<rparr>) sv"
  define sv' where "sv' = ctl_update s (\<lambda>x. x\<lparr>cs_pingTimeout := now + timeout, cs_incoming_iv := ?iv\<rparr>) sv"
  have sv': "ctl_update s (\<lambda>x. x\<lparr>cs_incoming_iv := ?iv\<rparr>) sv1 = sv'"
    by (simp add: sv1_def sv'_def ctl_update_def)
  have civ: "control_iv (encrypted_v2 ?x) 0x43 seq (cs_incoming_iv ?x) = ?iv" by (rule control_iv_clean [OF iv])
  have sv1: "cs_incoming_iv (sv_store sv1 s) = cs_incoming_iv ?x" "encrypted_v2 (sv_store sv1 s) = encrypted_v2 ?x"
    "cs_cipher (sv_store sv1 s) = cs_cipher ?x" by (simp_all add: sv1_def)
  have body: "take 2 plaintext = le_bytes 2 ptype" "drop 4 plaintext = payload" by (simp_all add: plaintext_def)
  have "control_iterate now timeout peer data peer_addr local_address (ENET_RECEIVE packet) sv =
      handle_encrypted s (drop 2 packet) sv1"
    using iterate_bound [OF bound proto, of packet] parts(1,6)
    by (simp add: sv1_def Let_def idx_defs)
  also have "\<dots> = (if ptype = packetTypes ! IDX_INPUT_DATA then Some (ctl_emit (ctl_input s payload) sv')
       else plain_handler ptype s payload sv')"
    unfolding handle_encrypted_def Let_def vals sv1 civ sv' gcm_decrypt_def len16 reads(3,4)
    using bounds xt(4) m ptype body by simp
  finally show ?thesis unfolding sv'_def by blast
qed

lemma sample_server_simps [simp]:
  "sv_peer_to_session (sample_server c) 7 = Some 0"
  "sv_store (sample_server c) 0 = (sample_ctl_session c)\<lparr>cs_peer := Some 7\<rparr>" "sv_log (sample_server c) = []"
  by (simp_all add: sample_server_def)

lemma encrypted_v2_peer [simp]: "encrypted_v2 (x\<lparr>cs_peer := p\<rparr>) = encrypted_v2 x"
  by (simp add: encrypted_v2_def)

theorem client_message_handled_witness:
  "\<exists>packet sv'. client_seal True sample_cipher 9 0x0206 [1, 2, 3] = Some packet \<and>
    control_iterate 50 10000 7 0 [] [] (ENET_RECEIVE packet) (sample_server sample_cipher) = Some sv' \<and>
    sv_log sv' = [ctl_input 0 [1, 2, 3]]"
proof -
  obtain packet where packet: "client_seal True sample_cipher 9 0x0206 [1, 2, 3] = Some packet"
    by (simp add: client_seal_def Let_def sample_cipher_def)
  then show ?thesis
    using client_message_handled [of "sample_server sample_cipher" 7 0 "0x0206" "[1, 2, 3]" 9 packet 50 10000 0 "[]" "[]"]
    by (auto simp: clean_iv_def sample_cipher_lawful idx_defs ctl_emit_def)
qed

text \<open>
  The length an encrypted packet announces behind its type, whether a packet holds what it announces, and
  whether the cipher accepts its tag and text under the vector that the session builds for it.
\<close>

definition announced :: "bytes \<Rightarrow> nat" where
  "announced packet = unat (le_value (read_at 2 2 packet) :: u16)"

definition complete :: "bytes \<Rightarrow> bool" where
  "complete packet \<longleftrightarrow> 2 \<le> length packet \<and>
     (le_value (take 2 packet) = packetTypes ! IDX_ENCRYPTED \<longrightarrow> 8 \<le> length packet \<and> announced packet + 4 \<le> length packet)"

definition authentic :: "ctl_session \<Rightarrow> bytes \<Rightarrow> bool" where
  "authentic x packet \<longleftrightarrow>
     gc_decrypt (cs_cipher x) (control_iv (encrypted_v2 x) 0x43 (le_value (read_at 4 4 packet)) (cs_incoming_iv x))
       (read_at 8 16 packet) (read_at 24 (announced packet - 20) packet) \<noteq> None"

lemma handle_forged:
  assumes packet: "complete packet" "le_value (take 2 packet) = packetTypes ! IDX_ENCRYPTED" "\<not> authentic (sv_store sv s) packet" and runt: "24 \<le> announced packet"
  shows "handle_encrypted s (drop 2 packet) sv = Some (ctl_update s session_stop (ctl_update s (\<lambda>x. x\<lparr>cs_incoming_iv :=
    control_iv (encrypted_v2 (sv_store sv s)) 0x43 (le_value (read_at 4 4 packet)) (cs_incoming_iv (sv_store sv s))\<rparr>) sv))"
proof -
  have reads: "read_at 0 2 (drop 2 packet) = read_at 2 2 packet" "read_at 2 4 (drop 2 packet) = read_at 4 4 packet"
    "read_at 6 (announced packet - 4) (drop 2 packet) = take (announced packet - 4) (drop 8 packet)"
    by (simp_all add: read_at_def)
  have tag: "take 16 (take (announced packet - 4) (drop 8 packet)) = read_at 8 16 packet"
    "drop 16 (take (announced packet - 4) (drop 8 packet)) = read_at 24 (announced packet - 20) packet"
    using runt by (simp_all add: read_at_def drop_take min_def)
  have bounds: "\<not> length (drop 2 packet) < 6" "\<not> length (drop 2 packet) < 6 + (announced packet - 4)"
    "\<not> length (take (announced packet - 4) (drop 8 packet)) < 16"
    using packet(1,2) runt by (auto simp: complete_def)
  show ?thesis
    using assms tag bounds
    unfolding handle_encrypted_def reads Let_def announced_def [symmetric] gcm_decrypt_def complete_def authentic_def
    by (simp add: reads)
qed

text \<open>
  C10. What does not authenticate has no effect. A packet for a session of the encrypted protocol that
  is not of the encrypted type, that announces less than a header and a tag, or whose tag and text
  the cipher rejects under the vector built for it, reaches neither the input nor any handler: the host
  goes on, nothing is emitted, and no other session and no binding changes. The session gets its
  timeout; if the cipher was asked, it also has the vector of the packet, and it is stopped. The packet
  must have a type and, if of the encrypted type, its header and as many bytes as that announces: the
  code reads past the end of one that does not.
\<close>

theorem forged_packet_ignored:
  fixes sv s packet now timeout
  defines "x \<equiv> sv_store sv s" and "asked \<equiv> le_value (take 2 packet) = packetTypes ! IDX_ENCRYPTED \<and> 24 \<le> announced packet"
  assumes "sv_peer_to_session sv peer = Some s" and "cs_controlProtocolType x = 13"
    and "complete packet" and "asked \<longrightarrow> \<not> authentic x packet"
  shows "\<exists>sv'. control_iterate now timeout peer data peer_addr local_address (ENET_RECEIVE packet) sv = Some sv' \<and>
    sv_log sv' = sv_log sv \<and> sv_sessions sv' = sv_sessions sv \<and>
    sv_peer_to_session sv' = sv_peer_to_session sv \<and> (\<forall>s'. s' \<noteq> s \<longrightarrow> sv_store sv' s' = sv_store sv s') \<and>
    sv_store sv' s =
      (if asked
       then session_stop (x\<lparr>cs_pingTimeout := now + timeout, cs_incoming_iv :=
         control_iv (encrypted_v2 x) 0x43 (le_value (read_at 4 4 packet)) (cs_incoming_iv x)\<rparr>)
       else x\<lparr>cs_pingTimeout := now + timeout\<rparr>)"
proof -
  have two: "2 \<le> length packet" using assms(5) by (simp add: complete_def)
  define sv1 where "sv1 = ctl_update s (\<lambda>x. x\<lparr>cs_pingTimeout := now + timeout\<rparr>) sv"
  note iterate = iterate_bound [OF assms(3) assms(4) [unfolded x_def] two, unfolded Let_def, folded sv1_def]
  show ?thesis
  proof (cases asked)
    case True
    have "\<not> authentic (sv_store sv1 s) packet"
      using assms(6) True by (simp add: sv1_def x_def authentic_def)
    from handle_forged [OF assms(5) _ this] True iterate show ?thesis
      by (auto simp: asked_def sv1_def x_def)
  next
    case False
    have "handle_encrypted s (drop 2 packet) sv1 = Some sv1"
      if "announced packet < 24" "le_value (take 2 packet) = packetTypes ! IDX_ENCRYPTED"
      using that assms(5) by (simp add: handle_encrypted_def Let_def announced_def complete_def read_at_def
        less_diff_conv linorder_not_less) linarith
    with False iterate show ?thesis by (auto simp: asked_def sv1_def x_def)
  qed
qed

theorem forged_packet_ignored_witness:
  "gcm_lawful sample_cipher \<and>
   (\<exists>sv'. control_iterate 50 10000 7 0 [] [] (ENET_RECEIVE ([1, 0, 24, 0, 9, 0, 0, 0] @ replicate 20 0))
      (sample_server sample_cipher) = Some sv' \<and> sv_log sv' = [] \<and> cs_shutdown (sv_store sv' 0))"
proof -
  let ?packet = "[1, 0, 24, 0, 9, 0, 0, 0] @ replicate 20 0"
  have packet: "complete ?packet" "le_value (take 2 ?packet) = packetTypes ! IDX_ENCRYPTED" "24 \<le> announced ?packet"
    "\<not> authentic (sv_store (sample_server sample_cipher) 0) ?packet"
    by code_simp+
  then show ?thesis
    using forged_packet_ignored [of "sample_server sample_cipher" 7 0 ?packet 50 10000 0 "[]" "[]"] sample_cipher_lawful
    by (auto simp: session_stop_def sample_ctl_session_def)
qed

text \<open>
  The lengths in the packets of the control stream are not checked. A peer that is bound to a
  session makes the host read past the end of its packet, with no key: in the encrypted protocol by
  a header whose length exceeds the packet, and in the old protocol by an input message, whose length
  is believed whatever it is; a length below 16 lets an exception escape from the control thread.
\<close>

theorem control_lengths_unchecked:
  assumes "sv_peer_to_session sv peer = Some s"
  shows "(cs_controlProtocolType (sv_store sv s) = 13 \<longrightarrow> 24 \<le> len \<longrightarrow> len < 65536 \<longrightarrow>
      length rest < len - 4 \<longrightarrow> control_iterate now timeout peer data peer_addr local_address
        (ENET_RECEIVE (le_bytes 2 (packetTypes ! IDX_ENCRYPTED) @ le_bytes 2 (of_nat len :: u16) @ le_bytes 4 (seq :: u32) @ rest)) sv = None) \<and>
    (cs_controlProtocolType (sv_store sv s) \<noteq> 13 \<longrightarrow>
      sint n < 16 \<or> int (length rest) < sint n \<longrightarrow> control_iterate now timeout peer data peer_addr local_address
        (ENET_RECEIVE (le_bytes 2 (packetTypes ! IDX_INPUT_DATA) @ be_bytes 4 (n :: u32) @ rest)) sv = None)"
proof (intro conjI impI)
  assume proto: "cs_controlProtocolType (sv_store sv s) = 13" and len: "24 \<le> len" "len < 65536" "length rest < len - 4"
  let ?packet = "le_bytes 2 (packetTypes ! IDX_ENCRYPTED) @ le_bytes 2 (of_nat len :: u16) @ le_bytes 4 seq @ rest"
  have "take 2 ?packet = le_bytes 2 (packetTypes ! IDX_ENCRYPTED)" "2 \<le> length ?packet"
    "read_at 0 2 (drop 2 ?packet) = le_bytes 2 (of_nat len :: u16)" "length (drop 2 ?packet) = 6 + length rest"
    by (simp_all add: read_at_def)
  moreover have "4 + length rest < len" using len by linarith
  ultimately show "control_iterate now timeout peer data peer_addr local_address (ENET_RECEIVE ?packet) sv = None"
    using iterate_bound [OF assms proto, of ?packet] unat_of_nat_u16 [OF len(2)] len(1)
    by (simp add: Let_def handle_encrypted_def)
next
  assume proto: "cs_controlProtocolType (sv_store sv s) \<noteq> 13" and n: "sint n < 16 \<or> int (length rest) < sint n"
  let ?packet = "le_bytes 2 (packetTypes ! IDX_INPUT_DATA) @ be_bytes 4 n @ rest"
  define sv1 where "sv1 = ctl_update s (\<lambda>x. x\<lparr>cs_pingTimeout := now + timeout\<rparr>) sv"
  have parts: "take 2 ?packet = le_bytes 2 (packetTypes ! IDX_INPUT_DATA)" "drop 2 ?packet = be_bytes 4 n @ rest"
    by simp_all
  have call: "control_call (packetTypes ! IDX_INPUT_DATA) s (be_bytes 4 n @ rest) sv1 =
      handle_input_data s (be_bytes 4 n @ rest) sv1"
    using proto by (simp add: control_call_def plain_handler_def idx_defs sv1_def)
  have "control_iterate now timeout peer data peer_addr local_address (ENET_RECEIVE ?packet) sv =
      handle_input_data s (be_bytes 4 n @ rest) sv1"
    unfolding control_iterate_def get_session_def enet_event.case parts assms option.case prod.case Let_def
    unfolding sv1_def [symmetric] by (simp add: call)
  also have "\<dots> = None"
    using n by (auto simp: handle_input_data_def Let_def gcm_decrypt_def read_at_def)
  finally show "control_iterate now timeout peer data peer_addr local_address (ENET_RECEIVE ?packet) sv = None" .
qed

theorem control_lengths_unchecked_witness:
  "control_iterate 50 10000 7 0 [] [] (ENET_RECEIVE (le_bytes 2 (packetTypes ! IDX_ENCRYPTED) @
      le_bytes 2 (of_nat 65535 :: u16) @ le_bytes 4 (0 :: u32) @ [])) (sample_server sample_cipher) = None"
  using control_lengths_unchecked [of "sample_server sample_cipher" 7 0 65535 "[]" 50 10000 0 "[]" "[]" 0 0] by simp

end
