(* ===== verification/Stream_Sessions.thy ===== *)
theory Stream_Sessions
  imports Stream_Crypto
begin

text \<open>
  The table of sessions and peers of the control server, over every interleaving of the control
  thread with the threads that start and stop sessions and queue feedback.
\<close>

section \<open>Operations that leave the table alone\<close>

definition same_table :: "control_server \<Rightarrow> control_server \<Rightarrow> bool" where
  "same_table sv sv' \<longleftrightarrow> sv_sessions sv' = sv_sessions sv \<and> sv_peer_to_session sv' = sv_peer_to_session sv \<and>
     (\<forall>s. cs_peer (sv_store sv' s) = cs_peer (sv_store sv s) \<and>
       (cs_controlEnd (sv_store sv s) \<longrightarrow> cs_controlEnd (sv_store sv' s)) \<and>
       (cs_shutdown (sv_store sv s) \<longrightarrow> cs_shutdown (sv_store sv' s)) \<and>
       (cs_state (sv_store sv' s) = STOPPING \<longrightarrow> cs_state (sv_store sv s) = STOPPING \<or> cs_shutdown (sv_store sv' s)))"

named_theorems table_intros

lemma same_table_refl [simp, table_intros]: "same_table sv sv"
  by (simp add: same_table_def)

lemma same_table_trans: "same_table sv sv' \<Longrightarrow> same_table sv' sv'' \<Longrightarrow> same_table sv sv''"
  unfolding same_table_def by (elim conjE; intro conjI) (simp, simp, metis)

lemma same_table_emit [simp, table_intros]: "same_table sv (ctl_emit e sv)"
  by (simp add: same_table_def ctl_emit_def)

text \<open>What a session may change without touching the table.\<close>

definition quiet :: "(ctl_session \<Rightarrow> ctl_session) \<Rightarrow> bool" where
  "quiet f \<longleftrightarrow> (\<forall>x. cs_peer (f x) = cs_peer x \<and> (cs_controlEnd x \<longrightarrow> cs_controlEnd (f x)) \<and>
     (cs_shutdown x \<longrightarrow> cs_shutdown (f x)) \<and>
     (cs_state (f x) = STOPPING \<longrightarrow> cs_state x = STOPPING \<or> cs_shutdown (f x)))"

lemma same_table_update [table_intros]: "quiet f \<Longrightarrow> same_table sv (ctl_update s f sv)"
  by (simp add: same_table_def quiet_def ctl_update_def)

lemma quiet_updates [simp]:
  "quiet (\<lambda>x. x\<lparr>cs_pingTimeout := t\<rparr>)" "quiet (\<lambda>x. x\<lparr>cs_incoming_iv := iv\<rparr>)"
  "quiet (\<lambda>x. x\<lparr>cs_legacy_input_enc_iv := iv\<rparr>)" "quiet (\<lambda>x. x\<lparr>cs_feedback_queue := q\<rparr>)"
  "quiet (\<lambda>x. x\<lparr>cs_hdr_queue := h\<rparr>)" "quiet session_stop"
  "quiet (\<lambda>x. x\<lparr>cs_feedback_queue := cs_feedback_queue x @ q\<rparr>)"
  "quiet (session_run now timeout)"
  by (simp_all add: quiet_def session_stop_def session_run_def)

lemma encode_control_quiet:
  "cs_peer (snd (encode_control x m)) = cs_peer x" "cs_controlEnd (snd (encode_control x m)) = cs_controlEnd x"
  "cs_shutdown (snd (encode_control x m)) = cs_shutdown x" "cs_state (snd (encode_control x m)) = cs_state x"
  "cs_hdr_queue (snd (encode_control x m)) = cs_hdr_queue x"
  by (simp_all add: encode_control_def Let_def split: option.split prod.split)

lemma same_table_send [simp]: "same_table sv (send_control s m sv)"
proof (cases "cs_peer (sv_store sv s)")
  case (Some peer)
  have "same_table sv (ctl_update s (\<lambda>_. snd (encode_control (sv_store sv s) m)) sv)"
    by (simp add: same_table_def ctl_update_def encode_control_quiet)
  then show ?thesis
    unfolding send_control_def Some by (simp add: split_beta Let_def same_table_trans [OF _ same_table_emit])
qed (simp add: send_control_def)

lemma same_table_fold:
  "(\<And>x sv. x \<in> set xs \<Longrightarrow> same_table sv (f x sv)) \<Longrightarrow> same_table sv (fold f xs sv)"
proof (induction xs arbitrary: sv)
  case (Cons x xs)
  then show ?case using same_table_trans [of sv "f x sv"] by simp
qed simp

lemma same_table_flush [simp]: "same_table sv (flush_feedback s sv)"
proof -
  define sv1 where "sv1 = fold (send_feedback_msg s) (cs_feedback_queue (sv_store sv s))
    (ctl_update s (\<lambda>x. x\<lparr>cs_feedback_queue := []\<rparr>) sv)"
  have "same_table (ctl_update s (\<lambda>x. x\<lparr>cs_feedback_queue := []\<rparr>) sv) sv1"
    unfolding sv1_def by (rule same_table_fold) (simp add: send_feedback_msg_def)
  then have 1: "same_table sv sv1" using same_table_trans [OF same_table_update [OF quiet_updates(4)]] by blast
  show ?thesis
  proof (cases "cs_hdr_queue (sv_store sv1 s)")
    case None
    then show ?thesis using 1 by (simp add: flush_feedback_def Let_def sv1_def [symmetric])
  next
    case (Some h)
    have "same_table sv1 (ctl_update s (\<lambda>x. x\<lparr>cs_hdr_queue := None\<rparr>) sv1)" by (rule same_table_update) simp
    then have "same_table sv1 (send_hdr_mode s h (ctl_update s (\<lambda>x. x\<lparr>cs_hdr_queue := None\<rparr>) sv1))"
      unfolding send_hdr_mode_def by (rule same_table_trans) simp
    then show ?thesis using Some same_table_trans [OF 1]
      by (simp add: flush_feedback_def Let_def sv1_def [symmetric])
  qed
qed

lemma same_table_input_data: "handle_input_data s payload sv = Some sv' \<Longrightarrow> same_table sv sv'"
  unfolding handle_input_data_def Let_def
  by (auto split: if_splits option.splits intro!: same_table_update same_table_trans [OF _ same_table_emit])

lemma same_table_plain: "plain_handler type s payload sv = Some sv' \<Longrightarrow> same_table sv sv'"
  unfolding plain_handler_def by (auto split: if_splits dest: same_table_input_data)

lemma same_table_encrypted:
  assumes "handle_encrypted s payload sv = Some sv'"
  shows "same_table sv sv'"
proof -
  define sv1 where "sv1 = ctl_update s (\<lambda>x. x\<lparr>cs_incoming_iv := control_iv (encrypted_v2 (sv_store sv s)) 0x43
    (le_value (read_at 2 4 payload)) (cs_incoming_iv (sv_store sv s))\<rparr>) sv"
  have "sv' = sv \<or> sv' = ctl_update s session_stop sv1 \<or> (\<exists>e. sv' = ctl_emit e sv1) \<or>
      (\<exists>type p. plain_handler type s p sv1 = Some sv')"
    using assms unfolding handle_encrypted_def Let_def sv1_def [symmetric]
    by (auto split: if_splits option.splits)
  moreover have "same_table sv sv1" unfolding sv1_def by (rule same_table_update) simp
  ultimately show ?thesis
    using same_table_trans [of sv sv1] same_table_plain same_table_update [OF quiet_updates(6)]
      same_table_emit same_table_refl by blast
qed

lemma same_table_call: "control_call type s payload sv = Some sv' \<Longrightarrow> same_table sv sv'"
  unfolding control_call_def by (auto split: if_splits dest: same_table_plain same_table_encrypted)

section \<open>The invariant\<close>

text \<open>
  \<open>started\<close> are the sessions that were ever started: they are listed, or they were told to shut
  down and their \<^verbatim>\<open>controlEnd\<close> is raised, so that \<^verbatim>\<open>session::join\<close> can go on.
\<close>

definition control_inv :: "nat set \<Rightarrow> control_server \<Rightarrow> bool" where
  "control_inv started sv \<longleftrightarrow> distinct (sv_sessions sv) \<and> set (sv_sessions sv) \<subseteq> started \<and>
     (\<forall>p s. sv_peer_to_session sv p = Some s \<longleftrightarrow> s \<in> set (sv_sessions sv) \<and> cs_peer (sv_store sv s) = Some p) \<and>
     (\<forall>s \<in> started. (cs_state (sv_store sv s) = STOPPING \<longrightarrow> cs_shutdown (sv_store sv s)) \<and>
       (s \<in> set (sv_sessions sv) \<or> cs_shutdown (sv_store sv s) \<and> cs_controlEnd (sv_store sv s)))"

lemma same_table_inv: "control_inv started sv \<Longrightarrow> same_table sv sv' \<Longrightarrow> control_inv started sv'"
  unfolding control_inv_def same_table_def by (elim conjE) auto

lemma get_session_inv:
  assumes "control_inv started sv"
  shows "control_inv started (snd (get_session peer data peer_addr local_address sv))"
proof (cases "sv_peer_to_session sv peer")
  case None
  show ?thesis
  proof (cases "find (\<lambda>s. session_matches data peer_addr (sv_store sv s)) (sv_sessions sv)")
    case (Some s)
    then have s: "s \<in> set (sv_sessions sv)" "cs_peer (sv_store sv s) = None"
      by (auto simp: find_Some_iff session_matches_def)
    have "cs_peer (sv_store sv x) \<noteq> Some peer" if "x \<in> set (sv_sessions sv)" for x
      using assms None that unfolding control_inv_def by (metis option.distinct(1))
    then show ?thesis
      using assms None Some s unfolding control_inv_def get_session_def
      by (auto simp: ctl_update_def ctl_emit_def split: if_splits)
  qed (use assms None in \<open>simp add: get_session_def\<close>)
qed (use assms in \<open>simp add: get_session_def\<close>)

lemma control_iterate_inv:
  assumes "control_inv started sv"
    and "control_iterate now timeout peer data peer_addr local_address event sv = Some sv'"
  shows "control_inv started sv'"
proof -
  obtain found sv1 where get: "get_session peer data peer_addr local_address sv = (found, sv1)" by fastforce
  then have inv: "control_inv started sv1" using get_session_inv [OF assms(1)] by (metis snd_conv)
  have "same_table sv1 sv'"
  proof (cases found)
    case None
    then show ?thesis using assms(2) get by (auto simp: control_iterate_def)
  next
    case (Some s)
    define sv2 where "sv2 = ctl_update s (\<lambda>x. x\<lparr>cs_pingTimeout := now + timeout\<rparr>) sv1"
    have "same_table sv1 sv2" unfolding sv2_def by (rule same_table_update) simp
    moreover have "same_table sv2 sv'"
      using assms(2) get Some same_table_update [OF quiet_updates(6), of sv2 s]
      by (auto simp: control_iterate_def Let_def sv2_def [symmetric] split: enet_event.splits if_splits
          dest: same_table_call)
    ultimately show ?thesis by (rule same_table_trans)
  qed
  then show ?thesis by (rule same_table_inv [OF inv])
qed

lemma remove_session_inv:
  assumes inv: "control_inv started sv" and s: "s \<in> set (sv_sessions sv)" "cs_state (sv_store sv s) = STOPPING"
  shows "control_inv started (drop_session s sv)"
proof -
  have d: "distinct (sv_sessions sv)" "set (sv_sessions sv) \<subseteq> started"
    and bound: "\<And>p x. sv_peer_to_session sv p = Some x \<longleftrightarrow> x \<in> set (sv_sessions sv) \<and> cs_peer (sv_store sv x) = Some p"
    and ended: "\<And>x. x \<in> started \<Longrightarrow> (cs_state (sv_store sv x) = STOPPING \<longrightarrow> cs_shutdown (sv_store sv x)) \<and>
       (x \<in> set (sv_sessions sv) \<or> cs_shutdown (sv_store sv x) \<and> cs_controlEnd (sv_store sv x))"
    using inv unfolding control_inv_def by blast+
  have "x = y" if "x \<in> set (sv_sessions sv)" "y \<in> set (sv_sessions sv)"
      "cs_peer (sv_store sv x) = Some p" "cs_peer (sv_store sv y) = Some p" for x y p
    using bound [of p x] bound [of p y] that by simp
  moreover have "s \<in> started" using d s by blast
  ultimately show ?thesis
    using d bound ended s unfolding control_inv_def drop_session_def
    by (cases "cs_peer (sv_store sv s)") (auto simp: ctl_update_def ctl_emit_def)
qed

lemma send_control_other: "s' \<noteq> s \<Longrightarrow> sv_store (send_control s m sv) s' = sv_store sv s'"
  by (simp add: send_control_def split_beta Let_def ctl_update_def ctl_emit_def split: option.split)

lemma flush_feedback_other: "s' \<noteq> s \<Longrightarrow> sv_store (flush_feedback s sv) s' = sv_store sv s'"
proof -
  assume other: "s' \<noteq> s"
  have "sv_store (fold (send_feedback_msg s) msgs sv) s' = sv_store sv s'" for msgs and sv :: control_server
    by (induction msgs arbitrary: sv) (simp_all add: send_feedback_msg_def send_control_other other)
  then show ?thesis
    using other by (simp add: flush_feedback_def Let_def send_hdr_mode_def send_control_other split: option.split)
qed

text \<open>The sessions a pass removes: those that are stopping, and the running ones that timed out.\<close>

definition session_dead :: "int \<Rightarrow> ctl_session \<Rightarrow> bool" where
  "session_dead now x \<longleftrightarrow> cs_state x = STOPPING \<or> cs_state x = RUNNING \<and> cs_pingTimeout x < now"

lemma sweep_sessions_inv:
  assumes "control_inv started sv" and "distinct ss" and "set ss \<subseteq> set (sv_sessions sv)"
  shows "control_inv started (snd (sweep_sessions now ss waiting sv)) \<and>
    sv_sessions (snd (sweep_sessions now ss waiting sv)) =
      filter (\<lambda>s. s \<notin> set ss \<or> \<not> session_dead now (sv_store sv s)) (sv_sessions sv)"
  using assms
proof (induction ss arbitrary: sv waiting)
  case (Cons s ss)
  define sv1 where "sv1 = (if cs_pingTimeout (sv_store sv s) < now then ctl_update s session_stop sv else sv)"
  have t1: "same_table sv sv1" by (simp add: sv1_def same_table_update)
  then have inv1: "control_inv started sv1" by (rule same_table_inv [OF Cons.prems(1)])
  have sessions1: "sv_sessions sv1 = sv_sessions sv" using t1 by (simp add: same_table_def)
  have other1: "sv_store sv1 s' = sv_store sv s'" if "s' \<noteq> s" for s' using that by (simp add: sv1_def)
  have dead: "cs_state (sv_store sv1 s) = STOPPING \<longleftrightarrow> session_dead now (sv_store sv s)"
    by (simp add: sv1_def session_stop_def session_dead_def)
  have s: "s \<in> set (sv_sessions sv1)" "s \<notin> set ss" using Cons.prems sessions1 by auto
  have d: "distinct (sv_sessions sv)" using Cons.prems(1) by (simp add: control_inv_def)
  have alive: "filter (\<lambda>x. x \<notin> set ss \<or> \<not> session_dead now (sv_store sv2 x)) xs =
      filter (\<lambda>x. x \<notin> set (s # ss) \<or> \<not> session_dead now (sv_store sv x)) (sv_sessions sv)"
    if "xs = (if session_dead now (sv_store sv s) then remove1 s (sv_sessions sv) else sv_sessions sv)"
      and "\<And>x. x \<noteq> s \<Longrightarrow> sv_store sv2 x = sv_store sv x" for sv2 xs
  proof -
    have "xs = filter (\<lambda>x. x \<noteq> s \<or> \<not> session_dead now (sv_store sv s)) (sv_sessions sv)"
      using that(1) d by (simp add: distinct_remove1_removeAll removeAll_filter_not_eq eq_commute)
    moreover have "sv_store sv2 x = sv_store sv x" if "x \<in> set ss" for x
      using that s(2) \<open>\<And>x. x \<noteq> s \<Longrightarrow> sv_store sv2 x = sv_store sv x\<close> by (cases "x = s") auto
    ultimately show ?thesis using s(2) by (auto intro!: filter_cong)
  qed
  show ?case
  proof (cases "cs_state (sv_store sv1 s) = STOPPING")
    case True
    define sv2 where "sv2 = drop_session s sv1"
    have inv2: "control_inv started sv2" unfolding sv2_def by (rule remove_session_inv [OF inv1 s(1) True])
    have sessions2: "sv_sessions sv2 = remove1 s (sv_sessions sv)"
      by (simp add: sv2_def drop_session_def Let_def sessions1 ctl_emit_def split: option.split)
    have other2: "sv_store sv2 x = sv_store sv x" if "x \<noteq> s" for x
      using that by (simp add: sv2_def drop_session_def Let_def other1 ctl_emit_def split: option.split)
    have "sweep_sessions now (s # ss) waiting sv = sweep_sessions now ss waiting sv2"
      using True by (simp add: sv1_def [symmetric] sv2_def Let_def)
    moreover have "set ss \<subseteq> set (sv_sessions sv2)"
      using Cons.prems(2,3) d by (auto simp: sessions2)
    ultimately show ?thesis
      using Cons.IH [OF inv2, of waiting] Cons.prems(2) alive [OF _ other2] True sessions2 dead by simp
  next
    case False
    define sv2 where "sv2 = (if cs_peer (sv_store sv1 s) = None then sv1 else flush_feedback s sv1)"
    have t2: "same_table sv1 sv2" by (simp add: sv2_def)
    have sessions2: "sv_sessions sv2 = sv_sessions sv" using t2 sessions1 by (simp add: same_table_def)
    have other2: "sv_store sv2 x = sv_store sv x" if "x \<noteq> s" for x
      using that by (simp add: sv2_def other1 flush_feedback_other)
    have "\<exists>w. sweep_sessions now (s # ss) waiting sv = sweep_sessions now ss w sv2"
      using False by (auto simp: sv1_def [symmetric] sv2_def Let_def)
    then obtain w where "sweep_sessions now (s # ss) waiting sv = sweep_sessions now ss w sv2" ..
    then show ?thesis
      using Cons.IH [OF same_table_inv [OF inv1 t2], of w] Cons.prems(2,3) alive [OF _ other2] False sessions2 dead
      by simp
  qed
qed simp

section \<open>Every interleaving\<close>

inductive control_reachable :: "nat set \<Rightarrow> control_server \<Rightarrow> bool" where
  empty_table: "control_reachable {} \<lparr>sv_sessions = [], sv_peer_to_session = (\<lambda>_. None), sv_store = st, sv_log = []\<rparr>"
| start_session: "control_reachable started sv \<Longrightarrow> s \<notin> set (sv_sessions sv) \<Longrightarrow> cs_peer x = None \<Longrightarrow>
    cs_state x = STOPPED \<Longrightarrow>
    control_reachable (insert s started) (session_list s addr (ctl_update s (\<lambda>_. x) sv))"
| run_session: "control_reachable started sv \<Longrightarrow> cs_state (sv_store sv s) = STOPPED \<Longrightarrow>
    control_reachable started (ctl_update s (session_run now timeout) sv)"
| stop_session: "control_reachable started sv \<Longrightarrow> control_reachable started (ctl_update s session_stop sv)"
| queue_feedback: "control_reachable started sv \<Longrightarrow>
    control_reachable started (ctl_update s (\<lambda>x. x\<lparr>cs_feedback_queue := cs_feedback_queue x @ q\<rparr>) sv)"
| queue_hdr: "control_reachable started sv \<Longrightarrow>
    control_reachable started (ctl_update s (\<lambda>x. x\<lparr>cs_hdr_queue := Some h\<rparr>) sv)"
| sweep: "control_reachable started sv \<Longrightarrow> control_reachable started (snd (control_sweep now sv))"
| network: "control_reachable started sv \<Longrightarrow>
    control_iterate now timeout peer data peer_addr local_address event sv = Some sv' \<Longrightarrow>
    control_reachable started sv'"

lemma start_session_inv:
  assumes "control_inv started sv" and "s \<notin> set (sv_sessions sv)" and "cs_peer x = None" and "cs_state x = STOPPED"
  shows "control_inv (insert s started) (session_list s addr (ctl_update s (\<lambda>_. x) sv))"
  using assms unfolding control_inv_def session_list_def by (auto simp: ctl_update_def)

lemma control_sweep_inv: "control_inv started sv \<Longrightarrow> control_inv started (snd (control_sweep now sv))"
  unfolding control_sweep_def by (rule sweep_sessions_inv [THEN conjunct1]) (auto simp: control_inv_def)

lemma control_reachable_inv: "control_reachable started sv \<Longrightarrow> control_inv started sv"
proof (induction rule: control_reachable.induct)
  case (empty_table st)
  show ?case by (simp add: control_inv_def)
next
  case (network started sv now timeout peer data peer_addr local_address event sv')
  then show ?case by (blast intro: control_iterate_inv)
qed (auto intro: start_session_inv control_sweep_inv same_table_inv [OF _ same_table_update])

text \<open>A table with one session and its peer.\<close>

definition sample_started :: control_server where
  "sample_started = ctl_update 0 (session_run 0 100)
     (session_list 0 [] (ctl_update 0 (\<lambda>_. (sample_ctl_session sample_cipher)\<lparr>cs_state := STOPPED\<rparr>)
       \<lparr>sv_sessions = [], sv_peer_to_session = (\<lambda>_. None), sv_store = (\<lambda>_. sample_ctl_session sample_cipher), sv_log = []\<rparr>))"

lemma sample_started_reachable: "control_reachable {0} sample_started"
  unfolding sample_started_def
  by (rule run_session [OF start_session [OF empty_table]])
    (simp_all add: sample_ctl_session_def session_list_def ctl_update_def)

lemma sample_connected:
  "\<exists>sv. control_iterate 1 100 7 42 [] [] ENET_CONNECT sample_started = Some sv \<and>
    sv_peer_to_session sv 7 = Some 0 \<and> sv_sessions sv = [0] \<and> session_dead 200 (sv_store sv 0)"
  by (simp add: control_iterate_def get_session_def session_matches_def sample_started_def session_list_def session_run_def
      ctl_update_def ctl_emit_def sample_ctl_session_def ML_FF_SESSION_ID_V1_def session_dead_def Let_def)

text \<open>
  C11. The tables of the control server agree. Over every interleaving of starting, stopping and
  feeding sessions with the passes of the control thread and the events of the network, whatever the
  packets hold, a peer is bound to a session exactly if that session is listed and holds that peer,
  so no two sessions ever share a peer, and every session that was ever started is still listed or
  has been told to shut down and had its \<^verbatim>\<open>controlEnd\<close> raised, which \<^verbatim>\<open>session::join\<close> waits for.
\<close>

theorem control_table_consistent:
  assumes "control_reachable started sv"
  shows "distinct (sv_sessions sv) \<and>
    (\<forall>p s. sv_peer_to_session sv p = Some s \<longleftrightarrow> s \<in> set (sv_sessions sv) \<and> cs_peer (sv_store sv s) = Some p) \<and>
    (\<forall>s s' p. s \<in> set (sv_sessions sv) \<and> s' \<in> set (sv_sessions sv) \<and> cs_peer (sv_store sv s) = Some p \<and>
       cs_peer (sv_store sv s') = Some p \<longrightarrow> s = s') \<and>
    (\<forall>s \<in> started. s \<in> set (sv_sessions sv) \<or> cs_shutdown (sv_store sv s) \<and> cs_controlEnd (sv_store sv s))"
proof -
  have inv: "control_inv started sv" by (rule control_reachable_inv [OF assms])
  then have bound: "\<And>p s. sv_peer_to_session sv p = Some s \<longleftrightarrow> s \<in> set (sv_sessions sv) \<and> cs_peer (sv_store sv s) = Some p"
    unfolding control_inv_def by blast
  have "s = s'" if "s \<in> set (sv_sessions sv)" "s' \<in> set (sv_sessions sv)"
      "cs_peer (sv_store sv s) = Some p" "cs_peer (sv_store sv s') = Some p" for s s' p
    using bound [of p s] bound [of p s'] that by simp
  then show ?thesis using inv unfolding control_inv_def by blast
qed

theorem control_table_consistent_witness:
  "\<exists>sv. control_reachable {0} sv \<and> sv_peer_to_session sv 7 = Some 0 \<and> cs_peer (sv_store sv 0) = Some 7"
proof -
  obtain sv where sv: "control_iterate 1 100 7 42 [] [] ENET_CONNECT sample_started = Some sv"
    "sv_peer_to_session sv 7 = Some 0" using sample_connected by blast
  have "control_reachable {0} sv" by (rule network [OF sample_started_reachable sv(1)])
  then show ?thesis using control_table_consistent [of "{0}" sv] sv(2) by blast
qed

text \<open>
  A pass of the control thread removes exactly the dead sessions: those that are stopping, and
  those that run but were not heard of in time. The others stay, in their order.
\<close>

theorem control_sweep_exact:
  assumes "control_reachable started sv"
  shows "sv_sessions (snd (control_sweep now sv)) =
    filter (\<lambda>s. \<not> session_dead now (sv_store sv s)) (sv_sessions sv)"
  using sweep_sessions_inv [OF control_reachable_inv [OF assms], of "sv_sessions sv" now False]
    control_reachable_inv [OF assms]
  by (auto simp: control_sweep_def control_inv_def intro!: filter_cong)

theorem control_sweep_exact_witness:
  "\<exists>sv. control_reachable {0} sv \<and> sv_sessions sv = [0] \<and> sv_sessions (snd (control_sweep 200 sv)) = []"
proof -
  obtain sv where sv: "control_iterate 1 100 7 42 [] [] ENET_CONNECT sample_started = Some sv"
    "sv_sessions sv = [0]" "session_dead 200 (sv_store sv 0)" using sample_connected by blast
  have "control_reachable {0} sv" by (rule network [OF sample_started_reachable sv(1)])
  then show ?thesis using control_sweep_exact [of "{0}" sv 200] sv(2,3) by auto
qed

end
