(* ===== verification/Text_Util.thy ===== *)
theory Text_Util
  imports Prelude
begin

text \<open>
  Text as the code handles it: characters as signed bytes, the integer parser of
  \<^verbatim>\<open>src/utility.h\<close>, searching and cutting strings. \<open>None\<close> is the overflow of a signed
  64-bit integer, which is undefined in C++.
\<close>

section \<open>Integers\<close>

definition char_int :: "char \<Rightarrow> int" where
  "char_int c = sint (of_char c :: 8 word)"

definition checked64 :: "int \<Rightarrow> int option" where
  "checked64 x = (if - (2 ^ 63) \<le> x \<and> x < 2 ^ 63 then Some x else None)"

text \<open>The loop runs from the last character to the second one: \<open>cs\<close> is that part, reversed.\<close>

fun from_chars_loop :: "string \<Rightarrow> int \<Rightarrow> int \<Rightarrow> (int \<times> int) option" where
  "from_chars_loop [] res mul = Some (res, mul)"
| "from_chars_loop (c # cs) res mul =
     (case checked64 ((char_int c - 48) * mul) of
        None \<Rightarrow> None
      | Some x \<Rightarrow>
          (case (checked64 (res + x), checked64 (mul * 10)) of
             (Some res, Some mul) \<Rightarrow> from_chars_loop cs res mul
           | _ \<Rightarrow> None))"

definition from_chars :: "string \<Rightarrow> int option" where
  "from_chars s =
     (case s of
        [] \<Rightarrow> Some 0
      | c # cs \<Rightarrow>
          (case from_chars_loop (rev cs) 0 1 of
             None \<Rightarrow> None
           | Some (res, mul) \<Rightarrow>
               if c \<noteq> CHR ''-''
               then (case checked64 ((char_int c - 48) * mul) of
                       None \<Rightarrow> None
                     | Some x \<Rightarrow> checked64 (res + x))
               else checked64 (- res)))"

definition from_view :: "string \<Rightarrow> int option" where
  "from_view number = from_chars number"

text \<open>\<^verbatim>\<open>(int) x\<close> and \<^verbatim>\<open>std::to_string\<close>.\<close>

definition cast_int :: "int \<Rightarrow> int" where
  "cast_int x = signed_take_bit 31 x"

fun digits :: "nat \<Rightarrow> string" where
  "digits n = (if n < 10 then [char_of (48 + n)] else digits (n div 10) @ [char_of (48 + n mod 10)])"

declare digits.simps [simp del]

definition to_string :: "int \<Rightarrow> string" where
  "to_string x = (if x < 0 then CHR ''-'' # digits (nat (- x)) else digits (nat x))"

text \<open>\<^verbatim>\<open>std::isspace\<close> in the classic locale, digits, and the number digits stand for.\<close>

definition is_space :: "char \<Rightarrow> bool" where
  "is_space ch \<longleftrightarrow> (let c = of_char ch :: nat in c = 32 \<or> 9 \<le> c \<and> c \<le> 13)"

definition is_digit :: "char \<Rightarrow> bool" where
  "is_digit ch \<longleftrightarrow> (let c = of_char ch :: nat in 48 \<le> c \<and> c \<le> 57)"

definition digits_value :: "string \<Rightarrow> int" where
  "digits_value ds = fold (\<lambda>d n. 10 * n + (of_char d - 48)) ds 0"

section \<open>Strings\<close>

text \<open>\<^verbatim>\<open>string_view::find\<close> of a string, and \<^verbatim>\<open>std::find\<close> of a character.\<close>

fun contains_at :: "string \<Rightarrow> string \<Rightarrow> bool" where
  "contains_at needle [] = (needle = [])"
| "contains_at needle (c # cs) = (take (length needle) (c # cs) = needle \<or> contains_at needle cs)"

fun find_char :: "char \<Rightarrow> string \<Rightarrow> nat option" where
  "find_char x [] = None"
| "find_char x (c # cs) = (if c = x then Some 0 else map_option Suc (find_char x cs))"

lemma find_char_Some:
  "find_char x cs = Some i \<longleftrightarrow> i < length cs \<and> cs ! i = x \<and> x \<notin> set (take i cs)"
proof (induction cs arbitrary: i)
  case (Cons c cs)
  then show ?case by (cases i) auto
qed simp

lemma find_char_None: "find_char x cs = None \<longleftrightarrow> x \<notin> set cs"
  by (induction cs) auto

section \<open>Reading back what was printed\<close>

lemma digits_ne: "digits n \<noteq> []"
  by (subst digits.simps) simp

lemma char_int_digit: "d < 10 \<Longrightarrow> char_int (char_of (48 + d)) = 48 + int d"
proof -
  assume "d < 10"
  moreover have "\<forall>d \<in> set [0..<10]. char_int (char_of (48 + d)) = 48 + int d" by code_simp
  ultimately show ?thesis by simp
qed

lemma checked64_nonneg: "0 \<le> x \<Longrightarrow> x < 2 ^ 63 \<Longrightarrow> checked64 x = Some x"
  by (simp add: checked64_def)

lemma from_chars_loop_append:
  "from_chars_loop (cs @ ds) res mul =
    (case from_chars_loop cs res mul of None \<Rightarrow> None | Some (res, mul) \<Rightarrow> from_chars_loop ds res mul)"
  by (induction cs arbitrary: res mul) (auto split: option.split)

lemma from_chars_loop_digits:
  assumes "0 \<le> res" and "0 < mul" and "mul * 10 ^ length (digits n) < 2 ^ 63" and "res + int n * mul < 2 ^ 63"
  shows "from_chars_loop (rev (digits n)) res mul = Some (res + int n * mul, mul * 10 ^ length (digits n))"
  using assms
proof (induction n arbitrary: res mul rule: digits.induct)
  case (1 n)
  have small: "0 \<le> int n * mul" using "1.prems"(2) by simp
  show ?case
  proof (cases "n < 10")
    case True
    moreover have "mul * 10 < 2 ^ 63" using "1.prems"(3) True by (simp add: digits.simps [of n])
    then have "checked64 (int n * mul) = Some (int n * mul)" "checked64 (mul * 10) = Some (mul * 10)"
      "checked64 (res + int n * mul) = Some (res + int n * mul)"
      using "1.prems"(1,2,4) small by (auto intro!: checked64_nonneg)
    ultimately show ?thesis by (simp add: digits.simps [of n] char_int_digit)
  next
    case False
    define q where "q = n div 10"
    define r where "r = n mod 10"
    have n: "n = 10 * q + r" and r: "r < 10" by (simp_all add: q_def r_def)
    have digits: "digits n = digits q @ [char_of (48 + r)]"
      using False by (subst digits.simps) (simp add: q_def r_def)
    have eq: "res + int n * mul = res + int r * mul + int q * (mul * 10)" by (simp add: n algebra_simps)
    have pos: "0 \<le> int r * mul" "0 \<le> int q * (mul * 10)" using "1.prems"(2) by simp_all
    have len: "mul * 10 * 10 ^ length (digits q) < 2 ^ 63" using "1.prems"(3) by (simp add: digits mult.assoc)
    have "1 * (mul * 10) \<le> 10 ^ length (digits q) * (mul * 10)"
      using "1.prems"(2) by (intro mult_right_mono) simp_all
    then have mul10: "mul * 10 < 2 ^ 63" using len by (simp add: algebra_simps)
    have bounds: "res + int r * mul < 2 ^ 63" "int r * mul < 2 ^ 63"
      using "1.prems"(1,4) pos unfolding eq by linarith+
    have IH: "from_chars_loop (rev (digits q)) (res + int r * mul) (mul * 10) =
        Some (res + int r * mul + int q * (mul * 10), mul * 10 * 10 ^ length (digits q))"
      unfolding q_def
      by (rule "1.IH" [OF False]) (use "1.prems" pos len eq in \<open>simp_all add: q_def [symmetric]\<close>)
    have "from_chars_loop (rev (digits n)) res mul =
        from_chars_loop (rev (digits q)) (res + int r * mul) (mul * 10)"
      using r "1.prems"(1,2) pos bounds mul10 by (simp add: digits char_int_digit checked64_nonneg)
    then show ?thesis unfolding IH eq by (simp add: digits mult.assoc)
  qed
qed

lemma length_digits: "n < 10 ^ Suc k \<Longrightarrow> length (digits n) \<le> Suc k"
proof (induction n arbitrary: k rule: digits.induct)
  case (1 n)
  show ?case
  proof (cases "n < 10")
    case True
    then show ?thesis by (simp add: digits.simps [of n])
  next
    case False
    then obtain j where j: "k = Suc j" using "1.prems" by (cases k) auto
    have "n div 10 < 10 ^ Suc j" using "1.prems" by (simp add: j less_mult_imp_div_less)
    then show ?thesis using "1.IH" [OF False, of j] False by (simp add: digits.simps [of n] j)
  qed
qed

lemma digits_no_minus: "CHR ''-'' \<notin> set (digits n)"
proof (induction n rule: digits.induct)
  case (1 n)
  have "\<forall>d \<in> set [0..<10]. char_of (48 + d :: nat) \<noteq> CHR ''-''" by code_simp
  then have "\<And>d. d < 10 \<Longrightarrow> char_of (48 + d :: nat) \<noteq> CHR ''-''" by simp
  from this [of n] this [of "n mod 10"] show ?case using 1 by (subst digits.simps) auto
qed

text \<open>The parser reads back what \<^verbatim>\<open>std::to_string\<close> prints, up to 18 digits.\<close>

lemma from_view_to_string:
  assumes "\<bar>x\<bar> < 10 ^ 18"
  shows "from_view (to_string x) = Some x"
proof -
  define n where "n = nat \<bar>x\<bar>"
  have n: "int n = \<bar>x\<bar>" "n < 10 ^ 18" using assms by (simp_all add: n_def nat_less_iff)
  have "(10 :: int) ^ length (digits n) \<le> 10 ^ 18"
    using length_digits [of n 17] n(2) by (intro power_increasing) simp_all
  then have loop: "from_chars_loop (rev (digits n)) 0 1 = Some (int n, 10 ^ length (digits n))"
    using from_chars_loop_digits [of 0 1 n] n by simp
  obtain c cs where digits: "digits n = c # cs" using digits_ne by (cases "digits n") auto
  show ?thesis
  proof (cases "x < 0")
    case True
    then show ?thesis
      using loop n by (simp add: from_view_def to_string_def from_chars_def n_def checked64_def)
  next
    case False
    then have x: "x = int n" "to_string x = c # cs" using n digits by (simp_all add: to_string_def n_def)
    have "c \<noteq> CHR ''-''" using digits_no_minus [of n] digits by auto
    then show ?thesis
      using loop x(1) unfolding x(2) from_view_def from_chars_def digits
      by (auto simp: from_chars_loop_append split: option.splits)
  qed
qed

end
