(* ===== verification/Rtsp.thy ===== *)
theory Rtsp
  imports Text_Util Byte_Layout
begin

text \<open>
  The RTSP server of \<^verbatim>\<open>src/rtsp.cpp\<close>: how a plain text request is collected from the socket,
  the slot for the launched session, the commands \<^verbatim>\<open>SETUP\<close> and \<^verbatim>\<open>ANNOUNCE\<close> and the
  channel mappings of \<^verbatim>\<open>DESCRIBE\<close>. The parser of the message is
  third party and a parameter. \<open>None\<close> is undefined behaviour: a read outside of a string or the
  overflow of an integer.
\<close>

unbundle bit_operations_syntax

section \<open>Collecting a request\<close>

text \<open>
  \<open>rq_buf\<close> is what was received, \<open>rq_begin\<close> the offset of \<^verbatim>\<open>begin\<close> in \<^verbatim>\<open>msg_buf\<close>,
  which has 2048 bytes, and \<open>rq_crlf\<close> the offset behind the empty line once that was found.
\<close>

record rtsp_socket =
  rq_buf :: string
  rq_begin :: nat
  rq_crlf :: "nat option"

datatype rtsp_read = Reading rtsp_socket | Delivered string | Refused

definition rtsp_socket_init :: rtsp_socket where
  "rtsp_socket_init = \<lparr>rq_buf = [], rq_begin = 0, rq_crlf = None\<rparr>"

definition MSG_BUF_SIZE :: nat where "MSG_BUF_SIZE = 2048"

text \<open>\<^verbatim>\<open>read\<close> and \<^verbatim>\<open>read_plaintext_payload\<close> refuse a full buffer.\<close>

definition rtsp_continue :: "rtsp_socket \<Rightarrow> rtsp_read" where
  "rtsp_continue q = (if rq_begin q = MSG_BUF_SIZE then Refused else Reading q)"

abbreviation (input) crlfcrlf :: string where
  "crlfcrlf \<equiv> [CHR 0x0D, CHR 0x0A, CHR 0x0D, CHR 0x0A]"

text \<open>
  \<^verbatim>\<open>parse\<close> gives the value of the \<^verbatim>\<open>Content-length\<close> option of the request, 0 without one,
  and \<open>None\<close> when it is malformed.
\<close>

definition handle_plaintext_payload :: "(string \<Rightarrow> int option) \<Rightarrow> rtsp_socket \<Rightarrow> string \<Rightarrow> nat \<Rightarrow> nat \<Rightarrow> rtsp_read" where
  "handle_plaintext_payload parse q buf crlf end_pos =
     (case parse (take end_pos buf) of
        None \<Rightarrow> Refused
      | Some content_length \<Rightarrow>
          if content_length \<le> int end_pos - int crlf then Delivered (take end_pos buf)
          else rtsp_continue \<lparr>rq_buf = buf, rq_begin = end_pos, rq_crlf = Some crlf\<rparr>)"

text \<open>
  \<^verbatim>\<open>handle_read_plaintext\<close>: the search starts at \<^verbatim>\<open>std::max(socket->begin - 4, socket->begin)\<close>,
  which is \<^verbatim>\<open>begin\<close>.
\<close>

definition handle_read_plaintext :: "(string \<Rightarrow> int option) \<Rightarrow> rtsp_socket \<Rightarrow> string \<Rightarrow> rtsp_read" where
  "handle_read_plaintext parse q received =
     (let buf = take (rq_begin q) (rq_buf q) @ received;
          begin = max (rq_begin q - 4) (rq_begin q);
          end_pos = begin + length received
      in case search_list crlfcrlf (drop begin buf) of
           None \<Rightarrow> rtsp_continue \<lparr>rq_buf = buf, rq_begin = end_pos, rq_crlf = None\<rparr>
         | Some i \<Rightarrow>
             let crlf = begin + i + 4
             in handle_plaintext_payload parse q buf crlf end_pos)"

text \<open>One completed read of at most the rest of the buffer.\<close>

definition rtsp_receive :: "(string \<Rightarrow> int option) \<Rightarrow> rtsp_socket \<Rightarrow> string \<Rightarrow> rtsp_read" where
  "rtsp_receive parse q received =
     (case rq_crlf q of
        None \<Rightarrow> handle_read_plaintext parse q received
      | Some crlf \<Rightarrow>
          handle_plaintext_payload parse q (take (rq_begin q) (rq_buf q) @ received) crlf
            (rq_begin q + length received))"

fun rtsp_receive_all :: "(string \<Rightarrow> int option) \<Rightarrow> rtsp_socket \<Rightarrow> string list \<Rightarrow> rtsp_read" where
  "rtsp_receive_all parse q [] = Reading q"
| "rtsp_receive_all parse q (r # rs) =
     (case rtsp_receive parse q r of
        Reading q \<Rightarrow> rtsp_receive_all parse q rs
      | outcome \<Rightarrow> outcome)"

section \<open>The launched session\<close>

text \<open>\<open>ls_rtsp_cipher\<close> tells whether there is one; its key is \<open>ls_gcm_key\<close>.\<close>

record launch_session =
  ls_id :: u32
  ls_gcm_key :: bytes
  ls_iv :: bytes
  ls_av_ping_payload :: string
  ls_control_connect_data :: u32
  ls_host_audio :: bool
  ls_unique_id :: string
  ls_width :: int
  ls_height :: int
  ls_fps :: int
  ls_gcmap :: int
  ls_appid :: int
  ls_surround_info :: int
  ls_surround_params :: string
  ls_continuous_audio :: bool
  ls_enable_hdr :: bool
  ls_enable_sops :: bool
  ls_rtsp_cipher :: bool
  ls_rtsp_url_scheme :: string
  ls_rtsp_iv_counter :: u32

text \<open>At most one session waits to be picked up; the timer discards it.\<close>

definition session_raise :: "launch_session \<Rightarrow> launch_session option \<Rightarrow> launch_session option" where
  "session_raise launch_session launch_event =
     (case launch_event of Some s \<Rightarrow> Some s | None \<Rightarrow> Some launch_session)"

definition raised_timer_expired :: "launch_session option \<Rightarrow> launch_session option" where
  "raised_timer_expired launch_event = None"

definition session_clear :: "32 word \<Rightarrow> launch_session option \<Rightarrow> launch_session option" where
  "session_clear launch_session_id launch_event =
     (case launch_event of
        None \<Rightarrow> None
      | Some s \<Rightarrow> if ls_id s \<noteq> launch_session_id then Some s else None)"

section \<open>SETUP\<close>

definition AUDIO_STREAM_PORT :: int where "AUDIO_STREAM_PORT = 11"
definition VIDEO_STREAM_PORT :: int where "VIDEO_STREAM_PORT = 9"
definition CONTROL_PORT :: int where "CONTROL_PORT = 10"

definition map_port :: "int \<Rightarrow> int \<Rightarrow> 16 word" where
  "map_port sunshine_port port = word_of_int (sunshine_port + port)"

text \<open>What the commands pass to \<^verbatim>\<open>respond\<close>: status, options and payload.\<close>

datatype rtsp_response = Response nat "(string \<times> string) list" string

text \<open>The text between the first \<^verbatim>\<open>=\<close> and the next slash; without a \<^verbatim>\<open>=\<close> the iterator is past the end.\<close>

definition setup_type :: "string \<Rightarrow> string option" where
  "setup_type target =
     (case find_char (CHR ''='') target of
        None \<Rightarrow> None
      | Some i \<Rightarrow> Some (takeWhile (\<lambda>c. c \<noteq> CHR 0x2F) (drop (Suc i) target)))"

definition cmd_setup :: "int \<Rightarrow> launch_session \<Rightarrow> int \<Rightarrow> string \<Rightarrow> rtsp_response option" where
  "cmd_setup sunshine_port session sequenceNumber target =
     (case setup_type target of
        None \<Rightarrow> None
      | Some type \<Rightarrow>
          let respond = (\<lambda>port payload. Some (Response 200
                [(''CSeq'', to_string sequenceNumber), (''Session'', ''DEADBEEFCAFE;timeout = 90''),
                 (''Transport'', ''server_port='' @ to_string (uint (map_port sunshine_port port))), payload] []))
          in if type = ''audio''
             then respond AUDIO_STREAM_PORT (''X-SS-Ping-Payload'', ls_av_ping_payload session)
             else if type = ''video''
             then respond VIDEO_STREAM_PORT (''X-SS-Ping-Payload'', ls_av_ping_payload session)
             else if type = ''control''
             then respond CONTROL_PORT (''X-SS-Connect-Data'', to_string (uint (ls_control_connect_data session)))
             else Some (Response 404 [] []))"

section \<open>ANNOUNCE\<close>

text \<open>
  The lines of the payload. \<open>cur\<close> is the line being read; what follows the last line end is
  dropped, as is the rest of a run of line ends.
\<close>

definition is_eol :: "char \<Rightarrow> bool" where
  "is_eol ch \<longleftrightarrow> ch = CHR 0x0A \<or> ch = CHR 0x0D"

function announce_lines :: "string \<Rightarrow> string \<Rightarrow> string list" where
  "announce_lines cur [] = []"
| "announce_lines cur (c # cs) =
     (if is_eol c then cur # announce_lines [] (dropWhile is_eol cs) else announce_lines (cur @ [c]) cs)"
  by pat_completeness auto
termination
  by (relation "measure (length \<circ> snd)") (auto simp: le_imp_less_Suc length_dropWhile_le)

text \<open>
  One attribute line \<^verbatim>\<open>a=name:value\<close>. Without a colon the name is the rest of the line and the
  value the whole line; the last character of an empty value is read all the same.
\<close>

definition announce_attribute :: "string \<Rightarrow> (string \<times> string) option" where
  "announce_attribute line =
     (let (name, val) = (case find_char (CHR '':'') line of
            None \<Rightarrow> (drop 2 line, line)
          | Some pos \<Rightarrow> (drop 2 (take pos line), drop (Suc pos) line))
      in if val = [] then None
         else Some (name, if last val = CHR '' '' then butlast val else val))"

type_synonym announce_args = "string \<Rightarrow> string option"

text \<open>\<^verbatim>\<open>emplace\<close> keeps the first value of a name.\<close>

definition args_emplace :: "string \<Rightarrow> string \<Rightarrow> announce_args \<Rightarrow> announce_args" where
  "args_emplace name val args = (case args name of None \<Rightarrow> args(name := Some val) | Some _ \<Rightarrow> args)"

fun announce_args_of :: "string list \<Rightarrow> announce_args \<Rightarrow> announce_args option" where
  "announce_args_of [] args = Some args"
| "announce_args_of (line # lines) args =
     (if take 2 line = ''a=''
      then (case announce_attribute line of
              None \<Rightarrow> None
            | Some (name, val) \<Rightarrow> announce_args_of lines (args_emplace name val args))
      else announce_args_of lines args)"

definition announce_defaults :: "(string \<times> string) list" where
  "announce_defaults =
     [(''x-nv-video[0].encoderCscMode'', ''0''), (''x-nv-vqos[0].bitStreamFormat'', ''0''),
      (''x-nv-video[0].dynamicRangeMode'', ''0''), (''x-nv-aqos.packetDuration'', ''5''),
      (''x-nv-general.useReliableUdp'', ''1''), (''x-nv-vqos[0].fec.minRequiredFecPackets'', ''0''),
      (''x-nv-general.featureFlags'', ''135''), (''x-ml-general.featureFlags'', ''0''),
      (''x-nv-vqos[0].qosTrafficType'', ''5''), (''x-nv-aqos.qosTrafficType'', ''4''),
      (''x-ml-video.configuredBitrateKbps'', ''0''), (''x-ss-general.encryptionEnabled'', ''0''),
      (''x-ss-video[0].chromaSamplingType'', ''0''), (''x-ss-video[0].intraRefresh'', ''0''),
      (''x-nv-video[0].clientRefreshRateX100'', ''0'')]"

definition announce_required :: "string list" where
  "announce_required =
     [''x-nv-audio.surround.numChannels'', ''x-nv-audio.surround.channelMask'', ''x-nv-aqos.packetDuration'',
      ''x-nv-audio.surround.AudioQuality'', ''x-nv-general.useReliableUdp'', ''x-nv-video[0].packetSize'',
      ''x-nv-vqos[0].fec.minRequiredFecPackets'', ''x-ml-general.featureFlags'', ''x-nv-aqos.qosTrafficType'',
      ''x-nv-vqos[0].qosTrafficType'', ''x-ss-general.encryptionEnabled'', ''x-nv-general.featureFlags'',
      ''x-nv-video[0].clientViewportHt'', ''x-nv-video[0].clientViewportWd'', ''x-nv-video[0].maxFPS'',
      ''x-nv-video[0].clientRefreshRateX100'', ''x-nv-vqos[0].bw.maximumBitrateKbps'',
      ''x-nv-video[0].videoEncoderSlicesPerFrame'', ''x-nv-video[0].maxNumReferenceFrames'',
      ''x-nv-video[0].encoderCscMode'', ''x-nv-vqos[0].bitStreamFormat'', ''x-nv-video[0].dynamicRangeMode'',
      ''x-ss-video[0].chromaSamplingType'', ''x-ss-video[0].intraRefresh'', ''x-ml-video.configuredBitrateKbps'']"

text \<open>
  The attributes are read in this order: \<open>Some False\<close> when one is missing, \<open>None\<close> when the number of
  an earlier one overflows.
\<close>

fun announce_read :: "announce_args \<Rightarrow> string list \<Rightarrow> bool option" where
  "announce_read args [] = Some True"
| "announce_read args (n # ns) =
     (case args n of
        None \<Rightarrow> Some False
      | Some v \<Rightarrow> (case from_view v of None \<Rightarrow> None | Some _ \<Rightarrow> announce_read args ns))"

definition SS_ENC_VIDEO :: "32 word" where "SS_ENC_VIDEO = 0x02"
definition SS_ENC_AUDIO :: "32 word" where "SS_ENC_AUDIO = 0x04"

record stream_params =
  sp_channelCount :: nat
  sp_streams :: nat
  sp_coupledStreams :: nat
  sp_mapping :: "nat list"

record stream_config =
  sc_channels :: int
  sc_mask :: int
  sc_packetDuration :: int
  sc_customStreamParams :: stream_params
  sc_HIGH_QUALITY :: bool
  sc_HOST_AUDIO :: bool
  sc_CUSTOM_SURROUND_PARAMS :: bool
  sc_CONTINUOUS_AUDIO :: bool
  sc_controlProtocolType :: int
  sc_packetsize :: int
  sc_minRequiredFecPackets :: int
  sc_mlFeatureFlags :: int
  sc_audioQosType :: int
  sc_videoQosType :: int
  sc_encryptionFlagsEnabled :: "32 word"
  sc_height :: int
  sc_width :: int
  sc_framerate :: int
  sc_framerateX100 :: int
  sc_bitrate :: int
  sc_slicesPerFrame :: int
  sc_numRefFrames :: int
  sc_encoderCscMode :: int
  sc_videoFormat :: int
  sc_dynamicRange :: int
  sc_chromaSamplingType :: int
  sc_enableIntraRefresh :: int

text \<open>
  The settings and the two computations with floating point numbers: whether a frame rate in
  hundredths is within a percent of the frame rate, and the bit rate without the share of FEC.
\<close>

record rtsp_env =
  re_capabilities :: u32
  re_ref_frames_invalidation :: bool
  re_sunshine_port :: int
  re_fec_percentage :: int
  re_encryption_mode :: int
  re_active_hevc_mode :: int
  re_active_av1_mode :: int
  re_framerate_close :: "int \<Rightarrow> int \<Rightarrow> bool"
  re_without_fec :: "int \<Rightarrow> int \<Rightarrow> int"

definition no_stream_params :: stream_params where
  "no_stream_params = \<lparr>sp_channelCount = 0, sp_streams = 0, sp_coupledStreams = 0, sp_mapping = []\<rparr>"

text \<open>The configuration as the attributes give it; \<open>arg\<close> is the number behind a name.\<close>

definition announce_config :: "rtsp_env \<Rightarrow> launch_session \<Rightarrow> (string \<Rightarrow> int) \<Rightarrow> stream_config" where
  "announce_config env session arg =
     (let encryptionFlagsEnabled = word_of_int (arg ''x-ss-general.encryptionEnabled'')
            OR (if (word_of_int (arg ''x-nv-general.featureFlags'') :: 64 word) AND 0x20 \<noteq> 0 then SS_ENC_AUDIO else 0);
          framerate = cast_int (arg ''x-nv-video[0].maxFPS'');
          framerateX100 = cast_int (arg ''x-nv-video[0].clientRefreshRateX100'')
      in \<lparr>sc_channels = cast_int (arg ''x-nv-audio.surround.numChannels''),
          sc_mask = cast_int (arg ''x-nv-audio.surround.channelMask''),
          sc_packetDuration = cast_int (arg ''x-nv-aqos.packetDuration''),
          sc_customStreamParams = no_stream_params,
          sc_HIGH_QUALITY = (arg ''x-nv-audio.surround.AudioQuality'' \<noteq> 0),
          sc_HOST_AUDIO = ls_host_audio session,
          sc_CUSTOM_SURROUND_PARAMS = False, sc_CONTINUOUS_AUDIO = False,
          sc_controlProtocolType = cast_int (arg ''x-nv-general.useReliableUdp''),
          sc_packetsize = cast_int (arg ''x-nv-video[0].packetSize''),
          sc_minRequiredFecPackets = cast_int (arg ''x-nv-vqos[0].fec.minRequiredFecPackets''),
          sc_mlFeatureFlags = cast_int (arg ''x-ml-general.featureFlags''),
          sc_audioQosType = cast_int (arg ''x-nv-aqos.qosTrafficType''),
          sc_videoQosType = cast_int (arg ''x-nv-vqos[0].qosTrafficType''),
          sc_encryptionFlagsEnabled = encryptionFlagsEnabled,
          sc_height = cast_int (arg ''x-nv-video[0].clientViewportHt''),
          sc_width = cast_int (arg ''x-nv-video[0].clientViewportWd''),
          sc_framerate = framerate,
          sc_framerateX100 = (if 0 < framerateX100 \<and> \<not> re_framerate_close env framerateX100 framerate then 0
             else framerateX100),
          sc_bitrate = cast_int (arg ''x-nv-vqos[0].bw.maximumBitrateKbps''),
          sc_slicesPerFrame = cast_int (arg ''x-nv-video[0].videoEncoderSlicesPerFrame''),
          sc_numRefFrames = cast_int (arg ''x-nv-video[0].maxNumReferenceFrames''),
          sc_encoderCscMode = cast_int (arg ''x-nv-video[0].encoderCscMode''),
          sc_videoFormat = cast_int (arg ''x-nv-vqos[0].bitStreamFormat''),
          sc_dynamicRange = cast_int (arg ''x-nv-video[0].dynamicRangeMode''),
          sc_chromaSamplingType = cast_int (arg ''x-ss-video[0].chromaSamplingType''),
          sc_enableIntraRefresh = cast_int (arg ''x-ss-video[0].intraRefresh'')\<rparr>)"

text \<open>The custom surround parameters of the client: the digits of channels, streams, coupled streams, mapping.\<close>

definition digit_u8 :: "char \<Rightarrow> nat" where
  "digit_u8 c = unat (of_char c - 48 :: 8 word)"

definition custom_surround :: "string \<Rightarrow> int \<Rightarrow> stream_params \<times> bool" where
  "custom_surround surround_params channels =
     (let c = digit_u8 (surround_params ! 0); n = digit_u8 (surround_params ! 1);
          m = digit_u8 (surround_params ! 2)
      in if (c = 6 \<or> c = 8) \<and> int c = channels \<and> n + m = c \<and> length surround_params = c + 3
         then let mapping = map digit_u8 (drop 3 surround_params);
                  written = takeWhile (\<lambda>x. x < c) mapping @ take 1 (dropWhile (\<lambda>x. x < c) mapping)
              in (\<lparr>sp_channelCount = c, sp_streams = n, sp_coupledStreams = m, sp_mapping = written\<rparr>,
                  list_all (\<lambda>x. x < c) mapping)
         else (no_stream_params, False))"

text \<open>Old clients tell high quality by the \<^verbatim>\<open>Host\<close> option.\<close>

definition host_option :: "string \<times> string \<Rightarrow> stream_config \<Rightarrow> stream_config" where
  "host_option = (\<lambda>(option, content) cfg.
     if option = ''Host'' then cfg\<lparr>sc_HIGH_QUALITY := \<not> contains_at ''0.0.0.0'' content\<rparr> else cfg)"

definition announce_audio :: "launch_session \<Rightarrow> (string \<times> string) list \<Rightarrow> stream_config \<Rightarrow> stream_config" where
  "announce_audio session options cfg =
     (let cfg = (if sc_channels cfg = 2
            then fold host_option options cfg
            else if 3 < length (ls_surround_params session)
            then let (params, valid) = custom_surround (ls_surround_params session) (sc_channels cfg)
                 in cfg\<lparr>sc_customStreamParams := params, sc_CUSTOM_SURROUND_PARAMS := valid\<rparr>
            else cfg)
      in if ls_continuous_audio session then cfg\<lparr>sc_CONTINUOUS_AUDIO := True\<rparr> else cfg)"

text \<open>
  The bit rate that is left for the video. \<open>None\<close> is an overflow, of the \<^verbatim>\<open>int\<close> product or of one of the
  differences.
\<close>

definition announce_bitrate :: "rtsp_env \<Rightarrow> bool \<Rightarrow> int \<Rightarrow> int \<Rightarrow> int option" where
  "announce_bitrate env high_quality channels configuredBitrateKbps =
     (let k = (if re_fec_percentage env \<le> 80 then re_without_fec env (re_fec_percentage env) configuredBitrateKbps
            else configuredBitrateKbps);
          audioBitrateAdjustment = (if high_quality then 256 else 96) * channels
      in if cast_int audioBitrateAdjustment \<noteq> audioBitrateAdjustment then None
         else case checked64 (k - min audioBitrateAdjustment (cxx_div k 5)) of
             None \<Rightarrow> None
           | Some k \<Rightarrow> checked64 (k - min 500 (cxx_div k 10)))"

definition ENCRYPTION_MODE_MANDATORY :: int where "ENCRYPTION_MODE_MANDATORY = 2"

definition announced_config :: "rtsp_env \<Rightarrow> launch_session \<Rightarrow> (string \<times> string) list \<Rightarrow> (string \<Rightarrow> int)
    \<Rightarrow> stream_config option" where
  "announced_config env session options arg =
     (let configured = arg ''x-ml-video.configuredBitrateKbps'';
          cfg = announce_audio session options (announce_config env session arg)
      in if configured \<noteq> 0
         then map_option (\<lambda>k. cfg\<lparr>sc_bitrate := cast_int k\<rparr>)
           (announce_bitrate env (sc_HIGH_QUALITY cfg) (sc_channels cfg) configured)
         else Some cfg)"

text \<open>The checks, and the start of the session. \<open>start_ok\<close> is the success of \<^verbatim>\<open>session::start\<close>.\<close>

definition announce_start :: "rtsp_env \<Rightarrow> bool \<Rightarrow> stream_config \<Rightarrow> nat \<times> stream_config option" where
  "announce_start env start_ok cfg =
     (if sc_videoFormat cfg = 1 \<and> re_active_hevc_mode env = 1 then (400, None)
      else if sc_videoFormat cfg = 2 \<and> re_active_av1_mode env = 1 then (400, None)
      else if re_encryption_mode env = ENCRYPTION_MODE_MANDATORY \<and>
         sc_encryptionFlagsEnabled cfg AND (SS_ENC_VIDEO OR SS_ENC_AUDIO) \<noteq> (SS_ENC_VIDEO OR SS_ENC_AUDIO)
      then (403, None)
      else if start_ok then (200, Some cfg) else (500, None))"

text \<open>
  The command: the status of the response, and the configuration the session was started with, if
  one was.
\<close>

definition cmd_announce :: "rtsp_env \<Rightarrow> launch_session \<Rightarrow> bool \<Rightarrow> (string \<times> string) list \<Rightarrow> string
    \<Rightarrow> (nat \<times> stream_config option) option" where
  "cmd_announce env session start_ok options payload =
     (case announce_args_of (announce_lines [] payload) (\<lambda>_. None) of
        None \<Rightarrow> None
      | Some args \<Rightarrow>
          let args = fold (\<lambda>(name, val). args_emplace name val) announce_defaults args
          in (case announce_read args announce_required of
                None \<Rightarrow> None
              | Some False \<Rightarrow> Some (400, None)
              | Some True \<Rightarrow> map_option (announce_start env start_ok)
                  (announced_config env session options (\<lambda>n. the (from_view (the (args n)))))))"

section \<open>The channel mappings of DESCRIBE\<close>

record opus_stream_config =
  os_sampleRate :: int
  os_channelCount :: nat
  os_streams :: nat
  os_coupledStreams :: nat
  os_mapping :: "nat list"
  os_bitrate :: int

definition SAMPLE_RATE :: int where "SAMPLE_RATE = 48000"

definition stream_configs :: "opus_stream_config list" where
  "stream_configs =
     [\<lparr>os_sampleRate = SAMPLE_RATE, os_channelCount = 2, os_streams = 1, os_coupledStreams = 1, os_mapping = [0, 1], os_bitrate = 96000\<rparr>,
      \<lparr>os_sampleRate = SAMPLE_RATE, os_channelCount = 2, os_streams = 1, os_coupledStreams = 1, os_mapping = [0, 1], os_bitrate = 512000\<rparr>,
      \<lparr>os_sampleRate = SAMPLE_RATE, os_channelCount = 6, os_streams = 4, os_coupledStreams = 2, os_mapping = [0, 1, 2, 3, 4, 5], os_bitrate = 256000\<rparr>,
      \<lparr>os_sampleRate = SAMPLE_RATE, os_channelCount = 6, os_streams = 6, os_coupledStreams = 0, os_mapping = [0, 1, 2, 3, 4, 5], os_bitrate = 1536000\<rparr>,
      \<lparr>os_sampleRate = SAMPLE_RATE, os_channelCount = 8, os_streams = 5, os_coupledStreams = 3, os_mapping = [0, 1, 2, 3, 4, 5, 6, 7], os_bitrate = 450000\<rparr>,
      \<lparr>os_sampleRate = SAMPLE_RATE, os_channelCount = 8, os_streams = 8, os_coupledStreams = 0, os_mapping = [0, 1, 2, 3, 4, 5, 6, 7], os_bitrate = 2048000\<rparr>]"

definition SURROUND51 :: nat where "SURROUND51 = 2"
definition SURROUND71 :: nat where "SURROUND71 = 4"
definition MAX_STREAM_CONFIG :: nat where "MAX_STREAM_CONFIG = 6"

text \<open>\<^verbatim>\<open>std::rotate(first, middle, last)\<close> on a part of a list.\<close>

definition rotate_range :: "nat \<Rightarrow> nat \<Rightarrow> nat \<Rightarrow> 'a list \<Rightarrow> 'a list" where
  "rotate_range first middle last_pos xs =
     take first xs @ take (last_pos - middle) (drop middle xs) @ take (middle - first) (drop first xs) @ drop last_pos xs"

definition describe_mapping :: "nat \<Rightarrow> nat list" where
  "describe_mapping x =
     (let c = stream_configs ! x; mapping = take (os_channelCount c) (os_mapping c)
      in if x = SURROUND51 \<or> x = SURROUND71 then rotate_range 3 4 MAX_STREAM_CONFIG mapping else mapping)"

definition describe_surround_params :: "nat \<Rightarrow> string" where
  "describe_surround_params x =
     (let c = stream_configs ! x
      in ''a=fmtp:97 surround-params='' @ to_string (int (os_channelCount c)) @ to_string (int (os_streams c)) @
         to_string (int (os_coupledStreams c)) @ map (\<lambda>d. char_of (d + 48)) (describe_mapping x))"

text \<open>What the client makes of the mapping for normal quality (\<^verbatim>\<open>RtspConnection.c\<close>).\<close>

definition client_normal_mapping :: "nat list \<Rightarrow> nat list" where
  "client_normal_mapping originalMapping =
     (let channelCount = length originalMapping
      in if channelCount = 6 \<or> channelCount = 8
         then take 3 originalMapping @ [originalMapping ! (channelCount - 1)] @
              take (channelCount - 4) (drop 3 originalMapping)
         else originalMapping)"

end
