(* ===== verification/Rtsp_Props.thy ===== *)
theory Rtsp_Props
  imports Rtsp
begin

text \<open>
  What the RTSP server guarantees: which sessions are started, that requests stay inside the
  buffer, and two cases in which it does not do what it means to.
\<close>

section \<open>ANNOUNCE\<close>

lemma custom_surround_valid:
  assumes "custom_surround s channels = (params, True)"
  shows "int (sp_channelCount params) = channels \<and> sp_channelCount params \<in> {6, 8} \<and>
    sp_streams params + sp_coupledStreams params = sp_channelCount params \<and>
    length (sp_mapping params) = sp_channelCount params \<and> (\<forall>x \<in> set (sp_mapping params). x < sp_channelCount params)"
proof -
  let ?c = "digit_u8 (s ! 0)" and ?mapping = "map digit_u8 (drop 3 s)"
  have c: "?c = 6 \<or> ?c = 8" "int ?c = channels" "digit_u8 (s ! 1) + digit_u8 (s ! 2) = ?c" "length s = ?c + 3"
    and all: "list_all (\<lambda>x. x < ?c) ?mapping"
    and params: "params = \<lparr>sp_channelCount = ?c, sp_streams = digit_u8 (s ! 1), sp_coupledStreams = digit_u8 (s ! 2),
      sp_mapping = takeWhile (\<lambda>x. x < ?c) ?mapping @ take 1 (dropWhile (\<lambda>x. x < ?c) ?mapping)\<rparr>"
    using assms by (auto simp: custom_surround_def Let_def no_stream_params_def split: if_splits)
  have "takeWhile (\<lambda>x. x < ?c) ?mapping = ?mapping" "dropWhile (\<lambda>x. x < ?c) ?mapping = []"
    using all by (simp_all only: list_all_iff takeWhile_eq_all_conv dropWhile_eq_Nil_conv)
  then have "params = \<lparr>sp_channelCount = ?c, sp_streams = digit_u8 (s ! 1), sp_coupledStreams = digit_u8 (s ! 2),
      sp_mapping = ?mapping\<rparr>" unfolding params by (simp only: take_Nil append_Nil2)
  then show ?thesis using c all by (auto simp: list_all_iff)
qed

definition well_formed_surround :: "stream_config \<Rightarrow> bool" where
  "well_formed_surround cfg \<longleftrightarrow> (sc_CUSTOM_SURROUND_PARAMS cfg \<longrightarrow> (let p = sc_customStreamParams cfg in
     int (sp_channelCount p) = sc_channels cfg \<and> sp_streams p + sp_coupledStreams p = sp_channelCount p \<and>
     length (sp_mapping p) = sp_channelCount p \<and> list_all (\<lambda>x. x < sp_channelCount p) (sp_mapping p)))"

lemma host_option_keeps: "sc_CUSTOM_SURROUND_PARAMS (host_option opt cfg) = sc_CUSTOM_SURROUND_PARAMS cfg"
  by (simp add: host_option_def split_beta)

lemma host_options_keep: "sc_CUSTOM_SURROUND_PARAMS (fold host_option opts cfg) = sc_CUSTOM_SURROUND_PARAMS cfg"
  by (induction opts arbitrary: cfg) (simp_all add: host_option_keeps)

lemma announce_audio_well_formed:
  assumes "\<not> sc_CUSTOM_SURROUND_PARAMS cfg"
  shows "well_formed_surround (announce_audio session options cfg)"
proof -
  consider "sc_channels cfg = 2" | "sc_channels cfg \<noteq> 2" "3 < length (ls_surround_params session)"
    | "sc_channels cfg \<noteq> 2" "\<not> 3 < length (ls_surround_params session)" by blast
  then show ?thesis
  proof cases
    case 2
    obtain params valid where p: "custom_surround (ls_surround_params session) (sc_channels cfg) = (params, valid)"
      by fastforce
    show ?thesis
    proof (cases valid)
      case True
      then show ?thesis
        using 2 p custom_surround_valid [of "ls_surround_params session" "sc_channels cfg" params]
        by (simp add: announce_audio_def well_formed_surround_def Let_def list_all_iff)
    qed (use 2 p in \<open>simp add: announce_audio_def well_formed_surround_def Let_def\<close>)
  qed (use assms host_options_keep in \<open>simp_all add: announce_audio_def well_formed_surround_def Let_def\<close>)
qed

lemma announced_config_well_formed:
  "announced_config env session options arg = Some cfg \<Longrightarrow> well_formed_surround cfg"
proof -
  assume cfg: "announced_config env session options arg = Some cfg"
  have "well_formed_surround (announce_audio session options (announce_config env session arg))"
    by (rule announce_audio_well_formed) (simp add: announce_config_def Let_def)
  then show "well_formed_surround cfg"
    using cfg by (auto simp: announced_config_def Let_def well_formed_surround_def split: if_splits)
qed

lemma encryption_bits:
  "sc_encryptionFlagsEnabled cfg AND (SS_ENC_VIDEO OR SS_ENC_AUDIO) = SS_ENC_VIDEO OR SS_ENC_AUDIO \<longleftrightarrow>
    bit (sc_encryptionFlagsEnabled cfg) 1 \<and> bit (sc_encryptionFlagsEnabled cfg) 2"
proof -
  define w where "w = sc_encryptionFlagsEnabled cfg"
  define m where "m = push_bit 1 1 OR push_bit 2 (1 :: 32 word)"
  have mask: "SS_ENC_VIDEO OR SS_ENC_AUDIO = m"
    by (simp add: m_def SS_ENC_VIDEO_def SS_ENC_AUDIO_def)
  have bits: "bit m n \<longleftrightarrow> n = 1 \<or> n = 2" for n
    unfolding m_def bit_or_iff bit_push_bit_iff bit_1_iff by auto
  have "w AND m = m \<longleftrightarrow> bit w 1 \<and> bit w 2"
  proof
    assume "w AND m = m"
    then have "bit (w AND m) 1" "bit (w AND m) 2" by (simp_all add: bits)
    then show "bit w 1 \<and> bit w 2" by (simp add: bit_and_iff)
  qed (auto intro!: bit_word_eqI simp: bit_and_iff bits)
  then show ?thesis unfolding mask w_def .
qed

text \<open>An announcement to compute with: encrypted 5.1 sound with custom parameters.\<close>

definition sample_announce :: string where
  "sample_announce = concat (map (\<lambda>(name, val). ''a='' @ name @ '':'' @ val @ '' '' @ [CHR 0x0D, CHR 0x0A])
     [(''x-nv-audio.surround.numChannels'', ''6''), (''x-nv-audio.surround.channelMask'', ''63''),
      (''x-nv-audio.surround.AudioQuality'', ''0''), (''x-nv-video[0].packetSize'', ''1024''),
      (''x-nv-video[0].clientViewportHt'', ''1080''), (''x-nv-video[0].clientViewportWd'', ''1920''),
      (''x-nv-video[0].maxFPS'', ''60''), (''x-nv-vqos[0].bw.maximumBitrateKbps'', ''20000''),
      (''x-nv-video[0].videoEncoderSlicesPerFrame'', ''4''), (''x-nv-video[0].maxNumReferenceFrames'', ''1''),
      (''x-ss-general.encryptionEnabled'', ''7'')])"

definition sample_rtsp_env :: rtsp_env where
  "sample_rtsp_env = \<lparr>re_capabilities = 3, re_ref_frames_invalidation = True, re_sunshine_port = 47989, re_fec_percentage = 20, re_encryption_mode = 2, re_active_hevc_mode = 1, re_active_av1_mode = 1,
     re_framerate_close = \<lambda>_ _. True, re_without_fec = \<lambda>fec k. k * (100 - fec) div 100\<rparr>"

definition sample_launch :: launch_session where
  "sample_launch = \<lparr>ls_id = 1, ls_gcm_key = replicate 16 7, ls_iv = replicate 16 0, ls_av_ping_payload = [],
     ls_control_connect_data = 42, ls_host_audio = False, ls_unique_id = ''unknown'', ls_width = 1920, ls_height = 1080,
     ls_fps = 60, ls_gcmap = 0, ls_appid = 1, ls_surround_info = 196610, ls_surround_params = ''642012345'',
     ls_continuous_audio = False, ls_enable_hdr = False, ls_enable_sops = False, ls_rtsp_cipher = True,
     ls_rtsp_url_scheme = ''rtspenc://'', ls_rtsp_iv_counter = 0\<rparr>"

lemma announce_start_policy:
  assumes "announce_start env start_ok cfg = (status, started)" and "well_formed_surround cfg"
  shows "case started of
      None \<Rightarrow> status = 400 \<or> status = 403 \<or> status = 500 \<and> \<not> start_ok
    | Some cfg \<Rightarrow> status = 200 \<and> start_ok \<and>
        (sc_videoFormat cfg = 1 \<longrightarrow> re_active_hevc_mode env \<noteq> 1) \<and>
        (sc_videoFormat cfg = 2 \<longrightarrow> re_active_av1_mode env \<noteq> 1) \<and>
        (re_encryption_mode env = ENCRYPTION_MODE_MANDATORY \<longrightarrow>
          bit (sc_encryptionFlagsEnabled cfg) 1 \<and> bit (sc_encryptionFlagsEnabled cfg) 2) \<and>
        well_formed_surround cfg"
  using assms by (auto simp: announce_start_def encryption_bits split: if_splits)

text \<open>
  C12. Only sessions that satisfy the policy are started. Whatever the client announces, if a session
  is started the response is 200, the video format is one the encoders support, both streams are
  encrypted where the settings demand encryption, and custom surround parameters are well formed: as
  many channels as announced, streams and coupled streams that add up to them, and a mapping inside
  that range. In every other case the response is 400, 403 or 500 and no session is started.
\<close>

theorem announce_respects_policy:
  assumes "cmd_announce env session start_ok options payload = Some (status, started)"
  shows "case started of
      None \<Rightarrow> status = 400 \<or> status = 403 \<or> status = 500 \<and> \<not> start_ok
    | Some cfg \<Rightarrow> status = 200 \<and> start_ok \<and>
        (sc_videoFormat cfg = 1 \<longrightarrow> re_active_hevc_mode env \<noteq> 1) \<and>
        (sc_videoFormat cfg = 2 \<longrightarrow> re_active_av1_mode env \<noteq> 1) \<and>
        (re_encryption_mode env = ENCRYPTION_MODE_MANDATORY \<longrightarrow>
          bit (sc_encryptionFlagsEnabled cfg) 1 \<and> bit (sc_encryptionFlagsEnabled cfg) 2) \<and>
        (sc_CUSTOM_SURROUND_PARAMS cfg \<longrightarrow> (let p = sc_customStreamParams cfg in
          int (sp_channelCount p) = sc_channels cfg \<and> sp_streams p + sp_coupledStreams p = sp_channelCount p \<and>
          length (sp_mapping p) = sp_channelCount p \<and> list_all (\<lambda>x. x < sp_channelCount p) (sp_mapping p)))"
proof -
  have "(status, started) = (400, None) \<or>
      (\<exists>arg cfg. announced_config env session options arg = Some cfg \<and> announce_start env start_ok cfg = (status, started))"
    using assms unfolding cmd_announce_def Let_def by (auto split: option.splits bool.splits if_splits)
  then consider "status = 400" "started = None"
    | arg cfg where "announced_config env session options arg = Some cfg"
        "announce_start env start_ok cfg = (status, started)" by blast
  then show ?thesis
  proof cases
    case 2
    then show ?thesis
      using announced_config_well_formed announce_start_policy unfolding well_formed_surround_def by blast
  qed simp
qed

theorem announce_respects_policy_witness:
  "\<exists>cfg. cmd_announce sample_rtsp_env sample_launch True [] sample_announce = Some (200, Some cfg) \<and>
    sc_CUSTOM_SURROUND_PARAMS cfg \<and> bit (sc_encryptionFlagsEnabled cfg) 1 \<and>
    int (sp_channelCount (sc_customStreamParams cfg)) = sc_channels cfg"
proof -
  have "case cmd_announce sample_rtsp_env sample_launch True [] sample_announce of
      Some (status, Some cfg) \<Rightarrow> sc_CUSTOM_SURROUND_PARAMS cfg | _ \<Rightarrow> False" by code_simp
  then obtain status cfg where run: "cmd_announce sample_rtsp_env sample_launch True [] sample_announce = Some (status, Some cfg)"
    and custom: "sc_CUSTOM_SURROUND_PARAMS cfg" by (auto split: option.splits)
  have "re_encryption_mode sample_rtsp_env = ENCRYPTION_MODE_MANDATORY"
    by (simp add: sample_rtsp_env_def ENCRYPTION_MODE_MANDATORY_def)
  with announce_respects_policy [OF run] custom
  have "status = 200" "bit (sc_encryptionFlagsEnabled cfg) 1"
    "int (sp_channelCount (sc_customStreamParams cfg)) = sc_channels cfg"
    by (simp_all add: Let_def)
  with run custom show ?thesis by blast
qed

section \<open>DESCRIBE\<close>

text \<open>
  The 7.1 channels are scrambled. For normal quality 5.1 the rotation of the mapping in
  \<^verbatim>\<open>DESCRIBE\<close> and the one of the client cancel out. For 7.1 they do not: the range of the
  host's rotation ends at \<^verbatim>\<open>MAX_STREAM_CONFIG\<close>, which is 6, and the client decodes the low
  frequency channel, the side left and the side right one in the wrong places.
\<close>

theorem surround71_scrambled:
  "client_normal_mapping (describe_mapping SURROUND51) = os_mapping (stream_configs ! SURROUND51) \<and>
   client_normal_mapping (describe_mapping SURROUND71) = [0, 1, 2, 7, 4, 5, 3, 6] \<and>
   os_mapping (stream_configs ! SURROUND71) = [0, 1, 2, 3, 4, 5, 6, 7] \<and>
   client_normal_mapping (rotate_range 3 4 8 (os_mapping (stream_configs ! SURROUND71))) =
     os_mapping (stream_configs ! SURROUND71)"
  by code_simp

section \<open>Requests\<close>

lemma search_list_long: "search_list needle xs = Some i \<Longrightarrow> i + length needle \<le> length xs"
  using search_list_first [of needle xs i] by (metis le_add_diff_inverse length_drop length_take min.cobounded1
    nat_add_left_cancel_le)

lemma search_list_short: "length xs < length needle \<Longrightarrow> search_list needle xs = None"
  using search_list_long [of needle xs] by (cases "search_list needle xs") fastforce+

text \<open>
  A request whose empty line is split between two reads is lost. The same request, received at
  once, is handled; but the search in the second read starts behind what the first one received, so
  when the four characters of the empty line arrive in two parts the server keeps waiting although it
  holds the complete request.
\<close>

theorem rtsp_split_terminator:
  assumes "0 < k" and "k < 4" and "search_list crlfcrlf (head @ take k crlfcrlf) = None"
    and "length head + 4 < MSG_BUF_SIZE" and "parse (head @ crlfcrlf) = Some 0"
  shows "rtsp_receive parse rtsp_socket_init (head @ crlfcrlf) = Delivered (head @ crlfcrlf) \<and>
    rtsp_receive_all parse rtsp_socket_init [head @ take k crlfcrlf, drop k crlfcrlf] =
      Reading \<lparr>rq_buf = head @ crlfcrlf, rq_begin = length head + 4, rq_crlf = None\<rparr>"
proof
  obtain i where i: "search_list crlfcrlf (head @ crlfcrlf) = Some i"
    using search_list_found [of "head @ crlfcrlf" head crlfcrlf "[]"] by auto
  show "rtsp_receive parse rtsp_socket_init (head @ crlfcrlf) = Delivered (head @ crlfcrlf)"
    using i search_list_long [OF i] assms(5)
    by (simp add: rtsp_receive_def handle_read_plaintext_def rtsp_socket_init_def handle_plaintext_payload_def Let_def)
  let ?q = "\<lparr>rq_buf = head @ take k crlfcrlf, rq_begin = length head + k, rq_crlf = None\<rparr>"
  have len: "length (head @ take k crlfcrlf) = length head + k" using assms(2) by simp
  have "rtsp_receive parse rtsp_socket_init (head @ take k crlfcrlf) = Reading ?q"
    using assms(2,3,4) len
    by (simp add: rtsp_receive_def handle_read_plaintext_def rtsp_socket_init_def rtsp_continue_def Let_def)
  moreover have "search_list crlfcrlf (drop k crlfcrlf) = None"
    using assms(1) by (intro search_list_short) simp
  then have "rtsp_receive parse ?q (drop k crlfcrlf) =
      Reading \<lparr>rq_buf = head @ crlfcrlf, rq_begin = length head + 4, rq_crlf = None\<rparr>"
    using assms(2,4) len append_take_drop_id [of k crlfcrlf]
    by (simp add: rtsp_receive_def handle_read_plaintext_def rtsp_continue_def Let_def del: append_take_drop_id)
  ultimately show "rtsp_receive_all parse rtsp_socket_init [head @ take k crlfcrlf, drop k crlfcrlf] =
      Reading \<lparr>rq_buf = head @ crlfcrlf, rq_begin = length head + 4, rq_crlf = None\<rparr>" by simp
qed

theorem rtsp_split_terminator_witness:
  "rtsp_receive_all (\<lambda>_. Some 0) rtsp_socket_init [''OPTIONS'' @ take 2 crlfcrlf, drop 2 crlfcrlf] =
      Reading \<lparr>rq_buf = ''OPTIONS'' @ crlfcrlf, rq_begin = 11, rq_crlf = None\<rparr>"
  using rtsp_split_terminator [of 2 "''OPTIONS''" "\<lambda>_. Some 0"] by (simp add: MSG_BUF_SIZE_def)

end
