(* ===== verification/Rtsp_Server.thy ===== *)
theory Rtsp_Server
  imports Rtsp Stream_Crypto
begin

text \<open>
  The rest of the RTSP server of \<^verbatim>\<open>src/rtsp.cpp\<close>: encrypted requests and responses, the
  dispatch of the commands, \<^verbatim>\<open>DESCRIBE\<close> and the slots of the running sessions. The parser and
  the serialiser of messages are third party: parameters. The client's end is
  \<^verbatim>\<open>RtspConnection.c\<close>.
\<close>

unbundle bit_operations_syntax

section \<open>Encrypted messages\<close>

text \<open>
  The header has 24 bytes: type and length, sequence number, both big endian, and the tag.
\<close>

definition ENCRYPTED_MESSAGE_TYPE_BIT :: u32 where "ENCRYPTED_MESSAGE_TYPE_BIT = 0x80000000"

definition rtsp_payload_length :: "bytes \<Rightarrow> u32" where
  "rtsp_payload_length header = be_value (take 4 header) AND NOT ENCRYPTED_MESSAGE_TYPE_BIT"

definition rtsp_is_encrypted :: "bytes \<Rightarrow> bool" where
  "rtsp_is_encrypted header = (be_value (take 4 header) AND ENCRYPTED_MESSAGE_TYPE_BIT \<noteq> 0)"

definition rtsp_iv :: "u8 \<Rightarrow> u32 \<Rightarrow> bytes" where
  "rtsp_iv originator seq =
     write_at 11 [0x52] (write_at 10 [originator] (write_at 0 (le_bytes 4 seq) (replicate 12 0)))"

text \<open>
  The first read: \<open>None\<close> refuses the request with 400, \<open>Some n\<close> reads \<open>n\<close> further bytes. An encrypted
  request starts at the beginning of the buffer.
\<close>

definition handle_read_encrypted_header :: "bytes \<Rightarrow> nat option" where
  "handle_read_encrypted_header header =
     (if length header < 24 \<or> \<not> rtsp_is_encrypted header then None
      else if MSG_BUF_SIZE \<le> 24 + unat (rtsp_payload_length header) then None
      else Some (unat (rtsp_payload_length header)))"

text \<open>The second read: the request that is handled, or \<open>None\<close> for the response 400.\<close>

definition handle_read_encrypted_message :: "gcm_cipher \<Rightarrow> (bytes \<Rightarrow> 'm option) \<Rightarrow> bytes \<Rightarrow> bytes \<Rightarrow> 'm option" where
  "handle_read_encrypted_message cipher parse header received =
     (let seq = be_value (read_at 4 4 header)
      in if length received < unat (rtsp_payload_length header) then None
         else case gcm_decrypt cipher (rtsp_iv 0x43 seq) (read_at 8 16 header @ received) of
             Some (Some plaintext) \<Rightarrow> parse plaintext
           | _ \<Rightarrow> None)"

text \<open>Both reads on what a client sends, of which the socket delivers as much as is asked for.\<close>

definition rtsp_receive_encrypted :: "gcm_cipher \<Rightarrow> (bytes \<Rightarrow> 'm option) \<Rightarrow> bytes \<Rightarrow> 'm option" where
  "rtsp_receive_encrypted cipher parse sent =
     (case handle_read_encrypted_header (take 24 sent) of
        None \<Rightarrow> None
      | Some n \<Rightarrow> handle_read_encrypted_message cipher parse (take 24 sent) (take n (drop 24 sent)))"

text \<open>
  \<^verbatim>\<open>respond\<close>: what is sent and the next counter. \<open>raw_resp\<close> is the serialised response without its
  payload. The result of the encryption is not looked at: when it fails at the start, the plaintext
  and an empty tag are sent.
\<close>

definition rtsp_respond :: "gcm_cipher option \<Rightarrow> u32 \<Rightarrow> bytes \<Rightarrow> bytes \<Rightarrow> bytes \<times> u32" where
  "rtsp_respond rtsp_cipher rtsp_iv_counter raw_resp payload =
     (case rtsp_cipher of
        None \<Rightarrow> (raw_resp @ payload, rtsp_iv_counter)
      | Some cipher \<Rightarrow>
          let counter = rtsp_iv_counter + 1;
              plaintext = raw_resp @ payload;
              (message, tag) = (case gc_encrypt cipher (rtsp_iv 0x48 counter) plaintext of
                  None \<Rightarrow> (plaintext, replicate 16 0)
                | Some sealed \<Rightarrow> sealed)
          in (be_bytes 4 (ENCRYPTED_MESSAGE_TYPE_BIT + of_nat (length plaintext)) @ be_bytes 4 counter @
              tag @ message, counter))"

text \<open>
  \<^verbatim>\<open>send\<close>: \<open>results\<close> are the results of the calls of \<^verbatim>\<open>sock.send\<close>, the number of bytes or an error
  (\<open>None\<close>), together with what went out. The value of the function is \<open>Some 0\<close> or \<open>Some (- 1)\<close>; it is
  \<open>None\<close> while it has not returned.
\<close>

fun rtsp_send :: "nat option list \<Rightarrow> bytes \<Rightarrow> bytes \<times> int option" where
  "rtsp_send results [] = ([], Some 0)"
| "rtsp_send [] rest = ([], None)"
| "rtsp_send (None # results) rest = ([], Some (- 1))"
| "rtsp_send (Some n # results) rest =
     (let (out, rc) = rtsp_send results (drop n rest) in (take n rest @ out, rc))"

section \<open>The client's end\<close>

text \<open>\<^verbatim>\<open>sealRtspMessage\<close> with its counter, and \<^verbatim>\<open>unsealRtspMessage\<close>.\<close>

definition seal_rtsp_message :: "gcm_cipher \<Rightarrow> u32 \<Rightarrow> bytes \<Rightarrow> bytes option \<times> u32" where
  "seal_rtsp_message cipher encryptionSequenceNumber serialized =
     (let seq = encryptionSequenceNumber + 1
      in (map_option (\<lambda>(x, tag). be_bytes 4 (ENCRYPTED_MESSAGE_TYPE_BIT OR of_nat (length serialized)) @
            be_bytes 4 seq @ tag @ x) (gc_encrypt cipher (rtsp_iv 0x43 seq) serialized), seq))"

definition unseal_rtsp_message :: "gcm_cipher \<Rightarrow> bytes \<Rightarrow> bytes option" where
  "unseal_rtsp_message cipher raw =
     (let len = be_value (take 4 raw) AND NOT ENCRYPTED_MESSAGE_TYPE_BIT :: u32;
          seq = be_value (read_at 4 4 raw)
      in if length raw \<le> 24 \<or> (be_value (take 4 raw) :: u32) AND ENCRYPTED_MESSAGE_TYPE_BIT = 0 \<or>
            unat len + 24 \<noteq> length raw then None
         else gc_decrypt cipher (rtsp_iv 0x48 seq) (read_at 8 16 raw) (drop 24 raw))"

lemma type_bit: "bit ENCRYPTED_MESSAGE_TYPE_BIT n \<longleftrightarrow> n = 31"
proof -
  have eq: "ENCRYPTED_MESSAGE_TYPE_BIT = push_bit 31 1" by (simp add: ENCRYPTED_MESSAGE_TYPE_BIT_def)
  show ?thesis unfolding eq bit_push_bit_iff bit_1_iff by auto
qed

lemma small_bit31: "n < 2 ^ 31 \<Longrightarrow> \<not> bit (of_nat n :: u32) 31"
  unfolding bit_of_nat_iff by (simp add: bit_iff_odd)

lemma type_and_length:
  fixes n :: nat
  assumes "n < 2 ^ 31"
  defines "w \<equiv> ENCRYPTED_MESSAGE_TYPE_BIT OR of_nat n"
  shows "ENCRYPTED_MESSAGE_TYPE_BIT + of_nat n = w" and "w AND NOT ENCRYPTED_MESSAGE_TYPE_BIT = of_nat n"
    and "w AND ENCRYPTED_MESSAGE_TYPE_BIT \<noteq> 0"
proof -
  have clear: "\<not> bit (of_nat n :: u32) 31" by (rule small_bit31 [OF assms(1)])
  show "ENCRYPTED_MESSAGE_TYPE_BIT + of_nat n = w"
    unfolding w_def by (rule disjunctive_add) (use clear in \<open>auto simp: type_bit\<close>)
  show "w AND NOT ENCRYPTED_MESSAGE_TYPE_BIT = of_nat n"
    unfolding w_def by (rule bit_word_eqI) (use clear in \<open>auto simp: bit_and_iff bit_or_iff bit_not_iff type_bit\<close>)
  have "bit (w AND ENCRYPTED_MESSAGE_TYPE_BIT) 31" by (simp add: w_def bit_and_iff bit_or_iff type_bit)
  then show "w AND ENCRYPTED_MESSAGE_TYPE_BIT \<noteq> 0" by auto
qed


lemma read_at_header:
  "length b4 = 4 \<Longrightarrow> length s4 = 4 \<Longrightarrow> length tag = 16 \<Longrightarrow>
    take 4 (b4 @ s4 @ tag @ x) = b4 \<and> read_at 4 4 (b4 @ s4 @ tag @ x) = s4 \<and>
    read_at 8 16 (b4 @ s4 @ tag @ x) = tag \<and> drop 24 (b4 @ s4 @ tag @ x) = x \<and>
    take 24 (b4 @ s4 @ tag @ x) = b4 @ s4 @ tag @ []"
  by (simp add: read_at_def)

text \<open>
  What a client seals with its key reaches the parser of the host, and what the host answers opens at
  the client, whatever the counters are.
\<close>

lemma rtsp_exchange_roundtrip:
  assumes c: "gcm_lawful c" and "length req + 24 < MSG_BUF_SIZE"
    and "raw @ payload \<noteq> []" and "length (raw @ payload) < 2 ^ 31"
  shows "map_option (rtsp_receive_encrypted c parse) (fst (seal_rtsp_message c n req)) = Some (parse req) \<and>
    unseal_rtsp_message c (fst (rtsp_respond (Some c) k raw payload)) = Some (raw @ payload)"
proof
  obtain x t where x: "gc_encrypt c (rtsp_iv 0x43 (n + 1)) req = Some (x, t)" "length x = length req" "length t = 16"
    "gc_decrypt c (rtsp_iv 0x43 (n + 1)) t x = Some req"
    using gcm_lawfulE [OF c] by blast
  have small: "length req < 2 ^ 31" using assms(2) by (simp add: MSG_BUF_SIZE_def)
  note bits = type_and_length [OF small]
  note parts = read_at_header [of "be_bytes 4 (ENCRYPTED_MESSAGE_TYPE_BIT OR of_nat (length req))" "be_bytes 4 (n + 1)" t]
  have len: "unat (of_nat (length req) :: u32) = length req" using small by (simp add: unat_of_nat)
  show "map_option (rtsp_receive_encrypted c parse) (fst (seal_rtsp_message c n req)) = Some (parse req)"
    using x parts [of x] parts [of "[]"] bits len assms(2)
    by (simp add: seal_rtsp_message_def Let_def rtsp_receive_encrypted_def handle_read_encrypted_header_def
        rtsp_is_encrypted_def rtsp_payload_length_def handle_read_encrypted_message_def gcm_decrypt_def)
  define p where "p = raw @ payload"
  obtain y u where y: "gc_encrypt c (rtsp_iv 0x48 (k + 1)) p = Some (y, u)"
    "length y = length p" "length u = 16"
    "gc_decrypt c (rtsp_iv 0x48 (k + 1)) u y = Some p"
    using gcm_lawfulE [OF c] by blast
  note bits = type_and_length [OF assms(4), folded p_def]
  note parts = read_at_header [of "be_bytes 4 (ENCRYPTED_MESSAGE_TYPE_BIT OR of_nat (length p))" "be_bytes 4 (k + 1)" u y]
  have len: "unat (of_nat (length p) :: u32) = length p"
    using assms(4) by (simp only: p_def unat_of_nat take_bit_nat_eq_self) simp
  have "0 < length p" using assms(3) by (simp add: p_def)
  then show "unseal_rtsp_message c (fst (rtsp_respond (Some c) k raw payload)) = Some (raw @ payload)"
    using y parts bits len by (simp add: rtsp_respond_def Let_def unseal_rtsp_message_def flip: p_def)
qed

section \<open>Commands\<close>

record rtsp_request =
  rr_command :: string
  rr_target :: string
  rr_sequenceNumber :: int
  rr_options :: "(string \<times> string) list"
  rr_payload :: string

definition ENCRYPTION_MODE_NEVER :: int where "ENCRYPTION_MODE_NEVER = 0"

definition encryption_flags_supported :: "rtsp_env \<Rightarrow> u32" where
  "encryption_flags_supported env =
     (let flags = SS_ENC_CONTROL_V2 OR SS_ENC_AUDIO
      in if re_encryption_mode env \<noteq> ENCRYPTION_MODE_NEVER then flags OR SS_ENC_VIDEO else flags)"

definition encryption_flags_requested :: "rtsp_env \<Rightarrow> u32" where
  "encryption_flags_requested env =
     (if re_encryption_mode env = ENCRYPTION_MODE_MANDATORY
      then SS_ENC_CONTROL_V2 OR (SS_ENC_VIDEO OR SS_ENC_AUDIO) else SS_ENC_CONTROL_V2)"

text \<open>The lines of the description, each of them ended by a line feed.\<close>

definition describe_lines :: "rtsp_env \<Rightarrow> launch_session \<Rightarrow> string list" where
  "describe_lines env session =
     [''a=x-ss-general.featureFlags:'' @ to_string (uint (re_capabilities env)),
      ''a=x-ss-general.encryptionSupported:'' @ to_string (uint (encryption_flags_supported env)),
      ''a=x-ss-general.encryptionRequested:'' @ to_string (uint (encryption_flags_requested env))] @
     (if re_ref_frames_invalidation env then [''a=x-nv-video[0].refPicInvalidation:1''] else []) @
     (if re_active_hevc_mode env \<noteq> 1 then [''sprop-parameter-sets=AAAAAU''] else []) @
     (if re_active_av1_mode env \<noteq> 1 then [''a=rtpmap:98 AV1/90000''] else []) @
     (if ls_surround_params session \<noteq> []
      then let line = ''a=fmtp:97 surround-params='' @ ls_surround_params session in [line, line] else []) @
     map describe_surround_params [0..<MAX_STREAM_CONFIG]"

definition cmd_describe :: "rtsp_env \<Rightarrow> launch_session \<Rightarrow> int \<Rightarrow> rtsp_response" where
  "cmd_describe env session sequenceNumber =
     Response 200 [(''CSeq'', to_string sequenceNumber)]
       (concat (map (\<lambda>l. l @ [CHR 0x0A]) (describe_lines env session)))"

text \<open>
  \<^verbatim>\<open>handle_msg\<close>: the response, and the configuration of the session that was started. \<open>None\<close> is
  undefined behaviour of \<^verbatim>\<open>SETUP\<close> or \<^verbatim>\<open>ANNOUNCE\<close>.
\<close>

definition handle_msg :: "rtsp_env \<Rightarrow> launch_session \<Rightarrow> bool \<Rightarrow> rtsp_request
    \<Rightarrow> (rtsp_response \<times> stream_config option) option" where
  "handle_msg env session start_ok req =
     (let cseq = [(''CSeq'', to_string (rr_sequenceNumber req))]
      in if rr_command req = ''OPTIONS'' \<or> rr_command req = ''PLAY'' then Some (Response 200 cseq [], None)
         else if rr_command req = ''DESCRIBE''
         then Some (cmd_describe env session (rr_sequenceNumber req), None)
         else if rr_command req = ''SETUP''
         then map_option (\<lambda>r. (r, None))
           (cmd_setup (re_sunshine_port env) session (rr_sequenceNumber req) (rr_target req))
         else if rr_command req = ''ANNOUNCE''
         then map_option (\<lambda>(status, started). (Response status cseq [], started))
           (cmd_announce env session start_ok (rr_options req) (rr_payload req))
         else Some (Response 404 [] [], None))"

section \<open>Sessions\<close>

text \<open>\<^verbatim>\<open>session::alloc\<close>, the part of the control stream; \<open>gcm\<close> is the cipher of a key.\<close>

definition session_alloc :: "(bytes \<Rightarrow> gcm_cipher) \<Rightarrow> stream_config \<Rightarrow> launch_session \<Rightarrow> ctl_session" where
  "session_alloc gcm config launch_session =
     \<lparr>cs_controlProtocolType = sc_controlProtocolType config,
      cs_encryptionFlagsEnabled = sc_encryptionFlagsEnabled config,
      cs_mlFeatureFlags = word_of_int (sc_mlFeatureFlags config),
      cs_cipher = gcm (ls_gcm_key launch_session), cs_legacy_input_enc_iv = ls_iv launch_session,
      cs_incoming_iv = [], cs_outgoing_iv = [], cs_connect_data = ls_control_connect_data launch_session,
      cs_expected_peer_address = [], cs_peer = None, cs_seq = 0, cs_feedback_queue = [], cs_hdr_queue = None,
      cs_pingTimeout = 0, cs_localAddress = [], cs_launch_session_id = ls_id launch_session,
      cs_shutdown = False, cs_controlEnd = False, cs_state = STOPPED\<rparr>"

text \<open>
  \<^verbatim>\<open>_session_slots\<close> holds the sessions by their identities in the store \<open>st\<close>. \<^verbatim>\<open>clear\<close> stops and joins
  those that are stopping, or all: what is left, what was joined, and the store.
\<close>

fun clear_slots :: "bool \<Rightarrow> nat list \<Rightarrow> (nat \<Rightarrow> ctl_session) \<Rightarrow> nat list \<times> nat list \<times> (nat \<Rightarrow> ctl_session)" where
  "clear_slots all [] st = ([], [], st)"
| "clear_slots all (i # slots) st =
     (if all \<or> cs_state (st i) = STOPPING
      then let (kept, joined, st) = clear_slots all slots (st(i := session_stop (st i))) in (kept, i # joined, st)
      else let (kept, joined, st) = clear_slots all slots st in (i # kept, joined, st))"

definition session_count :: "nat list \<Rightarrow> (nat \<Rightarrow> ctl_session) \<Rightarrow> nat" where
  "session_count slots st = length (fst (clear_slots False slots st))"

text \<open>
  The callbacks of \<^verbatim>\<open>session::start\<close> and \<^verbatim>\<open>session::join\<close>: the first session and the last one are
  reported to the platform.
\<close>

datatype platform_call = Streaming_will_start | Revert_configuration | Streaming_will_stop

definition session_started :: "u32 \<Rightarrow> u32 \<times> platform_call list" where
  "session_started running_sessions =
     (let n = running_sessions + 1 in (n, if n = 1 then [Streaming_will_start] else []))"

definition session_joined :: "bool \<Rightarrow> bool \<Rightarrow> u32 \<Rightarrow> u32 \<times> platform_call list" where
  "session_joined config_revert_on_disconnect app_running running_sessions =
     (let n = running_sessions - 1
      in (n, if n = 0
             then (if app_running \<longrightarrow> config_revert_on_disconnect then [Revert_configuration] else []) @ [Streaming_will_stop]
             else []))"

end
