(* ===== verification/Network.thy ===== *)
theory Network
  imports Rtsp
begin

text \<open>
  The helpers of \<^verbatim>\<open>src/network.cpp\<close>: the classification of addresses, the encryption mode that
  follows from it, and the texts made of addresses and of the host name. The addresses and networks of
  Boost are a parameter.
\<close>

unbundle bit_operations_syntax

datatype net_e = PC | LAN | WAN
datatype af_e = IPV4 | BOTH
datatype ip_address = V4 u32 | V6 "128 word"

text \<open>
  Of Boost: whether an address is one of the hosts of a network, the address inside of a mapped IPv6
  address, and the texts of addresses. \<open>None\<close> of \<^verbatim>\<open>make_address\<close> is its exception.
\<close>

record ip_lib =
  il_hosts_v4 :: "string \<Rightarrow> u32 \<Rightarrow> bool"
  il_hosts_v6 :: "string \<Rightarrow> 128 word \<Rightarrow> bool"
  il_v4_mapped :: "128 word \<Rightarrow> u32 option"
  il_make_address :: "string \<Rightarrow> ip_address option"
  il_to_string :: "ip_address \<Rightarrow> string"

definition pc_ips_v4 :: "string list" where "pc_ips_v4 = [''127.0.0.0/8'']"
definition lan_ips_v4 :: "string list" where
  "lan_ips_v4 = [''192.168.0.0/16'', ''172.16.0.0/12'', ''10.0.0.0/8'', ''100.64.0.0/10'', ''169.254.0.0/16'']"
definition pc_ips_v6 :: "string list" where "pc_ips_v6 = [''::1/128'']"
definition lan_ips_v6 :: "string list" where "lan_ips_v6 = [''fc00::/7'', ''fe80::/64'']"

definition from_enum_string :: "string \<Rightarrow> net_e" where
  "from_enum_string view = (if view = ''wan'' then WAN else if view = ''lan'' then LAN else PC)"

fun to_enum_string :: "net_e \<Rightarrow> string" where
  "to_enum_string PC = ''pc''"
| "to_enum_string LAN = ''lan''"
| "to_enum_string WAN = ''wan''"

definition af_from_enum_string :: "string \<Rightarrow> af_e" where
  "af_from_enum_string view = (if view = ''ipv4'' then IPV4 else BOTH)"

fun af_to_any_address_string :: "af_e \<Rightarrow> string" where
  "af_to_any_address_string IPV4 = ''0.0.0.0''"
| "af_to_any_address_string BOTH = ''::''"

definition get_bind_address :: "string \<Rightarrow> af_e \<Rightarrow> string" where
  "get_bind_address bind_address af = (if bind_address \<noteq> [] then bind_address else af_to_any_address_string af)"

definition normalize_address :: "ip_lib \<Rightarrow> ip_address \<Rightarrow> ip_address" where
  "normalize_address lib address =
     (case address of
        V4 a \<Rightarrow> V4 a
      | V6 a \<Rightarrow> (case il_v4_mapped lib a of Some b \<Rightarrow> V4 b | None \<Rightarrow> V6 a))"

definition from_address :: "ip_lib \<Rightarrow> string \<Rightarrow> net_e option" where
  "from_address lib view =
     (case map_option (normalize_address lib) (il_make_address lib view) of
        None \<Rightarrow> None
      | Some (V6 a) \<Rightarrow> Some (if list_ex (\<lambda>n. il_hosts_v6 lib n a) pc_ips_v6 then PC
          else if list_ex (\<lambda>n. il_hosts_v6 lib n a) lan_ips_v6 then LAN else WAN)
      | Some (V4 a) \<Rightarrow> Some (if list_ex (\<lambda>n. il_hosts_v4 lib n a) pc_ips_v4 then PC
          else if list_ex (\<lambda>n. il_hosts_v4 lib n a) lan_ips_v4 then LAN else WAN))"

definition addr_to_normalized_string :: "ip_lib \<Rightarrow> ip_address \<Rightarrow> string" where
  "addr_to_normalized_string lib address = il_to_string lib (normalize_address lib address)"

definition addr_to_url_escaped_string :: "ip_lib \<Rightarrow> ip_address \<Rightarrow> string" where
  "addr_to_url_escaped_string lib address =
     (case normalize_address lib address of
        V6 a \<Rightarrow> ''['' @ il_to_string lib (V6 a) @ '']''
      | V4 a \<Rightarrow> il_to_string lib (V4 a))"

definition encryption_mode_for_address :: "ip_lib \<Rightarrow> int \<Rightarrow> int \<Rightarrow> ip_address \<Rightarrow> int option" where
  "encryption_mode_for_address lib lan_encryption_mode wan_encryption_mode address =
     map_option (\<lambda>nettype. if nettype = PC \<or> nettype = LAN then lan_encryption_mode else wan_encryption_mode)
       (from_address lib (il_to_string lib address))"

text \<open>\<^verbatim>\<open>mdns_instance_name\<close>: the loop works on the name in place, from index \<open>i\<close> on.\<close>

definition isalnum :: "char \<Rightarrow> bool" where
  "isalnum ch \<longleftrightarrow> (let c = of_char ch :: nat in 48 \<le> c \<and> c \<le> 57 \<or> 65 \<le> c \<and> c \<le> 90 \<or> 97 \<le> c \<and> c \<le> 122)"

function mdns_loop :: "nat \<Rightarrow> string \<Rightarrow> string" where
  "mdns_loop i name =
     (if i < length name
      then if name ! i = CHR '' '' then mdns_loop (Suc i) (name[i := CHR ''-''])
           else if \<not> isalnum (name ! i) \<and> name ! i \<noteq> CHR ''-'' then take i name
           else mdns_loop (Suc i) name
      else name)"
  by pat_completeness auto
termination by (relation "measure (\<lambda>(i, name). length name - i)") auto

declare mdns_loop.simps [simp del]

definition mdns_instance_name :: "string \<Rightarrow> string" where
  "mdns_instance_name hostname =
     (let name = mdns_loop 0 (if 63 < length hostname then take 63 hostname else hostname)
      in if name \<noteq> [] then name else ''Sunshine'')"

section \<open>Properties\<close>

definition mdns_char :: "char \<Rightarrow> bool" where
  "mdns_char ch \<longleftrightarrow> isalnum ch \<or> ch = CHR ''-''"

lemma mdns_loop_spec:
  "i \<le> length name \<Longrightarrow> mdns_loop i name =
    take i name @ map (\<lambda>c. if c = CHR '' '' then CHR ''-'' else c)
      (takeWhile (\<lambda>c. c = CHR '' '' \<or> mdns_char c) (drop i name))"
proof (induction i name rule: mdns_loop.induct)
  case (1 i name)
  show ?case
  proof (cases "i < length name")
    case True
    then have d: "drop i name = name ! i # drop (Suc i) name" by (simp add: Cons_nth_drop_Suc)
    have t: "take (Suc i) name = take i name @ [name ! i]" using True by (rule take_Suc_conv_app_nth)
    show ?thesis
      using 1 True d t
      by (subst mdns_loop.simps) (auto simp: mdns_char_def isalnum_def take_Suc_conv_app_nth)
  qed (use 1 in \<open>simp add: mdns_loop.simps\<close>)
qed

text \<open>The name is the longest valid prefix with its spaces replaced, a label of 1 to 63 characters.\<close>

lemma mdns_instance_name_spec:
  "mdns_instance_name hostname =
    (let label = map (\<lambda>c. if c = CHR '' '' then CHR ''-'' else c)
           (takeWhile (\<lambda>c. c = CHR '' '' \<or> mdns_char c) (take 63 hostname))
     in if label = [] then ''Sunshine'' else label)"
  by (simp add: mdns_instance_name_def mdns_loop_spec Let_def)

lemma mdns_instance_name_label:
  "0 < length (mdns_instance_name hostname) \<and> length (mdns_instance_name hostname) \<le> 63 \<and>
    list_all mdns_char (mdns_instance_name hostname)"
proof -
  have "length (takeWhile P (take 63 hostname)) \<le> 63" for P
    using length_takeWhile_le [of P "take 63 hostname"] by simp
  moreover have "list_all mdns_char ''Sunshine''" by code_simp
  moreover have "mdns_char (CHR ''-'')" by (simp add: mdns_char_def)
  ultimately show ?thesis
    by (auto simp: mdns_instance_name_spec Let_def list_all_iff dest: set_takeWhileD)
qed

text \<open>Both families of addresses of a client have the same encryption mode.\<close>

lemma encryption_mode_mapped:
  assumes "\<And>a. il_make_address lib (il_to_string lib a) = Some a" and "il_v4_mapped lib a = Some b"
  shows "encryption_mode_for_address lib lan wan (V6 a) = encryption_mode_for_address lib lan wan (V4 b)"
  using assms by (simp add: encryption_mode_for_address_def from_address_def normalize_address_def)

end
