(* ===== verification/Hex_Codec.thy ===== *)
theory Hex_Codec
  imports Text_Util Byte_Layout
begin

text \<open>
  The hexadecimal texts of \<^verbatim>\<open>src/utility.h\<close>: \<^verbatim>\<open>hex_vec\<close>, \<^verbatim>\<open>from_hex_vec\<close> and
  \<^verbatim>\<open>from_hex\<close> for arrays. With \<open>reverse\<close> the first byte comes first.
\<close>

unbundle bit_operations_syntax

definition hex_bits :: string where "hex_bits = ''0123456789ABCDEF''"

fun hex_loop :: "bytes \<Rightarrow> string" where
  "hex_loop [] = []"
| "hex_loop (b # bs) = hex_bits ! (unat b div 16) # hex_bits ! (unat b mod 16) # hex_loop bs"

definition hex_vec :: "bytes \<Rightarrow> bool \<Rightarrow> string" where
  "hex_vec bs reverse = hex_loop (if reverse then bs else rev bs)"

text \<open>Every letter counts as a digit, not only those up to \<^verbatim>\<open>f\<close>.\<close>

definition is_convertable :: "char \<Rightarrow> bool" where
  "is_convertable ch =
     (let ch = of_char ch :: u8
      in if 48 \<le> ch \<and> ch \<le> 57 then True else 97 \<le> (ch OR 32) \<and> (ch OR 32) \<le> 122)"

definition hex_convert :: "char \<Rightarrow> u8" where
  "hex_convert ch =
     (let ch = of_char ch :: u8 in if 48 \<le> ch \<and> ch \<le> 57 then ch - 48 else (ch OR 32) - 97 + 10)"

text \<open>The loop runs from the end of the text to the front and takes two convertable characters for a byte.\<close>

fun from_hex_loop :: "string \<Rightarrow> bytes" where
  "from_hex_loop (ch_r # ch_l # chs) = (push_bit 4 (hex_convert ch_l) OR hex_convert ch_r) # from_hex_loop chs"
| "from_hex_loop chs = []"

definition from_hex_vec :: "string \<Rightarrow> bool \<Rightarrow> bytes" where
  "from_hex_vec hex reverse =
     (let buf = from_hex_loop (filter is_convertable (rev hex)) in if reverse then rev buf else buf)"

text \<open>
  \<^verbatim>\<open>from_hex\<close> fills an array of \<open>n\<close> bytes, zeros included before the reversal; \<open>None\<close> when the text
  has more bytes than that.
\<close>

definition from_hex :: "nat \<Rightarrow> string \<Rightarrow> bool \<Rightarrow> bytes option" where
  "from_hex n hex reverse =
     (let buf = from_hex_loop (filter is_convertable (rev hex))
      in if n < length buf then None
         else let buf = buf @ replicate (n - length buf) 0 in Some (if reverse then rev buf else buf))"

section \<open>Round trip\<close>

definition nibble :: "nat \<Rightarrow> char" where
  "nibble n = hex_bits ! n"

lemma nibble_all: "list_all (\<lambda>n. is_convertable (nibble n) \<and> hex_convert (nibble n) = word_of_nat n) [0..<16]"
  unfolding nibble_def hex_bits_def by code_simp

lemma nibble_converts:
  assumes "n < 16"
  shows "is_convertable (hex_bits ! n)" and "hex_convert (hex_bits ! n) = word_of_nat n"
  using nibble_all assms by (auto simp: list_all_iff nibble_def)

lemma unat_nibble: "unat (b :: 8 word) div 16 < 16"
  using unsigned_less [of b, where 'a = nat] by (simp add: less_mult_imp_div_less)

lemma byte_nibbles_all:
  "list_all (\<lambda>n. push_bit 4 (word_of_nat (n div 16)) OR word_of_nat (n mod 16) = (word_of_nat n :: u8)) [0..<256]"
  by code_simp

lemma byte_nibbles: "push_bit 4 (word_of_nat (unat b div 16)) OR word_of_nat (unat b mod 16) = (b :: u8)"
proof -
  have "unat b < 256" using unsigned_less [of b, where 'a = nat] by simp
  then have "push_bit 4 (word_of_nat (unat b div 16)) OR word_of_nat (unat b mod 16) = (word_of_nat (unat b) :: u8)"
    using byte_nibbles_all by (simp add: list_all_iff)
  then show ?thesis by simp
qed

lemma from_hex_loop_append:
  "even (length xs) \<Longrightarrow> from_hex_loop (xs @ ys) = from_hex_loop xs @ from_hex_loop ys"
  by (induction xs rule: from_hex_loop.induct) auto

lemma hex_loop_converts: "filter is_convertable (hex_loop bs) = hex_loop bs" "length (hex_loop bs) = 2 * length bs"
  by (induction bs) (simp_all add: nibble_converts unat_nibble)

lemma from_hex_rev_loop: "from_hex_loop (rev (hex_loop bs)) = rev bs"
  by (induction bs)
     (simp_all add: from_hex_loop_append hex_loop_converts nibble_converts unat_nibble byte_nibbles)

lemma hex_roundtrip: "from_hex_vec (hex_vec bs reverse) reverse = bs"
  by (simp add: from_hex_vec_def hex_vec_def rev_filter [symmetric] hex_loop_converts from_hex_rev_loop)

lemma from_hex_roundtrip: "length bs = n \<Longrightarrow> from_hex n (hex_vec bs True) True = Some bs"
  by (simp add: from_hex_def hex_vec_def rev_filter [symmetric] hex_loop_converts from_hex_rev_loop)

end
