(* ===== verification/Pairing.thy ===== *)
theory Pairing
  imports "HOL-Library.AList" Hex_Codec
begin

text \<open>
  The pairing of clients in \<^verbatim>\<open>src/nvhttp.cpp\<close>: the sessions, the four phases, the request handler
  \<^verbatim>\<open>pair\<close> and the entry of the PIN. The primitives of OpenSSL are parameters, random bytes are
  arguments.
\<close>

unbundle bit_operations_syntax

section \<open>Sessions\<close>

datatype pair_phase =
    PHASE_NONE | PHASE_GETSERVERCERT | PHASE_CLIENTCHALLENGE | PHASE_SERVERCHALLENGERESP | PHASE_CLIENTPAIRINGSECRET

text \<open>\<open>ps_response\<close> is the pending response of the request that waits for the PIN.\<close>

record pair_session =
  ps_uniqueID :: string
  ps_cert :: bytes
  ps_name :: string
  ps_cipher_key :: "bytes option"
  ps_clienthash :: bytes
  ps_serversecret :: bytes
  ps_serverchallenge :: bytes
  ps_response :: "nat option"
  ps_salt :: string
  ps_last_phase :: pair_phase

definition new_pair_session :: "string \<Rightarrow> bytes \<Rightarrow> pair_session" where
  "new_pair_session uniqueID cert = \<lparr>ps_uniqueID = uniqueID, ps_cert = cert, ps_name = [], ps_cipher_key = None,
     ps_clienthash = [], ps_serversecret = [], ps_serverchallenge = [], ps_response = None, ps_salt = [],
     ps_last_phase = PHASE_NONE\<rparr>"

text \<open>
  Of OpenSSL: SHA-256, AES in ECB mode (the whole content of the output vector, whatever the result
  code), the signature inside of a certificate (\<open>None\<close> when there is no certificate to read), and
  signing and verifying with SHA-256.
\<close>

record pair_crypto =
  pc_sha256 :: "bytes \<Rightarrow> bytes"
  pc_ecb_decrypt :: "bytes \<Rightarrow> bytes \<Rightarrow> bytes"
  pc_ecb_encrypt :: "bytes \<Rightarrow> bytes \<Rightarrow> bytes"
  pc_signature :: "bytes \<Rightarrow> bytes option"
  pc_sign256 :: "bytes \<Rightarrow> bytes \<Rightarrow> bytes"
  pc_verify256 :: "bytes \<Rightarrow> bytes \<Rightarrow> bytes \<Rightarrow> bool"

text \<open>The certificate of the host, the signature in it, and the private key.\<close>

record pair_host =
  ph_servercert :: bytes
  ph_signature :: bytes
  ph_pkey :: bytes

definition gen_aes_key :: "pair_crypto \<Rightarrow> bytes \<Rightarrow> string \<Rightarrow> bytes" where
  "gen_aes_key c salt pin = take 16 (pc_sha256 c (salt @ map of_char pin))"

section \<open>The phases\<close>

type_synonym ptree = "(string \<times> string) list"

definition pt_put :: "string \<Rightarrow> string \<Rightarrow> ptree \<Rightarrow> ptree" where
  "pt_put path val tree = AList.update path val tree"

definition pt_paired :: "nat \<Rightarrow> ptree \<Rightarrow> ptree" where
  "pt_paired n = pt_put ''root.paired'' (to_string (int n))"

definition pt_status_code :: "nat \<Rightarrow> ptree \<Rightarrow> ptree" where
  "pt_status_code n = pt_put ''root.<xmlattr>.status_code'' (to_string (int n))"

definition pt_status_message :: "string \<Rightarrow> ptree \<Rightarrow> ptree" where
  "pt_status_message = pt_put ''root.<xmlattr>.status_message''"

text \<open>
  The handlers give the response and the session; \<open>None\<close> for the session means that it was removed
  from \<^verbatim>\<open>map_id_sess\<close>.
\<close>

definition fail_pair :: "ptree \<Rightarrow> string \<Rightarrow> ptree" where
  "fail_pair tree status_msg = pt_status_message status_msg (pt_status_code 400 (pt_paired 0 tree))"

definition getservercert :: "pair_crypto \<Rightarrow> pair_host \<Rightarrow> pair_session \<Rightarrow> ptree \<Rightarrow> string
    \<Rightarrow> ptree \<times> pair_session option" where
  "getservercert c h sess tree pin =
     (if ps_last_phase sess \<noteq> PHASE_NONE then (fail_pair tree ''Out of order call to getservercert'', None)
      else if length (ps_salt sess) < 32 then (fail_pair tree ''Salt too short'', None)
      else let salt = the (from_hex 16 (take 32 (ps_salt sess)) True)
           in (pt_status_code 200 (pt_put ''root.plaincert'' (hex_vec (ph_servercert h) True) (pt_paired 1 tree)),
               Some (sess\<lparr>ps_last_phase := PHASE_GETSERVERCERT, ps_cipher_key := Some (gen_aes_key c salt pin)\<rparr>)))"

definition clientchallenge :: "pair_crypto \<Rightarrow> pair_host \<Rightarrow> bytes \<Rightarrow> bytes \<Rightarrow> pair_session \<Rightarrow> ptree \<Rightarrow> bytes
    \<Rightarrow> ptree \<times> pair_session option" where
  "clientchallenge c h serversecret serverchallenge sess tree challenge =
     (if ps_last_phase sess \<noteq> PHASE_GETSERVERCERT then (fail_pair tree ''Out of order call to clientchallenge'', None)
      else case ps_cipher_key sess of
        None \<Rightarrow> (fail_pair tree ''Cipher key not set'', None)
      | Some key \<Rightarrow>
          let decrypted = pc_ecb_decrypt c key challenge @ ph_signature h @ serversecret;
              plaintext = pc_sha256 c decrypted @ serverchallenge;
              encrypted = pc_ecb_encrypt c key plaintext
          in (pt_status_code 200 (pt_put ''root.challengeresponse'' (hex_vec encrypted True) (pt_paired 1 tree)),
              Some (sess\<lparr>ps_last_phase := PHASE_CLIENTCHALLENGE, ps_serversecret := serversecret,
                ps_serverchallenge := serverchallenge\<rparr>)))"

definition serverchallengeresp :: "pair_crypto \<Rightarrow> pair_host \<Rightarrow> pair_session \<Rightarrow> ptree \<Rightarrow> bytes
    \<Rightarrow> ptree \<times> pair_session option" where
  "serverchallengeresp c h sess tree encrypted_response =
     (if ps_last_phase sess \<noteq> PHASE_CLIENTCHALLENGE
      then (fail_pair tree ''Out of order call to serverchallengeresp'', None)
      else case ps_cipher_key sess of
        None \<Rightarrow> (fail_pair tree ''Cipher key or serversecret not set'', None)
      | Some key \<Rightarrow>
          if ps_serversecret sess = [] then (fail_pair tree ''Cipher key or serversecret not set'', None)
          else let serversecret = ps_serversecret sess @ pc_sign256 c (ph_pkey h) (ps_serversecret sess)
               in (pt_status_code 200 (pt_paired 1 (pt_put ''root.pairingsecret'' (hex_vec serversecret True) tree)),
                   Some (sess\<lparr>ps_last_phase := PHASE_SERVERCHALLENGERESP,
                     ps_clienthash := pc_ecb_decrypt c key encrypted_response\<rparr>)))"

text \<open>
  The last phase always removes the session. The second result is the name and the certificate of the
  client that is authorised, if it is.
\<close>

definition clientpairingsecret :: "pair_crypto \<Rightarrow> pair_session \<Rightarrow> ptree \<Rightarrow> bytes \<Rightarrow> ptree \<times> (string \<times> bytes) option" where
  "clientpairingsecret c sess tree client_pairing_secret =
     (if ps_last_phase sess \<noteq> PHASE_SERVERCHALLENGERESP
      then (fail_pair tree ''Out of order call to clientpairingsecret'', None)
      else if length client_pairing_secret \<le> 16 then (fail_pair tree ''Client pairing secret too short'', None)
      else let secret = take 16 client_pairing_secret; sign = drop 16 client_pairing_secret
           in case pc_signature c (ps_cert sess) of
                None \<Rightarrow> (fail_pair tree ''Invalid client certificate'', None)
              | Some x509_sign \<Rightarrow>
                  let hash = pc_sha256 c (ps_serverchallenge sess @ x509_sign @ secret);
                      same_hash = (hash = ps_clienthash sess)
                  in if same_hash \<and> pc_verify256 c (ps_cert sess) secret sign
                     then (pt_status_code 200 (pt_paired 1 tree), Some (ps_name sess, ps_cert sess))
                     else (pt_status_code 200 (pt_paired 0 tree), None))"

section \<open>Requests\<close>

type_synonym pair_sessions = "string \<Rightarrow> pair_session option"
type_synonym request_args = "string \<Rightarrow> string option"

text \<open>\<^verbatim>\<open>get_arg\<close>; \<open>None\<close> is the exception.\<close>

definition get_arg :: "request_args \<Rightarrow> string \<Rightarrow> string option \<Rightarrow> string option" where
  "get_arg args name default_value = (case args name of None \<Rightarrow> default_value | Some v \<Rightarrow> Some v)"

text \<open>
  \<^verbatim>\<open>pair\<close>: the response that is written (none while the PIN is awaited, an empty one when an
  exception leaves the handler), the sessions, and the client that was authorised. \<open>pin_stdin\<close> is the
  PIN read from the standard input when the flag \<^verbatim>\<open>PIN_STDIN\<close> is set; \<open>response\<close> names the response
  of the request. An existing session of the same identifier is not replaced.
\<close>

definition pair_getservercert :: "pair_crypto \<Rightarrow> pair_host \<Rightarrow> string option \<Rightarrow> nat \<Rightarrow> string \<Rightarrow> request_args
    \<Rightarrow> pair_sessions \<Rightarrow> ptree option \<times> pair_sessions" where
  "pair_getservercert c h pin_stdin response uniqID args sessions =
     (case get_arg args ''clientcert'' None of
        None \<Rightarrow> (Some [], sessions)
      | Some clientcert \<Rightarrow>
          let sess = (case sessions uniqID of
                Some existing \<Rightarrow> existing
              | None \<Rightarrow> new_pair_session uniqID (from_hex_vec clientcert True));
              sessions = sessions(uniqID := Some sess)
          in case get_arg args ''salt'' None of
               None \<Rightarrow> (Some [], sessions)
             | Some salt \<Rightarrow>
                 let sess = sess\<lparr>ps_salt := salt\<rparr>
                 in case pin_stdin of
                      Some pin \<Rightarrow> let (tree, sess) = getservercert c h sess [] pin in (Some tree, sessions(uniqID := sess))
                    | None \<Rightarrow> (None, sessions(uniqID := Some (sess\<lparr>ps_response := Some response\<rparr>))))"

definition pair_phases :: "pair_crypto \<Rightarrow> pair_host \<Rightarrow> bytes \<Rightarrow> bytes \<Rightarrow> string \<Rightarrow> request_args \<Rightarrow> pair_sessions
    \<Rightarrow> ptree \<times> pair_sessions \<times> (string \<times> bytes) option" where
  "pair_phases c h secret challenge uniqID args sessions =
     (case sessions uniqID of
        None \<Rightarrow> (pt_status_message ''Invalid uniqueid'' (pt_status_code 400 []), sessions, None)
      | Some sess \<Rightarrow>
          (case args ''clientchallenge'' of
             Some v \<Rightarrow>
               let (tree, sess) = clientchallenge c h secret challenge sess [] (from_hex_vec v True)
               in (tree, sessions(uniqID := sess), None)
           | None \<Rightarrow>
          (case args ''serverchallengeresp'' of
             Some v \<Rightarrow>
               let (tree, sess) = serverchallengeresp c h sess [] (from_hex_vec v True)
               in (tree, sessions(uniqID := sess), None)
           | None \<Rightarrow>
          (case args ''clientpairingsecret'' of
             Some v \<Rightarrow>
               let (tree, client) = clientpairingsecret c sess [] (from_hex_vec v True)
               in (tree, sessions(uniqID := None), client)
           | None \<Rightarrow> (pt_status_message ''Invalid pairing request'' (pt_status_code 404 []), sessions, None)))))"

definition pair_request :: "pair_crypto \<Rightarrow> pair_host \<Rightarrow> string option \<Rightarrow> nat \<Rightarrow> bytes \<Rightarrow> bytes \<Rightarrow> request_args
    \<Rightarrow> pair_sessions \<Rightarrow> ptree option \<times> pair_sessions \<times> (string \<times> bytes) option" where
  "pair_request c h pin_stdin response secret challenge args sessions =
     (case args ''uniqueid'' of
        None \<Rightarrow> (Some (pt_status_message ''Missing uniqueid parameter'' (pt_status_code 400 [])), sessions, None)
      | Some uniqID \<Rightarrow>
          if args ''phrase'' = Some ''getservercert''
          then let (tree, sessions) = pair_getservercert c h pin_stdin response uniqID args sessions
               in (tree, sessions, None)
          else if args ''phrase'' = Some ''pairchallenge''
          then (Some (pt_status_code 200 (pt_paired 1 [])), sessions, None)
          else let (tree, sessions, client) = pair_phases c h secret challenge uniqID args sessions
               in (Some tree, sessions, client))"

text \<open>
  \<^verbatim>\<open>pin\<close> works on the session the map begins with; \<open>first\<close> is its identifier. The result, what is
  written to which response, and the sessions. When \<^verbatim>\<open>getservercert\<close> removed the session, the name is
  written into a destroyed object: \<open>None\<close>.
\<close>

definition pair_pin :: "pair_crypto \<Rightarrow> pair_host \<Rightarrow> string \<Rightarrow> string \<Rightarrow> string \<Rightarrow> pair_sessions
    \<Rightarrow> (bool \<times> (nat \<times> ptree) option \<times> pair_sessions) option" where
  "pair_pin c h first pin name sessions =
     (case sessions first of
        None \<Rightarrow> Some (False, None, sessions)
      | Some sess \<Rightarrow>
          if length pin \<noteq> 4 then Some (False, None, sessions)
          else if \<not> list_all (\<lambda>ch. 48 \<le> (of_char ch :: nat) \<and> (of_char ch :: nat) \<le> 57) pin then Some (False, None, sessions)
          else case getservercert c h sess [] pin of
              (tree, None) \<Rightarrow> None
            | (tree, Some sess) \<Rightarrow>
                let sess = sess\<lparr>ps_name := name\<rparr>
                in case ps_response sess of
                     Some response \<Rightarrow>
                       Some (True, Some (response, tree), sessions(first := Some (sess\<lparr>ps_response := None\<rparr>)))
                   | None \<Rightarrow> Some (False, None, sessions(first := Some sess)))"

end
