(* ===== verification/Nvhttp.thy ===== *)
theory Nvhttp
  imports Pairing Thread_Safe Rtsp
begin

text \<open>
  The rest of the GameStream server of \<^verbatim>\<open>src/nvhttp.cpp\<close>: the authorised clients and their
  persistence, the verification of a client's certificate, and the requests \<^verbatim>\<open>launch\<close>,
  \<^verbatim>\<open>resume\<close> and \<^verbatim>\<open>cancel\<close>. Files hold what was written to them; the verification of OpenSSL, the
  application, the display and the encoders are parameters.
\<close>

unbundle bit_operations_syntax

section \<open>Authorised clients\<close>

record named_cert =
  nc_name :: string
  nc_uuid :: string
  nc_cert :: bytes
  nc_enabled :: bool

text \<open>
  The state file: \<^verbatim>\<open>root.uniqueid\<close>, the certificates of the old format, and the clients, of which an
  old file does not tell whether they are enabled.
\<close>

record saved_cert =
  sv_name :: string
  sv_uuid :: string
  sv_cert :: bytes
  sv_enabled :: "bool option"

record state_file =
  sf_uniqueid :: "string option"
  sf_devices :: "bytes list"
  sf_named_devices :: "saved_cert list"

record nvhttp =
  nv_sessions :: pair_sessions
  nv_named_devices :: "named_cert list"
  nv_cert_chain :: "bytes list"
  nv_add_cert :: "bytes queue"
  nv_unique_id :: string
  nv_file :: "state_file option"

text \<open>\<open>io_ok\<close>: neither the read of an existing file nor the write throws.\<close>

definition save_cert :: "named_cert \<Rightarrow> saved_cert" where
  "save_cert c = \<lparr>sv_name = nc_name c, sv_uuid = nc_uuid c, sv_cert = nc_cert c, sv_enabled = Some (nc_enabled c)\<rparr>"

definition save_state :: "bool \<Rightarrow> nvhttp \<Rightarrow> nvhttp" where
  "save_state io_ok nv =
     (if \<not> io_ok then nv
      else nv\<lparr>nv_file := Some \<lparr>sf_uniqueid = Some (nv_unique_id nv), sf_devices = [],
        sf_named_devices = map save_cert (nv_named_devices nv)\<rparr>\<rparr>)"

text \<open>\<open>uuids\<close> are the identifiers \<^verbatim>\<open>uuid_t::generate\<close> returns, in order.\<close>

definition load_cert :: "saved_cert \<Rightarrow> named_cert" where
  "load_cert c = \<lparr>nc_name = sv_name c, nc_uuid = sv_uuid c, nc_cert = sv_cert c,
     nc_enabled = (case sv_enabled c of None \<Rightarrow> True | Some b \<Rightarrow> b)\<rparr>"

definition load_devices :: "(nat \<Rightarrow> string) \<Rightarrow> bytes list \<Rightarrow> named_cert list" where
  "load_devices uuids certs =
     map (\<lambda>(i, cert). \<lparr>nc_name = [], nc_uuid = uuids i, nc_cert = cert, nc_enabled = True\<rparr>) (enumerate 0 certs)"

definition load_state :: "bool \<Rightarrow> (nat \<Rightarrow> string) \<Rightarrow> nvhttp \<Rightarrow> nvhttp" where
  "load_state io_ok uuids nv =
     (case nv_file nv of
        None \<Rightarrow> nv\<lparr>nv_unique_id := uuids 0\<rparr>
      | Some f \<Rightarrow>
          if \<not> io_ok then nv
          else case sf_uniqueid f of
            None \<Rightarrow> nv\<lparr>nv_unique_id := uuids 0\<rparr>
          | Some unique_id \<Rightarrow>
              let devices = load_devices uuids (sf_devices f) @ map load_cert (sf_named_devices f)
              in nv\<lparr>nv_unique_id := unique_id, nv_cert_chain := map nc_cert devices, nv_named_devices := devices\<rparr>)"

definition add_authorized_client :: "bool \<Rightarrow> bool \<Rightarrow> string \<Rightarrow> string \<Rightarrow> bytes \<Rightarrow> nvhttp \<Rightarrow> nvhttp" where
  "add_authorized_client fresh_state io_ok uuid name cert nv =
     (let nv = nv\<lparr>nv_named_devices := nv_named_devices nv @
            [\<lparr>nc_name = name, nc_uuid = uuid, nc_cert = cert, nc_enabled = True\<rparr>]\<rparr>
      in if fresh_state then nv else save_state io_ok nv)"

definition erase_all_clients :: "bool \<Rightarrow> nvhttp \<Rightarrow> nvhttp" where
  "erase_all_clients io_ok nv = save_state io_ok (nv\<lparr>nv_named_devices := [], nv_cert_chain := []\<rparr>)"

text \<open>The save and the load of the file fail independently.\<close>

definition unpair_client :: "bool \<Rightarrow> bool \<Rightarrow> (nat \<Rightarrow> string) \<Rightarrow> string \<Rightarrow> nvhttp \<Rightarrow> bool \<times> nvhttp" where
  "unpair_client save_ok load_ok uuids uuid nv =
     (let removed = list_ex (\<lambda>c. nc_uuid c = uuid) (nv_named_devices nv);
          nv = nv\<lparr>nv_named_devices := filter (\<lambda>c. nc_uuid c \<noteq> uuid) (nv_named_devices nv)\<rparr>
      in (removed, load_state load_ok uuids (save_state save_ok nv)))"

fun set_enabled :: "string \<Rightarrow> bool \<Rightarrow> named_cert list \<Rightarrow> named_cert list option" where
  "set_enabled uuid enabled [] = None"
| "set_enabled uuid enabled (c # cs) =
     (if nc_uuid c = uuid then Some (c\<lparr>nc_enabled := enabled\<rparr> # cs)
      else map_option (\<lambda>cs. c # cs) (set_enabled uuid enabled cs))"

definition set_client_enabled :: "bool \<Rightarrow> string \<Rightarrow> bool \<Rightarrow> nvhttp \<Rightarrow> bool \<times> nvhttp" where
  "set_client_enabled io_ok uuid enabled nv =
     (case set_enabled uuid enabled (nv_named_devices nv) of
        None \<Rightarrow> (False, nv)
      | Some devices \<Rightarrow> (True, save_state io_ok (nv\<lparr>nv_named_devices := devices\<rparr>)))"

fun is_client_enabled :: "bytes \<Rightarrow> named_cert list \<Rightarrow> bool" where
  "is_client_enabled cert_pem [] = True"
| "is_client_enabled cert_pem (c # cs) = (if nc_cert c = cert_pem then nc_enabled c else is_client_enabled cert_pem cs)"

section \<open>Verification\<close>

text \<open>
  \<^verbatim>\<open>cert_chain_t::verify\<close>: \<open>x509_verify\<close> is \<^verbatim>\<open>X509_verify_cert\<close> with a store of one certificate,
  \<open>None\<close> for success, otherwise the error code. The result is \<open>None\<close> for success.
\<close>

definition X509_V_ERR_DEPTH_ZERO_SELF_SIGNED_CERT :: int where "X509_V_ERR_DEPTH_ZERO_SELF_SIGNED_CERT = 18"
definition X509_V_ERR_INVALID_CA :: int where "X509_V_ERR_INVALID_CA = 24"

fun cert_chain_verify :: "(bytes \<Rightarrow> bytes \<Rightarrow> int option) \<Rightarrow> int \<Rightarrow> bytes list \<Rightarrow> bytes \<Rightarrow> int option" where
  "cert_chain_verify x509_verify err_code [] cert = Some err_code"
| "cert_chain_verify x509_verify err_code (store # stores) cert =
     (case x509_verify store cert of
        None \<Rightarrow> None
      | Some err \<Rightarrow>
          if err \<noteq> X509_V_ERR_DEPTH_ZERO_SELF_SIGNED_CERT \<and> err \<noteq> X509_V_ERR_INVALID_CA then Some err
          else cert_chain_verify x509_verify err stores cert)"

text \<open>
  \<^verbatim>\<open>https_server.verify\<close> of a connection with the certificate \<open>x509\<close>, none if the client sent none.
  The certificates of freshly paired clients are taken over first. \<open>pem\<close> is \<^verbatim>\<open>crypto::pem\<close>: the text
  OpenSSL writes for a certificate, which need not be the text the client sent when it was paired.
\<close>

definition take_added_certs :: "nvhttp \<Rightarrow> nvhttp" where
  "take_added_certs nv =
     (case drain_channel queue_peek queue_pop (length (q_queue (nv_add_cert nv))) (nv_add_cert nv) of
        None \<Rightarrow> nv
      | Some (certs, q) \<Rightarrow> nv\<lparr>nv_add_cert := q, nv_cert_chain := nv_cert_chain nv @ certs\<rparr>)"

definition verify_client :: "(bytes \<Rightarrow> bytes \<Rightarrow> int option) \<Rightarrow> (bytes \<Rightarrow> bytes) \<Rightarrow> bytes option \<Rightarrow> nvhttp
    \<Rightarrow> bool \<times> nvhttp" where
  "verify_client x509_verify pem x509 nv =
     (case x509 of
        None \<Rightarrow> (False, nv)
      | Some cert \<Rightarrow>
          let nv = take_added_certs nv
          in (cert_chain_verify x509_verify 0 (nv_cert_chain nv) cert = None \<and>
              is_client_enabled (pem cert) (nv_named_devices nv), nv))"

text \<open>The requests of the pairing on this state; the queue of added certificates holds up to 30.\<close>

definition new_add_cert :: "bytes queue" where
  "new_add_cert = new_queue 30"

definition nvhttp_pair :: "pair_crypto \<Rightarrow> pair_host \<Rightarrow> bool \<Rightarrow> bool \<Rightarrow> string option \<Rightarrow> nat \<Rightarrow> bytes \<Rightarrow> bytes \<Rightarrow> string
    \<Rightarrow> request_args \<Rightarrow> nvhttp \<Rightarrow> ptree option \<times> nvhttp" where
  "nvhttp_pair c h fresh_state io_ok pin_stdin response secret challenge uuid args nv =
     (let (tree, sessions, client) = pair_request c h pin_stdin response secret challenge args (nv_sessions nv);
          nv = nv\<lparr>nv_sessions := sessions\<rparr>
      in (tree, case client of
           None \<Rightarrow> nv
         | Some (name, cert) \<Rightarrow> add_authorized_client fresh_state io_ok uuid name cert
             (nv\<lparr>nv_add_cert := queue_raise cert (nv_add_cert nv)\<rparr>)))"

section \<open>Launching\<close>

text \<open>\<^verbatim>\<open>atoi\<close> of the C library; \<open>None\<close> is an overflow.\<close>

definition atoi :: "string \<Rightarrow> int option" where
  "atoi s =
     (let s = dropWhile is_space s;
          (negative, s) = (case s of c # cs \<Rightarrow> if c = CHR ''-'' then (True, cs) else if c = CHR ''+'' then (False, cs)
             else (False, s) | [] \<Rightarrow> (False, []));
          n = digits_value (takeWhile is_digit s); n = (if negative then - n else n)
      in if cast_int n = n then Some n else None)"

text \<open>\<^verbatim>\<open>std::getline(mode, segment, 'x')\<close> until the stream fails: an empty rest gives no segment.\<close>

function segments :: "string \<Rightarrow> string list" where
  "segments s =
     (if s = [] then []
      else takeWhile (\<lambda>c. c \<noteq> CHR ''x'') s # segments (drop 1 (dropWhile (\<lambda>c. c \<noteq> CHR ''x'') s)))"
  by pat_completeness auto
termination
proof (relation "measure length")
  fix s :: string assume "s \<noteq> []"
  then have "length (dropWhile (\<lambda>c. c \<noteq> CHR ''x'') s) \<le> length s" "0 < length s"
    by (simp_all add: length_dropWhile_le)
  then show "(drop 1 (dropWhile (\<lambda>c. c \<noteq> CHR ''x'') s), s) \<in> measure length"
    unfolding in_measure length_drop by linarith
qed simp

declare segments.simps [simp del]

text \<open>
  \<^verbatim>\<open>make_launch_session\<close>: \<open>None\<close> is an exception for a missing argument or undefined behaviour of a
  number. Width, height and rate stay 0 when the mode has fewer parts. \<open>session_id\<close> is the next session
  number, \<open>raw_payload\<close> and \<open>connect_data\<close> are random.
\<close>

definition launch_number :: "request_args \<Rightarrow> string \<Rightarrow> string option \<Rightarrow> int option" where
  "launch_number args name default_value =
     (case get_arg args name default_value of None \<Rightarrow> None | Some v \<Rightarrow> from_view v)"

fun mode_numbers :: "string list \<Rightarrow> (int \<times> int \<times> int) option" where
  "mode_numbers [] = Some (0, 0, 0)"
| "mode_numbers [w] = map_option (\<lambda>w. (w, 0, 0)) (atoi w)"
| "mode_numbers [w, h] =
     (case (atoi w, atoi h) of (Some w, Some h) \<Rightarrow> Some (w, h, 0) | _ \<Rightarrow> None)"
| "mode_numbers (w # h # f # rest) =
     (case (atoi w, atoi h, atoi f) of (Some w, Some h, Some f) \<Rightarrow> Some (w, h, f) | _ \<Rightarrow> None)"

definition make_launch_session :: "u32 \<Rightarrow> bytes \<Rightarrow> u32 \<Rightarrow> bool \<Rightarrow> request_args \<Rightarrow> launch_session option" where
  "make_launch_session session_id raw_payload connect_data host_audio args =
     (let number = launch_number args in
      case (get_arg args ''rikey'' None, mode_numbers (segments (the (get_arg args ''mode'' (Some ''0x0x0''))))) of
        (Some rikey, Some (width, height, fps)) \<Rightarrow>
          (case (number ''appid'' (Some ''unknown''), number ''sops'' (Some ''0''),
                 number ''surroundAudioInfo'' (Some ''196610''), number ''continuousAudio'' (Some ''0'')) of
             (Some appid, Some sops, Some surround_info, Some continuous_audio) \<Rightarrow>
               (case (number ''gcmap'' (Some ''0''), number ''hdrMode'' (Some ''0''), number ''corever'' (Some ''0''),
                      number ''rikeyid'' None) of
                  (Some gcmap, Some hdr, Some corever, Some rikeyid) \<Rightarrow> Some
                    \<lparr>ls_id = session_id, ls_gcm_key = from_hex_vec rikey True,
                     ls_iv = be_bytes 4 (word_of_int rikeyid :: u32) @ replicate 12 0,
                     ls_av_ping_payload = hex_vec raw_payload False, ls_control_connect_data = connect_data,
                     ls_host_audio = host_audio, ls_unique_id = the (get_arg args ''uniqueid'' (Some ''unknown'')),
                     ls_width = width, ls_height = height, ls_fps = fps, ls_gcmap = cast_int gcmap,
                     ls_appid = cast_int appid, ls_surround_info = cast_int surround_info,
                     ls_surround_params = the (get_arg args ''surroundParams'' (Some [])),
                     ls_continuous_audio = (continuous_audio \<noteq> 0), ls_enable_hdr = (hdr \<noteq> 0),
                     ls_enable_sops = (sops \<noteq> 0), ls_rtsp_cipher = (1 \<le> corever),
                     ls_rtsp_url_scheme = (if 1 \<le> corever then ''rtspenc://'' else ''rtsp://''),
                     ls_rtsp_iv_counter = 0\<rparr>
                | _ \<Rightarrow> None)
           | _ \<Rightarrow> None)
      | _ \<Rightarrow> None)"

text \<open>
  What the requests see and do: the running application (0 for none), the sessions that are left after
  the finished ones were cleared, the outcome of probing the encoders and of starting the application,
  and the encryption mode for the address of the client.
\<close>

record launch_env =
  le_running :: int
  le_session_count :: nat
  le_probe_fails :: bool
  le_execute :: "int \<Rightarrow> int"
  le_encryption_mode :: int
  le_local_address :: string
  le_sunshine_port :: int
  le_session_id :: u32
  le_raw_payload :: bytes
  le_connect_data :: u32

datatype launch_effect =
    Configure_display | Probe_encoders | Execute int | Raise_session launch_session | Revert_display
  | Terminate_sessions | Terminate_app

definition RTSP_SETUP_PORT :: int where "RTSP_SETUP_PORT = 21"

definition session_url :: "launch_env \<Rightarrow> launch_session \<Rightarrow> string" where
  "session_url env s = ls_rtsp_url_scheme s @ le_local_address env @ '':'' @
     to_string (uint (map_port (le_sunshine_port env) RTSP_SETUP_PORT))"

definition refuse_launch :: "int \<Rightarrow> string \<Rightarrow> string \<Rightarrow> ptree" where
  "refuse_launch status_code status_message flag =
     pt_put flag ''0'' (pt_status_message status_message (pt_put ''root.<xmlattr>.status_code'' (to_string status_code) []))"

definition encryption_refused :: "launch_env \<Rightarrow> launch_session \<Rightarrow> bool" where
  "encryption_refused env s \<longleftrightarrow> \<not> ls_rtsp_cipher s \<and> le_encryption_mode env = ENCRYPTION_MODE_MANDATORY"

text \<open>
  \<^verbatim>\<open>launch\<close>: the response, what was done, and \<^verbatim>\<open>host_audio\<close>. An exception or undefined behaviour is
  \<open>None\<close>. The guard reverts the display unless the launch succeeds or other sessions are active.
\<close>

definition launch_prepared :: "launch_env \<Rightarrow> int \<Rightarrow> launch_session \<Rightarrow> ptree \<times> launch_effect list" where
  "launch_prepared env appid s =
     (let alone = (le_session_count env = 0);
          before = (if alone then [Configure_display, Probe_encoders] else []);
          revert = (if alone then [Revert_display] else [])
      in if alone \<and> le_probe_fails env
         then (refuse_launch 503 ''Failed to initialize video capture/encoding. Is a display connected and turned on?''
                 ''root.gamesession'', before @ revert)
         else if encryption_refused env s
         then (refuse_launch 403 ''Encryption is mandatory for this host but unsupported by the client''
                 ''root.gamesession'', before @ revert)
         else let executed = (if 0 < appid then [Execute (cast_int appid)] else []);
                  err = (if 0 < appid then le_execute env (cast_int appid) else 0)
              in if err \<noteq> 0
                 then (refuse_launch err ''Failed to start the specified application'' ''root.gamesession'',
                       before @ executed @ revert)
                 else (pt_put ''root.gamesession'' ''1'' (pt_put ''root.sessionUrl0'' (session_url env s) (pt_status_code 200 [])),
                       before @ executed @ [Raise_session s]))"

definition nvhttp_launch :: "launch_env \<Rightarrow> request_args \<Rightarrow> bool \<Rightarrow> (ptree \<times> launch_effect list \<times> bool) option" where
  "nvhttp_launch env args host_audio =
     (if list_ex (\<lambda>n. args n = None) [''rikey'', ''rikeyid'', ''localAudioPlayMode'', ''appid'']
      then Some (pt_status_message ''Missing a required launch parameter'' (pt_status_code 400 (pt_put ''root.resume'' ''0'' [])),
                 [], host_audio)
      else case from_view (the (args ''appid'')) of
          None \<Rightarrow> None
        | Some appid \<Rightarrow>
            if 0 < le_running env
            then Some (pt_status_message ''An app is already running on this host''
                         (pt_status_code 400 (pt_put ''root.resume'' ''0'' [])), [], host_audio)
            else case from_view (the (args ''localAudioPlayMode'')) of
                None \<Rightarrow> None
              | Some mode \<Rightarrow>
                  (case make_launch_session (le_session_id env) (le_raw_payload env) (le_connect_data env) (mode \<noteq> 0) args of
                     None \<Rightarrow> None
                   | Some s \<Rightarrow> let (tree, effects) = launch_prepared env appid s in Some (tree, effects, mode \<noteq> 0)))"

definition resume_prepared :: "launch_env \<Rightarrow> launch_session \<Rightarrow> ptree \<times> launch_effect list" where
  "resume_prepared env s =
     (let alone = (le_session_count env = 0);
          before = (if alone then [Configure_display, Probe_encoders] else [])
      in if alone \<and> le_probe_fails env
         then (pt_status_message ''Failed to initialize video capture/encoding. Is a display connected and turned on?''
                 (pt_status_code 503 (pt_put ''root.resume'' ''0'' [])), before)
         else if encryption_refused env s
         then (refuse_launch 403 ''Encryption is mandatory for this host but unsupported by the client''
                 ''root.gamesession'', before)
         else (pt_put ''root.resume'' ''1'' (pt_put ''root.sessionUrl0'' (session_url env s) (pt_status_code 200 [])),
               before @ [Raise_session s]))"

definition nvhttp_resume :: "launch_env \<Rightarrow> request_args \<Rightarrow> bool \<Rightarrow> (ptree \<times> launch_effect list \<times> bool) option" where
  "nvhttp_resume env args host_audio =
     (if le_running env = 0
      then Some (pt_status_message ''No running app to resume'' (pt_status_code 503 (pt_put ''root.resume'' ''0'' [])),
                 [], host_audio)
      else if list_ex (\<lambda>n. args n = None) [''rikey'', ''rikeyid'']
      then Some (pt_status_message ''Missing a required resume parameter'' (pt_status_code 400 (pt_put ''root.resume'' ''0'' [])),
                 [], host_audio)
      else let mode = (if le_session_count env = 0 then args ''localAudioPlayMode'' else None)
           in case (case mode of None \<Rightarrow> Some host_audio | Some v \<Rightarrow> map_option (\<lambda>n. n \<noteq> 0) (from_view v)) of
                None \<Rightarrow> None
              | Some host_audio \<Rightarrow>
                  (case make_launch_session (le_session_id env) (le_raw_payload env) (le_connect_data env) host_audio args of
                     None \<Rightarrow> None
                   | Some s \<Rightarrow> let (tree, effects) = resume_prepared env s in Some (tree, effects, host_audio)))"

definition nvhttp_cancel :: "launch_env \<Rightarrow> ptree \<times> launch_effect list" where
  "nvhttp_cancel env =
     (pt_status_code 200 (pt_put ''root.cancel'' ''1'' []),
      Terminate_sessions # (if 0 < le_running env then [Terminate_app] else []) @ [Revert_display])"

section \<open>Server information\<close>

definition server_codec_modes :: "int \<Rightarrow> int \<Rightarrow> (nat \<Rightarrow> bool) \<Rightarrow> u32" where
  "server_codec_modes active_hevc_mode active_av1_mode yuv444 =
     0x00000001
     OR (if yuv444 0 then 0x00040000 else 0)
     OR (if 2 \<le> active_hevc_mode then 0x00000100 OR (if yuv444 1 then 0x00080000 else 0) else 0)
     OR (if 3 \<le> active_hevc_mode then 0x00000200 OR (if yuv444 1 then 0x00100000 else 0) else 0)
     OR (if 2 \<le> active_av1_mode then 0x00010000 OR (if yuv444 2 then 0x00200000 else 0) else 0)
     OR (if 3 \<le> active_av1_mode then 0x00020000 OR (if yuv444 2 then 0x00400000 else 0) else 0)"

end
