(* ===== verification/Pairing_Props.thy ===== *)
theory Pairing_Props
  imports "HOL-Library.Sublist" Nvhttp
begin

text \<open>
  The pairing protocol as the code means it, the proof that the handlers implement it, and what it
  takes to become an authorised client.
\<close>

section \<open>The protocol\<close>

text \<open>What is known of a client that is being paired, after each phase.\<close>

datatype pairing =
    Awaiting_pin bytes string
  | Keyed bytes string bytes
  | Challenged bytes string bytes bytes
  | Answered bytes string bytes bytes

datatype pair_event =
    Enter_pin string string
  | Client_challenge bytes bytes bytes
  | Challenge_response bytes
  | Pairing_secret bytes

text \<open>
  The client proves that it knows the PIN and owns the certificate: its hash covers the challenge of
  the server, the signature in the certificate and its secret, and it signed the secret.
\<close>

definition client_proves :: "pair_crypto \<Rightarrow> bytes \<Rightarrow> bytes \<Rightarrow> bytes \<Rightarrow> bytes \<Rightarrow> bool" where
  "client_proves c cert serverchallenge clienthash m \<longleftrightarrow>
     16 < length m \<and>
     (case pc_signature c cert of
        None \<Rightarrow> False
      | Some s \<Rightarrow> pc_sha256 c (serverchallenge @ s @ take 16 m) = clienthash \<and>
          pc_verify256 c cert (take 16 m) (drop 16 m))"

definition pin_key :: "pair_crypto \<Rightarrow> string \<Rightarrow> string \<Rightarrow> bytes" where
  "pin_key c salt pin = gen_aes_key c (the (from_hex 16 (take 32 salt) True)) pin"

text \<open>The next state and the client that is authorised; anything out of order ends the pairing.\<close>

fun pairing_step :: "pair_crypto \<Rightarrow> pair_event \<Rightarrow> pairing \<Rightarrow> pairing option \<times> (string \<times> bytes) option" where
  "pairing_step c (Enter_pin pin name) (Awaiting_pin cert salt) =
     (if length salt < 32 then None else Some (Keyed cert name (pin_key c salt pin)), None)"
| "pairing_step c (Client_challenge m secret challenge) (Keyed cert name key) =
     (Some (Challenged cert name key challenge), None)"
| "pairing_step c (Challenge_response m) (Challenged cert name key challenge) =
     (Some (Answered cert name challenge (pc_ecb_decrypt c key m)), None)"
| "pairing_step c (Pairing_secret m) (Answered cert name challenge clienthash) =
     (None, if client_proves c cert challenge clienthash m then Some (name, cert) else None)"
| "pairing_step c _ _ = (None, None)"

section \<open>The handlers implement it\<close>

definition abs_session :: "pair_session \<Rightarrow> pairing" where
  "abs_session s =
     (case ps_last_phase s of
        PHASE_NONE \<Rightarrow> Awaiting_pin (ps_cert s) (ps_salt s)
      | PHASE_GETSERVERCERT \<Rightarrow> Keyed (ps_cert s) (ps_name s) (the (ps_cipher_key s))
      | PHASE_CLIENTCHALLENGE \<Rightarrow> Challenged (ps_cert s) (ps_name s) (the (ps_cipher_key s)) (ps_serverchallenge s)
      | _ \<Rightarrow> Answered (ps_cert s) (ps_name s) (ps_serverchallenge s) (ps_clienthash s))"

definition session_ok :: "pair_session \<Rightarrow> bool" where
  "session_ok s \<longleftrightarrow> ps_last_phase s \<noteq> PHASE_CLIENTPAIRINGSECRET \<and>
     (ps_last_phase s \<noteq> PHASE_NONE \<longrightarrow> ps_cipher_key s \<noteq> None) \<and>
     (ps_last_phase s \<in> {PHASE_CLIENTCHALLENGE, PHASE_SERVERCHALLENGERESP} \<longrightarrow> ps_serversecret s \<noteq> [])"

text \<open>An event at the code: the handler of the phase, and for the PIN the name that is set afterwards.\<close>

fun pair_handler :: "pair_crypto \<Rightarrow> pair_host \<Rightarrow> pair_event \<Rightarrow> pair_session \<Rightarrow> pair_session option \<times> (string \<times> bytes) option" where
  "pair_handler c h (Enter_pin pin name) s =
     (map_option (\<lambda>s. s\<lparr>ps_name := name\<rparr>) (snd (getservercert c h s [] pin)), None)"
| "pair_handler c h (Client_challenge m secret challenge) s = (snd (clientchallenge c h secret challenge s [] m), None)"
| "pair_handler c h (Challenge_response m) s = (snd (serverchallengeresp c h s [] m), None)"
| "pair_handler c h (Pairing_secret m) s = (None, snd (clientpairingsecret c s [] m))"

definition fresh_secret :: "pair_event \<Rightarrow> bool" where
  "fresh_secret e = (case e of Client_challenge m secret challenge \<Rightarrow> secret \<noteq> [] | _ \<Rightarrow> True)"

lemmas pair_phase_defs = getservercert_def clientchallenge_def serverchallengeresp_def clientpairingsecret_def

lemma pair_handler_refines:
  assumes "session_ok s" and "fresh_secret e"
  shows "map_option abs_session (fst (pair_handler c h e s)) = fst (pairing_step c e (abs_session s))"
    and "snd (pair_handler c h e s) = snd (pairing_step c e (abs_session s))"
    and "fst (pair_handler c h e s) = Some s' \<Longrightarrow> session_ok s'"
  using assms
  by (cases e; cases "ps_last_phase s";
      force simp: pair_phase_defs abs_session_def session_ok_def fresh_secret_def pin_key_def client_proves_def Let_def
        split: option.splits if_splits)+

text \<open>A run of events on a session that may be gone: the session that is left and who was authorised.\<close>

fun run_events :: "('e \<Rightarrow> 's \<Rightarrow> 's option \<times> 'c option) \<Rightarrow> 'e list \<Rightarrow> 's option \<Rightarrow> 's option \<times> 'c list" where
  "run_events step [] s = (s, [])"
| "run_events step (e # es) None = run_events step es None"
| "run_events step (e # es) (Some s) =
     (let (s', client) = step e s; (s'', clients) = run_events step es s'
      in (s'', (case client of None \<Rightarrow> clients | Some c \<Rightarrow> c # clients)))"

lemma run_events_None [simp]: "run_events step es None = (None, [])"
  by (induction es) simp_all

lemma run_events_Cons:
  "fst (run_events step (e # es) (Some s)) = fst (run_events step es (fst (step e s)))"
  "snd (run_events step (e # es) (Some s)) =
    (case snd (step e s) of None \<Rightarrow> [] | Some c \<Rightarrow> [c]) @ snd (run_events step es (fst (step e s)))"
  by (simp_all add: split_beta Let_def split: option.split)

lemma run_events_refines:
  assumes "list_all fresh_secret es" and "\<And>x. s = Some x \<Longrightarrow> session_ok x"
  shows "map_option abs_session (fst (run_events (pair_handler c h) es s)) =
      fst (run_events (pairing_step c) es (map_option abs_session s)) \<and>
    snd (run_events (pair_handler c h) es s) = snd (run_events (pairing_step c) es (map_option abs_session s))"
  using assms
proof (induction es arbitrary: s)
  case (Cons e es)
  show ?case
  proof (cases s)
    case (Some x)
    have x: "session_ok x" "fresh_secret e" using Cons.prems Some by simp_all
    note step = pair_handler_refines [OF x, of c h]
    from Cons.IH [of "fst (pair_handler c h e x)"] Cons.prems(1) step(3) show ?thesis
      unfolding Some option.map run_events_Cons step(2) step(1) [symmetric] by auto
  qed simp
qed simp

text \<open>
  C15. The handlers implement the pairing protocol. Whatever requests and PINs arrive for a session,
  in whatever order, the handlers keep it in the state of the protocol and authorise exactly whom the
  protocol authorises. The checks for a missing key or secret never strike.
\<close>

theorem pairing_refines:
  assumes "list_all fresh_secret es"
  shows "map_prod (map_option abs_session) id
      (run_events (pair_handler c h) es (Some ((new_pair_session uniqueID cert)\<lparr>ps_salt := salt\<rparr>))) =
    run_events (pairing_step c) es (Some (Awaiting_pin cert salt))"
proof -
  let ?s = "(new_pair_session uniqueID cert)\<lparr>ps_salt := salt\<rparr>"
  have "session_ok ?s" "abs_session ?s = Awaiting_pin cert salt"
    by (simp_all add: session_ok_def abs_session_def new_pair_session_def)
  then show ?thesis
    using run_events_refines [OF assms, of "Some ?s" c h] by (simp add: prod_eq_iff)
qed

text \<open>Toy primitives to compute with: no encryption, a hash that reverses, and signatures that repeat the data.\<close>

definition sample_crypto :: pair_crypto where
  "sample_crypto = \<lparr>pc_sha256 = rev, pc_ecb_decrypt = (\<lambda>k m. m), pc_ecb_encrypt = (\<lambda>k m. m),
     pc_signature = (\<lambda>cert. Some (take 2 cert)), pc_sign256 = (\<lambda>k m. m), pc_verify256 = (\<lambda>cert m s. s = m)\<rparr>"

definition sample_host :: pair_host where
  "sample_host = \<lparr>ph_servercert = [1, 2, 3], ph_signature = [1, 2], ph_pkey = [9]\<rparr>"

definition sample_pairing :: "pair_event list" where
  "sample_pairing =
     [Enter_pin ''1234'' ''laptop'', Client_challenge [7] [5] [6], Challenge_response (replicate 16 4 @ [8, 8, 6]),
      Pairing_secret (replicate 16 4 @ replicate 16 4)]"

theorem pairing_refines_witness:
  "run_events (pair_handler sample_crypto sample_host) sample_pairing
     (Some ((new_pair_session ''0123'' [8, 8, 1])\<lparr>ps_salt := replicate 32 (CHR ''A'')\<rparr>)) = (None, [(''laptop'', [8, 8, 1])])"
proof -
  have "list_all fresh_secret sample_pairing" by code_simp
  from pairing_refines [OF this, where c = sample_crypto and h = sample_host and uniqueID = "''0123''"
      and cert = "[8, 8, 1]" and salt = "replicate 32 (CHR ''A'')"]
  have "map_prod (map_option abs_session) id (run_events (pair_handler sample_crypto sample_host) sample_pairing
     (Some ((new_pair_session ''0123'' [8, 8, 1])\<lparr>ps_salt := replicate 32 (CHR ''A'')\<rparr>))) =
    run_events (pairing_step sample_crypto) sample_pairing (Some (Awaiting_pin [8, 8, 1] (replicate 32 (CHR ''A''))))" .
  also have "\<dots> = (None, [(''laptop'', [8, 8, 1])])" by code_simp
  finally show ?thesis by (simp add: prod_eq_iff)
qed

section \<open>What it takes to be authorised\<close>

text \<open>
  The events of the server: requests, with the number of their response and the random bytes they
  use, and entered PINs, with the session the map begins with. \<open>None\<close> is undefined behaviour.
\<close>

datatype serve_event =
    Pair_request nat bytes bytes request_args
  | Pair_pin string string string

fun serve :: "pair_crypto \<Rightarrow> pair_host \<Rightarrow> serve_event \<Rightarrow> pair_sessions
    \<Rightarrow> (pair_sessions \<times> (string \<times> bytes) list) option" where
  "serve c h (Pair_request response secret challenge args) sessions =
     (let (tree, sessions, client) = pair_request c h None response secret challenge args sessions
      in Some (sessions, case client of None \<Rightarrow> [] | Some x \<Rightarrow> [x]))"
| "serve c h (Pair_pin first pin name) sessions =
     map_option (\<lambda>(ok, written, sessions). (sessions, [])) (pair_pin c h first pin name sessions)"

fun serve_all :: "pair_crypto \<Rightarrow> pair_host \<Rightarrow> serve_event list \<Rightarrow> pair_sessions
    \<Rightarrow> (pair_sessions \<times> (string \<times> bytes) list) option" where
  "serve_all c h [] sessions = Some (sessions, [])"
| "serve_all c h (e # es) sessions =
     (case serve c h e sessions of
        None \<Rightarrow> None
      | Some (sessions, clients) \<Rightarrow> map_option (map_prod id (\<lambda>cs. clients @ cs)) (serve_all c h es sessions))"

fun fresh_request :: "serve_event \<Rightarrow> bool" where
  "fresh_request (Pair_request response secret challenge args) = (secret \<noteq> [])"
| "fresh_request (Pair_pin first pin name) = True"

text \<open>The events a pairing consists of: the first request with the certificate, and the answers of the client.\<close>

fun starts_pairing :: "string \<Rightarrow> bytes \<Rightarrow> serve_event \<Rightarrow> bool" where
  "starts_pairing uid cert (Pair_request response secret challenge args) =
     (args ''uniqueid'' = Some uid \<and> args ''phrase'' = Some ''getservercert'' \<and>
      map_option (\<lambda>v. from_hex_vec v True) (args ''clientcert'') = Some cert)"
| "starts_pairing uid cert (Pair_pin first pin name) = False"

fun gives_salt :: "string \<Rightarrow> string \<Rightarrow> serve_event \<Rightarrow> bool" where
  "gives_salt uid salt (Pair_request response secret challenge args) =
     (args ''uniqueid'' = Some uid \<and> args ''phrase'' = Some ''getservercert'' \<and> args ''salt'' = Some salt)"
| "gives_salt uid salt (Pair_pin first pin name) = False"

fun answers :: "string \<Rightarrow> string \<Rightarrow> bytes \<Rightarrow> serve_event \<Rightarrow> bool" where
  "answers uid field m (Pair_request response secret challenge args) =
     (args ''uniqueid'' = Some uid \<and> map_option (\<lambda>v. from_hex_vec v True) (args field) = Some m)"
| "answers uid field m (Pair_pin first pin name) = False"

fun draws_challenge :: "string \<Rightarrow> bytes \<Rightarrow> serve_event \<Rightarrow> bool" where
  "draws_challenge uid x (Pair_request response secret challenge args) =
     (args ''uniqueid'' = Some uid \<and> args ''clientchallenge'' \<noteq> None \<and> challenge = x)"
| "draws_challenge uid x (Pair_pin first pin name) = False"

text \<open>What the events so far say about a session in a state of the protocol.\<close>

definition salted :: "string \<Rightarrow> string \<Rightarrow> serve_event list \<Rightarrow> bool" where
  "salted uid salt es \<longleftrightarrow> list_ex (gives_salt uid salt) es"

fun evidence :: "pair_crypto \<Rightarrow> serve_event list \<Rightarrow> string \<Rightarrow> pairing \<Rightarrow> bool" where
  "evidence c es uid (Awaiting_pin cert salt) =
     ((\<exists>e0. starts_pairing uid cert e0 \<and> subseq [e0] es) \<and> (salt = [] \<or> salted uid salt es))"
| "evidence c es uid (Keyed cert name key) =
     (\<exists>e0 pin salt. starts_pairing uid cert e0 \<and> salted uid salt es \<and> key = pin_key c salt pin \<and>
        subseq [e0, Pair_pin uid pin name] es)"
| "evidence c es uid (Challenged cert name key challenge) =
     (\<exists>e0 pin salt e1. starts_pairing uid cert e0 \<and> salted uid salt es \<and> key = pin_key c salt pin \<and>
        draws_challenge uid challenge e1 \<and> subseq [e0, Pair_pin uid pin name, e1] es)"
| "evidence c es uid (Answered cert name challenge clienthash) =
     (\<exists>e0 pin salt e1 e2 m. starts_pairing uid cert e0 \<and> salted uid salt es \<and>
        draws_challenge uid challenge e1 \<and> answers uid ''serverchallengeresp'' m e2 \<and>
        clienthash = pc_ecb_decrypt c (pin_key c salt pin) m \<and>
        subseq [e0, Pair_pin uid pin name, e1, e2] es)"

definition known :: "pair_crypto \<Rightarrow> serve_event list \<Rightarrow> pair_sessions \<Rightarrow> bool" where
  "known c es sessions \<longleftrightarrow>
     (\<forall>uid s. sessions uid = Some s \<longrightarrow> session_ok s \<and> evidence c es uid (abs_session s))"

definition paired_by :: "pair_crypto \<Rightarrow> serve_event list \<Rightarrow> string \<times> bytes \<Rightarrow> bool" where
  "paired_by c es client \<longleftrightarrow>
     (\<exists>uid e0 pin salt e1 challenge e2 m e3 p. subseq [e0, Pair_pin uid pin (fst client), e1, e2, e3] es \<and>
        starts_pairing uid (snd client) e0 \<and> salted uid salt es \<and> draws_challenge uid challenge e1 \<and>
        answers uid ''serverchallengeresp'' m e2 \<and> answers uid ''clientpairingsecret'' p e3 \<and>
        client_proves c (snd client) challenge (pc_ecb_decrypt c (pin_key c salt pin) m) p)"

lemma subseq_snoc:
  "subseq xs es \<Longrightarrow> subseq xs (es @ [e])"
  "subseq xs es \<Longrightarrow> subseq (xs @ [e]) (es @ [e])"
  by (auto intro: list_emb_append2)

lemma salted_snoc: "salted uid salt es \<Longrightarrow> salted uid salt (es @ [e])"
  by (auto simp: salted_def)

lemma evidence_snoc: "evidence c es uid p \<Longrightarrow> evidence c (es @ [e]) uid p"
  by (cases p) (force intro: subseq_snoc(1) salted_snoc)+

lemma paired_by_mono: "paired_by c es client \<Longrightarrow> paired_by c (es @ es') client"
  unfolding paired_by_def salted_def list_ex_append by (meson subseq_rev_drop_many)

text \<open>The event of the protocol an event of the server is for one session.\<close>

fun is_for :: "string \<Rightarrow> serve_event \<Rightarrow> pair_event \<Rightarrow> bool" where
  "is_for uid e (Enter_pin pin name) = (e = Pair_pin uid pin name)"
| "is_for uid e (Client_challenge m secret challenge) = draws_challenge uid challenge e"
| "is_for uid e (Challenge_response m) = answers uid ''serverchallengeresp'' m e"
| "is_for uid e (Pairing_secret m) = answers uid ''clientpairingsecret'' m e"

lemma pairing_step_cases:
  obtains pin name cert salt where "ev = Enter_pin pin name" "p = Awaiting_pin cert salt"
      "pairing_step c ev p = (if length salt < 32 then None else Some (Keyed cert name (pin_key c salt pin)), None)"
  | m secret challenge cert name key where "ev = Client_challenge m secret challenge" "p = Keyed cert name key"
      "pairing_step c ev p = (Some (Challenged cert name key challenge), None)"
  | m cert name key challenge where "ev = Challenge_response m" "p = Challenged cert name key challenge"
      "pairing_step c ev p = (Some (Answered cert name challenge (pc_ecb_decrypt c key m)), None)"
  | m cert name challenge clienthash where "ev = Pairing_secret m" "p = Answered cert name challenge clienthash"
      "pairing_step c ev p = (None, if client_proves c cert challenge clienthash m then Some (name, cert) else None)"
  | "pairing_step c ev p = (None, None)"
  by (cases ev; cases p) auto

lemma evidence_step:
  assumes e: "is_for uid e ev" and ev: "evidence c es uid p" and step: "fst (pairing_step c ev p) = Some p'"
  shows "evidence c (es @ [e]) uid p'"
proof (cases ev p c rule: pairing_step_cases)
  case (1 pin name cert salt)
  then obtain e0 where "starts_pairing uid cert e0" "subseq [e0] es" "salted uid salt es"
    and p': "p' = Keyed cert name (pin_key c salt pin)" using ev step by (auto split: if_splits)
  then show ?thesis
    using e 1(1) subseq_snoc(2) [of "[e0]" es e] salted_snoc unfolding p' evidence.simps
    by (intro exI conjI) auto
next
  case (2 m secret challenge cert name key)
  then obtain e0 pin salt where "starts_pairing uid cert e0" "salted uid salt es" "key = pin_key c salt pin"
    "subseq [e0, Pair_pin uid pin name] es" and p': "p' = Challenged cert name key challenge" using ev step by auto
  then show ?thesis
    using e 2(1) subseq_snoc(2) [of "[e0, Pair_pin uid pin name]" es e] salted_snoc unfolding p' evidence.simps
    by (intro exI conjI) auto
next
  case (3 m cert name key challenge)
  then obtain e0 pin salt e1 where "starts_pairing uid cert e0" "salted uid salt es" "key = pin_key c salt pin"
    "draws_challenge uid challenge e1" "subseq [e0, Pair_pin uid pin name, e1] es"
    and p': "p' = Answered cert name challenge (pc_ecb_decrypt c key m)" using ev step by auto
  then show ?thesis
    using e 3(1) subseq_snoc(2) [of "[e0, Pair_pin uid pin name, e1]" es e] salted_snoc unfolding p' evidence.simps
    by (intro exI conjI) auto
qed (use step in auto)

lemma evidence_paired:
  assumes e: "is_for uid e ev" and ev: "evidence c es uid p" and step: "snd (pairing_step c ev p) = Some client"
  shows "paired_by c (es @ [e]) client"
proof (cases ev p c rule: pairing_step_cases)
  case (4 m cert name challenge clienthash)
  then have proves: "client_proves c cert challenge clienthash m" and client: "client = (name, cert)"
    using step by (auto split: if_splits)
  from ev obtain e0 pin salt e1 e2 r where "starts_pairing uid cert e0" "salted uid salt es"
    "draws_challenge uid challenge e1" "answers uid ''serverchallengeresp'' r e2"
    "clienthash = pc_ecb_decrypt c (pin_key c salt pin) r" "subseq [e0, Pair_pin uid pin name, e1, e2] es"
    unfolding 4(2) by auto
  then show ?thesis
    using e proves subseq_snoc(2) [of "[e0, Pair_pin uid pin name, e1, e2]" es e] salted_snoc
    unfolding paired_by_def client 4(1) by (intro exI conjI) auto
qed (use step in auto)

lemma known_update:
  assumes "known c es sessions"
    and "\<And>s. new = Some s \<Longrightarrow> session_ok s \<and> evidence c (es @ [e]) uid (abs_session s)"
  shows "known c (es @ [e]) (sessions(uid := new))"
  using assms evidence_snoc unfolding known_def by auto

lemma handler_known:
  assumes known: "known c es sessions" "sessions uid = Some s" and e: "is_for uid e ev" "fresh_secret ev"
    and handler: "pair_handler c h ev s = (new, client)"
  shows "known c (es @ [e]) (sessions(uid := new))" and "client = Some x \<Longrightarrow> paired_by c (es @ [e]) x"
proof -
  have s: "session_ok s" "evidence c es uid (abs_session s)" using known unfolding known_def by auto
  note refines = pair_handler_refines [OF s(1) e(2), of c h, unfolded handler fst_conv snd_conv]
  show "known c (es @ [e]) (sessions(uid := new))"
  proof (rule known_update [OF known(1)])
    fix s' assume new: "new = Some s'"
    then have "fst (pairing_step c ev (abs_session s)) = Some (abs_session s')" using refines(1) by simp
    from evidence_step [OF e(1) s(2) this] refines(3) [OF new]
    show "session_ok s' \<and> evidence c (es @ [e]) uid (abs_session s')" by simp
  qed
  show "client = Some x \<Longrightarrow> paired_by c (es @ [e]) x"
    using evidence_paired [OF e(1) s(2)] refines(2) by simp
qed

lemma known_snoc: "known c es sessions \<Longrightarrow> known c (es @ [e]) sessions"
  using known_update [of c es sessions "sessions uid" e uid] evidence_snoc unfolding known_def by auto

lemma getservercert_known:
  assumes known: "known c es sessions"
    and e: "e = Pair_request response secret challenge args" "args ''uniqueid'' = Some uid"
      "args ''phrase'' = Some ''getservercert''"
  shows "known c (es @ [e]) (snd (pair_getservercert c h None response uid args sessions))"
proof (cases "args ''clientcert''")
  case None
  then show ?thesis using known_snoc [OF known] by (simp add: pair_getservercert_def get_arg_def)
next
  case (Some clientcert)
  define sess where "sess = (case sessions uid of Some existing \<Rightarrow> existing
    | None \<Rightarrow> new_pair_session uid (from_hex_vec clientcert True))"
  have "starts_pairing uid (from_hex_vec clientcert True) e" using e Some by simp
  then have sess: "session_ok sess" "evidence c (es @ [e]) uid (abs_session sess)"
    using known evidence_snoc [of c es uid _ e] unfolding sess_def known_def
    by (auto simp: new_pair_session_def session_ok_def abs_session_def split: option.split)
  have salt: "salted uid salt (es @ [e])" if "args ''salt'' = Some salt" for salt
    using e that by (simp add: salted_def)
  have abs: "evidence c (es @ [e]) uid (abs_session (sess\<lparr>ps_salt := salt, ps_response := r\<rparr>))"
    if "args ''salt'' = Some salt" for salt r
    using sess(2) salt [OF that] by (auto simp: abs_session_def split: pair_phase.split_asm pair_phase.split)
  have "known c (es @ [e]) (sessions(uid := Some sess))"
    by (rule known_update [OF known]) (use sess in auto)
  moreover have "known c (es @ [e]) (sessions(uid := Some (sess\<lparr>ps_salt := salt, ps_response := r\<rparr>)))"
    if "args ''salt'' = Some salt" for salt r
    by (rule known_update [OF known]) (use sess abs [OF that] in \<open>auto simp: session_ok_def\<close>)
  ultimately show ?thesis
    by (simp add: pair_getservercert_def get_arg_def Some sess_def [symmetric] Let_def split: option.split)
qed

lemma pair_phases_known:
  assumes known: "known c es sessions" and e: "e = Pair_request response secret challenge args" "secret \<noteq> []"
      "args ''uniqueid'' = Some uid"
    and run: "pair_phases c h secret challenge uid args sessions = (tree, sessions', client)"
  shows "known c (es @ [e]) sessions' \<and> (\<forall>x. client = Some x \<longrightarrow> paired_by c (es @ [e]) x)"
proof -
  have handled: "known c (es @ [e]) sessions' \<and> (\<forall>x. client = Some x \<longrightarrow> paired_by c (es @ [e]) x)"
    if s: "sessions uid = Some s" and ev: "is_for uid e ev" "fresh_secret ev"
      and new: "sessions' = sessions(uid := fst (pair_handler c h ev s))" "client = snd (pair_handler c h ev s)" for s ev
  proof -
    have "pair_handler c h ev s = (fst (pair_handler c h ev s), client)" using new(2) by simp
    from handler_known [OF known s ev this] new(1) show ?thesis by blast
  qed
  show ?thesis
  proof (cases "sessions uid")
    case None
    then show ?thesis using run known_snoc [OF known, of e] by (simp add: pair_phases_def)
  next
    case (Some s)
    consider m where "args ''clientchallenge'' = Some m"
      | m where "args ''clientchallenge'' = None" "args ''serverchallengeresp'' = Some m"
      | m where "args ''clientchallenge'' = None" "args ''serverchallengeresp'' = None" "args ''clientpairingsecret'' = Some m"
      | "args ''clientchallenge'' = None" "args ''serverchallengeresp'' = None" "args ''clientpairingsecret'' = None"
      by (cases "args ''clientchallenge''"; cases "args ''serverchallengeresp''"; cases "args ''clientpairingsecret''") auto
    then show ?thesis
    proof cases
      case (1 m)
      show ?thesis
        by (rule handled [OF Some, of "Client_challenge (from_hex_vec m True) secret challenge"])
           (use run 1 e Some in \<open>auto simp: pair_phases_def fresh_secret_def split_beta\<close>)
    next
      case (2 m)
      show ?thesis
        by (rule handled [OF Some, of "Challenge_response (from_hex_vec m True)"])
           (use run 2 e Some in \<open>auto simp: pair_phases_def fresh_secret_def split_beta\<close>)
    next
      case (3 m)
      show ?thesis
        by (rule handled [OF Some, of "Pairing_secret (from_hex_vec m True)"])
           (use run 3 e Some in \<open>auto simp: pair_phases_def fresh_secret_def split_beta\<close>)
    next
      case 4
      then show ?thesis using run Some known_snoc [OF known, of e] by (simp add: pair_phases_def)
    qed
  qed
qed

lemma ps_response_simps [simp]:
  "abs_session (s\<lparr>ps_response := r\<rparr>) = abs_session s" "session_ok (s\<lparr>ps_response := r\<rparr>) = session_ok s"
  by (simp_all add: abs_session_def session_ok_def split: pair_phase.split)

lemma pair_pin_known:
  assumes known: "known c es sessions" and run: "pair_pin c h first pin name sessions = Some (ok, written, sessions')"
  shows "known c (es @ [Pair_pin first pin name]) sessions'"
proof (cases "sessions first")
  case None
  then show ?thesis using run known_snoc [OF known] by (simp add: pair_pin_def)
next
  case (Some s)
  obtain new where new: "pair_handler c h (Enter_pin pin name) s = (new, None)" by simp
  have known': "known c (es @ [Pair_pin first pin name]) (sessions(first := new))"
    by (rule handler_known(1) [OF known Some _ _ new]) (simp_all add: fresh_secret_def)
  have response: "known c es' (sessions(first := Some (x\<lparr>ps_response := r\<rparr>)))"
    if "known c es' (sessions(first := Some x))" for es' x r
    using that unfolding known_def by (metis fun_upd_apply option.inject ps_response_simps)
  show ?thesis
  proof (cases "snd (getservercert c h s [] pin)")
    case None
    then show ?thesis
      using run Some known_snoc [OF known] by (auto simp: pair_pin_def split_beta split: if_splits)
  next
    case (Some s')
    then have "new = Some (s'\<lparr>ps_name := name\<rparr>)" using new by simp
    then show ?thesis
      using run \<open>sessions first = Some s\<close> Some known_snoc [OF known] known' response [of _ "s'\<lparr>ps_name := name\<rparr>" None]
      by (auto simp: pair_pin_def split_beta Let_def split: if_splits option.splits)
  qed
qed

lemma serve_known:
  assumes known: "known c es sessions" and "fresh_request e"
    and run: "serve c h e sessions = Some (sessions', clients)"
  shows "known c (es @ [e]) sessions' \<and> list_all (paired_by c (es @ [e])) clients"
proof (cases e)
  case (Pair_pin first pin name)
  then show ?thesis using run pair_pin_known [OF known] by auto
next
  case (Pair_request response secret challenge args)
  have secret: "secret \<noteq> []" using assms(2) Pair_request by simp
  obtain tree client where req: "pair_request c h None response secret challenge args sessions = (tree, sessions', client)"
    and clients: "clients = (case client of None \<Rightarrow> [] | Some x \<Rightarrow> [x])"
    using run Pair_request by (auto split: prod.splits)
  show ?thesis
  proof (cases "args ''uniqueid''")
    case None
    then show ?thesis using req clients known_snoc [OF known] by (auto simp: pair_request_def)
  next
    case (Some uid)
    consider "args ''phrase'' = Some ''getservercert''" | "args ''phrase'' = Some ''pairchallenge''"
      | "args ''phrase'' \<noteq> Some ''getservercert''" "args ''phrase'' \<noteq> Some ''pairchallenge''" by blast
    then show ?thesis
    proof cases
      case 1
      then show ?thesis
        using req clients getservercert_known [OF known Pair_request Some 1, of h] Some
        by (auto simp: pair_request_def split_beta)
    next
      case 2
      then show ?thesis using req clients Some known_snoc [OF known] by (auto simp: pair_request_def)
    next
      case 3
      then obtain tree where "pair_phases c h secret challenge uid args sessions = (tree, sessions', client)"
        using req Some by (auto simp: pair_request_def split_beta prod_eq_iff)
      from pair_phases_known [OF known Pair_request secret Some this] clients show ?thesis
        by (auto split: option.split)
    qed
  qed
qed

lemma serve_all_known:
  assumes "known c es sessions" and "list_all fresh_request es'"
    and "serve_all c h es' sessions = Some (sessions', clients)"
  shows "known c (es @ es') sessions' \<and> list_all (paired_by c (es @ es')) clients"
  using assms
proof (induction es' arbitrary: es sessions clients)
  case (Cons e es')
  then obtain s1 cs1 cs2 where run: "serve c h e sessions = Some (s1, cs1)" "serve_all c h es' s1 = Some (sessions', cs2)"
    and clients: "clients = cs1 @ cs2"
    by (auto split: option.splits)
  have step: "known c (es @ [e]) s1 \<and> list_all (paired_by c (es @ [e])) cs1"
    by (rule serve_known [OF Cons.prems(1) _ run(1)]) (use Cons.prems(2) in simp)
  then have "list_all (paired_by c (es @ e # es')) cs1"
    using paired_by_mono [of c "es @ [e]" _ es'] by (simp add: list_all_iff)
  with Cons.IH [OF conjunct1 [OF step] _ run(2)] Cons.prems(2) show ?case by (simp add: clients)
qed simp

text \<open>
  Nobody is authorised without the PIN. Whatever requests and PINs the server handles, for any
  number of clients and in any order, each client it authorises went through the whole pairing, in
  order: the request that brought the certificate, the entry of a PIN under the name the client gets,
  the challenge, the response and the secret, all under one identifier; and the response, decrypted
  with the key made of that PIN and a salt sent under the identifier, together with the secret proves
  the knowledge of the challenge and the ownership of the certificate.
\<close>

theorem authorised_only_after_pairing:
  assumes "list_all fresh_request es" and "serve_all c h es (\<lambda>_. None) = Some (sessions, clients)"
  shows "list_all (\<lambda>(name, cert). \<exists>uid e0 pin salt e1 challenge e2 m e3 p.
      subseq [e0, Pair_pin uid pin name, e1, e2, e3] es \<and>
      starts_pairing uid cert e0 \<and> list_ex (gives_salt uid salt) es \<and> draws_challenge uid challenge e1 \<and>
      answers uid ''serverchallengeresp'' m e2 \<and> answers uid ''clientpairingsecret'' p e3 \<and>
      client_proves c cert challenge (pc_ecb_decrypt c (pin_key c salt pin) m) p) clients"
proof -
  have "known c [] (\<lambda>_. None)" by (simp add: known_def)
  from serve_all_known [OF this assms] show ?thesis
    unfolding paired_by_def salted_def split_beta append_Nil by (rule conjunct2)
qed

definition sample_request :: "(string \<times> string) list \<Rightarrow> serve_event" where
  "sample_request args = Pair_request 0 [5] [6] (map_of ((''uniqueid'', ''0123'') # args))"

definition sample_requests :: "serve_event list" where
  "sample_requests =
     [sample_request [(''phrase'', ''getservercert''), (''clientcert'', ''080801''), (''salt'', replicate 32 (CHR ''A''))],
      Pair_pin ''0123'' ''1234'' ''laptop'',
      sample_request [(''clientchallenge'', ''07'')],
      sample_request [(''serverchallengeresp'', hex_vec (replicate 16 4 @ [8, 8, 6]) True)],
      sample_request [(''clientpairingsecret'', hex_vec (replicate 32 4) True)]]"

theorem authorised_only_after_pairing_witness:
  "\<exists>sessions. serve_all sample_crypto sample_host sample_requests (\<lambda>_. None) = Some (sessions, [(''laptop'', [8, 8, 1])]) \<and>
    (\<exists>uid e0 pin e1 e2 e3. subseq [e0, Pair_pin uid pin ''laptop'', e1, e2, e3] sample_requests)"
proof -
  have "list_all fresh_request sample_requests" by code_simp
  moreover have "map_option snd (serve_all sample_crypto sample_host sample_requests (\<lambda>_. None)) = Some [(''laptop'', [8, 8, 1])]"
    by code_simp
  then obtain sessions where
    run: "serve_all sample_crypto sample_host sample_requests (\<lambda>_. None) = Some (sessions, [(''laptop'', [8, 8, 1])])"
    by auto
  ultimately have "\<exists>uid e0 pin e1 e2 e3. subseq [e0, Pair_pin uid pin ''laptop'', e1, e2, e3] sample_requests"
    using authorised_only_after_pairing [OF _ run] by (simp only: list.pred_inject prod.case) blast
  with run show ?thesis by blast
qed

end
