(* ===== verification/Nvhttp_Props.thy ===== *)
theory Nvhttp_Props
  imports Nvhttp Pairing_Props Rtsp_Server Rtsp_Props
begin

text \<open>
  Properties of the GameStream server: who is admitted, what revoking a client achieves, and the
  encryption the host can insist on.
\<close>

section \<open>Histories of the server\<close>

text \<open>
  What happens to the server: requests of the pairing and entered PINs (\<open>serve_event\<close>), verified
  connections, and what the owner of the host does in the web interface. The booleans are the success
  of saving and of loading the state file.
\<close>

datatype nv_op =
    Nv_pairing serve_event bool string
  | Nv_verify "bytes option"
  | Nv_erase bool
  | Nv_unpair bool bool "nat \<Rightarrow> string" string
  | Nv_enable bool string bool

record nv_env =
  ne_crypto :: pair_crypto
  ne_host :: pair_host
  ne_fresh_state :: bool
  ne_verify :: "bytes \<Rightarrow> bytes \<Rightarrow> int option"
  ne_pem :: "bytes \<Rightarrow> bytes"

fun nv_pairing :: "nv_env \<Rightarrow> serve_event \<Rightarrow> bool \<Rightarrow> string \<Rightarrow> nvhttp \<Rightarrow> (nvhttp \<times> (string \<times> bytes) list) option" where
  "nv_pairing e (Pair_request response secret challenge args) io_ok uuid nv =
     (let (tree, nv') = nvhttp_pair (ne_crypto e) (ne_host e) (ne_fresh_state e) io_ok None response secret challenge uuid args nv;
          (tree, sessions, client) = pair_request (ne_crypto e) (ne_host e) None response secret challenge args (nv_sessions nv)
      in Some (nv', case client of None \<Rightarrow> [] | Some x \<Rightarrow> [x]))"
| "nv_pairing e (Pair_pin first pin name) io_ok uuid nv =
     map_option (\<lambda>(ok, written, sessions). (nv\<lparr>nv_sessions := sessions\<rparr>, []))
       (pair_pin (ne_crypto e) (ne_host e) first pin name (nv_sessions nv))"

fun nv_step :: "nv_env \<Rightarrow> nv_op \<Rightarrow> nvhttp \<Rightarrow> (nvhttp \<times> (string \<times> bytes) list) option" where
  "nv_step e (Nv_pairing ev io_ok uuid) nv = nv_pairing e ev io_ok uuid nv"
| "nv_step e (Nv_verify x509) nv = Some (snd (verify_client (ne_verify e) (ne_pem e) x509 nv), [])"
| "nv_step e (Nv_erase io_ok) nv = Some (erase_all_clients io_ok nv, [])"
| "nv_step e (Nv_unpair save_ok load_ok uuids uuid) nv = Some (snd (unpair_client save_ok load_ok uuids uuid nv), [])"
| "nv_step e (Nv_enable io_ok uuid enabled) nv = Some (snd (set_client_enabled io_ok uuid enabled nv), [])"

text \<open>The state after a history, and the clients that were authorised in it. \<open>None\<close> is undefined behaviour.\<close>

fun nv_run :: "nv_env \<Rightarrow> nv_op list \<Rightarrow> nvhttp \<Rightarrow> (nvhttp \<times> (string \<times> bytes) list) option" where
  "nv_run e [] nv = Some (nv, [])"
| "nv_run e (op # ops) nv =
     (case nv_step e op nv of
        None \<Rightarrow> None
      | Some (nv, clients) \<Rightarrow> map_option (map_prod id (\<lambda>cs. clients @ cs)) (nv_run e ops nv))"

fun pairing_events :: "nv_op list \<Rightarrow> serve_event list" where
  "pairing_events [] = []"
| "pairing_events (Nv_pairing ev io_ok uuid # ops) = ev # pairing_events ops"
| "pairing_events (op # ops) = pairing_events ops"

definition new_server :: "string \<Rightarrow> nvhttp" where
  "new_server unique_id = \<lparr>nv_sessions = (\<lambda>_. None), nv_named_devices = [], nv_cert_chain = [],
     nv_add_cert = new_add_cert, nv_unique_id = unique_id, nv_file = None\<rparr>"

section \<open>Certificates\<close>

text \<open>All certificates the server holds: devices, chain, the queue of added ones, and the file.\<close>

definition held_certs :: "nvhttp \<Rightarrow> bytes set" where
  "held_certs nv = nc_cert ` set (nv_named_devices nv) \<union> set (nv_cert_chain nv) \<union> set (q_queue (nv_add_cert nv)) \<union>
     (case nv_file nv of None \<Rightarrow> {} | Some f \<Rightarrow> set (sf_devices f) \<union> sv_cert ` set (sf_named_devices f))"

lemma held_save_state: "held_certs (save_state io_ok nv) \<subseteq> held_certs nv"
  by (auto simp: held_certs_def save_state_def save_cert_def split: option.splits)

lemma load_devices_certs: "nc_cert ` set (load_devices uuids certs) \<subseteq> set certs"
  by (auto simp: load_devices_def in_set_enumerate_eq)

lemma held_load_state: "held_certs (load_state io_ok uuids nv) \<subseteq> held_certs nv"
proof (cases "nv_file nv")
  case (Some f)
  then show ?thesis
    using load_devices_certs [of uuids "sf_devices f"]
    by (cases "sf_uniqueid f") (auto simp: load_state_def held_certs_def Let_def load_cert_def)
qed (simp add: load_state_def held_certs_def)

lemma held_unpair: "held_certs (snd (unpair_client save_ok load_ok uuids uuid nv)) \<subseteq> held_certs nv"
proof -
  have "held_certs (nv\<lparr>nv_named_devices := filter (\<lambda>c. nc_uuid c \<noteq> uuid) (nv_named_devices nv)\<rparr>) \<subseteq> held_certs nv"
    by (auto simp: held_certs_def)
  then show ?thesis
    unfolding unpair_client_def Let_def snd_conv using held_load_state held_save_state by (meson order_trans)
qed

lemma held_erase: "held_certs (erase_all_clients io_ok nv) \<subseteq> held_certs nv"
  unfolding erase_all_clients_def using held_save_state by (rule order_trans) (auto simp: held_certs_def)

lemma set_enabled_certs: "set_enabled uuid b cs = Some ds \<Longrightarrow> map nc_cert ds = map nc_cert cs"
  by (induction cs arbitrary: ds) (auto split: if_splits)

lemma held_enable: "held_certs (snd (set_client_enabled io_ok uuid b nv)) \<subseteq> held_certs nv"
proof (cases "set_enabled uuid b (nv_named_devices nv)")
  case (Some ds)
  then have "nc_cert ` set ds = nc_cert ` set (nv_named_devices nv)"
    using set_enabled_certs by (metis list.set_map)
  then have "held_certs (nv\<lparr>nv_named_devices := ds\<rparr>) = held_certs nv" by (simp add: held_certs_def)
  then show ?thesis using Some held_save_state by (fastforce simp: set_client_enabled_def)
qed (simp add: set_client_enabled_def)

text \<open>Taking over added certificates moves them from the queue to the chain.\<close>

lemma drain_queue:
  "q_continue q \<Longrightarrow> n = length (q_queue q) \<Longrightarrow>
    drain_channel queue_peek queue_pop n q = Some (q_queue q, q\<lparr>q_queue := []\<rparr>)"
proof (induction n arbitrary: q)
  case (Suc n)
  then obtain v vs where vs: "q_queue q = v # vs" by (cases "q_queue q") auto
  have "drain_channel queue_peek queue_pop n (q\<lparr>q_queue := vs\<rparr>) = Some (vs, q\<lparr>q_queue := []\<rparr>)"
    using Suc.IH [of "q\<lparr>q_queue := vs\<rparr>"] Suc.prems vs by simp
  moreover have "queue_peek q" "queue_pop q = (Returns (Some v), q\<lparr>q_queue := vs\<rparr>)"
    using Suc.prems vs by (simp_all add: queue_peek_def queue_pop_def)
  ultimately show ?case using vs by simp
qed (simp add: queue_peek_def)

lemma take_added_certs_open:
  "q_continue (nv_add_cert nv) \<Longrightarrow> take_added_certs nv =
    nv\<lparr>nv_add_cert := (nv_add_cert nv)\<lparr>q_queue := []\<rparr>, nv_cert_chain := nv_cert_chain nv @ q_queue (nv_add_cert nv)\<rparr>"
  unfolding take_added_certs_def by (subst drain_queue) simp_all

lemma take_added_certs_closed: "\<not> q_continue (nv_add_cert nv) \<Longrightarrow> take_added_certs nv = nv"
  unfolding take_added_certs_def
  by (cases "length (q_queue (nv_add_cert nv))") (simp_all add: queue_peek_def)

lemma held_take_added: "held_certs (take_added_certs nv) = held_certs nv"
  by (cases "q_continue (nv_add_cert nv)") (auto simp: take_added_certs_open take_added_certs_closed held_certs_def)

lemma held_verify: "held_certs (snd (verify_client v pem x509 nv)) = held_certs nv"
  by (simp add: verify_client_def held_take_added Let_def split: option.split)

lemma held_authorise:
  "held_certs (add_authorized_client fresh io_ok uuid name cert (nv\<lparr>nv_add_cert := queue_raise cert (nv_add_cert nv)\<rparr>))
    \<subseteq> insert cert (held_certs nv)"
proof -
  define nv' where "nv' = nv\<lparr>nv_add_cert := queue_raise cert (nv_add_cert nv),
      nv_named_devices := nv_named_devices nv @ [\<lparr>nc_name = name, nc_uuid = uuid, nc_cert = cert, nc_enabled = True\<rparr>]\<rparr>"
  have "held_certs nv' \<subseteq> insert cert (held_certs nv)"
    by (auto simp: nv'_def held_certs_def queue_raise_def)
  then show ?thesis
    using held_save_state [of io_ok nv'] by (auto simp: add_authorized_client_def Let_def nv'_def)
qed

section \<open>Who is admitted\<close>

lemma cert_chain_verify_None:
  "cert_chain_verify v err certs peer = None \<Longrightarrow> \<exists>cert \<in> set certs. v cert peer = None"
  by (induction certs arbitrary: err) (auto split: option.splits if_splits)

lemma verify_client_admits:
  assumes "fst (verify_client v pem (Some peer) nv)"
  shows "\<exists>cert \<in> held_certs nv. v cert peer = None"
proof -
  from assms obtain cert where "cert \<in> set (nv_cert_chain (take_added_certs nv))" "v cert peer = None"
    using cert_chain_verify_None [of v 0 "nv_cert_chain (take_added_certs nv)" peer]
    by (auto simp: verify_client_def Let_def)
  moreover have "set (nv_cert_chain (take_added_certs nv)) \<subseteq> held_certs (take_added_certs nv)"
    by (auto simp: held_certs_def)
  ultimately show ?thesis using held_take_added by blast
qed

lemma nv_pairing_held:
  assumes "nv_pairing e ev io_ok uuid nv = Some (nv', clients)"
  shows "held_certs nv' \<subseteq> snd ` set clients \<union> held_certs nv"
    and "serve (ne_crypto e) (ne_host e) ev (nv_sessions nv) = Some (nv_sessions nv', clients)"
proof -
  have *: "held_certs nv' \<subseteq> snd ` set clients \<union> held_certs nv \<and>
    serve (ne_crypto e) (ne_host e) ev (nv_sessions nv) = Some (nv_sessions nv', clients)"
  proof (cases ev)
    case (Pair_request response secret challenge args)
    obtain tree sessions client where p: "pair_request (ne_crypto e) (ne_host e) None response secret challenge args
        (nv_sessions nv) = (tree, sessions, client)" by (metis prod_cases3)
    have held: "held_certs (nv\<lparr>nv_sessions := sessions\<rparr>) = held_certs nv" by (simp add: held_certs_def)
    have sess: "nv_sessions (save_state b s) = nv_sessions s" for b s by (simp add: save_state_def)
    show ?thesis
    proof (cases client)
      case None
      then show ?thesis using assms p held by (auto simp: Pair_request nvhttp_pair_def)
    next
      case (Some x)
      then show ?thesis
        using assms p held held_authorise [of "ne_fresh_state e" io_ok uuid "fst x" "snd x" "nv\<lparr>nv_sessions := sessions\<rparr>"]
        by (cases x) (auto simp: Pair_request nvhttp_pair_def add_authorized_client_def sess Let_def)
    qed
  next
    case (Pair_pin first pin name)
    then show ?thesis using assms by (auto simp: held_certs_def)
  qed
  show "held_certs nv' \<subseteq> snd ` set clients \<union> held_certs nv" using * by blast
  show "serve (ne_crypto e) (ne_host e) ev (nv_sessions nv) = Some (nv_sessions nv', clients)" using * by blast
qed

lemma sessions_unchanged:
  "nv_sessions (snd (verify_client v pem x nv)) = nv_sessions nv"
  "nv_sessions (erase_all_clients b nv) = nv_sessions nv"
  "nv_sessions (snd (unpair_client b1 b2 uuids u nv)) = nv_sessions nv"
  "nv_sessions (snd (set_client_enabled b u en nv)) = nv_sessions nv"
  by (auto simp: verify_client_def take_added_certs_def erase_all_clients_def unpair_client_def set_client_enabled_def
      save_state_def load_state_def Let_def split: option.splits)

lemma nv_step_other:
  assumes "nv_step e op nv = Some (nv1, cs)" and "pairing_events [op] = []"
  shows "cs = [] \<and> held_certs nv1 \<subseteq> held_certs nv \<and> nv_sessions nv1 = nv_sessions nv"
  using assms
  by (cases op) (auto simp: sessions_unchanged held_verify dest: subsetD [OF held_unpair] subsetD [OF held_erase]
      subsetD [OF held_enable])

lemma pairing_events_Cons: "pairing_events (op # ops) = pairing_events [op] @ pairing_events ops"
  by (cases op) simp_all

lemma nv_run_held:
  assumes "nv_run e ops nv = Some (nv', clients)"
  shows "held_certs nv' \<subseteq> snd ` set clients \<union> held_certs nv \<and>
    serve_all (ne_crypto e) (ne_host e) (pairing_events ops) (nv_sessions nv) = Some (nv_sessions nv', clients)"
  using assms
proof (induction ops arbitrary: nv clients)
  case (Cons op ops)
  obtain nv1 cs ds where step: "nv_step e op nv = Some (nv1, cs)" and run: "nv_run e ops nv1 = Some (nv', ds)"
    and clients: "clients = cs @ ds" using Cons.prems by (auto split: option.splits)
  note IH = Cons.IH [OF run]
  show ?case
  proof (cases "pairing_events [op] = []")
    case True
    from nv_step_other [OF step this] have "cs = []" "held_certs nv1 \<subseteq> held_certs nv" "nv_sessions nv1 = nv_sessions nv"
      by simp_all
    then show ?thesis using IH True unfolding clients by (subst pairing_events_Cons) auto
  next
    case False
    then obtain ev io_ok uuid where op: "op = Nv_pairing ev io_ok uuid" by (cases op) simp_all
    then have "nv_pairing e ev io_ok uuid nv = Some (nv1, cs)" using step by simp
    from nv_pairing_held [OF this] IH show ?thesis unfolding op clients by auto
  qed
qed simp

text \<open>
  C14. Only a client that went through the pairing is admitted to the HTTPS server. After any history of
  requests, entered PINs, verified connections, unpairing and disabling, a connection is only accepted
  if a certificate verifies it whose owner was authorised in that history: it started the pairing with
  that certificate, the user entered the PIN for its session, and it proved with the key made of the
  salt and the PIN that it knew the PIN, and the private key of the certificate with a signature.
\<close>

theorem admitted_client_was_paired:
  assumes "list_all fresh_request (pairing_events ops)"
    and "nv_run e ops (new_server unique_id) = Some (nv, clients)"
    and "fst (verify_client (ne_verify e) (ne_pem e) (Some peer) nv)"
  shows "\<exists>(name, cert) \<in> set clients. ne_verify e cert peer = None \<and>
    paired_by (ne_crypto e) (pairing_events ops) (name, cert)"
proof -
  from nv_run_held [OF assms(2)] have held: "held_certs nv \<subseteq> snd ` set clients"
    and serve: "serve_all (ne_crypto e) (ne_host e) (pairing_events ops) (\<lambda>_. None) = Some (nv_sessions nv, clients)"
    by (simp_all add: held_certs_def new_server_def new_add_cert_def new_queue_def)
  have "known (ne_crypto e) [] (\<lambda>_. None)" by (simp add: known_def)
  from serve_all_known [OF this assms(1) serve] have "list_all (paired_by (ne_crypto e) (pairing_events ops)) clients"
    by simp
  moreover from verify_client_admits [OF assms(3)] held obtain name cert
    where "(name, cert) \<in> set clients" "ne_verify e cert peer = None" by auto
  ultimately show ?thesis by (auto simp: list_all_iff)
qed

definition sample_nv_env :: nv_env where
  "sample_nv_env = \<lparr>ne_crypto = sample_crypto, ne_host = sample_host, ne_fresh_state = False,
     ne_verify = (\<lambda>cert peer. if cert = peer then None else Some X509_V_ERR_DEPTH_ZERO_SELF_SIGNED_CERT),
     ne_pem = (\<lambda>cert. cert)\<rparr>"

definition sample_history :: "nv_op list" where
  "sample_history = map (\<lambda>ev. Nv_pairing ev True ''uuid'') sample_requests"

theorem admitted_client_was_paired_witness:
  "\<exists>nv clients. nv_run sample_nv_env sample_history (new_server ''id'') = Some (nv, clients) \<and>
    fst (verify_client (ne_verify sample_nv_env) (ne_pem sample_nv_env) (Some [8, 8, 1]) nv) \<and>
    (\<exists>(name, cert) \<in> set clients. ne_verify sample_nv_env cert [8, 8, 1] = None \<and>
      paired_by (ne_crypto sample_nv_env) (pairing_events sample_history) (name, cert))"
proof -
  have "list_all fresh_request (pairing_events sample_history)" by code_simp
  moreover have "map_option (\<lambda>(nv, clients).
        fst (verify_client (ne_verify sample_nv_env) (ne_pem sample_nv_env) (Some [8, 8, 1]) nv))
      (nv_run sample_nv_env sample_history (new_server ''id'')) = Some True"
    by code_simp
  then obtain nv clients where run: "nv_run sample_nv_env sample_history (new_server ''id'') = Some (nv, clients)"
    and ok: "fst (verify_client (ne_verify sample_nv_env) (ne_pem sample_nv_env) (Some [8, 8, 1]) nv)"
    by auto
  ultimately show ?thesis using admitted_client_was_paired [OF _ run ok] run ok by blast
qed

section \<open>Revoking a client\<close>

lemma nvhttp_pair_authorised:
  fixes fresh io_ok :: bool and uuid :: string
  assumes "pair_request c h pin_stdin response secret challenge args (nv_sessions nv) = (tree, sessions, Some (name, cert))"
    and "nv_add_cert nv = new_add_cert"
  defines "nv' \<equiv> snd (nvhttp_pair c h fresh io_ok pin_stdin response secret challenge uuid args nv)"
  shows "nv_add_cert nv' = new_add_cert\<lparr>q_queue := [cert]\<rparr> \<and> nv_cert_chain nv' = nv_cert_chain nv"
  using assms by (simp add: nvhttp_pair_def add_authorized_client_def save_state_def Let_def queue_raise_def
      new_add_cert_def new_queue_def)

lemma erase_all_clients_keeps:
  "nv_add_cert (erase_all_clients io_ok nv) = nv_add_cert nv" "nv_named_devices (erase_all_clients io_ok nv) = []"
  "nv_cert_chain (erase_all_clients io_ok nv) = []"
  by (simp_all add: erase_all_clients_def save_state_def)

text \<open>
  C19. Removing all clients does not reach a client that was paired since the last verified connection.
  Its certificate waits in the queue of added certificates, the next connection takes it over, and the
  client is admitted although no client is listed. Had any connection been verified in between, it would
  be refused.
\<close>

theorem revoked_client_still_admitted:
  fixes fresh io_ok :: bool and uuid :: string
  assumes "pair_request c h pin_stdin response secret challenge args (nv_sessions nv) = (tree, sessions, Some (name, cert))"
    and "nv_add_cert nv = new_add_cert" and "x509_verify cert peer = None"
  defines "nv' \<equiv> snd (nvhttp_pair c h fresh io_ok pin_stdin response secret challenge uuid args nv)"
  shows "nv_named_devices (erase_all_clients io_ok nv') = [] \<and>
    fst (verify_client x509_verify pem (Some peer) (erase_all_clients io_ok nv')) \<and>
    \<not> fst (verify_client x509_verify pem (Some peer)
        (erase_all_clients io_ok (snd (verify_client x509_verify pem (Some other) nv'))))"
proof -
  have q: "nv_add_cert nv' = new_add_cert\<lparr>q_queue := [cert]\<rparr>"
    using nvhttp_pair_authorised [OF assms(1,2)] unfolding nv'_def by blast
  have cont: "q_continue (new_add_cert\<lparr>q_queue := cs\<rparr>)" for cs by (simp add: new_add_cert_def new_queue_def)
  have later: "nv_add_cert (snd (verify_client x509_verify pem (Some other) nv')) = new_add_cert\<lparr>q_queue := []\<rparr>"
    using q cont by (simp add: verify_client_def Let_def take_added_certs_open)
  show ?thesis
    using assms(3) q cont later
    by (simp add: verify_client_def Let_def take_added_certs_open erase_all_clients_keeps)
qed

theorem revoked_client_still_admitted_witness:
  "\<exists>nv. fst (verify_client (ne_verify sample_nv_env) (\<lambda>cert. cert) (Some [8, 8, 1]) (erase_all_clients True nv)) \<and>
    nv_named_devices (erase_all_clients True nv) = []"
proof -
  define sessions where "sessions = map_option fst (serve_all sample_crypto sample_host (butlast sample_requests) (\<lambda>_. None))"
  define nv where "nv = (new_server ''id'')\<lparr>nv_sessions := the sessions\<rparr>"
  define args where "args = map_of [(''uniqueid'', ''0123''), (''clientpairingsecret'', hex_vec (replicate 32 4) True)]"
  have "snd (snd (pair_request sample_crypto sample_host None 0 [5] [6] args (nv_sessions nv))) = Some (''laptop'', [8, 8, 1])"
    unfolding nv_def sessions_def args_def by code_simp
  then obtain tree sessions' where req: "pair_request sample_crypto sample_host None 0 [5] [6] args (nv_sessions nv) =
      (tree, sessions', Some (''laptop'', [8, 8, 1]))"
    by (metis prod.collapse)
  have "nv_add_cert nv = new_add_cert" by (simp add: nv_def new_server_def)
  moreover have "ne_verify sample_nv_env [8, 8, 1] [8, 8, 1] = None" by (simp add: sample_nv_env_def)
  ultimately show ?thesis using revoked_client_still_admitted [OF req] by blast
qed

section \<open>A second PIN\<close>

text \<open>
  Entering a PIN twice is undefined behaviour. After a PIN was accepted for the session the map begins
  with, any further PIN of four digits that is entered before the client goes on is out of order:
  \<^verbatim>\<open>getservercert\<close> fails the pairing and removes the session, and \<^verbatim>\<open>pin\<close> goes on writing to the removed
  session.
\<close>

theorem pin_twice_use_after_free:
  assumes "pair_pin c h first pin name sessions = Some (True, written, sessions')"
    and "length pin' = 4" and "list_all is_digit pin'"
  shows "pair_pin c h first pin' name' sessions' = None"
proof -
  from assms(1) obtain sess tree sess' where "getservercert c h sess [] pin = (tree, Some sess')"
    and "\<exists>s. sessions' first = Some s \<and> ps_last_phase s = ps_last_phase sess'"
    by (auto simp: pair_pin_def Let_def split: option.splits prod.splits if_splits)
  moreover from this(1) have "ps_last_phase sess' = PHASE_GETSERVERCERT"
    by (auto simp: getservercert_def Let_def split: if_splits)
  moreover have "list_all (\<lambda>ch. 48 \<le> (of_char ch :: nat) \<and> (of_char ch :: nat) \<le> 57) pin'"
    using assms(3) by (simp add: list_all_iff is_digit_def Let_def)
  ultimately show ?thesis
    using assms(2) by (auto simp: pair_pin_def getservercert_def Let_def)
qed

theorem pin_twice_use_after_free_witness:
  "\<exists>sessions. pair_pin sample_crypto sample_host ''0123'' ''1234'' ''laptop'' sessions = None"
proof -
  define sess where "sess = (new_pair_session ''0123'' [8, 8, 1])\<lparr>ps_salt := replicate 32 (CHR ''A''), ps_response := Some 0\<rparr>"
  have "map_option fst (pair_pin sample_crypto sample_host ''0123'' ''4321'' ''laptop'' [''0123'' \<mapsto> sess]) = Some True"
    unfolding sess_def by code_simp
  then obtain written sessions' where
    "pair_pin sample_crypto sample_host ''0123'' ''4321'' ''laptop'' [''0123'' \<mapsto> sess] = Some (True, written, sessions')"
    by auto
  from pin_twice_use_after_free [OF this, of "''1234''"] show ?thesis by (auto simp: is_digit_def)
qed

section \<open>Mandatory encryption\<close>

lemma raised_session:
  assumes "nvhttp_launch env args host_audio = Some (tree, effects, host_audio') \<or>
    nvhttp_resume env args host_audio = Some (tree, effects, host_audio')"
    and "Raise_session s \<in> set effects"
  shows "\<not> encryption_refused env s \<and>
    (\<exists>b. make_launch_session (le_session_id env) (le_raw_payload env) (le_connect_data env) b args = Some s)"
  using assms
  by (auto simp: nvhttp_launch_def nvhttp_resume_def launch_prepared_def resume_prepared_def Let_def
      split: if_splits option.splits prod.splits)

lemma make_launch_session_scheme:
  "make_launch_session i raw cd b args = Some s \<Longrightarrow>
    ls_rtsp_url_scheme s = (if ls_rtsp_cipher s then ''rtspenc://'' else ''rtsp://'')"
  by (auto simp: make_launch_session_def Let_def split: option.splits prod.splits)

lemma handle_msg_started:
  assumes "handle_msg env session start_ok req = Some (resp, Some cfg)"
    and "re_encryption_mode env = ENCRYPTION_MODE_MANDATORY"
  shows "sc_encryptionFlagsEnabled cfg AND (SS_ENC_VIDEO OR SS_ENC_AUDIO) = SS_ENC_VIDEO OR SS_ENC_AUDIO"
proof -
  have "announce_start env start_ok c = (st, Some cfg) \<Longrightarrow>
      sc_encryptionFlagsEnabled cfg AND (SS_ENC_VIDEO OR SS_ENC_AUDIO) = SS_ENC_VIDEO OR SS_ENC_AUDIO" for c st
    using assms(2) by (auto simp: announce_start_def split: if_splits)
  then show ?thesis
    using assms(1)
    by (auto simp: handle_msg_def cmd_announce_def Let_def split: if_splits option.splits bool.splits)
qed

text \<open>
  C13. When encryption is mandatory for a client, it cannot get anything unencrypted. Every session that a
  launch or a resume raises uses the encrypted RTSP, and tells the client so, and if a message on it
  starts a stream, video and audio are encrypted.
\<close>

theorem mandatory_encryption_enforced:
  assumes "le_encryption_mode env = ENCRYPTION_MODE_MANDATORY"
    and "re_encryption_mode renv = ENCRYPTION_MODE_MANDATORY"
    and "nvhttp_launch env args host_audio = Some (tree, effects, host_audio') \<or>
      nvhttp_resume env args host_audio = Some (tree, effects, host_audio')"
    and "Raise_session s \<in> set effects"
    and "handle_msg renv s start_ok req = Some (resp, Some cfg)"
  shows "ls_rtsp_cipher s \<and> ls_rtsp_url_scheme s = ''rtspenc://'' \<and>
    sc_encryptionFlagsEnabled cfg AND SS_ENC_VIDEO = SS_ENC_VIDEO \<and>
    sc_encryptionFlagsEnabled cfg AND SS_ENC_AUDIO = SS_ENC_AUDIO"
proof -
  from raised_session [OF assms(3,4)] assms(1) have cipher: "ls_rtsp_cipher s"
    and "\<exists>b. make_launch_session (le_session_id env) (le_raw_payload env) (le_connect_data env) b args = Some s"
    by (auto simp: encryption_refused_def)
  then have scheme: "ls_rtsp_url_scheme s = ''rtspenc://''" using make_launch_session_scheme by fastforce
  define flags where "flags = sc_encryptionFlagsEnabled cfg"
  have eq: "flags AND (SS_ENC_VIDEO OR SS_ENC_AUDIO) = SS_ENC_VIDEO OR SS_ENC_AUDIO"
    unfolding flags_def by (rule handle_msg_started [OF assms(5,2)])
  have "flags AND x = x" if "(SS_ENC_VIDEO OR SS_ENC_AUDIO) AND x = x" for x
    using that by (metis and.assoc eq)
  from this [of SS_ENC_VIDEO] this [of SS_ENC_AUDIO]
  have "flags AND SS_ENC_VIDEO = SS_ENC_VIDEO" "flags AND SS_ENC_AUDIO = SS_ENC_AUDIO"
    by (simp_all add: SS_ENC_VIDEO_def SS_ENC_AUDIO_def)
  with cipher scheme show ?thesis unfolding flags_def by blast
qed

definition sample_launch_env :: launch_env where
  "sample_launch_env = \<lparr>le_running = 0, le_session_count = 0, le_probe_fails = False, le_execute = (\<lambda>_. 0),
     le_encryption_mode = 2, le_local_address = ''192.168.0.2'', le_sunshine_port = 47989, le_session_id = 1,
     le_raw_payload = [1, 2, 3, 4, 5, 6, 7, 8], le_connect_data = 42\<rparr>"

definition sample_launch_args :: request_args where
  "sample_launch_args = map_of [(''rikey'', replicate 32 (CHR ''7'')), (''rikeyid'', ''5''), (''localAudioPlayMode'', ''0''),
     (''appid'', ''1''), (''mode'', ''1920x1080x60''), (''corever'', ''1'')]"

definition sample_announcement :: rtsp_request where
  "sample_announcement = \<lparr>rr_command = ''ANNOUNCE'', rr_target = [], rr_sequenceNumber = 6, rr_options = [],
     rr_payload = sample_announce\<rparr>"

definition sample_raised :: launch_session where
  "sample_raised = \<lparr>ls_id = 1, ls_gcm_key = replicate 16 0x77, ls_iv = [0, 0, 0, 5] @ replicate 12 0,
     ls_av_ping_payload = ''0807060504030201'', ls_control_connect_data = 42, ls_host_audio = False,
     ls_unique_id = ''unknown'', ls_width = 1920, ls_height = 1080, ls_fps = 60, ls_gcmap = 0, ls_appid = 1,
     ls_surround_info = 196610, ls_surround_params = [], ls_continuous_audio = False, ls_enable_hdr = False,
     ls_enable_sops = False, ls_rtsp_cipher = True, ls_rtsp_url_scheme = ''rtspenc://'', ls_rtsp_iv_counter = 0\<rparr>"

lemma sample_numbers:
  "launch_number sample_launch_args ''appid'' (Some ''unknown'') = Some 1"
  "launch_number sample_launch_args ''sops'' (Some ''0'') = Some 0"
  "launch_number sample_launch_args ''surroundAudioInfo'' (Some ''196610'') = Some 196610"
  "launch_number sample_launch_args ''continuousAudio'' (Some ''0'') = Some 0"
  "launch_number sample_launch_args ''gcmap'' (Some ''0'') = Some 0"
  "launch_number sample_launch_args ''hdrMode'' (Some ''0'') = Some 0"
  "launch_number sample_launch_args ''corever'' (Some ''0'') = Some 1"
  "launch_number sample_launch_args ''rikeyid'' None = Some 5"
  "mode_numbers (segments (the (get_arg sample_launch_args ''mode'' (Some ''0x0x0'')))) = Some (1920,1080,60)"
  "get_arg sample_launch_args ''rikey'' None = Some (replicate 32 (CHR ''7''))"
  "get_arg sample_launch_args ''uniqueid'' (Some ''unknown'') = Some ''unknown''"
  "get_arg sample_launch_args ''surroundParams'' (Some []) = Some []"
  "from_hex_vec (replicate 32 (CHR ''7'')) True = replicate 16 0x77"
  "hex_vec [1, 2, 3, 4, 5, 6, 7, 8] False = ''0807060504030201''"
  by code_simp+

lemma sample_casts: "cast_int 1 = 1" "cast_int 0 = 0" "cast_int 196610 = 196610" "word_of_int 5 = (5 :: u32)"
  by (simp_all add: cast_int_def)

lemma sample_iv: "be_bytes 4 (5 :: u32) = [0, 0, 0, 5]" by code_simp

lemma sample_make_launch_session:
  "make_launch_session 1 [1, 2, 3, 4, 5, 6, 7, 8] 42 False sample_launch_args = Some sample_raised"
  by (simp only: make_launch_session_def sample_numbers sample_casts sample_iv Let_def option.case prod.case option.sel sample_raised_def) simp

lemma sample_nvhttp_launch:
  "nvhttp_launch sample_launch_env sample_launch_args False =
    (let (tree, effects) = launch_prepared sample_launch_env 1 sample_raised in Some (tree, effects, False))"
proof -
  have "\<not> list_ex (\<lambda>n. sample_launch_args n = None) [''rikey'', ''rikeyid'', ''localAudioPlayMode'', ''appid'']"
    "from_view (the (sample_launch_args ''appid'')) = Some 1"
    "from_view (the (sample_launch_args ''localAudioPlayMode'')) = Some 0"
    by code_simp+
  then show ?thesis
    by (simp only: nvhttp_launch_def if_False option.case) (simp add: sample_launch_env_def sample_make_launch_session)
qed

lemma sample_launch_raises: "Raise_session sample_raised \<in> set (snd (launch_prepared sample_launch_env 1 sample_raised))"
  by (simp add: launch_prepared_def encryption_refused_def sample_launch_env_def sample_raised_def Let_def)

theorem mandatory_encryption_enforced_witness:
  "\<exists>tree effects s resp cfg. nvhttp_launch sample_launch_env sample_launch_args False = Some (tree, effects, False) \<and>
    Raise_session s \<in> set effects \<and> handle_msg sample_rtsp_env s True sample_announcement = Some (resp, Some cfg) \<and>
    ls_rtsp_cipher s \<and> sc_encryptionFlagsEnabled cfg AND SS_ENC_VIDEO = SS_ENC_VIDEO"
proof -
  obtain tree effects where prepared: "launch_prepared sample_launch_env 1 sample_raised = (tree, effects)" by fastforce
  then have launch: "nvhttp_launch sample_launch_env sample_launch_args False = Some (tree, effects, False)"
    and raised: "Raise_session sample_raised \<in> set effects"
    using sample_nvhttp_launch sample_launch_raises by simp_all
  have "case handle_msg sample_rtsp_env sample_raised True sample_announcement of
      Some (resp, Some cfg) \<Rightarrow> True | _ \<Rightarrow> False" by code_simp
  then obtain resp cfg where msg: "handle_msg sample_rtsp_env sample_raised True sample_announcement = Some (resp, Some cfg)"
    by (auto split: option.splits)
  have "le_encryption_mode sample_launch_env = ENCRYPTION_MODE_MANDATORY"
    "re_encryption_mode sample_rtsp_env = ENCRYPTION_MODE_MANDATORY"
    by (simp_all add: sample_launch_env_def sample_rtsp_env_def ENCRYPTION_MODE_MANDATORY_def)
  from mandatory_encryption_enforced [OF this disjI1 [OF launch] raised msg] launch raised msg show ?thesis by blast
qed

end
