(* ===== verification/Process.thy ===== *)
theory Process
  imports Rtsp
begin

text \<open>
  Applications and their processes, \<^verbatim>\<open>src/process.cpp\<close>: the commands around an application, its
  state, and the parsing of its description. The system is a parameter: what a started command does
  may depend on everything that was done before, the trace \<open>pr_out\<close>. JSON is parsed by Boost; the
  parsed tree is the input.
\<close>

unbundle bit_operations_syntax

section \<open>Data\<close>

record prep_cmd =
  pm_do :: string
  pm_undo :: string
  pm_elevated :: bool

record app_ctx =
  ap_prep_cmds :: "prep_cmd list"
  ap_detached :: "string list"
  ap_name :: string
  ap_cmd :: string
  ap_working_dir :: string
  ap_output :: string
  ap_image_path :: string
  ap_id :: string
  ap_elevated :: bool
  ap_auto_detach :: bool
  ap_wait_all :: bool
  ap_exit_timeout :: int

text \<open>
  What is done to the system. Commands come with their working directory, empty if there is none;
  \<open>Sleep\<close> is the second between two looks at a group that is asked to exit.
\<close>

datatype proc_effect =
    Run_do prep_cmd string
  | Run_undo prep_cmd string
  | Run_detached string string
  | Run_app string string
  | Request_exit
  | Sleep
  | Kill_group
  | Detach_process
  | Open_pipe string
  | Close_pipe
  | Revert_configuration

text \<open>
  The state. The iterators of the preparation commands point into \<open>pr_app\<close>; \<open>pr_prep_it\<close> is the
  distance between them. \<open>pr_process\<close> and \<open>pr_group\<close> are the handles, valid or not.
\<close>

record proc =
  pr_app_id :: int
  pr_env :: "string \<Rightarrow> string option"
  pr_apps :: "app_ctx list"
  pr_app :: app_ctx
  pr_app_launch_time :: int
  pr_placebo :: bool
  pr_process :: bool
  pr_group :: bool
  pr_prep_it :: nat
  pr_out :: "proc_effect list"

text \<open>
  The system: the error of starting a command, of waiting for it, and its exit code, for the command
  that was run last in the trace; whether the group of the process runs, and accepts the request to exit.
\<close>

datatype start_error = Start_ok | Start_denied | Start_failed

record proc_os =
  os_start :: "proc_effect list \<Rightarrow> start_error"
  os_wait_fails :: "proc_effect list \<Rightarrow> bool"
  os_exit_code :: "proc_effect list \<Rightarrow> int"
  os_group_running :: "proc_effect list \<Rightarrow> bool"
  os_request_exit :: "proc_effect list \<Rightarrow> bool"
  os_working_directory :: "string \<Rightarrow> string"
  os_now :: "proc_effect list \<Rightarrow> int"

definition pr_emit :: "proc_effect \<Rightarrow> proc \<Rightarrow> proc" where
  "pr_emit e s = s\<lparr>pr_out := pr_out s @ [e]\<rparr>"

section \<open>Working directory\<close>

text \<open>
  Splitting a command line, searching the path, and the parts of a path are those of Boost; \<open>None\<close> of
  the splitter is its exception.
\<close>

record path_lib =
  pl_split :: "string \<Rightarrow> string list option"
  pl_is_absolute :: "string \<Rightarrow> bool"
  pl_search_path :: "string \<Rightarrow> string"
  pl_parent_path :: "string \<Rightarrow> string"

definition find_working_directory :: "path_lib \<Rightarrow> string \<Rightarrow> string" where
  "find_working_directory lib cmd =
     (case pl_split lib cmd of
        None \<Rightarrow> []
      | Some parts \<Rightarrow>
          if parts = [] then []
          else if contains_at ''://'' (hd parts) then []
          else if pl_is_absolute lib (hd parts) then pl_parent_path lib (hd parts)
          else let cmd_path = pl_search_path lib (hd parts)
               in if cmd_path = [] then [] else pl_parent_path lib cmd_path)"

definition working_dir :: "proc_os \<Rightarrow> app_ctx \<Rightarrow> string \<Rightarrow> string" where
  "working_dir os app cmd = (if ap_working_dir app = [] then os_working_directory os cmd else ap_working_dir app)"

section \<open>Termination\<close>

text \<open>
  The wait of \<^verbatim>\<open>terminate_process_group\<close>: one look per second while the group runs and time is left.
\<close>

fun await_exit :: "proc_os \<Rightarrow> nat \<Rightarrow> proc \<Rightarrow> proc" where
  "await_exit os 0 s = s"
| "await_exit os (Suc t) s =
     (if os_group_running os (pr_out s) then await_exit os t (pr_emit Sleep s) else s)"

definition terminate_process_group :: "proc_os \<Rightarrow> int \<Rightarrow> proc \<Rightarrow> proc" where
  "terminate_process_group os exit_timeout s =
     (let s = (if pr_group s \<and> os_group_running os (pr_out s)
            then let s = (if 0 < exit_timeout
                   then let s = pr_emit Request_exit s
                        in if os_request_exit os (pr_out s) then await_exit os (nat exit_timeout) s else s
                   else s)
                 in pr_emit Kill_group s
            else s)
      in if pr_process s then pr_emit Detach_process s else s)"

text \<open>The undo commands, from the iterator down; their results are only logged.\<close>

fun undo_prep :: "proc_os \<Rightarrow> app_ctx \<Rightarrow> nat \<Rightarrow> proc \<Rightarrow> proc" where
  "undo_prep os app 0 s = s"
| "undo_prep os app (Suc i) s =
     (let cmd = ap_prep_cmds app ! i
      in undo_prep os app i
        (if pm_undo cmd = [] then s else pr_emit (Run_undo cmd (working_dir os app (pm_undo cmd))) s))"

definition terminate_app :: "proc_os \<Rightarrow> proc \<Rightarrow> proc" where
  "terminate_app os s =
     (let s = terminate_process_group os (ap_exit_timeout (pr_app s)) (s\<lparr>pr_placebo := False\<rparr>);
          s = s\<lparr>pr_process := False, pr_group := False\<rparr>;
          s = (undo_prep os (pr_app s) (pr_prep_it s) s)\<lparr>pr_prep_it := 0\<rparr>;
          s = pr_emit Close_pipe s;
          s = (if ap_name (pr_app s) \<noteq> [] \<and> 0 < pr_app_id s then pr_emit Revert_configuration s else s)
      in s\<lparr>pr_app_id := - 1\<rparr>)"

section \<open>Execution\<close>

definition audio_configuration :: "int \<Rightarrow> string option" where
  "audio_configuration surround_info =
     (let channelCount = surround_info AND 65535
      in if channelCount = 2 then Some ''2.0'' else if channelCount = 6 then Some ''5.1''
         else if channelCount = 8 then Some ''7.1'' else None)"

definition bool_text :: "bool \<Rightarrow> string" where
  "bool_text b = (if b then ''true'' else ''false'')"

definition app_env :: "int \<Rightarrow> app_ctx \<Rightarrow> launch_session \<Rightarrow> (string \<times> string) list" where
  "app_env app_id app ls =
     [(''SUNSHINE_APP_ID'', to_string app_id), (''SUNSHINE_APP_NAME'', ap_name app),
      (''SUNSHINE_CLIENT_WIDTH'', to_string (ls_width ls)), (''SUNSHINE_CLIENT_HEIGHT'', to_string (ls_height ls)),
      (''SUNSHINE_CLIENT_FPS'', to_string (ls_fps ls)), (''SUNSHINE_CLIENT_HDR'', bool_text (ls_enable_hdr ls)),
      (''SUNSHINE_CLIENT_GCMAP'', to_string (ls_gcmap ls)), (''SUNSHINE_CLIENT_HOST_AUDIO'', bool_text (ls_host_audio ls)),
      (''SUNSHINE_CLIENT_ENABLE_SOPS'', bool_text (ls_enable_sops ls))] @
     (case audio_configuration (ls_surround_info ls) of
        None \<Rightarrow> [] | Some v \<Rightarrow> [(''SUNSHINE_CLIENT_AUDIO_CONFIGURATION'', v)]) @
     [(''SUNSHINE_CLIENT_AUDIO_SURROUND_PARAMS'', ls_surround_params ls)]"

text \<open>
  The preparation commands from the iterator on: whether all of them passed, and the state with the
  iterator at the one that did not. A denied start is tolerated when the application has no command.
\<close>

fun run_prep :: "proc_os \<Rightarrow> app_ctx \<Rightarrow> prep_cmd list \<Rightarrow> proc \<Rightarrow> bool \<times> proc" where
  "run_prep os app [] s = (True, s)"
| "run_prep os app (cmd # cmds) s =
     (let pass = (\<lambda>s. run_prep os app cmds (s\<lparr>pr_prep_it := pr_prep_it s + 1\<rparr>))
      in if pm_do cmd = [] then pass s
         else let s = pr_emit (Run_do cmd (working_dir os app (pm_do cmd))) s; out = pr_out s; err = os_start os out
              in if err \<noteq> Start_ok \<and> \<not> (ap_cmd app = [] \<and> err = Start_denied) then (False, s)
                 else if os_wait_fails os out then (False, s)
                 else if os_exit_code os out \<noteq> 0 then (False, s)
                 else pass s)"

fun run_detached :: "proc_os \<Rightarrow> app_ctx \<Rightarrow> string list \<Rightarrow> proc \<Rightarrow> proc" where
  "run_detached os app [] s = s"
| "run_detached os app (cmd # cmds) s = run_detached os app cmds (pr_emit (Run_detached cmd (working_dir os app cmd)) s)"

text \<open>The command of the application; the handles are valid if it was started.\<close>

definition run_app :: "proc_os \<Rightarrow> app_ctx \<Rightarrow> proc \<Rightarrow> bool \<times> proc" where
  "run_app os app s =
     (if ap_cmd app = [] then (True, s\<lparr>pr_placebo := True\<rparr>)
      else let s = pr_emit (Run_app (ap_cmd app) (working_dir os app (ap_cmd app))) s
           in if os_start os (pr_out s) \<noteq> Start_ok then (False, s)
              else (True, s\<lparr>pr_process := True, pr_group := True\<rparr>))"

text \<open>The state at the start of the commands, with the variables of the session and the file of the output.\<close>

definition start_launch :: "int \<Rightarrow> app_ctx \<Rightarrow> launch_session \<Rightarrow> proc \<Rightarrow> proc" where
  "start_launch app_id app ls s =
     (let s = s\<lparr>pr_app_id := app_id, pr_app := app, pr_prep_it := 0,
            pr_env := fold (\<lambda>(n, v) env. env(n := Some v)) (app_env app_id app ls) (pr_env s)\<rparr>
      in if ap_output app \<noteq> [] \<and> ap_output app \<noteq> ''null'' then pr_emit (Open_pipe (ap_output app)) s else s)"

definition launch_app :: "proc_os \<Rightarrow> int \<Rightarrow> app_ctx \<Rightarrow> launch_session \<Rightarrow> proc \<Rightarrow> int \<times> proc" where
  "launch_app os app_id app ls s =
     (let (prepared, s) = run_prep os app (ap_prep_cmds app) (start_launch app_id app ls s)
      in if \<not> prepared then (- 1, terminate_app os s)
         else let (started, s) = run_app os app (run_detached os app (ap_detached app) s)
              in if \<not> started then (- 1, terminate_app os s)
                 else (0, s\<lparr>pr_app_launch_time := os_now os (pr_out s)\<rparr>))"

definition execute_app :: "proc_os \<Rightarrow> int \<Rightarrow> launch_session \<Rightarrow> proc \<Rightarrow> int \<times> proc" where
  "execute_app os app_id ls s =
     (let s = terminate_app os s
      in case find (\<lambda>app. ap_id app = to_string app_id) (pr_apps s) of
           None \<Rightarrow> (404, s)
         | Some app \<Rightarrow> launch_app os app_id app ls s)"

text \<open>
  \<^verbatim>\<open>running\<close>: \<open>process_running\<close> and \<open>exit_code\<close> are those of the process; without one it is not running
  and its exit code is not 0. Five seconds are 5000 milliseconds.
\<close>

definition app_running :: "proc_os \<Rightarrow> bool \<Rightarrow> int \<Rightarrow> proc \<Rightarrow> int \<times> proc" where
  "app_running os process_running exit_code s =
     (if pr_placebo s then (pr_app_id s, s)
      else if ap_wait_all (pr_app s) \<and> pr_group s \<and> os_group_running os (pr_out s) then (pr_app_id s, s)
      else if pr_process s \<and> process_running then (pr_app_id s, s)
      else if ap_auto_detach (pr_app s) \<and> pr_process s \<and> exit_code = 0 \<and>
         os_now os (pr_out s) - pr_app_launch_time s < 5000
      then (pr_app_id s, s\<lparr>pr_placebo := True\<rparr>)
      else (0, if pr_process s then terminate_app os s else s))"

section \<open>Images and identifiers\<close>

text \<open>\<open>read_file\<close> gives the content of a file, or nothing when it cannot be opened.\<close>

definition PNG_SIGNATURE :: bytes where
  "PNG_SIGNATURE = [0x89, 0x50, 0x4E, 0x47, 0x0D, 0x0A, 0x1A, 0x0A]"

definition check_valid_png :: "(string \<Rightarrow> bytes option) \<Rightarrow> string \<Rightarrow> bool" where
  "check_valid_png read_file path =
     (case read_file path of
        None \<Rightarrow> False
      | Some content \<Rightarrow> 8 \<le> length content \<and> take 8 content = PNG_SIGNATURE)"

text \<open>
  \<open>assets\<close> is the directory of the assets; \<open>extension\<close>, lower case, and \<open>join\<close> are those of the standard
  library; a file exists if it can be read.
\<close>

record image_lib =
  im_assets :: string
  im_extension :: "string \<Rightarrow> string"
  im_join :: "string \<Rightarrow> string \<Rightarrow> string"
  im_exists :: "string \<Rightarrow> bool"
  im_read_file :: "string \<Rightarrow> bytes option"

definition default_app_image :: "image_lib \<Rightarrow> string" where
  "default_app_image lib = im_assets lib @ ''/box.png''"

definition validate_app_image_path :: "image_lib \<Rightarrow> string \<Rightarrow> string" where
  "validate_app_image_path lib path =
     (let full = im_join lib (im_assets lib) path
      in if path = [] then default_app_image lib
         else if im_extension lib path \<noteq> ''.png'' then default_app_image lib
         else if im_exists lib full
         then (if check_valid_png (im_read_file lib) full then full else default_app_image lib)
         else if path = ''./assets/steam.png'' then im_assets lib @ ''/steam.png''
         else if \<not> im_exists lib path then default_app_image lib
         else if \<not> check_valid_png (im_read_file lib) path then default_app_image lib
         else path)"

definition get_app_image :: "image_lib \<Rightarrow> int \<Rightarrow> proc \<Rightarrow> string" where
  "get_app_image lib app_id s =
     validate_app_image_path lib
       (case find (\<lambda>app. ap_id app = to_string app_id) (pr_apps s) of None \<Rightarrow> [] | Some app \<Rightarrow> ap_image_path app)"

text \<open>
  The identifiers without and with the index. \<open>crc32\<close> is that of Boost and \<open>sha256\<close> the hash of a file in
  hexadecimal, if it can be computed. The absolute value is that of a signed 32-bit integer; that of
  the least one, undefined in C++, is taken to be the mathematical one.
\<close>

definition abs_crc :: "u32 \<Rightarrow> int" where
  "abs_crc c = \<bar>sint c\<bar>"

definition calculate_app_id :: "image_lib \<Rightarrow> (string \<Rightarrow> u32) \<Rightarrow> (string \<Rightarrow> string option) \<Rightarrow> string \<Rightarrow> string \<Rightarrow> nat
    \<Rightarrow> string \<times> string" where
  "calculate_app_id lib crc32 sha256 app_name app_image_path index =
     (let file_path = validate_app_image_path lib app_image_path;
          image_part = (if file_path \<noteq> default_app_image lib
            then (case sha256 file_path of Some h \<Rightarrow> h | None \<Rightarrow> file_path) else []);
          input_no_index = app_name @ image_part
      in (to_string (abs_crc (crc32 input_no_index)),
          to_string (abs_crc (crc32 (input_no_index @ to_string (int index))))))"

section \<open>Variables\<close>

text \<open>
  \<^verbatim>\<open>find_match\<close> from the opening bracket on: the text up to the matching one and the text behind it,
  \<open>None\<close> when there is none.
\<close>

fun find_match :: "nat \<Rightarrow> string \<Rightarrow> (string \<times> string) option" where
  "find_match stack [] = None"
| "find_match stack (c # cs) =
     (let stack = (if c = CHR ''('' then stack + 1 else if c = CHR '')'' then stack - 1 else stack)
      in if stack = 0 then Some ([], cs) else map_option (\<lambda>(m, rest). (c # m, rest)) (find_match stack cs))"

lemma find_match_shorter: "find_match n s = Some (m, rest) \<Longrightarrow> length rest < length s"
  by (induction n s arbitrary: m rest rule: find_match.induct) (fastforce simp: Let_def split: if_splits)+

text \<open>\<open>None\<close> is the exception for a missing bracket. A dollar sign in front of anything else stays.\<close>

function parse_env_val :: "(string \<Rightarrow> string option) \<Rightarrow> string \<Rightarrow> string option" where
  "parse_env_val env [] = Some []"
| "parse_env_val env (c # cs) =
     (if c = CHR ''$'' then
        (case cs of
           [] \<Rightarrow> Some [c]
         | d # ds \<Rightarrow>
             if d = CHR ''('' then
               (case find_match 1 ds of
                  None \<Rightarrow> None
                | Some (name, rest) \<Rightarrow>
                    map_option (\<lambda>t. (case env name of None \<Rightarrow> [] | Some v \<Rightarrow> v) @ t) (parse_env_val env rest))
             else if d = CHR ''$'' then map_option (\<lambda>t. c # t) (parse_env_val env ds)
             else map_option (\<lambda>t. c # t) (parse_env_val env cs))
      else map_option (\<lambda>t. c # t) (parse_env_val env cs))"
  by pat_completeness auto
termination
  by (relation "measure (length \<circ> snd)") (auto dest: find_match_shorter)

section \<open>The description of the applications\<close>

text \<open>The parsed file: the values of an application that are given. Only the name has to be.\<close>

record app_node =
  an_prep :: "(string option \<times> string option \<times> bool option) list"
  an_detached :: "string list"
  an_exclude_global_prep :: "bool option"
  an_output :: "string option"
  an_name :: "string option"
  an_cmd :: "string option"
  an_image_path :: "string option"
  an_working_dir :: "string option"
  an_elevated :: "bool option"
  an_auto_detach :: "bool option"
  an_wait_all :: "bool option"
  an_exit_timeout :: "int option"

definition value_or :: "'a option \<Rightarrow> 'a \<Rightarrow> 'a" where
  "value_or x d = (case x of None \<Rightarrow> d | Some v \<Rightarrow> v)"

fun parse_env_vars :: "(string \<times> string) list \<Rightarrow> (string \<Rightarrow> string option) \<Rightarrow> (string \<Rightarrow> string option) option" where
  "parse_env_vars [] env = Some env"
| "parse_env_vars ((name, val) # vars) env =
     (case parse_env_val env val of None \<Rightarrow> None | Some v \<Rightarrow> parse_env_vars vars (env(name := Some v)))"

definition expand_prep :: "(string \<Rightarrow> string option) \<Rightarrow> string \<times> string \<times> bool \<Rightarrow> prep_cmd option" where
  "expand_prep env = (\<lambda>(do_cmd, undo_cmd, elevated).
     (case (parse_env_val env do_cmd, parse_env_val env undo_cmd) of
        (Some d, Some u) \<Rightarrow> Some \<lparr>pm_do = d, pm_undo = u, pm_elevated = elevated\<rparr>
      | _ \<Rightarrow> None))"

definition expand_opt :: "(string \<Rightarrow> string option) \<Rightarrow> string option \<Rightarrow> string option" where
  "expand_opt env v = (case v of None \<Rightarrow> Some [] | Some v \<Rightarrow> parse_env_val env v)"

text \<open>One application, without its identifier; \<open>None\<close> is an exception.\<close>

definition parse_app :: "(string \<Rightarrow> string option) \<Rightarrow> prep_cmd list \<Rightarrow> app_node \<Rightarrow> app_ctx option" where
  "parse_app env global n =
     (case (Option.bind (an_name n) (parse_env_val env),
            those (map (expand_prep env)
              ((if value_or (an_exclude_global_prep n) False then [] else map (\<lambda>p. (pm_do p, pm_undo p, pm_elevated p)) global) @
               map (\<lambda>(d, u, e). (value_or d [], value_or u [], value_or e False)) (an_prep n))),
            those (map (parse_env_val env) (an_detached n))) of
        (Some name, Some prep_cmds, Some detached) \<Rightarrow>
          (case (expand_opt env (an_output n), expand_opt env (an_cmd n), expand_opt env (an_working_dir n),
                 expand_opt env (an_image_path n)) of
             (Some output, Some cmd, Some dir, Some image_path) \<Rightarrow>
               Some \<lparr>ap_prep_cmds = prep_cmds, ap_detached = detached, ap_name = name, ap_cmd = cmd, ap_working_dir = dir,
                 ap_output = output, ap_image_path = image_path, ap_id = [], ap_elevated = value_or (an_elevated n) False,
                 ap_auto_detach = value_or (an_auto_detach n) True, ap_wait_all = value_or (an_wait_all n) True,
                 ap_exit_timeout = value_or (an_exit_timeout n) 5\<rparr>
           | _ \<Rightarrow> None)
      | _ \<Rightarrow> None)"

text \<open>The identifiers: the one without the index unless it is taken, otherwise the one with it, taken or not.\<close>

fun assign_ids :: "(string \<Rightarrow> string \<Rightarrow> nat \<Rightarrow> string \<times> string) \<Rightarrow> nat \<Rightarrow> string set \<Rightarrow> app_ctx list \<Rightarrow> app_ctx list" where
  "assign_ids app_id i ids [] = []"
| "assign_ids app_id i ids (app # apps) =
     (let possible_ids = app_id (ap_name app) (ap_image_path app) i;
          aid = (if fst possible_ids \<notin> ids then fst possible_ids else snd possible_ids)
      in app\<lparr>ap_id := aid\<rparr> # assign_ids app_id (Suc i) (insert aid ids) apps)"

definition no_app :: app_ctx where
  "no_app = \<lparr>ap_prep_cmds = [], ap_detached = [], ap_name = [], ap_cmd = [], ap_working_dir = [], ap_output = [],
     ap_image_path = [], ap_id = [], ap_elevated = False, ap_auto_detach = False, ap_wait_all = False, ap_exit_timeout = 0\<rparr>"

text \<open>The tree is \<open>None\<close> when the file could not be read; the global commands come from the configuration.\<close>

definition parse_apps :: "(string \<Rightarrow> string \<Rightarrow> nat \<Rightarrow> string \<times> string) \<Rightarrow> (string \<Rightarrow> string option) \<Rightarrow> prep_cmd list
    \<Rightarrow> ((string \<times> string) list \<times> app_node list) option \<Rightarrow> ((string \<Rightarrow> string option) \<times> app_ctx list) option" where
  "parse_apps app_id this_env global tree =
     (case tree of
        None \<Rightarrow> None
      | Some (env_vars, nodes) \<Rightarrow>
          (case parse_env_vars env_vars this_env of
             None \<Rightarrow> None
           | Some env \<Rightarrow>
               map_option (\<lambda>apps. (env, assign_ids app_id 0 {} apps)) (those (map (parse_app env global) nodes))))"

text \<open>
  \<^verbatim>\<open>refresh\<close> assigns a new object: everything but the trace is replaced, the handles are overwritten
  without any call to the system.
\<close>

definition refresh_apps :: "((string \<Rightarrow> string option) \<times> app_ctx list) option \<Rightarrow> proc \<Rightarrow> proc" where
  "refresh_apps parsed s =
     (case parsed of
        None \<Rightarrow> s
      | Some (env, apps) \<Rightarrow>
          \<lparr>pr_app_id = 0, pr_env = env, pr_apps = apps, pr_app = no_app, pr_app_launch_time = 0, pr_placebo = False,
           pr_process = False, pr_group = False, pr_prep_it = 0, pr_out = pr_out s\<rparr>)"

definition initial_proc :: proc where
  "initial_proc = \<lparr>pr_app_id = 0, pr_env = (\<lambda>_. None), pr_apps = [], pr_app = no_app, pr_app_launch_time = 0,
     pr_placebo = False, pr_process = False, pr_group = False, pr_prep_it = 0, pr_out = []\<rparr>"

end
