(* ===== verification/Process_Props.thy ===== *)
theory Process_Props
  imports Process
begin

text \<open>
  Properties of the application and its commands: what was prepared is undone, in reverse order, and
  when it is not.
\<close>

section \<open>Preparation and undo\<close>

text \<open>
  The commands whose undo is due, the last one first, and the commands that were undone, in order.
\<close>

definition pending :: "proc \<Rightarrow> prep_cmd list" where
  "pending s = rev (take (pr_prep_it s) (ap_prep_cmds (pr_app s)))"

definition has_undo :: "prep_cmd \<Rightarrow> bool" where
  "has_undo c \<longleftrightarrow> pm_undo c \<noteq> []"

fun undone :: "proc_effect list \<Rightarrow> prep_cmd list" where
  "undone [] = []"
| "undone (e # es) = (case e of Run_undo c dir \<Rightarrow> [c] | _ \<Rightarrow> []) @ undone es"

text \<open>The preparation commands that were run, in order.\<close>

definition has_do :: "prep_cmd \<Rightarrow> bool" where
  "has_do c \<longleftrightarrow> pm_do c \<noteq> []"

fun ran :: "proc_effect list \<Rightarrow> prep_cmd list" where
  "ran [] = []"
| "ran (e # es) = (case e of Run_do c dir \<Rightarrow> [c] | _ \<Rightarrow> []) @ ran es"

lemma ran_append [simp]: "ran (es @ es') = ran es @ ran es'"
  by (induction es) simp_all

lemma undone_append [simp]: "undone (es @ es') = undone es @ undone es'"
  by (induction es) simp_all

text \<open>Calls that neither undo anything nor touch the fields around it.\<close>

definition same_app :: "proc \<Rightarrow> proc \<Rightarrow> bool" where
  "same_app s s' \<longleftrightarrow> pr_app s' = pr_app s \<and> pr_app_id s' = pr_app_id s \<and> pr_apps s' = pr_apps s \<and>
     pr_placebo s' = pr_placebo s \<and> pr_process s' = pr_process s \<and> pr_group s' = pr_group s \<and>
     undone (pr_out s') = undone (pr_out s) \<and> ran (pr_out s') = ran (pr_out s)"

lemma same_app_refl [intro, simp]: "same_app s s"
  by (simp add: same_app_def)

lemma same_app_trans: "same_app s s' \<Longrightarrow> same_app s' s'' \<Longrightarrow> same_app s s''"
  by (simp add: same_app_def)

lemma same_app_emit: "(case e of Run_undo c dir \<Rightarrow> False | Run_do c dir \<Rightarrow> False | _ \<Rightarrow> True) \<Longrightarrow> same_app s (pr_emit e s)"
  by (simp add: same_app_def pr_emit_def split: proc_effect.splits)

lemma prep_it_emit [simp]: "pr_prep_it (pr_emit e s) = pr_prep_it s"
  by (simp add: pr_emit_def)

lemma await_exit_same: "same_app s (await_exit os t s) \<and> pr_prep_it (await_exit os t s) = pr_prep_it s"
proof (induction t arbitrary: s)
  case (Suc t)
  show ?case using Suc.IH [of "pr_emit Sleep s"] same_app_trans [OF same_app_emit [of Sleep s]] by simp
qed simp

lemma terminate_group_same:
  "same_app s (terminate_process_group os t s) \<and> pr_prep_it (terminate_process_group os t s) = pr_prep_it s"
proof -
  have wait: "same_app s (await_exit os n (pr_emit Request_exit s))" for n
    using await_exit_same same_app_trans [OF same_app_emit [of Request_exit s]] by simp
  have kill: "same_app s s' \<Longrightarrow> same_app s (pr_emit Kill_group s')" for s'
    using same_app_trans same_app_emit [of Kill_group s'] by simp
  have detach: "same_app s s' \<Longrightarrow> same_app s (pr_emit Detach_process s')" for s'
    using same_app_trans same_app_emit [of Detach_process s'] by simp
  show ?thesis
    using await_exit_same wait same_app_emit [of Request_exit s]
    by (auto simp: terminate_process_group_def Let_def intro!: kill detach)
qed

lemma undo_prep_effect:
  assumes "i \<le> length (ap_prep_cmds app)"
  shows "undone (pr_out (undo_prep os app i s)) = undone (pr_out s) @ filter has_undo (rev (take i (ap_prep_cmds app))) \<and>
    ran (pr_out (undo_prep os app i s)) = ran (pr_out s) \<and>
    pr_app (undo_prep os app i s) = pr_app s \<and> pr_app_id (undo_prep os app i s) = pr_app_id s \<and>
    pr_apps (undo_prep os app i s) = pr_apps s \<and> pr_placebo (undo_prep os app i s) = pr_placebo s \<and>
    pr_process (undo_prep os app i s) = pr_process s \<and> pr_group (undo_prep os app i s) = pr_group s"
  using assms
proof (induction i arbitrary: s)
  case (Suc i)
  have take: "rev (take (Suc i) (ap_prep_cmds app)) = ap_prep_cmds app ! i # rev (take i (ap_prep_cmds app))"
    using Suc.prems by (simp add: take_Suc_conv_app_nth)
  show ?case unfolding take using Suc.IH Suc.prems by (simp add: Let_def has_undo_def pr_emit_def)
qed simp

text \<open>\<^verbatim>\<open>terminate\<close> undoes all that is pending, the last command first, and leaves nothing running.\<close>

definition idle :: "proc \<Rightarrow> bool" where
  "idle s \<longleftrightarrow> pending s = [] \<and> pr_prep_it s = 0 \<and> \<not> pr_process s \<and> \<not> pr_group s \<and> \<not> pr_placebo s \<and> pr_app_id s = - 1"

lemma terminate_app_effect:
  assumes "pr_prep_it s \<le> length (ap_prep_cmds (pr_app s))"
  shows "idle (terminate_app os s) \<and> pr_app (terminate_app os s) = pr_app s \<and> pr_apps (terminate_app os s) = pr_apps s \<and>
    undone (pr_out (terminate_app os s)) = undone (pr_out s) @ filter has_undo (pending s) \<and>
    ran (pr_out (terminate_app os s)) = ran (pr_out s)"
proof -
  define s1 where "s1 = terminate_process_group os (ap_exit_timeout (pr_app s)) (s\<lparr>pr_placebo := False\<rparr>)"
  have s1: "pr_app s1 = pr_app s" "pr_apps s1 = pr_apps s" "\<not> pr_placebo s1" "undone (pr_out s1) = undone (pr_out s)"
    "pr_prep_it s1 = pr_prep_it s" "ran (pr_out s1) = ran (pr_out s)"
    using terminate_group_same [of "s\<lparr>pr_placebo := False\<rparr>" os "ap_exit_timeout (pr_app s)"]
    by (simp_all add: s1_def same_app_def)
  have "pr_prep_it s1 \<le> length (ap_prep_cmds (pr_app s1))" using assms s1 by simp
  note undo = undo_prep_effect [OF this, of os "s1\<lparr>pr_process := False, pr_group := False\<rparr>"]
  show ?thesis
    using undo s1
    by (simp add: terminate_app_def Let_def pr_emit_def idle_def pending_def flip: s1_def)
qed

text \<open>Calls that leave the application and what was undone, but may run preparation commands.\<close>

definition core_eq :: "proc \<Rightarrow> proc \<Rightarrow> bool" where
  "core_eq s s' \<longleftrightarrow> pr_app s' = pr_app s \<and> pr_app_id s' = pr_app_id s \<and> pr_apps s' = pr_apps s \<and>
     pr_prep_it s' = pr_prep_it s \<and> undone (pr_out s') = undone (pr_out s)"

lemma run_prep_step:
  fixes os app cmd s
  defines "run \<equiv> pr_emit (Run_do cmd (working_dir os app (pm_do cmd))) s"
  assumes "has_do cmd"
  obtains "run_prep os app (cmd # cmds) s = run_prep os app cmds (run\<lparr>pr_prep_it := pr_prep_it run + 1\<rparr>)"
    | "run_prep os app (cmd # cmds) s = (False, run)"
proof (cases "os_start os (pr_out run) \<noteq> Start_ok \<and> \<not> (ap_cmd app = [] \<and> os_start os (pr_out run) = Start_denied) \<or>
    os_wait_fails os (pr_out run) \<or> os_exit_code os (pr_out run) \<noteq> 0")
  case True
  then have "run_prep os app (cmd # cmds) s = (False, run)"
    using assms(2) unfolding run_def has_do_def run_prep.simps Let_def by argo
  then show thesis by fact
next
  case False
  then have "run_prep os app (cmd # cmds) s = run_prep os app cmds (run\<lparr>pr_prep_it := pr_prep_it run + 1\<rparr>)"
    using assms(2) unfolding run_def has_do_def run_prep.simps Let_def by argo
  then show thesis by fact
qed

text \<open>
  The preparation: the commands that ran are those up to the first that failed, the iterator is at that one.
\<close>

lemma run_prep_effect:
  assumes "run_prep os app cmds s = (ok, s')" and "drop (pr_prep_it s) (ap_prep_cmds app) = cmds"
    and "pr_prep_it s \<le> length (ap_prep_cmds app)"
  shows "core_eq (s\<lparr>pr_prep_it := pr_prep_it s'\<rparr>) s' \<and> pr_prep_it s' \<le> length (ap_prep_cmds app) \<and>
    (ok \<longrightarrow> pr_prep_it s' = length (ap_prep_cmds app)) \<and> pr_prep_it s \<le> pr_prep_it s' \<and>
    ran (pr_out s') = ran (pr_out s) @ filter has_do (take (Suc (pr_prep_it s') - pr_prep_it s) cmds)"
  using assms
proof (induction cmds arbitrary: s)
  case (Cons cmd cmds)
  let ?run = "pr_emit (Run_do cmd (working_dir os app (pm_do cmd))) s"
  have len: "pr_prep_it s < length (ap_prep_cmds app)"
    using Cons.prems(2) by (metis drop_all linorder_not_less list.distinct(1))
  have rest: "drop (Suc (pr_prep_it s)) (ap_prep_cmds app) = cmds"
    using Cons.prems(2) len by (metis Cons_nth_drop_Suc list.inject)
  have pass: ?case if "run_prep os app cmds (t\<lparr>pr_prep_it := pr_prep_it t + 1\<rparr>) = (ok, s')"
    and t: "core_eq s t" "ran (pr_out t) = ran (pr_out s) @ filter has_do [cmd]" for t
  proof -
    have it: "pr_prep_it t = pr_prep_it s" using t by (simp add: core_eq_def)
    have core: "core_eq (t\<lparr>pr_prep_it := pr_prep_it s'\<rparr>) s'" and
        le: "pr_prep_it s' \<le> length (ap_prep_cmds app)" "ok \<longrightarrow> pr_prep_it s' = length (ap_prep_cmds app)" and
        more: "Suc (pr_prep_it s) \<le> pr_prep_it s'" and
        ran: "ran (pr_out s') = ran (pr_out t) @ filter has_do (take (Suc (pr_prep_it s') - Suc (pr_prep_it s)) cmds)"
      using Cons.IH [OF that(1)] it rest len by (simp_all add: core_eq_def)
    have "Suc (pr_prep_it s') - pr_prep_it s = Suc (Suc (pr_prep_it s') - Suc (pr_prep_it s))"
      using more by simp
    then have "ran (pr_out s') = ran (pr_out s) @ filter has_do (take (Suc (pr_prep_it s') - pr_prep_it s) (cmd # cmds))"
      using ran t(2) by simp
    then show ?thesis using core t(1) le more by (simp add: core_eq_def)
  qed
  have fail: ?case if "s' = ?run" "\<not> ok" "has_do cmd"
    using that len by (simp add: core_eq_def pr_emit_def)
  have run: "core_eq s ?run" "has_do cmd \<Longrightarrow> ran (pr_out ?run) = ran (pr_out s) @ filter has_do [cmd]"
    by (simp_all add: core_eq_def pr_emit_def)
  show ?case
  proof (cases "has_do cmd")
    case False
    then show ?thesis using Cons.prems(1) pass [of s] by (simp add: has_do_def Let_def core_eq_def)
  next
    case True
    show ?thesis
    proof (rule run_prep_step [OF True, of os app cmds s])
      assume "run_prep os app (cmd # cmds) s = run_prep os app cmds (?run\<lparr>pr_prep_it := pr_prep_it ?run + 1\<rparr>)"
      with Cons.prems(1) have "run_prep os app cmds (?run\<lparr>pr_prep_it := pr_prep_it ?run + 1\<rparr>) = (ok, s')" by metis
      from pass [OF this run(1) run(2) [OF True]] show ?thesis .
    next
      assume "run_prep os app (cmd # cmds) s = (False, ?run)"
      with Cons.prems(1) have "s' = ?run" "\<not> ok" by simp_all
      then show ?thesis using fail True by blast
    qed
  qed
qed (simp add: core_eq_def)

lemma run_detached_same:
  "same_app s (run_detached os app cmds s) \<and> pr_prep_it (run_detached os app cmds s) = pr_prep_it s"
proof (induction cmds arbitrary: s)
  case (Cons cmd cmds)
  show ?case
    using Cons.IH same_app_trans [OF same_app_emit [of "Run_detached cmd (working_dir os app cmd)" s]] by simp
qed simp

text \<open>The application itself: started, or a state that differs in the trace only.\<close>

lemma run_app_effect:
  assumes "run_app os app s = (started, s')"
  shows "core_eq s s' \<and> ran (pr_out s') = ran (pr_out s) \<and> (if started then pr_placebo s' \<or> pr_process s' \<and> pr_group s' else same_app s s')"
  using assms
  by (auto simp: run_app_def core_eq_def same_app_def pr_emit_def Let_def split: if_splits)

text \<open>The state after the commands before the application itself.\<close>

lemma launch_app_effect:
  assumes "launch_app os app_id app ls s = (rc, s')"
  shows "pr_apps s' = pr_apps s \<and> (if rc = 0
    then pr_app s' = app \<and> pr_app_id s' = app_id \<and> pending s' = rev (ap_prep_cmds app) \<and>
      pr_prep_it s' = length (ap_prep_cmds app) \<and> undone (pr_out s') = undone (pr_out s) \<and>
      ran (pr_out s') = ran (pr_out s) @ filter has_do (ap_prep_cmds app) \<and> (pr_placebo s' \<or> pr_process s' \<and> pr_group s')
    else idle s' \<and> (\<exists>k. undone (pr_out s') = undone (pr_out s) @ filter has_undo (rev (take k (ap_prep_cmds app))) \<and>
      ran (pr_out s') = ran (pr_out s) @ filter has_do (take (Suc k) (ap_prep_cmds app))))"
proof -
  define s1 where "s1 = start_launch app_id app ls s"
  obtain ok s2 where prep: "run_prep os app (ap_prep_cmds app) s1 = (ok, s2)" by fastforce
  have s1: "pr_app s1 = app" "pr_app_id s1 = app_id" "pr_apps s1 = pr_apps s" "undone (pr_out s1) = undone (pr_out s)"
    "pr_prep_it s1 = 0" "ran (pr_out s1) = ran (pr_out s)"
    by (simp_all add: s1_def start_launch_def pr_emit_def Let_def)
  from run_prep_effect [OF prep] s1 have s2: "pr_app s2 = app" "pr_app_id s2 = app_id" "pr_apps s2 = pr_apps s"
    "undone (pr_out s2) = undone (pr_out s)" "pr_prep_it s2 \<le> length (ap_prep_cmds app)"
    "ran (pr_out s2) = ran (pr_out s) @ filter has_do (take (Suc (pr_prep_it s2)) (ap_prep_cmds app))"
    "ok \<Longrightarrow> pr_prep_it s2 = length (ap_prep_cmds app)"
    by (simp_all add: core_eq_def)
  note s2_fail = terminate_app_effect [of s2 os]
  show ?thesis
  proof (cases ok)
    case False
    have "(rc, s') = (- 1, terminate_app os s2)"
      using assms prep False by (simp add: launch_app_def Let_def flip: s1_def)
    then show ?thesis using s2_fail s2 by (auto simp: pending_def)
  next
    case True
    define s3 where "s3 = run_detached os app (ap_detached app) s2"
    have s3: "same_app s2 s3" "pr_prep_it s3 = length (ap_prep_cmds app)"
      using run_detached_same [of s2 os app "ap_detached app"] s2 True by (simp_all add: s3_def)
    obtain started s4 where app: "run_app os app s3 = (started, s4)" by fastforce
    have run: "(rc, s') = (if \<not> started then (- 1, terminate_app os s4)
        else (0, s4\<lparr>pr_app_launch_time := os_now os (pr_out s4)\<rparr>))"
      using assms prep True app by (simp add: launch_app_def Let_def flip: s1_def s3_def)
    have s4: "pr_app s4 = app" "pr_app_id s4 = app_id" "pr_apps s4 = pr_apps s" "undone (pr_out s4) = undone (pr_out s)"
      "pr_prep_it s4 = length (ap_prep_cmds app)" "ran (pr_out s4) = ran (pr_out s) @ filter has_do (ap_prep_cmds app)"
      using run_app_effect [OF app] s3 s2 True by (simp_all add: core_eq_def same_app_def)
    show ?thesis
    proof (cases started)
      case True
      then show ?thesis using run run_app_effect [OF app] s4 by (simp add: pending_def)
    next
      case False
      then show ?thesis
        using run terminate_app_effect [of s4 os] s4
        by (auto simp: pending_def intro!: exI [of _ "length (ap_prep_cmds app)"])
    qed
  qed
qed

section \<open>The commands in order\<close>

text \<open>
  The commands of a trace, of every kind and in their order; those that prepare and those that undo a list
  of preparations, and those that follow the preparations of an application.
\<close>

fun commands :: "proc_effect list \<Rightarrow> proc_effect list" where
  "commands [] = []"
| "commands (e # es) =
     (case e of Run_do c dir \<Rightarrow> [e] | Run_undo c dir \<Rightarrow> [e] | Run_detached c dir \<Rightarrow> [e] | Run_app c dir \<Rightarrow> [e] | _ \<Rightarrow> []) @
     commands es"

definition dos :: "proc_os \<Rightarrow> app_ctx \<Rightarrow> prep_cmd list \<Rightarrow> proc_effect list" where
  "dos os app cmds = map (\<lambda>c. Run_do c (working_dir os app (pm_do c))) (filter has_do cmds)"

definition undos :: "proc_os \<Rightarrow> app_ctx \<Rightarrow> prep_cmd list \<Rightarrow> proc_effect list" where
  "undos os app cmds = map (\<lambda>c. Run_undo c (working_dir os app (pm_undo c))) (filter has_undo cmds)"

definition followers :: "proc_os \<Rightarrow> app_ctx \<Rightarrow> proc_effect list" where
  "followers os app =
     map (\<lambda>c. Run_detached c (working_dir os app c)) (ap_detached app) @
     (if ap_cmd app = [] then [] else [Run_app (ap_cmd app) (working_dir os app (ap_cmd app))])"

text \<open>
  A preparation has failed, after the trace that ends with it: it did not start, other than by a denial
  for an application without a command, it could not be waited for or it ended with another code than 0.
  The first of a list of preparations to fail, by its position.
\<close>

definition prep_fails :: "proc_os \<Rightarrow> app_ctx \<Rightarrow> proc_effect list \<Rightarrow> bool" where
  "prep_fails os app out \<longleftrightarrow>
     os_start os out = Start_failed \<or> os_start os out = Start_denied \<and> ap_cmd app \<noteq> [] \<or>
     os_wait_fails os out \<or> os_exit_code os out \<noteq> 0"

definition first_failing :: "proc_os \<Rightarrow> app_ctx \<Rightarrow> prep_cmd list \<Rightarrow> proc_effect list \<Rightarrow> nat option" where
  "first_failing os app cmds out =
     find (\<lambda>k. has_do (cmds ! k) \<and> prep_fails os app (out @ dos os app (take (Suc k) cmds))) [0..<length cmds]"

lemma upt_Suc_map: "[0..<Suc n] = 0 # map Suc [0..<n]"
  by (simp add: upt_conv_Cons map_Suc_upt del: upt_Suc)

lemma find_map_Suc: "find P (map Suc ks) = map_option Suc (find (\<lambda>k. P (Suc k)) ks)"
  by (induction ks) simp_all

lemma first_failing_Nil [simp]: "first_failing os app [] out = None"
  by (simp add: first_failing_def)

lemma first_failing_Cons:
  "first_failing os app (cmd # cmds) out =
     (if has_do cmd \<and> prep_fails os app (out @ dos os app [cmd]) then Some 0
      else map_option Suc (first_failing os app cmds (out @ dos os app [cmd])))"
  by (simp add: first_failing_def upt_Suc_map find_map_Suc dos_def del: upt_Suc)

text \<open>From one state to a later one exactly these commands were run, in this order.\<close>

definition runs :: "proc \<Rightarrow> proc \<Rightarrow> proc_effect list \<Rightarrow> bool" where
  "runs s s' cs \<longleftrightarrow> (\<exists>rest. pr_out s' = pr_out s @ rest \<and> commands rest = cs)"

lemma commands_append [simp]: "commands (es @ es') = commands es @ commands es'"
  by (induction es) simp_all

lemma runs_refl [simp]: "runs s s []"
  by (simp add: runs_def)

lemma runs_trans: "runs s t a \<Longrightarrow> runs t u b \<Longrightarrow> runs s u (a @ b)"
  by (fastforce simp: runs_def)

lemma runs_emit [simp]: "runs s (pr_emit e s) (commands [e])"
  by (simp add: runs_def pr_emit_def)

lemma runs_out: "pr_out t = pr_out s \<Longrightarrow> runs t u a = runs s u a" "pr_out t = pr_out s \<Longrightarrow> runs u t a = runs u s a"
  by (simp_all add: runs_def)

lemma runs_then_silent: "runs s t a \<Longrightarrow> commands [e] = [] \<Longrightarrow> runs s (pr_emit e t) a"
  using runs_trans [OF _ runs_emit [of t e]] by fastforce

lemma runs_await: "runs s t a \<Longrightarrow> runs s (await_exit os n t) a"
  by (induction n arbitrary: t) (simp_all add: runs_then_silent)

lemma runs_terminate_group: "runs s (terminate_process_group os t s) []"
  by (simp add: terminate_process_group_def Let_def runs_then_silent runs_await)

lemma dos_append [simp]: "dos os app (xs @ ys) = dos os app xs @ dos os app ys"
  by (simp add: dos_def)

lemma undos_append [simp]: "undos os app (xs @ ys) = undos os app xs @ undos os app ys"
  by (simp add: undos_def)

lemma runs_undo_prep:
  "i \<le> length (ap_prep_cmds app) \<Longrightarrow> runs s (undo_prep os app i s) (undos os app (rev (take i (ap_prep_cmds app))))"
proof (induction i arbitrary: s)
  case (Suc i)
  let ?c = "ap_prep_cmds app ! i"
  have take: "rev (take (Suc i) (ap_prep_cmds app)) = ?c # rev (take i (ap_prep_cmds app))"
    using Suc.prems by (simp add: take_Suc_conv_app_nth)
  have "runs s (if pm_undo ?c = [] then s else pr_emit (Run_undo ?c (working_dir os app (pm_undo ?c))) s) (undos os app [?c])"
    using runs_emit [of s "Run_undo ?c (working_dir os app (pm_undo ?c))"] by (simp add: undos_def has_undo_def)
  from runs_trans [OF this Suc.IH] Suc.prems show ?case
    using undos_append [of os app "[?c]" "rev (take i (ap_prep_cmds app))"] unfolding take by (simp add: Let_def)
qed (simp add: undos_def)

lemma runs_terminate:
  assumes "pr_prep_it s \<le> length (ap_prep_cmds (pr_app s))"
  shows "runs s (terminate_app os s) (undos os (pr_app s) (pending s))"
proof -
  define s1 where "s1 = terminate_process_group os (ap_exit_timeout (pr_app s)) (s\<lparr>pr_placebo := False\<rparr>)"
  have s1: "pr_app s1 = pr_app s" "pr_prep_it s1 = pr_prep_it s" "runs s s1 []"
    using terminate_group_same [of "s\<lparr>pr_placebo := False\<rparr>" os "ap_exit_timeout (pr_app s)"]
      runs_terminate_group [of "s\<lparr>pr_placebo := False\<rparr>" os "ap_exit_timeout (pr_app s)"]
    by (simp_all add: s1_def same_app_def runs_out(1) [of s "s\<lparr>pr_placebo := False\<rparr>"] runs_def)
  define s2 where "s2 = s1\<lparr>pr_process := False, pr_group := False\<rparr>"
  have "runs s s2 []" using s1(3) by (simp add: s2_def runs_def)
  from runs_trans [OF this runs_undo_prep [OF assms, of s2 os]]
  have undo: "runs s (undo_prep os (pr_app s) (pr_prep_it s) s2) (undos os (pr_app s) (pending s))"
    by (simp add: pending_def)
  define s3 where "s3 = (undo_prep os (pr_app s) (pr_prep_it s) s2)\<lparr>pr_prep_it := 0\<rparr>"
  have "runs s s3 (undos os (pr_app s) (pending s))" using undo by (simp add: s3_def runs_def)
  then have "runs s (pr_emit Close_pipe s3) (undos os (pr_app s) (pending s))" by (rule runs_then_silent) simp
  then have "runs s (if P then pr_emit Revert_configuration (pr_emit Close_pipe s3) else pr_emit Close_pipe s3)
      (undos os (pr_app s) (pending s))" for P
    by (simp add: runs_then_silent)
  moreover have "pr_out (terminate_app os s) = pr_out (if ap_name (pr_app (pr_emit Close_pipe s3)) \<noteq> [] \<and>
      0 < pr_app_id (pr_emit Close_pipe s3) then pr_emit Revert_configuration (pr_emit Close_pipe s3) else pr_emit Close_pipe s3)"
    by (simp add: terminate_app_def Let_def s1 flip: s1_def s2_def s3_def) (simp add: s3_def s2_def s1)
  ultimately show ?thesis by (metis runs_out(2))
qed

text \<open>Preparing runs the commands up to the first that fails, and leaves the iterator there.\<close>

lemma run_prep_trace:
  "run_prep os app cmds s = (ok, s') \<Longrightarrow>
   (case first_failing os app cmds (pr_out s) of
      Some k \<Rightarrow> \<not> ok \<and> pr_prep_it s' = pr_prep_it s + k \<and> pr_out s' = pr_out s @ dos os app (take (Suc k) cmds)
    | None \<Rightarrow> ok \<and> pr_out s' = pr_out s @ dos os app cmds)"
proof (induction cmds arbitrary: s)
  case (Cons cmd cmds)
  let ?run = "pr_emit (Run_do cmd (working_dir os app (pm_do cmd))) s"
  have emit: "has_do cmd \<Longrightarrow> pr_out ?run = pr_out s @ dos os app [cmd]"
    by (simp add: pr_emit_def dos_def)
  have split: "dos os app (cmd # xs) = dos os app [cmd] @ dos os app xs" for xs
    using dos_append [of os app "[cmd]" xs] by simp
  have pass: ?case if run: "run_prep os app cmds (t\<lparr>pr_prep_it := pr_prep_it t + 1\<rparr>) = (ok, s')"
    and t: "pr_prep_it t = pr_prep_it s" "pr_out t = pr_out s @ dos os app [cmd]"
    and good: "\<not> (has_do cmd \<and> prep_fails os app (pr_out s @ dos os app [cmd]))" for t
    using Cons.IH [OF run] t good by (auto simp: first_failing_Cons split [of cmds] split [of "take _ _"] split: option.splits)
  show ?case
  proof (cases "has_do cmd")
    case False
    then show ?thesis using Cons.prems pass [of s] by (simp add: has_do_def dos_def Let_def)
  next
    case True
    let ?out = "pr_out ?run"
    have fails: "prep_fails os app ?out \<longleftrightarrow>
        (os_start os ?out \<noteq> Start_ok \<and> \<not> (ap_cmd app = [] \<and> os_start os ?out = Start_denied)) \<or>
        os_wait_fails os ?out \<or> os_exit_code os ?out \<noteq> 0"
      by (cases "os_start os ?out") (auto simp: prep_fails_def)
    have run: "run_prep os app (cmd # cmds) s =
        (if prep_fails os app ?out then (False, ?run) else run_prep os app cmds (?run\<lparr>pr_prep_it := pr_prep_it ?run + 1\<rparr>))"
      using True unfolding fails has_do_def run_prep.simps Let_def by argo
    show ?thesis
    proof (cases "prep_fails os app ?out")
      case True
      then have "s' = ?run" "\<not> ok" using run Cons.prems by simp_all
      then show ?thesis using True \<open>has_do cmd\<close> emit by (simp add: first_failing_Cons)
    next
      case False
      then have "run_prep os app cmds (?run\<lparr>pr_prep_it := pr_prep_it ?run + 1\<rparr>) = (ok, s')"
        using run Cons.prems by simp
      then show ?thesis using pass [of ?run] emit [OF True] False by simp
    qed
  qed
qed (simp add: dos_def)

lemma run_detached_trace:
  "pr_out (run_detached os app cmds s) = pr_out s @ map (\<lambda>c. Run_detached c (working_dir os app c)) cmds"
  by (induction cmds arbitrary: s) (simp_all add: pr_emit_def)

text \<open>A launch, command by command.\<close>

definition launch_trace_ok ::
    "proc_os \<Rightarrow> app_ctx \<Rightarrow> proc_effect list \<Rightarrow> int \<Rightarrow> proc \<Rightarrow> bool" where
  "launch_trace_ok os app begun rc s' \<longleftrightarrow>
     (let cmds = ap_prep_cmds app;
          everything = begun @ dos os app cmds @ followers os app;
          given_up = (\<lambda>done undo. rc = - 1 \<and> idle s' \<and>
            (\<exists>rest. pr_out s' = done @ rest \<and> commands rest = undos os app undo))
      in case first_failing os app cmds begun of
           Some k \<Rightarrow> given_up (begun @ dos os app (take (Suc k) cmds)) (rev (take k cmds))
         | None \<Rightarrow>
             if ap_cmd app \<noteq> [] \<and> os_start os everything \<noteq> Start_ok then given_up everything (rev cmds)
             else rc = 0 \<and> pr_out s' = everything \<and> pr_app s' = app \<and> pending s' = rev cmds)"

lemma launch_app_trace:
  assumes "launch_app os app_id app ls s = (rc, s')"
  shows "launch_trace_ok os app (pr_out (start_launch app_id app ls s)) rc s'"
proof -
  define s1 where "s1 = start_launch app_id app ls s"
  let ?cmds = "ap_prep_cmds app"
  obtain ok s2 where prep: "run_prep os app ?cmds s1 = (ok, s2)" by fastforce
  have s1: "pr_app s1 = app" "pr_prep_it s1 = 0" by (simp_all add: s1_def start_launch_def pr_emit_def Let_def)
  from run_prep_effect [OF prep] s1 have s2: "pr_app s2 = app" "pr_prep_it s2 \<le> length ?cmds"
    "ok \<Longrightarrow> pr_prep_it s2 = length ?cmds"
    by (simp_all add: core_eq_def)
  have undo: "idle (terminate_app os t) \<and> (\<exists>rest. pr_out (terminate_app os t) = pr_out t @ rest \<and>
      commands rest = undos os app (rev (take (pr_prep_it t) ?cmds)))"
    if "pr_app t = app" "pr_prep_it t \<le> length ?cmds" for t
    using runs_terminate [of t os] terminate_app_effect [of t os] that by (simp add: pending_def runs_def)
  show ?thesis
  proof (cases "first_failing os app ?cmds (pr_out s1)")
    case (Some k)
    with run_prep_trace [OF prep] s1 have "\<not> ok" "pr_prep_it s2 = k"
      "pr_out s2 = pr_out s1 @ dos os app (take (Suc k) ?cmds)" by simp_all
    moreover from this have "(rc, s') = (- 1, terminate_app os s2)"
      using assms prep by (simp add: launch_app_def Let_def flip: s1_def)
    ultimately show ?thesis using undo [of s2] s2 Some by (simp add: launch_trace_ok_def Let_def flip: s1_def)
  next
    case None
    with run_prep_trace [OF prep] have ok: ok and out2: "pr_out s2 = pr_out s1 @ dos os app ?cmds" by simp_all
    define s3 where "s3 = run_detached os app (ap_detached app) s2"
    have s3: "pr_app s3 = app" "pr_prep_it s3 = length ?cmds"
      "pr_out s3 = pr_out s1 @ dos os app ?cmds @ map (\<lambda>c. Run_detached c (working_dir os app c)) (ap_detached app)"
      using run_detached_same [of s2 os app "ap_detached app"] run_detached_trace [of os app "ap_detached app" s2] s2 ok out2
      by (simp_all add: s3_def same_app_def)
    obtain started s4 where app: "run_app os app s3 = (started, s4)" by fastforce
    have run: "(rc, s') = (if \<not> started then (- 1, terminate_app os s4)
        else (0, s4\<lparr>pr_app_launch_time := os_now os (pr_out s4)\<rparr>))"
      using assms prep ok app by (simp add: launch_app_def Let_def flip: s1_def s3_def)
    have s4: "pr_out s4 = pr_out s1 @ dos os app ?cmds @ followers os app" "pr_app s4 = app" "pr_prep_it s4 = length ?cmds"
      "started \<longleftrightarrow> ap_cmd app = [] \<or> os_start os (pr_out s4) = Start_ok"
      using app s3 by (auto simp: run_app_def followers_def pr_emit_def Let_def split: if_splits)
    show ?thesis
      using run s4 undo [of s4] None by (auto simp: launch_trace_ok_def Let_def pending_def simp flip: s1_def)
  qed
qed

section \<open>Histories\<close>

text \<open>The calls other components make: launching, polling, closing an application and reloading the file.\<close>

datatype proc_call =
    Execute int launch_session
  | Running bool int
  | Terminate
  | Refresh "((string \<Rightarrow> string option) \<times> app_ctx list) option"

fun proc_step :: "proc_os \<Rightarrow> proc_call \<Rightarrow> proc \<Rightarrow> proc" where
  "proc_step os (Execute app_id ls) s = snd (execute_app os app_id ls s)"
| "proc_step os (Running running code) s = snd (app_running os running code s)"
| "proc_step os Terminate s = terminate_app os s"
| "proc_step os (Refresh parsed) s = refresh_apps parsed s"

definition history :: "proc_os \<Rightarrow> proc_call list \<Rightarrow> proc" where
  "history os calls = fold (proc_step os) calls initial_proc"

definition proc_inv :: "proc \<Rightarrow> bool" where
  "proc_inv s \<longleftrightarrow>
     pr_prep_it s = (if pr_process s \<or> pr_placebo s then length (ap_prep_cmds (pr_app s)) else 0)"

lemma proc_inv_bound: "proc_inv s \<Longrightarrow> pr_prep_it s \<le> length (ap_prep_cmds (pr_app s))"
  by (simp add: proc_inv_def)

lemma proc_inv_idle: "idle s \<Longrightarrow> proc_inv s"
  by (simp add: idle_def proc_inv_def)

lemma execute_app_effect:
  assumes "pr_prep_it s \<le> length (ap_prep_cmds (pr_app s))" and "execute_app os app_id ls s = (rc, s')"
  shows "case find (\<lambda>app. ap_id app = to_string app_id) (pr_apps s) of
      None \<Rightarrow> rc = 404 \<and> idle s' \<and> undone (pr_out s') = undone (pr_out s) @ filter has_undo (pending s) \<and>
        ran (pr_out s') = ran (pr_out s)
    | Some app \<Rightarrow>
        if rc = 0
        then pr_app s' = app \<and> pr_app_id s' = app_id \<and> pending s' = rev (ap_prep_cmds app) \<and>
          pr_prep_it s' = length (ap_prep_cmds app) \<and> (pr_placebo s' \<or> pr_process s' \<and> pr_group s') \<and>
          undone (pr_out s') = undone (pr_out s) @ filter has_undo (pending s) \<and>
          ran (pr_out s') = ran (pr_out s) @ filter has_do (ap_prep_cmds app)
        else idle s' \<and> (\<exists>k.
          undone (pr_out s') = undone (pr_out s) @ filter has_undo (pending s) @ filter has_undo (rev (take k (ap_prep_cmds app))) \<and>
          ran (pr_out s') = ran (pr_out s) @ filter has_do (take (Suc k) (ap_prep_cmds app)))"
proof -
  note t = terminate_app_effect [OF assms(1), of os]
  show ?thesis
  proof (cases "find (\<lambda>app. ap_id app = to_string app_id) (pr_apps s)")
    case None
    then show ?thesis using assms(2) t by (auto simp: execute_app_def Let_def)
  next
    case (Some app)
    then have "launch_app os app_id app ls (terminate_app os s) = (rc, s')"
      using assms(2) t by (simp add: execute_app_def Let_def)
    from launch_app_effect [OF this] t show ?thesis unfolding Some by (cases "rc = 0") auto
  qed
qed

lemma proc_inv_step: "proc_inv s \<Longrightarrow> proc_inv (proc_step os c s)"
proof (cases c)
  case (Execute app_id ls)
  assume inv: "proc_inv s"
  obtain rc s' where exec: "execute_app os app_id ls s = (rc, s')" by fastforce
  from execute_app_effect [OF proc_inv_bound [OF inv] exec] have "idle s' \<or> proc_inv s'"
    by (auto simp: proc_inv_def split: option.splits if_splits)
  then show ?thesis using Execute exec proc_inv_idle by auto
next
  case (Running running code)
  assume inv: "proc_inv s"
  have "proc_inv (terminate_app os s)"
    using terminate_app_effect [OF proc_inv_bound [OF inv]] proc_inv_idle by blast
  moreover have "pr_process s \<Longrightarrow> proc_inv (s\<lparr>pr_placebo := True\<rparr>)" using inv by (simp add: proc_inv_def)
  ultimately show ?thesis using Running inv by (simp add: app_running_def)
next
  case Terminate
  assume "proc_inv s"
  then show ?thesis
    using Terminate terminate_app_effect [OF proc_inv_bound] proc_inv_idle by simp
next
  case (Refresh parsed)
  assume "proc_inv s"
  then show ?thesis using Refresh by (simp add: refresh_apps_def proc_inv_def split: option.splits)
qed

lemma proc_inv_history: "proc_inv (history os calls)"
proof -
  have "proc_inv s \<Longrightarrow> proc_inv (fold (proc_step os) calls s)" for s
    by (induction calls arbitrary: s) (simp_all add: proc_inv_step)
  moreover have "proc_inv initial_proc" by (simp add: proc_inv_def initial_proc_def)
  ultimately show ?thesis by (simp add: history_def)
qed

section \<open>Templates\<close>

text \<open>A value of the file as text and references; text has its dollar signs doubled.\<close>

datatype env_part = Text string | Reference string

fun escape_env :: "string \<Rightarrow> string" where
  "escape_env [] = []"
| "escape_env (c # cs) = (if c = CHR ''$'' then [c, c] else [c]) @ escape_env cs"

fun render_part :: "env_part \<Rightarrow> string" where
  "render_part (Text s) = escape_env s"
| "render_part (Reference n) = ''$('' @ n @ '')''"

fun part_value :: "(string \<Rightarrow> string option) \<Rightarrow> env_part \<Rightarrow> string" where
  "part_value env (Text s) = s"
| "part_value env (Reference n) = (case env n of None \<Rightarrow> [] | Some v \<Rightarrow> v)"

definition bracket_free :: "string \<Rightarrow> bool" where
  "bracket_free n \<longleftrightarrow> list_all (\<lambda>c. c \<noteq> CHR ''('' \<and> c \<noteq> CHR '')'') n"

fun plain_part :: "env_part \<Rightarrow> bool" where
  "plain_part (Text s) = True"
| "plain_part (Reference n) = bracket_free n"

lemma find_match_plain: "bracket_free n \<Longrightarrow> find_match 1 (n @ CHR '')'' # t) = Some (n, t)"
  by (induction n) (simp_all add: bracket_free_def)

lemma parse_escaped: "parse_env_val env (escape_env s @ t) = map_option ((@) s) (parse_env_val env t)"
proof (induction s)
  case Nil
  then show ?case by (simp add: option.map_ident)
next
  case (Cons c s)
  then show ?case by (simp add: option.map_comp comp_def)
qed

lemma parse_reference:
  "bracket_free n \<Longrightarrow> parse_env_val env (''$('' @ n @ '')'' @ t) = map_option ((@) (part_value env (Reference n))) (parse_env_val env t)"
  using find_match_plain [of n t] by simp

lemma parse_rendered:
  "list_all plain_part ps \<Longrightarrow> parse_env_val env (concat (map render_part ps)) = Some (concat (map (part_value env) ps))"
proof (induction ps)
  case (Cons p ps)
  then show ?case
    using parse_escaped [of env _ "concat (map render_part ps)"] parse_reference [of _ env "concat (map render_part ps)"]
    by (cases p) simp_all
qed simp

section \<open>A sample\<close>

text \<open>A system on which every command succeeds and groups end at once, and an application with one preparation.\<close>

definition sample_os :: proc_os where
  "sample_os = \<lparr>os_start = (\<lambda>_. Start_ok), os_wait_fails = (\<lambda>_. False), os_exit_code = (\<lambda>_. 0),
     os_group_running = (\<lambda>_. False), os_request_exit = (\<lambda>_. True), os_working_directory = (\<lambda>_. []), os_now = (\<lambda>_. 0)\<rparr>"

definition sample_prep :: prep_cmd where
  "sample_prep = \<lparr>pm_do = ''on'', pm_undo = ''off'', pm_elevated = False\<rparr>"

definition sample_app :: app_ctx where
  "sample_app = no_app\<lparr>ap_prep_cmds := [sample_prep], ap_name := ''Game'', ap_cmd := ''game'', ap_id := ''1''\<rparr>"

definition sample_client :: launch_session where
  "sample_client = \<lparr>ls_id = 1, ls_gcm_key = [], ls_iv = [], ls_av_ping_payload = [], ls_control_connect_data = 0,
     ls_host_audio = False, ls_unique_id = [], ls_width = 1920, ls_height = 1080, ls_fps = 60, ls_gcmap = 0, ls_appid = 1,
     ls_surround_info = 2, ls_surround_params = [], ls_continuous_audio = False, ls_enable_hdr = False,
     ls_enable_sops = False, ls_rtsp_cipher = False, ls_rtsp_url_scheme = [], ls_rtsp_iv_counter = 0\<rparr>"

definition sample_loaded :: "proc_call list" where
  "sample_loaded = [Refresh (Some (\<lambda>_. None, [sample_app]))]"

lemma to_string_1: "to_string 1 = ''1''"
  by code_simp

lemmas sample_run = sample_os_def sample_prep_def sample_app_def sample_client_def sample_loaded_def history_def
  initial_proc_def refresh_apps_def no_app_def execute_app_def launch_app_def start_launch_def run_app_def
  working_dir_def pr_emit_def terminate_app_def terminate_process_group_def Let_def to_string_1

lemma sample_launched:
  "history sample_os (sample_loaded @ [Execute 1 sample_client]) =
     snd (execute_app sample_os 1 sample_client (history sample_os sample_loaded))"
  by (simp add: history_def)

lemma sample_success:
  "fst (execute_app sample_os 1 sample_client (history sample_os sample_loaded)) = 0 \<and>
   (let s = snd (execute_app sample_os 1 sample_client (history sample_os sample_loaded))
    in pr_process s \<and> \<not> pr_placebo s \<and> pr_app s = sample_app \<and>
      pr_out s = [Close_pipe, Run_do sample_prep [], Run_app ''game'' []])"
  by (simp add: sample_run)

section \<open>Properties\<close>

text \<open>
  C20. After every history of calls, a launch first runs the undo commands that the previous application
  left pending, last command first, before any command of the new one. It then runs the preparation
  commands in order up to the first that fails: that does not start (a denial being tolerated for an
  application without a command), cannot be waited for, or ends with another code than 0. If one fails,
  it answers -1, has run nothing behind it, has run the undo commands of exactly those before it, in
  reverse order, and leaves nothing running. If none fails, the detached commands and the command of the
  application follow; if that one does not start, all preparations are undone in reverse order and
  the answer is -1; otherwise the answer is 0, and all undo commands are pending in reverse order. An
  unknown identifier runs only the pending undo commands and answers 404.
\<close>

theorem launch_prepares_or_undoes:
  fixes os calls app_id ls
  defines "s \<equiv> history os calls"
  defines "rc \<equiv> fst (execute_app os app_id ls s)" and "s' \<equiv> snd (execute_app os app_id ls s)"
  shows "case find (\<lambda>app. ap_id app = to_string app_id) (pr_apps s) of
      None \<Rightarrow> rc = 404 \<and> idle s' \<and> runs s s' (undos os (pr_app s) (pending s))
    | Some app \<Rightarrow>
        (let cmds = ap_prep_cmds app;
             begin_state = start_launch app_id app ls (terminate_app os s);
             begun = pr_out begin_state;
             everything = begun @ dos os app cmds @ followers os app;
             given_up = (\<lambda>done undo. rc = - 1 \<and> idle s' \<and>
               (\<exists>rest. pr_out s' = done @ rest \<and> commands rest = undos os app undo))
         in runs s begin_state (undos os (pr_app s) (pending s)) \<and>
           (case first_failing os app cmds begun of
              Some k \<Rightarrow> given_up (begun @ dos os app (take (Suc k) cmds)) (rev (take k cmds))
            | None \<Rightarrow>
                if ap_cmd app \<noteq> [] \<and> os_start os everything \<noteq> Start_ok then given_up everything (rev cmds)
                else rc = 0 \<and> pr_out s' = everything \<and> pr_app s' = app \<and> pr_app_id s' = app_id \<and>
                  pending s' = rev cmds \<and> (pr_placebo s' \<or> pr_process s' \<and> pr_group s')))"
proof -
  have bound: "pr_prep_it s \<le> length (ap_prep_cmds (pr_app s))"
    by (simp add: s_def proc_inv_bound proc_inv_history)
  have effect: "execute_app os app_id ls s = (rc, s')" by (simp add: rc_def s'_def)
  note undo = runs_terminate [OF bound, of os] and t = terminate_app_effect [OF bound, of os]
    and whole = execute_app_effect [OF bound effect]
  show ?thesis
  proof (cases "find (\<lambda>app. ap_id app = to_string app_id) (pr_apps s)")
    case None
    then have "s' = terminate_app os s" "rc = 404" using effect t by (simp_all add: execute_app_def Let_def)
    then show ?thesis using None undo t by simp
  next
    case (Some app)
    then have launch: "launch_app os app_id app ls (terminate_app os s) = (rc, s')"
      using effect t by (simp add: execute_app_def Let_def)
    have "runs s (start_launch app_id app ls (terminate_app os s)) (undos os (pr_app s) (pending s))"
      using undo by (auto simp: start_launch_def Let_def runs_def pr_emit_def)
    with launch_app_trace [OF launch] whole Some show ?thesis
      by (auto simp: launch_trace_ok_def Let_def split: option.splits if_splits)
  qed
qed

text \<open>
  C21. After every history of launches, polls, terminations and reloads, an application without a
  process and not treated as detached has no undo command pending, and one that runs has all of its
  undo commands pending, in reverse order.
\<close>

theorem no_app_nothing_pending:
  "pending (history os calls) =
     (if pr_process (history os calls) \<or> pr_placebo (history os calls)
      then rev (ap_prep_cmds (pr_app (history os calls))) else [])"
  using proc_inv_history [of os calls] by (simp add: proc_inv_def pending_def)

text \<open>
  When the application has exited by itself, the next poll undoes all that was pending: after every
  history that leaves a process, if neither it nor its group runs and it is not taken for a detached
  command, \<^verbatim>\<open>running\<close> answers 0, runs the undo commands in reverse and leaves nothing running.
\<close>

theorem exited_app_is_undone:
  fixes os calls code
  defines "s \<equiv> history os calls"
  defines "r \<equiv> app_running os False code s"
  assumes "pr_process s" and "\<not> pr_placebo s" and "\<not> os_group_running os (pr_out s)"
    and "code \<noteq> 0 \<or> 5000 \<le> os_now os (pr_out s) - pr_app_launch_time s"
  shows "fst r = 0 \<and> idle (snd r) \<and> pending s = rev (ap_prep_cmds (pr_app s)) \<and>
    undone (pr_out (snd r)) = undone (pr_out s) @ filter has_undo (rev (ap_prep_cmds (pr_app s)))"
proof -
  have inv: "proc_inv s" by (simp add: s_def proc_inv_history)
  then have pend: "pending s = rev (ap_prep_cmds (pr_app s))" using assms(3) by (simp add: proc_inv_def pending_def)
  have "r = (0, terminate_app os s)" using assms(3-6) by (auto simp: r_def app_running_def)
  then show ?thesis using terminate_app_effect [OF proc_inv_bound [OF inv], of os] pend by simp
qed

theorem exited_app_is_undone_witness:
  "undone (pr_out (snd (app_running sample_os False 1 (history sample_os (sample_loaded @ [Execute 1 sample_client]))))) =
     [sample_prep]"
proof -
  let ?s = "history sample_os (sample_loaded @ [Execute 1 sample_client])"
  have s: "pr_process ?s" "\<not> pr_placebo ?s" "pr_app ?s = sample_app" "undone (pr_out ?s) = []"
    using sample_success by (simp_all add: sample_launched Let_def)
  have "\<not> os_group_running sample_os (pr_out ?s)" by (simp add: sample_os_def)
  from exited_app_is_undone [OF s(1,2) this, of 1] s(3,4) show ?thesis
    by (simp add: sample_app_def sample_prep_def no_app_def has_undo_def)
qed

text \<open>
  Reloading the list while an application runs forgets it: after a successful launch, a reload and
  a termination, no undo command has run and the process group was not asked to exit or killed; the only
  action is to close the output pipe.
\<close>

theorem refresh_forgets_app:
  assumes "execute_app os app_id ls (history os calls) = (0, s)"
  shows "pr_out (terminate_app os (refresh_apps (Some (env, apps)) s)) = pr_out s @ [Close_pipe] \<and>
    pending s = rev (ap_prep_cmds (pr_app s)) \<and> (pr_placebo s \<or> pr_process s \<and> pr_group s)"
  using execute_app_effect [OF proc_inv_bound [OF proc_inv_history] assms]
  by (auto simp: terminate_app_def refresh_apps_def terminate_process_group_def pr_emit_def no_app_def Let_def
      split: option.splits)

theorem refresh_forgets_app_witness:
  "undone (pr_out (terminate_app sample_os (refresh_apps (Some (\<lambda>_. None, []))
       (snd (execute_app sample_os 1 sample_client (history sample_os sample_loaded)))))) = [] \<and>
   pending (snd (execute_app sample_os 1 sample_client (history sample_os sample_loaded))) = [sample_prep]"
proof -
  obtain s where s: "execute_app sample_os 1 sample_client (history sample_os sample_loaded) = (0, s)"
    using sample_success by (metis prod.collapse)
  then have "pr_app s = sample_app" "undone (pr_out s) = []" using sample_success by (simp_all add: Let_def)
  with refresh_forgets_app [OF s, of "\<lambda>_. None" "[]"] show ?thesis
    by (simp add: s sample_app_def no_app_def)
qed

text \<open>
  Identifiers can repeat: whatever the checksum, the first and the third of the applications
  Desktop2, Desktop and Desktop, all without an image, get the same one, so that a launch of the third
  finds the first.
\<close>

theorem app_ids_collide:
  fixes lib crc32 sha256
  defines "apps \<equiv> assign_ids (calculate_app_id lib crc32 sha256) 0 {}
      (map (\<lambda>n. no_app\<lparr>ap_name := n\<rparr>) [''Desktop2'', ''Desktop'', ''Desktop''])"
  shows "ap_id (apps ! 2) = ap_id (apps ! 0) \<and>
    find (\<lambda>app. ap_id app = ap_id (apps ! 2)) apps = Some (apps ! 0) \<and> ap_name (apps ! 0) \<noteq> ap_name (apps ! 2)"
proof -
  have two: "to_string 2 = ''2''" by code_simp
  show ?thesis
    by (simp add: apps_def calculate_app_id_def validate_app_image_path_def Let_def no_app_def two)
qed

text \<open>
  Values are expanded exactly: a value written as text with doubled dollar signs and references to
  names without brackets expands to the text and the values of the variables, one that is not set being
  empty.
\<close>

theorem env_val_roundtrip:
  assumes "list_all plain_part ps"
  shows "parse_env_val env (concat (map render_part ps)) = Some (concat (map (part_value env) ps))"
  by (rule parse_rendered [OF assms])

theorem env_val_roundtrip_witness:
  "parse_env_val (\<lambda>_. Some ''/root'') ''$(HOME)/a$$b'' = Some ''/root/a$b''"
  using env_val_roundtrip [of "[Reference ''HOME'', Text ''/a$b'']" "\<lambda>_. Some ''/root''"]
  by (simp add: bracket_free_def)

end
