(* ===== verification/Stream_Audio.thy ===== *)
theory Stream_Audio
  imports Rtsp_Server
begin

text \<open>
  The audio stream of \<^verbatim>\<open>src/stream.cpp\<close>: the state of a session, encoding, the packets of
  \<^verbatim>\<open>audioBroadcastThread\<close> with their error correction, and the client's side of a block
  (\<^verbatim>\<open>RtpAudioQueue.c\<close>, \<^verbatim>\<open>AudioStream.c\<close>). AES-CBC and the Reed-Solomon coder are
  parameters, as is whether a datagram makes \<^verbatim>\<open>platf::send\<close> throw.
\<close>

unbundle bit_operations_syntax

section \<open>State\<close>

definition RTPA_DATA_SHARDS :: nat where "RTPA_DATA_SHARDS = 4"
definition RTPA_FEC_SHARDS :: nat where "RTPA_FEC_SHARDS = 2"

text \<open>The room of a shard, 2048 bytes rounded up to the padding of PKCS7.\<close>

definition round_to_pkcs7_padded :: "nat \<Rightarrow> nat" where
  "round_to_pkcs7_padded n = ((n + 15) div 16) * 16"

definition max_block_size :: nat where
  "max_block_size = round_to_pkcs7_padded 2048"

record audio_channel =
  ac_encrypted :: bool
  ac_packetDuration :: int
  ac_sequenceNumber :: u16
  ac_timestamp :: u32
  ac_avRiKeyId :: u32
  ac_shards :: "bytes list"
  ac_baseSequenceNumber :: u16
  ac_baseTimestamp :: u32

text \<open>The audio part of \<^verbatim>\<open>session::alloc\<close>; the content of a new buffer is not specified, \<open>fresh\<close> stands for it.\<close>

definition audio_alloc :: "bytes \<Rightarrow> stream_config \<Rightarrow> launch_session \<Rightarrow> audio_channel" where
  "audio_alloc fresh config launch_session =
     \<lparr>ac_encrypted = (sc_encryptionFlagsEnabled config AND SS_ENC_AUDIO \<noteq> 0),
      ac_packetDuration = sc_packetDuration config, ac_sequenceNumber = 0, ac_timestamp = 0,
      ac_avRiKeyId = be_value (take 4 (ls_iv launch_session)),
      ac_shards = map (\<lambda>x. take max_block_size (drop (x * max_block_size) fresh)) [0..<6],
      ac_baseSequenceNumber = 0, ac_baseTimestamp = 0\<rparr>"

text \<open>The video part: the counters start at 0, the cipher is set only for encrypted video.\<close>

definition video_alloc :: "(bytes \<Rightarrow> gcm_fun) \<Rightarrow> stream_config \<Rightarrow> launch_session \<Rightarrow> video_channel \<times> gcm_fun option" where
  "video_alloc gcm config launch_session =
     (\<lparr>vc_packetsize = nat (sc_packetsize config), vc_minRequiredFecPackets = nat (sc_minRequiredFecPackets config),
       vc_lowseq = 0, vc_gcm_iv_counter = 0\<rparr>,
      if sc_encryptionFlagsEnabled config AND SS_ENC_VIDEO \<noteq> 0 then Some (gcm (ls_gcm_key launch_session)) else None)"

section \<open>Packets\<close>

type_synonym cbc_fun = "bytes \<Rightarrow> bytes \<Rightarrow> bytes option"

definition encode_audio :: "bool \<Rightarrow> cbc_fun \<Rightarrow> bytes \<Rightarrow> bytes \<Rightarrow> bytes option" where
  "encode_audio encrypted cbc iv plaintext = (if \<not> encrypted then Some plaintext else cbc iv plaintext)"

text \<open>The vector: the sum of the key identifier and the sequence number, big endian, and zeros.\<close>

definition audio_iv :: "u32 \<Rightarrow> u16 \<Rightarrow> bytes" where
  "audio_iv avRiKeyId sequenceNumber = be_bytes 4 (avRiKeyId + ucast sequenceNumber) @ replicate 12 0"

definition rtp_header :: "u8 \<Rightarrow> u16 \<Rightarrow> u32 \<Rightarrow> bytes" where
  "rtp_header packetType sequenceNumber timestamp =
     [0x80, packetType] @ be_bytes 2 sequenceNumber @ be_bytes 4 timestamp @ [0, 0, 0, 0]"

definition audio_fec_header :: "nat \<Rightarrow> u16 \<Rightarrow> u32 \<Rightarrow> bytes" where
  "audio_fec_header fecShardIndex baseSequenceNumber baseTimestamp =
     [of_nat fecShardIndex, 97] @ be_bytes 2 baseSequenceNumber @ be_bytes 4 baseTimestamp @ [0, 0, 0, 0]"

definition audio_fec_packet :: "u16 \<Rightarrow> nat \<Rightarrow> audio_channel \<Rightarrow> bytes \<Rightarrow> bytes" where
  "audio_fec_packet sequenceNumber x ch shard =
     rtp_header 127 (sequenceNumber + of_nat x + 1) 0 @
     audio_fec_header x (ac_baseSequenceNumber ch) (ac_baseTimestamp ch) @ shard"

text \<open>The coder reads the first \<open>n\<close> bytes of the data shards and writes as many into the others.\<close>

definition encode_shards :: "(bytes list \<Rightarrow> bytes list) \<Rightarrow> nat \<Rightarrow> bytes list \<Rightarrow> bytes list" where
  "encode_shards rs n shards =
     take RTPA_DATA_SHARDS shards @
     map2 (write_at 0) (rs (map (take n) (take RTPA_DATA_SHARDS shards))) (drop RTPA_DATA_SHARDS shards)"

text \<open>
  One round of \<^verbatim>\<open>audioBroadcastThread\<close>: the datagrams and the new state, \<open>None\<close> when encoding fails
  and the thread ends. An exception of \<^verbatim>\<open>platf::send\<close> skips the rest of the round.
\<close>

definition send_audio :: "cbc_fun \<Rightarrow> (bytes list \<Rightarrow> bytes list) \<Rightarrow> (bytes \<Rightarrow> bool) \<Rightarrow> audio_channel \<Rightarrow> bytes
    \<Rightarrow> (bytes list \<times> audio_channel) option" where
  "send_audio cbc rs throws ch packet_data =
     (let sequenceNumber = ac_sequenceNumber ch; timestamp = ac_timestamp ch;
          slot = unat sequenceNumber mod RTPA_DATA_SHARDS
      in case encode_audio (ac_encrypted ch) cbc (audio_iv (ac_avRiKeyId ch) sequenceNumber) packet_data of
           None \<Rightarrow> None
         | Some data \<Rightarrow>
             let n = length data;
                 ch = ch\<lparr>ac_shards := (ac_shards ch)[slot := write_at 0 data (ac_shards ch ! slot)],
                   ac_sequenceNumber := sequenceNumber + 1, ac_timestamp := timestamp + of_int (ac_packetDuration ch)\<rparr>;
                 packet = rtp_header 97 sequenceNumber timestamp @ take n (ac_shards ch ! slot)
             in if throws packet then Some ([], ch)
                else let ch = (if slot = 0
                       then ch\<lparr>ac_baseSequenceNumber := sequenceNumber, ac_baseTimestamp := timestamp\<rparr> else ch)
                     in if (unat sequenceNumber + 1) mod RTPA_DATA_SHARDS = 0
                        then let ch = ch\<lparr>ac_shards := encode_shards rs n (ac_shards ch)\<rparr>;
                                 fec = map (\<lambda>x. audio_fec_packet sequenceNumber x ch (take n (ac_shards ch ! (RTPA_DATA_SHARDS + x))))
                                   [0..<RTPA_FEC_SHARDS]
                             in Some (packet # takeWhile (Not \<circ> throws) fec, ch)
                        else Some ([packet], ch))"

text \<open>
  The thread: packets of all sessions from one queue. The datagrams come with their session; the last
  component tells whether the thread ended because of a failure.
\<close>

fun audio_thread :: "(nat \<Rightarrow> cbc_fun) \<Rightarrow> (bytes list \<Rightarrow> bytes list) \<Rightarrow> (bytes \<Rightarrow> bool) \<Rightarrow> (nat \<times> bytes) list
    \<Rightarrow> (nat \<Rightarrow> audio_channel) \<Rightarrow> (nat \<times> bytes) list \<times> (nat \<Rightarrow> audio_channel) \<times> bool" where
  "audio_thread cbc rs throws [] st = ([], st, False)"
| "audio_thread cbc rs throws ((s, packet_data) # packets) st =
     (case send_audio (cbc s) rs throws (st s) packet_data of
        None \<Rightarrow> ([], st, True)
      | Some (out, ch) \<Rightarrow>
          let (rest, st, failed) = audio_thread cbc rs throws packets (st(s := ch))
          in (map (Pair s) out @ rest, st, failed))"

section \<open>The client\<close>

text \<open>
  What the client takes a packet for: the sequence number and timestamp of its block, its place in
  it and its shard; \<open>None\<close> for those that belong to no block.
\<close>

definition client_audio_packet :: "u32 \<Rightarrow> bytes \<Rightarrow> (u16 \<times> u32 \<times> nat \<times> bytes) option" where
  "client_audio_packet AudioPacketDuration p =
     (let sequenceNumber = be_value (read_at 2 2 p) :: u16; timestamp = be_value (read_at 4 4 p)
      in if length p < 12 then None
         else if p ! 1 = 97 then
           let base = (sequenceNumber div 4) * 4
           in Some (base, timestamp - ucast (sequenceNumber - base) * AudioPacketDuration,
                unat (sequenceNumber - base), drop 12 p)
         else if p ! 1 = 127 then
           let base = be_value (read_at 14 2 p)
           in if length p < 24 then None
              else if 2 \<le> unat (p ! 12) then None
              else if base mod 4 \<noteq> 0 then None
              else Some (base, be_value (read_at 16 4 p), RTPA_DATA_SHARDS + unat (p ! 12), drop 24 p)
         else None)"

text \<open>
  The numbers of the client's queue until it completes a block. The first packet of a connection only tells
  where to begin, at the block behind its own, and is dropped; so are the packets of older blocks.
\<close>

record client_audio =
  ca_synchronizing :: bool
  ca_oldest :: u16

definition client_audio_start :: client_audio where
  "client_audio_start = \<lparr>ca_synchronizing = True, ca_oldest = 0\<rparr>"

definition isBefore16 :: "u16 \<Rightarrow> u16 \<Rightarrow> bool" where
  "isBefore16 x y \<longleftrightarrow> 0x7FFF < x - y"

fun client_audio_receive :: "u32 \<Rightarrow> client_audio \<Rightarrow> bytes list \<Rightarrow> (u16 \<times> u32 \<times> nat \<times> bytes) list" where
  "client_audio_receive duration q [] = []"
| "client_audio_receive duration q (p # ps) =
     (case client_audio_packet duration p of
        None \<Rightarrow> client_audio_receive duration q ps
      | Some (base, shard) \<Rightarrow>
          if ca_synchronizing q \<and> ca_oldest q = 0 then client_audio_receive duration (q\<lparr>ca_oldest := base + 4\<rparr>) ps
          else if isBefore16 base (ca_oldest q) then client_audio_receive duration q ps
          else (base, shard) # client_audio_receive duration q ps)"

text \<open>
  The data packets of a block from the shards received for it: sequence number, timestamp and decrypted
  data, once there are four different shards. Missing ones come from \<open>reconstruct\<close>.
\<close>

definition client_audio_frames :: "((nat \<Rightarrow> bytes option) \<Rightarrow> bytes list) \<Rightarrow> (bytes \<Rightarrow> bytes \<Rightarrow> bytes) \<Rightarrow> u32 \<Rightarrow> bool \<Rightarrow> u32
    \<Rightarrow> (u16 \<times> u32 \<times> nat \<times> bytes) list \<Rightarrow> (u16 \<times> u32 \<times> bytes) list" where
  "client_audio_frames reconstruct decrypt duration encrypted avRiKeyId found =
     (case found of
        [] \<Rightarrow> []
      | (base, base_ts, _) # _ \<Rightarrow>
          let shards = map_of (map (\<lambda>(_, _, i, s). (i, s)) found)
          in if length (remdups (map (\<lambda>(_, _, i, _). i) found)) < RTPA_DATA_SHARDS then []
             else map2 (\<lambda>i s. (base + of_nat i, base_ts + of_nat i * duration,
                  if encrypted then decrypt (audio_iv avRiKeyId (base + of_nat i)) s else s))
                [0..<RTPA_DATA_SHARDS] (reconstruct shards))"

definition client_audio_block :: "((nat \<Rightarrow> bytes option) \<Rightarrow> bytes list) \<Rightarrow> (bytes \<Rightarrow> bytes \<Rightarrow> bytes) \<Rightarrow> u32 \<Rightarrow> bool \<Rightarrow> u32
    \<Rightarrow> bytes list \<Rightarrow> (u16 \<times> u32 \<times> bytes) list" where
  "client_audio_block reconstruct decrypt duration encrypted avRiKeyId ps =
     client_audio_frames reconstruct decrypt duration encrypted avRiKeyId
       (client_audio_receive duration client_audio_start ps)"

end
