(* ===== verification/Sample_Coder.thy ===== *)
theory Sample_Coder
  imports Byte_Layout
begin

text \<open>
  A code for four data and two parity shards that can be evaluated: the sum of the bytes and the sum
  with the weights 1, 2, 4 and 8 in the field of 256 elements. It shows that the coder the audio
  stream needs exists.
\<close>

unbundle bit_operations_syntax

section \<open>Bytes\<close>

text \<open>Multiplication by 2 in the field.\<close>

definition twice :: "u8 \<Rightarrow> u8" where
  "twice b = push_bit 1 b XOR (if bit b 7 then 0x1D else 0)"

lemma twice_xor: "twice (a XOR b) = twice a XOR twice b"
proof -
  have "push_bit 1 (a XOR b) = push_bit 1 a XOR push_bit 1 b" by (rule bit_word_eqI) (auto simp: bit_simps)
  then show ?thesis by (simp add: twice_def bit_xor_iff ac_simps)
qed

lemma twice_all: "list_all (\<lambda>n. let b = of_nat n :: u8; t = twice b in n = 0 \<or> (t \<noteq> 0 \<and> t \<noteq> b \<and> twice t \<noteq> b \<and> twice (twice t) \<noteq> b)) [0..<256]"
  by code_simp

lemma twice_fixed: "twice b = 0 \<or> twice b = b \<or> twice (twice b) = b \<or> twice (twice (twice b)) = b \<Longrightarrow> b = 0"
proof -
  have "unat b \<in> set [0..<256]" using unsigned_less [of b, where 'a = nat] by simp
  with twice_all have "let b' = of_nat (unat b) :: u8; t = twice b' in unat b = 0 \<or> (t \<noteq> 0 \<and> t \<noteq> b' \<and> twice t \<noteq> b' \<and> twice (twice t) \<noteq> b')"
    unfolding list_all_iff by (rule bspec)
  then have "unat b = 0 \<or> (twice b \<noteq> 0 \<and> twice b \<noteq> b \<and> twice (twice b) \<noteq> b \<and> twice (twice (twice b)) \<noteq> b)"
    by (simp add: Let_def)
  then show "twice b = 0 \<or> twice b = b \<or> twice (twice b) = b \<or> twice (twice (twice b)) = b \<Longrightarrow> b = 0"
    by (auto simp: unat_eq_0)
qed

lemma twice_0 [simp]: "twice 0 = 0"
  by (simp add: twice_def)

lemma xor_zero: "(a :: u8) XOR b = 0 \<longleftrightarrow> a = b"
  by (auto simp: bit_eq_iff bit_simps)

lemma twice_inj [simp]: "twice a = twice b \<longleftrightarrow> a = b"
  by (metis twice_fixed twice_xor xor_zero)


definition parity_p :: "bytes \<Rightarrow> u8" where
  "parity_p e = e ! 0 XOR e ! 1 XOR e ! 2 XOR e ! 3"

definition parity_q :: "bytes \<Rightarrow> u8" where
  "parity_q e = e ! 0 XOR twice (e ! 1) XOR twice (twice (e ! 2)) XOR twice (twice (twice (e ! 3)))"

definition code_word :: "bytes \<Rightarrow> bytes" where
  "code_word e = e @ [parity_p e, parity_q e]"

lemma few_zero:
  fixes a b c d :: u8
  assumes "length (filter (\<lambda>x. x \<noteq> 0) (code_word [a, b, c, d])) \<le> 2"
  shows "a = 0 \<and> b = 0 \<and> c = 0 \<and> d = 0"
proof -
  have f: "x = 0" if "x = twice x \<or> twice x = x \<or> x = twice (twice x) \<or> twice (twice x) = x \<or> x = twice (twice (twice x)) \<or> twice (twice (twice x)) = x \<or> twice x = 0" for x
    using that twice_fixed [of x] by metis
  have z: "twice x = 0 \<longleftrightarrow> x = 0" for x using f [of x] by auto
  show ?thesis
    using assms f
    by (cases "a = 0"; cases "b = 0"; cases "c = 0"; cases "d = 0")
      (simp_all add: code_word_def parity_p_def parity_q_def xor_zero z split: if_splits)
qed


lemma code_word_xor:
  assumes "length e = 4" and "length e' = 4" and "r < 6"
  shows "code_word (map2 (XOR) e e') ! r = code_word e ! r XOR code_word e' ! r"
proof -
  obtain a b c d where e: "e = [a, b, c, d]" using assms(1) by (auto simp: length_Suc_conv numeral_eq_Suc)
  obtain a' b' c' d' where e': "e' = [a', b', c', d']" using assms(2) by (auto simp: length_Suc_conv numeral_eq_Suc)
  have p: "parity_p (map2 (XOR) e e') = parity_p e XOR parity_p e'" by (simp add: e e' parity_p_def ac_simps)
  have q: "parity_q (map2 (XOR) e e') = parity_q e XOR parity_q e'" by (simp add: e e' parity_q_def twice_xor ac_simps)
  have "r = 0 \<or> r = 1 \<or> r = 2 \<or> r = 3 \<or> r = 4 \<or> r = 5" using assms(3) by arith
  then show ?thesis using p q by (auto simp: code_word_def e e')
qed

lemma code_word_unique:
  assumes "length e = 4" and "length e' = 4" and "S \<subseteq> {..<6}" and "4 \<le> card S"
    and "\<And>r. r \<in> S \<Longrightarrow> code_word e ! r = code_word e' ! r"
  shows "e = e'"
proof -
  obtain a b c d where e: "e = [a, b, c, d]" using assms(1) by (auto simp: length_Suc_conv numeral_eq_Suc)
  obtain a' b' c' d' where e': "e' = [a', b', c', d']" using assms(2) by (auto simp: length_Suc_conv numeral_eq_Suc)
  let ?x = "map2 (XOR) e e'"
  have "{r. r < length (code_word ?x) \<and> code_word ?x ! r \<noteq> 0} \<subseteq> {..<6} - S"
    using code_word_xor [OF assms(1,2)] assms(5) by (auto simp: code_word_def e e')
  then have "card {r. r < length (code_word ?x) \<and> code_word ?x ! r \<noteq> 0} \<le> card ({..<6 :: nat} - S)"
    by (intro card_mono) simp_all
  also have "\<dots> \<le> 2" using assms(3,4) by (simp add: card_Diff_subset finite_subset)
  finally have "length (filter (\<lambda>x. x \<noteq> 0) (code_word ?x)) \<le> 2" by (simp add: length_filter_conv_card)
  then have "a XOR a' = 0 \<and> b XOR b' = 0 \<and> c XOR c' = 0 \<and> d XOR d' = 0"
    using few_zero [of "a XOR a'" "b XOR b'" "c XOR c'" "d XOR d'"] by (simp add: e e')
  then show ?thesis by (simp add: e e' xor_zero)
qed

section \<open>Shards\<close>

text \<open>The data bytes that fit to the bytes known of a column, by trying all.\<close>

definition solve_column :: "(nat \<Rightarrow> u8 option) \<Rightarrow> bytes" where
  "solve_column z =
     (case find (\<lambda>e. list_all (\<lambda>r. z r = None \<or> z r = Some (code_word e ! r)) [0..<6])
         (List.n_lists 4 (map of_nat [0..<256])) of
        None \<Rightarrow> [] | Some e \<Rightarrow> e)"

lemma byte_listed: "(b :: u8) \<in> set (map of_nat [0..<256])"
proof -
  have "unat b < 256" using unsigned_less [of b, where 'a = nat] by simp
  then show ?thesis using image_eqI [of b "of_nat" "unat b" "{0..<256}"] by simp
qed

lemma solve_column_unique:
  assumes "length e = 4" and "dom z \<subseteq> {..<6}" and "4 \<le> card (dom z)"
    and "\<And>r. r \<in> dom z \<Longrightarrow> z r = Some (code_word e ! r)"
  shows "solve_column z = e"
proof -
  let ?ok = "\<lambda>e. list_all (\<lambda>r. z r = None \<or> z r = Some (code_word e ! r)) [0..<6]"
  have "?ok e" using assms(4) by (force simp: list_all_iff)
  moreover have "e \<in> set (List.n_lists 4 (map of_nat [0..<256]))"
    using assms(1) byte_listed by (auto simp: set_n_lists)
  ultimately obtain e' where e': "find ?ok (List.n_lists 4 (map of_nat [0..<256])) = Some e'"
    by (metis (no_types, lifting) find_None_iff not_None_eq)
  then have ok: "?ok e'" and "e' \<in> set (List.n_lists 4 (map of_nat [0..<256]))"
    by (auto simp: find_Some_iff)
  then have len: "length e' = 4" by (simp add: set_n_lists)
  have "e = e'"
  proof (rule code_word_unique [OF assms(1) len assms(2,3)])
    fix r assume r: "r \<in> dom z"
    then have "r < 6" using assms(2) by auto
    then have "z r = None \<or> z r = Some (code_word e' ! r)" using ok by (simp add: list_all_iff)
    then show "code_word e ! r = code_word e' ! r" using assms(4) [OF r] by simp
  qed
  then show ?thesis using e' by (simp add: solve_column_def)
qed

definition sample_rs :: "bytes list \<Rightarrow> bytes list" where
  "sample_rs ds =
     [map (\<lambda>i. parity_p (map (\<lambda>d. d ! i) ds)) [0..<length (hd ds)], map (\<lambda>i. parity_q (map (\<lambda>d. d ! i) ds)) [0..<length (hd ds)]]"

definition sample_reconstruct :: "(nat \<Rightarrow> bytes option) \<Rightarrow> bytes list" where
  "sample_reconstruct m =
     (case List.map_filter m [0..<6] of
        [] \<Rightarrow> []
      | s # _ \<Rightarrow> map (\<lambda>j. map (\<lambda>i. solve_column (\<lambda>r. map_option (\<lambda>s. s ! i) (m r)) ! j) [0..<length s]) [0..<4])"

lemma sample_code_column:
  assumes "length ds = 4" and "list_all (\<lambda>d. length d = n) ds" and "r < 6" and "i < n"
  shows "(ds @ sample_rs ds) ! r ! i = code_word (map (\<lambda>d. d ! i) ds) ! r"
proof -
  obtain a b c d where ds: "ds = [a, b, c, d]" using assms(1) by (auto simp: length_Suc_conv numeral_eq_Suc)
  have "r = 0 \<or> r = 1 \<or> r = 2 \<or> r = 3 \<or> r = 4 \<or> r = 5" using assms(3) by arith
  then show ?thesis using assms(2,4) by (auto simp: ds sample_rs_def code_word_def)
qed

lemma sample_reconstructs:
  assumes ds: "length ds = 4" "list_all (\<lambda>d. length d = n) ds"
    and m: "dom m \<subseteq> {..<6}" "\<forall>i\<in>dom m. m i = Some ((ds @ sample_rs ds) ! i)" "4 \<le> card (dom m)"
  shows "sample_reconstruct m = ds"
proof -
  have rs: "list_all (\<lambda>s. length s = n) (ds @ sample_rs ds)"
    using ds by (auto simp: sample_rs_def length_Suc_conv numeral_eq_Suc)
  have "dom m \<noteq> {}" using m(3) by auto
  then obtain r where "r \<in> dom m" by auto
  then have "List.map_filter m [0..<6] \<noteq> []" using m(1) by (force simp: List.map_filter_def filter_empty_conv)
  then obtain s ss where s: "List.map_filter m [0..<6] = s # ss" by (cases "List.map_filter m [0..<6]") auto
  then have "s \<in> set (List.map_filter m [0..<6])" by simp
  then obtain r' where "m r' = Some s" "r' < 6" by (auto simp: List.map_filter_def)
  then have "s = (ds @ sample_rs ds) ! r'" using m(2) by force
  then have len: "length s = n"
    using rs \<open>r' < 6\<close> ds(1) by (simp add: list_all_length sample_rs_def)
  have solve: "solve_column (\<lambda>r. map_option (\<lambda>s. s ! i) (m r)) = map (\<lambda>d. d ! i) ds" if "i < n" for i
  proof (rule solve_column_unique)
    have dom: "dom (\<lambda>r. map_option (\<lambda>s. s ! i) (m r)) = dom m" by auto
    show "dom (\<lambda>r. map_option (\<lambda>s. s ! i) (m r)) \<subseteq> {..<6}" "4 \<le> card (dom (\<lambda>r. map_option (\<lambda>s. s ! i) (m r)))"
      using m by (simp_all only: dom)
    fix r assume "r \<in> dom (\<lambda>r. map_option (\<lambda>s. s ! i) (m r))"
    then have "r \<in> dom m" by (simp only: dom)
    then show "map_option (\<lambda>s. s ! i) (m r) = Some (code_word (map (\<lambda>d. d ! i) ds) ! r)"
      using m(1,2) sample_code_column [OF ds _ that, of r] by auto
  qed (simp add: ds)
  show ?thesis
  proof (rule nth_equalityI)
    show "length (sample_reconstruct m) = length ds" using ds(1) by (simp add: sample_reconstruct_def s)
    fix j assume "j < length (sample_reconstruct m)"
    then have j: "j < 4" by (simp add: sample_reconstruct_def s)
    then have "length (ds ! j) = n" using ds by (simp add: list_all_length)
    then show "sample_reconstruct m ! j = ds ! j"
      using j ds(1) by (intro nth_equalityI) (simp_all add: sample_reconstruct_def s len solve)
  qed
qed

end
