(* ===== verification/Audio.thy ===== *)
theory Audio
  imports Rtsp Thread_Safe
begin

text \<open>
  Audio capture, \<^verbatim>\<open>src/audio.cpp\<close>: the choice of the stream configuration and of the sink, the life
  of the audio control shared by the sessions, and the loops of capturing and encoding. The sound
  system and Opus are parameters.
\<close>

section \<open>Configurations\<close>

definition STEREO :: nat where "STEREO = 0"

definition map_stream :: "int \<Rightarrow> bool \<Rightarrow> nat" where
  "map_stream channels quality =
     (let shift = (if quality then 1 else 0)
      in if channels = 2 then STEREO + shift
         else if channels = 6 then SURROUND51 + shift
         else if channels = 8 then SURROUND71 + shift
         else STEREO)"

definition apply_surround_params :: "stream_params \<Rightarrow> opus_stream_config \<Rightarrow> opus_stream_config" where
  "apply_surround_params params stream =
     stream\<lparr>os_channelCount := sp_channelCount params, os_streams := sp_streams params,
       os_coupledStreams := sp_coupledStreams params, os_mapping := sp_mapping params\<rparr>"

definition capture_stream :: "stream_config \<Rightarrow> opus_stream_config" where
  "capture_stream config =
     (let stream = stream_configs ! map_stream (sc_channels config) (sc_HIGH_QUALITY config)
      in if sc_CUSTOM_SURROUND_PARAMS config then apply_surround_params (sc_customStreamParams config) stream else stream)"

text \<open>Samples per packet and channel; \<^verbatim>\<open>int\<close> arithmetic, so \<open>None\<close> when the product does not fit.\<close>

definition frame_size :: "stream_config \<Rightarrow> int option" where
  "frame_size config =
     (let product = sc_packetDuration config * os_sampleRate (capture_stream config)
      in if - (2 ^ 31) \<le> product \<and> product < 2 ^ 31
         then Some (if product < 0 then - (- product div 1000) else product div 1000) else None)"

section \<open>Sinks\<close>

record null_sinks =
  nu_stereo :: string
  nu_surround51 :: string
  nu_surround71 :: string

record audio_sink =
  si_host :: string
  si_null :: "null_sinks option"

record audio_ctx =
  au_control :: bool
  au_sink_flag :: bool
  au_restore_sink :: bool
  au_sink :: audio_sink

text \<open>
  \<^verbatim>\<open>start_audio_control\<close>: whether the platform gives an audio control, and the sinks it reports.
\<close>

definition start_audio_control :: "bool \<Rightarrow> audio_sink option \<Rightarrow> audio_ctx" where
  "start_audio_control audio_control sink_info =
     \<lparr>au_control = (audio_control \<and> sink_info \<noteq> None), au_sink_flag = False, au_restore_sink = False,
      au_sink = (if audio_control then (case sink_info of Some s \<Rightarrow> s | None \<Rightarrow> \<lparr>si_host = [], si_null = None\<rparr>)
        else \<lparr>si_host = [], si_null = None\<rparr>)\<rparr>"

definition chosen_sink :: "string \<Rightarrow> bool \<Rightarrow> nat \<Rightarrow> audio_sink \<Rightarrow> string" where
  "chosen_sink config_sink host_audio channelCount ctx_sink =
     (let sink = (if config_sink \<noteq> [] then config_sink else si_host ctx_sink)
      in case si_null ctx_sink of
           None \<Rightarrow> sink
         | Some null \<Rightarrow>
             if \<not> host_audio \<or> sink = []
             then (if channelCount = 2 then nu_stereo null else if channelCount = 6 then nu_surround51 null
               else if channelCount = 8 then nu_surround71 null else sink)
             else sink)"

text \<open>
  The beginning of \<^verbatim>\<open>capture\<close> up to the microphone: the sinks that are set, whether the session goes on,
  and the context. \<open>set_sink\<close> tells whether setting a sink works.
\<close>

definition capture_begin :: "(string \<Rightarrow> bool) \<Rightarrow> string \<Rightarrow> stream_config \<Rightarrow> audio_ctx \<Rightarrow> string list \<times> bool \<times> audio_ctx" where
  "capture_begin set_sink config_sink config ctx =
     (if \<not> au_control ctx then ([], False, ctx)
      else let sink = chosen_sink config_sink (sc_HOST_AUDIO config) (os_channelCount (capture_stream config)) (au_sink ctx)
           in if au_sink_flag ctx then ([], True, ctx)
              else let ctx = ctx\<lparr>au_sink_flag := True, au_restore_sink := (si_host (au_sink ctx) \<noteq> sink)\<rparr>
                   in if au_restore_sink ctx then ([sink], set_sink sink, ctx) else ([], True, ctx))"

text \<open>\<^verbatim>\<open>stop_audio_control\<close>, when the last session leaves: the sinks that are set.\<close>

definition stop_audio_control :: "string \<Rightarrow> audio_ctx \<Rightarrow> string list" where
  "stop_audio_control config_sink ctx =
     (if \<not> au_restore_sink ctx then []
      else let sink = (if si_host (au_sink ctx) = [] then config_sink else si_host (au_sink ctx))
           in if sink = [] then [] else [sink])"

definition is_audio_ctx_sink_available :: "(string \<Rightarrow> bool) \<Rightarrow> string \<Rightarrow> audio_ctx \<Rightarrow> bool" where
  "is_audio_ctx_sink_available available config_sink ctx =
     (if \<not> au_control ctx then False
      else let sink = (if si_host (au_sink ctx) = [] then config_sink else si_host (au_sink ctx))
           in sink \<noteq> [] \<and> available sink)"

section \<open>Capturing and encoding\<close>

datatype capture_e = Capture_ok | Capture_reinit | Capture_timeout | Capture_interrupted | Capture_error

text \<open>
  The loop of \<^verbatim>\<open>capture\<close> while no shutdown is requested: the results of the microphone with their samples,
  the queue of samples and the number of times the microphone was opened again; the last component
  tells whether the loop ended by itself.
\<close>

fun capture_loop :: "(capture_e \<times> 'a) list \<Rightarrow> 'a queue \<Rightarrow> nat \<Rightarrow> 'a queue \<times> nat \<times> bool" where
  "capture_loop [] samples reopened = (samples, reopened, False)"
| "capture_loop ((status, sample) # results) samples reopened =
     (case status of
        Capture_ok \<Rightarrow> capture_loop results (queue_raise sample samples) reopened
      | Capture_timeout \<Rightarrow> capture_loop results samples reopened
      | Capture_reinit \<Rightarrow> capture_loop results samples (reopened + 1)
      | Capture_interrupted \<Rightarrow> (samples, reopened, True)
      | Capture_error \<Rightarrow> (samples, reopened, True))"

text \<open>
  \<^verbatim>\<open>encodeThread\<close> on the samples taken from the queue: a packet per sample; when Opus fails the queue of the
  packets is stopped. \<open>encode\<close> is Opus with the state after the samples before.
\<close>

fun encode_thread :: "('a list \<Rightarrow> bytes option) \<Rightarrow> 'a list \<Rightarrow> 'a list \<Rightarrow> 'c \<Rightarrow> ('c \<times> bytes) queue \<Rightarrow> ('c \<times> bytes) queue" where
  "encode_thread encode before [] channel_data packets = packets"
| "encode_thread encode before (sample # samples) channel_data packets =
     (case encode (before @ [sample]) of
        None \<Rightarrow> queue_stop packets
      | Some packet \<Rightarrow> encode_thread encode (before @ [sample]) samples channel_data (queue_raise (channel_data, packet) packets))"

end
