(* ===== verification/Audio_Props.thy ===== *)
theory Audio_Props
  imports Audio
begin

text \<open>
  Properties of the audio capture: the sink of the host is changed at most once and given back.
\<close>

section \<open>The life of the audio control\<close>

fun captures :: "(string \<Rightarrow> bool) \<Rightarrow> string \<Rightarrow> stream_config list \<Rightarrow> audio_ctx \<Rightarrow> string list \<times> audio_ctx" where
  "captures set_sink config_sink [] ctx = ([], ctx)"
| "captures set_sink config_sink (c # cs) ctx =
     (let (sinks, going_on, ctx) = capture_begin set_sink config_sink c ctx;
          (more, ctx) = captures set_sink config_sink cs ctx
      in (sinks @ more, ctx))"

text \<open>The sinks that are set from the first session to the last, and the sink that is in use at the end.\<close>

definition sinks_set :: "(string \<Rightarrow> bool) \<Rightarrow> string \<Rightarrow> bool \<Rightarrow> audio_sink option \<Rightarrow> stream_config list \<Rightarrow> string list" where
  "sinks_set set_sink config_sink audio_control sink_info configs =
     (let (sinks, ctx) = captures set_sink config_sink configs (start_audio_control audio_control sink_info)
      in sinks @ stop_audio_control config_sink ctx)"

definition sink_in_use :: "(string \<Rightarrow> bool) \<Rightarrow> string list \<Rightarrow> string \<Rightarrow> string" where
  "sink_in_use set_sink calls host = fold (\<lambda>s current. if set_sink s then s else current) calls host"

lemma captures_later: "au_sink_flag ctx \<Longrightarrow> captures set_sink config_sink cs ctx = ([], ctx)"
  by (induction cs) (simp_all add: capture_begin_def Let_def)

lemma captures_without: "\<not> au_control ctx \<Longrightarrow> captures set_sink config_sink cs ctx = ([], ctx)"
  by (induction cs) (simp_all add: capture_begin_def)

lemma sinks_set_cases:
  assumes "si_host sink \<noteq> []"
  shows "sinks_set set_sink config_sink audio_control (Some sink) configs = [] \<or>
    (\<exists>s. s \<noteq> si_host sink \<and> sinks_set set_sink config_sink audio_control (Some sink) configs = [s, si_host sink])"
proof (cases configs)
  case Nil
  then show ?thesis by (simp add: sinks_set_def start_audio_control_def stop_audio_control_def)
next
  case (Cons c cs)
  show ?thesis
  proof (cases audio_control)
    case False
    then have "\<not> au_control (start_audio_control audio_control (Some sink))" by (simp add: start_audio_control_def)
    from captures_without [OF this] show ?thesis
      by (simp add: sinks_set_def stop_audio_control_def) (simp add: start_audio_control_def)
  next
    case True
    define s where "s = chosen_sink config_sink (sc_HOST_AUDIO c) (os_channelCount (capture_stream c)) sink"
    define ctx where "ctx = (start_audio_control True (Some sink))\<lparr>au_sink_flag := True, au_restore_sink := (si_host sink \<noteq> s)\<rparr>"
    have first: "capture_begin set_sink config_sink c (start_audio_control True (Some sink)) =
        (if si_host sink \<noteq> s then ([s], set_sink s, ctx) else ([], True, ctx))"
      by (simp add: capture_begin_def ctx_def s_def start_audio_control_def Let_def)
    have later: "captures set_sink config_sink cs ctx = ([], ctx)" by (rule captures_later) (simp add: ctx_def)
    have ctx: "au_restore_sink ctx \<longleftrightarrow> si_host sink \<noteq> s" "au_sink ctx = sink"
      by (simp_all add: ctx_def start_audio_control_def)
    have "sinks_set set_sink config_sink audio_control (Some sink) configs =
        (if si_host sink \<noteq> s then [s, si_host sink] else [])"
      using assms True first later ctx
      by (cases "si_host sink = s") (simp_all add: sinks_set_def Cons stop_audio_control_def Let_def)
    then show ?thesis by auto
  qed
qed

section \<open>Properties\<close>

text \<open>
  The sink of the host is given back. Whatever sessions come, with whatever channels and wishes,
  before the last of them leaves, the default sink is changed at most once and then set back: at the end
  the sink in use is the one the host had, if setting that one works. Setting the sink of a session may
  fail.
\<close>

theorem audio_sink_restored:
  fixes set_sink config_sink audio_control configs
  assumes "si_host sink \<noteq> []" and "set_sink (si_host sink)"
  defines "calls \<equiv> sinks_set set_sink config_sink audio_control (Some sink) configs"
  shows "sink_in_use set_sink calls (si_host sink) = si_host sink \<and> (calls = [] \<or> (\<exists>s. calls = [s, si_host sink]))"
  using sinks_set_cases [OF assms(1), of set_sink config_sink audio_control configs] assms(2)
  by (auto simp: sink_in_use_def calls_def)

definition sample_sink :: audio_sink where
  "sample_sink = \<lparr>si_host = ''speakers'', si_null = Some \<lparr>nu_stereo = ''null2'', nu_surround51 = ''null6'', nu_surround71 = ''null8''\<rparr>\<rparr>"

definition stereo_config :: stream_config where
  "stereo_config =
     \<lparr>sc_channels = 2, sc_mask = 3, sc_packetDuration = 5, sc_customStreamParams = no_stream_params, sc_HIGH_QUALITY = False,
      sc_HOST_AUDIO = False, sc_CUSTOM_SURROUND_PARAMS = False, sc_CONTINUOUS_AUDIO = False, sc_controlProtocolType = 13,
      sc_packetsize = 1024, sc_minRequiredFecPackets = 0, sc_mlFeatureFlags = 3, sc_audioQosType = 0, sc_videoQosType = 0,
      sc_encryptionFlagsEnabled = 4, sc_height = 1080, sc_width = 1920, sc_framerate = 60, sc_framerateX100 = 0,
      sc_bitrate = 10000, sc_slicesPerFrame = 1, sc_numRefFrames = 1, sc_encoderCscMode = 0, sc_videoFormat = 0,
      sc_dynamicRange = 0, sc_chromaSamplingType = 0, sc_enableIntraRefresh = 0\<rparr>"

theorem audio_sink_restored_witness:
  "sinks_set (\<lambda>_. True) [] True (Some sample_sink) [stereo_config, stereo_config\<lparr>sc_channels := 6\<rparr>] = [''null2'', ''speakers''] \<and>
   sink_in_use (\<lambda>_. True) [''null2'', ''speakers''] ''speakers'' = ''speakers''"
proof -
  have calls: "sinks_set (\<lambda>_. True) [] True (Some sample_sink) [stereo_config, stereo_config\<lparr>sc_channels := 6\<rparr>] = [''null2'', ''speakers'']"
    by code_simp
  have host: "si_host sample_sink = ''speakers''" by (simp add: sample_sink_def)
  show ?thesis
    using audio_sink_restored [of sample_sink "\<lambda>_. True" "[]" True "[stereo_config, stereo_config\<lparr>sc_channels := 6\<rparr>]"]
    by (simp add: calls host)
qed

text \<open>The duration of the packets is the client's: from 44740 ms on the computation of the frame size overflows.\<close>

lemma frame_size_overflow:
  "44740 \<le> sc_packetDuration config \<Longrightarrow> os_sampleRate (capture_stream config) = SAMPLE_RATE \<Longrightarrow> frame_size config = None"
  by (simp add: frame_size_def SAMPLE_RATE_def)

end
