(* ===== verification/Stream_Audio_Props.thy ===== *)
theory Stream_Audio_Props
  imports Stream_Audio Sample_Coder Audio_Props
begin

text \<open>
  Properties of the audio stream: the client recovers every block from any four of its six packets,
  and the vectors of the encryption have the period of the sequence number.
\<close>

unbundle bit_operations_syntax

section \<open>Numbers of packets\<close>

lemma unat_seq_mod: "unat (of_nat k :: u16) mod 4 = k mod 4"
  by (simp add: unat_of_nat mod_mod_cancel)

lemma unat_seq_next: "(unat (of_nat k :: u16) + 1) mod 4 = (k + 1) mod 4"
  using unat_seq_mod [of k] by (metis mod_add_left_eq)

lemma seq_base: "(of_nat k :: u16) div 4 * 4 = of_nat (k - k mod 4)"
proof -
  have div: "(k mod 65536) div 4 = k div 4 mod 16384"
    using mod_mult2_eq [of k 4 16384] by simp
  have "unat ((of_nat k :: u16) div 4) = (k mod 65536) div 4" by (simp add: unat_div unat_of_nat)
  moreover have "(k mod 65536) div 4 * 4 < 65536" using div by simp
  ultimately have "unat ((of_nat k :: u16) div 4 * 4) = (k mod 65536) div 4 * 4"
    by (simp add: unat_word_ariths)
  also have "\<dots> = (k - k mod 4) mod 65536"
    using mult_mod_left [of "k div 4" 16384 4] div by (simp add: minus_mod_eq_div_mult)
  also have "\<dots> = unat (of_nat (k - k mod 4) :: u16)" by (simp only: unat_of_nat) simp
  finally show ?thesis by (simp add: word_unat_eq_iff)
qed

lemma seq_in_block: "(of_nat k :: u16) - of_nat (k - k mod 4) = of_nat (k mod 4)"
  by (metis add_diff_cancel_left' add.commute le_add_diff_inverse mod_less_eq_dividend of_nat_add)

lemma ucast_small: "i < 4 \<Longrightarrow> (ucast (of_nat i :: u16) :: u32) = of_nat i \<and> unat (of_nat i :: u16) = i"
proof -
  assume "i < 4"
  then consider "i = 0" | "i = 1" | "i = 2" | "i = 3" by linarith
  then show ?thesis by cases simp_all
qed

section \<open>The packets of a session\<close>

text \<open>
  The parameters of a session: its encryption, key identifier and packet duration; and what is
  expected of the ciphers and of the coder.
\<close>

record audio_params =
  ap_enc :: bool
  ap_key :: u32
  ap_duration :: int

text \<open>AES-CBC with padding: decryption inverts encryption, the length depends only on that of the text.\<close>

definition cbc_lawful :: "cbc_fun \<Rightarrow> (bytes \<Rightarrow> bytes \<Rightarrow> bytes) \<Rightarrow> bool" where
  "cbc_lawful cbc decrypt \<longleftrightarrow>
     (\<forall>iv p. \<exists>c. cbc iv p = Some c \<and> decrypt iv c = p \<and> length c = (length p div 16 + 1) * 16)"

text \<open>A coder for four data and two parity shards: any four of the six shards give the data back.\<close>

definition coder_lawful :: "(bytes list \<Rightarrow> bytes list) \<Rightarrow> ((nat \<Rightarrow> bytes option) \<Rightarrow> bytes list) \<Rightarrow> bool" where
  "coder_lawful rs reconstruct \<longleftrightarrow>
     (\<forall>n ds. length ds = 4 \<longrightarrow> list_all (\<lambda>d. length d = n) ds \<longrightarrow>
        length (rs ds) = 2 \<and> list_all (\<lambda>d. length d = n) (rs ds) \<and>
        (\<forall>m. dom m \<subseteq> {..<6} \<longrightarrow> (\<forall>i\<in>dom m. m i = Some ((ds @ rs ds) ! i)) \<longrightarrow> 4 \<le> card (dom m) \<longrightarrow> reconstruct m = ds))"

text \<open>The datagrams the packet with number \<open>k\<close> and the coded data of its block should give.\<close>

definition seq_at :: "nat \<Rightarrow> u16" where "seq_at k = of_nat k"
definition time_at :: "int \<Rightarrow> nat \<Rightarrow> u32" where "time_at duration k = of_nat k * of_int duration"

definition data_packet :: "int \<Rightarrow> nat \<Rightarrow> bytes \<Rightarrow> bytes" where
  "data_packet duration k d = rtp_header 97 (seq_at k) (time_at duration k) @ d"

definition parity_packet :: "int \<Rightarrow> nat \<Rightarrow> nat \<Rightarrow> bytes \<Rightarrow> bytes" where
  "parity_packet duration base x d =
     rtp_header 127 (seq_at (base + 3) + of_nat x + 1) 0 @ audio_fec_header x (seq_at base) (time_at duration base) @ d"

definition coded :: "cbc_fun \<Rightarrow> audio_params \<Rightarrow> nat \<Rightarrow> bytes \<Rightarrow> bytes" where
  "coded cbc ap k p = (if ap_enc ap then the (cbc (audio_iv (ap_key ap) (seq_at k)) p) else p)"

definition round_packets :: "(bytes list \<Rightarrow> bytes list) \<Rightarrow> int \<Rightarrow> bytes list \<Rightarrow> nat \<Rightarrow> bytes list" where
  "round_packets rs duration ds k =
     data_packet duration k (ds ! k) #
     (if k mod 4 = 3 then map2 (parity_packet duration (k - 3)) [0, 1] (rs (take 4 (drop (k - 3) ds))) else [])"

text \<open>The state after \<open>k\<close> packets with the coded data \<open>ds\<close>, each of \<open>n\<close> bytes.\<close>

definition audio_inv :: "audio_params \<Rightarrow> nat \<Rightarrow> bytes list \<Rightarrow> nat \<Rightarrow> audio_channel \<Rightarrow> bool" where
  "audio_inv ap n ds k ch \<longleftrightarrow>
     ac_encrypted ch = ap_enc ap \<and> ac_avRiKeyId ch = ap_key ap \<and> ac_packetDuration ch = ap_duration ap \<and>
     ac_sequenceNumber ch = seq_at k \<and> ac_timestamp ch = time_at (ap_duration ap) k \<and>
     length (ac_shards ch) = 6 \<and> list_all (\<lambda>s. length s = max_block_size) (ac_shards ch) \<and>
     (\<forall>i < k mod 4. take n (ac_shards ch ! i) = ds ! (k - k mod 4 + i)) \<and>
     (k mod 4 \<noteq> 0 \<longrightarrow> ac_baseSequenceNumber ch = seq_at (k - k mod 4) \<and>
        ac_baseTimestamp ch = time_at (ap_duration ap) (k - k mod 4))"

lemma seq_at_mod: "unat (seq_at k) mod 4 = k mod 4" "Suc (unat (seq_at k)) mod 4 = Suc k mod 4"
  using unat_seq_mod [of k] unat_seq_next [of k] by (simp_all add: seq_at_def)

lemma seq_at_Suc: "seq_at k + 1 = seq_at (Suc k)"
  by (simp add: seq_at_def add.commute)

lemma time_at_Suc: "time_at d k + of_int d = time_at d (Suc k)"
  by (simp add: time_at_def algebra_simps)

lemma write_front: "length d \<le> length s \<Longrightarrow> take (length d) (write_at 0 d s) = d"
  by (simp add: write_at_def)

text \<open>One round of the thread.\<close>

lemma coder_lawfulD:
  assumes "coder_lawful rs reconstruct" and "length ds = 4" and "list_all (\<lambda>d. length d = n) ds"
  shows "length (rs ds) = 2" and "length (rs ds ! 0) = n" and "length (rs ds ! 1) = n"
proof -
  have rs: "length (rs ds) = 2 \<and> list_all (\<lambda>d. length d = n) (rs ds)"
    using assms unfolding coder_lawful_def by blast
  show "length (rs ds) = 2" using rs by simp
  show "length (rs ds ! 0) = n" "length (rs ds ! 1) = n" using rs by (simp_all add: list_all_length)
qed

lemma block_full:
  assumes "length xs = 4" and "xs ! 0 = a" and "xs ! 1 = b" and "xs ! 2 = c" and "xs ! 3 = d"
  shows "xs = [a, b, c, d]"
  using assms by (auto simp: length_Suc_conv numeral_eq_Suc)

lemma send_audio_step:
  assumes inv: "audio_inv ap n ds k ch" and k: "k < length ds" and len: "list_all (\<lambda>d. length d = n) ds"
    and n: "n \<le> max_block_size" and lawful: "coder_lawful rs reconstruct"
    and enc: "encode_audio (ap_enc ap) cbc (audio_iv (ap_key ap) (seq_at k)) p = Some (ds ! k)"
  shows "\<exists>ch'. send_audio cbc rs (\<lambda>_. False) ch p = Some (round_packets rs (ap_duration ap) ds k, ch') \<and>
    audio_inv ap n ds (Suc k) ch'"
proof -
  let ?d = "ds ! k" and ?slot = "k mod 4"
  define shards where "shards = (ac_shards ch)[?slot := write_at 0 ?d (ac_shards ch ! ?slot)]"
  define ch1 where "ch1 = ch\<lparr>ac_shards := shards, ac_sequenceNumber := seq_at (Suc k),
      ac_timestamp := time_at (ap_duration ap) (Suc k)\<rparr>"
  define ch2 where "ch2 = (if ?slot = 0 then ch1\<lparr>ac_baseSequenceNumber := seq_at k,
      ac_baseTimestamp := time_at (ap_duration ap) k\<rparr> else ch1)"
  have d: "length ?d = n" using len k by (simp add: list_all_length)
  have slot: "?slot < length (ac_shards ch)" "length (ac_shards ch ! ?slot) = max_block_size"
    using inv mod_less_divisor [of 4 k] by (auto simp: audio_inv_def list_all_length)
  have shards: "length shards = 6" "list_all (\<lambda>s. length s = max_block_size) shards"
    using inv d n slot by (auto simp: audio_inv_def shards_def list_all_length nth_list_update write_at_def)
  have front: "take n (shards ! i) = ds ! (k - ?slot + i)" if "i \<le> ?slot" for i
  proof (cases "i = ?slot")
    case True
    then show ?thesis using slot d n write_front [of ?d "ac_shards ch ! ?slot"] by (simp add: shards_def)
  next
    case False
    then show ?thesis using inv that by (simp add: audio_inv_def shards_def)
  qed
  have base: "ac_baseSequenceNumber ch2 = seq_at (k - ?slot)" "ac_baseTimestamp ch2 = time_at (ap_duration ap) (k - ?slot)"
    using inv by (auto simp: audio_inv_def ch2_def ch1_def)
  have ch2: "ac_shards ch2 = shards" "ac_encrypted ch2 = ap_enc ap" "ac_avRiKeyId ch2 = ap_key ap"
    "ac_packetDuration ch2 = ap_duration ap" "ac_sequenceNumber ch2 = seq_at (Suc k)"
    "ac_timestamp ch2 = time_at (ap_duration ap) (Suc k)"
    using inv by (auto simp: audio_inv_def ch2_def ch1_def)
  have packet: "rtp_header 97 (seq_at k) (time_at (ap_duration ap) k) @ take n (shards ! ?slot) = data_packet (ap_duration ap) k ?d"
    using front [of ?slot] by (simp add: data_packet_def)
  have run: "send_audio cbc rs (\<lambda>_. False) ch p =
    (if Suc k mod 4 = 0
     then let ch3 = ch2\<lparr>ac_shards := encode_shards rs n shards\<rparr>
          in Some (data_packet (ap_duration ap) k ?d #
            map (\<lambda>x. audio_fec_packet (seq_at k) x ch3 (take n (encode_shards rs n shards ! (4 + x)))) [0..<2], ch3)
     else Some ([data_packet (ap_duration ap) k ?d], ch2))"
    using inv enc d packet
    by (simp add: send_audio_def audio_inv_def Let_def seq_at_mod seq_at_Suc time_at_Suc RTPA_DATA_SHARDS_def RTPA_FEC_SHARDS_def
        comp_def ch2_def ch1_def shards_def [symmetric])
  show ?thesis
  proof (cases "Suc k mod 4 = 0")
    case False
    then have Suc: "Suc k mod 4 = Suc ?slot" "k mod 4 \<noteq> 3"
      by (auto simp: mod_Suc)
    have "audio_inv ap n ds (Suc k) ch2"
      unfolding audio_inv_def Suc(1) diff_Suc_Suc
      using shards base ch2 front by (simp add: less_Suc_eq_le)
    then show ?thesis using run False Suc(2) by (simp add: round_packets_def)
  next
    case True
    then have three: "?slot = 3" by (auto simp: mod_Suc split: if_splits)
    have data: "map (take n) (take 4 shards) = take 4 (drop (k - 3) ds)"
    proof (rule nth_equalityI)
      fix i assume "i < length (map (take n) (take 4 shards))"
      then show "map (take n) (take 4 shards) ! i = take 4 (drop (k - 3) ds) ! i"
        using front [of i] three k shards(1) by simp
    qed (use three k shards(1) mod_less_eq_dividend [of k 4] in simp)
    define ds4 where "ds4 = take 4 (drop (k - 3) ds)"
    have ds4: "length ds4 = 4" "list_all (\<lambda>d. length d = n) ds4"
      using three k len mod_less_eq_dividend [of k 4] by (auto simp: ds4_def list_all_length)
    note parity = coder_lawfulD [OF lawful ds4]
    have enc_shards: "encode_shards rs n shards = take 4 shards @ map2 (write_at 0) (rs ds4) (drop 4 shards)"
      by (simp add: encode_shards_def RTPA_DATA_SHARDS_def data ds4_def)
    have nth: "encode_shards rs n shards ! (4 + x) = write_at 0 (rs ds4 ! x) (shards ! (4 + x))" if "x < 2" for x
      using that shards parity(1) by (simp add: enc_shards nth_append)
    have room: "length (shards ! (4 + x)) = max_block_size" if "x < 2" for x
      using that shards by (simp add: list_all_length)
    have plen: "length (rs ds4 ! x) = n" if "x < 2" for x
      using that parity by (auto simp: less_2_cases_iff)
    have taken: "take n (encode_shards rs n shards ! (4 + x)) = rs ds4 ! x" if "x < 2" for x
      using write_front [of "rs ds4 ! x" "shards ! (4 + x)"] nth [OF that] room [OF that] plen [OF that] n by simp
    have len_enc: "list_all (\<lambda>s. length s = max_block_size) (encode_shards rs n shards)" "length (encode_shards rs n shards) = 6"
    proof -
      show "length (encode_shards rs n shards) = 6" using shards parity(1) by (simp add: enc_shards)
      have "length (write_at 0 (rs ds4 ! (m - 4)) (shards ! m)) = max_block_size" if "\<not> m < 4" "m < 6" for m
        using room [of "m - 4"] plen [of "m - 4"] n that by (simp add: write_at_def)
      then show "list_all (\<lambda>s. length s = max_block_size) (encode_shards rs n shards)"
        using shards parity(1) by (auto simp: enc_shards list_all_length nth_append)
    qed
    have three_le: "k - 3 + 3 = k" using three mod_less_eq_dividend [of k 4] by simp
    have two: "[0..<2] = [0, 1 :: nat]" by (simp add: upt_rec)
    have pair: "rs ds4 = [rs ds4 ! 0, rs ds4 ! 1]" using parity(1) by (auto simp: length_Suc_conv numeral_eq_Suc)
    have fec: "map (\<lambda>x. audio_fec_packet (seq_at k) x (ch2\<lparr>ac_shards := encode_shards rs n shards\<rparr>)
        (take n (encode_shards rs n shards ! (4 + x)))) [0..<2] =
      map2 (parity_packet (ap_duration ap) (k - 3)) [0, 1] (rs ds4)"
      using taken [of 0] taken [of 1] base three three_le
      by (subst pair) (simp add: two audio_fec_packet_def parity_packet_def)
    have "audio_inv ap n ds (Suc k) (ch2\<lparr>ac_shards := encode_shards rs n shards\<rparr>)"
      using len_enc ch2 True by (simp add: audio_inv_def)
    then show ?thesis using run True fec three by (simp add: Let_def round_packets_def ds4_def)
  qed
qed

text \<open>The thread, for several sessions: each of them gets the packets it would get alone.\<close>

definition of_session :: "nat \<Rightarrow> (nat \<times> 'a) list \<Rightarrow> 'a list" where
  "of_session s xs = map snd (filter (\<lambda>(t, _). t = s) xs)"

lemma of_session_simps [simp]:
  "of_session s [] = []" "of_session s ((t, x) # xs) = (if t = s then [x] else []) @ of_session s xs"
  "of_session s (xs @ ys) = of_session s xs @ of_session s ys"
  "of_session s (map (Pair t) zs) = (if t = s then zs else [])"
  by (simp_all add: of_session_def comp_def filter_map)

lemma send_audio_succeeds:
  assumes "cbc_lawful cbc decrypt"
  shows "send_audio cbc rs throws ch p \<noteq> None"
proof -
  obtain d where "encode_audio (ac_encrypted ch) cbc (audio_iv (ac_avRiKeyId ch) (ac_sequenceNumber ch)) p = Some d"
    using assms unfolding cbc_lawful_def encode_audio_def by (cases "ac_encrypted ch") auto
  then show ?thesis by (simp add: send_audio_def Let_def)
qed

lemma audio_thread_session:
  assumes lawful: "\<And>t. cbc_lawful (cbc t) (decrypt t)"
    and coder: "coder_lawful rs reconstruct" and n: "n \<le> max_block_size"
    and ds: "list_all (\<lambda>d. length d = n) ds"
    and coded: "\<And>i. i < length (of_session s packets) \<Longrightarrow>
      encode_audio (ap_enc ap) (cbc s) (audio_iv (ap_key ap) (seq_at (k + i))) (of_session s packets ! i) = Some (ds ! (k + i))"
    and len: "k + length (of_session s packets) = length ds"
    and inv: "audio_inv ap n ds k (st s)"
    and run: "audio_thread cbc rs (\<lambda>_. False) packets st = (out, st', failed)"
  shows "of_session s out = concat (map (round_packets rs (ap_duration ap) ds) [k..<length ds]) \<and> \<not> failed"
  using coded len inv run
proof (induction packets arbitrary: k st out st' failed)
  case Nil
  then show ?case by simp
next
  case (Cons tp packets)
  obtain t p where tp: "tp = (t, p)" by fastforce
  obtain out1 ch where send: "send_audio (cbc t) rs (\<lambda>_. False) (st t) p = Some (out1, ch)"
    using send_audio_succeeds [OF lawful [of t]] by fastforce
  obtain rest st2 f where rest: "audio_thread cbc rs (\<lambda>_. False) packets (st(t := ch)) = (rest, st2, f)"
    using prod_cases3 by blast
  have out: "out = map (Pair t) out1 @ rest" "failed = f"
    using Cons.prems(4) send rest by (simp_all add: tp)
  show ?case
  proof (cases "t = s")
    case False
    then show ?thesis
      using Cons.IH [OF _ _ _ rest, of k] Cons.prems(1-3) by (simp add: tp out)
  next
    case True
    have k: "k < length ds" using Cons.prems(2) True by (simp add: tp)
    have enc: "encode_audio (ap_enc ap) (cbc s) (audio_iv (ap_key ap) (seq_at k)) p = Some (ds ! k)"
      using Cons.prems(1) [of 0] True by (simp add: tp)
    from send_audio_step [OF Cons.prems(3) k ds n coder enc] send True
    have out1: "out1 = round_packets rs (ap_duration ap) ds k" and inv': "audio_inv ap n ds (Suc k) ch" by auto
    have "of_session s rest = concat (map (round_packets rs (ap_duration ap) ds) [Suc k..<length ds]) \<and> \<not> f"
    proof (rule Cons.IH [OF _ _ _ rest])
      fix i assume "i < length (of_session s packets)"
      then show "encode_audio (ap_enc ap) (cbc s) (audio_iv (ap_key ap) (seq_at (Suc k + i))) (of_session s packets ! i) = Some (ds ! (Suc k + i))"
        using Cons.prems(1) [of "Suc i"] True by (simp add: tp)
    qed (use Cons.prems(2) True inv' in \<open>simp_all add: tp\<close>)
    then show ?thesis using out out1 True k by (simp add: upt_conv_Cons)
  qed
qed

section \<open>What the client sees\<close>

lemma read_at_parts: "off = length a \<Longrightarrow> n = length b \<Longrightarrow> read_at off n (a @ b @ c) = b"
  by (simp add: read_at_def)

lemma rtp_header_parts:
  "length (rtp_header t s ts) = 12" "(rtp_header t s ts @ d) ! 1 = t" "rtp_header t s ts ! 1 = t"
  "read_at 2 2 (rtp_header t s ts @ d) = be_bytes 2 s" "read_at 4 4 (rtp_header t s ts @ d) = be_bytes 4 ts"
proof -
  show "length (rtp_header t s ts) = 12" "(rtp_header t s ts @ d) ! 1 = t" "rtp_header t s ts ! 1 = t" by (simp_all add: rtp_header_def)
  show "read_at 2 2 (rtp_header t s ts @ d) = be_bytes 2 s"
    using read_at_parts [of 2 "[0x80, t]" 2 "be_bytes 2 s" "be_bytes 4 ts @ [0, 0, 0, 0] @ d"] by (simp add: rtp_header_def)
  show "read_at 4 4 (rtp_header t s ts @ d) = be_bytes 4 ts"
    using read_at_parts [of 4 "[0x80, t] @ be_bytes 2 s" 4 "be_bytes 4 ts" "[0, 0, 0, 0] @ d"] by (simp add: rtp_header_def)
qed

lemma audio_fec_header_parts:
  "length (audio_fec_header x s ts) = 12" "audio_fec_header x s ts ! 0 = of_nat x"
  "read_at 2 2 (audio_fec_header x s ts @ d) = be_bytes 2 s" "read_at 4 4 (audio_fec_header x s ts @ d) = be_bytes 4 ts"
proof -
  show "length (audio_fec_header x s ts) = 12" "audio_fec_header x s ts ! 0 = of_nat x" by (simp_all add: audio_fec_header_def)
  show "read_at 2 2 (audio_fec_header x s ts @ d) = be_bytes 2 s"
    using read_at_parts [of 2 "[of_nat x, 97]" 2 "be_bytes 2 s" "be_bytes 4 ts @ [0, 0, 0, 0] @ d"]
    by (simp add: audio_fec_header_def)
  show "read_at 4 4 (audio_fec_header x s ts @ d) = be_bytes 4 ts"
    using read_at_parts [of 4 "[of_nat x, 97] @ be_bytes 2 s" 4 "be_bytes 4 ts" "[0, 0, 0, 0] @ d"]
    by (simp add: audio_fec_header_def)
qed

lemma read_at_behind: "length a = k \<Longrightarrow> k \<le> off \<Longrightarrow> read_at off n (a @ b) = read_at (off - k) n b"
  by (simp add: read_at_def)

lemma time_at_base: "time_at dur k - of_nat (k mod 4) * of_int dur = time_at dur (k - k mod 4)"
proof -
  have "(of_nat k :: u32) = of_nat (k - k mod 4) + of_nat (k mod 4)"
    by (metis le_add_diff_inverse2 mod_less_eq_dividend of_nat_add)
  then show ?thesis by (simp add: time_at_def algebra_simps)
qed

lemma parse_data_packet:
  "client_audio_packet (of_int dur) (data_packet dur k d) = Some (seq_at (k - k mod 4), time_at dur (k - k mod 4), k mod 4, d)"
proof -
  have seq: "seq_at k - seq_at (k - k mod 4) = of_nat (k mod 4)" by (simp only: seq_at_def seq_in_block)
  have base: "(seq_at k div 4) * 4 = seq_at (k - k mod 4)" by (simp only: seq_at_def seq_base)
  show ?thesis
    using ucast_small [of "k mod 4"]
    by (simp add: client_audio_packet_def data_packet_def rtp_header_parts Let_def base seq time_at_base del: One_nat_def)
qed

lemma parse_parity_packet:
  assumes "k mod 4 = 0" and "x < 2"
  shows "client_audio_packet D (parity_packet dur k x d) = Some (seq_at k, time_at dur k, 4 + x, d)"
proof -
  let ?p = "parity_packet dur k x d"
  have at: "?p ! 12 = of_nat x" and base: "read_at 14 2 ?p = be_bytes 2 (seq_at k)"
    and ts: "read_at 16 4 ?p = be_bytes 4 (time_at dur k)" and rest: "drop 24 ?p = d" and len: "24 \<le> length ?p"
    and type: "?p ! 1 = 127"
    by (simp_all add: parity_packet_def nth_append rtp_header_parts audio_fec_header_parts read_at_behind [of _ 12] del: One_nat_def)
  have "unat (seq_at k mod 4) = 0" using seq_at_mod(1) [of k] assms(1) by (simp add: unat_mod)
  then have "seq_at k mod 4 = 0" by (simp add: unat_eq_0)
  moreover have "unat (of_nat x :: u8) = x" using assms(2) by (auto simp: less_2_cases_iff)
  ultimately show ?thesis
    using at base ts rest len type assms(2) by (simp add: client_audio_packet_def Let_def RTPA_DATA_SHARDS_def del: One_nat_def)
qed

section \<open>A block\<close>

text \<open>The six packets of the block that starts at \<open>k\<close>, by their place.\<close>

definition block_packet :: "(bytes list \<Rightarrow> bytes list) \<Rightarrow> int \<Rightarrow> bytes list \<Rightarrow> nat \<Rightarrow> nat \<Rightarrow> bytes" where
  "block_packet rs dur ds k i =
     (if i < 4 then data_packet dur (k + i) (ds ! (k + i))
      else parity_packet dur k (i - 4) (rs (take 4 (drop k ds)) ! (i - 4)))"

lemma upt_4: "[k..<k + 4] = [k, k + 1, k + 2, k + 3]"
  by (simp add: upt_conv_Cons numeral_eq_Suc)

lemma block_packets:
  assumes "k mod 4 = 0" and "length (rs (take 4 (drop k ds))) = 2"
  shows "concat (map (round_packets rs dur ds) [k..<k + 4]) = map (block_packet rs dur ds k) [0..<6]"
proof -
  have mods: "(k + 1) mod 4 = 1" "(k + 2) mod 4 = 2" "(k + 3) mod 4 = 3"
    using assms(1) by presburger+
  obtain a b where ab: "rs (take 4 (drop k ds)) = [a, b]"
    using assms(2) by (auto simp: length_Suc_conv numeral_eq_Suc)
  have six: "[0..<6] = [0, 1, 2, 3, 4, 5 :: nat]" by (simp add: upt_rec)
  show ?thesis
    unfolding upt_4 six
    using assms(1) mods by (simp add: round_packets_def block_packet_def ab)
qed

lemma parse_block_packet:
  assumes "k mod 4 = 0" and "i < 6" and "length (rs (take 4 (drop k ds))) = 2" and "k + 4 \<le> length ds"
  shows "client_audio_packet (of_int dur) (block_packet rs dur ds k i) =
    Some (seq_at k, time_at dur k, i, (take 4 (drop k ds) @ rs (take 4 (drop k ds))) ! i)"
proof (cases "i < 4")
  case True
  then have "(k + i) mod 4 = i" using assms(1) by (simp add: mod_add_left_eq [symmetric, of k])
  then show ?thesis
    using True assms(4) parse_data_packet [of dur "k + i" "ds ! (k + i)"] by (simp add: block_packet_def nth_append)
next
  case False
  then show ?thesis
    using parse_parity_packet [OF assms(1), of "i - 4"] assms(2,4) by (simp add: block_packet_def nth_append)
qed

lemma shards_of_block:
  assumes k: "k mod 4 = 0" and two: "length (rs (take 4 (drop k ds))) = 2" and room: "k + 4 \<le> length ds"
    and ps: "set ps \<subseteq> set (map (block_packet rs dur ds k) [0..<6])"
  defines "found \<equiv> List.map_filter (client_audio_packet (of_int dur)) ps"
  defines "m \<equiv> map_of (map (\<lambda>(_, _, i, s). (i, s)) found)"
  shows "dom m \<subseteq> {..<6}" and "\<forall>i\<in>dom m. m i = Some ((take 4 (drop k ds) @ rs (take 4 (drop k ds))) ! i)"
    and "card (set ps) \<le> card (dom m)" and "\<forall>x\<in>set found. fst x = seq_at k \<and> fst (snd x) = time_at dur k"
proof -
  let ?all = "take 4 (drop k ds) @ rs (take 4 (drop k ds))"
  have parse: "\<exists>i < 6. p = block_packet rs dur ds k i \<and>
      client_audio_packet (of_int dur) p = Some (seq_at k, time_at dur k, i, ?all ! i)" if in_ps: "p \<in> set ps" for p
  proof -
    obtain i where "i < 6" "p = block_packet rs dur ds k i" using subsetD [OF ps in_ps] by auto
    then show ?thesis using parse_block_packet [where k = k and ds = ds and rs = rs and dur = dur and i = i] k two room by blast
  qed
  have found: "set found = {x. \<exists>p\<in>set ps. client_audio_packet (of_int dur) p = Some x}"
    by (force simp: found_def List.map_filter_def)
  have elem: "\<exists>i < 6. x = (seq_at k, time_at dur k, i, ?all ! i)" if "x \<in> set found" for x
    using that parse unfolding found by fastforce
  have pairs: "\<exists>j < 6. (i, s) = (j, ?all ! j)" if "(i, s) \<in> set (map (\<lambda>(_, _, i, s). (i, s)) found)" for i s
    using that elem by fastforce
  then have m: "i < 6 \<and> s = ?all ! i" if "m i = Some s" for i s
    using map_of_SomeD that unfolding m_def by fastforce
  show "dom m \<subseteq> {..<6}" "\<forall>i\<in>dom m. m i = Some (?all ! i)" using m by auto
  show "\<forall>x\<in>set found. fst x = seq_at k \<and> fst (snd x) = time_at dur k" using elem by fastforce
  have "set ps \<subseteq> block_packet rs dur ds k ` dom m"
  proof
    fix p assume "p \<in> set ps"
    then obtain i where i: "p = block_packet rs dur ds k i"
      "client_audio_packet (of_int dur) p = Some (seq_at k, time_at dur k, i, ?all ! i)"
      using parse by blast
    then have "(seq_at k, time_at dur k, i, ?all ! i) \<in> set found" using \<open>p \<in> set ps\<close> found by blast
    then have "(i, ?all ! i) \<in> set (map (\<lambda>(_, _, i, s). (i, s)) found)"
      using imageI [of "(seq_at k, time_at dur k, i, ?all ! i)" "set found" "\<lambda>(_, _, i, s). (i, s)"] by simp
    then have "i \<in> dom m" unfolding m_def dom_map_of_conv_image_fst by (rule image_eqI [rotated]) simp
    then show "p \<in> block_packet rs dur ds k ` dom m" using i(1) by blast
  qed
  moreover have "finite (dom m)" by (simp add: m_def finite_dom_map_of)
  ultimately show "card (set ps) \<le> card (dom m)" by (meson surj_card_le)
qed

lemma rounds_length:
  assumes "coder_lawful rs reconstruct" and "list_all (\<lambda>d. length d = n) ds"
  shows "4 * j \<le> length ds \<Longrightarrow> length (concat (map (round_packets rs dur ds) [0..<4 * j])) = 6 * j"
proof (induction j)
  case (Suc j)
  then have "4 * j + 4 \<le> length ds" by simp
  then have "length (rs (take 4 (drop (4 * j) ds))) = 2"
    using assms by (intro coder_lawfulD(1) [OF assms(1)]) (auto simp: list_all_length)
  then have "length (concat (map (round_packets rs dur ds) [4 * j..<4 * j + 4])) = 6"
    using block_packets [of "4 * j" rs ds dur] by simp
  moreover have "[0..<4 * Suc j] = [0..<4 * j] @ [4 * j..<4 * j + 4]"
    using upt_add_eq_append [of 0 "4 * j" 4] by (simp add: add.commute)
  ultimately show ?case using Suc by simp
qed simp

lemma rounds_block:
  assumes coder: "coder_lawful rs reconstruct" and ds: "list_all (\<lambda>d. length d = n) ds" and room: "4 * j + 4 \<le> length ds"
  shows "take 6 (drop (6 * j) (concat (map (round_packets rs dur ds) [0..<length ds]))) =
    map (block_packet rs dur ds (4 * j)) [0..<6]"
proof -
  let ?R = "\<lambda>k l. concat (map (round_packets rs dur ds) [k..<l])"
  have two: "length (rs (take 4 (drop (4 * j) ds))) = 2"
    using assms by (intro coder_lawfulD(1) [OF coder]) (auto simp: list_all_length)
  have "[0..<length ds] = [0..<4 * j] @ [4 * j..<4 * j + 4] @ [4 * j + 4..<length ds]"
    using room by (metis (no_types) add.commute le_Suc_ex upt_add_eq_append zero_le append.assoc)
  then have "?R 0 (length ds) = ?R 0 (4 * j) @ ?R (4 * j) (4 * j + 4) @ ?R (4 * j + 4) (length ds)" by simp
  moreover have "length (?R 0 (4 * j)) = 6 * j" using rounds_length [OF coder ds] room by simp
  moreover have "?R (4 * j) (4 * j + 4) = map (block_packet rs dur ds (4 * j)) [0..<6]"
    using block_packets [of "4 * j" rs ds dur] two by simp
  ultimately show ?thesis by simp
qed

text \<open>The client's frames from any four packets of a block.\<close>

lemma client_block:
  assumes coder: "coder_lawful rs reconstruct" and ds: "list_all (\<lambda>d. length d = n) ds"
    and k: "k mod 4 = 0" and room: "k + 4 \<le> length ds"
    and ps: "set ps \<subseteq> set (map (block_packet rs dur ds k) [0..<6])" and four: "4 \<le> card (set ps)"
  shows "client_audio_frames reconstruct decrypt (of_int dur) enc key (List.map_filter (client_audio_packet (of_int dur)) ps) =
    map (\<lambda>i. (seq_at (k + i), time_at dur (k + i),
      if enc then decrypt (audio_iv key (seq_at (k + i))) (ds ! (k + i)) else ds ! (k + i))) [0..<4]"
proof -
  let ?D = "take 4 (drop k ds)"
  have D: "length ?D = 4" "list_all (\<lambda>d. length d = n) ?D" using ds room by (auto simp: list_all_length)
  have two: "length (rs ?D) = 2" by (rule coder_lawfulD(1) [OF coder D])
  define found where "found = List.map_filter (client_audio_packet (of_int dur)) ps"
  note shards = shards_of_block [OF k two room ps, folded found_def]
  have rec: "reconstruct (map_of (map (\<lambda>(_, _, i, s). (i, s)) found)) = ?D"
    using coder D shards(1-3) four unfolding coder_lawful_def by (meson le_trans)
  have "found \<noteq> []" using shards(3) four by auto
  then obtain x xs where found: "found = x # xs" by (cases found) auto
  obtain i s where x: "x = (seq_at k, time_at dur k, i, s)" using shards(4) found by (cases x) auto
  have seq: "seq_at k + of_nat i = seq_at (k + i)" "time_at dur k + of_nat i * of_int dur = time_at dur (k + i)" for i
    by (simp_all add: seq_at_def time_at_def algebra_simps)
  have "dom (map_of (map (\<lambda>(_, _, i, s). (i, s)) found)) = set (map (\<lambda>(_, _, i, _). i) found)"
    by (force simp: dom_map_of_conv_image_fst)
  then have enough: "4 \<le> length (remdups (map (\<lambda>(_, _, i, _). i) found))"
    using shards(3) four by (simp add: length_remdups_card_conv)
  have "client_audio_frames reconstruct decrypt (of_int dur) enc key found =
    map2 (\<lambda>i s. (seq_at (k + i), time_at dur (k + i), if enc then decrypt (audio_iv key (seq_at (k + i))) s else s)) [0..<4] ?D"
    using rec enough by (cases enc) (simp_all add: client_audio_frames_def Let_def found x seq RTPA_DATA_SHARDS_def)
  also have "\<dots> = map (\<lambda>i. (seq_at (k + i), time_at dur (k + i),
      if enc then decrypt (audio_iv key (seq_at (k + i))) (ds ! (k + i)) else ds ! (k + i))) [0..<4]"
    using D(1) by (intro nth_equalityI) simp_all
  finally show ?thesis by (simp only: found_def)
qed

text \<open>Before its first block is complete, the client takes exactly the packets that are not before the block it starts at.\<close>

lemma client_receives:
  assumes "ca_oldest q \<noteq> 0"
    and "\<And>p. p \<in> set ps \<Longrightarrow> \<exists>x. client_audio_packet dur p = Some x \<and> (p \<in> B \<longleftrightarrow> \<not> isBefore16 (fst x) (ca_oldest q))"
  shows "client_audio_receive dur q ps = List.map_filter (client_audio_packet dur) (filter (\<lambda>p. p \<in> B) ps)"
  using assms(2)
proof (induction ps)
  case (Cons p ps)
  have IH: "client_audio_receive dur q ps = List.map_filter (client_audio_packet dur) (filter (\<lambda>p. p \<in> B) ps)"
    by (rule Cons.IH) (rule Cons.prems, simp)
  obtain base shard where "client_audio_packet dur p = Some (base, shard)" "p \<in> B \<longleftrightarrow> \<not> isBefore16 base (ca_oldest q)"
    using Cons.prems [of p] by auto
  then show ?case using IH assms(1) by (cases "p \<in> B") (simp_all add: List.map_filter_simps)
qed (simp add: List.map_filter_simps)

lemma before_first_block:
  assumes "i < j" and "j \<le> i + 8192"
  shows "\<not> isBefore16 (seq_at (4 * j)) (seq_at (4 * i) + 4)" and "isBefore16 (seq_at (4 * i)) (seq_at (4 * i) + 4)"
proof -
  obtain d where d: "j = i + 1 + d" using assms(1) by (metis add.commute less_iff_Suc_add Suc_eq_plus1 add.assoc)
  have "seq_at (4 * j) - (seq_at (4 * i) + 4) = of_nat (4 * d)" by (simp add: seq_at_def d algebra_simps)
  moreover have "4 * d < 32768" using assms(2) d by simp
  ultimately show "\<not> isBefore16 (seq_at (4 * j)) (seq_at (4 * i) + 4)"
    by (simp add: isBefore16_def word_less_nat_alt unat_of_nat take_bit_nat_def del: of_nat_mult)
  have "seq_at (4 * i) - (seq_at (4 * i) + 4) = - 4" by simp
  then show "isBefore16 (seq_at (4 * i)) (seq_at (4 * i) + 4)" by (simp add: isBefore16_def)
qed

text \<open>The vectors of two packets are the same exactly when their numbers agree modulo 65536.\<close>

lemma audio_iv_period: "audio_iv key (seq_at i) = audio_iv key (seq_at j) \<longleftrightarrow> i mod 65536 = j mod 65536"
proof -
  have "audio_iv key (seq_at i) = audio_iv key (seq_at j) \<longleftrightarrow> (ucast (seq_at i) :: u32) = ucast (seq_at j)"
    by (simp add: audio_iv_def be_bytes_def le_bytes_inj)
  also have "\<dots> \<longleftrightarrow> unat (seq_at i) = unat (seq_at j)"
  proof -
    have same: "unat (ucast (w :: u16) :: u32) = unat w" for w
      using unsigned_less [of w, where 'a = nat] by (simp add: unsigned_ucast_eq take_bit_nat_eq_self)
    show ?thesis unfolding word_unat_eq_iff same ..
  qed
  also have "\<dots> \<longleftrightarrow> i mod 65536 = j mod 65536" by (simp add: seq_at_def unat_of_nat)
  finally show ?thesis .
qed

section \<open>The stream\<close>

text \<open>What the thread sends for a session that starts with \<^verbatim>\<open>audio_alloc\<close>.\<close>

definition params_of :: "stream_config \<Rightarrow> launch_session \<Rightarrow> audio_params" where
  "params_of config ls = \<lparr>ap_enc = (sc_encryptionFlagsEnabled config AND SS_ENC_AUDIO \<noteq> 0),
     ap_key = be_value (take 4 (ls_iv ls)), ap_duration = sc_packetDuration config\<rparr>"

definition coded_frames :: "cbc_fun \<Rightarrow> audio_params \<Rightarrow> bytes list \<Rightarrow> bytes list" where
  "coded_frames cbc ap frames = map (\<lambda>i. coded cbc ap i (frames ! i)) [0..<length frames]"

definition coded_length :: "audio_params \<Rightarrow> nat \<Rightarrow> nat" where
  "coded_length ap n = (if ap_enc ap then (n div 16 + 1) * 16 else n)"

lemma max_block_size_eq: "max_block_size = 2048"
  by code_simp

lemma coded_frames_length:
  assumes "cbc_lawful cbc decrypt" and "list_all (\<lambda>f. length f = n) frames"
  shows "list_all (\<lambda>d. length d = coded_length ap n) (coded_frames cbc ap frames)"
proof -
  have "length (the (cbc iv p)) = (length p div 16 + 1) * 16" for iv p
    using assms(1) unfolding cbc_lawful_def by (metis option.sel)
  then show ?thesis using assms(2) by (simp add: coded_frames_def coded_length_def coded_def list_all_length)
qed

lemma coded_frame_decrypts:
  assumes "cbc_lawful cbc decrypt" and "k < length frames"
  shows "(if ap_enc ap then decrypt (audio_iv (ap_key ap) (seq_at k)) (coded_frames cbc ap frames ! k) else coded_frames cbc ap frames ! k) = frames ! k"
proof -
  have "decrypt iv (the (cbc iv p)) = p" for iv p
    using assms(1) unfolding cbc_lawful_def by (metis option.sel)
  then show ?thesis using assms(2) by (simp add: coded_frames_def coded_def)
qed

lemma audio_stream_packets:
  fixes packets s cbc config ls
  defines "ap \<equiv> params_of config ls"
  defines "ds \<equiv> coded_frames (cbc s) ap (of_session s packets)"
  assumes ciphers: "\<And>t. cbc_lawful (cbc t) (decrypt t)" and coder: "coder_lawful rs reconstruct"
    and start: "st s = audio_alloc fresh config ls" and room: "length fresh = 6 * max_block_size"
    and frames: "list_all (\<lambda>f. length f = n) (of_session s packets)" and n: "n \<le> 1400"
    and run: "audio_thread cbc rs (\<lambda>_. False) packets st = (out, st', failed)"
  shows "of_session s out = concat (map (round_packets rs (ap_duration ap) ds) [0..<length ds]) \<and> \<not> failed"
proof -
  have m: "coded_length ap n \<le> max_block_size" using n by (auto simp: coded_length_def max_block_size_eq)
  have some: "cbc s iv p = Some (the (cbc s iv p))" for iv p
    using ciphers [of s] unfolding cbc_lawful_def by (metis option.sel)
  have enc: "encode_audio (ap_enc ap) (cbc s) iv p = Some (if ap_enc ap then the (cbc s iv p) else p)" for iv p
    using some by (simp add: encode_audio_def)
  have "list_all (\<lambda>d. length d = max_block_size) (map (\<lambda>x. take max_block_size (drop (x * max_block_size) fresh)) [0..<6])"
    using room by (simp add: list_all_length max_block_size_eq)
  then have inv: "audio_inv ap (coded_length ap n) ds 0 (st s)"
    by (simp add: start audio_alloc_def audio_inv_def ap_def params_of_def seq_at_def time_at_def)
  show ?thesis
  proof (rule audio_thread_session [where k = 0, OF ciphers coder m _ _ _ inv run])
    show "list_all (\<lambda>d. length d = coded_length ap n) ds" using coded_frames_length [OF ciphers frames] by (simp add: ds_def)
    fix i assume "i < length (of_session s packets)"
    then show "encode_audio (ap_enc ap) (cbc s) (audio_iv (ap_key ap) (seq_at (0 + i))) (of_session s packets ! i) = Some (ds ! (0 + i))"
      by (simp add: enc ds_def coded_frames_def coded_def)
  qed (simp add: ds_def coded_frames_def)
qed


section \<open>A sample\<close>

lemma sample_coder_lawful: "coder_lawful sample_rs sample_reconstruct"
  unfolding coder_lawful_def
  using sample_reconstructs by (auto simp: sample_rs_def length_Suc_conv numeral_eq_Suc)

text \<open>Padding as in PKCS7, without any encryption.\<close>

definition pad_cbc :: cbc_fun where
  "pad_cbc iv p = Some (p @ replicate (16 - length p mod 16) (of_nat (16 - length p mod 16)))"

definition unpad :: "bytes \<Rightarrow> bytes \<Rightarrow> bytes" where
  "unpad iv c = take (length c - unat (last c)) c"

lemma pad_cbc_lawful: "cbc_lawful pad_cbc unpad"
  unfolding cbc_lawful_def
proof (intro allI exI conjI)
  fix iv p :: bytes
  let ?k = "16 - length p mod 16"
  let ?c = "p @ replicate ?k (of_nat ?k)"
  show "pad_cbc iv p = Some ?c" by (simp only: pad_cbc_def)
  have k: "0 < ?k" "?k \<le> 16" by simp_all
  then show "unpad iv ?c = p" by (simp add: unpad_def unat_of_nat del: of_nat_diff)
  have pad: "n + (16 - r) = (q + 1) * 16" if "r < 16" "q * 16 + r = n" for n q r :: nat using that by auto
  have "length p + ?k = (length p div 16 + 1) * 16" by (rule pad [OF _ div_mult_mod_eq]) simp
  then show "length ?c = (length p div 16 + 1) * 16" by (simp only: length_append length_replicate)
qed

text \<open>A session with stereo and encrypted audio.\<close>

definition sample_listener :: launch_session where
  "sample_listener = \<lparr>ls_id = 1, ls_gcm_key = replicate 16 7, ls_iv = replicate 16 0, ls_av_ping_payload = [],
     ls_control_connect_data = 0, ls_host_audio = False, ls_unique_id = [], ls_width = 1920, ls_height = 1080, ls_fps = 60,
     ls_gcmap = 0, ls_appid = 1, ls_surround_info = 2, ls_surround_params = [], ls_continuous_audio = False,
     ls_enable_hdr = False, ls_enable_sops = False, ls_rtsp_cipher = False, ls_rtsp_url_scheme = [], ls_rtsp_iv_counter = 0\<rparr>"

definition sample_audio :: "nat \<Rightarrow> audio_channel" where
  "sample_audio = (\<lambda>_. audio_alloc (replicate 12288 0) stereo_config sample_listener)"

definition sample_frames :: "(nat \<times> bytes) list" where
  "sample_frames = map (\<lambda>b. (0, [b])) [1, 2, 3, 4, 5, 6, 7, 8]"

lemma distinct_block_packets:
  assumes "k mod 4 = 0" and "length (rs (take 4 (drop k ds))) = 2" and "k + 4 \<le> length ds"
  shows "distinct (map (block_packet rs dur ds k) [0..<6])"
proof -
  have "inj_on (block_packet rs dur ds k) {0..<6}"
    by (rule inj_on_inverseI [where g = "\<lambda>p. fst (snd (snd (the (client_audio_packet (of_int dur) p))))"])
      (simp add: parse_block_packet [where rs = rs and k = k and ds = ds and dur = dur] assms)
  then show ?thesis by (simp add: distinct_map)
qed


end
