(* ===== verification/Stream_Ping.thy ===== *)
theory Stream_Ping
  imports Thread_Safe Text_Util
begin

text \<open>
  How the host learns where to send the streams, \<^verbatim>\<open>recvThread\<close> and \<^verbatim>\<open>recv_ping\<close> of
  \<^verbatim>\<open>src/stream.cpp\<close>: the threads of the sessions register a queue under the address of the
  client or the payload of the RTSP handshake, the receiving thread puts pings into the queues. Queues
  are those of \<^theory_text>\<open>Thread_Safe\<close>, named by numbers.
\<close>

section \<open>The receiving thread\<close>

datatype socket_e = Video_socket | Audio_socket

text \<open>An endpoint is an address and a port.\<close>

type_synonym endpoint = "string \<times> nat"

datatype av_session_id = Peer_address string | Ping_payload string

type_synonym registration = "socket_e \<times> av_session_id \<times> nat option"

record recv_state =
  rv_video :: "av_session_id \<Rightarrow> nat option"
  rv_audio :: "av_session_id \<Rightarrow> nat option"
  rv_queues :: "nat \<Rightarrow> (endpoint \<times> string) queue"

text \<open>An entry that is there is not replaced.\<close>

definition update_session :: "av_session_id \<Rightarrow> nat option \<Rightarrow> (av_session_id \<Rightarrow> nat option) \<Rightarrow> (av_session_id \<Rightarrow> nat option)" where
  "update_session session_id message_queue peer_to_session =
     (case message_queue of
        Some q \<Rightarrow> if peer_to_session session_id = None then peer_to_session(session_id := Some q) else peer_to_session
      | None \<Rightarrow> peer_to_session(session_id := None))"

fun populate_peer_to_session :: "registration list \<Rightarrow> recv_state \<Rightarrow> recv_state" where
  "populate_peer_to_session [] st = st"
| "populate_peer_to_session ((socket_type, session_id, message_queue) # rs) st =
     populate_peer_to_session rs
       (case socket_type of
          Video_socket \<Rightarrow> st\<lparr>rv_video := update_session session_id message_queue (rv_video st)\<rparr>
        | Audio_socket \<Rightarrow> st\<lparr>rv_audio := update_session session_id message_queue (rv_audio st)\<rparr>)"

datatype recv_result = Recv_error | Received string

definition raise_ping :: "socket_e \<Rightarrow> av_session_id \<Rightarrow> endpoint \<Rightarrow> string \<Rightarrow> recv_state \<Rightarrow> recv_state" where
  "raise_ping socket session_id peer msg st =
     (case (case socket of Video_socket \<Rightarrow> rv_video st | Audio_socket \<Rightarrow> rv_audio st) session_id of
        None \<Rightarrow> st
      | Some q \<Rightarrow> st\<lparr>rv_queues := (rv_queues st)(q := queue_raise (peer, msg) (rv_queues st q))\<rparr>)"

text \<open>
  The handler of a datagram, with the registrations that wait. Pings of four bytes are looked up by
  the address, those with the size of \<^verbatim>\<open>SS_PING\<close>, 20, or more by their first 16 bytes.
\<close>

definition recv_func :: "socket_e \<Rightarrow> registration list \<Rightarrow> endpoint \<Rightarrow> recv_result \<Rightarrow> recv_state \<Rightarrow> recv_state" where
  "recv_func socket waiting peer result st =
     (let st = populate_peer_to_session waiting st
      in case result of
           Recv_error \<Rightarrow> st
         | Received msg \<Rightarrow>
             if msg = [] then st
             else if length msg = 4 then raise_ping socket (Peer_address (fst peer)) peer msg st
             else if 20 \<le> length msg then raise_ping socket (Ping_payload (take 16 msg)) peer msg st
             else st)"

section \<open>The sessions\<close>

text \<open>
  The registrations at the beginning and at the end of \<^verbatim>\<open>recv_ping\<close>; \<open>session_id_v1\<close> is the feature flag
  of the client.
\<close>

definition ping_registrations :: "bool \<Rightarrow> socket_e \<Rightarrow> string \<Rightarrow> string \<Rightarrow> nat option \<Rightarrow> registration list" where
  "ping_registrations session_id_v1 type address expected_payload messages =
     (if \<not> session_id_v1 then [(type, Peer_address address, messages)] else []) @
     [(type, Ping_payload expected_payload, messages)]"

text \<open>
  The loop: the results of \<^verbatim>\<open>messages->pop\<close>, each with the time that has passed since the start when it is
  looked at again. The result is the endpoint of the ping.
\<close>

fun recv_ping :: "bool \<Rightarrow> string \<Rightarrow> int \<Rightarrow> ((endpoint \<times> string) option \<times> int) list \<Rightarrow> int \<Rightarrow> endpoint option" where
  "recv_ping session_id_v1 expected_payload ping_timeout [] delta_time = None"
| "recv_ping session_id_v1 expected_payload ping_timeout ((msg_opt, now) # msgs) delta_time =
     (if ping_timeout \<le> delta_time then None
      else case msg_opt of
        None \<Rightarrow> None
      | Some (recv_peer, msg) \<Rightarrow>
          if contains_at expected_payload msg then Some recv_peer
          else if \<not> session_id_v1 \<and> msg = ''PING'' then Some recv_peer
          else recv_ping session_id_v1 expected_payload ping_timeout msgs now)"

section \<open>Runs of both\<close>

text \<open>
  The receiving thread takes datagrams, the session threads take pings from their queues; \<open>taken\<close>
  collects what they got.
\<close>

datatype recv_event =
    Datagram socket_e "registration list" endpoint recv_result
  | Take nat

fun recv_step :: "recv_event \<Rightarrow> recv_state \<times> (nat \<times> endpoint \<times> string) list \<Rightarrow> recv_state \<times> (nat \<times> endpoint \<times> string) list" where
  "recv_step (Datagram socket waiting peer result) (st, taken) = (recv_func socket waiting peer result st, taken)"
| "recv_step (Take q) (st, taken) =
     (case queue_pop (rv_queues st q) of
        (Returns (Some v), queue) \<Rightarrow> (st\<lparr>rv_queues := (rv_queues st)(q := queue)\<rparr>, taken @ [(q, v)])
      | _ \<Rightarrow> (st, taken))"

definition recv_start :: recv_state where
  "recv_start = \<lparr>rv_video = (\<lambda>_. None), rv_audio = (\<lambda>_. None), rv_queues = (\<lambda>_. new_queue 30)\<rparr>"

definition recv_run :: "recv_event list \<Rightarrow> recv_state \<times> (nat \<times> endpoint \<times> string) list" where
  "recv_run events = fold recv_step events (recv_start, [])"

text \<open>
  A queue was only registered the way \<^verbatim>\<open>recv_ping\<close> does it for one session: under the payload and, without
  the feature flag, under the address. What such a queue may be found under.
\<close>

definition registered_under :: "bool \<Rightarrow> string \<Rightarrow> string \<Rightarrow> nat \<Rightarrow> recv_event list \<Rightarrow> bool" where
  "registered_under session_id_v1 address payload q events =
     list_all (\<lambda>e. case e of
         Datagram socket waiting peer result \<Rightarrow>
           list_all (\<lambda>r. snd (snd r) = Some q \<longrightarrow>
             r \<in> set (ping_registrations session_id_v1 (fst r) address payload (Some q))) waiting
       | Take _ \<Rightarrow> True) events"

definition session_key :: "bool \<Rightarrow> string \<Rightarrow> string \<Rightarrow> av_session_id \<Rightarrow> bool" where
  "session_key session_id_v1 address payload session_id \<longleftrightarrow>
     session_id = Ping_payload payload \<or> \<not> session_id_v1 \<and> session_id = Peer_address address"

definition only_under :: "bool \<Rightarrow> string \<Rightarrow> string \<Rightarrow> nat \<Rightarrow> (av_session_id \<Rightarrow> nat option) \<Rightarrow> bool" where
  "only_under session_id_v1 address payload q m \<longleftrightarrow>
     (\<forall>session_id. m session_id = Some q \<longrightarrow> session_key session_id_v1 address payload session_id)"

text \<open>A datagram of the history that starts with the payload or, without the feature flag, four bytes from the address.\<close>

definition pinged :: "bool \<Rightarrow> string \<Rightarrow> string \<Rightarrow> recv_event list \<Rightarrow> endpoint \<times> string \<Rightarrow> bool" where
  "pinged session_id_v1 address payload events = (\<lambda>(peer, msg).
     (20 \<le> length msg \<and> take 16 msg = payload \<or> \<not> session_id_v1 \<and> fst peer = address \<and> length msg = 4) \<and>
     (\<exists>socket waiting. Datagram socket waiting peer (Received msg) \<in> set events))"

definition ping_inv :: "bool \<Rightarrow> string \<Rightarrow> string \<Rightarrow> nat \<Rightarrow> recv_event list \<Rightarrow> recv_state \<times> (nat \<times> endpoint \<times> string) list \<Rightarrow> bool" where
  "ping_inv f address payload q events = (\<lambda>(st, taken).
     only_under f address payload q (rv_video st) \<and> only_under f address payload q (rv_audio st) \<and>
     list_all (pinged f address payload events) (q_queue (rv_queues st q)) \<and>
     list_all (\<lambda>(q', v). q' = q \<longrightarrow> pinged f address payload events v) taken)"

lemma registered_key:
  "(socket, session_id, Some q) \<in> set (ping_registrations f socket address payload (Some q)) \<longleftrightarrow>
   session_key f address payload session_id"
  by (auto simp: ping_registrations_def session_key_def)

lemma only_under_update:
  "only_under f address payload q m \<Longrightarrow> messages = Some q \<longrightarrow> session_key f address payload session_id \<Longrightarrow>
   only_under f address payload q (update_session session_id messages m)"
  by (auto simp: only_under_def update_session_def split: option.splits)

lemma populate_keeps:
  assumes "list_all (\<lambda>(_, session_id, messages). messages = Some q \<longrightarrow> session_key f address payload session_id) waiting"
    and "only_under f address payload q (rv_video st)" and "only_under f address payload q (rv_audio st)"
  shows "only_under f address payload q (rv_video (populate_peer_to_session waiting st)) \<and>
    only_under f address payload q (rv_audio (populate_peer_to_session waiting st)) \<and>
    rv_queues (populate_peer_to_session waiting st) = rv_queues st"
  using assms
proof (induction waiting arbitrary: st)
  case (Cons r rs)
  obtain socket session_id messages where r: "r = (socket, session_id, messages)" by (cases r)
  show ?case using Cons only_under_update by (cases socket) (simp_all add: r)
qed simp

lemma registered_keys:
  "registered_under f address payload q [Datagram socket waiting peer result] \<Longrightarrow>
   list_all (\<lambda>(_, session_id, messages). messages = Some q \<longrightarrow> session_key f address payload session_id) waiting"
  using registered_key by (fastforce simp: registered_under_def list_all_iff)

lemma pinged_mono: "pinged f address payload events v \<Longrightarrow> pinged f address payload (events @ es) v"
  by (auto simp: pinged_def)

lemma queue_raise_elems: "list_all P (q_queue q) \<Longrightarrow> P v \<Longrightarrow> list_all P (q_queue (queue_raise v q))"
  by (auto simp: queue_raise_def)

lemma ping_inv_step:
  assumes inv: "ping_inv f address payload q events (st, taken)" and reg: "registered_under f address payload q [e]"
  shows "ping_inv f address payload q (events @ [e]) (recv_step e (st, taken))"
proof -
  have mono: "list_all (pinged f address payload events) vs \<Longrightarrow> list_all (pinged f address payload (events @ [e])) vs"
    "list_all (\<lambda>(q', v). q' = q \<longrightarrow> pinged f address payload events v) ws \<Longrightarrow>
     list_all (\<lambda>(q', v). q' = q \<longrightarrow> pinged f address payload (events @ [e]) v) ws" for vs ws
    using pinged_mono by (auto simp: list_all_iff)
  show ?thesis
  proof (cases e)
    case (Take q')
    obtain r queue where pop: "queue_pop (rv_queues st q') = (r, queue)" by fastforce
    show ?thesis
    proof (cases "\<exists>v. r = Returns (Some v)")
      case True
      then obtain v where v: "r = Returns (Some v)" by blast
      with pop have "q_queue (rv_queues st q') = v # q_queue queue"
        by (auto simp: queue_pop_def split: if_splits list.splits)
      then show ?thesis using inv mono pop v Take by (auto simp: ping_inv_def pinged_mono)
    next
      case False
      then have "recv_step e (st, taken) = (st, taken)"
        using pop Take by (auto split: outcome.splits option.splits)
      then show ?thesis using inv mono by (simp add: ping_inv_def)
    qed
  next
    case (Datagram socket waiting peer result)
    define st1 where "st1 = populate_peer_to_session waiting st"
    have st1: "only_under f address payload q (rv_video st1)" "only_under f address payload q (rv_audio st1)" "rv_queues st1 = rv_queues st"
      using populate_keeps [of q f address payload waiting st, OF registered_keys] reg inv
      by (auto simp: st1_def ping_inv_def Datagram)
    have same: "ping_inv f address payload q (events @ [e]) (st1, taken)" using inv st1 mono by (simp add: ping_inv_def)
    have raise: "ping_inv f address payload q (events @ [e]) (raise_ping socket session_id peer msg st1, taken)"
      if ok: "session_key f address payload session_id \<longrightarrow> pinged f address payload (events @ [e]) (peer, msg)" for session_id msg
    proof -
      have "session_key f address payload session_id"
        if "(case socket of Video_socket \<Rightarrow> rv_video st1 | Audio_socket \<Rightarrow> rv_audio st1) session_id = Some q"
        using that st1(1,2) by (cases socket) (auto simp: only_under_def)
      then show ?thesis
        using same ok by (auto simp: raise_ping_def ping_inv_def queue_raise_elems split: option.splits)
    qed
    have "recv_step e (st, taken) = (recv_func socket waiting peer result st, taken)" by (simp add: Datagram)
    moreover have "ping_inv f address payload q (events @ [e]) (recv_func socket waiting peer result st, taken)"
    proof (cases result)
      case Recv_error
      then show ?thesis using same by (simp add: recv_func_def st1_def)
    next
      case (Received msg)
      have long: "pinged f address payload (events @ [e]) (peer, msg)"
        if "20 \<le> length msg \<and> take 16 msg = payload \<or> \<not> f \<and> fst peer = address \<and> length msg = 4"
        using that by (auto simp: pinged_def Datagram Received)
      have "length msg = 4 \<Longrightarrow> ping_inv f address payload q (events @ [e])
          (raise_ping socket (Peer_address (fst peer)) peer msg st1, taken)"
        by (intro raise impI long) (simp add: session_key_def)
      moreover have "20 \<le> length msg \<Longrightarrow> ping_inv f address payload q (events @ [e])
          (raise_ping socket (Ping_payload (take 16 msg)) peer msg st1, taken)"
        by (intro raise impI long) (simp add: session_key_def)
      ultimately show ?thesis
        using same unfolding recv_func_def Let_def st1_def [symmetric] Received recv_result.case by simp
    qed
    ultimately show ?thesis by simp
  qed
qed

lemma ping_inv_run:
  "registered_under f address payload q events \<Longrightarrow> ping_inv f address payload q events (recv_run events)"
proof (induction events rule: rev_induct)
  case Nil
  then show ?case by (simp add: recv_run_def recv_start_def ping_inv_def only_under_def new_queue_def)
next
  case (snoc e events)
  obtain st taken where run: "recv_run events = (st, taken)" by fastforce
  have "ping_inv f address payload q events (st, taken)" using snoc run by (simp add: registered_under_def)
  then have "ping_inv f address payload q (events @ [e]) (recv_step e (st, taken))"
    using snoc.prems by (intro ping_inv_step) (auto simp: registered_under_def)
  then show ?case using run by (simp add: recv_run_def)
qed

lemma recv_ping_source:
  "recv_ping f payload timeout msgs delta = Some peer \<Longrightarrow>
   \<exists>msg now. (Some (peer, msg), now) \<in> set msgs \<and> (contains_at payload msg \<or> \<not> f \<and> msg = ''PING'')"
proof (induction msgs arbitrary: delta)
  case (Cons m msgs)
  obtain msg_opt now where m: "m = (msg_opt, now)" by fastforce
  show ?case
  proof (cases msg_opt)
    case None
    then show ?thesis using Cons.prems by (simp add: m split: if_splits)
  next
    case (Some pm)
    obtain p x where pm: "pm = (p, x)" by fastforce
    show ?thesis
    proof (cases "contains_at payload x \<or> \<not> f \<and> x = ''PING''")
      case True
      then show ?thesis using Cons.prems by (auto simp: m Some pm split: if_splits)
    next
      case False
      then have "recv_ping f payload timeout msgs now = Some peer"
        using Cons.prems by (auto simp: m Some pm split: if_splits)
      from Cons.IH [OF this] show ?thesis by auto
    qed
  qed
qed simp

section \<open>Properties\<close>


text \<open>
  A stranger sends a ping with another payload, then the client of queue 0 pings; and the same with a client
  that pings from its address without a payload.
\<close>

definition sample_payload :: string where "sample_payload = ''0123456789ABCDEF''"

definition sample_pings :: "bool \<Rightarrow> string \<Rightarrow> recv_event list" where
  "sample_pings session_id_v1 ping =
     [Datagram Video_socket (ping_registrations session_id_v1 Video_socket ''10.0.0.2'' sample_payload (Some 0)) (''10.0.0.9'', 7)
        (Received ''FFFFFFFFFFFFFFFF0001''),
      Datagram Video_socket [] (''10.0.0.9'', 7) (Received ''PING''),
      Datagram Video_socket [] (''10.0.0.2'', 5000) (Received ping), Take 0]"

lemma sample_pings_run:
  "snd (recv_run (sample_pings True (sample_payload @ ''0001''))) = [(0, (''10.0.0.2'', 5000), sample_payload @ ''0001'')]"
  "snd (recv_run (sample_pings False ''PING'')) = [(0, (''10.0.0.2'', 5000), ''PING'')]"
  by code_simp+


end
