(* ===== verification/Config.thy ===== *)
theory Config
  imports Hex_Codec
begin

text \<open>
  The configuration file of \<^verbatim>\<open>src/config.cpp\<close>: the parser of options and lists, and the readers
  of typed values. Positions in the text are its suffixes, so that the end is the empty list. A reader
  takes the options and gives the value and the options without the one it took. \<open>None\<close> is undefined
  behaviour: the overflow of a number, a hexadecimal number that is longer than the integer, or a read
  behind the end.
\<close>

section \<open>Options\<close>

definition endline :: "char \<Rightarrow> bool" where
  "endline ch \<longleftrightarrow> ch = CHR 0x0D \<or> ch = CHR 0x0A"

definition space_tab :: "char \<Rightarrow> bool" where
  "space_tab ch \<longleftrightarrow> ch = CHR 0x20 \<or> ch = CHR 0x09"

definition whitespace :: "char \<Rightarrow> bool" where
  "whitespace ch \<longleftrightarrow> space_tab ch \<or> endline ch"

lemma length_drop_comment:
  "pos \<noteq> [] \<Longrightarrow> length (dropWhile (\<lambda>c. \<not> endline c) (dropWhile (\<lambda>c. c \<noteq> CHR ''#'') pos)) < length pos"
proof (cases "dropWhile (\<lambda>c. c \<noteq> CHR ''#'') pos")
  case (Cons c cs)
  then have "c = CHR ''#''" using hd_dropWhile [of "\<lambda>c. c \<noteq> CHR ''#''" pos] by simp
  then have "dropWhile (\<lambda>c. \<not> endline c) (dropWhile (\<lambda>c. c \<noteq> CHR ''#'') pos) = dropWhile (\<lambda>c. \<not> endline c) cs"
    by (simp add: Cons endline_def)
  moreover have "length (c # cs) \<le> length pos" using length_dropWhile_le [of "\<lambda>c. c \<noteq> CHR ''#''" pos] by (simp add: Cons)
  ultimately show ?thesis using length_dropWhile_le [of "\<lambda>c. \<not> endline c" cs] by simp
next
  case Nil
  assume "pos \<noteq> []"
  then show ?thesis unfolding Nil by simp
qed

text \<open>\<^verbatim>\<open>to_string(begin, end)\<close>: the text without comments.\<close>

function strip_comments :: "string \<Rightarrow> string" where
  "strip_comments pos =
     (if pos = [] then []
      else takeWhile (\<lambda>c. c \<noteq> CHR ''#'') pos @
           strip_comments (dropWhile (\<lambda>c. \<not> endline c) (dropWhile (\<lambda>c. c \<noteq> CHR ''#'') pos)))"
  by pat_completeness auto
termination by (relation "measure length") (use length_drop_comment in auto)

declare strip_comments.simps [simp del]

text \<open>\<^verbatim>\<open>skip_list\<close> gives the position behind the bracket that closes the list, or the end.\<close>

fun skip_list :: "nat \<Rightarrow> string \<Rightarrow> string" where
  "skip_list stack [] = []"
| "skip_list stack (c # cs) =
     (if stack = 0 then c # cs
      else skip_list (if c = CHR ''['' then stack + 1 else if c = CHR '']'' then stack - 1 else stack) cs)"

text \<open>The text before the white space at its end.\<close>

definition trim_end :: "(char \<Rightarrow> bool) \<Rightarrow> string \<Rightarrow> string" where
  "trim_end p s = rev (dropWhile p (rev s))"

text \<open>
  \<^verbatim>\<open>parse_option\<close>: the position where it stopped, and the option. The value runs to the end of the
  line, not to \<^verbatim>\<open>endc\<close>, where comments and white space begin.
\<close>

definition parse_option :: "string \<Rightarrow> string \<times> (string \<times> string) option" where
  "parse_option s =
     (let begin_pos = dropWhile whitespace s;
          line = takeWhile (\<lambda>c. \<not> endline c) begin_pos;
          endl = dropWhile (\<lambda>c. \<not> endline c) begin_pos;
          content = trim_end whitespace (takeWhile (\<lambda>c. c \<noteq> CHR ''#'') line)
      in case find_char (CHR ''='') content of
           None \<Rightarrow> (endl, None)
         | Some eq \<Rightarrow>
             if eq = 0 then (endl, None)
             else let name = trim_end space_tab (take eq content);
                      begin_val = length content - length (dropWhile space_tab (drop (Suc eq) content));
                      val = drop begin_val line
                  in if val = [] then (endl, None)
                     else if hd val = CHR ''[''
                     then let from_list = drop begin_val begin_pos;
                              endl = skip_list 1 (tl from_list)
                          in if endl = [] \<and> tl from_list = [] then (endl, None)
                             else (endl, Some (strip_comments name,
                               strip_comments (take (length from_list - length endl) from_list)))
                     else (endl, Some (strip_comments name, strip_comments val)))"

type_synonym config_vars = "string \<Rightarrow> string option"

text \<open>The position for the next option; a carriage return takes the character behind it along.\<close>

definition next_option :: "string \<Rightarrow> string" where
  "next_option endl = (case endl of [] \<Rightarrow> [] | c # cs \<Rightarrow> if c = CHR 0x0D then drop 1 cs else cs)"

text \<open>\<^verbatim>\<open>parse_config\<close>: the first of several options of a name counts. \<open>None\<close>: the loop does not end.\<close>

definition emplace_var :: "(string \<times> string) option \<Rightarrow> config_vars \<Rightarrow> config_vars" where
  "emplace_var var vars =
     (case var of
        None \<Rightarrow> vars
      | Some (name, val) \<Rightarrow> (case vars name of Some _ \<Rightarrow> vars | None \<Rightarrow> vars(name := Some val)))"

partial_function (option) config_loop :: "string \<Rightarrow> config_vars \<Rightarrow> config_vars option" where
  "config_loop pos vars =
     (if pos = [] then Some vars
      else let (endl, var) = parse_option pos
           in config_loop (next_option endl) (emplace_var var vars))"

declare config_loop.simps [code]

definition parse_config :: "string \<Rightarrow> config_vars option" where
  "parse_config file_content = config_loop file_content (\<lambda>_. None)"

section \<open>Values\<close>

definition string_f :: "config_vars \<Rightarrow> string \<Rightarrow> string \<Rightarrow> string \<times> config_vars" where
  "string_f vars name input =
     (case vars name of None \<Rightarrow> (input, vars) | Some v \<Rightarrow> (v, vars(name := None)))"

definition generic_f :: "config_vars \<Rightarrow> string \<Rightarrow> 'a \<Rightarrow> (string \<Rightarrow> 'a) \<Rightarrow> 'a \<times> config_vars" where
  "generic_f vars name input f =
     (let (tmp, vars) = string_f vars name [] in (if tmp \<noteq> [] then f tmp else input, vars))"

definition string_restricted_f :: "config_vars \<Rightarrow> string \<Rightarrow> string \<Rightarrow> string list \<Rightarrow> string \<times> config_vars" where
  "string_restricted_f vars name input allowed_vals =
     (let (temp, vars) = string_f vars name [] in (if temp \<in> set allowed_vals then temp else input, vars))"

text \<open>The segments between commas, trimmed; empty ones are dropped.\<close>

function comma_items :: "string \<Rightarrow> string list" where
  "comma_items s =
     (if s = [] then []
      else takeWhile (\<lambda>c. c \<noteq> CHR '','') s # comma_items (drop 1 (dropWhile (\<lambda>c. c \<noteq> CHR '','') s)))"
  by pat_completeness auto
termination
proof (relation "measure length")
  fix s :: string assume "s \<noteq> []"
  then have "length (dropWhile (\<lambda>c. c \<noteq> CHR '','') s) \<le> length s" "0 < length s"
    by (simp_all add: length_dropWhile_le)
  then show "(drop 1 (dropWhile (\<lambda>c. c \<noteq> CHR '','') s), s) \<in> measure length"
    unfolding in_measure length_drop by linarith
qed simp

declare comma_items.simps [simp del]

definition string_list_f :: "config_vars \<Rightarrow> string \<Rightarrow> string list \<Rightarrow> string list \<times> config_vars" where
  "string_list_f vars name outp =
     (let (temp, vars) = string_f vars name []
      in (if temp = [] then outp
          else filter (\<lambda>item. item \<noteq> []) (map (\<lambda>item. trim_end whitespace (dropWhile whitespace item)) (comma_items temp)),
          vars))"

text \<open>An integer in quotes, hexadecimal or decimal. The hexadecimal digits fill four bytes, the last two first.\<close>

definition config_int :: "string \<Rightarrow> int option" where
  "config_int v =
     (let v = (if 2 \<le> length v \<and> hd v = CHR 0x22 then take (length v - 2) (drop 1 v) else v)
      in if 2 \<le> length v \<and> take 2 v = ''0x''
         then map_option (\<lambda>buf. sint (le_value buf :: 32 word)) (from_hex 4 (drop 2 v) False)
         else map_option cast_int (from_view v))"

definition int_f :: "config_vars \<Rightarrow> string \<Rightarrow> int \<Rightarrow> (int \<times> config_vars) option" where
  "int_f vars name input =
     (case vars name of
        None \<Rightarrow> Some (input, vars)
      | Some v \<Rightarrow> map_option (\<lambda>x. (x, vars(name := None))) (config_int v))"

definition int_between_f :: "config_vars \<Rightarrow> string \<Rightarrow> int \<Rightarrow> int \<times> int \<Rightarrow> (int \<times> config_vars) option" where
  "int_between_f vars name input limits =
     (case int_f vars name input of
        None \<Rightarrow> None
      | Some (temp, vars) \<Rightarrow> Some (if fst limits \<le> temp \<and> temp \<le> snd limits then temp else input, vars))"

text \<open>\<^verbatim>\<open>std::for_each\<close> drops what \<^verbatim>\<open>tolower\<close> returns: the case of the text stays.\<close>

definition to_bool :: "string \<Rightarrow> bool" where
  "to_bool boolean \<longleftrightarrow> boolean \<in> {''true'', ''yes'', ''enable'', ''enabled'', ''on''} \<or> CHR ''1'' \<in> set boolean"

definition bool_f :: "config_vars \<Rightarrow> string \<Rightarrow> bool \<Rightarrow> bool \<times> config_vars" where
  "bool_f vars name input = generic_f vars name input to_bool"

lemma length_skip_list: "length (skip_list n s) \<le> length s"
  by (induction n s rule: skip_list.induct) (auto simp: le_SucI)

section \<open>Lists\<close>

text \<open>
  The elements of a list. \<open>acc\<close> is the text of the element so far. A nested list takes the character
  behind it along; \<open>None\<close> when there is none.
\<close>

function list_elements :: "string \<Rightarrow> string \<Rightarrow> string list option" where
  "list_elements acc [] = Some (if acc \<noteq> [] then [acc] else [])"
| "list_elements acc (c # cs) =
     (if c = CHR ''['' then
        (case skip_list 1 cs of
           [] \<Rightarrow> None
         | d # rest \<Rightarrow> list_elements (acc @ c # take (length cs - length rest) cs) rest)
      else if c = CHR '']'' then Some (if acc \<noteq> [] then [acc] else [])
      else if c = CHR '','' then map_option (\<lambda>els. acc # els) (list_elements [] (dropWhile whitespace cs))
      else list_elements (acc @ [c]) cs)"
  by pat_completeness auto
termination
proof (relation "measure (length \<circ> snd)")
  fix acc c cs d rest
  assume "skip_list 1 cs = d # rest"
  then show "((acc @ c # take (length cs - length rest) cs, rest), acc, c # cs) \<in> measure (length \<circ> snd)"
    using length_skip_list [of 1 cs] by simp
qed (auto simp: le_imp_less_Suc length_dropWhile_le)

definition list_string_f :: "config_vars \<Rightarrow> string \<Rightarrow> string list \<Rightarrow> (string list \<times> config_vars) option" where
  "list_string_f vars name input =
     (let (s, vars) = string_f vars name []
      in if s = [] then Some (input, vars)
         else map_option (\<lambda>els. (els, vars))
           (list_elements [] (dropWhile whitespace (if hd s = CHR ''['' then tl s else s))))"

fun config_ints :: "string list \<Rightarrow> int list option" where
  "config_ints [] = Some []"
| "config_ints (el # els) =
     (case config_int el of None \<Rightarrow> None | Some x \<Rightarrow> map_option (\<lambda>xs. x # xs) (config_ints els))"

definition list_int_f :: "config_vars \<Rightarrow> string \<Rightarrow> int list \<Rightarrow> (int list \<times> config_vars) option" where
  "list_int_f vars name input =
     (case list_string_f vars name [] of
        None \<Rightarrow> None
      | Some ([], vars) \<Rightarrow> Some (input, vars)
      | Some (els, vars) \<Rightarrow> map_option (\<lambda>xs. (xs, vars)) (config_ints els))"

fun emplace_pairs :: "int list \<Rightarrow> (int \<Rightarrow> int option) \<Rightarrow> int \<Rightarrow> int option" where
  "emplace_pairs (key # val # xs) m =
     emplace_pairs xs (case m key of Some _ \<Rightarrow> m | None \<Rightarrow> m(key := Some val))"
| "emplace_pairs xs m = m"

definition map_int_int_f :: "config_vars \<Rightarrow> string \<Rightarrow> (int \<Rightarrow> int option) \<Rightarrow> ((int \<Rightarrow> int option) \<times> config_vars) option" where
  "map_int_int_f vars name input =
     (case list_int_f vars name [] of
        None \<Rightarrow> None
      | Some (xs, vars) \<Rightarrow> Some (if length xs mod 2 = 1 then input else emplace_pairs xs input, vars))"

text \<open>The file the configuration interface writes, for options whose values are not empty.\<close>

definition config_text :: "(string \<times> string) list \<Rightarrow> string" where
  "config_text opts = concat (map (\<lambda>(k, v). k @ '' = '' @ v @ [CHR 0x0A]) (filter (\<lambda>(k, v). v \<noteq> []) opts))"

end
