(* ===== verification/Config_Apply.thy ===== *)
theory Config_Apply
  imports Config
begin

text \<open>
  \<^verbatim>\<open>apply_config\<close> of \<^verbatim>\<open>src/config.cpp\<close>: the settings and the readers that fill them, in the order
  of the code. Paths, JSON values and floating point numbers are taken out of the options but not
  modelled; the settings of NVENC that are derived for its C interface are left out.
\<close>

section \<open>Values of names\<close>

datatype nvenc_two_pass = Two_pass_disabled | Quarter_resolution | Full_resolution
datatype nvenc_split = Split_disabled | Driver_decides | Force_enabled
datatype dd_config_option = Dd_disabled | Verify_only | Ensure_active | Ensure_primary | Ensure_only_display
datatype dd_mode_option = Mode_disabled | Mode_automatic | Mode_manual
datatype dd_hdr_option = Hdr_disabled | Hdr_automatic

definition lookup_name :: "(string \<times> 'a) list \<Rightarrow> 'a \<Rightarrow> string \<Rightarrow> 'a" where
  "lookup_name table unknown name = (case map_of table name of None \<Rightarrow> unknown | Some x \<Rightarrow> x)"

definition twopass_from_view :: "string \<Rightarrow> nvenc_two_pass" where
  "twopass_from_view = lookup_name
     [(''disabled'', Two_pass_disabled), (''quarter_res'', Quarter_resolution), (''full_res'', Full_resolution)]
     Quarter_resolution"

definition split_encode_from_view :: "string \<Rightarrow> nvenc_split" where
  "split_encode_from_view = lookup_name
     [(''disabled'', Split_disabled), (''driver_decides'', Driver_decides), (''enabled'', Force_enabled)] Driver_decides"

text \<open>The numbers of AMF for AV1, HEVC and H.264.\<close>

definition amd_quality :: "(string \<times> int \<times> int \<times> int) list" where
  "amd_quality = [(''balanced'', 70, 5, 0), (''quality'', 30, 0, 2), (''speed'', 100, 10, 1)]"

definition amd_rc :: "(string \<times> int \<times> int \<times> int) list" where
  "amd_rc = [(''cbr'', 3, 3, 1), (''cqp'', 0, 0, 0), (''vbr_latency'', 1, 1, 3), (''vbr_peak'', 2, 2, 2)]"

definition amd_usage :: "(string \<times> int \<times> int \<times> int) list" where
  "amd_usage = [(''lowlatency'', 1, 2, 2), (''lowlatency_high_quality'', 5, 5, 5), (''transcoding'', 0, 0, 0),
     (''ultralowlatency'', 2, 1, 1), (''webcam'', 3, 3, 3)]"

definition amd_coder_from_view :: "string \<Rightarrow> int" where
  "amd_coder_from_view = lookup_name [(''auto'', 0), (''cabac'', 1), (''ac'', 1), (''cavlc'', 2), (''vlc'', 2)] 0"

definition qsv_preset_from_view :: "string \<Rightarrow> int option" where
  "qsv_preset_from_view = lookup_name
     [(''veryslow'', Some 1), (''slower'', Some 2), (''slow'', Some 3), (''medium'', Some 4), (''fast'', Some 5),
      (''faster'', Some 6), (''veryfast'', Some 7)] None"

definition qsv_coder_from_view :: "string \<Rightarrow> int option" where
  "qsv_coder_from_view = lookup_name
     [(''auto'', Some 0), (''cabac'', Some 0), (''ac'', Some 0), (''cavlc'', Some 1), (''vlc'', Some 1)] None"

definition vt_coder_from_view :: "string \<Rightarrow> int" where
  "vt_coder_from_view = lookup_name [(''auto'', 0), (''cabac'', 1), (''ac'', 1), (''cavlc'', 2), (''vlc'', 2)] (- 1)"

definition allow_software_from_view :: "string \<Rightarrow> int" where
  "allow_software_from_view = lookup_name [(''allowed'', 1), (''forced'', 1)] 0"

definition force_software_from_view :: "string \<Rightarrow> int" where
  "force_software_from_view = lookup_name [(''forced'', 1)] 0"

definition rt_from_view :: "string \<Rightarrow> int" where
  "rt_from_view = lookup_name [(''disabled'', 0), (''off'', 0), (''0'', 0)] 1"

definition svtav1_preset_from_view :: "string \<Rightarrow> int" where
  "svtav1_preset_from_view = lookup_name
     [(''veryslow'', 1), (''slower'', 2), (''slow'', 4), (''medium'', 5), (''fast'', 7), (''faster'', 9),
      (''veryfast'', 10), (''superfast'', 11), (''ultrafast'', 12)] 11"

definition config_option_from_view :: "string \<Rightarrow> dd_config_option" where
  "config_option_from_view = lookup_name
     [(''disabled'', Dd_disabled), (''verify_only'', Verify_only), (''ensure_active'', Ensure_active),
      (''ensure_primary'', Ensure_primary), (''ensure_only_display'', Ensure_only_display)] Dd_disabled"

definition resolution_option_from_view :: "string \<Rightarrow> dd_mode_option" where
  "resolution_option_from_view = lookup_name
     [(''disabled'', Mode_disabled), (''auto'', Mode_automatic), (''manual'', Mode_manual)] Mode_disabled"

definition refresh_rate_option_from_view :: "string \<Rightarrow> dd_mode_option" where
  "refresh_rate_option_from_view = lookup_name
     [(''disabled'', Mode_disabled), (''auto'', Mode_automatic), (''manual'', Mode_manual)] Mode_disabled"

definition hdr_option_from_view :: "string \<Rightarrow> dd_hdr_option" where
  "hdr_option_from_view = lookup_name [(''disabled'', Hdr_disabled), (''auto'', Hdr_automatic)] Hdr_disabled"

section \<open>Settings\<close>

record video_config =
  vc_qp :: int
  vc_hevc_mode :: int
  vc_av1_mode :: int
  vc_min_threads :: int
  vc_sw_preset :: string
  vc_sw_tune :: string
  vc_svtav1_preset :: "int option"
  vc_nv_preset :: int
  vc_nv_vbv_increase :: int
  vc_nv_spatial_aq :: bool
  vc_nv_two_pass :: nvenc_two_pass
  vc_nv_h264_cavlc :: bool
  vc_nv_split :: nvenc_split
  vc_nv_realtime_hags :: bool
  vc_nv_opengl_vulkan_on_dxgi :: bool
  vc_nv_high_power :: bool
  vc_qsv_preset :: "int option"
  vc_qsv_cavlc :: "int option"
  vc_qsv_slow_hevc :: bool
  vc_strict_rc_buffer :: bool
  vc_vk_tune :: int
  vc_vk_rc_mode :: int
  vc_capture :: string
  vc_encoder :: string
  vc_adapter_name :: string
  vc_output_name :: string
  vc_max_bitrate :: int

record amd_config =
  ac_usage :: "int \<times> int \<times> int"
  ac_rc :: "int \<times> int \<times> int"
  ac_quality :: "int \<times> int \<times> int"
  ac_enforce_hrd :: bool
  ac_preanalysis :: bool
  ac_vbaq :: bool
  ac_coder :: int

record vt_config =
  vt_allow_sw :: int
  vt_require_sw :: int
  vt_realtime :: int
  vt_coder :: int

record dd_config =
  dd_configuration_option :: dd_config_option
  dd_resolution_option :: dd_mode_option
  dd_manual_resolution :: string
  dd_refresh_rate_option :: dd_mode_option
  dd_manual_refresh_rate :: string
  dd_hdr_option :: dd_hdr_option
  dd_config_revert_delay :: int
  dd_config_revert_on_disconnect :: bool
  dd_hdr_toggle_delay :: int

record input_config =
  ic_keybindings :: "int \<Rightarrow> int option"
  ic_back_button_timeout :: int
  ic_key_repeat_delay :: int
  ic_gamepad :: string
  ic_ds4_back_as_touchpad_click :: bool
  ic_motion_as_ds4 :: bool
  ic_touchpad_as_ds4 :: bool
  ic_ds5_randomize_mac :: bool
  ic_mouse :: bool
  ic_keyboard :: bool
  ic_controller :: bool
  ic_always_send_scancodes :: bool
  ic_high_resolution_scrolling :: bool
  ic_native_pen_touch :: bool

record host_config =
  hc_sunshine_name :: string
  hc_external_ip :: string
  hc_audio_sink :: string
  hc_virtual_sink :: string
  hc_stream_audio :: bool
  hc_install_steam_drivers :: bool
  hc_origin_web_ui_allowed :: string
  hc_csrf_allowed_origins :: "string list"
  hc_ping_timeout :: int
  hc_lan_encryption_mode :: int
  hc_wan_encryption_mode :: int
  hc_fec_percentage :: int
  hc_notify_pre_releases :: bool
  hc_system_tray :: bool
  hc_port :: u16
  hc_address_family :: string
  hc_bind_address :: string
  hc_locale :: string
  hc_min_log_level :: int
  hc_flags :: "bool list"

record settings =
  se_video :: video_config
  se_amd :: amd_config
  se_vt :: vt_config
  se_dd :: dd_config
  se_input :: input_config
  se_host :: host_config

section \<open>Readers\<close>

type_synonym 'c reader = "'c \<times> config_vars \<Rightarrow> ('c \<times> config_vars) option"

definition read_with :: "(config_vars \<Rightarrow> 'a \<Rightarrow> ('a \<times> config_vars) option) \<Rightarrow> ('c \<Rightarrow> 'a) \<Rightarrow> (('a \<Rightarrow> 'a) \<Rightarrow> 'c \<Rightarrow> 'c)
    \<Rightarrow> 'c reader" where
  "read_with f get upd = (\<lambda>(c, vars). map_option (\<lambda>(x, vars). (upd (\<lambda>_. x) c, vars)) (f vars (get c)))"

definition read_int :: "string \<Rightarrow> ('c \<Rightarrow> int) \<Rightarrow> ((int \<Rightarrow> int) \<Rightarrow> 'c \<Rightarrow> 'c) \<Rightarrow> 'c reader" where
  "read_int name = read_with (\<lambda>vars. int_f vars name)"

definition read_between :: "string \<Rightarrow> int \<times> int \<Rightarrow> ('c \<Rightarrow> int) \<Rightarrow> ((int \<Rightarrow> int) \<Rightarrow> 'c \<Rightarrow> 'c) \<Rightarrow> 'c reader" where
  "read_between name limits = read_with (\<lambda>vars x. int_between_f vars name x limits)"

definition read_bool :: "string \<Rightarrow> ('c \<Rightarrow> bool) \<Rightarrow> ((bool \<Rightarrow> bool) \<Rightarrow> 'c \<Rightarrow> 'c) \<Rightarrow> 'c reader" where
  "read_bool name = read_with (\<lambda>vars x. Some (bool_f vars name x))"

definition read_string :: "string \<Rightarrow> ('c \<Rightarrow> string) \<Rightarrow> ((string \<Rightarrow> string) \<Rightarrow> 'c \<Rightarrow> 'c) \<Rightarrow> 'c reader" where
  "read_string name = read_with (\<lambda>vars x. Some (string_f vars name x))"

definition read_restricted :: "string \<Rightarrow> string list \<Rightarrow> ('c \<Rightarrow> string) \<Rightarrow> ((string \<Rightarrow> string) \<Rightarrow> 'c \<Rightarrow> 'c) \<Rightarrow> 'c reader" where
  "read_restricted name allowed = read_with (\<lambda>vars x. Some (string_restricted_f vars name x allowed))"

definition read_name :: "string \<Rightarrow> (string \<Rightarrow> 'a) \<Rightarrow> ('c \<Rightarrow> 'a) \<Rightarrow> (('a \<Rightarrow> 'a) \<Rightarrow> 'c \<Rightarrow> 'c) \<Rightarrow> 'c reader" where
  "read_name name f = read_with (\<lambda>vars x. Some (generic_f vars name x f))"

definition discard :: "string \<Rightarrow> 'c reader" where
  "discard name = (\<lambda>(c, vars). Some (c, vars(name := None)))"

definition within :: "('s \<Rightarrow> 'c) \<Rightarrow> (('c \<Rightarrow> 'c) \<Rightarrow> 's \<Rightarrow> 's) \<Rightarrow> 'c reader \<Rightarrow> 's reader" where
  "within get upd r = (\<lambda>(s, vars). map_option (\<lambda>(c, vars). (upd (\<lambda>_. c) s, vars)) (r (get s, vars)))"

fun run_readers :: "'c reader list \<Rightarrow> 'c reader" where
  "run_readers [] x = Some x"
| "run_readers (r # rs) x = (case r x of None \<Rightarrow> None | Some x \<Rightarrow> run_readers rs x)"

section \<open>Single settings\<close>

definition INT_MAX :: int where "INT_MAX = 2 ^ 31 - 1"
definition INT_MIN :: int where "INT_MIN = - (2 ^ 31)"

definition read_svtav1 :: "video_config reader" where
  "read_svtav1 = (\<lambda>(c, vars). Some
     (if vc_sw_preset c \<noteq> [] then c\<lparr>vc_svtav1_preset := Some (svtav1_preset_from_view (vc_sw_preset c))\<rparr> else c, vars))"

definition amd_table :: "string \<Rightarrow> (string \<times> 'a) list \<Rightarrow> config_vars \<Rightarrow> 'a \<Rightarrow> ('a \<times> config_vars) option" where
  "amd_table name table vars original =
     (let (v, vars) = string_f vars name []
      in Some (if v \<noteq> [] then lookup_name table original v else original, vars))"

definition revert_delay_f :: "config_vars \<Rightarrow> int \<Rightarrow> (int \<times> config_vars) option" where
  "revert_delay_f vars delay =
     map_option (\<lambda>(n, vars). (if 0 \<le> n then n else delay, vars))
       (int_between_f vars ''dd_config_revert_delay'' (- 1) (0, INT_MAX))"

definition hdr_toggle_f :: "config_vars \<Rightarrow> int \<Rightarrow> (int \<times> config_vars) option" where
  "hdr_toggle_f vars delay = int_between_f vars ''dd_wa_hdr_toggle_delay'' 0 (0, 3000)"

definition csrf_origins_f :: "config_vars \<Rightarrow> string list \<Rightarrow> (string list \<times> config_vars) option" where
  "csrf_origins_f vars origins =
     (let (user, vars) = string_list_f vars ''csrf_allowed_origins'' []
      in Some ([''https://localhost'', ''https://127.0.0.1'', ''https://[::1]''] @
           filter (\<lambda>org. 8 < length org \<and> take 8 org = ''https://'') user, vars))"

definition ping_timeout_f :: "config_vars \<Rightarrow> int \<Rightarrow> (int \<times> config_vars) option" where
  "ping_timeout_f vars timeout =
     map_option (\<lambda>(n, vars). (if n \<noteq> - 1 then n else timeout, vars))
       (int_between_f vars ''ping_timeout'' (- 1) (- 1, INT_MAX))"

definition rightalt_f :: "config_vars \<Rightarrow> (int \<Rightarrow> int option) \<Rightarrow> ((int \<Rightarrow> int option) \<times> config_vars) option" where
  "rightalt_f vars keybindings =
     (let (on, vars) = bool_f vars ''key_rightalt_to_key_win'' False
      in Some (if on then emplace_pairs [0xA5, 0x5B] keybindings else keybindings, vars))"

definition back_button_f :: "config_vars \<Rightarrow> int \<Rightarrow> (int \<times> config_vars) option" where
  "back_button_f vars timeout =
     map_option (\<lambda>(n, vars). (if INT_MIN < n then n else timeout, vars)) (int_f vars ''back_button_timeout'' INT_MIN)"

definition key_repeat_delay_f :: "config_vars \<Rightarrow> int \<Rightarrow> (int \<times> config_vars) option" where
  "key_repeat_delay_f vars delay =
     map_option (\<lambda>(n, vars). (if 0 \<le> n then n else delay, vars)) (int_f vars ''key_repeat_delay'' (- 1))"

text \<open>The limits of the port: \<^verbatim>\<open>1024 + PORT_HTTPS\<close> and \<^verbatim>\<open>65535 - RTSP_SETUP_PORT\<close>.\<close>

definition PORT_HTTPS :: int where "PORT_HTTPS = - 5"

definition port_f :: "config_vars \<Rightarrow> u16 \<Rightarrow> (u16 \<times> config_vars) option" where
  "port_f vars port =
     map_option (\<lambda>(n, vars). (word_of_int n, vars))
       (int_between_f vars ''port'' (uint port) (1024 + PORT_HTTPS, 65535 - 21))"

definition add_web_ui_origins :: "host_config reader" where
  "add_web_ui_origins = (\<lambda>(c, vars).
     let port = to_string (uint (hc_port c + 1))
     in Some (c\<lparr>hc_csrf_allowed_origins := hc_csrf_allowed_origins c @
          map (\<lambda>host. ''https://'' @ host @ '':'' @ port) [''localhost'', ''127.0.0.1'', ''[::1]'']\<rparr>, vars))"

definition UPNP_flag :: nat where "UPNP_flag = 3"

definition flip_flag :: "nat \<Rightarrow> bool list \<Rightarrow> bool list" where
  "flip_flag i flags = flags[i := \<not> flags ! i]"

definition upnp_f :: "config_vars \<Rightarrow> bool list \<Rightarrow> (bool list \<times> config_vars) option" where
  "upnp_f vars flags =
     (let (on, vars) = bool_f vars ''upnp'' False in Some (if on then flip_flag UPNP_flag flags else flags, vars))"

definition locales :: "string list" where
  "locales = [''bg'', ''cs'', ''de'', ''en'', ''en_GB'', ''en_US'', ''es'', ''fr'', ''hu'', ''it'', ''ja'', ''ko'', ''pl'', ''pt'',
     ''pt_BR'', ''ru'', ''sv'', ''tr'', ''uk'', ''vi'', ''zh'', ''zh_TW'']"

definition log_level_names :: "(string \<times> int) list" where
  "log_level_names = [(''verbose'', 0), (''debug'', 1), (''info'', 2), (''warning'', 3), (''error'', 4), (''fatal'', 5),
     (''none'', 6)]"

definition log_level_digit :: "int \<Rightarrow> string \<Rightarrow> int" where
  "log_level_digit level s =
     (case s of [] \<Rightarrow> level | c # cs \<Rightarrow> if 48 \<le> char_int c \<and> char_int c < 55 then char_int c - 48 else level)"

definition log_level_f :: "config_vars \<Rightarrow> int \<Rightarrow> (int \<times> config_vars) option" where
  "log_level_f vars level =
     (let (s, vars) = string_f vars ''min_log_level'' []
      in Some (if s = [] then level else lookup_name log_level_names (log_level_digit level s) s, vars))"

text \<open>\<^verbatim>\<open>apply_flags\<close>: the flags and the result. The text ends at its first null character.\<close>

fun apply_flags :: "string \<Rightarrow> bool list \<Rightarrow> int \<Rightarrow> bool list \<times> int" where
  "apply_flags [] flags ret = (flags, ret)"
| "apply_flags (c # cs) flags ret =
     (if c = CHR 0x00 then (flags, ret)
      else if c = CHR ''0'' then apply_flags cs (flip_flag 0 flags) ret
      else if c = CHR ''1'' then apply_flags cs (flip_flag 1 flags) ret
      else if c = CHR ''2'' then apply_flags cs (flip_flag 2 flags) ret
      else if c = CHR ''p'' then apply_flags cs (flip_flag UPNP_flag flags) ret
      else apply_flags cs flags (- 1))"

definition flags_f :: "config_vars \<Rightarrow> bool list \<Rightarrow> (bool list \<times> config_vars) option" where
  "flags_f vars flags =
     (case vars ''flags'' of
        None \<Rightarrow> Some (flags, vars)
      | Some s \<Rightarrow> Some (fst (apply_flags s flags 0), vars(''flags'' := None)))"

section \<open>All settings\<close>

abbreviation (input) video :: "video_config reader \<Rightarrow> settings reader" where
  "video \<equiv> within se_video se_video_update"

abbreviation (input) amd :: "amd_config reader \<Rightarrow> settings reader" where
  "amd \<equiv> within se_amd se_amd_update"

abbreviation (input) vt :: "vt_config reader \<Rightarrow> settings reader" where
  "vt \<equiv> within se_vt se_vt_update"

abbreviation (input) dd :: "dd_config reader \<Rightarrow> settings reader" where
  "dd \<equiv> within se_dd se_dd_update"

abbreviation (input) inp :: "input_config reader \<Rightarrow> settings reader" where
  "inp \<equiv> within se_input se_input_update"

abbreviation (input) host :: "host_config reader \<Rightarrow> settings reader" where
  "host \<equiv> within se_host se_host_update"

definition video_readers :: "settings reader list" where
  "video_readers =
     [video (read_int ''qp'' vc_qp vc_qp_update),
      video (read_between ''hevc_mode'' (0, 3) vc_hevc_mode vc_hevc_mode_update),
      video (read_between ''av1_mode'' (0, 3) vc_av1_mode vc_av1_mode_update),
      video (read_int ''min_threads'' vc_min_threads vc_min_threads_update),
      video (read_string ''sw_preset'' vc_sw_preset vc_sw_preset_update),
      video (read_svtav1),
      video (read_string ''sw_tune'' vc_sw_tune vc_sw_tune_update),
      video (read_between ''nvenc_preset'' (1, 7) vc_nv_preset vc_nv_preset_update),
      video (read_between ''nvenc_vbv_increase'' (0, 400) vc_nv_vbv_increase vc_nv_vbv_increase_update),
      video (read_bool ''nvenc_spatial_aq'' vc_nv_spatial_aq vc_nv_spatial_aq_update),
      video (read_name ''nvenc_twopass'' twopass_from_view vc_nv_two_pass vc_nv_two_pass_update),
      video (read_bool ''nvenc_h264_cavlc'' vc_nv_h264_cavlc vc_nv_h264_cavlc_update),
      video (read_name ''nvenc_split_encode'' split_encode_from_view vc_nv_split vc_nv_split_update),
      video (read_bool ''nvenc_realtime_hags'' vc_nv_realtime_hags vc_nv_realtime_hags_update),
      video (read_bool ''nvenc_opengl_vulkan_on_dxgi'' vc_nv_opengl_vulkan_on_dxgi vc_nv_opengl_vulkan_on_dxgi_update),
      video (read_bool ''nvenc_latency_over_power'' vc_nv_high_power vc_nv_high_power_update),
      video (read_name ''qsv_preset'' qsv_preset_from_view vc_qsv_preset vc_qsv_preset_update),
      video (read_name ''qsv_coder'' qsv_coder_from_view vc_qsv_cavlc vc_qsv_cavlc_update),
      video (read_bool ''qsv_slow_hevc'' vc_qsv_slow_hevc vc_qsv_slow_hevc_update)]"

definition encoder_readers :: "settings reader list" where
  "encoder_readers =
     [amd (read_with (amd_table ''amd_quality'' amd_quality) ac_quality ac_quality_update),
      amd (read_with (amd_table ''amd_rc'' amd_rc) ac_rc ac_rc_update),
      amd (read_name ''amd_coder'' amd_coder_from_view ac_coder ac_coder_update),
      amd (read_with (amd_table ''amd_usage'' amd_usage) ac_usage ac_usage_update),
      amd (read_bool ''amd_preanalysis'' ac_preanalysis ac_preanalysis_update),
      amd (read_bool ''amd_vbaq'' ac_vbaq ac_vbaq_update),
      amd (read_bool ''amd_enforce_hrd'' ac_enforce_hrd ac_enforce_hrd_update),
      vt (read_name ''vt_coder'' vt_coder_from_view vt_coder vt_coder_update),
      vt (read_name ''vt_software'' allow_software_from_view vt_allow_sw vt_allow_sw_update),
      vt (read_name ''vt_software'' force_software_from_view vt_require_sw vt_require_sw_update),
      vt (read_name ''vt_realtime'' rt_from_view vt_realtime vt_realtime_update),
      video (read_bool ''vaapi_strict_rc_buffer'' vc_strict_rc_buffer vc_strict_rc_buffer_update),
      video (read_int ''vk_tune'' vc_vk_tune vc_vk_tune_update),
      video (read_int ''vk_rc_mode'' vc_vk_rc_mode vc_vk_rc_mode_update),
      video (read_string ''capture'' vc_capture vc_capture_update),
      video (read_string ''encoder'' vc_encoder vc_encoder_update),
      video (read_string ''adapter_name'' vc_adapter_name vc_adapter_name_update),
      video (read_string ''output_name'' vc_output_name vc_output_name_update)]"

definition display_readers :: "settings reader list" where
  "display_readers =
     [dd (read_name ''dd_configuration_option'' config_option_from_view dd_configuration_option dd_configuration_option_update),
      dd (read_name ''dd_resolution_option'' resolution_option_from_view dd_resolution_option dd_resolution_option_update),
      dd (read_string ''dd_manual_resolution'' dd_manual_resolution dd_manual_resolution_update),
      dd (read_name ''dd_refresh_rate_option'' refresh_rate_option_from_view dd_refresh_rate_option dd_refresh_rate_option_update),
      dd (read_string ''dd_manual_refresh_rate'' dd_manual_refresh_rate dd_manual_refresh_rate_update),
      dd (read_name ''dd_hdr_option'' hdr_option_from_view dd_hdr_option dd_hdr_option_update),
      dd (read_with revert_delay_f dd_config_revert_delay dd_config_revert_delay_update),
      dd (read_bool ''dd_config_revert_on_disconnect'' dd_config_revert_on_disconnect dd_config_revert_on_disconnect_update),
      discard ''dd_mode_remapping'',
      dd (read_with hdr_toggle_f dd_hdr_toggle_delay dd_hdr_toggle_delay_update),
      video (read_int ''max_bitrate'' vc_max_bitrate vc_max_bitrate_update),
      discard ''minimum_fps_target'']"

definition stream_readers :: "settings reader list" where
  "stream_readers =
     [discard ''pkey'',
      discard ''cert'',
      host (read_string ''sunshine_name'' hc_sunshine_name hc_sunshine_name_update),
      discard ''log_path'',
      discard ''file_state'',
      discard ''credentials_file'',
      host (read_string ''external_ip'' hc_external_ip hc_external_ip_update),
      discard ''global_prep_cmd'',
      host (read_string ''audio_sink'' hc_audio_sink hc_audio_sink_update),
      host (read_string ''virtual_sink'' hc_virtual_sink hc_virtual_sink_update),
      host (read_bool ''stream_audio'' hc_stream_audio hc_stream_audio_update),
      host (read_bool ''install_steam_audio_drivers'' hc_install_steam_drivers hc_install_steam_drivers_update),
      host (read_restricted ''origin_web_ui_allowed'' [''pc'', ''lan'', ''wan''] hc_origin_web_ui_allowed hc_origin_web_ui_allowed_update),
      host (read_with csrf_origins_f hc_csrf_allowed_origins hc_csrf_allowed_origins_update),
      host (read_with ping_timeout_f hc_ping_timeout hc_ping_timeout_update),
      host (read_between ''lan_encryption_mode'' (0, 2) hc_lan_encryption_mode hc_lan_encryption_mode_update),
      host (read_between ''wan_encryption_mode'' (0, 2) hc_wan_encryption_mode hc_wan_encryption_mode_update),
      discard ''file_apps'',
      host (read_between ''fec_percentage'' (1, 255) hc_fec_percentage hc_fec_percentage_update)]"

definition input_readers :: "string list \<Rightarrow> settings reader list" where
  "input_readers gamepads =
     [inp (read_with (\<lambda>vars. map_int_int_f vars ''keybindings'') ic_keybindings ic_keybindings_update),
      inp (read_with rightalt_f ic_keybindings ic_keybindings_update),
      inp (read_with back_button_f ic_back_button_timeout ic_back_button_timeout_update),
      discard ''key_repeat_frequency'',
      inp (read_with key_repeat_delay_f ic_key_repeat_delay ic_key_repeat_delay_update),
      inp (read_restricted ''gamepad'' gamepads ic_gamepad ic_gamepad_update),
      inp (read_bool ''ds4_back_as_touchpad_click'' ic_ds4_back_as_touchpad_click ic_ds4_back_as_touchpad_click_update),
      inp (read_bool ''motion_as_ds4'' ic_motion_as_ds4 ic_motion_as_ds4_update),
      inp (read_bool ''touchpad_as_ds4'' ic_touchpad_as_ds4 ic_touchpad_as_ds4_update),
      inp (read_bool ''ds5_inputtino_randomize_mac'' ic_ds5_randomize_mac ic_ds5_randomize_mac_update),
      inp (read_bool ''mouse'' ic_mouse ic_mouse_update),
      inp (read_bool ''keyboard'' ic_keyboard ic_keyboard_update),
      inp (read_bool ''controller'' ic_controller ic_controller_update),
      inp (read_bool ''always_send_scancodes'' ic_always_send_scancodes ic_always_send_scancodes_update),
      inp (read_bool ''high_resolution_scrolling'' ic_high_resolution_scrolling ic_high_resolution_scrolling_update),
      inp (read_bool ''native_pen_touch'' ic_native_pen_touch ic_native_pen_touch_update)]"

definition host_readers :: "settings reader list" where
  "host_readers =
     [host (read_bool ''notify_pre_releases'' hc_notify_pre_releases hc_notify_pre_releases_update),
      host (read_bool ''system_tray'' hc_system_tray hc_system_tray_update),
      host (read_with port_f hc_port hc_port_update),
      host (add_web_ui_origins),
      host (read_restricted ''address_family'' [''ipv4'', ''both''] hc_address_family hc_address_family_update),
      host (read_string ''bind_address'' hc_bind_address hc_bind_address_update),
      host (read_with upnp_f hc_flags hc_flags_update),
      host (read_restricted ''locale'' locales hc_locale hc_locale_update),
      host (read_with log_level_f hc_min_log_level hc_min_log_level_update),
      host (read_with flags_f hc_flags hc_flags_update)]"

text \<open>\<open>gamepads\<close> are the names of the supported gamepads. What is left of the options was not recognised.\<close>

definition apply_config :: "string list \<Rightarrow> settings reader" where
  "apply_config gamepads = run_readers
     (video_readers @ encoder_readers @ display_readers @ stream_readers @ input_readers gamepads @ host_readers)"

end
