(* ===== verification/Display_Device.thy ===== *)
theory Display_Device
  imports Config_Apply Rtsp
begin

text \<open>
  The display settings of a session, \<^verbatim>\<open>src/display_device.cpp\<close>: the options and the session give a
  configuration, which the display library applies. The library, its scheduler and the devices are
  parameters: what is scheduled is a trace, a scheduled task is a function of what the library reports.
\<close>

section \<open>Numbers\<close>

text \<open>
  Results: a value, a failure that is logged, or arithmetic that C++ leaves undefined.
\<close>

datatype 'a dd_result = Dd_ok 'a | Dd_failed | Dd_undefined

definition dd_bind :: "'a dd_result \<Rightarrow> ('a \<Rightarrow> 'b dd_result) \<Rightarrow> 'b dd_result" where
  "dd_bind r f = (case r of Dd_ok x \<Rightarrow> f x | Dd_failed \<Rightarrow> Dd_failed | Dd_undefined \<Rightarrow> Dd_undefined)"

text \<open>\<^verbatim>\<open>stou\<close> on digits: an unsigned number of 32 bits, otherwise an exception.\<close>

definition stou :: "string \<Rightarrow> nat option" where
  "stou s = (if digits_value s < 2 ^ 32 then Some (nat (digits_value s)) else None)"

definition trim_copy :: "string \<Rightarrow> string" where
  "trim_copy s = trim_end is_space (dropWhile is_space s)"

text \<open>The groups of \<^verbatim>\<open>^(\d+)x(\d+)$\<close> and of \<^verbatim>\<open>^(\d+)(?:\.(\d+))?$\<close>.\<close>

definition all_digits :: "string \<Rightarrow> bool" where
  "all_digits s \<longleftrightarrow> s \<noteq> [] \<and> list_all is_digit s"

definition match_resolution :: "string \<Rightarrow> (string \<times> string) option" where
  "match_resolution s =
     (case dropWhile is_digit s of
        [] \<Rightarrow> None
      | c # b \<Rightarrow> if c = CHR ''x'' \<and> all_digits (takeWhile is_digit s) \<and> all_digits b
          then Some (takeWhile is_digit s, b) else None)"

definition match_refresh_rate :: "bool \<Rightarrow> string \<Rightarrow> (string \<times> string option) option" where
  "match_refresh_rate allow_decimal_point s =
     (case dropWhile is_digit s of
        [] \<Rightarrow> if s = [] then None else Some (s, None)
      | c # b \<Rightarrow> if allow_decimal_point \<and> c = CHR ''.'' \<and> all_digits (takeWhile is_digit s) \<and> all_digits b
          then Some (takeWhile is_digit s, Some b) else None)"

definition parse_resolution_string :: "string \<Rightarrow> (nat \<times> nat) option dd_result" where
  "parse_resolution_string input =
     (case match_resolution (trim_copy input) of
        Some (w, h) \<Rightarrow> (case (stou w, stou h) of (Some w, Some h) \<Rightarrow> Dd_ok (Some (w, h)) | _ \<Rightarrow> Dd_failed)
      | None \<Rightarrow> if trim_copy input = [] then Dd_ok None else Dd_failed)"

text \<open>
  The refresh rate as a fraction. The denominator is a power of 10 computed as a floating point number
  and converted to 32 bits, undefined when it does not fit.
\<close>

definition is_zero :: "char \<Rightarrow> bool" where
  "is_zero c \<longleftrightarrow> c = CHR ''0''"

definition parse_refresh_rate_string :: "string \<Rightarrow> bool \<Rightarrow> (nat \<times> nat) option dd_result" where
  "parse_refresh_rate_string input allow_decimal_point =
     (case match_refresh_rate allow_decimal_point (trim_copy input) of
        None \<Rightarrow> if trim_copy input = [] then Dd_ok None else Dd_failed
      | Some (match_1, match_2) \<Rightarrow>
          let trimmed_match_1 = dropWhile is_zero match_1;
              trimmed_match_1 = (if trimmed_match_1 = [] then ''0'' else trimmed_match_1);
              trimmed_match_2 = (case match_2 of
                Some m \<Rightarrow> if allow_decimal_point then trim_end is_zero m else [] | None \<Rightarrow> [])
          in if trimmed_match_2 \<noteq> []
             then (case stou (trimmed_match_1 @ trimmed_match_2) of
                     None \<Rightarrow> Dd_failed
                   | Some numerator \<Rightarrow>
                       if (10 :: nat) ^ length trimmed_match_2 < 2 ^ 32
                       then Dd_ok (Some (numerator, 10 ^ length trimmed_match_2)) else Dd_undefined)
             else (case stou trimmed_match_1 of None \<Rightarrow> Dd_failed | Some n \<Rightarrow> Dd_ok (Some (n, 1))))"

section \<open>Options\<close>

datatype device_preparation = VerifyOnly | EnsureActive | EnsurePrimary | EnsureOnlyDisplay

record display_configuration =
  dc_device_id :: string
  dc_device_prep :: device_preparation
  dc_resolution :: "(nat \<times> nat) option"
  dc_refresh_rate :: "(nat \<times> nat) option"
  dc_hdr_state :: "bool option"

definition parse_device_prep_option :: "dd_config \<Rightarrow> device_preparation option" where
  "parse_device_prep_option ddc =
     (case dd_configuration_option ddc of
        Verify_only \<Rightarrow> Some VerifyOnly
      | Ensure_active \<Rightarrow> Some EnsureActive
      | Ensure_primary \<Rightarrow> Some EnsurePrimary
      | Ensure_only_display \<Rightarrow> Some EnsureOnlyDisplay
      | Dd_disabled \<Rightarrow> None)"

definition parse_resolution_option :: "dd_config \<Rightarrow> launch_session \<Rightarrow> display_configuration \<Rightarrow> display_configuration dd_result" where
  "parse_resolution_option ddc session config =
     (case dd_resolution_option ddc of
        Mode_automatic \<Rightarrow>
          if \<not> ls_enable_sops session then Dd_ok config
          else if 0 \<le> ls_width session \<and> 0 \<le> ls_height session
          then Dd_ok (config\<lparr>dc_resolution := Some (nat (ls_width session), nat (ls_height session))\<rparr>)
          else Dd_failed
      | Mode_manual \<Rightarrow>
          if \<not> ls_enable_sops session then Dd_ok config
          else dd_bind (parse_resolution_string (dd_manual_resolution ddc)) (\<lambda>r.
            if r = None then Dd_failed else Dd_ok (config\<lparr>dc_resolution := r\<rparr>))
      | Mode_disabled \<Rightarrow> Dd_ok config)"

definition parse_refresh_rate_option :: "dd_config \<Rightarrow> launch_session \<Rightarrow> display_configuration \<Rightarrow> display_configuration dd_result" where
  "parse_refresh_rate_option ddc session config =
     (case dd_refresh_rate_option ddc of
        Mode_automatic \<Rightarrow>
          if 0 \<le> ls_fps session then Dd_ok (config\<lparr>dc_refresh_rate := Some (nat (ls_fps session), 1)\<rparr>) else Dd_failed
      | Mode_manual \<Rightarrow>
          dd_bind (parse_refresh_rate_string (dd_manual_refresh_rate ddc) True) (\<lambda>r.
            if r = None then Dd_failed else Dd_ok (config\<lparr>dc_refresh_rate := r\<rparr>))
      | Mode_disabled \<Rightarrow> Dd_ok config)"

definition parse_hdr_option :: "dd_config \<Rightarrow> launch_session \<Rightarrow> bool option" where
  "parse_hdr_option ddc session =
     (case dd_hdr_option ddc of Hdr_automatic \<Rightarrow> Some (ls_enable_hdr session) | Hdr_disabled \<Rightarrow> None)"

section \<open>Remapping\<close>

record remapping_entry =
  rm_requested_resolution :: string
  rm_requested_fps :: string
  rm_final_resolution :: string
  rm_final_refresh_rate :: string

record mode_remapping =
  mr_mixed :: "remapping_entry list"
  mr_resolution_only :: "remapping_entry list"
  mr_refresh_rate_only :: "remapping_entry list"

datatype remapping_type = Mixed | Resolution_only | Refresh_rate_only

definition determine_remapping_type :: "dd_config \<Rightarrow> remapping_type option" where
  "determine_remapping_type ddc =
     (let auto_resolution = (dd_resolution_option ddc = Mode_automatic);
          auto_refresh_rate = (dd_refresh_rate_option ddc = Mode_automatic)
      in if auto_resolution \<and> auto_refresh_rate then Some Mixed
         else if auto_resolution then Some Resolution_only
         else if auto_refresh_rate then Some Refresh_rate_only
         else None)"

definition is_resolution_mapped :: "remapping_type \<Rightarrow> bool" where
  "is_resolution_mapped type \<longleftrightarrow> type = Resolution_only \<or> type = Mixed"

definition is_fps_mapped :: "remapping_type \<Rightarrow> bool" where
  "is_fps_mapped type \<longleftrightarrow> type = Refresh_rate_only \<or> type = Mixed"

record parsed_remapping_entry =
  pe_requested_resolution :: "(nat \<times> nat) option"
  pe_requested_fps :: "(nat \<times> nat) option"
  pe_final_resolution :: "(nat \<times> nat) option"
  pe_final_refresh_rate :: "(nat \<times> nat) option"

definition parse_remapping_entry :: "remapping_entry \<Rightarrow> remapping_type \<Rightarrow> parsed_remapping_entry dd_result" where
  "parse_remapping_entry entry type =
     (let resolution = (\<lambda>s. if is_resolution_mapped type then parse_resolution_string s else Dd_ok None);
          rate = (\<lambda>s allow. if is_fps_mapped type then parse_refresh_rate_string s allow else Dd_ok None)
      in dd_bind (resolution (rm_requested_resolution entry)) (\<lambda>requested_resolution.
         dd_bind (resolution (rm_final_resolution entry)) (\<lambda>final_resolution.
         dd_bind (rate (rm_requested_fps entry) False) (\<lambda>requested_fps.
         dd_bind (rate (rm_final_refresh_rate entry) True) (\<lambda>final_refresh_rate.
           Dd_ok \<lparr>pe_requested_resolution = requested_resolution, pe_requested_fps = requested_fps,
             pe_final_resolution = final_resolution, pe_final_refresh_rate = final_refresh_rate\<rparr>)))))"

definition apply_entry :: "parsed_remapping_entry \<Rightarrow> display_configuration \<Rightarrow> display_configuration" where
  "apply_entry e config =
     config\<lparr>dc_resolution := (if pe_final_resolution e \<noteq> None then pe_final_resolution e else dc_resolution config),
       dc_refresh_rate := (if pe_final_refresh_rate e \<noteq> None then pe_final_refresh_rate e else dc_refresh_rate config)\<rparr>"

text \<open>The entries in order: a bad one ends with a failure, the first that fits is applied.\<close>

fun remap_loop :: "remapping_type \<Rightarrow> launch_session \<Rightarrow> remapping_entry list \<Rightarrow> display_configuration \<Rightarrow> display_configuration dd_result" where
  "remap_loop type session [] config = Dd_ok config"
| "remap_loop type session (entry # entries) config =
     dd_bind (parse_remapping_entry entry type) (\<lambda>e.
       if pe_final_resolution e = None \<and> pe_final_refresh_rate e = None then Dd_failed
       else if \<not> ls_enable_sops session \<and> (pe_requested_resolution e \<noteq> None \<or> pe_final_resolution e \<noteq> None)
       then remap_loop type session entries config
       else if pe_requested_resolution e \<noteq> None \<and> pe_requested_resolution e \<noteq> dc_resolution config
       then remap_loop type session entries config
       else if pe_requested_fps e \<noteq> None \<and> pe_requested_fps e \<noteq> dc_refresh_rate config
       then remap_loop type session entries config
       else Dd_ok (apply_entry e config))"

definition remapping_list :: "remapping_type \<Rightarrow> mode_remapping \<Rightarrow> remapping_entry list" where
  "remapping_list type remapping =
     (case type of Resolution_only \<Rightarrow> mr_resolution_only remapping
      | Refresh_rate_only \<Rightarrow> mr_refresh_rate_only remapping | Mixed \<Rightarrow> mr_mixed remapping)"

definition remap_display_mode_if_needed :: "dd_config \<Rightarrow> mode_remapping \<Rightarrow> launch_session \<Rightarrow> display_configuration \<Rightarrow> display_configuration dd_result" where
  "remap_display_mode_if_needed ddc remapping session config =
     (case determine_remapping_type ddc of
        None \<Rightarrow> Dd_ok config
      | Some type \<Rightarrow> remap_loop type session (remapping_list type remapping) config)"

text \<open>The configuration of a session; \<open>Inl ()\<close> when the display is not to be configured.\<close>

definition parse_configuration :: "dd_config \<Rightarrow> mode_remapping \<Rightarrow> string \<Rightarrow> launch_session \<Rightarrow> unit + display_configuration dd_result" where
  "parse_configuration ddc remapping output_name session =
     (case parse_device_prep_option ddc of
        None \<Rightarrow> Inl ()
      | Some device_prep \<Rightarrow>
          Inr (dd_bind (parse_resolution_option ddc session
                 \<lparr>dc_device_id = output_name, dc_device_prep = device_prep, dc_resolution = None, dc_refresh_rate = None,
                  dc_hdr_state = parse_hdr_option ddc session\<rparr>) (\<lambda>config.
               dd_bind (parse_refresh_rate_option ddc session config)
                 (remap_display_mode_if_needed ddc remapping session))))"

section \<open>Scheduling\<close>

text \<open>
  The global data: the delay and whether there is a manager. A scheduled task comes with its sleeping
  times in milliseconds, the last one repeating, and whether it also runs at once.
\<close>

datatype dd_task = Apply_task display_configuration | Revert_task bool

datatype dd_effect =
    Schedule dd_task "int list" bool
  | Enumerate_devices
  | Reset_persistence

record dd_data =
  dt_config_revert_delay :: int
  dt_sm_instance :: bool
  dt_out :: "dd_effect list"

definition DEFAULT_RETRY_INTERVAL :: int where "DEFAULT_RETRY_INTERVAL = 5000"

definition dd_emit :: "dd_effect \<Rightarrow> dd_data \<Rightarrow> dd_data" where
  "dd_emit e d = d\<lparr>dt_out := dt_out d @ [e]\<rparr>"

datatype revert_option = Try_once | Try_indefinitely | Try_indefinitely_with_delay

definition revert_configuration_unlocked :: "revert_option \<Rightarrow> dd_data \<Rightarrow> dd_data" where
  "revert_configuration_unlocked option d =
     (if \<not> dt_sm_instance d then d
      else if option = Try_indefinitely_with_delay \<and> 0 < dt_config_revert_delay d
      then dd_emit (Schedule (Revert_task False) [dt_config_revert_delay d, DEFAULT_RETRY_INTERVAL] False) d
      else dd_emit (Schedule (Revert_task (option = Try_once)) [DEFAULT_RETRY_INTERVAL] True) d)"

text \<open>
  One run of the revert task: the devices that were there when it last failed and the ones that are
  there now; whether the settings were reverted, whether it stops, and the devices tried.
\<close>

datatype revert_result = Revert_ok | Api_temporarily_unavailable | Revert_failed

definition revert_attempt :: "bool \<Rightarrow> string set \<Rightarrow> string set \<Rightarrow> revert_result \<Rightarrow> bool \<times> bool \<times> string set" where
  "revert_attempt try_once tried_out_devices available_devices result =
     (if try_once then (True, True, tried_out_devices)
      else if available_devices = tried_out_devices then (False, False, tried_out_devices)
      else case result of
        Revert_ok \<Rightarrow> (True, True, tried_out_devices)
      | Api_temporarily_unavailable \<Rightarrow> (True, False, tried_out_devices)
      | Revert_failed \<Rightarrow> (True, False, available_devices))"

definition dd_init :: "bool \<Rightarrow> int \<Rightarrow> dd_data \<Rightarrow> dd_data" where
  "dd_init settings_manager config_revert_delay d =
     (let d = (revert_configuration_unlocked Try_once d)\<lparr>dt_config_revert_delay := config_revert_delay, dt_sm_instance := False\<rparr>
      in if settings_manager
         then revert_configuration_unlocked Try_indefinitely (dd_emit Enumerate_devices (d\<lparr>dt_sm_instance := True\<rparr>))
         else d)"

definition dd_deinit :: "dd_data \<Rightarrow> dd_data" where
  "dd_deinit d = (revert_configuration_unlocked Try_once d)\<lparr>dt_sm_instance := False\<rparr>"

definition map_output_name :: "(string \<Rightarrow> string) \<Rightarrow> string \<Rightarrow> dd_data \<Rightarrow> string" where
  "map_output_name getDisplayName output_name d = (if dt_sm_instance d then getDisplayName output_name else output_name)"

definition schedule_configuration :: "display_configuration \<Rightarrow> dd_data \<Rightarrow> dd_data" where
  "schedule_configuration config d =
     (if dt_sm_instance d then dd_emit (Schedule (Apply_task config) [DEFAULT_RETRY_INTERVAL] True) d else d)"

definition dd_revert_configuration :: "dd_data \<Rightarrow> dd_data" where
  "dd_revert_configuration d = revert_configuration_unlocked Try_indefinitely_with_delay d"

definition configure_display :: "dd_config \<Rightarrow> mode_remapping \<Rightarrow> string \<Rightarrow> launch_session \<Rightarrow> dd_data \<Rightarrow> dd_data" where
  "configure_display ddc remapping output_name session d =
     (case parse_configuration ddc remapping output_name session of
        Inl _ \<Rightarrow> dd_revert_configuration d
      | Inr (Dd_ok config) \<Rightarrow> schedule_configuration config d
      | Inr _ \<Rightarrow> d)"

definition reset_persistence :: "bool \<Rightarrow> dd_data \<Rightarrow> bool \<times> dd_data" where
  "reset_persistence result d = (if dt_sm_instance d then (result, dd_emit Reset_persistence d) else (True, d))"

text \<open>
  The audio context that is held while the display changes: released, and how often the release is
  still put off when the sink of the host is missing.
\<close>

record audio_hold =
  ah_released :: bool
  ah_retry_counter :: nat

definition hold_capture :: audio_hold where
  "hold_capture = \<lparr>ah_released = False, ah_retry_counter = 15\<rparr>"

definition hold_is_captured :: "audio_hold option \<Rightarrow> bool" where
  "hold_is_captured hold = (case hold of None \<Rightarrow> False | Some h \<Rightarrow> \<not> ah_released h)"

text \<open>One run of the release task: the hold afterwards and whether the task stops.\<close>

definition hold_release :: "bool \<Rightarrow> audio_hold option \<Rightarrow> audio_hold option \<times> bool" where
  "hold_release sink_missing hold =
     (case hold of
        None \<Rightarrow> (None, True)
      | Some h \<Rightarrow>
          let h = h\<lparr>ah_released := True\<rparr>
          in if sink_missing \<and> 0 < ah_retry_counter h then (Some (h\<lparr>ah_retry_counter := ah_retry_counter h - 1\<rparr>), False)
             else (None, True))"

end
