(* ===== verification/Display_Props.thy ===== *)
theory Display_Props
  imports Display_Device
begin

text \<open>
  Properties of the display settings: refresh rates are read exactly, and what the settings leave alone
  is never configured.
\<close>

section \<open>Decimal numbers\<close>

lemma fold_digits:
  "fold (\<lambda>d n. 10 * n + (of_char d - 48)) ds (n :: int) = n * 10 ^ length ds + fold (\<lambda>d n. 10 * n + (of_char d - 48)) ds 0"
proof (induction ds arbitrary: n)
  case (Cons d ds)
  show ?case
    unfolding fold_Cons comp_def using Cons.IH [of "10 * n + (of_char d - 48)"] Cons.IH [of "10 * 0 + (of_char d - 48)"]
    by (simp add: algebra_simps)
qed simp

lemma digits_value_append: "digits_value (a @ b) = digits_value a * 10 ^ length b + digits_value b"
  using fold_digits [of b "digits_value a"] by (simp add: digits_value_def)

lemma digits_value_Cons: "digits_value (d # ds) = (of_char d - 48) * 10 ^ length ds + digits_value ds"
  using digits_value_append [of "[d]" ds] by (simp add: digits_value_def)

lemma digits_value_nonneg: "list_all is_digit ds \<Longrightarrow> 0 \<le> digits_value ds"
proof (induction ds)
  case (Cons d ds)
  have "0 \<le> (of_char d :: int) - 48"
    using Cons.prems by (simp add: is_digit_def Let_def) (metis of_char_of of_nat_le_iff of_nat_numeral of_nat_of_char)
  then show ?case using Cons by (simp add: digits_value_Cons)
qed (simp add: digits_value_def)

lemma digits_value_zeros: "digits_value (replicate k CHR ''0'') = 0"
  by (induction k) (simp_all add: digits_value_def)

lemma leading_zeros: "digits_value (dropWhile is_zero a) = digits_value a"
  by (induction a) (simp_all add: is_zero_def digits_value_Cons)

lemma trim_zeros:
  obtains k where "b = trim_end is_zero b @ replicate k CHR ''0''"
proof -
  have "b = rev (dropWhile is_zero (rev b)) @ rev (takeWhile is_zero (rev b))"
    by (metis rev_append rev_rev_ident takeWhile_dropWhile_id)
  moreover have "takeWhile is_zero (rev b) = replicate (length (takeWhile is_zero (rev b))) CHR ''0''"
    by (rule replicate_eqI) (auto simp: is_zero_def dest: set_takeWhileD)
  ultimately show thesis using that [of "length (takeWhile is_zero (rev b))"] by (metis rev_replicate trim_end_def)
qed

lemma digit_no_space: "is_digit c \<Longrightarrow> \<not> is_space c"
  by (auto simp: is_digit_def is_space_def Let_def)

lemma trim_copy_eq:
  assumes "list_all is_space s1" and "list_all is_space s2" and "x \<noteq> []" and "\<not> is_space (hd x)" and "\<not> is_space (last x)"
  shows "trim_copy (s1 @ x @ s2) = x"
proof -
  have "dropWhile is_space (s1 @ x @ s2) = x @ s2"
    using assms by (subst dropWhile_append2) (auto simp: list_all_iff dropWhile_append dropWhile_eq_self_iff)
  moreover have "dropWhile is_space (rev s2 @ rev x) = rev x"
    using assms by (subst dropWhile_append2) (auto simp: list_all_iff dropWhile_eq_self_iff hd_rev)
  ultimately show ?thesis by (simp add: trim_copy_def trim_end_def)
qed

lemma match_decimal:
  assumes "all_digits a" and "all_digits b"
  shows "match_refresh_rate True (a @ CHR ''.'' # b) = Some (a, Some b)"
proof -
  have dot: "\<not> is_digit CHR ''.''" by (simp add: is_digit_def)
  have "dropWhile is_digit (a @ CHR ''.'' # b) = CHR ''.'' # b" "takeWhile is_digit (a @ CHR ''.'' # b) = a"
    using assms(1) dot by (auto simp: all_digits_def list_all_iff dropWhile_append takeWhile_append)
  then show ?thesis using assms by (simp add: match_refresh_rate_def)
qed

text \<open>
  Refresh rates are read exactly. For a decimal number with blanks around it the fraction that
  is read has the value of the number, numerator and denominator fit into 32 bits; the text is
  refused only if its digits make a number of more than 32 bits, and the conversion is undefined
  only if there are more than nine digits behind the point.
\<close>

theorem refresh_rate_exact:
  assumes digits: "all_digits a" "all_digits b" and blanks: "list_all is_space s1" "list_all is_space s2"
  shows "case parse_refresh_rate_string (s1 @ (a @ ''.'' @ b) @ s2) True of
      Dd_ok (Some (n, d)) \<Rightarrow> int n * 10 ^ length b = digits_value (a @ b) * int d \<and> 0 < d \<and> d < 2 ^ 32 \<and> n < 2 ^ 32
    | Dd_ok None \<Rightarrow> False
    | Dd_failed \<Rightarrow> 2 ^ 32 \<le> digits_value (a @ b)
    | Dd_undefined \<Rightarrow> 9 < length b"
proof -
  have ends: "a @ ''.'' @ b \<noteq> []" "\<not> is_space (hd (a @ ''.'' @ b))" "\<not> is_space (last (a @ ''.'' @ b))"
    using digits digit_no_space by (cases a; cases b rule: rev_cases; auto simp: all_digits_def)+
  note trim = trim_copy_eq [OF blanks ends]
  define t1 where "t1 = (if dropWhile is_zero a = [] then ''0'' else dropWhile is_zero a)"
  define t2 where "t2 = trim_end is_zero b"
  obtain k where b: "b = t2 @ replicate k CHR ''0''" unfolding t2_def by (rule trim_zeros)
  have v1: "digits_value t1 = digits_value a"
  proof (cases "dropWhile is_zero a = []")
    case True
    then have "digits_value a = 0" using leading_zeros [of a] by (simp only: digits_value_def fold.simps id_apply)
    then show ?thesis using True by (simp add: t1_def digits_value_def)
  next
    case False
    then show ?thesis by (simp only: t1_def leading_zeros if_False)
  qed
  have val: "digits_value (a @ b) = digits_value (t1 @ t2) * 10 ^ k"
    by (subst b) (simp add: digits_value_append v1 digits_value_zeros power_add algebra_simps)
  have nonneg: "0 \<le> digits_value (t1 @ t2)"
  proof -
    have "0 \<le> digits_value (t1 @ t2) * 10 ^ k" using digits_value_nonneg [of "a @ b"] digits val by (simp add: all_digits_def)
    moreover have "(0 :: int) < 10 ^ k" by simp
    ultimately show ?thesis by (meson mult_le_0_iff not_le zero_le_mult_iff)
  qed
  have len: "length b = length t2 + k" by (subst b) simp
  have more: "2 ^ 32 \<le> digits_value (a @ b)" if "\<not> digits_value (t1 @ t2) < 2 ^ 32"
  proof -
    have "digits_value (t1 @ t2) * 1 \<le> digits_value (t1 @ t2) * 10 ^ k" using nonneg by (intro mult_left_mono) simp_all
    then have "digits_value (t1 @ t2) \<le> digits_value (a @ b)" by (simp only: val mult_1_right)
    then show ?thesis using that by linarith
  qed
  have few: "9 < length t2 + i" if "\<not> (10 :: nat) ^ length t2 < 2 ^ 32" for i
  proof -
    have "\<not> length t2 \<le> 9" using that power_increasing [of "length t2" 9 "10 :: nat"] by auto
    then show ?thesis by simp
  qed
  have parse: "parse_refresh_rate_string (s1 @ (a @ ''.'' @ b) @ s2) True =
    (if t2 \<noteq> [] then (case stou (t1 @ t2) of None \<Rightarrow> Dd_failed
       | Some numerator \<Rightarrow> if (10 :: nat) ^ length t2 < 2 ^ 32 then Dd_ok (Some (numerator, 10 ^ length t2)) else Dd_undefined)
     else (case stou t1 of None \<Rightarrow> Dd_failed | Some n \<Rightarrow> Dd_ok (Some (n, 1))))"
    using match_decimal [OF digits]
    by (simp only: parse_refresh_rate_string_def trim [unfolded append.simps] append.simps option.case prod.case if_True
        Let_def t1_def t2_def)
  show ?thesis
  proof (cases "digits_value (t1 @ t2) < 2 ^ 32")
    case False
    then show ?thesis using more [OF False] parse by (auto simp: stou_def split: if_splits)
  next
    case True
    then have num: "stou (t1 @ t2) = Some (nat (digits_value (t1 @ t2)))" "nat (digits_value (t1 @ t2)) < 2 ^ 32"
      using nonneg by (simp_all add: stou_def)
    show ?thesis
    proof (cases "t2 = []")
      case True
      then show ?thesis using parse num val nonneg len by simp
    next
      case False
      then show ?thesis using parse num val nonneg len few by (auto simp: power_add)
    qed
  qed
qed

text \<open>Evaluation in two steps: the text, then the numbers.\<close>

lemma parse_split:
  assumes "trim_copy s = a @ ''.'' @ b" and "all_digits a" and "all_digits b" and "dropWhile is_zero a = t1" and "t1 \<noteq> []"
    and "trim_end is_zero b = t2" and "t2 \<noteq> []" and "digits_value (t1 @ t2) = v" and "v < 2 ^ 32"
  shows "parse_refresh_rate_string s True =
    (if (10 :: nat) ^ length t2 < 2 ^ 32 then Dd_ok (Some (nat v, 10 ^ length t2)) else Dd_undefined)"
  using assms match_decimal [OF assms(2,3)] by (simp add: parse_refresh_rate_string_def stou_def Let_def)

theorem refresh_rate_exact_witness:
  "parse_refresh_rate_string '' 59.940 '' True = Dd_ok (Some (5994, 100)) \<and> int 5994 * 10 ^ 3 = digits_value ''59940'' * int 100"
proof -
  have "parse_refresh_rate_string '' 59.940 '' True =
      (if (10 :: nat) ^ length ''94'' < 2 ^ 32 then Dd_ok (Some (nat 5994, 10 ^ length ''94'')) else Dd_undefined)"
    by (rule parse_split [where a = "''59''" and b = "''940''" and ?t1.0 = "''59''"]) code_simp+
  then have parse: "parse_refresh_rate_string '' 59.940 '' True = Dd_ok (Some (5994, 100))" by simp
  have "all_digits ''59''" "all_digits ''940''" "list_all is_space '' ''" by code_simp+
  from refresh_rate_exact [OF this(1,2,3,3)] show ?thesis by (simp add: parse)
qed

text \<open>With ten digits the denominator does not fit: \<^verbatim>\<open>static_cast<unsigned int>\<close> of 10000000000.0.\<close>

lemma refresh_rate_undefined: "parse_refresh_rate_string ''0.0000000001'' True = Dd_undefined"
proof -
  have "trim_copy ''0.0000000001'' = ''0'' @ ''.'' @ ''0000000001''" "all_digits ''0''" "all_digits ''0000000001''"
    "dropWhile is_zero ''0'' = []" "trim_end is_zero ''0000000001'' = ''0000000001''" "digits_value ''00000000001'' = 1"
    by code_simp+
  then show ?thesis
    using match_decimal [of "''0''" "''0000000001''"] by (simp add: parse_refresh_rate_string_def stou_def Let_def)
qed

section \<open>What is left alone\<close>

lemma dd_bind_ok: "dd_bind r f = Dd_ok y \<longleftrightarrow> (\<exists>x. r = Dd_ok x \<and> f x = Dd_ok y)"
  by (cases r) (simp_all add: dd_bind_def)

text \<open>Entries are parsed only as far as their type maps.\<close>

lemma parse_remapping_entry_parts:
  assumes "parse_remapping_entry entry type = Dd_ok e"
  shows "(\<not> is_resolution_mapped type \<longrightarrow> pe_final_resolution e = None) \<and>
    (\<not> is_fps_mapped type \<longrightarrow> pe_final_refresh_rate e = None)"
  using assms by (auto simp: parse_remapping_entry_def Let_def dd_bind_ok split: if_splits)

lemma last_branch:
  "(if a then f else if b then l else if c then l else if d then l else r) = x \<Longrightarrow> l \<noteq> x \<Longrightarrow> f \<noteq> x \<Longrightarrow> r = x \<and> \<not> b"
  by (auto split: if_splits)

lemma remap_loop_keeps:
  assumes "remap_loop type session entries config = Dd_ok config'"
  shows "((\<not> is_resolution_mapped type \<or> \<not> ls_enable_sops session) \<longrightarrow> dc_resolution config' = dc_resolution config) \<and>
    (\<not> is_fps_mapped type \<longrightarrow> dc_refresh_rate config' = dc_refresh_rate config) \<and>
    dc_device_id config' = dc_device_id config \<and> dc_device_prep config' = dc_device_prep config \<and>
    dc_hdr_state config' = dc_hdr_state config"
  using assms
proof (induction entries)
  case (Cons entry entries)
  obtain e where e: "parse_remapping_entry entry type = Dd_ok e"
    using Cons.prems by (cases "parse_remapping_entry entry type") (simp_all add: dd_bind_def)
  show ?case
  proof (cases "remap_loop type session entries config = Dd_ok config'")
    case True
    then show ?thesis by (rule Cons.IH)
  next
    case False
    from last_branch [OF Cons.prems [unfolded remap_loop.simps e dd_bind_def dd_result.case] this]
    have "config' = apply_entry e config" "ls_enable_sops session \<or> pe_final_resolution e = None" by auto
    then show ?thesis using parse_remapping_entry_parts [OF e] by (auto simp: apply_entry_def)
  qed
qed simp

text \<open>
  What the settings leave alone is not configured. Whatever the remappings and the client's wishes,
  the configuration that is applied has no resolution if the option is disabled or the client does not
  allow to optimise its settings, no refresh rate if that option is disabled, and no HDR state if that is
  disabled; it is for the configured output, and there is none if the device is not to be configured.
\<close>

theorem display_left_alone:
  "case parse_configuration ddc remapping output_name session of
      Inl _ \<Rightarrow> dd_configuration_option ddc = Dd_disabled
    | Inr (Dd_ok config) \<Rightarrow>
        dd_configuration_option ddc \<noteq> Dd_disabled \<and> dc_device_id config = output_name \<and>
        (dd_resolution_option ddc = Mode_disabled \<or> \<not> ls_enable_sops session \<longrightarrow> dc_resolution config = None) \<and>
        (dd_refresh_rate_option ddc = Mode_disabled \<longrightarrow> dc_refresh_rate config = None) \<and>
        (dd_hdr_option ddc = Hdr_disabled \<longrightarrow> dc_hdr_state config = None)
    | Inr _ \<Rightarrow> dd_configuration_option ddc \<noteq> Dd_disabled"
proof (cases "parse_device_prep_option ddc")
  case None
  then show ?thesis
    by (simp add: parse_configuration_def) (simp add: parse_device_prep_option_def split: dd_config_option.splits)
next
  case (Some device_prep)
  then have enabled: "dd_configuration_option ddc \<noteq> Dd_disabled" by (auto simp: parse_device_prep_option_def)
  define c0 where "c0 = \<lparr>dc_device_id = output_name, dc_device_prep = device_prep, dc_resolution = None,
      dc_refresh_rate = None, dc_hdr_state = parse_hdr_option ddc session\<rparr>"
  define r where "r = dd_bind (parse_resolution_option ddc session c0) (\<lambda>config.
      dd_bind (parse_refresh_rate_option ddc session config) (remap_display_mode_if_needed ddc remapping session))"
  have parse: "parse_configuration ddc remapping output_name session = Inr r"
    using Some by (simp add: parse_configuration_def r_def c0_def)
  have ok: "dc_device_id c = output_name \<and>
      (dd_resolution_option ddc = Mode_disabled \<or> \<not> ls_enable_sops session \<longrightarrow> dc_resolution c = None) \<and>
      (dd_refresh_rate_option ddc = Mode_disabled \<longrightarrow> dc_refresh_rate c = None) \<and>
      (dd_hdr_option ddc = Hdr_disabled \<longrightarrow> dc_hdr_state c = None)" if r_ok: "r = Dd_ok c" for c
  proof -
    obtain c1 c2 where c1: "parse_resolution_option ddc session c0 = Dd_ok c1"
      and c2: "parse_refresh_rate_option ddc session c1 = Dd_ok c2"
      and c3: "remap_display_mode_if_needed ddc remapping session c2 = Dd_ok c"
      using r_ok by (auto simp: r_def dd_bind_ok)
    have p1: "dc_device_id c1 = output_name" "dc_hdr_state c1 = parse_hdr_option ddc session" "dc_refresh_rate c1 = None"
      "dd_resolution_option ddc = Mode_disabled \<or> \<not> ls_enable_sops session \<longrightarrow> dc_resolution c1 = None"
      using c1 by (auto simp: parse_resolution_option_def c0_def dd_bind_ok split: dd_mode_option.splits if_splits)
    have p2: "dc_device_id c2 = dc_device_id c1" "dc_hdr_state c2 = dc_hdr_state c1" "dc_resolution c2 = dc_resolution c1"
      "dd_refresh_rate_option ddc = Mode_disabled \<longrightarrow> dc_refresh_rate c2 = dc_refresh_rate c1"
      using c2 by (auto simp: parse_refresh_rate_option_def dd_bind_ok split: dd_mode_option.splits if_splits)
    have p3: "dc_device_id c = dc_device_id c2" "dc_hdr_state c = dc_hdr_state c2"
      "dd_resolution_option ddc = Mode_disabled \<or> \<not> ls_enable_sops session \<longrightarrow> dc_resolution c = dc_resolution c2"
      "dd_refresh_rate_option ddc = Mode_disabled \<longrightarrow> dc_refresh_rate c = dc_refresh_rate c2"
    proof -
      show "dc_device_id c = dc_device_id c2" "dc_hdr_state c = dc_hdr_state c2"
        using c3 remap_loop_keeps by (auto simp: remap_display_mode_if_needed_def split: option.splits)
      show "dd_resolution_option ddc = Mode_disabled \<or> \<not> ls_enable_sops session \<longrightarrow> dc_resolution c = dc_resolution c2"
        "dd_refresh_rate_option ddc = Mode_disabled \<longrightarrow> dc_refresh_rate c = dc_refresh_rate c2"
        using c3 remap_loop_keeps
        by (auto simp: remap_display_mode_if_needed_def determine_remapping_type_def is_resolution_mapped_def is_fps_mapped_def
            Let_def split: option.splits if_splits)
    qed
    show ?thesis using p1 p2 p3 by (auto simp: parse_hdr_option_def split: dd_hdr_option.splits)
  qed
  show ?thesis using parse enabled ok by (cases r) simp_all
qed

text \<open>A client of 1080p at 60 Hz without the wish to optimise, settings for both modes, a remapping of the rate.\<close>

definition sample_dd :: dd_config where
  "sample_dd = \<lparr>dd_configuration_option = Ensure_active, dd_resolution_option = Mode_automatic, dd_manual_resolution = [],
     dd_refresh_rate_option = Mode_automatic, dd_manual_refresh_rate = [], dd_hdr_option = Hdr_disabled,
     dd_config_revert_delay = 3000, dd_config_revert_on_disconnect = False, dd_hdr_toggle_delay = 0\<rparr>"

definition sample_remapping :: mode_remapping where
  "sample_remapping = \<lparr>mr_mixed = [\<lparr>rm_requested_resolution = [], rm_requested_fps = ''60'', rm_final_resolution = [],
       rm_final_refresh_rate = ''120''\<rparr>], mr_resolution_only = [], mr_refresh_rate_only = []\<rparr>"

definition sample_viewer :: launch_session where
  "sample_viewer = \<lparr>ls_id = 1, ls_gcm_key = [], ls_iv = [], ls_av_ping_payload = [], ls_control_connect_data = 0,
     ls_host_audio = False, ls_unique_id = [], ls_width = 1920, ls_height = 1080, ls_fps = 60, ls_gcmap = 0, ls_appid = 1,
     ls_surround_info = 2, ls_surround_params = [], ls_continuous_audio = False, ls_enable_hdr = True,
     ls_enable_sops = False, ls_rtsp_cipher = False, ls_rtsp_url_scheme = [], ls_rtsp_iv_counter = 0\<rparr>"

theorem display_left_alone_witness:
  "\<exists>config. parse_configuration sample_dd sample_remapping ''DP-1'' sample_viewer = Inr (Dd_ok config) \<and>
     dc_resolution config = None \<and> dc_refresh_rate config = Some (120, 1) \<and> dc_hdr_state config = None"
proof -
  have fps: "parse_refresh_rate_string ''60'' False = Dd_ok (Some (60, 1))" "parse_refresh_rate_string ''120'' True = Dd_ok (Some (120, 1))"
  proof -
    have "trim_copy ''60'' = ''60''" "match_refresh_rate False ''60'' = Some (''60'', None)" "dropWhile is_zero ''60'' = ''60''"
      "digits_value ''60'' = 60" "trim_copy ''120'' = ''120''" "match_refresh_rate True ''120'' = Some (''120'', None)"
      "dropWhile is_zero ''120'' = ''120''" "digits_value ''120'' = 120"
      by code_simp+
    then show "parse_refresh_rate_string ''60'' False = Dd_ok (Some (60, 1))" "parse_refresh_rate_string ''120'' True = Dd_ok (Some (120, 1))"
      by (simp_all add: parse_refresh_rate_string_def stou_def Let_def)
  qed
  have empty: "parse_resolution_string [] = Dd_ok None"
    by (simp add: parse_resolution_string_def trim_copy_def trim_end_def match_resolution_def)
  obtain config where config: "parse_configuration sample_dd sample_remapping ''DP-1'' sample_viewer = Inr (Dd_ok config)"
    "dc_refresh_rate config = Some (120, 1)"
    by (simp add: parse_configuration_def parse_device_prep_option_def parse_resolution_option_def parse_refresh_rate_option_def
        remap_display_mode_if_needed_def determine_remapping_type_def remapping_list_def parse_remapping_entry_def
        is_resolution_mapped_def is_fps_mapped_def apply_entry_def dd_bind_def sample_dd_def sample_remapping_def sample_viewer_def
        Let_def fps empty)
  with display_left_alone [where ddc = sample_dd and remapping = sample_remapping and output_name = "''DP-1''" and session = sample_viewer] show ?thesis
    by (simp add: sample_dd_def sample_viewer_def)
qed

end
