(* ===== verification/Web_Auth.thy ===== *)
theory Web_Auth
  imports Network Hex_Codec Pairing Config
begin

text \<open>
  Who may use the web interface: the first half of \<^verbatim>\<open>src/confighttp.cpp\<close> (authentication, content type,
  CSRF tokens and origins) and the stored credentials of \<^verbatim>\<open>src/httpcommon.cpp\<close>. Base64, the hash and the
  texts of addresses are parameters; time and random texts are arguments. Headers and queries are lists
  whose first entry with a name is the one that is found.
\<close>

section \<open>Texts\<close>

definition to_lower :: "char \<Rightarrow> char" where
  "to_lower c = (let n = of_char c :: nat in if 65 \<le> n \<and> n \<le> 90 then char_of (n + 32) else c)"

definition iequals :: "string \<Rightarrow> string \<Rightarrow> bool" where
  "iequals a b \<longleftrightarrow> map to_lower a = map to_lower b"

definition trimmed :: "string \<Rightarrow> string" where
  "trimmed s = trim_end is_space (dropWhile is_space s)"

definition starts_with :: "string \<Rightarrow> string \<Rightarrow> bool" where
  "starts_with s front \<longleftrightarrow> take (length front) s = front"

section \<open>Values of JSON\<close>

text \<open>The values of the JSON library; numbers are integers here. The members of an object have different names.\<close>

datatype json =
    Json_null
  | Json_bool bool
  | Json_int int
  | Json_text string
  | Json_array "json list"
  | Json_object "(string \<times> json) list"

section \<open>Requests and answers\<close>

record web_request =
  rq_method :: string
  rq_path :: string
  rq_query :: "(string \<times> string) list"
  rq_remote :: ip_address
  rq_header :: "(string \<times> string) list"
  rq_body :: "json option"

text \<open>\<open>Thrown\<close> is an exception that leaves the handler, \<open>Crashed\<close> undefined behaviour.\<close>

datatype web_response =
    Reply json
  | Reply_settings "config_vars option"
  | Reply_file string
  | Bad_request string
  | Not_found string
  | Unauthorized
  | Redirect string
  | Forbidden
  | Thrown
  | Crashed

record web_lib =
  wl_ip :: ip_lib
  wl_base64 :: "string \<Rightarrow> string"
  wl_hash :: "string \<Rightarrow> bytes"

record web_user =
  us_username :: string
  us_password :: string
  us_salt :: string

record csrf_token =
  ct_token :: string
  ct_expiration :: int

type_synonym csrf_table = "string \<Rightarrow> csrf_token option"

definition CSRF_TOKEN_SIZE :: nat where "CSRF_TOKEN_SIZE = 32"
definition CSRF_TOKEN_LIFETIME :: int where "CSRF_TOKEN_LIFETIME = 60 * 60 * 1000"

fun find_header :: "string \<Rightarrow> (string \<times> string) list \<Rightarrow> string option" where
  "find_header name [] = None"
| "find_header name ((n, v) # hs) = (if iequals n name then Some v else find_header name hs)"

definition remote_text :: "web_lib \<Rightarrow> web_request \<Rightarrow> string" where
  "remote_text lib rq = addr_to_normalized_string (wl_ip lib) (rq_remote rq)"

section \<open>Authentication\<close>

instantiation net_e :: linorder
begin

definition net_rank :: "net_e \<Rightarrow> nat" where
  "net_rank n = (case n of PC \<Rightarrow> 0 | LAN \<Rightarrow> 1 | WAN \<Rightarrow> 2)"

definition less_eq_net_e :: "net_e \<Rightarrow> net_e \<Rightarrow> bool" where
  "less_eq_net_e a b \<longleftrightarrow> net_rank a \<le> net_rank b"

definition less_net_e :: "net_e \<Rightarrow> net_e \<Rightarrow> bool" where
  "less_net_e a b \<longleftrightarrow> net_rank a < net_rank b"

instance
  by standard (auto simp: less_eq_net_e_def less_net_e_def net_rank_def split: net_e.splits)

end

text \<open>
  User name and password of \<^verbatim>\<open>user:password\<close>. Without a colon the position becomes -1, which is not less
  than any size; the password is not empty.
\<close>

definition split_credentials :: "string \<Rightarrow> (string \<times> string) option" where
  "split_credentials authData =
     (case find_char (CHR '':'') authData of
        None \<Rightarrow> None
      | Some index \<Rightarrow>
          if length authData \<le> index + 1 then None
          else Some (take index authData, drop (index + 1) authData))"

definition password_hash :: "web_lib \<Rightarrow> string \<Rightarrow> string \<Rightarrow> string" where
  "password_hash lib password salt = hex_vec (wl_hash lib (password @ salt)) False"

definition credentials_match :: "web_lib \<Rightarrow> web_user \<Rightarrow> string \<Rightarrow> string \<Rightarrow> bool" where
  "credentials_match lib u username password \<longleftrightarrow>
     iequals username (us_username u) \<and> password_hash lib password (us_salt u) = us_password u"

text \<open>
  The answers that were sent and whether the request may go on. A header shorter than \<^verbatim>\<open>Basic \<close> makes
  \<^verbatim>\<open>substr\<close> throw; the guard answers before the exception leaves the handler.
\<close>

definition BASIC :: string where "BASIC = ''Basic ''"

definition authenticate :: "web_lib \<Rightarrow> net_e \<Rightarrow> web_user \<Rightarrow> web_request \<Rightarrow> web_response list \<times> bool" where
  "authenticate lib allowed u rq =
     (case from_address (wl_ip lib) (remote_text lib rq) of
        None \<Rightarrow> ([Thrown], False)
      | Some ip_type \<Rightarrow>
          if allowed < ip_type then ([Forbidden], False)
          else if us_username u = [] then ([Redirect ''/welcome''], False)
          else case find_header ''authorization'' (rq_header rq) of
            None \<Rightarrow> ([Unauthorized], False)
          | Some rawAuth \<Rightarrow>
              if length rawAuth < length BASIC then ([Unauthorized, Thrown], False)
              else case split_credentials (wl_base64 lib (drop (length BASIC) rawAuth)) of
                None \<Rightarrow> ([Unauthorized], False)
              | Some (username, password) \<Rightarrow>
                  if credentials_match lib u username password then ([], True) else ([Unauthorized], False))"

definition get_client_id :: "web_lib \<Rightarrow> web_user \<Rightarrow> web_request \<Rightarrow> string" where
  "get_client_id lib u rq =
     (case find_header ''authorization'' (rq_header rq) of
        Some rawAuth \<Rightarrow>
          if us_username u \<noteq> [] \<and> starts_with rawAuth BASIC
          then case split_credentials (wl_base64 lib (drop (length BASIC) rawAuth)) of
              Some (username, _) \<Rightarrow> username
            | None \<Rightarrow> remote_text lib rq
          else remote_text lib rq
      | None \<Rightarrow> remote_text lib rq)"

definition check_content_type :: "web_request \<Rightarrow> string \<Rightarrow> web_response list \<times> bool" where
  "check_content_type rq contentType =
     (case find_header ''content-type'' (rq_header rq) of
        None \<Rightarrow> ([Bad_request ''Content type not provided''], False)
      | Some actual \<Rightarrow>
          let actual = (case find_char (CHR '';'') actual of Some pos \<Rightarrow> take pos actual | None \<Rightarrow> actual);
              actual = map to_lower (trimmed actual)
          in if actual \<noteq> map to_lower contentType then ([Bad_request ''Content type mismatch''], False) else ([], True))"

section \<open>Forged requests\<close>

definition generate_csrf_token :: "int \<Rightarrow> string \<Rightarrow> string \<Rightarrow> csrf_table \<Rightarrow> csrf_table" where
  "generate_csrf_token now token client_id tokens =
     (let tokens = (\<lambda>c. case tokens c of
            None \<Rightarrow> None
          | Some t \<Rightarrow> if ct_expiration t < now then None else Some t)
      in tokens(client_id \<mapsto> \<lparr>ct_token = token, ct_expiration = now + CSRF_TOKEN_LIFETIME\<rparr>))"

definition validate_stored_csrf_token :: "int \<Rightarrow> string \<Rightarrow> string \<Rightarrow> csrf_table \<Rightarrow> web_response list \<times> bool \<times> csrf_table" where
  "validate_stored_csrf_token now client_id provided tokens =
     (case tokens client_id of
        None \<Rightarrow> ([Bad_request ''Invalid CSRF token''], False, tokens)
      | Some t \<Rightarrow>
          if ct_expiration t < now then ([Bad_request ''CSRF token expired''], False, tokens(client_id := None))
          else if ct_token t \<noteq> provided then ([Bad_request ''Invalid CSRF token''], False, tokens)
          else ([], True, tokens))"

definition is_allowed_origin :: "string list \<Rightarrow> string \<Rightarrow> bool" where
  "is_allowed_origin allowed_origins url =
     list_ex (\<lambda>allowed. starts_with url allowed \<and>
       (length url = length allowed \<or> url ! length allowed = CHR '':'' \<or> url ! length allowed = CHR ''/'')) allowed_origins"

fun find_query :: "string \<Rightarrow> (string \<times> string) list \<Rightarrow> string option" where
  "find_query name [] = None"
| "find_query name ((n, v) # qs) = (if iequals n name then Some v else find_query name qs)"

definition validate_csrf_token :: "int \<Rightarrow> string list \<Rightarrow> web_request \<Rightarrow> string \<Rightarrow> csrf_table
    \<Rightarrow> web_response list \<times> bool \<times> csrf_table" where
  "validate_csrf_token now allowed_origins rq client_id tokens =
     (let origin = find_header ''Origin'' (rq_header rq); referer = find_header ''Referer'' (rq_header rq);
          permitted = (\<lambda>h. case h of Some url \<Rightarrow> is_allowed_origin allowed_origins url | None \<Rightarrow> False)
      in if permitted origin then ([], True, tokens)
         else if permitted referer then ([], True, tokens)
         else if origin = None \<and> referer = None then ([], True, tokens)
         else case find_header ''X-CSRF-Token'' (rq_header rq) of
           Some token \<Rightarrow> validate_stored_csrf_token now client_id token tokens
         | None \<Rightarrow>
             (case find_query ''csrf_token'' (rq_query rq) of
                None \<Rightarrow> ([Bad_request ''Missing CSRF token''], False, tokens)
              | Some token \<Rightarrow> validate_stored_csrf_token now client_id token tokens))"

section \<open>The stored credentials\<close>

text \<open>
  The file of the credentials: \<open>None\<close> when it does not exist, otherwise whether it can be parsed.
  The result is 0 or -1.
\<close>

type_synonym creds_file = "ptree option option"

fun find_key :: "string \<Rightarrow> ptree \<Rightarrow> string option" where
  "find_key name [] = None"
| "find_key name ((n, v) # t) = (if n = name then Some v else find_key name t)"

definition save_user_creds :: "web_lib \<Rightarrow> bool \<Rightarrow> string \<Rightarrow> string \<Rightarrow> string \<Rightarrow> creds_file \<Rightarrow> int \<times> creds_file" where
  "save_user_creds lib write_ok salt username password file =
     (case (case file of None \<Rightarrow> Some [] | Some content \<Rightarrow> content) of
        None \<Rightarrow> (-1, file)
      | Some tree \<Rightarrow>
          let tree = pt_put ''username'' username tree;
              tree = pt_put ''salt'' salt tree;
              tree = pt_put ''password'' (password_hash lib password salt) tree
          in if write_ok then (0, Some (Some tree)) else (-1, file))"

definition user_creds_exist :: "creds_file \<Rightarrow> bool" where
  "user_creds_exist file =
     (case file of
        Some (Some tree) \<Rightarrow> find_key ''username'' tree \<noteq> None \<and> find_key ''password'' tree \<noteq> None \<and> find_key ''salt'' tree \<noteq> None
      | _ \<Rightarrow> False)"

text \<open>The settings are assigned one by one: those before a missing one keep their new value.\<close>

definition reload_user_creds :: "creds_file \<Rightarrow> web_user \<Rightarrow> int \<times> web_user" where
  "reload_user_creds file u =
     (case file of
        Some (Some tree) \<Rightarrow>
          (case find_key ''username'' tree of
             None \<Rightarrow> (-1, u)
           | Some username \<Rightarrow>
               let u = u\<lparr>us_username := username\<rparr>
               in case find_key ''password'' tree of
                    None \<Rightarrow> (-1, u)
                  | Some password \<Rightarrow>
                      let u = u\<lparr>us_password := password\<rparr>
                      in case find_key ''salt'' tree of
                           None \<Rightarrow> (-1, u)
                         | Some salt \<Rightarrow> (0, u\<lparr>us_salt := salt\<rparr>))
      | _ \<Rightarrow> (-1, u))"

end
