(* ===== verification/Web_Server.thy ===== *)
theory Web_Server
  imports Web_Auth Nvhttp Process "HOL-Library.List_Lexorder" "HOL-Library.Char_ord"
begin

text \<open>
  The handlers of the web interface, the second half of \<^verbatim>\<open>src/confighttp.cpp\<close>, and the table of its
  routes. Files of JSON are represented by the value they parse to, \<open>None\<close> if they do not. What other
  components are asked for is kept as a list of calls. The variant for systems other than Windows.
\<close>

section \<open>Access to JSON\<close>

definition json_members :: "json \<Rightarrow> (string \<times> json) list option" where
  "json_members j = (case j of Json_null \<Rightarrow> Some [] | Json_object m \<Rightarrow> Some m | _ \<Rightarrow> None)"

definition json_empty :: "json \<Rightarrow> bool" where
  "json_empty j = (case j of Json_null \<Rightarrow> True | Json_array xs \<Rightarrow> xs = [] | Json_object m \<Rightarrow> m = [] | _ \<Rightarrow> False)"

definition json_size :: "json \<Rightarrow> nat" where
  "json_size j = (case j of Json_null \<Rightarrow> 0 | Json_array xs \<Rightarrow> length xs | Json_object m \<Rightarrow> length m | _ \<Rightarrow> 1)"

definition json_at :: "json \<Rightarrow> nat \<Rightarrow> json option" where
  "json_at j i = (case j of Json_array xs \<Rightarrow> if i < length xs then Some (xs ! i) else None | _ \<Rightarrow> None)"

definition json_int :: "json \<Rightarrow> int option" where
  "json_int j = (case j of Json_int n \<Rightarrow> Some (cast_int n) | Json_bool b \<Rightarrow> Some (of_bool b) | _ \<Rightarrow> None)"

definition json_member :: "string \<Rightarrow> (string \<times> json) list \<Rightarrow> json" where
  "json_member name m = (case map_of m name of Some j \<Rightarrow> j | None \<Rightarrow> Json_null)"

text \<open>\<^verbatim>\<open>value\<close> with a default: an exception if this is no object or the member of another type.\<close>

definition value_text :: "string \<Rightarrow> string \<Rightarrow> json \<Rightarrow> string option" where
  "value_text name preset j =
     (case j of
        Json_object m \<Rightarrow> (case map_of m name of None \<Rightarrow> Some preset | Some (Json_text s) \<Rightarrow> Some s | _ \<Rightarrow> None)
      | _ \<Rightarrow> None)"

definition value_bool :: "string \<Rightarrow> bool \<Rightarrow> json \<Rightarrow> bool option" where
  "value_bool name preset j =
     (case j of
        Json_object m \<Rightarrow> (case map_of m name of None \<Rightarrow> Some preset | Some (Json_bool b) \<Rightarrow> Some b | _ \<Rightarrow> None)
      | _ \<Rightarrow> None)"

text \<open>The values a loop visits, replaced one by one: of an array, of the members of an object, or the value itself.\<close>

definition json_visit :: "(json \<Rightarrow> json option) \<Rightarrow> json \<Rightarrow> json option" where
  "json_visit f j =
     (case j of
        Json_null \<Rightarrow> Some Json_null
      | Json_array xs \<Rightarrow> map_option Json_array (those (map f xs))
      | Json_object m \<Rightarrow> map_option (\<lambda>vs. Json_object (zip (map fst m) vs)) (those (map (f \<circ> snd) m))
      | _ \<Rightarrow> f j)"

text \<open>\<^verbatim>\<open>std::stoi\<close>.\<close>

definition stoi :: "string \<Rightarrow> int option" where
  "stoi s =
     (let s = dropWhile is_space s;
          (negative, s) = (case s of c # cs \<Rightarrow> if c = CHR ''-'' then (True, cs) else if c = CHR ''+'' then (False, cs)
             else (False, s) | [] \<Rightarrow> (False, []));
          ds = takeWhile is_digit s; n = (if negative then - digits_value ds else digits_value ds)
      in if ds = [] then None else if cast_int n = n then Some n else None)"

section \<open>The list of applications\<close>

text \<open>An assertion of the JSON library fails: undefined. An exception becomes an answer.\<close>

datatype 'a json_result = Json_ok 'a | Json_throws | Json_undefined

definition app_name :: "json \<Rightarrow> string" where
  "app_name j = (case j of Json_object m \<Rightarrow> (case map_of m ''name'' of Some (Json_text s) \<Rightarrow> s | _ \<Rightarrow> []) | _ \<Rightarrow> [])"

definition name_missing :: "json \<Rightarrow> bool" where
  "name_missing j = (case j of Json_object m \<Rightarrow> map_of m ''name'' = None | _ \<Rightarrow> False)"

definition has_name :: "json \<Rightarrow> bool" where
  "has_name j = (case j of Json_object m \<Rightarrow> (case map_of m ''name'' of Some (Json_text s) \<Rightarrow> True | _ \<Rightarrow> False) | _ \<Rightarrow> False)"

text \<open>The sort by name; with fewer than two entries nothing is compared.\<close>

definition sort_apps :: "(json list \<Rightarrow> json list) \<Rightarrow> json list \<Rightarrow> json list json_result" where
  "sort_apps sorter apps =
     (if length apps < 2 then Json_ok apps
      else if list_ex name_missing apps then Json_undefined
      else if \<not> list_all has_name apps then Json_throws
      else Json_ok (sorter apps))"

definition drop_if_empty :: "string \<Rightarrow> (string \<times> json) list \<Rightarrow> (string \<times> json) list" where
  "drop_if_empty name m = (if json_empty (json_member name m) then AList.delete name m else m)"

definition replace_app :: "int \<Rightarrow> json \<Rightarrow> json \<Rightarrow> json list option" where
  "replace_app index input apps =
     (if index = -1
      then case apps of Json_null \<Rightarrow> Some [input] | Json_array xs \<Rightarrow> Some (xs @ [input]) | _ \<Rightarrow> None
      else those (map (\<lambda>i. if int i = index then Some input else json_at apps i) [0..<json_size apps]))"

text \<open>The body of \<^verbatim>\<open>saveApp\<close>: the new file.\<close>

definition save_app_tree :: "(json list \<Rightarrow> json list) \<Rightarrow> json \<Rightarrow> json \<Rightarrow> json json_result" where
  "save_app_tree sorter input file =
     (case (json_members input, json_members file) of
        (Some m, Some f) \<Rightarrow>
          let m = drop_if_empty ''detached'' (drop_if_empty ''prep-cmd'' m)
          in (case json_int (json_member ''index'' m) of
                None \<Rightarrow> Json_throws
              | Some index \<Rightarrow>
                  (case replace_app index (Json_object (AList.delete ''index'' m)) (json_member ''apps'' f) of
                     None \<Rightarrow> Json_throws
                   | Some apps \<Rightarrow>
                       (case sort_apps sorter apps of
                          Json_ok apps \<Rightarrow> Json_ok (Json_object (AList.update ''apps'' (Json_array apps) f))
                        | Json_throws \<Rightarrow> Json_throws
                        | Json_undefined \<Rightarrow> Json_undefined)))
      | _ \<Rightarrow> Json_throws)"

definition delete_app_tree :: "nat \<Rightarrow> (string \<times> json) list \<Rightarrow> json option" where
  "delete_app_tree index f =
     (let apps = json_member ''apps'' f
      in map_option (\<lambda>xs. Json_object (AList.update ''apps'' (Json_array xs) f))
           (those (map (json_at apps) (filter (\<lambda>i. i \<noteq> index) [0..<json_size apps]))))"

text \<open>Texts of old versions that are turned into values, in \<^verbatim>\<open>getApps\<close>.\<close>

definition boolean_keys :: "string list" where
  "boolean_keys = [''exclude-global-prep-cmd'', ''elevated'', ''auto-detach'', ''wait-all'']"

definition integer_keys :: "string list" where
  "integer_keys = [''exit-timeout'']"

definition convert_bool :: "string \<Rightarrow> (string \<times> json) list \<Rightarrow> (string \<times> json) list" where
  "convert_bool key m =
     (case map_of m key of Some (Json_text s) \<Rightarrow> AList.update key (Json_bool (s = ''true'')) m | _ \<Rightarrow> m)"

definition convert_int :: "string \<Rightarrow> (string \<times> json) list \<Rightarrow> (string \<times> json) list option" where
  "convert_int key m =
     (case map_of m key of
        Some (Json_text s) \<Rightarrow> map_option (\<lambda>n. AList.update key (Json_int n) m) (stoi s)
      | _ \<Rightarrow> Some m)"

definition convert_prep :: "json \<Rightarrow> json option" where
  "convert_prep prep = Some (case prep of Json_object m \<Rightarrow> Json_object (convert_bool ''elevated'' m) | _ \<Rightarrow> prep)"

definition convert_app :: "json \<Rightarrow> json option" where
  "convert_app app =
     (case app of
        Json_object m \<Rightarrow>
          (case fold (\<lambda>key r. Option.bind r (convert_int key)) integer_keys (Some (fold convert_bool boolean_keys m)) of
             None \<Rightarrow> None
           | Some m \<Rightarrow>
               (case map_of m ''prep-cmd'' of
                  None \<Rightarrow> Some (Json_object m)
                | Some preps \<Rightarrow>
                    map_option (\<lambda>preps. Json_object (AList.update ''prep-cmd'' preps m)) (json_visit convert_prep preps)))
      | _ \<Rightarrow> Some app)"

section \<open>The state\<close>

datatype web_call =
    Proc_terminate | Proc_refresh | Rtsp_terminate_sessions | Nv_pin string string | Display_reset | Platf_restart
  | Make_directory string | Write_cover string string | Download_cover string string

record web =
  wb_user :: web_user
  wb_tokens :: csrf_table
  wb_creds :: creds_file
  wb_apps :: "json option"
  wb_config :: string
  wb_nvhttp :: nvhttp
  wb_calls :: "web_call list"

record browse_entry =
  be_name :: string
  be_path :: string
  be_directory :: bool
  be_regular :: bool
  be_executable :: bool

text \<open>
  The settings and libraries, and what the environment answers during one request: the time, random
  texts, whether writing works, the sessions left and the application running when asked, the results of
  other components and of the file system. \<open>we_what\<close> is the text of an exception.
\<close>

record web_env =
  we_lib :: web_lib
  we_images :: image_lib
  we_allowed :: net_e
  we_origins :: "string list"
  we_locale :: string
  we_now :: int
  we_random :: string
  we_write_ok :: bool
  we_load_ok :: bool
  we_uuids :: "nat \<Rightarrow> string"
  we_session_count :: nat
  we_running :: int
  we_pin :: "string \<Rightarrow> string \<Rightarrow> bool"
  we_reset :: bool
  we_sort_apps :: "json list \<Rightarrow> json list"
  we_sort_entries :: "browse_entry list \<Rightarrow> browse_entry list"
  we_dump :: "json \<Rightarrow> string"
  we_what :: string
  we_read :: "string \<Rightarrow> string option"
  we_log_file :: string
  we_appdata :: string
  we_escape :: "string \<Rightarrow> string"
  we_host :: "string \<Rightarrow> string"
  we_download :: "string \<Rightarrow> string \<Rightarrow> bool"
  we_asset_path :: "string \<Rightarrow> string"
  we_asset_relative :: "string \<Rightarrow> string list"
  we_extension :: "string \<Rightarrow> string"
  we_browse_path :: "string \<Rightarrow> string"
  we_parent :: "string \<Rightarrow> string"
  we_is_file :: "string \<Rightarrow> bool"
  we_exists :: "string \<Rightarrow> bool"
  we_is_directory :: "string \<Rightarrow> bool"
  we_entries :: "string \<Rightarrow> browse_entry list"

type_synonym web_result = "web_response list \<times> web"

definition call :: "web_call \<Rightarrow> web \<Rightarrow> web" where
  "call c s = s\<lparr>wb_calls := wb_calls s @ [c]\<rparr>"

definition status_ok :: "bool \<Rightarrow> web_response" where
  "status_ok b = Reply (Json_object [(''status'', Json_bool b)])"

text \<open>The checks at the beginning of the handlers, each with the rest of the handler.\<close>

definition with_content_type :: "web_request \<Rightarrow> (web \<Rightarrow> web_result) \<Rightarrow> web \<Rightarrow> web_result" where
  "with_content_type rq k s =
     (case check_content_type rq ''application/json'' of (out, ok) \<Rightarrow> if ok then k s else (out, s))"

definition with_user :: "web_env \<Rightarrow> web_request \<Rightarrow> (web \<Rightarrow> web_result) \<Rightarrow> web \<Rightarrow> web_result" where
  "with_user e rq k s =
     (case authenticate (we_lib e) (we_allowed e) (wb_user s) rq of (out, ok) \<Rightarrow> if ok then k s else (out, s))"

definition with_csrf :: "web_env \<Rightarrow> web_request \<Rightarrow> (web \<Rightarrow> web_result) \<Rightarrow> web \<Rightarrow> web_result" where
  "with_csrf e rq k s =
     (case validate_csrf_token (we_now e) (we_origins e) rq (get_client_id (we_lib e) (wb_user s) rq) (wb_tokens s) of
        (out, ok, tokens) \<Rightarrow> let s = s\<lparr>wb_tokens := tokens\<rparr> in if ok then k s else (out, s))"

section \<open>Pages and assets\<close>

definition getPage :: "web_env \<Rightarrow> string \<Rightarrow> bool \<Rightarrow> bool \<Rightarrow> web_request \<Rightarrow> web \<Rightarrow> web_result" where
  "getPage e html_file require_auth redirect_if_username rq s =
     (let page = (\<lambda>s. ([Reply_file html_file], s))
      in if redirect_if_username \<and> us_username (wb_user s) \<noteq> [] then ([Redirect ''/''], s)
         else if require_auth then with_user e rq page s else page s)"

text \<open>
  \<open>we_asset_path\<close> gives the canonical path below the directory of the pages, \<open>we_asset_relative\<close> the
  components of a path seen from the assets. An extension begins with a dot; \<^verbatim>\<open>substr\<close> throws without one.
\<close>

definition mime_types :: "(string \<times> string) list" where
  "mime_types =
     [(''css'', ''text/css''), (''gif'', ''image/gif''), (''htm'', ''text/html''), (''html'', ''text/html''), (''ico'', ''image/x-icon''),
      (''jpeg'', ''image/jpeg''), (''jpg'', ''image/jpeg''), (''js'', ''application/javascript''), (''json'', ''application/json''),
      (''png'', ''image/png''), (''svg'', ''image/svg+xml''), (''ttf'', ''font/ttf''), (''txt'', ''text/plain''),
      (''woff2'', ''font/woff2''), (''xml'', ''text/xml'')]"

definition getAsset :: "web_env \<Rightarrow> web_request \<Rightarrow> web \<Rightarrow> web_result" where
  "getAsset e rq s =
     (let filePath = we_asset_path e (rq_path rq)
      in if hd (we_asset_relative e filePath) = ''..'' then ([Bad_request ''Bad Request''], s)
         else if \<not> we_exists e filePath then ([Not_found ''Not Found''], s)
         else if we_extension e filePath = [] then ([Thrown], s)
         else case map_of mime_types (drop 1 (we_extension e filePath)) of
             None \<Rightarrow> ([Bad_request ''Bad Request''], s)
           | Some _ \<Rightarrow> ([Reply_file filePath], s))"

definition getImage :: "string \<Rightarrow> web \<Rightarrow> web_result" where
  "getImage file s = ([Reply_file file], s)"

section \<open>The programming interface\<close>

definition getCSRFToken :: "web_env \<Rightarrow> web_request \<Rightarrow> web \<Rightarrow> web_result" where
  "getCSRFToken e rq = with_user e rq (\<lambda>s.
     let client_id = get_client_id (we_lib e) (wb_user s) rq
     in ([Reply (Json_object [(''csrf_token'', Json_text (we_random e))])],
         s\<lparr>wb_tokens := generate_csrf_token (we_now e) (we_random e) client_id (wb_tokens s)\<rparr>))"

definition getApps :: "web_env \<Rightarrow> web_request \<Rightarrow> web \<Rightarrow> web_result" where
  "getApps e rq = with_user e rq (\<lambda>s.
     case Option.bind (wb_apps s) json_members of
       None \<Rightarrow> ([Bad_request (we_what e)], s)
     | Some f \<Rightarrow>
         (case json_visit convert_app (json_member ''apps'' f) of
            None \<Rightarrow> ([Bad_request (we_what e)], s)
          | Some apps \<Rightarrow> ([Reply (Json_object (AList.update ''apps'' apps f))], s)))"

definition write_apps :: "web_env \<Rightarrow> json \<Rightarrow> web \<Rightarrow> web" where
  "write_apps e tree s = call Proc_refresh (if we_write_ok e then s\<lparr>wb_apps := Some tree\<rparr> else s)"

definition saveApp :: "web_env \<Rightarrow> web_request \<Rightarrow> web \<Rightarrow> web_result" where
  "saveApp e rq = with_content_type rq (with_user e rq (with_csrf e rq (\<lambda>s.
     case (rq_body rq, wb_apps s) of
       (Some input, Some file) \<Rightarrow>
         (case save_app_tree (we_sort_apps e) input file of
            Json_ok tree \<Rightarrow> ([status_ok True], write_apps e tree s)
          | Json_throws \<Rightarrow> ([Bad_request (we_what e)], s)
          | Json_undefined \<Rightarrow> ([Crashed], s))
     | _ \<Rightarrow> ([Bad_request (we_what e)], s))))"

definition closeApp :: "web_env \<Rightarrow> web_request \<Rightarrow> web \<Rightarrow> web_result" where
  "closeApp e rq = with_user e rq (with_csrf e rq (\<lambda>s. ([status_ok True], call Proc_terminate s)))"

text \<open>The digits of the path; \<open>None\<close> is an exception.\<close>

definition check_app_index :: "json option \<Rightarrow> int \<Rightarrow> (string option \<times> (string \<times> json) list) option" where
  "check_app_index apps index =
     (case Option.bind apps json_members of
        None \<Rightarrow> None
      | Some f \<Rightarrow>
          let n = json_size (json_member ''apps'' f)
          in if index < 0 \<or> int n \<le> index
             then Some (Some (if n = 0 then ''No applications found''
               else CHR 0x27 # ''index'' @ CHR 0x27 # '' '' @ to_string index @ '' out of range, max index is '' @ to_string (int n - 1)), f)
             else Some (None, f))"

definition deleteApp :: "web_env \<Rightarrow> string \<Rightarrow> web_request \<Rightarrow> web \<Rightarrow> web_result" where
  "deleteApp e num rq = with_user e rq (with_csrf e rq (\<lambda>s.
     case stoi num of
       None \<Rightarrow> ([Bad_request (we_what e)], s)
     | Some index \<Rightarrow>
         (case check_app_index (wb_apps s) index of
            None \<Rightarrow> ([Bad_request (we_what e)], s)
          | Some (Some error, f) \<Rightarrow> ([Bad_request error], s)
          | Some (None, f) \<Rightarrow>
              (case delete_app_tree (nat index) f of
                 None \<Rightarrow> ([Bad_request (we_what e)], s)
               | Some tree \<Rightarrow>
                   ([Reply (Json_object [(''status'', Json_bool True),
                      (''result'', Json_text (''application '' @ to_string index @ '' deleted''))])], write_apps e tree s)))))"

text \<open>The clients, as \<^verbatim>\<open>nvhttp::get_all_clients\<close> lists them.\<close>

definition client_json :: "named_cert \<Rightarrow> json" where
  "client_json c = Json_object [(''name'', Json_text (nc_name c)), (''uuid'', Json_text (nc_uuid c)), (''enabled'', Json_bool (nc_enabled c))]"

definition get_all_clients :: "nvhttp \<Rightarrow> json list" where
  "get_all_clients nv = map client_json (nv_named_devices nv)"

definition getClients :: "web_env \<Rightarrow> web_request \<Rightarrow> web \<Rightarrow> web_result" where
  "getClients e rq = with_user e rq (\<lambda>s.
     ([Reply (Json_object [(''named_certs'', Json_array (get_all_clients (wb_nvhttp s))), (''status'', Json_bool True)])], s))"

definition updateClient :: "web_env \<Rightarrow> web_request \<Rightarrow> web \<Rightarrow> web_result" where
  "updateClient e rq = with_content_type rq (with_user e rq (with_csrf e rq (\<lambda>s.
     case Option.bind (rq_body rq) (\<lambda>j. Option.bind (value_text ''uuid'' [] j) (\<lambda>u. map_option (Pair u) (value_bool ''enabled'' True j))) of
       None \<Rightarrow> ([Bad_request (we_what e)], s)
     | Some (uuid, enabled) \<Rightarrow>
         let (status, nv) = set_client_enabled (we_write_ok e) uuid enabled (wb_nvhttp s);
             s = s\<lparr>wb_nvhttp := nv\<rparr>;
             s = (if \<not> enabled \<and> status
                  then let s = call Rtsp_terminate_sessions s
                       in if we_session_count e = 0 \<and> 0 < we_running e then call Proc_terminate s else s
                  else s)
         in ([status_ok status], s))))"

definition unpair :: "web_env \<Rightarrow> web_request \<Rightarrow> web \<Rightarrow> web_result" where
  "unpair e rq = with_content_type rq (with_user e rq (with_csrf e rq (\<lambda>s.
     case Option.bind (rq_body rq) (value_text ''uuid'' []) of
       None \<Rightarrow> ([Bad_request (we_what e)], s)
     | Some uuid \<Rightarrow>
         let (removed, nv) = unpair_client (we_write_ok e) (we_load_ok e) (we_uuids e) uuid (wb_nvhttp s);
             s = s\<lparr>wb_nvhttp := nv\<rparr>;
             s = (if removed \<and> get_all_clients nv = [] then call Proc_terminate s else s)
         in ([status_ok removed], s))))"

definition unpairAll :: "web_env \<Rightarrow> web_request \<Rightarrow> web \<Rightarrow> web_result" where
  "unpairAll e rq = with_user e rq (with_csrf e rq (\<lambda>s.
     ([status_ok True], call Proc_terminate (s\<lparr>wb_nvhttp := erase_all_clients (we_write_ok e) (wb_nvhttp s)\<rparr>))))"

definition getConfig :: "web_env \<Rightarrow> web_request \<Rightarrow> web \<Rightarrow> web_result" where
  "getConfig e rq = with_user e rq (\<lambda>s. ([Reply_settings (parse_config (wb_config s))], s))"

definition getLocale :: "web_env \<Rightarrow> web \<Rightarrow> web_result" where
  "getLocale e s = ([Reply (Json_object [(''status'', Json_bool True), (''locale'', Json_text (we_locale e))])], s)"

text \<open>What \<^verbatim>\<open>items()\<close> iterates over, and the text of the new file.\<close>

definition json_items :: "json \<Rightarrow> (string \<times> json) list" where
  "json_items j =
     (case j of
        Json_null \<Rightarrow> []
      | Json_object m \<Rightarrow> m
      | Json_array xs \<Rightarrow> map (\<lambda>(i, x). (to_string (int i), x)) (enumerate 0 xs)
      | _ \<Rightarrow> [([], j)])"

definition config_line :: "(json \<Rightarrow> string) \<Rightarrow> string \<times> json \<Rightarrow> string" where
  "config_line dump kv =
     (case kv of (k, v) \<Rightarrow>
        if v = Json_null \<or> v = Json_text [] then []
        else k @ '' = '' @ (case v of Json_text s \<Rightarrow> s | _ \<Rightarrow> dump v) @ [CHR 0x0A])"

definition saveConfig :: "web_env \<Rightarrow> web_request \<Rightarrow> web \<Rightarrow> web_result" where
  "saveConfig e rq = with_content_type rq (with_user e rq (with_csrf e rq (\<lambda>s.
     case rq_body rq of
       None \<Rightarrow> ([Bad_request (we_what e)], s)
     | Some input \<Rightarrow>
         ([status_ok True],
          if we_write_ok e then s\<lparr>wb_config := concat (map (config_line (we_dump e)) (json_items input))\<rparr> else s))))"

text \<open>\<open>None\<close> of the file is that it cannot be opened; an answer after the first is written, too.\<close>

definition getCover :: "web_env \<Rightarrow> string \<Rightarrow> web_request \<Rightarrow> web \<Rightarrow> web_result" where
  "getCover e num rq = with_user e rq (\<lambda>s.
     case stoi num of
       None \<Rightarrow> ([Bad_request (we_what e)], s)
     | Some index \<Rightarrow>
         (case check_app_index (wb_apps s) index of
            None \<Rightarrow> ([Bad_request (we_what e)], s)
          | Some (Some error, f) \<Rightarrow> ([Bad_request error], s)
          | Some (None, f) \<Rightarrow>
              (case json_at (json_member ''apps'' f) (nat index) of
                 None \<Rightarrow> ([Bad_request (we_what e)], s)
               | Some app \<Rightarrow>
                   (case (case app of Json_object m \<Rightarrow> json_member ''image-path'' m | _ \<Rightarrow> Json_null) of
                      Json_null \<Rightarrow> ([Not_found ''Cover image not found''], s)
                    | Json_text path \<Rightarrow>
                        let validated = validate_app_image_path (we_images e) path
                        in if validated = default_app_image (we_images e) then ([Not_found ''Cover image not found''], s)
                           else if we_read e validated = None then ([Bad_request ''Unable to read cover image file''], s)
                           else ([Reply_file validated], s)
                    | _ \<Rightarrow> ([Bad_request (we_what e)], s)))))"

definition uploadCover :: "web_env \<Rightarrow> web_request \<Rightarrow> web \<Rightarrow> web_result" where
  "uploadCover e rq = with_content_type rq (with_user e rq (\<lambda>s.
     case Option.bind (rq_body rq) (\<lambda>j. map_option (Pair j) (value_text ''key'' [] j)) of
       None \<Rightarrow> ([Bad_request (we_what e)], s)
     | Some (input, key) \<Rightarrow>
         if key = [] then ([Bad_request ''Cover key is required''], s)
         else (case value_text ''url'' [] input of
             None \<Rightarrow> ([Bad_request (we_what e)], s)
           | Some url \<Rightarrow>
               let coverdir = we_appdata e @ ''/covers/''; path = coverdir @ we_escape e key @ ''.png'';
                   reply = Reply (Json_object [(''status'', Json_bool True), (''path'', Json_text path)]);
                   s = call (Make_directory coverdir) s
               in if url \<noteq> []
                  then if we_host e url \<noteq> ''images.igdb.com'' then ([Bad_request ''Only images.igdb.com is allowed''], s)
                       else let s = call (Download_cover url path) s
                            in if \<not> we_download e url path then ([Bad_request ''Failed to download cover''], s)
                               else ([reply], s)
                  else case value_text ''data'' [] input of
                      None \<Rightarrow> ([Bad_request (we_what e)], s)
                    | Some data \<Rightarrow> ([reply], call (Write_cover path (wl_base64 (we_lib e) data)) s))))"

definition getLogs :: "web_env \<Rightarrow> web_request \<Rightarrow> web \<Rightarrow> web_result" where
  "getLogs e rq = with_user e rq (\<lambda>s. ([Reply_file (we_log_file e)], s))"

text \<open>The new credentials are saved and read again; neither result is looked at.\<close>

definition change_password :: "web_env \<Rightarrow> string \<Rightarrow> string \<Rightarrow> web \<Rightarrow> web" where
  "change_password e username password s =
     (let (_, file) = save_user_creds (we_lib e) (we_write_ok e) (we_random e) username password (wb_creds s);
          (_, u) = reload_user_creds file (wb_user s)
      in s\<lparr>wb_creds := file, wb_user := u\<rparr>)"

definition savePassword_body :: "web_env \<Rightarrow> web_request \<Rightarrow> web \<Rightarrow> web_result" where
  "savePassword_body e rq s =
     (let field = (\<lambda>name. Option.bind (rq_body rq) (value_text name []))
      in case (field ''currentUsername'', field ''newUsername'', field ''currentPassword'', field ''newPassword'',
               field ''confirmNewPassword'') of
           (Some username, Some newUsername, Some password, Some newPassword, Some confirmPassword) \<Rightarrow>
             let newUsername = (if newUsername = [] then username else newUsername)
             in if newUsername = [] then ([Bad_request ''Invalid Username''], s)
                else if us_username (wb_user s) = [] \<or> credentials_match (we_lib e) (wb_user s) username password
                then if newPassword = [] \<or> newPassword \<noteq> confirmPassword then ([Bad_request ''Password Mismatch''], s)
                     else ([status_ok True], change_password e newUsername newPassword s)
                else ([Bad_request ''Invalid Current Credentials''], s)
         | _ \<Rightarrow> ([Bad_request (we_what e)], s))"

definition savePassword :: "web_env \<Rightarrow> web_request \<Rightarrow> web \<Rightarrow> web_result" where
  "savePassword e rq = with_content_type rq (\<lambda>s.
     if us_username (wb_user s) \<noteq> [] then with_user e rq (with_csrf e rq (savePassword_body e rq)) s
     else with_csrf e rq (savePassword_body e rq) s)"

text \<open>A number out of range is answered, and the PIN is entered all the same.\<close>

definition savePin :: "web_env \<Rightarrow> web_request \<Rightarrow> web \<Rightarrow> web_result" where
  "savePin e rq = with_content_type rq (with_user e rq (with_csrf e rq (\<lambda>s.
     case Option.bind (rq_body rq) (\<lambda>j. Option.bind (value_text ''name'' [] j) (\<lambda>n. map_option (Pair n) (value_text ''pin'' [] j))) of
       None \<Rightarrow> ([Bad_request (we_what e)], s)
     | Some (name, pin) \<Rightarrow>
         (case stoi pin of
            None \<Rightarrow> ([Bad_request (we_what e)], s)
          | Some n \<Rightarrow>
              ((if n < 0 \<or> 9999 < n then [Bad_request ''PIN must be between 0000 and 9999''] else []) @
                 [status_ok (we_pin e pin name)],
               call (Nv_pin pin name) s)))))"

definition resetDisplayDevicePersistence :: "web_env \<Rightarrow> web_request \<Rightarrow> web \<Rightarrow> web_result" where
  "resetDisplayDevicePersistence e rq = with_user e rq (with_csrf e rq (\<lambda>s. ([status_ok (we_reset e)], call Display_reset s)))"

definition restart :: "web_env \<Rightarrow> web_request \<Rightarrow> web \<Rightarrow> web_result" where
  "restart e rq = with_user e rq (with_csrf e rq (\<lambda>s. ([], call Platf_restart s)))"

definition getViGEmBusStatus :: "web_env \<Rightarrow> web_request \<Rightarrow> web \<Rightarrow> web_result" where
  "getViGEmBusStatus e rq = with_user e rq (\<lambda>s.
     ([Reply (Json_object [(''error'', Json_text ''ViGEmBus is only available on Windows''), (''installed'', Json_bool False),
         (''version'', Json_text []), (''version_compatible'', Json_bool False), (''packaged_version'', Json_text [])])], s))"

definition installViGEmBus :: "web_env \<Rightarrow> web_request \<Rightarrow> web \<Rightarrow> web_result" where
  "installViGEmBus e rq = with_user e rq (with_csrf e rq (\<lambda>s.
     ([Reply (Json_object [(''status'', Json_bool False),
         (''error'', Json_text ''ViGEmBus installation is only available on Windows'')])], s)))"

section \<open>Browsing the file system\<close>

text \<open>\<^verbatim>\<open>build_browse_entries\<close>: what is shown of the entries of a directory that can be read, sorted.\<close>

definition shown_entry :: "string \<Rightarrow> browse_entry \<Rightarrow> bool" where
  "shown_entry type_str b \<longleftrightarrow>
     (be_directory b \<or> be_regular b) \<and>
     \<not> (type_str = ''directory'' \<and> \<not> be_directory b) \<and>
     \<not> (type_str = ''executable'' \<and> \<not> be_directory b \<and> \<not> be_executable b)"

definition entry_json :: "browse_entry \<Rightarrow> json" where
  "entry_json b = Json_object [(''name'', Json_text (be_name b)), (''path'', Json_text (be_path b)),
     (''type'', Json_text (if be_directory b then ''directory'' else ''file''))]"

definition build_browse_entries :: "(browse_entry list \<Rightarrow> browse_entry list) \<Rightarrow> browse_entry list \<Rightarrow> string \<Rightarrow> json" where
  "build_browse_entries sorter entries type_str = Json_array (map entry_json (sorter (filter (shown_entry type_str) entries)))"

definition browseDirectory :: "web_env \<Rightarrow> web_request \<Rightarrow> web \<Rightarrow> web_result" where
  "browseDirectory e rq = with_user e rq (\<lambda>s.
     let path_str = (case find_query ''path'' (rq_query rq) of Some p \<Rightarrow> p | None \<Rightarrow> []);
         type_str = (case find_query ''type'' (rq_query rq) of Some t \<Rightarrow> if t = [] then ''any'' else t | None \<Rightarrow> ''any'');
         path_str = (if path_str = [] then ''/'' else path_str);
         dir_path = we_browse_path e path_str;
         dir_path = (if we_is_file e dir_path then we_parent e dir_path else dir_path);
         dir_path = (if we_exists e dir_path then dir_path else we_parent e dir_path)
     in if \<not> we_is_directory e dir_path then ([Bad_request ''Path is not a directory''], s)
        else ([Reply (Json_object [(''path'', Json_text dir_path), (''parent'', Json_text (we_parent e dir_path)),
                (''entries'', build_browse_entries (we_sort_entries e) (we_entries e dir_path) type_str)])], s))"

section \<open>Routes\<close>

datatype web_handler =
    H_page string bool bool | H_browseDirectory | H_getApps | H_saveApp | H_deleteApp string | H_closeApp | H_getClients | H_unpair
  | H_unpairAll | H_updateClient | H_getConfig | H_saveConfig | H_getLocale | H_getCover string | H_uploadCover | H_getCSRFToken
  | H_savePassword | H_savePin | H_getLogs | H_resetDisplayDevicePersistence | H_restart | H_getViGEmBusStatus
  | H_installViGEmBus | H_image string | H_getAsset | H_bad_request | H_not_found

text \<open>\<^verbatim>\<open>/?\<close> at the end of a pattern, digits at the end, and a dot for any character but the ends of lines.\<close>

definition optional_slash :: "string \<Rightarrow> string \<Rightarrow> bool" where
  "optional_slash path base \<longleftrightarrow> path = base \<or> path = base @ ''/''"

definition any_char :: "char \<Rightarrow> bool" where
  "any_char c \<longleftrightarrow> c \<noteq> CHR 0x0A \<and> c \<noteq> CHR 0x0D"

definition number_after :: "string \<Rightarrow> string \<Rightarrow> string option" where
  "number_after base path =
     (let d = drop (length base) path in if starts_with path base \<and> d \<noteq> [] \<and> list_all is_digit d then Some d else None)"

definition around_dot :: "string \<Rightarrow> string \<Rightarrow> string \<Rightarrow> bool" where
  "around_dot before after path \<longleftrightarrow>
     length path = length before + 1 + length after \<and> starts_with path before \<and> any_char (path ! length before) \<and>
     drop (length before + 1) path = after"

definition get_pages :: "(string \<times> string \<times> bool \<times> bool) list" where
  "get_pages =
     [(''/apps'', ''apps.html'', True, False), (''/clients'', ''clients.html'', True, False), (''/config'', ''config.html'', True, False),
      (''/featured'', ''featured.html'', True, False), (''/logout'', ''logout.html'', False, False),
      (''/password'', ''password.html'', True, False), (''/pin'', ''pin.html'', True, False),
      (''/troubleshooting'', ''troubleshooting.html'', True, False), (''/welcome'', ''welcome.html'', False, True)]"

definition get_calls :: "(string \<times> web_handler) list" where
  "get_calls =
     [(''/api/browse'', H_browseDirectory), (''/api/apps'', H_getApps), (''/api/clients/list'', H_getClients),
      (''/api/config'', H_getConfig), (''/api/configLocale'', H_getLocale), (''/api/csrf-token'', H_getCSRFToken),
      (''/api/logs'', H_getLogs), (''/api/vigembus/status'', H_getViGEmBusStatus)]"

definition post_calls :: "(string \<times> web_handler) list" where
  "post_calls =
     [(''/api/apps'', H_saveApp), (''/api/apps/close'', H_closeApp), (''/api/clients/unpair'', H_unpair),
      (''/api/clients/unpair-all'', H_unpairAll), (''/api/clients/update'', H_updateClient), (''/api/config'', H_saveConfig),
      (''/api/covers/upload'', H_uploadCover), (''/api/password'', H_savePassword), (''/api/pin'', H_savePin),
      (''/api/reset-display-device-persistence'', H_resetDisplayDevicePersistence), (''/api/restart'', H_restart),
      (''/api/vigembus/install'', H_installViGEmBus)]"

definition get_route :: "string \<Rightarrow> web_handler" where
  "get_route path =
     (if path = ''/'' then H_page ''index.html'' True False
      else case find (\<lambda>(base, _). optional_slash path base) get_pages of
        Some (_, file, require_auth, redirect_if_username) \<Rightarrow> H_page file require_auth redirect_if_username
      | None \<Rightarrow>
          (case map_of get_calls path of
             Some h \<Rightarrow> h
           | None \<Rightarrow>
               (case number_after ''/api/covers/'' path of
                  Some d \<Rightarrow> H_getCover d
                | None \<Rightarrow>
                    if around_dot ''/images/sunshine'' ''ico'' path then H_image ''images/sunshine.ico''
                    else if around_dot ''/images/logo-sunshine-45'' ''png'' path then H_image ''images/logo-sunshine-45.png''
                    else if starts_with path ''/assets/'' \<and> 8 < length path \<and> list_all any_char (drop 8 path) then H_getAsset
                    else H_not_found)))"

text \<open>The methods without a default are not answered.\<close>

definition route :: "string \<Rightarrow> string \<Rightarrow> web_handler option" where
  "route method path =
     (if method = ''GET'' then Some (get_route path)
      else if method = ''POST''
      then Some (case map_of post_calls path of Some h \<Rightarrow> h | None \<Rightarrow> H_bad_request)
      else if method = ''DELETE''
      then Some (case number_after ''/api/apps/'' path of Some d \<Rightarrow> H_deleteApp d | None \<Rightarrow> H_bad_request)
      else if method = ''PATCH'' \<or> method = ''PUT'' then Some H_bad_request
      else None)"

definition handle :: "web_env \<Rightarrow> web_handler \<Rightarrow> web_request \<Rightarrow> web \<Rightarrow> web_result" where
  "handle e h rq =
     (case h of
        H_saveApp \<Rightarrow> saveApp e rq
      | H_page file auth redirect \<Rightarrow> getPage e file auth redirect rq
      | H_browseDirectory \<Rightarrow> browseDirectory e rq
      | H_getApps \<Rightarrow> getApps e rq
      | H_deleteApp d \<Rightarrow> deleteApp e d rq
      | H_closeApp \<Rightarrow> closeApp e rq
      | H_getClients \<Rightarrow> getClients e rq
      | H_unpair \<Rightarrow> unpair e rq
      | H_unpairAll \<Rightarrow> unpairAll e rq
      | H_updateClient \<Rightarrow> updateClient e rq
      | H_getConfig \<Rightarrow> getConfig e rq
      | H_saveConfig \<Rightarrow> saveConfig e rq
      | H_getLocale \<Rightarrow> getLocale e
      | H_getCover d \<Rightarrow> getCover e d rq
      | H_uploadCover \<Rightarrow> uploadCover e rq
      | H_getCSRFToken \<Rightarrow> getCSRFToken e rq
      | H_savePassword \<Rightarrow> savePassword e rq
      | H_savePin \<Rightarrow> savePin e rq
      | H_getLogs \<Rightarrow> getLogs e rq
      | H_resetDisplayDevicePersistence \<Rightarrow> resetDisplayDevicePersistence e rq
      | H_restart \<Rightarrow> restart e rq
      | H_getViGEmBusStatus \<Rightarrow> getViGEmBusStatus e rq
      | H_installViGEmBus \<Rightarrow> installViGEmBus e rq
      | H_image file \<Rightarrow> getImage file
      | H_getAsset \<Rightarrow> getAsset e rq
      | H_bad_request \<Rightarrow> (\<lambda>s. ([Bad_request ''Bad Request''], s))
      | H_not_found \<Rightarrow> (\<lambda>s. ([Not_found ''Not Found''], s)))"

definition serve_web :: "web_env \<Rightarrow> web_request \<Rightarrow> web \<Rightarrow> web_result" where
  "serve_web e rq s =
     (case route (rq_method rq) (rq_path rq) of None \<Rightarrow> ([], s) | Some h \<Rightarrow> handle e h rq s)"

end
