(* ===== verification/Web_Props.thy ===== *)
theory Web_Props
  imports Web_Server "HOL-Library.Multiset"
begin

text \<open>
  Properties of the web interface: what a request needs to change anything, where CSRF tokens come
  from, the edits of the list of applications, and the credentials.
\<close>

section \<open>Who may change anything\<close>

text \<open>The state without the tokens.\<close>

definition web_core :: "web \<Rightarrow> web" where
  "web_core s = s\<lparr>wb_tokens := (\<lambda>_. None)\<rparr>"

definition origin_admitted :: "web_env \<Rightarrow> web_request \<Rightarrow> bool" where
  "origin_admitted e rq \<longleftrightarrow>
     (case from_address (wl_ip (we_lib e)) (remote_text (we_lib e) rq) of None \<Rightarrow> False | Some ip \<Rightarrow> ip \<le> we_allowed e)"

definition sent_credentials :: "web_env \<Rightarrow> web_request \<Rightarrow> (string \<times> string) option" where
  "sent_credentials e rq =
     Option.bind (find_header ''authorization'' (rq_header rq)) (\<lambda>raw. split_credentials (wl_base64 (we_lib e) (drop (length BASIC) raw)))"

definition logged_in :: "web_env \<Rightarrow> web_request \<Rightarrow> web \<Rightarrow> bool" where
  "logged_in e rq s \<longleftrightarrow> origin_admitted e rq \<and> us_username (wb_user s) \<noteq> [] \<and>
     (case sent_credentials e rq of None \<Rightarrow> False
      | Some (username, password) \<Rightarrow> credentials_match (we_lib e) (wb_user s) username password)"

definition sent_token :: "web_request \<Rightarrow> string option" where
  "sent_token rq =
     (case find_header ''X-CSRF-Token'' (rq_header rq) of Some t \<Rightarrow> Some t | None \<Rightarrow> find_query ''csrf_token'' (rq_query rq))"

text \<open>The request comes from another site: a browser names a page that is not allowed.\<close>

definition cross_site :: "web_env \<Rightarrow> web_request \<Rightarrow> bool" where
  "cross_site e rq \<longleftrightarrow>
     (find_header ''Origin'' (rq_header rq) \<noteq> None \<or> find_header ''Referer'' (rq_header rq) \<noteq> None) \<and>
     (\<forall>h \<in> {''Origin'', ''Referer''}. \<forall>url. find_header h (rq_header rq) = Some url \<longrightarrow> \<not> is_allowed_origin (we_origins e) url)"

definition holds_token :: "web_env \<Rightarrow> web_request \<Rightarrow> web \<Rightarrow> bool" where
  "holds_token e rq s \<longleftrightarrow>
     (case (sent_token rq, wb_tokens s (get_client_id (we_lib e) (wb_user s) rq)) of
        (Some token, Some t) \<Rightarrow> ct_token t = token \<and> we_now e \<le> ct_expiration t
      | _ \<Rightarrow> False)"

definition not_forged :: "web_env \<Rightarrow> web_request \<Rightarrow> web \<Rightarrow> bool" where
  "not_forged e rq s \<longleftrightarrow> \<not> cross_site e rq \<or> holds_token e rq s"

definition changes :: "(web \<Rightarrow> web_result) \<Rightarrow> web \<Rightarrow> bool" where
  "changes f s \<longleftrightarrow> web_core (snd (f s)) \<noteq> web_core s"

lemma core_tokens [simp]: "web_core (s\<lparr>wb_tokens := t\<rparr>) = web_core s"
  by (simp add: web_core_def)

lemma authenticate_ok:
  "snd (authenticate (we_lib e) (we_allowed e) (wb_user s) rq) \<longleftrightarrow>
     logged_in e rq s \<and> length BASIC \<le> length (the (find_header ''authorization'' (rq_header rq)))"
  by (auto simp: authenticate_def logged_in_def origin_admitted_def sent_credentials_def not_less
      split: option.splits)

lemma stored_ok:
  "fst (snd (validate_stored_csrf_token now client_id provided tokens)) \<longleftrightarrow>
     (case tokens client_id of None \<Rightarrow> False | Some t \<Rightarrow> ct_token t = provided \<and> now \<le> ct_expiration t)"
  by (auto simp: validate_stored_csrf_token_def split: option.splits)

lemma validate_ok:
  "fst (snd (validate_csrf_token (we_now e) (we_origins e) rq (get_client_id (we_lib e) (wb_user s) rq) (wb_tokens s))) =
     not_forged e rq s"
  by (cases "find_header ''Origin'' (rq_header rq)"; cases "find_header ''Referer'' (rq_header rq)")
    (auto simp: validate_csrf_token_def Let_def not_forged_def cross_site_def holds_token_def sent_token_def stored_ok
      split: option.splits)

lemma changes_content_type: "changes (with_content_type rq k) s \<Longrightarrow> changes k s"
  by (simp add: changes_def with_content_type_def split: prod.splits if_splits)

lemma changes_user: "changes (with_user e rq k) s \<Longrightarrow> logged_in e rq s \<and> changes k s"
  using authenticate_ok [of e s rq] by (auto simp: changes_def with_user_def split: prod.splits if_splits)

lemma changes_csrf:
  "changes (with_csrf e rq k) s \<Longrightarrow> not_forged e rq s \<and> (\<exists>tokens. changes k (s\<lparr>wb_tokens := tokens\<rparr>))"
  using validate_ok [of e rq s] by (auto simp: changes_def with_csrf_def Let_def split: prod.splits if_splits)

text \<open>The handlers that only answer.\<close>

lemma constant_answer [simp]: "\<not> changes (Pair out) s"
  by (simp add: changes_def)

lemma user_answers_only: "(\<And>s. snd (k s) = s) \<Longrightarrow> \<not> changes (with_user e rq k) s"
  using changes_user by (fastforce simp: changes_def)

lemma answers_only:
  "\<not> changes (getApps e rq) s" "\<not> changes (getClients e rq) s" "\<not> changes (getConfig e rq) s"
  "\<not> changes (getCover e num rq) s" "\<not> changes (getLogs e rq) s" "\<not> changes (getViGEmBusStatus e rq) s"
  "\<not> changes (browseDirectory e rq) s"
  unfolding getApps_def getClients_def getConfig_def getCover_def getLogs_def getViGEmBusStatus_def browseDirectory_def
  by (rule user_answers_only; simp add: Let_def split: option.splits json.splits prod.splits)+

lemma pages_answer_only:
  "\<not> changes (getAsset e rq) s" "\<not> changes (getImage file) s" "\<not> changes (getLocale e) s"
  by (simp_all add: changes_def getAsset_def getImage_def getLocale_def Let_def split: option.splits)

lemma page_answers_only: "\<not> changes (getPage e file auth redirect rq) s"
  using user_answers_only [of "\<lambda>s. ([Reply_file file], s)" e rq s] by (simp add: changes_def getPage_def Let_def)

lemma token_answers_only: "\<not> changes (getCSRFToken e rq) s"
  using changes_user by (fastforce simp: changes_def getCSRFToken_def Let_def)

lemmas silent = answers_only pages_answer_only page_answers_only token_answers_only

lemma changes_guarded:
  assumes "changes (with_user e rq (with_csrf e rq k)) s"
  shows "logged_in e rq s \<and> not_forged e rq s"
  using changes_user [OF assms] changes_csrf by blast

lemma handle_changes:
  assumes "changes (handle e h rq) s"
  shows "logged_in e rq s \<and> not_forged e rq s \<or> logged_in e rq s \<and> h = H_uploadCover \<or>
    h = H_savePassword \<and> us_username (wb_user s) = [] \<and> not_forged e rq s"
proof (cases h)
  case H_savePassword
  then have "changes (savePassword e rq) s" using assms by (simp add: handle_def)
  then have c: "changes (\<lambda>s. if us_username (wb_user s) \<noteq> [] then with_user e rq (with_csrf e rq (savePassword_body e rq)) s
     else with_csrf e rq (savePassword_body e rq) s) s"
    unfolding savePassword_def by (rule changes_content_type)
  show ?thesis
  proof (cases "us_username (wb_user s) = []")
    case True
    then have "changes (with_csrf e rq (savePassword_body e rq)) s" using c by (simp add: changes_def)
    then show ?thesis using changes_csrf True H_savePassword by blast
  next
    case False
    then have "changes (with_user e rq (with_csrf e rq (savePassword_body e rq))) s" using c by (simp add: changes_def)
    then show ?thesis using changes_guarded by blast
  qed
qed (use assms silent in \<open>auto simp: handle_def saveApp_def deleteApp_def closeApp_def unpair_def unpairAll_def
    updateClient_def saveConfig_def uploadCover_def savePin_def resetDisplayDevicePersistence_def restart_def
    installViGEmBus_def dest!: changes_content_type changes_guarded dest: changes_user\<close>)

lemma get_route_reads: "get_route path \<noteq> H_uploadCover \<and> get_route path \<noteq> H_savePassword"
proof -
  have "map_of get_calls path = Some h \<Longrightarrow> h \<noteq> H_uploadCover \<and> h \<noteq> H_savePassword" for h
    by (auto simp: get_calls_def split: if_splits)
  then show ?thesis by (auto simp: get_route_def split: option.splits)
qed

lemma route_upload: "route method path = Some H_uploadCover \<Longrightarrow> path = ''/api/covers/upload''"
  using get_route_reads [of path]
  by (auto simp: route_def post_calls_def split: if_splits option.splits)

lemma route_password: "route method path = Some H_savePassword \<Longrightarrow> path = ''/api/password''"
  using get_route_reads [of path]
  by (auto simp: route_def post_calls_def split: if_splits option.splits)

text \<open>
  C24. What a request needs to change anything. If answering a request changes the applications, the
  settings, the clients or the credentials, or makes another component do something, then it came from
  an admitted network with the right user name and password, and either no other site sent it or it holds the
  token of its user. There are two exceptions: uploading a cover needs no token, and as long as there is
  no user name the password can be set without credentials, and from any network.
\<close>

theorem web_changes_guarded:
  fixes e :: web_env and rq :: web_request and s :: web
  defines "s' \<equiv> snd (serve_web e rq s)"
  shows "web_core s' = web_core s \<or>
    logged_in e rq s \<and> (not_forged e rq s \<or> rq_path rq = ''/api/covers/upload'') \<or>
    us_username (wb_user s) = [] \<and> rq_path rq = ''/api/password'' \<and> not_forged e rq s"
proof (cases "route (rq_method rq) (rq_path rq)")
  case None
  then show ?thesis by (simp add: s'_def serve_web_def)
next
  case (Some h)
  then have "web_core s' = web_core s \<or> changes (handle e h rq) s" by (simp add: s'_def serve_web_def changes_def)
  with Some show ?thesis using handle_changes route_upload route_password by blast
qed

section \<open>Where tokens come from\<close>

definition web_run :: "(web_env \<times> web_request) list \<Rightarrow> web \<Rightarrow> web" where
  "web_run events s = foldl (\<lambda>s (e, rq). snd (serve_web e rq s)) s events"

text \<open>An earlier request of the user asked for the token.\<close>

definition token_issued :: "(web_env \<times> web_request) list \<Rightarrow> web \<Rightarrow> string \<Rightarrow> csrf_token \<Rightarrow> bool" where
  "token_issued events s client t \<longleftrightarrow>
     (\<exists>before e rq after. events = before @ (e, rq) # after \<and>
        (let s' = web_run before s
         in logged_in e rq s' \<and> client = get_client_id (we_lib e) (wb_user s') rq \<and>
            rq_method rq = ''GET'' \<and> rq_path rq = ''/api/csrf-token'' \<and>
            ct_token t = we_random e \<and> ct_expiration t = we_now e + CSRF_TOKEN_LIFETIME))"

lemma web_run_snoc: "web_run (events @ [(e, rq)]) s = snd (serve_web e rq (web_run events s))"
  by (simp add: web_run_def)

text \<open>How the table of tokens changes.\<close>

definition tokens_grow :: "web_env \<Rightarrow> web_request \<Rightarrow> web_handler \<Rightarrow> web \<Rightarrow> csrf_table \<Rightarrow> bool" where
  "tokens_grow e rq h s tokens \<longleftrightarrow>
     (\<forall>c t. tokens c = Some t \<longrightarrow> wb_tokens s c = Some t \<or>
        h = H_getCSRFToken \<and> logged_in e rq s \<and> c = get_client_id (we_lib e) (wb_user s) rq \<and>
        ct_token t = we_random e \<and> ct_expiration t = we_now e + CSRF_TOKEN_LIFETIME)"

definition shrinks :: "(web \<Rightarrow> web_result) \<Rightarrow> bool" where
  "shrinks k \<longleftrightarrow> (\<forall>s. wb_tokens (snd (k s)) \<subseteq>\<^sub>m wb_tokens s)"

lemma shrinks_content_type: "shrinks k \<Longrightarrow> shrinks (with_content_type rq k)"
  by (auto simp: shrinks_def with_content_type_def split: prod.splits)

lemma shrinks_user: "shrinks k \<Longrightarrow> shrinks (with_user e rq k)"
  by (auto simp: shrinks_def with_user_def split: prod.splits)

lemma stored_shrinks: "snd (snd (validate_stored_csrf_token now c provided tokens)) \<subseteq>\<^sub>m tokens"
  by (auto simp: validate_stored_csrf_token_def map_le_def split: option.splits)

lemma validate_shrinks: "snd (snd (validate_csrf_token now origins rq c tokens)) \<subseteq>\<^sub>m tokens"
  using stored_shrinks by (auto simp: validate_csrf_token_def Let_def split: option.splits)

lemma shrinks_csrf: "shrinks k \<Longrightarrow> shrinks (with_csrf e rq k)"
proof -
  assume k: "shrinks k"
  have "wb_tokens (snd (with_csrf e rq k s)) \<subseteq>\<^sub>m wb_tokens s" for s
  proof -
    obtain out ok tokens where v: "validate_csrf_token (we_now e) (we_origins e) rq
        (get_client_id (we_lib e) (wb_user s) rq) (wb_tokens s) = (out, ok, tokens)" by (metis prod_cases3)
    then have "tokens \<subseteq>\<^sub>m wb_tokens s" using validate_shrinks by (metis snd_conv)
    moreover have "wb_tokens (snd (k (s\<lparr>wb_tokens := tokens\<rparr>))) \<subseteq>\<^sub>m tokens" using k
      by (metis shrinks_def web.select_convs(2) web.surjective web.update_convs(2))
    ultimately show ?thesis using map_le_trans [of "wb_tokens (snd (k (s\<lparr>wb_tokens := tokens\<rparr>)))" tokens "wb_tokens s"]
      by (simp add: with_csrf_def v Let_def)
  qed
  then show ?thesis by (simp add: shrinks_def)
qed

lemma shrinks_same: "(\<And>s. wb_tokens (snd (k s)) = wb_tokens s) \<Longrightarrow> shrinks k"
  by (simp add: shrinks_def)

lemmas shrinking = shrinks_content_type shrinks_user shrinks_csrf

lemma tokens_of_call [simp]: "wb_tokens (call c s) = wb_tokens s" "wb_tokens (write_apps e tree s) = wb_tokens s"
  "wb_tokens (change_password e u p s) = wb_tokens s"
  by (simp_all add: call_def write_apps_def change_password_def split: prod.splits)

lemma savePassword_body_tokens: "wb_tokens (snd (savePassword_body e rq s)) = wb_tokens s"
  by (simp add: savePassword_body_def Let_def split: option.splits)

lemma shrinks_if: "shrinks f \<Longrightarrow> shrinks g \<Longrightarrow> shrinks (\<lambda>s. if P s then f s else g s)"
  by (simp add: shrinks_def)

lemma handlers_shrink:
  "shrinks (saveApp e rq)" "shrinks (deleteApp e num rq)" "shrinks (closeApp e rq)" "shrinks (unpair e rq)"
  "shrinks (unpairAll e rq)" "shrinks (updateClient e rq)" "shrinks (saveConfig e rq)" "shrinks (uploadCover e rq)"
  "shrinks (savePin e rq)" "shrinks (resetDisplayDevicePersistence e rq)" "shrinks (restart e rq)"
  "shrinks (installViGEmBus e rq)"
  unfolding saveApp_def deleteApp_def closeApp_def unpair_def unpairAll_def updateClient_def saveConfig_def uploadCover_def
    savePin_def resetDisplayDevicePersistence_def restart_def installViGEmBus_def
  by (intro shrinking shrinks_same; simp add: Let_def split: option.splits json_result.splits prod.splits)+

lemma readers_shrink:
  "shrinks (getApps e rq)" "shrinks (getClients e rq)" "shrinks (getConfig e rq)"
  "shrinks (getCover e num rq)" "shrinks (getLogs e rq)" "shrinks (getViGEmBusStatus e rq)"
  "shrinks (browseDirectory e rq)"
  unfolding getApps_def getClients_def getConfig_def getCover_def getLogs_def getViGEmBusStatus_def browseDirectory_def
  by (intro shrinking shrinks_same; simp add: Let_def split: option.splits json.splits prod.splits)+

lemma pages_shrink:
  "shrinks (getAsset e rq)" "shrinks (getImage file)" "shrinks (getLocale e)" "shrinks (Pair out)"
  by (intro shrinks_same; simp add: getAsset_def getImage_def getLocale_def Let_def split: option.splits)+

lemma page_shrinks: "shrinks (getPage e file auth redirect rq)"
proof -
  have "shrinks (with_user e rq (\<lambda>s. ([Reply_file file], s)))" by (intro shrinking shrinks_same) simp
  then show ?thesis by (simp add: shrinks_def getPage_def Let_def)
qed

lemma password_shrinks: "shrinks (savePassword e rq)"
  unfolding savePassword_def
  by (intro shrinks_content_type shrinks_if shrinks_user shrinks_csrf shrinks_same savePassword_body_tokens)

lemma handle_tokens:
  "tokens_grow e rq h s (wb_tokens (snd (handle e h rq s)))"
proof (cases "h = H_getCSRFToken")
  case True
  have handle: "handle e H_getCSRFToken rq = getCSRFToken e rq" by (simp add: handle_def)
  obtain out ok where a: "authenticate (we_lib e) (we_allowed e) (wb_user s) rq = (out, ok)" by fastforce
  then have "ok \<Longrightarrow> logged_in e rq s" using authenticate_ok [of e s rq] by simp
  then show ?thesis using True
    by (auto simp: tokens_grow_def handle getCSRFToken_def with_user_def a Let_def generate_csrf_token_def
        split: if_splits option.splits)
next
  case False
  then have "shrinks (handle e h rq)"
    by (cases h) (simp_all add: handle_def handlers_shrink readers_shrink pages_shrink page_shrinks password_shrinks)
  then show ?thesis by (auto simp: tokens_grow_def shrinks_def map_le_def dom_def)
qed

lemma number_after_start: "number_after base path = Some d \<Longrightarrow> take (length base) path = base"
  by (simp add: number_after_def starts_with_def Let_def split: if_splits)

lemma route_token:
  assumes "route method path = Some H_getCSRFToken"
  shows "method = ''GET'' \<and> path = ''/api/csrf-token''"
proof -
  have calls: "map_of get_calls path = Some H_getCSRFToken \<Longrightarrow> path = ''/api/csrf-token''"
    by (auto simp: get_calls_def split: if_splits)
  have post: "map_of post_calls path \<noteq> Some H_getCSRFToken" by (auto simp: post_calls_def)
  have "get_route path = H_getCSRFToken \<Longrightarrow> map_of get_calls path = Some H_getCSRFToken"
    by (auto simp: get_route_def split: option.splits if_splits)
  with assms calls post show ?thesis by (auto simp: route_def split: if_splits option.splits)
qed

lemma serve_tokens:
  assumes "wb_tokens (snd (serve_web e rq s)) c = Some t" and "wb_tokens s c \<noteq> Some t"
  shows "logged_in e rq s \<and> c = get_client_id (we_lib e) (wb_user s) rq \<and> rq_method rq = ''GET'' \<and>
    rq_path rq = ''/api/csrf-token'' \<and> ct_token t = we_random e \<and> ct_expiration t = we_now e + CSRF_TOKEN_LIFETIME"
proof (cases "route (rq_method rq) (rq_path rq)")
  case (Some h)
  then have "wb_tokens (snd (handle e h rq s)) c = Some t" using assms by (simp add: serve_web_def)
  then have "h = H_getCSRFToken \<and> logged_in e rq s \<and> c = get_client_id (we_lib e) (wb_user s) rq \<and>
      ct_token t = we_random e \<and> ct_expiration t = we_now e + CSRF_TOKEN_LIFETIME"
    using handle_tokens [of e rq h s] assms(2) by (auto simp: tokens_grow_def)
  then show ?thesis using route_token Some by blast
qed (use assms in \<open>simp add: serve_web_def\<close>)

lemma token_issued_snoc: "token_issued events s c t \<Longrightarrow> token_issued (events @ [x]) s c t"
  unfolding token_issued_def by (metis append_Cons append_assoc)

lemma tokens_issued:
  assumes "wb_tokens s = (\<lambda>_. None)"
  shows "wb_tokens (web_run events s) c = Some t \<Longrightarrow> token_issued events s c t"
proof (induction events arbitrary: c t rule: rev_induct)
  case Nil
  then show ?case using assms by (simp add: web_run_def)
next
  case (snoc x events)
  obtain e rq where x: "x = (e, rq)" by (cases x)
  show ?case
  proof (cases "wb_tokens (web_run events s) c = Some t")
    case True
    then show ?thesis using snoc.IH token_issued_snoc by blast
  next
    case False
    then have "logged_in e rq (web_run events s) \<and> c = get_client_id (we_lib e) (wb_user (web_run events s)) rq \<and>
        rq_method rq = ''GET'' \<and> rq_path rq = ''/api/csrf-token'' \<and> ct_token t = we_random e \<and>
        ct_expiration t = we_now e + CSRF_TOKEN_LIFETIME"
      using serve_tokens snoc.prems by (simp add: x web_run_snoc)
    then show ?thesis unfolding token_issued_def Let_def x by blast
  qed
qed

text \<open>
  C25. With one exception another site cannot make a browser change anything. Let any requests be
  answered, starting without tokens. If a request of another site then changes anything but the tokens,
  and is not for \<^verbatim>\<open>/api/covers/upload\<close>, whose handler checks no token, it holds a token that an earlier
  request with the right user name and password got for the same user, at most an hour before.
\<close>

theorem cross_site_needs_token:
  assumes "wb_tokens s = (\<lambda>_. None)" and "cross_site e rq" and "rq_path rq \<noteq> ''/api/covers/upload''"
    and "web_core (snd (serve_web e rq (web_run events s))) \<noteq> web_core (web_run events s)"
  shows "\<exists>t. token_issued events s (get_client_id (we_lib e) (wb_user (web_run events s)) rq) t \<and>
    sent_token rq = Some (ct_token t) \<and> we_now e \<le> ct_expiration t"
proof -
  have "not_forged e rq (web_run events s)"
    using handle_changes assms(3,4) route_upload
    by (fastforce simp: serve_web_def changes_def split: option.splits)
  then have "holds_token e rq (web_run events s)" using assms(2) by (simp add: not_forged_def)
  then show ?thesis using tokens_issued [OF assms(1)] by (auto simp: holds_token_def split: option.splits)
qed

definition sample_web_lib :: web_lib where
  "sample_web_lib = \<lparr>wl_ip = \<lparr>il_hosts_v4 = (\<lambda>n _. n = ''127.0.0.0/8''), il_hosts_v6 = (\<lambda>_ _. False), il_v4_mapped = (\<lambda>_. None),
     il_make_address = (\<lambda>_. Some (V4 0)), il_to_string = (\<lambda>_. ''127.0.0.1'')\<rparr>,
     wl_base64 = (\<lambda>s. s), wl_hash = map of_char\<rparr>"

definition sample_web_env :: "int \<Rightarrow> web_env" where
  "sample_web_env now = \<lparr>we_lib = sample_web_lib,
     we_images = \<lparr>im_assets = [], im_extension = (\<lambda>_. []), im_join = (\<lambda>_ p. p), im_exists = (\<lambda>_. False), im_read_file = (\<lambda>_. None)\<rparr>,
     we_allowed = LAN, we_origins = [''https://localhost''], we_locale = ''en'', we_now = now, we_random = ''secret'', we_write_ok = True,
     we_load_ok = True, we_uuids = (\<lambda>_. []), we_session_count = 0, we_running = 0, we_pin = (\<lambda>_ _. True), we_reset = True,
     we_sort_apps = sort_key app_name, we_sort_entries = (\<lambda>es. es), we_dump = (\<lambda>_. []), we_what = ''error'', we_read = (\<lambda>_. None),
     we_log_file = [], we_appdata = [], we_escape = (\<lambda>s. s), we_host = (\<lambda>s. s), we_download = (\<lambda>_ _. True), we_asset_path = (\<lambda>s. s),
     we_asset_relative = (\<lambda>s. [s]), we_extension = (\<lambda>_. []), we_browse_path = (\<lambda>s. s), we_parent = (\<lambda>s. s),
     we_is_file = (\<lambda>_. False), we_exists = (\<lambda>_. False), we_is_directory = (\<lambda>_. False), we_entries = (\<lambda>_. [])\<rparr>"

definition sample_web :: web where
  "sample_web = \<lparr>wb_user = \<lparr>us_username = ''admin'', us_password = password_hash sample_web_lib ''pw'' ''salt'', us_salt = ''salt''\<rparr>,
     wb_tokens = (\<lambda>_. None), wb_creds = None, wb_apps = None, wb_config = [],
     wb_nvhttp = \<lparr>nv_sessions = (\<lambda>_. None), nv_named_devices = [], nv_cert_chain = [],
       nv_add_cert = new_queue 8, nv_unique_id = [], nv_file = None\<rparr>,
     wb_calls = []\<rparr>"

definition sample_call :: "string \<Rightarrow> string \<Rightarrow> (string \<times> string) list \<Rightarrow> web_request" where
  "sample_call method path header = \<lparr>rq_method = method, rq_path = path, rq_query = [], rq_remote = V4 0,
     rq_header = (''Authorization'', ''Basic admin:pw'') # header, rq_body = None\<rparr>"

text \<open>A token is asked for and used by a page of another site half an hour later.\<close>

theorem cross_site_needs_token_witness:
  "let events = [(sample_web_env 0, sample_call ''GET'' ''/api/csrf-token'' [])];
       rq = sample_call ''POST'' ''/api/apps/close'' [(''Origin'', ''https://example.com''), (''X-CSRF-Token'', ''secret'')];
       e = sample_web_env 1800000; s = web_run events sample_web
   in wb_calls (snd (serve_web e rq s)) = [Proc_terminate] \<and>
      (\<exists>t. token_issued events sample_web (get_client_id (we_lib e) (wb_user s) rq) t \<and> sent_token rq = Some (ct_token t))"
proof -
  define events where "events = [(sample_web_env 0, sample_call ''GET'' ''/api/csrf-token'' [])]"
  define rq where "rq = sample_call ''POST'' ''/api/apps/close'' [(''Origin'', ''https://example.com''), (''X-CSRF-Token'', ''secret'')]"
  define e where "e = sample_web_env 1800000"
  define s where "s = web_run events sample_web"
  have calls: "wb_calls (snd (serve_web e rq s)) = [Proc_terminate]" "wb_calls s = []"
    unfolding e_def rq_def s_def events_def by code_simp+
  have "wb_tokens sample_web = (\<lambda>_. None)" by (simp add: sample_web_def)
  moreover have "cross_site e rq"
    by (simp add: cross_site_def rq_def e_def sample_call_def sample_web_env_def is_allowed_origin_def starts_with_def iequals_def to_lower_def)
  moreover have "rq_path rq \<noteq> ''/api/covers/upload''" by (simp add: rq_def sample_call_def)
  moreover have "web_core (snd (serve_web e rq s)) \<noteq> web_core s"
    using calls by (metis web_core_def list.distinct(1) web.select_convs(7) web.surjective web.update_convs(2))
  ultimately have "\<exists>t. token_issued events sample_web (get_client_id (we_lib e) (wb_user s) rq) t \<and> sent_token rq = Some (ct_token t)"
    using cross_site_needs_token [of sample_web e rq events] unfolding s_def by blast
  then show ?thesis using calls(1) by (simp add: Let_def events_def rq_def e_def s_def)
qed

section \<open>Edits of the applications\<close>

lemma those_map: "(\<And>x. x \<in> set xs \<Longrightarrow> f x = Some (g x)) \<Longrightarrow> those (map f xs) = Some (map g xs)"
  by (induction xs) auto

lemma map_nth_except: "j < length xs \<Longrightarrow> map ((!) xs) (filter (\<lambda>i. i \<noteq> j) [0..<length xs]) = take j xs @ drop (Suc j) xs"
proof -
  assume j: "j < length xs"
  have "[0..<length xs] = [0..<j] @ j # [Suc j..<length xs]"
    using j by (metis le_add1 less_imp_add_positive upt_add_eq_append upt_conv_Cons add_0 less_imp_le_nat less_nat_zero_code le_add_diff_inverse zero_le)
  moreover have "filter (\<lambda>i. i \<noteq> j) [0..<j] = [0..<j]" "filter (\<lambda>i. i \<noteq> j) [Suc j..<length xs] = [Suc j..<length xs]"
    by (simp_all add: filter_id_conv)
  moreover have "map ((!) xs) [0..<j] = take j xs" using j by (intro nth_equalityI) auto
  moreover have "map ((!) xs) [Suc j..<length xs] = drop (Suc j) xs" by (intro nth_equalityI) auto
  ultimately show ?thesis by simp
qed

lemma delete_index:
  "j < length xs \<Longrightarrow> json_member ''apps'' f = Json_array xs \<Longrightarrow>
   delete_app_tree j f = Some (Json_object (AList.update ''apps'' (Json_array (take j xs @ drop (Suc j) xs)) f))"
proof -
  assume j: "j < length xs" and f: "json_member ''apps'' f = Json_array xs"
  have "those (map (json_at (Json_array xs)) (filter (\<lambda>i. i \<noteq> j) [0..<length xs])) =
      Some (map ((!) xs) (filter (\<lambda>i. i \<noteq> j) [0..<length xs]))"
    by (rule those_map) (simp add: json_at_def)
  then show ?thesis using map_nth_except [OF j] by (simp add: delete_app_tree_def f json_size_def Let_def)
qed

lemma replace_index:
  "replace_app index input (Json_array xs) = Some
     (if index = -1 then xs @ [input] else if 0 \<le> index \<and> index < int (length xs) then xs[nat index := input] else xs)"
proof (cases "index = -1")
  case False
  define g where "g i = (if int i = index then input else xs ! i)" for i
  have "those (map (\<lambda>i. if int i = index then Some input else json_at (Json_array xs) i) [0..<length xs]) = Some (map g [0..<length xs])"
    by (rule those_map) (simp add: json_at_def g_def)
  moreover have "map g [0..<length xs] = (if 0 \<le> index \<and> index < int (length xs) then xs[nat index := input] else xs)"
    by (rule nth_equalityI) (auto simp: g_def nth_list_update)
  ultimately show ?thesis using False by (simp add: replace_app_def json_size_def)
qed (simp add: replace_app_def)

lemma sort_named:
  assumes "\<And>xs. mset (sorter xs) = mset xs \<and> sorted (map app_name (sorter xs))" and "list_all has_name apps"
  shows "\<exists>ys. sort_apps sorter apps = Json_ok ys \<and> mset ys = mset apps \<and> sorted (map app_name ys)"
proof (cases "length apps < 2")
  case True
  then have "sorted (map app_name apps)" by (cases apps) auto
  then show ?thesis using True by (simp add: sort_apps_def)
next
  case False
  have "\<not> list_ex name_missing apps"
    using assms(2) by (auto simp: list_ex_iff list_all_iff has_name_def name_missing_def split: json.splits option.splits)
  then show ?thesis using False assms by (simp add: sort_apps_def)
qed

text \<open>
  Editing the list of applications. Let every application of the file have a name. Saving an
  application with index -1 adds it, with the index of an application replaces that one, and changes
  nothing with any other index; the new list has exactly these applications and is sorted by name.
  Deleting an index removes exactly that application and keeps the order.
\<close>

theorem app_list_edits:
  fixes m :: "(string \<times> json) list"
  defines "entry \<equiv> Json_object (AList.delete ''index'' (drop_if_empty ''detached'' (drop_if_empty ''prep-cmd'' m)))"
  assumes sorter: "\<And>xs. mset (sorter xs) = mset xs \<and> sorted (map app_name (sorter xs))"
    and apps: "map_of f ''apps'' = Some (Json_array xs)" and named: "list_all has_name xs"
    and index: "map_of m ''index'' = Some (Json_int i)" "cast_int i = i" and name: "map_of m ''name'' = Some (Json_text n)"
  shows "(\<exists>ys. save_app_tree sorter (Json_object m) (Json_object f) = Json_ok (Json_object (AList.update ''apps'' (Json_array ys) f)) \<and>
      sorted (map app_name ys) \<and> app_name entry = n \<and>
      mset ys = (if i = -1 then add_mset entry (mset xs)
        else if 0 \<le> i \<and> i < int (length xs) then add_mset entry (mset xs - {#xs ! nat i#}) else mset xs)) \<and>
    (\<forall>j < length xs. delete_app_tree j f =
      Some (Json_object (AList.update ''apps'' (Json_array (take j xs @ drop (Suc j) xs)) f)))"
proof -
  have member: "json_member ''apps'' f = Json_array xs" by (simp add: json_member_def apps)
  have kept: "map_of (drop_if_empty k l) k' = map_of l k'" if "k \<noteq> k'" for k k' l
    using that by (simp add: drop_if_empty_def delete_conv)
  define l where "l = drop_if_empty ''detached'' (drop_if_empty ''prep-cmd'' m)"
  have l: "map_of l ''index'' = Some (Json_int i)" "map_of l ''name'' = Some (Json_text n)"
    by (simp_all add: l_def kept index name)
  have li: "json_member ''index'' l = Json_int i" by (simp add: json_member_def l(1))
  have entry: "app_name entry = n" "has_name entry" using l(2)
    by (simp_all add: entry_def l_def [symmetric] app_name_def has_name_def delete_conv)
  define apps where "apps = (if i = -1 then xs @ [entry] else if 0 \<le> i \<and> i < int (length xs) then xs[nat i := entry] else xs)"
  have "list_all has_name apps" using named entry(2) set_update_subset_insert [of xs "nat i" entry]
    by (auto simp: apps_def list_all_iff)
  then obtain ys where ys: "sort_apps sorter apps = Json_ok ys" "mset ys = mset apps" "sorted (map app_name ys)"
    using sort_named [of sorter apps] sorter by blast
  have "replace_app i entry (Json_array xs) = Some apps" by (simp add: replace_index apps_def)
  then have "save_app_tree sorter (Json_object m) (Json_object f) = Json_ok (Json_object (AList.update ''apps'' (Json_array ys) f))"
    by (simp add: save_app_tree_def json_members_def Let_def member ys(1) entry_def l_def [symmetric] li json_int_def index(2))
  moreover have "mset apps = (if i = -1 then add_mset entry (mset xs)
        else if 0 \<le> i \<and> i < int (length xs) then add_mset entry (mset xs - {#xs ! nat i#}) else mset xs)"
    by (simp add: apps_def mset_update nat_less_iff)
  ultimately show ?thesis using ys delete_index [OF _ member] entry(1) by auto
qed

definition named_app :: "string \<Rightarrow> json" where
  "named_app n = Json_object [(''name'', Json_text n)]"

theorem app_list_edits_witness:
  "let f = [(''apps'', Json_array [named_app ''a'', named_app ''c''])];
       m = [(''index'', Json_int (-1)), (''name'', Json_text ''b''), (''detached'', Json_array [])]
   in (\<exists>ys. save_app_tree (sort_key app_name) (Json_object m) (Json_object f) =
          Json_ok (Json_object (AList.update ''apps'' (Json_array ys) f)) \<and> sorted (map app_name ys)) \<and>
      delete_app_tree 1 f = Some (Json_object [(''apps'', Json_array [named_app ''a''])])"
proof -
  define f where "f = [(''apps'', Json_array [named_app ''a'', named_app ''c''])]"
  define m where "m = [(''index'', Json_int (-1)), (''name'', Json_text ''b''), (''detached'', Json_array [])]"
  have "mset (sort_key app_name xs) = mset xs \<and> sorted (map app_name (sort_key app_name xs))" for xs by simp
  moreover have "map_of f ''apps'' = Some (Json_array [named_app ''a'', named_app ''c''])" by (simp add: f_def)
  moreover have "list_all has_name [named_app ''a'', named_app ''c'']" by (simp add: has_name_def named_app_def)
  moreover have "map_of m ''index'' = Some (Json_int (-1))" "map_of m ''name'' = Some (Json_text ''b'')" by (simp_all add: m_def)
  moreover have "cast_int (-1) = -1" by code_simp
  ultimately have *: "(\<exists>ys. save_app_tree (sort_key app_name) (Json_object m) (Json_object f) =
          Json_ok (Json_object (AList.update ''apps'' (Json_array ys) f)) \<and> sorted (map app_name ys)) \<and>
      (\<forall>j < 2. delete_app_tree j f = Some (Json_object (AList.update ''apps''
         (Json_array (take j [named_app ''a'', named_app ''c''] @ drop (Suc j) [named_app ''a'', named_app ''c''])) f)))"
    using app_list_edits [of "sort_key app_name" f "[named_app ''a'', named_app ''c'']" m "-1" "''b''"] by auto
  then have "delete_app_tree 1 f = Some (Json_object [(''apps'', Json_array [named_app ''a''])])" by (simp add: f_def)
  with * show ?thesis by (simp only: Let_def f_def m_def)
qed

section \<open>Credentials\<close>

lemma find_key_update: "find_key k (AList.update k' v t) = (if k = k' then Some v else find_key k t)"
  by (induction t) auto

lemma changed_user:
  assumes "we_write_ok e" and "wb_creds s \<noteq> Some None"
  shows "wb_user (change_password e username password s) =
    \<lparr>us_username = username, us_password = password_hash (we_lib e) password (we_random e), us_salt = we_random e\<rparr>"
proof -
  obtain tree where "(case wb_creds s of None \<Rightarrow> Some [] | Some content \<Rightarrow> content) = Some tree"
    using assms(2) by (cases "wb_creds s") auto
  then show ?thesis using assms(1)
    by (simp add: change_password_def save_user_creds_def reload_user_creds_def Let_def pt_put_def find_key_update)
qed

lemma split_credentials_join:
  "CHR '':'' \<notin> set user \<Longrightarrow> pass \<noteq> [] \<Longrightarrow> split_credentials (user @ CHR '':'' # pass) = Some (user, pass)"
proof -
  assume user: "CHR '':'' \<notin> set user" and pass: "pass \<noteq> []"
  have "find_char (CHR '':'') (user @ CHR '':'' # pass) = Some (length user)"
    using user by (simp add: find_char_Some nth_append)
  then show ?thesis using pass by (simp add: split_credentials_def)
qed

lemma split_credentials_no_colon: "split_credentials d = Some (user, pass) \<Longrightarrow> CHR '':'' \<notin> set user"
  by (auto simp: split_credentials_def find_char_Some split: option.splits if_splits)

lemma to_lower_colon: "to_lower c = CHR '':'' \<longleftrightarrow> c = CHR '':''"
proof (cases "65 \<le> (of_char c :: nat) \<and> (of_char c :: nat) \<le> 90")
  case True
  define n where "n = (of_char c :: nat)"
  have n: "65 \<le> n" "n \<le> 90" using True by (simp_all add: n_def)
  have "(of_char (to_lower c) :: nat) = n + 32" using n by (simp add: to_lower_def n_def [symmetric] Let_def)
  then have "to_lower c \<noteq> CHR '':''" using n by auto
  moreover have "c \<noteq> CHR '':''" using n by (auto simp: n_def)
  ultimately show ?thesis by simp
next
  case False
  then show ?thesis by (auto simp: to_lower_def Let_def)
qed

lemma iequals_colon: "iequals a b \<Longrightarrow> CHR '':'' \<in> set a \<longleftrightarrow> CHR '':'' \<in> set b"
proof -
  have colon: "CHR '':'' \<in> set x \<longleftrightarrow> CHR '':'' \<in> set (map to_lower x)" for x
    using to_lower_colon by (induction x) (simp_all, metis)
  assume "iequals a b"
  then show ?thesis unfolding iequals_def by (metis colon)
qed

lemma hex_inj: "hex_vec a r = hex_vec b r \<Longrightarrow> a = b"
  by (metis hex_roundtrip)

text \<open>An answer of success is that of the rest of the handler.\<close>

lemma ok_content_type: "with_content_type rq k s = ([status_ok b], s') \<Longrightarrow> k s = ([status_ok b], s')"
  by (auto simp: with_content_type_def check_content_type_def status_ok_def Let_def split: option.splits if_splits)

lemma ok_user: "with_user e rq k s = ([status_ok b], s') \<Longrightarrow> k s = ([status_ok b], s')"
  by (auto simp: with_user_def authenticate_def status_ok_def split: option.splits if_splits)

lemma stored_refusal: "validate_stored_csrf_token now c provided tokens = (out, False, t) \<Longrightarrow> out \<noteq> [status_ok b]"
  by (auto simp: validate_stored_csrf_token_def status_ok_def split: option.splits if_splits)

lemma csrf_refusal: "validate_csrf_token now origins rq c tokens = (out, False, t) \<Longrightarrow> out \<noteq> [status_ok b]"
  by (auto simp: validate_csrf_token_def Let_def dest: stored_refusal split: option.splits if_splits)
    (auto simp: status_ok_def)

lemma ok_csrf:
  "with_csrf e rq k s = ([status_ok b], s') \<Longrightarrow> \<exists>tokens. k (s\<lparr>wb_tokens := tokens\<rparr>) = ([status_ok b], s')"
proof -
  assume ok: "with_csrf e rq k s = ([status_ok b], s')"
  obtain out valid tokens where v: "validate_csrf_token (we_now e) (we_origins e) rq
      (get_client_id (we_lib e) (wb_user s) rq) (wb_tokens s) = (out, valid, tokens)" by (metis prod_cases3)
  show ?thesis using ok v by (cases valid) (auto simp: with_csrf_def Let_def dest: csrf_refusal)
qed

lemma savePassword_ok:
  assumes "savePassword e rq s = ([status_ok b], s')"
  shows "\<exists>tokens. savePassword_body e rq (s\<lparr>wb_tokens := tokens\<rparr>) = ([status_ok b], s')"
proof -
  have "(if us_username (wb_user s) \<noteq> [] then with_user e rq (with_csrf e rq (savePassword_body e rq)) s
     else with_csrf e rq (savePassword_body e rq) s) = ([status_ok b], s')"
    using ok_content_type [OF assms [unfolded savePassword_def]] .
  then have "with_csrf e rq (savePassword_body e rq) s = ([status_ok b], s')"
    using ok_user by (cases "us_username (wb_user s) = []") auto
  then show ?thesis by (rule ok_csrf)
qed

lemma savePassword_body_ok:
  assumes "rq_body rq = Some j" "value_text ''newUsername'' [] j = Some user" "user \<noteq> []"
    "value_text ''newPassword'' [] j = Some pass"
    and "savePassword_body e rq s = ([status_ok b], s')"
  shows "s' = change_password e user pass s \<and> pass \<noteq> []"
proof -
  have given: "Option.bind (rq_body rq) (value_text ''newUsername'' []) = Some user"
    "Option.bind (rq_body rq) (value_text ''newPassword'' []) = Some pass" using assms(1-4) by simp_all
  have fails: "Bad_request x \<noteq> status_ok b" for x by (simp add: status_ok_def)
  show ?thesis using assms(3,5) unfolding savePassword_body_def Let_def given
    by (cases "Option.bind (rq_body rq) (value_text ''currentUsername'' [])";
      cases "Option.bind (rq_body rq) (value_text ''currentPassword'' [])";
      cases "Option.bind (rq_body rq) (value_text ''confirmNewPassword'' [])") (simp_all add: fails split: if_splits)
qed

text \<open>
  C26. Setting a new password. If the handler answers with success and writing works, then a request from an
  admitted network with the new user name and password in its header is let in; a request that is let
  in has the new user name, but for capital letters, and a password with the hash of the new one. If the new user name
  has a colon in it, nobody is let in any more.
\<close>

theorem new_password_admits:
  assumes "we_write_ok e" and "wb_creds s \<noteq> Some None"
    and body: "rq_body rq = Some j" "value_text ''newUsername'' [] j = Some user" "user \<noteq> []"
      "value_text ''newPassword'' [] j = Some pass"
    and saved: "savePassword e rq s = ([status_ok True], s')"
  shows "(CHR '':'' \<notin> set user \<and> origin_admitted e r \<and> sent_credentials e r = Some (user, pass) \<longrightarrow> logged_in e r s') \<and>
    (logged_in e r s' \<longrightarrow> (\<exists>u p. sent_credentials e r = Some (u, p) \<and> iequals u user \<and>
       wl_hash (we_lib e) (p @ we_random e) = wl_hash (we_lib e) (pass @ we_random e))) \<and>
    (CHR '':'' \<in> set user \<longrightarrow> \<not> logged_in e r s')"
proof -
  obtain tokens where "savePassword_body e rq (s\<lparr>wb_tokens := tokens\<rparr>) = ([status_ok True], s')"
    using savePassword_ok [OF saved] by blast
  then have s': "s' = change_password e user pass (s\<lparr>wb_tokens := tokens\<rparr>)" "pass \<noteq> []"
    using savePassword_body_ok [OF body] by blast+
  have u: "wb_user s' = \<lparr>us_username = user, us_password = password_hash (we_lib e) pass (we_random e), us_salt = we_random e\<rparr>"
    using changed_user [of e "s\<lparr>wb_tokens := tokens\<rparr>"] assms(1,2) by (simp add: s')
  have match: "credentials_match (we_lib e) (wb_user s') n p \<longleftrightarrow>
      iequals n user \<and> wl_hash (we_lib e) (p @ we_random e) = wl_hash (we_lib e) (pass @ we_random e)" for n p
    using hex_inj by (auto simp: u credentials_match_def password_hash_def)
  have un: "us_username (wb_user s') = user" by (simp add: u)
  have self: "iequals user user" by (simp add: iequals_def)
  have colon: "sent_credentials e r = Some (n, p) \<Longrightarrow> CHR '':'' \<notin> set n" for n p
    using split_credentials_no_colon by (auto simp: sent_credentials_def bind_eq_Some_conv)
  have login: "logged_in e r s' \<longleftrightarrow> origin_admitted e r \<and> (\<exists>n p. sent_credentials e r = Some (n, p) \<and> iequals n user \<and>
      wl_hash (we_lib e) (p @ we_random e) = wl_hash (we_lib e) (pass @ we_random e))"
    using body(3) un by (cases "sent_credentials e r") (auto simp: logged_in_def match)
  have "origin_admitted e r \<Longrightarrow> sent_credentials e r = Some (user, pass) \<Longrightarrow> logged_in e r s'"
    using self login by blast
  moreover have "CHR '':'' \<in> set user \<Longrightarrow> \<not> logged_in e r s'"
    using login colon iequals_colon by blast
  ultimately show ?thesis using login by blast
qed

lemma single_reply:
  "(case xs of [Reply j] \<Rightarrow> j = j' | _ \<Rightarrow> False) \<Longrightarrow> xs = [Reply j']"
  by (cases xs; cases "tl xs"; cases "hd xs") auto

theorem new_password_admits_witness:
  "let body = Json_object [(''newUsername'', Json_text ''me''), (''newPassword'', Json_text ''pw''), (''confirmNewPassword'', Json_text ''pw'')];
       rq = (sample_call ''POST'' ''/api/password'' [(''Content-Type'', ''application/json'')])\<lparr>rq_body := Some body\<rparr>;
       s = sample_web\<lparr>wb_user := \<lparr>us_username = [], us_password = [], us_salt = []\<rparr>\<rparr>;
       r = (sample_call ''GET'' ''/api/config'' [])\<lparr>rq_header := [(''Authorization'', ''Basic me:pw'')]\<rparr>
   in logged_in (sample_web_env 0) r (snd (savePassword (sample_web_env 0) rq s))"
proof -
  define body where "body = Json_object [(''newUsername'', Json_text ''me''), (''newPassword'', Json_text ''pw''), (''confirmNewPassword'', Json_text ''pw'')]"
  define rq where "rq = (sample_call ''POST'' ''/api/password'' [(''Content-Type'', ''application/json'')])\<lparr>rq_body := Some body\<rparr>"
  define s where "s = sample_web\<lparr>wb_user := \<lparr>us_username = [], us_password = [], us_salt = []\<rparr>\<rparr>"
  define r where "r = (sample_call ''GET'' ''/api/config'' [])\<lparr>rq_header := [(''Authorization'', ''Basic me:pw'')]\<rparr>"
  have "case fst (savePassword (sample_web_env 0) rq s) of [Reply j] \<Rightarrow> j = Json_object [(''status'', Json_bool True)] | _ \<Rightarrow> False"
    unfolding rq_def s_def body_def by code_simp
  then have "fst (savePassword (sample_web_env 0) rq s) = [status_ok True]"
    using single_reply [where xs = "fst (savePassword (sample_web_env 0) rq s)"] by (simp add: status_ok_def)
  then have saved: "savePassword (sample_web_env 0) rq s = ([status_ok True], snd (savePassword (sample_web_env 0) rq s))"
    by (metis prod.collapse)
  have "origin_admitted (sample_web_env 0) r" "sent_credentials (sample_web_env 0) r = Some (''me'', ''pw'')"
    unfolding r_def by code_simp+
  moreover have "we_write_ok (sample_web_env 0)" "wb_creds s \<noteq> Some None"
    by (simp_all add: sample_web_env_def s_def sample_web_def)
  moreover have "rq_body rq = Some body" "value_text ''newUsername'' [] body = Some ''me''" "value_text ''newPassword'' [] body = Some ''pw''"
    by (simp_all add: rq_def body_def value_text_def)
  ultimately have "logged_in (sample_web_env 0) r (snd (savePassword (sample_web_env 0) rq s))"
    using new_password_admits [OF _ _ _ _ _ _ saved, of body "''me''" "''pw''" r] by simp
  then show ?thesis unfolding rq_def body_def s_def r_def Let_def .
qed

end
