(* ===== verification/Colorspace.thy ===== *)
theory Colorspace
  imports Complex_Main Rtsp
begin

text \<open>
  Colour spaces, \<^verbatim>\<open>src/video_colorspace.cpp\<close>: the choice from the client's wish, the constants for
  FFmpeg and the vectors of the conversion from RGB. The vectors are computed with rational numbers
  where the code uses floating point numbers, rounding is left out.
\<close>

section \<open>The choice\<close>

datatype colorspace_e = Rec601 | Rec709 | Bt2020sdr | Bt2020

record sunshine_colorspace =
  cp_colorspace :: colorspace_e
  cp_full_range :: bool
  cp_bit_depth :: nat

definition colorspace_is_hdr :: "sunshine_colorspace \<Rightarrow> bool" where
  "colorspace_is_hdr c \<longleftrightarrow> cp_colorspace c = Bt2020"

text \<open>The shift of the client's number keeps the sign: it is the division rounded down.\<close>

definition colorspace_from_client_config :: "stream_config \<Rightarrow> bool \<Rightarrow> sunshine_colorspace" where
  "colorspace_from_client_config config hdr_display =
     (let colorspace = (if 0 < sc_dynamicRange config \<and> hdr_display then Bt2020
            else let mode = sc_encoderCscMode config div 2
                 in if mode = 0 then Rec601 else if mode = 1 then Rec709 else if mode = 2 then Bt2020sdr else Rec709);
          full_range = (sc_encoderCscMode config mod 2 = 1);
          bit_depth = (if sc_dynamicRange config = 0 then 8 else if sc_dynamicRange config = 1 then 10 else 10)
      in \<lparr>cp_colorspace = (if colorspace = Bt2020sdr \<and> bit_depth \<noteq> 10 then Rec709 else colorspace),
          cp_full_range = full_range, cp_bit_depth = bit_depth\<rparr>)"

section \<open>Constants of FFmpeg\<close>

datatype av_primaries = AVCOL_PRI_SMPTE170M | AVCOL_PRI_BT709 | AVCOL_PRI_BT2020
datatype av_transfer = AVCOL_TRC_SMPTE170M | AVCOL_TRC_BT709 | AVCOL_TRC_BT2020_10 | AVCOL_TRC_SMPTE2084
datatype av_matrix = AVCOL_SPC_SMPTE170M | AVCOL_SPC_BT709 | AVCOL_SPC_BT2020_NCL
datatype av_range = AVCOL_RANGE_JPEG | AVCOL_RANGE_MPEG
datatype sws_format = SWS_CS_SMPTE170M | SWS_CS_ITU709 | SWS_CS_BT2020

record avcodec_colorspace =
  ax_primaries :: av_primaries
  ax_transfer_function :: av_transfer
  ax_matrix :: av_matrix
  ax_range :: av_range
  ax_software_format :: sws_format

text \<open>\<open>None\<close> is a failed assertion.\<close>

definition avcodec_colorspace_from_sunshine_colorspace :: "sunshine_colorspace \<Rightarrow> avcodec_colorspace option" where
  "avcodec_colorspace_from_sunshine_colorspace c =
     (let range = (if cp_full_range c then AVCOL_RANGE_JPEG else AVCOL_RANGE_MPEG)
      in case cp_colorspace c of
           Rec601 \<Rightarrow> Some \<lparr>ax_primaries = AVCOL_PRI_SMPTE170M, ax_transfer_function = AVCOL_TRC_SMPTE170M,
             ax_matrix = AVCOL_SPC_SMPTE170M, ax_range = range, ax_software_format = SWS_CS_SMPTE170M\<rparr>
         | Rec709 \<Rightarrow> Some \<lparr>ax_primaries = AVCOL_PRI_BT709, ax_transfer_function = AVCOL_TRC_BT709,
             ax_matrix = AVCOL_SPC_BT709, ax_range = range, ax_software_format = SWS_CS_ITU709\<rparr>
         | Bt2020sdr \<Rightarrow> if cp_bit_depth c \<noteq> 10 then None
             else Some \<lparr>ax_primaries = AVCOL_PRI_BT2020, ax_transfer_function = AVCOL_TRC_BT2020_10,
               ax_matrix = AVCOL_SPC_BT2020_NCL, ax_range = range, ax_software_format = SWS_CS_BT2020\<rparr>
         | Bt2020 \<Rightarrow> if cp_bit_depth c \<noteq> 10 then None
             else Some \<lparr>ax_primaries = AVCOL_PRI_BT2020, ax_transfer_function = AVCOL_TRC_SMPTE2084,
               ax_matrix = AVCOL_SPC_BT2020_NCL, ax_range = range, ax_software_format = SWS_CS_BT2020\<rparr>)"

section \<open>Colour vectors\<close>

type_synonym color_vec = "rat \<times> rat \<times> rat \<times> rat"

record color_t =
  color_vec_y :: color_vec
  color_vec_u :: color_vec
  color_vec_v :: color_vec
  range_y :: "rat \<times> rat"
  range_uv :: "rat \<times> rat"

definition luma_weights :: "colorspace_e \<Rightarrow> rat \<times> rat" where
  "luma_weights c =
     (case c of Rec601 \<Rightarrow> (299 / 1000, 114 / 1000) | Rec709 \<Rightarrow> (2126 / 10000, 722 / 10000)
      | Bt2020 \<Rightarrow> (2627 / 10000, 593 / 10000) | Bt2020sdr \<Rightarrow> (2627 / 10000, 593 / 10000))"

definition generate_color_vectors :: "sunshine_colorspace \<Rightarrow> bool \<Rightarrow> color_t" where
  "generate_color_vectors c unorm_output =
     (let (Kr, Kb) = luma_weights (cp_colorspace c); Kg = 1 - Kr - Kb; bits = cp_bit_depth c;
          (y_mult, y_add, uv_mult, uv_add) =
            (if cp_full_range c then (2 ^ bits - 1, 0, 2 ^ bits - 1, 2 ^ (bits - 1))
             else (2 ^ (bits - 8) * 219, 2 ^ (bits - 8) * 16, 2 ^ (bits - 8) * 224, 2 ^ (bits - 8) * 128));
          (y_mult, y_add, uv_mult, uv_add) =
            (if unorm_output
             then let unorm_range = 2 ^ bits - 1
                  in (y_mult / unorm_range, y_add / unorm_range, uv_mult / unorm_range, uv_add / unorm_range)
             else (y_mult, y_add + 1 / 2, uv_mult, uv_add + 1 / 2))
      in \<lparr>color_vec_y = (Kr * y_mult, Kg * y_mult, Kb * y_mult, y_add),
          color_vec_u = (- (1 / 2) * Kr / (1 - Kb) * uv_mult, - (1 / 2) * Kg / (1 - Kb) * uv_mult, 1 / 2 * uv_mult, uv_add),
          color_vec_v = (1 / 2 * uv_mult, - (1 / 2) * Kg / (1 - Kr) * uv_mult, - (1 / 2) * Kb / (1 - Kr) * uv_mult, uv_add),
          range_y = (1, 0), range_uv = (1, 0)\<rparr>)"

definition color_table :: "color_t list" where
  "color_table =
     concat (map (\<lambda>unorm. concat (map (\<lambda>c. concat (map (\<lambda>bits. map (\<lambda>full.
         generate_color_vectors \<lparr>cp_colorspace = c, cp_full_range = full, cp_bit_depth = bits\<rparr> unorm)
       [False, True]) [8, 10])) [Rec601, Rec709, Bt2020])) [False, True])"

definition color_vectors_from_colorspace :: "sunshine_colorspace \<Rightarrow> bool \<Rightarrow> color_t" where
  "color_vectors_from_colorspace c unorm_output =
     (let start = (case cp_colorspace c of Rec601 \<Rightarrow> 0 | Rec709 \<Rightarrow> 4 | Bt2020 \<Rightarrow> 8 | Bt2020sdr \<Rightarrow> 8)
      in color_table ! (start + (if cp_bit_depth c = 10 then 2 else 0) + (if cp_full_range c then 1 else 0) +
           (if unorm_output then 12 else 0)))"

section \<open>Properties\<close>

text \<open>Entry \<open>n\<close> of the table, from the digits of its index.\<close>

definition table_params :: "(colorspace_e \<times> bool \<times> nat \<times> bool) list" where
  "table_params =
     [(Rec601, False, 8, False), (Rec601, True, 8, False), (Rec601, False, 10, False), (Rec601, True, 10, False),
      (Rec709, False, 8, False), (Rec709, True, 8, False), (Rec709, False, 10, False), (Rec709, True, 10, False),
      (Bt2020, False, 8, False), (Bt2020, True, 8, False), (Bt2020, False, 10, False), (Bt2020, True, 10, False),
      (Rec601, False, 8, True), (Rec601, True, 8, True), (Rec601, False, 10, True), (Rec601, True, 10, True),
      (Rec709, False, 8, True), (Rec709, True, 8, True), (Rec709, False, 10, True), (Rec709, True, 10, True),
      (Bt2020, False, 8, True), (Bt2020, True, 8, True), (Bt2020, False, 10, True), (Bt2020, True, 10, True)]"

definition table_entry :: "colorspace_e \<times> bool \<times> nat \<times> bool \<Rightarrow> color_t" where
  "table_entry p = (case p of (c, full, bits, unorm) \<Rightarrow>
     generate_color_vectors \<lparr>cp_colorspace = c, cp_full_range = full, cp_bit_depth = bits\<rparr> unorm)"

lemma color_table_entries: "color_table = map table_entry table_params"
  by (simp add: color_table_def table_params_def table_entry_def)

lemma color_table_nth: "n < 24 \<Longrightarrow> color_table ! n = table_entry (table_params ! n)"
proof -
  assume "n < 24"
  moreover have "length table_params = 24" by (simp add: table_params_def)
  ultimately show ?thesis by (simp only: color_table_entries nth_map)
qed

lemma table_index:
  assumes "c \<noteq> Bt2020sdr" and "bits = 8 \<or> bits = 10"
  shows "table_params ! ((case c of Rec601 \<Rightarrow> 0 | Rec709 \<Rightarrow> 4 | Bt2020 \<Rightarrow> 8 | Bt2020sdr \<Rightarrow> 8) + (if bits = 10 then 2 else 0) +
      (if full then 1 else 0) + (if unorm then 12 else 0)) = (c, full, bits, unorm)"
  using assms by (cases c; cases full; cases unorm; elim disjE) (simp_all add: table_params_def)

lemma sdr_vectors:
  "generate_color_vectors \<lparr>cp_colorspace = Bt2020sdr, cp_full_range = full, cp_bit_depth = bits\<rparr> unorm =
   generate_color_vectors \<lparr>cp_colorspace = Bt2020, cp_full_range = full, cp_bit_depth = bits\<rparr> unorm"
  by (simp add: generate_color_vectors_def luma_weights_def)

lemma table_lookup:
  assumes "cp_bit_depth c = 8 \<or> cp_bit_depth c = 10"
  shows "color_vectors_from_colorspace c unorm = generate_color_vectors c unorm"
proof -
  obtain s full bits where c: "c = \<lparr>cp_colorspace = s, cp_full_range = full, cp_bit_depth = bits\<rparr>" by (cases c) auto
  have bits: "bits = 8 \<or> bits = 10" using assms by (simp add: c)
  define t where "t = (if s = Bt2020sdr then Bt2020 else s)"
  define n where "n = (case t of Rec601 \<Rightarrow> 0 | Rec709 \<Rightarrow> 4 | Bt2020 \<Rightarrow> 8 | Bt2020sdr \<Rightarrow> (8::nat)) + (if bits = 10 then 2 else 0) +
      (if full then 1 else 0) + (if unorm then 12 else 0)"
  have t: "t \<noteq> Bt2020sdr" by (simp add: t_def)
  have n: "n < 24" using t by (cases t) (simp_all add: n_def)
  have "color_vectors_from_colorspace c unorm = color_table ! n"
    by (cases s) (simp_all add: c color_vectors_from_colorspace_def n_def t_def)
  also have "\<dots> = table_entry (t, full, bits, unorm)"
    using table_index [OF t bits, of full unorm, folded n_def] by (simp add: color_table_nth [OF n])
  also have "\<dots> = generate_color_vectors c unorm" by (simp add: c table_entry_def t_def sdr_vectors)
  finally show ?thesis .
qed

lemma client_depth:
  "cp_bit_depth (colorspace_from_client_config config hdr) = 8 \<or> cp_bit_depth (colorspace_from_client_config config hdr) = 10"
  by (simp add: colorspace_from_client_config_def Let_def)

text \<open>
  Whatever the client asked for, the table of colour vectors has the vectors generated for the colour
  space the session gets, and the constants for FFmpeg are defined: the assertions that the wide colour
  spaces have ten bits never fail when the display is not HDR. On an HDR display they do not fail either.
\<close>

theorem client_colors_defined:
  "color_vectors_from_colorspace (colorspace_from_client_config config hdr) unorm =
     generate_color_vectors (colorspace_from_client_config config hdr) unorm \<and>
   avcodec_colorspace_from_sunshine_colorspace (colorspace_from_client_config config hdr) \<noteq> None"
proof -
  have "avcodec_colorspace_from_sunshine_colorspace (colorspace_from_client_config config hdr) \<noteq> None"
    by (simp add: avcodec_colorspace_from_sunshine_colorspace_def colorspace_from_client_config_def Let_def
        split: colorspace_e.splits)
  with table_lookup [OF client_depth] show ?thesis by simp
qed

text \<open>The value of a colour, and the rows of the matrix.\<close>

definition color_dot :: "color_vec \<Rightarrow> rat \<Rightarrow> rat \<Rightarrow> rat \<Rightarrow> rat" where
  "color_dot v r g b = (case v of (vr, vg, vb, add) \<Rightarrow> vr * r + vg * g + vb * b + add)"

definition luma :: "colorspace_e \<Rightarrow> rat \<Rightarrow> rat \<Rightarrow> rat \<Rightarrow> rat" where
  "luma s r g b = (case luma_weights s of (Kr, Kb) \<Rightarrow> Kr * r + (1 - Kr - Kb) * g + Kb * b)"

lemma luma_bounds:
  assumes "0 \<le> r" "r \<le> 1" "0 \<le> g" "g \<le> 1" "0 \<le> b" "b \<le> 1"
  shows "0 \<le> luma s r g b \<and> luma s r g b \<le> 1"
  using assms by (cases s) (simp_all add: luma_def luma_weights_def)

definition chroma :: "colorspace_e \<Rightarrow> rat \<Rightarrow> rat \<Rightarrow> rat \<Rightarrow> rat \<times> rat" where
  "chroma s r g b = (case luma_weights s of (Kr, Kb) \<Rightarrow>
     ((b - luma s r g b) / (2 * (1 - Kb)), (r - luma s r g b) / (2 * (1 - Kr))))"

lemma chroma_bounds:
  assumes "0 \<le> r" "r \<le> 1" "0 \<le> g" "g \<le> 1" "0 \<le> b" "b \<le> 1"
  shows "- (1 / 2) \<le> fst (chroma s r g b) \<and> fst (chroma s r g b) \<le> 1 / 2 \<and>
    - (1 / 2) \<le> snd (chroma s r g b) \<and> snd (chroma s r g b) \<le> 1 / 2"
  using assms by (cases s) (simp_all add: chroma_def luma_def luma_weights_def field_simps)

text \<open>The rows of the matrix are a scale times the luma or a chroma, plus an offset.\<close>

lemma blue_row:
  fixes Kr Kb M :: rat
  assumes "Kb \<noteq> 1"
  shows "- (1 / 2) * Kr / (1 - Kb) * M * r + - (1 / 2) * (1 - Kr - Kb) / (1 - Kb) * M * g + 1 / 2 * M * b + a =
    M * ((b - (Kr * r + (1 - Kr - Kb) * g + Kb * b)) / (2 * (1 - Kb))) + a"
proof -
  define k where "k = 1 - Kb"
  have k: "k \<noteq> 0" "1 - Kb = k" "Kb = 1 - k" using assms by (simp_all add: k_def)
  show ?thesis unfolding k(2) using k(1) by (simp add: k(3) field_simps)
qed

lemma red_row:
  fixes Kr Kb M :: rat
  assumes "Kr \<noteq> 1"
  shows "1 / 2 * M * r + - (1 / 2) * (1 - Kr - Kb) / (1 - Kr) * M * g + - (1 / 2) * Kb / (1 - Kr) * M * b + a =
    M * ((r - (Kr * r + (1 - Kr - Kb) * g + Kb * b)) / (2 * (1 - Kr))) + a"
proof -
  define k where "k = 1 - Kr"
  have k: "k \<noteq> 0" "1 - Kr = k" "Kr = 1 - k" using assms by (simp_all add: k_def)
  show ?thesis unfolding k(2) using k(1) by (simp add: k(3) field_simps)
qed

lemma luma_row:
  fixes Kr Kb M :: rat
  shows "Kr * M * r + (1 - Kr - Kb) * M * g + Kb * M * b + a = M * (Kr * r + (1 - Kr - Kb) * g + Kb * b) + a"
  by (simp add: algebra_simps)

lemma weights_below_one: "fst (luma_weights s) \<noteq> 1" "snd (luma_weights s) \<noteq> 1"
  by (cases s; simp add: luma_weights_def)+

lemma vector_values:
  fixes c :: sunshine_colorspace
  defines "v \<equiv> generate_color_vectors c False" and "m \<equiv> (2::rat) ^ cp_bit_depth c" and "l \<equiv> 2 ^ (cp_bit_depth c - 8)"
    and "h \<equiv> 2 ^ (cp_bit_depth c - 1)" and "s \<equiv> cp_colorspace c"
  shows "color_dot (color_vec_y v) r g b =
       (if cp_full_range c then (m - 1) * luma s r g b + 1 / 2 else l * 219 * luma s r g b + (l * 16 + 1 / 2))"
    and "color_dot (color_vec_u v) r g b =
       (if cp_full_range c then (m - 1) * fst (chroma s r g b) + (h + 1 / 2) else l * 224 * fst (chroma s r g b) + (l * 128 + 1 / 2))"
    and "color_dot (color_vec_v v) r g b =
       (if cp_full_range c then (m - 1) * snd (chroma s r g b) + (h + 1 / 2) else l * 224 * snd (chroma s r g b) + (l * 128 + 1 / 2))"
proof -
  obtain Kr Kb where w: "luma_weights s = (Kr, Kb)" by (cases "luma_weights s")
  have ne: "Kr \<noteq> 1" "Kb \<noteq> 1" using weights_below_one [of s] w by simp_all
  note unfold = v_def m_def l_def h_def generate_color_vectors_def w [unfolded s_def] color_dot_def luma_def chroma_def
    Let_def prod.case color_t.simps if_False fst_conv snd_conv s_def
  show "color_dot (color_vec_y v) r g b =
       (if cp_full_range c then (m - 1) * luma s r g b + 1 / 2 else l * 219 * luma s r g b + (l * 16 + 1 / 2))"
    by (cases "cp_full_range c"; simp only: unfold if_True if_False prod.case luma_row add_0)
  show "color_dot (color_vec_u v) r g b =
       (if cp_full_range c then (m - 1) * fst (chroma s r g b) + (h + 1 / 2) else l * 224 * fst (chroma s r g b) + (l * 128 + 1 / 2))"
    by (cases "cp_full_range c"; simp only: unfold if_True if_False prod.case blue_row [OF ne(2)])
  show "color_dot (color_vec_v v) r g b =
       (if cp_full_range c then (m - 1) * snd (chroma s r g b) + (h + 1 / 2) else l * 224 * snd (chroma s r g b) + (l * 128 + 1 / 2))"
    by (cases "cp_full_range c"; simp only: unfold if_True if_False prod.case red_row [OF ne(1)])
qed

text \<open>
  Every colour with components between 0 and 1 is converted, for the depth and range the client gets and
  after the truncation to an integer, to values inside the range: luma in 16 to 235 and chroma in 16 to 240,
  scaled to the depth, for limited range; luma in 0 to \<open>2\<^sup>d - 1\<close> for full range. Chroma of full range lies in 1
  to \<open>2\<^sup>d\<close>, one more than fits in \<open>d\<close> bits. Grey has neutral chroma.
\<close>

theorem converted_colors_in_range:
  fixes config :: stream_config and hdr :: bool and r g b :: rat
  defines "c \<equiv> colorspace_from_client_config config hdr"
  defines "v \<equiv> color_vectors_from_colorspace c False" and "s \<equiv> (2::int) ^ (cp_bit_depth c - 8)"
  defines "Y \<equiv> \<lfloor>color_dot (color_vec_y v) r g b\<rfloor>" and "U \<equiv> \<lfloor>color_dot (color_vec_u v) r g b\<rfloor>"
    and "V \<equiv> \<lfloor>color_dot (color_vec_v v) r g b\<rfloor>"
  assumes "0 \<le> r" "r \<le> 1" "0 \<le> g" "g \<le> 1" "0 \<le> b" "b \<le> 1"
  shows "(if cp_full_range c then 0 \<le> Y \<and> Y \<le> 256 * s - 1 \<and> 1 \<le> U \<and> U \<le> 256 * s \<and> 1 \<le> V \<and> V \<le> 256 * s
          else 16 * s \<le> Y \<and> Y \<le> 235 * s \<and> 16 * s \<le> U \<and> U \<le> 240 * s \<and> 16 * s \<le> V \<and> V \<le> 240 * s) \<and>
         (r = g \<and> g = b \<longrightarrow> U = 128 * s \<and> V = 128 * s)"
proof -
  note l = luma_bounds [OF assms(7-12), of "cp_colorspace c"]
  note k = chroma_bounds [OF assms(7-12), of "cp_colorspace c"]
  have grey: "chroma (cp_colorspace c) r r r = (0, 0)" by (simp add: chroma_def luma_def field_simps split: prod.splits)
  have v: "v = generate_color_vectors c False" using table_lookup [OF client_depth] by (simp add: v_def c_def)
  note values_of = vector_values [of c, folded v]
  have "cp_bit_depth c = 8 \<or> cp_bit_depth c = 10" unfolding c_def by (rule client_depth)
  then show ?thesis unfolding Y_def U_def V_def s_def
    by (elim disjE; cases "cp_full_range c"; use l k grey in \<open>auto simp: values_of le_floor_iff floor_le_iff floor_eq_iff\<close>)
qed

definition sample_view :: stream_config where
  "sample_view = \<lparr>sc_channels = 2, sc_mask = 3, sc_packetDuration = 5, sc_customStreamParams = no_stream_params,
     sc_HIGH_QUALITY = False, sc_HOST_AUDIO = False, sc_CUSTOM_SURROUND_PARAMS = False, sc_CONTINUOUS_AUDIO = False,
     sc_controlProtocolType = 13, sc_packetsize = 1024, sc_minRequiredFecPackets = 2, sc_mlFeatureFlags = 0,
     sc_audioQosType = 4, sc_videoQosType = 5, sc_encryptionFlagsEnabled = 0, sc_height = 1080, sc_width = 1920,
     sc_framerate = 60, sc_framerateX100 = 0, sc_bitrate = 20000, sc_slicesPerFrame = 1, sc_numRefFrames = 1,
     sc_encoderCscMode = 1, sc_videoFormat = 1, sc_dynamicRange = 1, sc_chromaSamplingType = 0, sc_enableIntraRefresh = 0\<rparr>"

text \<open>Pure blue on an HDR display at full range: the chroma does not fit in ten bits.\<close>

theorem converted_colors_in_range_witness:
  "let c = colorspace_from_client_config sample_view True; v = color_vectors_from_colorspace c False;
       U = \<lfloor>color_dot (color_vec_u v) 0 0 1\<rfloor>
   in colorspace_is_hdr c \<and> cp_full_range c \<and> U \<le> 1024 \<and> U = 1024"
proof -
  define c where "c = colorspace_from_client_config sample_view True"
  have c: "c = \<lparr>cp_colorspace = Bt2020, cp_full_range = True, cp_bit_depth = 10\<rparr>"
    by (simp add: c_def colorspace_from_client_config_def sample_view_def)
  have "color_vectors_from_colorspace c False = generate_color_vectors c False" by (rule table_lookup) (simp add: c)
  then have "color_dot (color_vec_u (color_vectors_from_colorspace c False)) 0 0 1 = 1024"
    by (simp add: vector_values c chroma_def luma_def luma_weights_def)
  then show ?thesis
    using converted_colors_in_range [of 0 0 1 sample_view True]
    by (simp add: c_def [symmetric] Let_def) (simp add: c colorspace_is_hdr_def)
qed

end
