(* ===== verification/Config_Props.thy ===== *)
theory Config_Props
  imports "HOL-Library.Sublist" Config
begin

text \<open>
  The parser of the configuration always returns; what the interface saves is read back; and the
  cases in which an option is read as something else than what was meant.
\<close>

section \<open>Termination\<close>

lemma parse_option_advances:
  assumes "s \<noteq> []"
  shows "length (next_option (fst (parse_option s))) < length s"
proof -
  let ?b = "dropWhile whitespace s"
  have step: "length (next_option r) < length s" if "length r \<le> length s" for r
    using that assms by (cases r) (auto simp: next_option_def)
  have "length (dropWhile (\<lambda>c. \<not> endline c) ?b) \<le> length s"
    by (meson length_dropWhile_le order_trans)
  moreover have "length (skip_list 1 (tl (drop n ?b))) \<le> length s" for n
    using length_skip_list [of 1 "tl (drop n ?b)"] length_dropWhile_le [of whitespace s] by simp
  ultimately have "length (fst (parse_option s)) \<le> length s"
    unfolding parse_option_def Let_def by (simp split: option.split)
  then show ?thesis by (rule step)
qed

lemma config_loop_returns: "\<exists>vars'. config_loop s vars = Some vars'"
proof (induction s arbitrary: vars rule: length_induct)
  case (1 s)
  show ?case
  proof (cases "s = []")
    case False
    then show ?thesis
      using 1 parse_option_advances [OF False] by (subst config_loop.simps) (simp add: split_beta)
  qed (simp add: config_loop.simps)
qed

text \<open>
  C18. The parser returns, on every file. No text makes it loop: each option it tries leaves fewer
  characters, with or without an option in the line, with unclosed lists, and with any line ends.
\<close>

theorem parse_config_returns: "\<exists>vars. parse_config file_content = Some vars"
  unfolding parse_config_def by (rule config_loop_returns)

section \<open>Reading back what was saved\<close>

lemma takeWhile_stop: "\<not> p y \<Longrightarrow> takeWhile p (xs @ y # ys) = takeWhile p xs"
  by (induction xs) simp_all

lemma strip_comments_id: "CHR ''#'' \<notin> set s \<Longrightarrow> strip_comments s = s"
proof -
  assume "CHR ''#'' \<notin> set s"
  then have t: "takeWhile (\<lambda>c. c \<noteq> CHR ''#'') s = s" and d: "dropWhile (\<lambda>c. c \<noteq> CHR ''#'') s = []"
    by (auto simp: takeWhile_eq_all_conv dropWhile_eq_Nil_conv)
  have nil: "strip_comments [] = []" by (simp add: strip_comments.simps)
  show ?thesis by (subst strip_comments.simps) (simp only: t d dropWhile.simps nil append_Nil2 if_cancel split: if_split, simp)
qed

lemma trim_end_id: "xs \<noteq> [] \<Longrightarrow> \<not> p (last xs) \<Longrightarrow> trim_end p xs = xs"
  by (cases xs rule: rev_cases) (simp_all add: trim_end_def)

lemma trim_end_append: "trim_end p ys \<noteq> [] \<Longrightarrow> trim_end p (xs @ ys) = xs @ trim_end p ys"
  by (auto simp: trim_end_def dropWhile_append)

lemma trim_end_Cons: "\<not> p c \<Longrightarrow> \<exists>cs'. trim_end p (c # cs) = c # cs'"
proof -
  assume c: "\<not> p c"
  have "trim_end p (c # cs) = c # rev (dropWhile p (rev cs))"
    using c by (simp add: trim_end_def dropWhile_append)
  then show ?thesis by blast
qed

lemma find_char_first: "x \<notin> set xs \<Longrightarrow> find_char x (xs @ x # ys) = Some (length xs)"
  by (induction xs) auto

text \<open>The name of an option, and a value that starts in its line and has no comment.\<close>

definition plain_name :: "string \<Rightarrow> bool" where
  "plain_name k \<longleftrightarrow> k \<noteq> [] \<and> \<not> whitespace (hd k) \<and> \<not> whitespace (last k) \<and>
     list_all (\<lambda>c. c \<noteq> CHR ''='' \<and> c \<noteq> CHR ''#'' \<and> \<not> endline c) k"

definition plain_value :: "string \<Rightarrow> bool" where
  "plain_value v \<longleftrightarrow> v \<noteq> [] \<and> \<not> whitespace (hd v) \<and> hd v \<noteq> CHR ''['' \<and>
     list_all (\<lambda>c. c \<noteq> CHR ''#'' \<and> \<not> endline c) v"

text \<open>A list whose last bracket closes the first one; its lines may be wrapped.\<close>

definition list_value :: "string \<Rightarrow> bool" where
  "list_value v \<longleftrightarrow> v \<noteq> [] \<and> hd v = CHR ''['' \<and> skip_list 1 (tl v @ [CHR 0x0A]) = [CHR 0x0A] \<and>
     CHR ''#'' \<notin> set v"

lemma skip_list_stops: "skip_list n (xs @ [a]) = [a] \<Longrightarrow> skip_list n (xs @ a # ys) = a # ys"
proof (induction xs arbitrary: n)
  case Nil
  then show ?case by (cases "n = 0") (auto split: if_splits)
next
  case (Cons x xs)
  then show ?case by (cases "n = 0") auto
qed

lemma parse_option_start:
  fixes rest :: string
  assumes k: "plain_name k" and c: "\<not> whitespace c" "c \<noteq> CHR ''#''" and hash: "CHR ''#'' \<notin> set cs"
  defines "s \<equiv> k @ '' = '' @ (c # cs) @ CHR 0x0A # rest"
  defines "u \<equiv> takeWhile (\<lambda>c. \<not> endline c) (c # cs)"
  shows "dropWhile whitespace s = s" and "takeWhile (\<lambda>c. \<not> endline c) s = k @ '' = '' @ u"
    and "drop (length k + 3) s = (c # cs) @ CHR 0x0A # rest"
    and "find_char (CHR ''='') (trim_end whitespace (takeWhile (\<lambda>c. c \<noteq> CHR ''#'') (k @ '' = '' @ u))) = Some (Suc (length k))"
    and "trim_end space_tab (take (Suc (length k)) (trim_end whitespace (takeWhile (\<lambda>c. c \<noteq> CHR ''#'') (k @ '' = '' @ u)))) = k"
    and "length (trim_end whitespace (takeWhile (\<lambda>c. c \<noteq> CHR ''#'') (k @ '' = '' @ u))) -
      length (dropWhile space_tab (drop (Suc (Suc (length k)))
        (trim_end whitespace (takeWhile (\<lambda>c. c \<noteq> CHR ''#'') (k @ '' = '' @ u))))) = length k + 3"
proof -
  have k': "k \<noteq> []" "\<not> whitespace (hd k)" "\<not> space_tab (last k)" "list_all (\<lambda>c. \<not> endline c) k"
    "CHR ''='' \<notin> set k" "CHR ''#'' \<notin> set k"
    using k by (auto simp: plain_name_def whitespace_def list_all_iff)
  have nl: "\<not> \<not> endline (CHR 0x0A)" "\<not> endline (CHR '' '')" "\<not> endline (CHR ''='')" "\<not> endline c" "\<not> space_tab c"
    using c by (simp_all add: endline_def whitespace_def)
  show "dropWhile whitespace s = s" using k' by (cases k) (simp_all add: s_def)
  show "drop (length k + 3) s = (c # cs) @ CHR 0x0A # rest" by (simp add: s_def)
  have "takeWhile (\<lambda>c. \<not> endline c) s = k @ '' = '' @ takeWhile (\<lambda>c. \<not> endline c) ((c # cs) @ CHR 0x0A # rest)"
    using k' nl unfolding s_def by (simp add: takeWhile_append2 list_all_iff)
  moreover have "takeWhile (\<lambda>c. \<not> endline c) ((c # cs) @ CHR 0x0A # rest) = u"
    unfolding u_def by (rule takeWhile_stop) (use nl in simp)
  ultimately show "takeWhile (\<lambda>c. \<not> endline c) s = k @ '' = '' @ u" by simp
  obtain us where u: "u = c # us" "CHR ''#'' \<notin> set us"
    unfolding u_def using nl hash by (auto dest: set_takeWhileD)
  obtain cs' where cs': "trim_end whitespace (c # us) = c # cs'" using trim_end_Cons [of whitespace c us] c by blast
  have tw: "takeWhile (\<lambda>c. c \<noteq> CHR ''#'') (k @ '' = '' @ u) = (k @ '' = '') @ u"
    unfolding append_assoc takeWhile_eq_all_conv using k' u c by auto
  have content: "trim_end whitespace (takeWhile (\<lambda>c. c \<noteq> CHR ''#'') (k @ '' = '' @ u)) = (k @ '' '') @ CHR ''='' # CHR '' '' # c # cs'"
    unfolding tw using trim_end_append [of whitespace u "k @ '' = ''"] cs' u by simp
  show "find_char (CHR ''='') (trim_end whitespace (takeWhile (\<lambda>c. c \<noteq> CHR ''#'') (k @ '' = '' @ u))) = Some (Suc (length k))"
    unfolding content using find_char_first [of "CHR ''=''" "k @ '' ''"] k' by simp
  have "trim_end space_tab (k @ '' '') = k"
    using trim_end_id [of k space_tab] k' by (simp add: trim_end_def space_tab_def)
  then show "trim_end space_tab (take (Suc (length k)) (trim_end whitespace (takeWhile (\<lambda>c. c \<noteq> CHR ''#'') (k @ '' = '' @ u)))) = k"
    unfolding content by simp
  show "length (trim_end whitespace (takeWhile (\<lambda>c. c \<noteq> CHR ''#'') (k @ '' = '' @ u))) -
      length (dropWhile space_tab (drop (Suc (Suc (length k)))
        (trim_end whitespace (takeWhile (\<lambda>c. c \<noteq> CHR ''#'') (k @ '' = '' @ u))))) = length k + 3"
    unfolding content using nl by (simp add: space_tab_def)
qed

lemma parse_option_eval:
  assumes "dropWhile whitespace s = b" and "takeWhile (\<lambda>c. \<not> endline c) b = line"
    and "trim_end whitespace (takeWhile (\<lambda>c. c \<noteq> CHR ''#'') line) = content"
    and "find_char (CHR ''='') content = Some eq" and "eq \<noteq> 0" and "trim_end space_tab (take eq content) = name"
    and "length content - length (dropWhile space_tab (drop (Suc eq) content)) = n" and "drop n line = c # cs"
  shows "c \<noteq> CHR ''['' \<Longrightarrow> parse_option s =
      (dropWhile (\<lambda>c. \<not> endline c) b, Some (strip_comments name, strip_comments (c # cs)))"
    and "c = CHR ''['' \<Longrightarrow> tl (drop n b) \<noteq> [] \<Longrightarrow> parse_option s =
      (skip_list 1 (tl (drop n b)), Some (strip_comments name,
        strip_comments (take (length (drop n b) - length (skip_list 1 (tl (drop n b)))) (drop n b))))"
  using assms by (simp_all add: parse_option_def Let_def del: drop_eq_Nil)

lemma parse_saved_option:
  assumes k: "plain_name k" and v: "plain_value v \<or> list_value v"
  shows "parse_option (k @ '' = '' @ v @ CHR 0x0A # rest) = (CHR 0x0A # rest, Some (k, v))"
proof -
  obtain c cs where cs: "v = c # cs" using v by (cases v) (auto simp: plain_value_def list_value_def)
  have c: "\<not> whitespace c" "c \<noteq> CHR ''#''" "CHR ''#'' \<notin> set cs"
    using v by (auto simp: cs plain_value_def list_value_def list_all_iff whitespace_def space_tab_def endline_def)
  define s where "s = k @ '' = '' @ v @ CHR 0x0A # rest"
  note start = parse_option_start(1-3) [OF k c, where rest = rest, folded cs, folded s_def]
    parse_option_start(4-6) [OF k c, folded cs]
  have "CHR ''#'' \<notin> set k" "CHR ''#'' \<notin> set v"
    using k c by (auto simp: plain_name_def list_all_iff cs)
  note strip = this [THEN strip_comments_id]
  have "parse_option s = (CHR 0x0A # rest, Some (k, v))"
  proof (cases "c = CHR ''[''")
    case False
    then have line: "takeWhile (\<lambda>c. \<not> endline c) v = v"
      using v by (auto simp: cs plain_value_def list_value_def takeWhile_eq_all_conv list_all_iff)
    have "takeWhile (\<lambda>c. \<not> endline c) s @ CHR 0x0A # rest = s" using start(2) line by (simp add: s_def)
    then have endl: "dropWhile (\<lambda>c. \<not> endline c) s = CHR 0x0A # rest"
      using takeWhile_dropWhile_id [of "\<lambda>c. \<not> endline c" s] by (metis same_append_eq)
    have "drop (length k + 3) (k @ '' = '' @ takeWhile (\<lambda>c. \<not> endline c) v) = c # cs"
      unfolding line by (simp add: cs)
    from parse_option_eval(1) [OF start(1,2) refl start(4) _ start(5,6) this False]
    show ?thesis unfolding endl strip cs [symmetric] by simp
  next
    case True
    then have "list_value v" using v by (simp add: cs plain_value_def)
    then have "skip_list 1 (cs @ [CHR 0x0A]) = [CHR 0x0A]" unfolding list_value_def cs list.sel by blast
    then have closes: "skip_list 1 (cs @ CHR 0x0A # rest) = CHR 0x0A # rest" by (rule skip_list_stops)
    have "takeWhile (\<lambda>c. \<not> endline c) v = c # takeWhile (\<lambda>c. \<not> endline c) cs"
      using c by (simp add: cs whitespace_def)
    then have "drop (length k + 3) (k @ '' = '' @ takeWhile (\<lambda>c. \<not> endline c) v) =
      c # takeWhile (\<lambda>c. \<not> endline c) cs" by simp
    moreover have tl: "tl (v @ CHR 0x0A # rest) = cs @ CHR 0x0A # rest" by (simp add: cs)
    then have "tl (drop (length k + 3) s) \<noteq> []" unfolding start(3) by simp
    moreover have "take (length (v @ CHR 0x0A # rest) - length (CHR 0x0A # rest)) (v @ CHR 0x0A # rest) = v" by simp
    ultimately show ?thesis
      using parse_option_eval(2) [OF start(1,2) refl start(4) _ start(5,6) _ True]
      unfolding start(3) tl closes by (simp only: strip) simp
  qed
  then show ?thesis unfolding s_def .
qed

lemma config_loop_saved:
  assumes "list_all (\<lambda>(k, v). plain_name k \<and> (v = [] \<or> plain_value v \<or> list_value v)) opts"
  shows "config_loop (config_text opts) vars =
    Some (fold (\<lambda>opt. emplace_var (Some opt)) (filter (\<lambda>(k, v). v \<noteq> []) opts) vars)"
  using assms
proof (induction opts arbitrary: vars)
  case (Cons opt opts)
  obtain k v where opt: "opt = (k, v)" by (cases opt)
  show ?case
  proof (cases "v = []")
    case False
    then have "parse_option (k @ '' = '' @ v @ CHR 0x0A # config_text opts) = (CHR 0x0A # config_text opts, Some (k, v))"
      using Cons.prems by (intro parse_saved_option) (auto simp: opt)
    then show ?thesis
      using Cons False by (subst config_loop.simps) (simp add: config_text_def opt next_option_def)
  qed (use Cons in \<open>simp add: opt config_text_def\<close>)
qed (simp add: config_text_def config_loop.simps)

lemma fold_emplace: "fold (\<lambda>opt. emplace_var (Some opt)) opts vars = vars ++ map_of opts ++ vars"
proof (induction opts arbitrary: vars)
  case (Cons opt opts)
  then show ?case
    by (cases opt) (auto simp: emplace_var_def fun_eq_iff map_add_def split: option.split)
qed (simp add: map_add_def fun_eq_iff split: option.split)

text \<open>
  C17. What the configuration interface saves is read back. For options whose names have no equals
  sign, number sign or line end and no white space around them, and whose values are either a text in
  one line that does not start with white space or a bracket and has no number sign, or a list whose
  last bracket closes its first one, the parser gives exactly the saved values; of several options
  with the same name the first one.
\<close>

theorem config_saved_roundtrip:
  assumes "list_all (\<lambda>(k, v). plain_name k \<and> (v = [] \<or> plain_value v \<or> list_value v)) opts"
  shows "parse_config (config_text opts) = Some (map_of (filter (\<lambda>(k, v). v \<noteq> []) opts))"
  unfolding parse_config_def config_loop_saved [OF assms] fold_emplace by (simp add: map_add_def fun_eq_iff split: option.split)

theorem config_saved_roundtrip_witness:
  "map_option (\<lambda>vars. (vars ''port'', vars ''global_prep_cmd'', vars ''encoder''))
     (parse_config (config_text [(''port'', ''48000''), (''encoder'', []), (''global_prep_cmd'', ''[{do:[a]}]''), (''port'', ''1'')])) =
   Some (Some ''48000'', Some ''[{do:[a]}]'', None)"
proof -
  have "list_all (\<lambda>(k, v). plain_name k \<and> (v = [] \<or> plain_value v \<or> list_value v))
      [(''port'', ''48000''), (''encoder'', []), (''global_prep_cmd'', ''[{do:[a]}]''), (''port'', ''1'')]"
    by code_simp
  from config_saved_roundtrip [OF this] show ?thesis by simp
qed

section \<open>Options that are misread\<close>

text \<open>
  A blank behind a number becomes part of it, also the blank before a comment; a truth value with one
  is false, as is one in capital letters; an unclosed list takes the rest of the file; a hexadecimal
  number loses the first of an odd number of digits, and one with more than eight overruns the integer.
\<close>

lemma trailing_blank_misread:
  "map_option (\<lambda>vars. (map_option config_int (vars ''port''), map_option to_bool (vars ''upnp'')))
     (parse_config (''port = 48000 # my port'' @ [CHR 0x0A] @ ''upnp = on # open it'' @ [CHR 0x0A])) =
   Some (Some (Some 479984), Some False)"
  by code_simp

end
