(* ===== verification/Config_Types.thy ===== *)
theory Config_Types
  imports Config_Apply
begin

text \<open>
  Whatever the configuration file says, the settings stay in the ranges the rest of the program relies
  on; and the options that have no effect.
\<close>

section \<open>Ranges\<close>

definition int32 :: "int \<Rightarrow> bool" where
  "int32 x \<longleftrightarrow> INT_MIN \<le> x \<and> x \<le> INT_MAX"

definition video_ok :: "video_config \<Rightarrow> bool" where
  "video_ok c \<longleftrightarrow> 0 \<le> vc_hevc_mode c \<and> vc_hevc_mode c \<le> 3 \<and> 0 \<le> vc_av1_mode c \<and> vc_av1_mode c \<le> 3 \<and>
     1 \<le> vc_nv_preset c \<and> vc_nv_preset c \<le> 7 \<and> 0 \<le> vc_nv_vbv_increase c \<and> vc_nv_vbv_increase c \<le> 400 \<and>
     pred_option (\<lambda>p. 1 \<le> p \<and> p \<le> 12) (vc_svtav1_preset c) \<and> pred_option (\<lambda>p. 1 \<le> p \<and> p \<le> 7) (vc_qsv_preset c) \<and>
     int32 (vc_qp c) \<and> int32 (vc_min_threads c) \<and> int32 (vc_vk_tune c) \<and> int32 (vc_vk_rc_mode c) \<and> int32 (vc_max_bitrate c)"

definition table_values :: "(string \<times> 'a) list \<Rightarrow> 'a set" where
  "table_values table = snd ` set table"

definition amd_ok :: "amd_config \<Rightarrow> bool" where
  "amd_ok c \<longleftrightarrow> ac_quality c \<in> table_values amd_quality \<and> ac_rc c \<in> table_values amd_rc \<and>
     ac_usage c \<in> table_values amd_usage \<and> 0 \<le> ac_coder c \<and> ac_coder c \<le> 2"

definition dd_ok :: "dd_config \<Rightarrow> bool" where
  "dd_ok c \<longleftrightarrow> 0 \<le> dd_config_revert_delay c \<and> dd_config_revert_delay c \<le> INT_MAX \<and>
     0 \<le> dd_hdr_toggle_delay c \<and> dd_hdr_toggle_delay c \<le> 3000"

definition input_ok :: "string list \<Rightarrow> input_config \<Rightarrow> bool" where
  "input_ok gamepads c \<longleftrightarrow> ic_gamepad c \<in> set gamepads \<and> int32 (ic_back_button_timeout c) \<and>
     0 \<le> ic_key_repeat_delay c \<and> ic_key_repeat_delay c \<le> INT_MAX"

definition host_ok :: "host_config \<Rightarrow> bool" where
  "host_ok c \<longleftrightarrow> hc_origin_web_ui_allowed c \<in> {''pc'', ''lan'', ''wan''} \<and>
     0 \<le> hc_lan_encryption_mode c \<and> hc_lan_encryption_mode c \<le> 2 \<and>
     0 \<le> hc_wan_encryption_mode c \<and> hc_wan_encryption_mode c \<le> 2 \<and>
     1 \<le> hc_fec_percentage c \<and> hc_fec_percentage c \<le> 255 \<and> 0 \<le> hc_ping_timeout c \<and> hc_ping_timeout c \<le> INT_MAX \<and>
     1019 \<le> uint (hc_port c) \<and> uint (hc_port c) \<le> 65514 \<and>
     hc_address_family c \<in> {''ipv4'', ''both''} \<and> hc_locale c \<in> set locales \<and>
     0 \<le> hc_min_log_level c \<and> hc_min_log_level c \<le> 6 \<and> length (hc_flags c) = 5"

definition settings_ok :: "string list \<Rightarrow> settings \<Rightarrow> bool" where
  "settings_ok gamepads s \<longleftrightarrow> video_ok (se_video s) \<and> amd_ok (se_amd s) \<and> dd_ok (se_dd s) \<and>
     input_ok gamepads (se_input s) \<and> host_ok (se_host s)"

section \<open>Readers that keep an invariant\<close>

definition keeps :: "('c \<Rightarrow> bool) \<Rightarrow> 'c reader \<Rightarrow> bool" where
  "keeps p r \<longleftrightarrow> (\<forall>c vars c' vars'. p c \<longrightarrow> r (c, vars) = Some (c', vars') \<longrightarrow> p c')"

lemma keeps_run: "\<forall>r \<in> set rs. keeps p r \<Longrightarrow> keeps p (run_readers rs)"
proof (induction rs)
  case (Cons r rs)
  then have r: "keeps p r" and rs: "keeps p (run_readers rs)" by simp_all
  show ?case
    unfolding keeps_def
  proof (intro allI impI)
    fix c vars c' vars'
    assume "p c" and run: "run_readers (r # rs) (c, vars) = Some (c', vars')"
    then obtain c1 vars1 where "r (c, vars) = Some (c1, vars1)" "run_readers rs (c1, vars1) = Some (c', vars')"
      by (auto split: option.splits)
    then show "p c'" using r rs \<open>p c\<close> unfolding keeps_def by blast
  qed
qed (simp add: keeps_def)

lemma keeps_discard: "keeps p (discard name)"
  by (simp add: keeps_def discard_def)

lemma keeps_read:
  "(\<And>c vars x vars'. p c \<Longrightarrow> f vars (get c) = Some (x, vars') \<Longrightarrow> p (upd (\<lambda>_. x) c)) \<Longrightarrow> keeps p (read_with f get upd)"
  unfolding keeps_def read_with_def by auto

lemma keeps_within:
  assumes "keeps q r" and "\<And>s. p s \<Longrightarrow> q (get s)" and "\<And>s c. p s \<Longrightarrow> q c \<Longrightarrow> p (upd (\<lambda>_. c) s)"
  shows "keeps p (within get upd r)"
  using assms unfolding keeps_def within_def by fastforce

lemmas keeps_simple =
  keeps_read [where f = "\<lambda>vars. int_f vars name" for name, folded read_int_def]
  keeps_read [where f = "\<lambda>vars x. int_between_f vars name x limits" for name limits, folded read_between_def]
  keeps_read [where f = "\<lambda>vars x. Some (bool_f vars name x)" for name, folded read_bool_def]
  keeps_read [where f = "\<lambda>vars x. Some (string_f vars name x)" for name, folded read_string_def]
  keeps_read [where f = "\<lambda>vars x. Some (string_restricted_f vars name x allowed)" for name allowed, folded read_restricted_def]
  keeps_read [where f = "\<lambda>vars x. Some (generic_f vars name x f)" for name f, folded read_name_def]
  keeps_read

lemma config_int_int32: "config_int v = Some x \<Longrightarrow> int32 x"
proof -
  have "int32 (sint (w :: 32 word))" for w
    using sint_range_size [of w] by (simp add: int32_def INT_MIN_def INT_MAX_def size_word.rep_eq)
  moreover have "int32 (cast_int n)" for n
    using signed_take_bit_int_less_exp [of 31 n] signed_take_bit_int_greater_eq_minus_exp [of 31 n]
    by (simp add: int32_def INT_MIN_def INT_MAX_def cast_int_def)
  ultimately show "config_int v = Some x \<Longrightarrow> int32 x"
    by (auto simp: config_int_def Let_def split: if_splits)
qed

lemma int_f_int32: "int_f vars name x = Some (y, vars') \<Longrightarrow> y = x \<or> int32 y"
  by (auto simp: int_f_def config_int_int32 split: option.splits)

lemma int_between_range:
  "int_between_f vars name x (lo, hi) = Some (y, vars') \<Longrightarrow> y = x \<or> lo \<le> y \<and> y \<le> hi"
  by (auto simp: int_between_f_def split: option.splits if_splits)

lemma lookup_name_all:
  assumes "p unknown" and "list_all (\<lambda>x. p (snd x)) table"
  shows "p (lookup_name table unknown name)"
  using assms map_of_SomeD [of table name] by (force simp: lookup_name_def list_all_iff split: option.split)

lemma keeps_settings:
  "keeps video_ok r1 \<Longrightarrow> keeps (settings_ok gamepads) (within se_video se_video_update r1)"
  "keeps amd_ok r2 \<Longrightarrow> keeps (settings_ok gamepads) (within se_amd se_amd_update r2)"
  "keeps (\<lambda>_. True) r3 \<Longrightarrow> keeps (settings_ok gamepads) (within se_vt se_vt_update r3)"
  "keeps dd_ok r4 \<Longrightarrow> keeps (settings_ok gamepads) (within se_dd se_dd_update r4)"
  "keeps (input_ok gamepads) r5 \<Longrightarrow> keeps (settings_ok gamepads) (within se_input se_input_update r5)"
  "keeps host_ok r6 \<Longrightarrow> keeps (settings_ok gamepads) (within se_host se_host_update r6)"
  by (erule keeps_within; simp add: settings_ok_def)+

lemma keeps_true: "keeps (\<lambda>_. True) r"
  by (simp add: keeps_def)

lemma svtav1_range: "1 \<le> svtav1_preset_from_view v \<and> svtav1_preset_from_view v \<le> 12"
  unfolding svtav1_preset_from_view_def by (rule lookup_name_all) simp_all

lemma qsv_range: "pred_option (\<lambda>p. 1 \<le> p \<and> p \<le> 7) (qsv_preset_from_view v)"
  unfolding qsv_preset_from_view_def by (rule lookup_name_all) simp_all

lemma amd_coder_range: "0 \<le> amd_coder_from_view v \<and> amd_coder_from_view v \<le> 2"
  unfolding amd_coder_from_view_def by (rule lookup_name_all) simp_all

lemma amd_table_in: "amd_table name table vars x = Some (y, vars') \<Longrightarrow> y = x \<or> y \<in> table_values table"
proof -
  have "lookup_name table x v = x \<or> lookup_name table x v \<in> table_values table" for v
    by (rule lookup_name_all [where p = "\<lambda>y. y = x \<or> y \<in> table_values table"]) (auto simp: list_all_iff table_values_def)
  then show "amd_table name table vars x = Some (y, vars') \<Longrightarrow> y = x \<or> y \<in> table_values table"
    by (auto simp: amd_table_def split_beta split: if_splits)
qed

lemma keeps_svtav1: "keeps video_ok read_svtav1"
  by (auto simp: keeps_def read_svtav1_def video_ok_def svtav1_range split: if_splits)

lemma video_readers_keep: "\<forall>r \<in> set video_readers. keeps (settings_ok gamepads) r"
  unfolding video_readers_def
  by (auto intro!: keeps_settings keeps_svtav1 keeps_simple simp: video_ok_def generic_f_def qsv_range split_beta
      dest!: int_between_range int_f_int32 split: if_splits)

lemma encoder_readers_keep: "\<forall>r \<in> set encoder_readers. keeps (settings_ok gamepads) r"
  unfolding encoder_readers_def
  by (auto intro!: keeps_settings keeps_true keeps_simple simp: video_ok_def amd_ok_def generic_f_def amd_coder_range split_beta
      dest!: int_between_range int_f_int32 amd_table_in split: if_splits)

lemma delay_ranges:
  "revert_delay_f vars x = Some (y, vars') \<Longrightarrow> y = x \<or> 0 \<le> y \<and> y \<le> INT_MAX"
  "hdr_toggle_f vars x = Some (y, vars') \<Longrightarrow> 0 \<le> y \<and> y \<le> 3000"
  "ping_timeout_f vars x = Some (y, vars') \<Longrightarrow> y = x \<or> 0 \<le> y \<and> y \<le> INT_MAX"
  "key_repeat_delay_f vars x = Some (y, vars') \<Longrightarrow> y = x \<or> 0 \<le> y \<and> y \<le> INT_MAX"
  "back_button_f vars x = Some (y, vars') \<Longrightarrow> y = x \<or> int32 y"
  by (auto simp: revert_delay_f_def hdr_toggle_f_def ping_timeout_f_def key_repeat_delay_f_def back_button_f_def int32_def
      dest!: int_between_range int_f_int32 split: if_splits)

lemma display_readers_keep: "\<forall>r \<in> set display_readers. keeps (settings_ok gamepads) r"
  unfolding display_readers_def
  by (auto intro!: keeps_settings keeps_discard keeps_simple simp: video_ok_def dd_ok_def split_beta
      dest!: int_between_range int_f_int32 delay_ranges split: if_splits)

lemma restricted_range: "string_restricted_f vars name x allowed = (y, vars') \<Longrightarrow> y = x \<or> y \<in> set allowed"
  by (auto simp: string_restricted_f_def split_beta split: if_splits)

lemma stream_readers_keep: "\<forall>r \<in> set stream_readers. keeps (settings_ok gamepads) r"
  unfolding stream_readers_def
  by (auto intro!: keeps_settings keeps_discard keeps_simple simp: host_ok_def split_beta
      dest!: int_between_range delay_ranges restricted_range split: if_splits)

lemma input_readers_keep: "\<forall>r \<in> set (input_readers gamepads). keeps (settings_ok gamepads) r"
  unfolding input_readers_def
  by (auto intro!: keeps_settings keeps_discard keeps_simple simp: input_ok_def split_beta
      dest!: delay_ranges restricted_range split: if_splits)

lemma port_range:
  assumes "port_f vars x = Some (y, vars')"
  shows "y = x \<or> 1019 \<le> uint y \<and> uint y \<le> 65514"
proof -
  obtain n where n: "int_between_f vars ''port'' (uint x) (1024 + PORT_HTTPS, 65535 - 21) = Some (n, vars')"
    and y: "y = word_of_int n" using assms by (auto simp: port_f_def)
  from int_between_range [OF n] consider "n = uint x" | "1019 \<le> n" "n \<le> 65514" by (auto simp: PORT_HTTPS_def)
  then show ?thesis
  proof cases
    case 2
    then have "uint y = n" unfolding y by (simp add: uint_word_of_int)
    then show ?thesis using 2 by simp
  qed (simp add: y)
qed

lemma log_level_range:
  assumes "log_level_f vars x = Some (y, vars')"
  shows "y = x \<or> 0 \<le> y \<and> y \<le> 6"
proof -
  have table: "lookup_name log_level_names d v = d \<or>
      0 \<le> lookup_name log_level_names d v \<and> lookup_name log_level_names d v \<le> 6" for d v
    unfolding log_level_names_def by (rule lookup_name_all) simp_all
  have digit: "log_level_digit x s = x \<or> 0 \<le> log_level_digit x s \<and> log_level_digit x s \<le> 6" for s
    by (auto simp: log_level_digit_def split: list.split)
  obtain s where "y = (if s = [] then x else lookup_name log_level_names (log_level_digit x s) s)"
    using assms by (auto simp: log_level_f_def split_beta)
  then show ?thesis using table [of "log_level_digit x s" s] digit [of s] by (auto split: if_splits)
qed

lemma length_flip [simp]: "length (flip_flag i flags) = length flags"
  by (simp add: flip_flag_def)

lemma length_apply_flags: "length (fst (apply_flags s flags ret)) = length flags"
  by (induction s flags ret rule: apply_flags.induct) simp_all

lemma flags_length:
  "upnp_f vars x = Some (y, vars') \<Longrightarrow> length y = length x"
  "flags_f vars x = Some (y, vars') \<Longrightarrow> length y = length x"
  by (auto simp: upnp_f_def flags_f_def length_apply_flags split_beta split: if_splits option.splits)

lemma keeps_origins: "keeps host_ok add_web_ui_origins"
  by (auto simp: keeps_def add_web_ui_origins_def host_ok_def Let_def)

lemma host_readers_keep: "\<forall>r \<in> set host_readers. keeps (settings_ok gamepads) r"
  unfolding host_readers_def
  by (auto intro!: keeps_settings keeps_origins keeps_simple simp: host_ok_def split_beta
      dest!: port_range restricted_range log_level_range flags_length split: if_splits)

lemma apply_config_keeps: "keeps (settings_ok gamepads) (apply_config gamepads)"
  unfolding apply_config_def
  by (rule keeps_run) (use video_readers_keep encoder_readers_keep display_readers_keep stream_readers_keep
    input_readers_keep host_readers_keep in \<open>auto simp only: set_append\<close>)

section \<open>Readers that return\<close>

text \<open>Values that can be read as a number and as a list of numbers, whatever option they belong to.\<close>

definition readable :: "string \<Rightarrow> bool" where
  "readable v \<longleftrightarrow> config_int v \<noteq> None \<and>
     (v \<noteq> [] \<longrightarrow> (case list_elements [] (dropWhile whitespace (if hd v = CHR ''['' then tl v else v)) of
        None \<Rightarrow> False | Some els \<Rightarrow> config_ints els \<noteq> None))"

definition all_readable :: "config_vars \<Rightarrow> bool" where
  "all_readable vars \<longleftrightarrow> (\<forall>name. pred_option readable (vars name))"

definition ok_read :: "('a \<times> config_vars) option \<Rightarrow> bool" where
  "ok_read r \<longleftrightarrow> (case r of None \<Rightarrow> False | Some yv \<Rightarrow> all_readable (snd yv))"

definition returns :: "'c reader \<Rightarrow> bool" where
  "returns r \<longleftrightarrow> (\<forall>c vars. all_readable vars \<longrightarrow> ok_read (r (c, vars)))"

lemma ok_read_simps [simp]:
  "\<not> ok_read None" "ok_read (Some yv) = all_readable (snd yv)"
  "ok_read (map_option (\<lambda>(x, vars). (g x, vars)) r) = ok_read r"
  by (cases r; simp add: ok_read_def split_beta)+

lemma ok_readE: "ok_read r \<Longrightarrow> (\<And>y vars. r = Some (y, vars) \<Longrightarrow> all_readable vars \<Longrightarrow> thesis) \<Longrightarrow> thesis"
  by (cases r) auto

lemma all_readable_upd [simp]: "all_readable vars \<Longrightarrow> all_readable (vars(name := None))"
  by (simp add: all_readable_def)

lemma all_readableD: "all_readable vars \<Longrightarrow> vars name = Some v \<Longrightarrow> readable v"
  unfolding all_readable_def by (metis option.pred_inject(2))

lemma returns_run: "\<forall>r \<in> set rs. returns r \<Longrightarrow> returns (run_readers rs)"
proof (induction rs)
  case (Cons r rs)
  then have r: "returns r" and rs: "returns (run_readers rs)" by simp_all
  have "ok_read (run_readers (r # rs) (c, vars))" if "all_readable vars" for c vars
  proof -
    from r that have "ok_read (r (c, vars))" unfolding returns_def by blast
    then show ?thesis using rs by (elim ok_readE) (simp add: returns_def)
  qed
  then show ?case by (simp only: returns_def) blast
qed (simp add: returns_def)

lemma returns_read: "(\<And>vars x. all_readable vars \<Longrightarrow> ok_read (f vars x)) \<Longrightarrow> returns (read_with f get upd)"
  by (simp add: returns_def read_with_def)

lemma returns_within: "returns r \<Longrightarrow> returns (within get upd r)"
  by (simp add: returns_def within_def)

lemma returns_discard: "returns (discard name)"
  by (simp add: returns_def discard_def)

lemma int_f_returns [simp]: "all_readable vars \<Longrightarrow> ok_read (int_f vars name x)"
proof (cases "vars name")
  case (Some v)
  assume vars: "all_readable vars"
  from all_readableD [OF this Some] obtain n where "config_int v = Some n" by (auto simp: readable_def)
  then show ?thesis using vars Some by (simp add: int_f_def)
qed (simp add: int_f_def)

lemma int_between_returns [simp]: "all_readable vars \<Longrightarrow> ok_read (int_between_f vars name x limits)"
proof -
  assume "all_readable vars"
  then have "ok_read (int_f vars name x)" by simp
  then show ?thesis by (elim ok_readE) (simp add: int_between_f_def)
qed

lemma string_f_readable [simp]: "all_readable vars \<Longrightarrow> all_readable (snd (string_f vars name x))"
  by (simp add: string_f_def split: option.split)

lemma other_returns [simp]:
  "all_readable vars \<Longrightarrow> all_readable (snd (bool_f vars name b))"
  "all_readable vars \<Longrightarrow> all_readable (snd (generic_f vars name y f))"
  "all_readable vars \<Longrightarrow> all_readable (snd (string_restricted_f vars name x allowed))"
  "all_readable vars \<Longrightarrow> all_readable (snd (string_list_f vars name xs))"
  by (simp_all add: bool_f_def generic_f_def string_restricted_f_def string_list_f_def split_beta)

lemma map_int_int_returns [simp]: "all_readable vars \<Longrightarrow> ok_read (map_int_int_f vars name x)"
proof -
  assume vars: "all_readable vars"
  have "ok_read (list_int_f vars name [])"
  proof (cases "vars name")
    case None
    then show ?thesis using vars by (simp add: list_int_f_def list_string_f_def string_f_def)
  next
    case (Some v)
    show ?thesis
    proof (cases "v = []")
      case False
      define els where "els = list_elements [] (dropWhile whitespace (if hd v = CHR ''['' then tl v else v))"
      from all_readableD [OF vars Some] False obtain es xs where "els = Some es" "config_ints es = Some xs"
        by (auto simp: readable_def els_def [symmetric] split: option.splits)
      then show ?thesis
        using vars Some False
        by (cases es) (simp_all add: list_int_f_def list_string_f_def string_f_def els_def [symmetric])
    qed (use vars Some in \<open>simp add: list_int_f_def list_string_f_def string_f_def\<close>)
  qed
  then show ?thesis by (elim ok_readE) (simp add: map_int_int_f_def)
qed

lemma single_returns [simp]:
  assumes "all_readable vars"
  shows "ok_read (revert_delay_f vars n)" "ok_read (hdr_toggle_f vars n)" "ok_read (ping_timeout_f vars n)"
    "ok_read (back_button_f vars n)" "ok_read (key_repeat_delay_f vars n)" "ok_read (port_f vars p)"
    "ok_read (csrf_origins_f vars os)" "ok_read (rightalt_f vars ks)" "ok_read (upnp_f vars fs)"
    "ok_read (log_level_f vars n)" "ok_read (flags_f vars fs)" "ok_read (amd_table name table vars z)"
  using assms
  by (simp_all add: revert_delay_f_def hdr_toggle_f_def ping_timeout_f_def back_button_f_def key_repeat_delay_f_def
      port_f_def csrf_origins_f_def rightalt_f_def upnp_f_def log_level_f_def flags_f_def amd_table_def split_beta
      split: option.split)

lemma special_returns [simp]: "returns read_svtav1" "returns add_web_ui_origins"
  by (simp_all add: returns_def read_svtav1_def add_web_ui_origins_def Let_def)

lemma apply_config_returns: "returns (apply_config gamepads)"
  unfolding apply_config_def video_readers_def encoder_readers_def display_readers_def stream_readers_def
    input_readers_def host_readers_def read_int_def read_between_def read_bool_def read_string_def
    read_restricted_def read_name_def
  by (rule returns_run) (auto intro!: returns_within returns_read returns_discard)

section \<open>The result\<close>

text \<open>The settings before the file is read; the names of the host and of the first gamepad come from the platform.\<close>

definition default_settings :: "string \<Rightarrow> string list \<Rightarrow> settings" where
  "default_settings host_name gamepads =
     \<lparr>se_video = \<lparr>vc_qp = 28, vc_hevc_mode = 0, vc_av1_mode = 0, vc_min_threads = 2, vc_sw_preset = ''superfast'',
        vc_sw_tune = ''zerolatency'', vc_svtav1_preset = Some 11, vc_nv_preset = 1, vc_nv_vbv_increase = 0,
        vc_nv_spatial_aq = False, vc_nv_two_pass = Quarter_resolution, vc_nv_h264_cavlc = False,
        vc_nv_split = Driver_decides, vc_nv_realtime_hags = True, vc_nv_opengl_vulkan_on_dxgi = True,
        vc_nv_high_power = True, vc_qsv_preset = Some 4, vc_qsv_cavlc = Some 0, vc_qsv_slow_hevc = False,
        vc_strict_rc_buffer = False, vc_vk_tune = 2, vc_vk_rc_mode = 2, vc_capture = [], vc_encoder = [],
        vc_adapter_name = [], vc_output_name = [], vc_max_bitrate = 0\<rparr>,
      se_amd = \<lparr>ac_usage = (2, 1, 1), ac_rc = (1, 1, 3), ac_quality = (70, 5, 0), ac_enforce_hrd = False,
        ac_preanalysis = False, ac_vbaq = True, ac_coder = 0\<rparr>,
      se_vt = \<lparr>vt_allow_sw = 0, vt_require_sw = 0, vt_realtime = 1, vt_coder = - 1\<rparr>,
      se_dd = \<lparr>dd_configuration_option = Dd_disabled, dd_resolution_option = Mode_automatic, dd_manual_resolution = [],
        dd_refresh_rate_option = Mode_automatic, dd_manual_refresh_rate = [], dd_hdr_option = Hdr_automatic,
        dd_config_revert_delay = 3000, dd_config_revert_on_disconnect = False, dd_hdr_toggle_delay = 0\<rparr>,
      se_input = \<lparr>ic_keybindings = map_of [(0x10, 0xA0), (0x11, 0xA2), (0x12, 0xA4)], ic_back_button_timeout = - 1,
        ic_key_repeat_delay = 500, ic_gamepad = hd gamepads, ic_ds4_back_as_touchpad_click = True,
        ic_motion_as_ds4 = True, ic_touchpad_as_ds4 = True, ic_ds5_randomize_mac = True, ic_mouse = True,
        ic_keyboard = True, ic_controller = True, ic_always_send_scancodes = True, ic_high_resolution_scrolling = True,
        ic_native_pen_touch = True\<rparr>,
      se_host = \<lparr>hc_sunshine_name = host_name, hc_external_ip = [], hc_audio_sink = [], hc_virtual_sink = [],
        hc_stream_audio = True, hc_install_steam_drivers = True, hc_origin_web_ui_allowed = ''lan'',
        hc_csrf_allowed_origins = [], hc_ping_timeout = 10000, hc_lan_encryption_mode = 0, hc_wan_encryption_mode = 1,
        hc_fec_percentage = 20, hc_notify_pre_releases = False, hc_system_tray = True, hc_port = 47989,
        hc_address_family = ''ipv4'', hc_bind_address = [], hc_locale = ''en'', hc_min_log_level = 2,
        hc_flags = replicate 5 False\<rparr>\<rparr>"

lemma default_settings_ok: "gamepads \<noteq> [] \<Longrightarrow> settings_ok gamepads (default_settings host_name gamepads)"
  by (simp add: settings_ok_def default_settings_def video_ok_def amd_ok_def dd_ok_def input_ok_def host_ok_def
      table_values_def amd_quality_def amd_rc_def amd_usage_def locales_def int32_def INT_MIN_def INT_MAX_def)

text \<open>
  C16. The settings are well typed, whatever options the file sets. Starting with the defaults, the
  readers either end with every setting in the range that its reader enforces - modes, presets, encryption
  modes, percentages, delays, the names of which only some are allowed, the integers of 32 bits and the
  port, which the code bounds by 1019 and 65514 - or some value is one on which the behaviour of the
  code is undefined: a number with too many digits, or a list that ends with a nested list. The documentation gives the port a narrower range, from
  1029, which the code does not enforce.
\<close>

theorem config_well_typed:
  assumes "gamepads \<noteq> []"
  shows "case apply_config gamepads (default_settings host_name gamepads, vars) of
      None \<Rightarrow> \<not> all_readable vars
    | Some (s, rest) \<Rightarrow> settings_ok gamepads s"
proof (cases "apply_config gamepads (default_settings host_name gamepads, vars)")
  case None
  then show ?thesis
    using apply_config_returns [of gamepads, unfolded returns_def, rule_format, of vars "default_settings host_name gamepads"]
    by auto
next
  case (Some sv)
  then have "apply_config gamepads (default_settings host_name gamepads, vars) = Some (fst sv, snd sv)" by simp
  with apply_config_keeps default_settings_ok [OF assms] have "settings_ok gamepads (fst sv)"
    unfolding keeps_def by blast
  then show ?thesis using Some by (simp add: split_beta)
qed

lemma all_readable_map: "list_all (\<lambda>opt. readable (snd opt)) opts \<Longrightarrow> all_readable (map_of opts)"
  unfolding all_readable_def list_all_iff
  by (metis map_of_SomeD option.pred_inject(1) option.pred_inject(2) option.exhaust snd_conv)

theorem config_well_typed_witness:
  "\<exists>s rest. apply_config [''auto''] (default_settings ''host'' [''auto''],
      map_of [(''port'', ''70000''), (''fec_percentage'', ''0x''), (''hevc_mode'', ''9'')]) = Some (s, rest) \<and>
    settings_ok [''auto''] s"
proof -
  let ?vars = "map_of [(''port'', ''70000''), (''fec_percentage'', ''0x''), (''hevc_mode'', ''9'')]"
  have "list_all (\<lambda>opt. readable (snd opt)) [(''port'', ''70000''), (''fec_percentage'', ''0x''), (''hevc_mode'', ''9'')]"
    by code_simp
  then have "all_readable ?vars" by (rule all_readable_map)
  with config_well_typed [of "[''auto'']" ?vars "''host''"] show ?thesis
    by (auto split: option.splits)
qed

section \<open>Options without effect\<close>

lemma run_readers_append:
  "run_readers (rs @ rs') x = (case run_readers rs x of None \<Rightarrow> None | Some y \<Rightarrow> run_readers rs' y)"
  by (induction rs arbitrary: x) (simp_all split: option.split)

definition same_require :: "int \<Rightarrow> settings \<Rightarrow> bool" where
  "same_require k s \<longleftrightarrow> vt_require_sw (se_vt s) = k"

lemma keeps_require:
  "keeps (same_require k) (within se_video se_video_update r1)"
  "keeps (same_require k) (within se_amd se_amd_update r2)"
  "keeps (same_require k) (within se_dd se_dd_update r4)"
  "keeps (same_require k) (within se_input se_input_update r5)"
  "keeps (same_require k) (within se_host se_host_update r6)"
  by (rule keeps_within [OF keeps_true]; simp add: same_require_def)+

lemma keeps_vt_other:
  "keeps (same_require k) (within se_vt se_vt_update (read_name n f vt_coder vt_coder_update))"
  "keeps (same_require k) (within se_vt se_vt_update (read_name n f vt_allow_sw vt_allow_sw_update))"
  "keeps (same_require k) (within se_vt se_vt_update (read_name n f vt_realtime vt_realtime_update))"
  by (rule keeps_within [where q = "\<lambda>c. vt_require_sw c = k"]; auto simp: same_require_def intro: keeps_simple)+

text \<open>Both settings are read from the same option, and the first reader takes it.\<close>

definition vt_software_readers :: "settings reader list" where
  "vt_software_readers =
     [within se_vt se_vt_update (read_name ''vt_software'' allow_software_from_view vt_allow_sw vt_allow_sw_update),
      within se_vt se_vt_update (read_name ''vt_software'' force_software_from_view vt_require_sw vt_require_sw_update)]"

lemma vt_software_keep: "keeps (same_require k) (run_readers vt_software_readers)"
  by (auto simp: keeps_def vt_software_readers_def within_def read_name_def read_with_def generic_f_def string_f_def
      same_require_def split: option.splits if_splits)

lemma encoder_readers_split:
  "encoder_readers = take 8 encoder_readers @ vt_software_readers @ drop 10 encoder_readers"
  by (simp add: encoder_readers_def vt_software_readers_def)

lemmas keeps_others = conjI list.pred_inject(1) keeps_require keeps_vt_other keeps_discard

lemma encoder_others_keep:
  "list_all (keeps (same_require k)) (take 8 encoder_readers)"
  "list_all (keeps (same_require k)) (drop 10 encoder_readers)"
  by (simp_all add: encoder_readers_def keeps_require keeps_vt_other)

lemma video_keeps_require: "list_all (keeps (same_require k)) video_readers"
  unfolding video_readers_def list.pred_inject by (intro keeps_others)

lemma display_keeps_require: "list_all (keeps (same_require k)) display_readers"
  unfolding display_readers_def list.pred_inject by (intro keeps_others)

lemma stream_keeps_require: "list_all (keeps (same_require k)) stream_readers"
  unfolding stream_readers_def list.pred_inject by (intro keeps_others)

lemma input_keeps_require: "list_all (keeps (same_require k)) (input_readers gamepads)"
  unfolding input_readers_def list.pred_inject by (intro keeps_others)

lemma host_keeps_require: "list_all (keeps (same_require k)) host_readers"
  unfolding host_readers_def list.pred_inject by (intro keeps_others)

lemma keeps_append:
  assumes "keeps p (run_readers rs)" and "keeps p (run_readers rs')"
  shows "keeps p (run_readers (rs @ rs'))"
  unfolding keeps_def
proof (intro allI impI)
  fix c vars c' vars'
  assume "p c" and "run_readers (rs @ rs') (c, vars) = Some (c', vars')"
  then obtain c1 vars1 where "run_readers rs (c, vars) = Some (c1, vars1)" "run_readers rs' (c1, vars1) = Some (c', vars')"
    by (cases "run_readers rs (c, vars)") (auto simp: run_readers_append)
  then show "p c'" using assms \<open>p c\<close> unfolding keeps_def by blast
qed

lemma vt_require_never_set:
  assumes "apply_config gamepads (s, vars) = Some (s', rest)"
  shows "vt_require_sw (se_vt s') = vt_require_sw (se_vt s)"
proof -
  let ?k = "vt_require_sw (se_vt s)"
  have parts: "keeps (same_require ?k) (run_readers rs)" if "list_all (keeps (same_require ?k)) rs" for rs
    using that by (intro keeps_run) (simp add: list_all_iff)
  have "keeps (same_require ?k) (run_readers encoder_readers)"
    by (subst encoder_readers_split) (intro keeps_append parts [OF encoder_others_keep(1)] parts [OF encoder_others_keep(2)] vt_software_keep)
  then have "keeps (same_require ?k) (apply_config gamepads)"
    unfolding apply_config_def by (intro keeps_append parts [OF video_keeps_require] parts [OF display_keeps_require]
        parts [OF stream_keeps_require] parts [OF input_keeps_require] parts [OF host_keeps_require])
  then show ?thesis using assms unfolding keeps_def same_require_def by blast
qed

end
