(* ===== verification/Video_Encoder.thy ===== *)
theory Video_Encoder
  imports Colorspace Config_Types "HOL-Library.AList"
begin

text \<open>
  The encoders of \<^verbatim>\<open>src/video.cpp\<close> and their types in \<^verbatim>\<open>src/video.h\<close>: formats, codecs with their options and
  capabilities, and the parameters an encoder of FFmpeg is opened with. FFmpeg itself and the devices are
  parameters. Numbers of 32 bits are integers, and what overflows or divides by zero is undefined.
\<close>

unbundle bit_operations_syntax

section \<open>Formats\<close>

datatype mem_type_e = Mem_system | Mem_vaapi | Mem_dxgi | Mem_cuda | Mem_videotoolbox | Mem_vulkan | Mem_unknown

datatype pix_fmt_e =
  Pix_yuv420p | Pix_yuv420p10 | Pix_nv12 | Pix_p010 | Pix_ayuv | Pix_yuv444p16 | Pix_y410 | Pix_unknown

text \<open>Those of FFmpeg that occur.\<close>

datatype av_hwdevice =
    AV_HWDEVICE_TYPE_NONE | AV_HWDEVICE_TYPE_D3D11VA | AV_HWDEVICE_TYPE_VAAPI | AV_HWDEVICE_TYPE_VULKAN
  | AV_HWDEVICE_TYPE_CUDA | AV_HWDEVICE_TYPE_VIDEOTOOLBOX | AV_HWDEVICE_TYPE_QSV

datatype av_pix_fmt =
    AV_PIX_FMT_NONE | AV_PIX_FMT_VUYX | AV_PIX_FMT_XV30 | AV_PIX_FMT_YUV420P10 | AV_PIX_FMT_YUV420P | AV_PIX_FMT_NV12
  | AV_PIX_FMT_P010 | AV_PIX_FMT_YUV444P | AV_PIX_FMT_YUV444P10 | AV_PIX_FMT_CUDA | AV_PIX_FMT_VAAPI | AV_PIX_FMT_VULKAN
  | AV_PIX_FMT_D3D11 | AV_PIX_FMT_QSV | AV_PIX_FMT_VIDEOTOOLBOX

text \<open>With \<^verbatim>\<open>SUNSHINE_BUILD_VULKAN\<close>.\<close>

fun map_base_dev_type :: "av_hwdevice \<Rightarrow> mem_type_e" where
  "map_base_dev_type AV_HWDEVICE_TYPE_D3D11VA = Mem_dxgi"
| "map_base_dev_type AV_HWDEVICE_TYPE_VAAPI = Mem_vaapi"
| "map_base_dev_type AV_HWDEVICE_TYPE_VULKAN = Mem_vulkan"
| "map_base_dev_type AV_HWDEVICE_TYPE_CUDA = Mem_cuda"
| "map_base_dev_type AV_HWDEVICE_TYPE_NONE = Mem_system"
| "map_base_dev_type AV_HWDEVICE_TYPE_VIDEOTOOLBOX = Mem_videotoolbox"
| "map_base_dev_type _ = Mem_unknown"

fun map_pix_fmt :: "av_pix_fmt \<Rightarrow> pix_fmt_e" where
  "map_pix_fmt AV_PIX_FMT_VUYX = Pix_ayuv"
| "map_pix_fmt AV_PIX_FMT_XV30 = Pix_y410"
| "map_pix_fmt AV_PIX_FMT_YUV420P10 = Pix_yuv420p10"
| "map_pix_fmt AV_PIX_FMT_YUV420P = Pix_yuv420p"
| "map_pix_fmt AV_PIX_FMT_NV12 = Pix_nv12"
| "map_pix_fmt AV_PIX_FMT_P010 = Pix_p010"
| "map_pix_fmt _ = Pix_unknown"

record avcodec_formats =
  vf_base_dev_type :: av_hwdevice
  vf_derived_dev_type :: av_hwdevice
  vf_dev_pix_fmt :: av_pix_fmt
  vf_pix_fmt_8bit :: av_pix_fmt
  vf_pix_fmt_10bit :: av_pix_fmt
  vf_pix_fmt_yuv444_8bit :: av_pix_fmt
  vf_pix_fmt_yuv444_10bit :: av_pix_fmt

record encoder_formats =
  ef_dev_type :: mem_type_e
  ef_pix_fmt_8bit :: pix_fmt_e
  ef_pix_fmt_10bit :: pix_fmt_e
  ef_pix_fmt_yuv444_8bit :: pix_fmt_e
  ef_pix_fmt_yuv444_10bit :: pix_fmt_e
  ef_avcodec :: "avcodec_formats option"

definition avcodec_platform_formats :: "avcodec_formats \<Rightarrow> encoder_formats" where
  "avcodec_platform_formats f =
     \<lparr>ef_dev_type = map_base_dev_type (vf_base_dev_type f), ef_pix_fmt_8bit = map_pix_fmt (vf_pix_fmt_8bit f),
      ef_pix_fmt_10bit = map_pix_fmt (vf_pix_fmt_10bit f), ef_pix_fmt_yuv444_8bit = map_pix_fmt (vf_pix_fmt_yuv444_8bit f),
      ef_pix_fmt_yuv444_10bit = map_pix_fmt (vf_pix_fmt_yuv444_10bit f), ef_avcodec = Some f\<rparr>"

section \<open>Encoders\<close>

text \<open>The settings the options refer to.\<close>

record encoder_settings =
  es_sw_preset :: string
  es_sw_tune :: string
  es_svtav1_preset :: "int option"
  es_nv_preset :: int
  es_nv_multipass :: int
  es_nv_h264_coder :: int
  es_nv_aq :: int
  es_nv_vbv_percentage_increase :: int
  es_qsv_preset :: "int option"
  es_qsv_cavlc :: "int option"
  es_qsv_slow_hevc :: bool
  es_amd_usage :: "int option \<times> int option \<times> int option"
  es_amd_rc :: "int option \<times> int option \<times> int option"
  es_amd_quality :: "int option \<times> int option \<times> int option"
  es_amd_enforce_hrd :: "int option"
  es_amd_preanalysis :: "int option"
  es_amd_vbaq :: "int option"
  es_vt_allow_sw :: int
  es_vt_require_sw :: int
  es_vt_realtime :: int
  es_vk_tune :: int
  es_vk_rc_mode :: int
  es_va_strict_rc_buffer :: bool
  es_qp :: int
  es_min_threads :: int
  es_max_bitrate :: int
  es_min_log_level :: int

text \<open>
  The variants of \<^verbatim>\<open>option_t::value\<close>; a constant of a library is known by its name only. Of the functions of
  a stream's configuration there is one in the tables, that of the level of \<^verbatim>\<open>hevc_amf\<close>.
\<close>

datatype config_function = Amd_level

datatype option_value =
    Opt_int int
  | Opt_constant string
  | Opt_setting "encoder_settings \<Rightarrow> int"
  | Opt_optional "encoder_settings \<Rightarrow> int option"
  | Opt_function "encoder_settings \<Rightarrow> int"
  | Opt_text string
  | Opt_text_setting "encoder_settings \<Rightarrow> string"
  | Opt_config config_function

type_synonym option_t = "string \<times> option_value"

record codec_t =
  cd_common_options :: "option_t list"
  cd_sdr_options :: "option_t list"
  cd_hdr_options :: "option_t list"
  cd_sdr444_options :: "option_t list"
  cd_hdr444_options :: "option_t list"
  cd_fallback_options :: "option_t list"
  cd_name :: string
  cd_passed :: bool
  cd_ref_frames_restrict :: bool
  cd_dynamic_range :: bool
  cd_yuv444 :: bool
  cd_vui_parameters :: bool

definition codec_of :: "string \<Rightarrow> option_t list \<Rightarrow> codec_t" where
  "codec_of name common =
     \<lparr>cd_common_options = common, cd_sdr_options = [], cd_hdr_options = [], cd_sdr444_options = [], cd_hdr444_options = [],
      cd_fallback_options = [], cd_name = name, cd_passed = False, cd_ref_frames_restrict = False, cd_dynamic_range = False,
      cd_yuv444 = False, cd_vui_parameters = False\<rparr>"

record encoder_t =
  en_name :: string
  en_platform_formats :: encoder_formats
  en_av1 :: codec_t
  en_hevc :: codec_t
  en_h264 :: codec_t
  en_flags :: u32

definition codec_from_config :: "encoder_t \<Rightarrow> stream_config \<Rightarrow> codec_t" where
  "codec_from_config e config =
     (if sc_videoFormat config = 1 then en_hevc e else if sc_videoFormat config = 2 then en_av1 e else en_h264 e)"

definition PARALLEL_ENCODING :: u32 where "PARALLEL_ENCODING = push_bit 1 1"
definition H264_ONLY :: u32 where "H264_ONLY = push_bit 2 1"
definition LIMITED_GOP_SIZE :: u32 where "LIMITED_GOP_SIZE = push_bit 3 1"
definition SINGLE_SLICE_ONLY :: u32 where "SINGLE_SLICE_ONLY = push_bit 4 1"
definition CBR_WITH_VBR :: u32 where "CBR_WITH_VBR = push_bit 5 1"
definition RELAXED_COMPLIANCE :: u32 where "RELAXED_COMPLIANCE = push_bit 6 1"
definition NO_RC_BUF_LIMIT :: u32 where "NO_RC_BUF_LIMIT = push_bit 7 1"
definition REF_FRAMES_INVALIDATION :: u32 where "REF_FRAMES_INVALIDATION = push_bit 8 1"
definition ALWAYS_REPROBE :: u32 where "ALWAYS_REPROBE = push_bit 9 1"
definition YUV444_SUPPORT :: u32 where "YUV444_SUPPORT = push_bit 10 1"
definition ASYNC_TEARDOWN :: u32 where "ASYNC_TEARDOWN = push_bit 11 1"
definition FIXED_GOP_SIZE :: u32 where "FIXED_GOP_SIZE = push_bit 12 1"

definition has_flag :: "encoder_t \<Rightarrow> u32 \<Rightarrow> bool" where
  "has_flag e flag \<longleftrightarrow> en_flags e AND flag \<noteq> 0"

end
