(* ===== verification/Encoder_Tables.thy ===== *)
theory Encoder_Tables
  imports Video_Encoder
begin

text \<open>
  The table of encoders in \<^verbatim>\<open>src/video.cpp\<close>, for each system, with the options as they are written there.
  In the computed level of \<^verbatim>\<open>hevc_amf\<close> the products are those of integers.
\<close>

unbundle bit_operations_syntax

section \<open>NVIDIA\<close>

definition nvenc_windows :: encoder_t where
  "nvenc_windows =
     \<lparr>en_name = ''nvenc'',
      en_platform_formats = \<lparr>ef_dev_type = Mem_dxgi, ef_pix_fmt_8bit = Pix_nv12, ef_pix_fmt_10bit = Pix_p010,
        ef_pix_fmt_yuv444_8bit = Pix_ayuv, ef_pix_fmt_yuv444_10bit = Pix_yuv444p16, ef_avcodec = None\<rparr>,
      en_av1 = codec_of ''av1_nvenc'' [], en_hevc = codec_of ''hevc_nvenc'' [], en_h264 = codec_of ''h264_nvenc'' [],
      en_flags = PARALLEL_ENCODING OR REF_FRAMES_INVALIDATION OR YUV444_SUPPORT OR ASYNC_TEARDOWN\<rparr>"

definition nvenc_start :: "option_t list" where
  "nvenc_start =
     [(''delay'', Opt_int 0), (''forced-idr'', Opt_int 1), (''zerolatency'', Opt_int 1), (''surfaces'', Opt_int 1),
      (''cbr_padding'', Opt_int 0), (''preset'', Opt_setting es_nv_preset),
      (''tune'', Opt_constant ''NV_ENC_TUNING_INFO_ULTRA_LOW_LATENCY''), (''rc'', Opt_constant ''NV_ENC_PARAMS_RC_CBR'')]"

definition nvenc_end :: "option_t list" where
  "nvenc_end = [(''multipass'', Opt_setting es_nv_multipass), (''aq'', Opt_setting es_nv_aq)]"

definition nvenc :: encoder_t where
  "nvenc =
     \<lparr>en_name = ''nvenc'',
      en_platform_formats = avcodec_platform_formats
        \<lparr>vf_base_dev_type = AV_HWDEVICE_TYPE_CUDA, vf_derived_dev_type = AV_HWDEVICE_TYPE_NONE, vf_dev_pix_fmt = AV_PIX_FMT_CUDA,
         vf_pix_fmt_8bit = AV_PIX_FMT_NV12, vf_pix_fmt_10bit = AV_PIX_FMT_P010, vf_pix_fmt_yuv444_8bit = AV_PIX_FMT_NONE,
         vf_pix_fmt_yuv444_10bit = AV_PIX_FMT_NONE\<rparr>,
      en_av1 = codec_of ''av1_nvenc'' (nvenc_start @ nvenc_end),
      en_hevc = (codec_of ''hevc_nvenc'' (nvenc_start @ nvenc_end))
        \<lparr>cd_sdr_options := [(''profile'', Opt_int 0)], cd_hdr_options := [(''profile'', Opt_int 1)]\<rparr>,
      en_h264 = (codec_of ''h264_nvenc'' (nvenc_start @ [(''coder'', Opt_setting es_nv_h264_coder)] @ nvenc_end))
        \<lparr>cd_sdr_options := [(''profile'', Opt_int 2)]\<rparr>,
      en_flags = PARALLEL_ENCODING\<rparr>"

section \<open>Windows\<close>

definition d3d11_formats :: "av_hwdevice \<Rightarrow> av_pix_fmt \<Rightarrow> av_pix_fmt \<Rightarrow> av_pix_fmt \<Rightarrow> av_pix_fmt \<Rightarrow> encoder_formats" where
  "d3d11_formats derived dev ten yuv444 yuv444_10 = avcodec_platform_formats
     \<lparr>vf_base_dev_type = AV_HWDEVICE_TYPE_D3D11VA, vf_derived_dev_type = derived, vf_dev_pix_fmt = dev,
      vf_pix_fmt_8bit = AV_PIX_FMT_NV12, vf_pix_fmt_10bit = ten, vf_pix_fmt_yuv444_8bit = yuv444,
      vf_pix_fmt_yuv444_10bit = yuv444_10\<rparr>"

definition quicksync :: encoder_t where
  "quicksync =
     \<lparr>en_name = ''quicksync'',
      en_platform_formats = d3d11_formats AV_HWDEVICE_TYPE_QSV AV_PIX_FMT_QSV AV_PIX_FMT_P010 AV_PIX_FMT_VUYX AV_PIX_FMT_XV30,
      en_av1 = (codec_of ''av1_qsv''
         [(''preset'', Opt_optional es_qsv_preset), (''forced_idr'', Opt_int 1), (''async_depth'', Opt_int 1),
          (''low_delay_brc'', Opt_int 1), (''low_power'', Opt_int 1)])
        \<lparr>cd_sdr_options := [(''profile'', Opt_int 1)], cd_hdr_options := [(''profile'', Opt_int 1)],
         cd_sdr444_options := [(''profile'', Opt_int 2)], cd_hdr444_options := [(''profile'', Opt_int 2)]\<rparr>,
      en_hevc = (codec_of ''hevc_qsv''
         [(''preset'', Opt_optional es_qsv_preset), (''forced_idr'', Opt_int 1), (''async_depth'', Opt_int 1),
          (''low_delay_brc'', Opt_int 1), (''low_power'', Opt_int 1), (''recovery_point_sei'', Opt_int 0),
          (''pic_timing_sei'', Opt_int 0)])
        \<lparr>cd_sdr_options := [(''profile'', Opt_int 1)], cd_hdr_options := [(''profile'', Opt_int 2)],
         cd_sdr444_options := [(''profile'', Opt_int 4)], cd_hdr444_options := [(''profile'', Opt_int 4)],
         cd_fallback_options := [(''low_power'', Opt_function (\<lambda>s. if es_qsv_slow_hevc s then 0 else 1))]\<rparr>,
      en_h264 = (codec_of ''h264_qsv''
         [(''preset'', Opt_optional es_qsv_preset), (''cavlc'', Opt_optional es_qsv_cavlc), (''forced_idr'', Opt_int 1),
          (''async_depth'', Opt_int 1), (''low_delay_brc'', Opt_int 1), (''low_power'', Opt_int 1),
          (''recovery_point_sei'', Opt_int 0), (''vcm'', Opt_int 1), (''pic_timing_sei'', Opt_int 0),
          (''max_dec_frame_buffering'', Opt_int 1)])
        \<lparr>cd_sdr_options := [(''profile'', Opt_int 100)], cd_sdr444_options := [(''profile'', Opt_int 244)],
         cd_fallback_options := [(''low_power'', Opt_int 0)]\<rparr>,
      en_flags = PARALLEL_ENCODING OR CBR_WITH_VBR OR RELAXED_COMPLIANCE OR NO_RC_BUF_LIMIT OR YUV444_SUPPORT\<rparr>"

definition amd_log_to_dbg :: "encoder_settings \<Rightarrow> int" where
  "amd_log_to_dbg s = (if es_min_log_level s < 2 then 1 else 0)"

text \<open>A number of 32 bits, undefined if it does not fit.\<close>

definition int_of :: "int \<Rightarrow> int option" where
  "int_of x = (if int32 x then Some x else None)"

text \<open>The level of \<^verbatim>\<open>hevc_amf\<close>; the products are of 32 bits, and \<open>None\<close> is their overflow.\<close>

definition amd_level :: "stream_config \<Rightarrow> string option" where
  "amd_level cfg =
     Option.bind (int_of (sc_width cfg * sc_height cfg)) (\<lambda>size.
       if size \<le> 8912896
       then Option.bind (int_of (size * sc_framerate cfg)) (\<lambda>rate.
         if rate \<le> 534773760 then Some ''5.1'' else if rate \<le> 1069547520 then Some ''5.2'' else Some ''auto'')
       else Some ''auto'')"

fun config_function_value :: "config_function \<Rightarrow> stream_config \<Rightarrow> string option" where
  "config_function_value Amd_level = amd_level"

definition amdvce :: encoder_t where
  "amdvce =
     \<lparr>en_name = ''amdvce'',
      en_platform_formats = d3d11_formats AV_HWDEVICE_TYPE_NONE AV_PIX_FMT_D3D11 AV_PIX_FMT_P010 AV_PIX_FMT_NONE AV_PIX_FMT_NONE,
      en_av1 = codec_of ''av1_amf''
         [(''filler_data'', Opt_int 0), (''forced_idr'', Opt_int 1), (''latency'', Opt_text ''lowest_latency''),
          (''async_depth'', Opt_int 1), (''skip_frame'', Opt_int 0), (''log_to_dbg'', Opt_function amd_log_to_dbg),
          (''preencode'', Opt_optional es_amd_preanalysis), (''quality'', Opt_optional (snd \<circ> snd \<circ> es_amd_quality)),
          (''rc'', Opt_optional (snd \<circ> snd \<circ> es_amd_rc)), (''usage'', Opt_optional (snd \<circ> snd \<circ> es_amd_usage)),
          (''enforce_hrd'', Opt_optional es_amd_enforce_hrd)],
      en_hevc = codec_of ''hevc_amf''
         [(''filler_data'', Opt_int 0), (''forced_idr'', Opt_int 1), (''latency'', Opt_int 1), (''async_depth'', Opt_int 1),
          (''skip_frame'', Opt_int 0), (''log_to_dbg'', Opt_function amd_log_to_dbg), (''gops_per_idr'', Opt_int 1),
          (''header_insertion_mode'', Opt_text ''idr''), (''preencode'', Opt_optional es_amd_preanalysis),
          (''quality'', Opt_optional (fst \<circ> snd \<circ> es_amd_quality)), (''rc'', Opt_optional (fst \<circ> snd \<circ> es_amd_rc)),
          (''usage'', Opt_optional (fst \<circ> snd \<circ> es_amd_usage)), (''vbaq'', Opt_optional es_amd_vbaq),
          (''enforce_hrd'', Opt_optional es_amd_enforce_hrd), (''level'', Opt_config Amd_level)],
      en_h264 = (codec_of ''h264_amf''
         [(''filler_data'', Opt_int 0), (''forced_idr'', Opt_int 1), (''latency'', Opt_int 1), (''async_depth'', Opt_int 1),
          (''frame_skipping'', Opt_int 0), (''log_to_dbg'', Opt_function amd_log_to_dbg),
          (''preencode'', Opt_optional es_amd_preanalysis), (''quality'', Opt_optional (fst \<circ> es_amd_quality)),
          (''rc'', Opt_optional (fst \<circ> es_amd_rc)), (''usage'', Opt_optional (fst \<circ> es_amd_usage)),
          (''vbaq'', Opt_optional es_amd_vbaq), (''enforce_hrd'', Opt_optional es_amd_enforce_hrd)])
        \<lparr>cd_fallback_options := [(''usage'', Opt_int 2)]\<rparr>,
      en_flags = PARALLEL_ENCODING\<rparr>"

definition mediafoundation_options :: "option_t list" where
  "mediafoundation_options =
     [(''hw_encoding'', Opt_int 1), (''rate_control'', Opt_text ''cbr''), (''scenario'', Opt_text ''display_remoting'')]"

definition mediafoundation :: encoder_t where
  "mediafoundation =
     \<lparr>en_name = ''mediafoundation'',
      en_platform_formats = d3d11_formats AV_HWDEVICE_TYPE_NONE AV_PIX_FMT_D3D11 AV_PIX_FMT_NONE AV_PIX_FMT_NONE AV_PIX_FMT_NONE,
      en_av1 = codec_of ''av1_mf'' mediafoundation_options, en_hevc = codec_of ''hevc_mf'' mediafoundation_options,
      en_h264 = codec_of ''h264_mf'' mediafoundation_options,
      en_flags = PARALLEL_ENCODING OR FIXED_GOP_SIZE\<rparr>"

section \<open>Software\<close>

text \<open>Without \<^verbatim>\<open>ENABLE_BROKEN_AV1_ENCODER\<close> the AV1 encoder has no name.\<close>

definition software :: encoder_t where
  "software =
     \<lparr>en_name = ''software'',
      en_platform_formats = avcodec_platform_formats
        \<lparr>vf_base_dev_type = AV_HWDEVICE_TYPE_NONE, vf_derived_dev_type = AV_HWDEVICE_TYPE_NONE, vf_dev_pix_fmt = AV_PIX_FMT_NONE,
         vf_pix_fmt_8bit = AV_PIX_FMT_YUV420P, vf_pix_fmt_10bit = AV_PIX_FMT_YUV420P10, vf_pix_fmt_yuv444_8bit = AV_PIX_FMT_YUV444P,
         vf_pix_fmt_yuv444_10bit = AV_PIX_FMT_YUV444P10\<rparr>,
      en_av1 = codec_of []
         [(''svtav1-params'', Opt_text ''keyint=-1:pred-struct=1:force-key-frames=1:mbr=0''),
          (''preset'', Opt_optional es_svtav1_preset)],
      en_hevc = codec_of ''libx265''
         [(''forced-idr'', Opt_int 1), (''x265-params'', Opt_text ''info=0:keyint=-1''),
          (''preset'', Opt_text_setting es_sw_preset), (''tune'', Opt_text_setting es_sw_tune)],
      en_h264 = codec_of ''libx264'' [(''preset'', Opt_text_setting es_sw_preset), (''tune'', Opt_text_setting es_sw_tune)],
      en_flags = H264_ONLY OR PARALLEL_ENCODING OR ALWAYS_REPROBE OR YUV444_SUPPORT\<rparr>"

section \<open>Linux and macOS\<close>

definition plain_formats :: "av_hwdevice \<Rightarrow> av_pix_fmt \<Rightarrow> encoder_formats" where
  "plain_formats base dev = avcodec_platform_formats
     \<lparr>vf_base_dev_type = base, vf_derived_dev_type = AV_HWDEVICE_TYPE_NONE, vf_dev_pix_fmt = dev,
      vf_pix_fmt_8bit = AV_PIX_FMT_NV12, vf_pix_fmt_10bit = AV_PIX_FMT_P010, vf_pix_fmt_yuv444_8bit = AV_PIX_FMT_NONE,
      vf_pix_fmt_yuv444_10bit = AV_PIX_FMT_NONE\<rparr>"

definition vaapi :: encoder_t where
  "vaapi =
     \<lparr>en_name = ''vaapi'', en_platform_formats = plain_formats AV_HWDEVICE_TYPE_VAAPI AV_PIX_FMT_VAAPI,
      en_av1 = codec_of ''av1_vaapi'' [(''async_depth'', Opt_int 1), (''idr_interval'', Opt_int INT_MAX)],
      en_hevc = codec_of ''hevc_vaapi'' [(''async_depth'', Opt_int 1), (''sei'', Opt_int 0), (''idr_interval'', Opt_int INT_MAX)],
      en_h264 = codec_of ''h264_vaapi'' [(''async_depth'', Opt_int 1), (''sei'', Opt_int 0), (''idr_interval'', Opt_int INT_MAX)],
      en_flags = LIMITED_GOP_SIZE OR PARALLEL_ENCODING OR NO_RC_BUF_LIMIT\<rparr>"

definition vulkan_options :: "option_t list" where
  "vulkan_options =
     [(''idr_interval'', Opt_int INT_MAX), (''tune'', Opt_setting es_vk_tune), (''rc_mode'', Opt_setting es_vk_rc_mode),
      (''units'', Opt_int 0), (''usage'', Opt_text ''stream''), (''content'', Opt_text ''rendered''), (''async_depth'', Opt_int 1)]"

definition vulkan :: encoder_t where
  "vulkan =
     \<lparr>en_name = ''vulkan'', en_platform_formats = plain_formats AV_HWDEVICE_TYPE_VULKAN AV_PIX_FMT_VULKAN,
      en_av1 = codec_of ''av1_vulkan'' vulkan_options, en_hevc = codec_of ''hevc_vulkan'' vulkan_options,
      en_h264 = codec_of ''h264_vulkan'' vulkan_options, en_flags = LIMITED_GOP_SIZE OR PARALLEL_ENCODING\<rparr>"

definition videotoolbox_options :: "option_t list" where
  "videotoolbox_options =
     [(''allow_sw'', Opt_setting es_vt_allow_sw), (''require_sw'', Opt_setting es_vt_require_sw),
      (''realtime'', Opt_setting es_vt_realtime), (''prio_speed'', Opt_int 1), (''max_ref_frames'', Opt_int 1)]"

definition videotoolbox :: encoder_t where
  "videotoolbox =
     \<lparr>en_name = ''videotoolbox'', en_platform_formats = plain_formats AV_HWDEVICE_TYPE_VIDEOTOOLBOX AV_PIX_FMT_VIDEOTOOLBOX,
      en_av1 = codec_of ''av1_videotoolbox'' videotoolbox_options,
      en_hevc = codec_of ''hevc_videotoolbox'' videotoolbox_options,
      en_h264 = (codec_of ''h264_videotoolbox'' videotoolbox_options)\<lparr>cd_fallback_options := [(''flags'', Opt_text ''-low_delay'')]\<rparr>,
      en_flags = 0\<rparr>"

text \<open>The list in order of preference; \<open>with_vulkan\<close> is \<^verbatim>\<open>SUNSHINE_BUILD_VULKAN\<close>.\<close>

datatype operating_system = Windows | Linux | Apple

definition encoders :: "operating_system \<Rightarrow> bool \<Rightarrow> encoder_t list" where
  "encoders os with_vulkan =
     (case os of
        Windows \<Rightarrow> [nvenc_windows, quicksync, amdvce, mediafoundation, software]
      | Linux \<Rightarrow> nvenc # (if with_vulkan then [vulkan] else []) @ [vaapi, software]
      | Apple \<Rightarrow> [videotoolbox, software])"

end
