(* ===== verification/Video_Session.thy ===== *)
theory Video_Session
  imports Encoder_Tables
begin

text \<open>
  Opening an encoder, \<^verbatim>\<open>make_encode_device\<close>, \<^verbatim>\<open>make_avcodec_encode_session\<close> and \<^verbatim>\<open>make_encode_session\<close> of
  \<^verbatim>\<open>src/video.cpp\<close>: the context FFmpeg gets, with its options, and the second attempt with the
  fallback options.
\<close>

unbundle bit_operations_syntax

section \<open>Numbers\<close>

text \<open>The division of numbers of 32 bits, undefined if the quotient does not fit.\<close>

definition int_div :: "int \<Rightarrow> int \<Rightarrow> int option" where
  "int_div a b = (if b = 0 then None else int_of (cxx_div a b))"

text \<open>
  \<open>d2q\<close> is \<^verbatim>\<open>av_d2q\<close> of a hundredth of its argument, with a maximum of \<open>2 ^ 26\<close>. The argument is positive where
  it is called, so that numerator and denominator are positive and at most the maximum; an answer outside
  of these bounds, which FFmpeg does not give, is taken as the next one inside.
\<close>

definition rational_within :: "int \<times> int \<Rightarrow> int \<times> int" where
  "rational_within q = (min (2 ^ 26) (max 1 (fst q)), min (2 ^ 26) (max 1 (snd q)))"

definition framerateX100_to_rational :: "(int \<Rightarrow> int \<times> int) \<Rightarrow> int \<Rightarrow> (int \<times> int) option" where
  "framerateX100_to_rational d2q framerateX100 =
     (if framerateX100 mod 2997 = 0 then map_option (\<lambda>n. (n, 1001)) (int_of ((framerateX100 div 2997) * 30000))
      else if framerateX100 = 2397 \<or> framerateX100 = 2398 then Some (24000, 1001)
      else Some (rational_within (d2q framerateX100)))"

section \<open>The context\<close>

datatype av_profile =
    AV_PROFILE_H264_HIGH | AV_PROFILE_H264_HIGH_444_PREDICTIVE | AV_PROFILE_HEVC_MAIN | AV_PROFILE_HEVC_MAIN_10
  | AV_PROFILE_HEVC_REXT | AV_PROFILE_AV1_MAIN | AV_PROFILE_AV1_HIGH

text \<open>The values of an option that is set: a number, a named constant or a text.\<close>

datatype dict_value = Dict_int int | Dict_constant string | Dict_text string

record av_context =
  av_width :: int
  av_height :: int
  av_time_base :: "int \<times> int"
  av_framerate :: "int \<times> int"
  av_profile :: "av_profile option"
  av_max_b_frames :: int
  av_gop_size :: int
  av_keyint_min :: int
  av_refs :: "int option"
  av_color :: avcodec_colorspace
  av_sw_pix_fmt :: av_pix_fmt
  av_pix_fmt :: av_pix_fmt
  av_slices :: int
  av_thread_count :: int
  av_rc_max_rate :: int
  av_bit_rate :: int
  av_rc_min_rate :: "int option"
  av_unofficial :: bool
  av_rc_buffer_size :: "int option"
  av_options :: "(string \<times> dict_value) list"

text \<open>What an option sets, possibly nothing; \<open>None\<close> is undefined behaviour of its function.\<close>

definition option_setting :: "encoder_settings \<Rightarrow> stream_config \<Rightarrow> option_value \<Rightarrow> dict_value option option" where
  "option_setting settings config v =
     (case v of
        Opt_int n \<Rightarrow> Some (Some (Dict_int n))
      | Opt_constant name \<Rightarrow> Some (Some (Dict_constant name))
      | Opt_setting f \<Rightarrow> Some (Some (Dict_int (f settings)))
      | Opt_optional f \<Rightarrow> Some (map_option Dict_int (f settings))
      | Opt_function f \<Rightarrow> Some (Some (Dict_int (f settings)))
      | Opt_text text \<Rightarrow> Some (Some (Dict_text text))
      | Opt_text_setting f \<Rightarrow> Some (if f settings \<noteq> [] then Some (Dict_text (f settings)) else None)
      | Opt_config g \<Rightarrow> map_option (Some \<circ> Dict_text) (config_function_value g config))"

fun handle_options :: "encoder_settings \<Rightarrow> stream_config \<Rightarrow> option_t list \<Rightarrow> (string \<times> dict_value) list
    \<Rightarrow> (string \<times> dict_value) list option" where
  "handle_options settings config [] options = Some options"
| "handle_options settings config (opt # opts) options =
     (case option_setting settings config (snd opt) of
        None \<Rightarrow> None
      | Some None \<Rightarrow> handle_options settings config opts options
      | Some (Some v) \<Rightarrow> handle_options settings config opts (AList.update (fst opt) v options))"

definition chosen_options :: "stream_config \<Rightarrow> codec_t \<Rightarrow> nat \<Rightarrow> option_t list" where
  "chosen_options config codec retries =
     (let hdr = sc_dynamicRange config \<noteq> 0
      in cd_common_options codec @ (if hdr then cd_hdr_options codec else cd_sdr_options codec) @
         (if sc_chromaSamplingType config = 1 then (if hdr then cd_hdr444_options codec else cd_sdr444_options codec) else []) @
         (if 0 < retries then cd_fallback_options codec else []))"

definition codec_options :: "encoder_settings \<Rightarrow> stream_config \<Rightarrow> codec_t \<Rightarrow> nat \<Rightarrow> (string \<times> dict_value) list option" where
  "codec_options settings config codec retries = handle_options settings config (chosen_options config codec retries) []"

definition choose_sw_fmt :: "avcodec_formats \<Rightarrow> sunshine_colorspace \<Rightarrow> stream_config \<Rightarrow> av_pix_fmt" where
  "choose_sw_fmt f c config =
     (if cp_bit_depth c = 8 \<and> sc_chromaSamplingType config = 0 then vf_pix_fmt_8bit f
      else if cp_bit_depth c = 8 \<and> sc_chromaSamplingType config = 1 then vf_pix_fmt_yuv444_8bit f
      else if cp_bit_depth c = 10 \<and> sc_chromaSamplingType config = 0 then vf_pix_fmt_10bit f
      else if cp_bit_depth c = 10 \<and> sc_chromaSamplingType config = 1 then vf_pix_fmt_yuv444_10bit f
      else AV_PIX_FMT_NONE)"

text \<open>\<open>None\<close> is the failed assertion that H.264 is not used with HDR; another format sets no profile.\<close>

definition choose_profile :: "stream_config \<Rightarrow> av_profile option option" where
  "choose_profile config =
     (let yuv444 = (sc_chromaSamplingType config = 1); hdr = (sc_dynamicRange config \<noteq> 0)
      in if sc_videoFormat config = 0
         then if hdr then None else Some (Some (if yuv444 then AV_PROFILE_H264_HIGH_444_PREDICTIVE else AV_PROFILE_H264_HIGH))
         else if sc_videoFormat config = 1
         then Some (Some (if yuv444 then AV_PROFILE_HEVC_REXT else if hdr then AV_PROFILE_HEVC_MAIN_10 else AV_PROFILE_HEVC_MAIN))
         else if sc_videoFormat config = 2
         then Some (Some (if yuv444 then AV_PROFILE_AV1_HIGH else AV_PROFILE_AV1_MAIN))
         else Some None)"

text \<open>The size of the buffer for the rate control; \<open>None\<close> is undefined.\<close>

definition rc_buffer :: "encoder_settings \<Rightarrow> encoder_t \<Rightarrow> bool \<Rightarrow> stream_config \<Rightarrow> int \<Rightarrow> int \<Rightarrow> int option" where
  "rc_buffer settings e hardware config slices bitrate =
     (if \<not> hardware \<and> (1 < slices \<or> sc_videoFormat config = 1)
      then Option.bind (int_of (sc_framerate config * 10)) (\<lambda>x. Option.bind (int_div x 15) (int_div bitrate))
      else Option.bind (int_div bitrate (sc_framerate config)) (\<lambda>size.
        if en_name e = ''nvenc'' \<and> 0 < es_nv_vbv_percentage_increase settings
        then Option.bind (int_of (size * es_nv_vbv_percentage_increase settings)) (\<lambda>p.
          Option.bind (int_div p 100) (\<lambda>more. int_of (size + more)))
        else Some size))"

definition session_bitrate :: "encoder_settings \<Rightarrow> stream_config \<Rightarrow> int option" where
  "session_bitrate settings config =
     int_of ((if 0 < es_max_bitrate settings then min (sc_bitrate config) (es_max_bitrate settings) else sc_bitrate config) * 1000)"

definition INT16_MAX :: int where "INT16_MAX = 2 ^ 15 - 1"

text \<open>What is computed before the hardware is set up: frame rate, profile and colours; \<open>None\<close> is undefined.\<close>

definition context_start :: "(int \<Rightarrow> int \<times> int) \<Rightarrow> sunshine_colorspace \<Rightarrow> stream_config
    \<Rightarrow> ((int \<times> int) \<times> av_profile option \<times> avcodec_colorspace) option" where
  "context_start d2q c config =
     (case (if 0 < sc_framerateX100 config then framerateX100_to_rational d2q (sc_framerateX100 config)
          else Some (sc_framerate config, 1), choose_profile config, avcodec_colorspace_from_sunshine_colorspace c) of
        (Some framerate, Some profile, Some color) \<Rightarrow> Some (framerate, profile, color)
      | _ \<Rightarrow> None)"

text \<open>The context of one attempt; \<open>None\<close> is undefined behaviour.\<close>

definition session_context :: "(int \<Rightarrow> int \<times> int) \<Rightarrow> encoder_settings \<Rightarrow> encoder_t \<Rightarrow> avcodec_formats \<Rightarrow> sunshine_colorspace
    \<Rightarrow> stream_config \<Rightarrow> nat \<Rightarrow> av_context option" where
  "session_context d2q settings e f c config retries =
     (let hardware = (vf_base_dev_type f \<noteq> AV_HWDEVICE_TYPE_NONE); codec = codec_from_config e config;
          slices = (if has_flag e SINGLE_SLICE_ONLY then 1
            else if hardware then sc_slicesPerFrame config else max (sc_slicesPerFrame config) (es_min_threads settings))
      in case (context_start d2q c config, codec_options settings config codec retries, session_bitrate settings config) of
           (Some (framerate, profile, color), Some options, Some bitrate) \<Rightarrow>
             (case (if has_flag e NO_RC_BUF_LIMIT then Some None
                else map_option Some (rc_buffer settings e hardware config slices bitrate)) of
                None \<Rightarrow> None
              | Some buffer \<Rightarrow>
                  Some \<lparr>av_width = sc_width config, av_height = sc_height config,
                    av_time_base = (snd framerate, fst framerate), av_framerate = framerate,
                    av_profile = profile, av_max_b_frames = 0,
                    av_gop_size = (if has_flag e FIXED_GOP_SIZE then 120
                      else if has_flag e LIMITED_GOP_SIZE then INT16_MAX else INT_MAX),
                    av_keyint_min = (if has_flag e FIXED_GOP_SIZE then 120 else INT_MAX),
                    av_refs = (if sc_numRefFrames config \<noteq> 0 \<and> cd_ref_frames_restrict codec then Some (sc_numRefFrames config) else None),
                    av_color = color, av_sw_pix_fmt = choose_sw_fmt f c config,
                    av_pix_fmt = (if hardware then vf_dev_pix_fmt f else choose_sw_fmt f c config),
                    av_slices = slices, av_thread_count = slices, av_rc_max_rate = bitrate,
                    av_bit_rate = (if has_flag e CBR_WITH_VBR then bitrate - 1 else bitrate),
                    av_rc_min_rate = (if has_flag e CBR_WITH_VBR then None else Some bitrate),
                    av_unofficial = has_flag e RELAXED_COMPLIANCE, av_rc_buffer_size = buffer,
                    av_options = options\<rparr>)
         | _ \<Rightarrow> None)"

section \<open>Options of the devices\<close>

text \<open>
  \<^verbatim>\<open>init_codec_options\<close> of the devices: VAAPI's and Vulkan's change the context and the options before the
  encoder is opened, the others leave them. The answers of VAAPI: the profiles and, for each, the entry points
  it supports, the name of the vendor, whether an entry point controls the rate with VBR and with CBR and how
  many slices it makes; \<open>None\<close> is a failed query.
\<close>

datatype av_codec_id = AV_CODEC_ID_H264 | AV_CODEC_ID_HEVC | AV_CODEC_ID_AV1 | AV_CODEC_ID_other

datatype va_profile =
    VAProfileH264High | VAProfileHEVCMain444_10 | VAProfileHEVCMain444 | VAProfileHEVCMain10 | VAProfileHEVCMain
  | VAProfileAV1Profile1 | VAProfileAV1Profile0

datatype va_entrypoint = VAEntrypointEncSliceLP | VAEntrypointEncSlice | VAEntrypointEncPicture | VAEntrypoint_other

record va_display =
  va_profiles :: "va_profile list option"
  va_entrypoints :: "va_profile \<Rightarrow> va_entrypoint list option"
  va_vendor :: "string option"
  va_rate_control :: "va_profile \<Rightarrow> va_entrypoint \<Rightarrow> (bool \<times> bool) option"
  va_max_slices :: "va_profile \<Rightarrow> va_entrypoint \<Rightarrow> u32 option"

definition select_va_entrypoint :: "va_display \<Rightarrow> va_profile \<Rightarrow> va_entrypoint option" where
  "select_va_entrypoint va profile =
     (case va_entrypoints va profile of
        None \<Rightarrow> None
      | Some entrypoints \<Rightarrow>
          find (\<lambda>ep. ep \<in> set entrypoints) [VAEntrypointEncSliceLP, VAEntrypointEncSlice, VAEntrypointEncPicture])"

definition is_va_profile_supported :: "va_display \<Rightarrow> va_profile \<Rightarrow> bool" where
  "is_va_profile_supported va profile = (case va_profiles va of None \<Rightarrow> False | Some profiles \<Rightarrow> profile \<in> set profiles)"

text \<open>
  \<open>depth\<close> is that of the first component of a format. FFmpeg has none for no format; the VAAPI encoder has no
  4:4:4 support, so that it is not asked for it.
\<close>

definition get_va_profile :: "(av_pix_fmt \<Rightarrow> int) \<Rightarrow> av_codec_id \<Rightarrow> av_context \<Rightarrow> va_profile option" where
  "get_va_profile depth codec_id ctx =
     (case codec_id of
        AV_CODEC_ID_H264 \<Rightarrow> Some VAProfileH264High
      | AV_CODEC_ID_HEVC \<Rightarrow>
          if av_profile ctx = Some AV_PROFILE_HEVC_REXT
          then (if depth (av_sw_pix_fmt ctx) = 10 then Some VAProfileHEVCMain444_10
                else if depth (av_sw_pix_fmt ctx) = 8 then Some VAProfileHEVCMain444 else None)
          else if av_profile ctx = Some AV_PROFILE_HEVC_MAIN_10 then Some VAProfileHEVCMain10
          else if av_profile ctx = Some AV_PROFILE_HEVC_MAIN then Some VAProfileHEVCMain else None
      | AV_CODEC_ID_AV1 \<Rightarrow>
          if av_profile ctx = Some AV_PROFILE_AV1_HIGH then Some VAProfileAV1Profile1
          else if av_profile ctx = Some AV_PROFILE_AV1_MAIN then Some VAProfileAV1Profile0 else None
      | AV_CODEC_ID_other \<Rightarrow> None)"

text \<open>The buffer of a single frame: a product of 64 bits, and a quotient that is cut to 32.\<close>

definition single_frame_buffer :: "int \<Rightarrow> int \<times> int \<Rightarrow> int option" where
  "single_frame_buffer bit_rate framerate =
     (let bits = bit_rate * snd framerate
      in if fst framerate = 0 \<or> bits < - (2 ^ 63) \<or> 2 ^ 63 \<le> bits then None
         else Some (sint (of_int (cxx_div bits (fst framerate)) :: u32)))"

definition va_init_codec_options :: "va_display \<Rightarrow> (av_pix_fmt \<Rightarrow> int) \<Rightarrow> encoder_settings \<Rightarrow> av_codec_id \<Rightarrow> av_context
    \<Rightarrow> av_context option" where
  "va_init_codec_options va depth settings codec_id ctx =
     (case get_va_profile depth codec_id ctx of
        None \<Rightarrow> Some ctx
      | Some profile \<Rightarrow>
          if \<not> is_va_profile_supported va profile then Some ctx
          else case select_va_entrypoint va profile of
            None \<Rightarrow> Some ctx
          | Some entrypoint \<Rightarrow>
              let options = (if entrypoint = VAEntrypointEncSliceLP then AList.update ''low_power'' (Dict_int 1) (av_options ctx)
                    else av_options ctx);
                  (vbr, cbr) = (case va_rate_control va profile entrypoint of None \<Rightarrow> (False, False) | Some rc \<Rightarrow> rc);
                  max_slices = (case va_max_slices va profile entrypoint of None \<Rightarrow> 1 | Some n \<Rightarrow> n);
                  ctx = ctx\<lparr>av_slices := (if max_slices < of_int (av_slices ctx) then sint max_slices else av_slices ctx)\<rparr>
              in if es_va_strict_rc_buffer settings \<or>
                    (case va_vendor va of None \<Rightarrow> False | Some vendor \<Rightarrow> contains_at ''Intel'' vendor) \<or> codec_id = AV_CODEC_ID_AV1
                 then map_option (\<lambda>size. ctx\<lparr>av_rc_buffer_size := Some size, av_options :=
                        (if vbr then AList.update ''rc_mode'' (Dict_text ''VBR'') options
                         else if cbr then AList.update ''rc_mode'' (Dict_text ''CBR'') options
                         else AList.update ''qp'' (Dict_int (es_qp settings)) options)\<rparr>)
                      (single_frame_buffer (av_bit_rate ctx) (av_framerate ctx))
                 else if \<not> cbr \<and> \<not> vbr then Some (ctx\<lparr>av_options := AList.update ''qp'' (Dict_int (es_qp settings)) options\<rparr>)
                 else Some (ctx\<lparr>av_options := options\<rparr>))"

definition vk_init_codec_options :: "encoder_settings \<Rightarrow> av_context \<Rightarrow> av_context" where
  "vk_init_codec_options settings ctx = (if es_vk_rc_mode settings = 4 then ctx\<lparr>av_rc_min_rate := Some 0\<rparr> else ctx)"

section \<open>Devices and sessions\<close>

text \<open>
  The answers of the display and of FFmpeg: whether the display is in HDR mode and supports a codec,
  whether a device can be made for a format, FFmpeg knows the encoder, hardware contexts can be set up,
  the encoder opens with a context and the frames can be set up. Of the native NVENC encoder, whether it starts.
  FFmpeg also tells which codec an encoder is for and the depth of a format.
\<close>

record display_env =
  de_is_hdr :: bool
  de_codec_supported :: "string \<Rightarrow> stream_config \<Rightarrow> bool"
  de_make_device :: "encoder_t \<Rightarrow> pix_fmt_e \<Rightarrow> bool"
  de_find_encoder :: "string \<Rightarrow> bool"
  de_hardware_ready :: "encoder_t \<Rightarrow> stream_config \<Rightarrow> bool"
  de_open :: "string \<Rightarrow> av_context \<Rightarrow> bool"
  de_frames_ready :: "encoder_t \<Rightarrow> stream_config \<Rightarrow> bool"
  de_init_nvenc :: "stream_config \<Rightarrow> sunshine_colorspace \<Rightarrow> bool"
  de_d2q :: "int \<Rightarrow> int \<times> int"
  de_codec_id :: "string \<Rightarrow> av_codec_id"
  de_depth :: "av_pix_fmt \<Rightarrow> int"
  de_va :: va_display

text \<open>The format of the device, if the encoder can do it.\<close>

definition device_pix_fmt :: "encoder_t \<Rightarrow> stream_config \<Rightarrow> sunshine_colorspace \<Rightarrow> pix_fmt_e option" where
  "device_pix_fmt e config c =
     (let f = en_platform_formats e
      in if sc_chromaSamplingType config = 1
         then if \<not> has_flag e YUV444_SUPPORT then None
              else Some (if cp_bit_depth c = 10 then ef_pix_fmt_yuv444_10bit f else ef_pix_fmt_yuv444_8bit f)
         else Some (if cp_bit_depth c = 10 then ef_pix_fmt_10bit f else ef_pix_fmt_8bit f))"

text \<open>A device is known by its colour space.\<close>

definition make_encode_device :: "display_env \<Rightarrow> encoder_t \<Rightarrow> stream_config \<Rightarrow> sunshine_colorspace option" where
  "make_encode_device d e config =
     (let c = colorspace_from_client_config config (de_is_hdr d)
      in case device_pix_fmt e config c of
           None \<Rightarrow> None
         | Some pix_fmt \<Rightarrow> if de_make_device d e pix_fmt then Some c else None)"

datatype encode_session = Avcodec_session av_context int | Nvenc_session

datatype 'a session_result = Session 'a | No_session | Session_undefined

text \<open>
  Whether the headers of the first packet are replaced: 1 for H.264, 2 for HEVC, 0 for no replacement.
\<close>

definition inject_headers :: "codec_t \<Rightarrow> stream_config \<Rightarrow> int" where
  "inject_headers codec config =
     (if sc_videoFormat config \<le> 1 then (1 - of_bool (cd_vui_parameters codec)) * (1 + sc_videoFormat config) else 0)"

definition refuses_config :: "display_env \<Rightarrow> encoder_t \<Rightarrow> stream_config \<Rightarrow> bool" where
  "refuses_config d e config \<longleftrightarrow>
     (let codec = codec_from_config e config
      in \<not> cd_passed codec \<or> \<not> de_codec_supported d (cd_name codec) config \<or>
         sc_dynamicRange config \<noteq> 0 \<and> \<not> cd_dynamic_range codec \<or>
         sc_chromaSamplingType config = 1 \<and> \<not> cd_yuv444 codec \<or>
         \<not> de_find_encoder d (cd_name codec))"

text \<open>The device is that of the encoder's memory; only those of VAAPI and Vulkan have options of their own.\<close>

definition init_codec_options :: "display_env \<Rightarrow> encoder_settings \<Rightarrow> encoder_t \<Rightarrow> stream_config \<Rightarrow> av_context \<Rightarrow> av_context option" where
  "init_codec_options d settings e config ctx =
     (case ef_dev_type (en_platform_formats e) of
        Mem_vaapi \<Rightarrow> va_init_codec_options (de_va d) (de_depth d) settings (de_codec_id d (cd_name (codec_from_config e config))) ctx
      | Mem_vulkan \<Rightarrow> Some (vk_init_codec_options settings ctx)
      | _ \<Rightarrow> Some ctx)"

text \<open>
  The loop over the attempts: the context that was opened. The hardware is set up before the options and the
  rates are computed, and the device changes them last.
\<close>

definition attempt_context :: "display_env \<Rightarrow> encoder_settings \<Rightarrow> encoder_t \<Rightarrow> avcodec_formats \<Rightarrow> sunshine_colorspace \<Rightarrow> stream_config
    \<Rightarrow> nat \<Rightarrow> av_context option" where
  "attempt_context d settings e f c config retries =
     Option.bind (session_context (de_d2q d) settings e f c config retries) (init_codec_options d settings e config)"

definition open_context :: "display_env \<Rightarrow> encoder_settings \<Rightarrow> encoder_t \<Rightarrow> avcodec_formats \<Rightarrow> sunshine_colorspace \<Rightarrow> stream_config
    \<Rightarrow> av_context session_result" where
  "open_context d settings e f c config =
     (let codec = codec_from_config e config
      in if context_start (de_d2q d) c config = None then Session_undefined
         else if vf_base_dev_type f \<noteq> AV_HWDEVICE_TYPE_NONE \<and> \<not> de_hardware_ready d e config then No_session
         else case attempt_context d settings e f c config 0 of
           None \<Rightarrow> Session_undefined
         | Some ctx \<Rightarrow>
             if de_open d (cd_name codec) ctx then Session ctx
             else if cd_fallback_options codec = [] then No_session
             else case attempt_context d settings e f c config 1 of
               None \<Rightarrow> Session_undefined
             | Some ctx \<Rightarrow> if de_open d (cd_name codec) ctx then Session ctx else No_session)"

definition make_avcodec_encode_session :: "display_env \<Rightarrow> encoder_settings \<Rightarrow> encoder_t \<Rightarrow> stream_config \<Rightarrow> sunshine_colorspace
    \<Rightarrow> encode_session session_result" where
  "make_avcodec_encode_session d settings e config c =
     (case ef_avcodec (en_platform_formats e) of
        None \<Rightarrow> No_session
      | Some f \<Rightarrow>
          if refuses_config d e config then No_session
          else (case open_context d settings e f c config of
              Session ctx \<Rightarrow>
                if de_frames_ready d e config
                then Session (Avcodec_session ctx (inject_headers (codec_from_config e config) config))
                else No_session
            | No_session \<Rightarrow> No_session
            | Session_undefined \<Rightarrow> Session_undefined))"

definition make_nvenc_encode_session :: "display_env \<Rightarrow> stream_config \<Rightarrow> sunshine_colorspace \<Rightarrow> encode_session session_result" where
  "make_nvenc_encode_session d config c = (if de_init_nvenc d config c then Session Nvenc_session else No_session)"

definition make_encode_session :: "display_env \<Rightarrow> encoder_settings \<Rightarrow> encoder_t \<Rightarrow> stream_config \<Rightarrow> sunshine_colorspace
    \<Rightarrow> encode_session session_result" where
  "make_encode_session d settings e config c =
     (if ef_avcodec (en_platform_formats e) \<noteq> None then make_avcodec_encode_session d settings e config c
      else make_nvenc_encode_session d config c)"

end
