(* ===== verification/Video_Probe.thy ===== *)
theory Video_Probe
  imports Video_Session
begin

text \<open>
  The choice of the encoder, \<^verbatim>\<open>validate_config\<close>, \<^verbatim>\<open>validate_encoder\<close> and \<^verbatim>\<open>probe_encoders\<close> of
  \<^verbatim>\<open>src/video.cpp\<close>, over a table of encoders and a list of references into it. Displays, devices and
  FFmpeg answer the same while the encoders are probed.
\<close>

unbundle bit_operations_syntax

section \<open>Validation\<close>

text \<open>
  The environment of a probe: whether a display opens for a memory type and a configuration in the first
  or second attempt, what it answers, whether an image can be converted, and the first packet of the test: \<open>None\<close> if
  encoding fails before there is one, otherwise whether it is an IDR frame and whether its headers are good.
\<close>

record probe_env =
  pe_settings :: encoder_settings
  pe_hevc_mode :: int
  pe_av1_mode :: int
  pe_encoder :: string
  pe_force_header_replace :: bool
  pe_allowed :: bool
  pe_needs_reenumeration :: bool
  pe_opens :: "mem_type_e \<Rightarrow> stream_config \<Rightarrow> nat \<Rightarrow> bool"
  pe_display :: display_env
  pe_convert :: "encoder_t \<Rightarrow> stream_config \<Rightarrow> bool"
  pe_packet :: "encoder_t \<Rightarrow> stream_config \<Rightarrow> (bool \<times> bool) option"

text \<open>\<^verbatim>\<open>reset_display\<close> tries twice.\<close>

definition reset_display :: "probe_env \<Rightarrow> encoder_t \<Rightarrow> stream_config \<Rightarrow> bool" where
  "reset_display env e config = list_ex (pe_opens env (ef_dev_type (en_platform_formats e)) config) [0, 1]"

definition VUI_PARAMS :: int where "VUI_PARAMS = 1"

text \<open>The flags or -1; \<open>None\<close> is undefined behaviour while the session is made.\<close>

definition validate_config :: "probe_env \<Rightarrow> encoder_t \<Rightarrow> stream_config \<Rightarrow> int option" where
  "validate_config env e config =
     (case make_encode_device (pe_display env) e config of
        None \<Rightarrow> Some (-1)
      | Some c \<Rightarrow>
          (case make_encode_session (pe_display env) (pe_settings env) e config c of
             Session_undefined \<Rightarrow> None
           | No_session \<Rightarrow> Some (-1)
           | Session session \<Rightarrow>
               if \<not> pe_convert env e config then Some (-1)
               else (case pe_packet env e config of
                   None \<Rightarrow> Some (-1)
                 | Some (idr, good_sps) \<Rightarrow>
                     if \<not> idr then Some (-1)
                     else if sc_videoFormat config \<le> 1 \<and> (session = Nvenc_session \<or> good_sps) then Some VUI_PARAMS
                     else Some 0)))"

text \<open>\<open>video_config\<close> fills the fields of \<^verbatim>\<open>config_t\<close> of the video in their order.\<close>

definition video_config_t :: "int list \<Rightarrow> stream_config" where
  "video_config_t vs =
     \<lparr>sc_channels = 0, sc_mask = 0, sc_packetDuration = 0, sc_customStreamParams = no_stream_params, sc_HIGH_QUALITY = False,
      sc_HOST_AUDIO = False, sc_CUSTOM_SURROUND_PARAMS = False, sc_CONTINUOUS_AUDIO = False, sc_controlProtocolType = 0,
      sc_packetsize = 0, sc_minRequiredFecPackets = 0, sc_mlFeatureFlags = 0, sc_audioQosType = 0, sc_videoQosType = 0,
      sc_encryptionFlagsEnabled = 0, sc_height = vs ! 1, sc_width = vs ! 0, sc_framerate = vs ! 2, sc_framerateX100 = vs ! 3,
      sc_bitrate = vs ! 4, sc_slicesPerFrame = vs ! 5, sc_numRefFrames = vs ! 6, sc_encoderCscMode = vs ! 7,
      sc_videoFormat = vs ! 8, sc_dynamicRange = vs ! 9, sc_chromaSamplingType = vs ! 10, sc_enableIntraRefresh = 0\<rparr>"

definition config_max_ref_frames :: stream_config where
  "config_max_ref_frames = video_config_t [1920, 1080, 60, 6000, 1000, 1, 1, 1, 0, 0, 0]"

definition config_autoselect :: stream_config where
  "config_autoselect = video_config_t [1920, 1080, 60, 6000, 1000, 1, 0, 1, 0, 0, 0]"

definition config_h264_yuv444 :: stream_config where
  "config_h264_yuv444 = video_config_t [1920, 1080, 60, 6000, 1000, 1, 0, 1, 0, 0, 1]"

definition generic_hdr_config :: stream_config where
  "generic_hdr_config = video_config_t [1920, 1080, 60, 6000, 1000, 1, 0, 3, 1, 1, 0]"

definition set_all :: "bool \<Rightarrow> codec_t \<Rightarrow> codec_t" where
  "set_all b c = c\<lparr>cd_passed := b, cd_ref_frames_restrict := b, cd_dynamic_range := b, cd_yuv444 := b, cd_vui_parameters := b\<rparr>"

text \<open>The two flags that follow from a bit of the results; of -1 every bit is set.\<close>

definition has_vui :: "int \<Rightarrow> bool" where
  "has_vui r \<longleftrightarrow> r AND VUI_PARAMS \<noteq> 0"

definition judge_codec :: "int \<Rightarrow> int \<Rightarrow> codec_t \<Rightarrow> codec_t" where
  "judge_codec max_ref autoselect c =
     c\<lparr>cd_vui_parameters := (has_vui max_ref \<and> has_vui autoselect), cd_ref_frames_restrict := (0 \<le> max_ref),
       cd_passed := (0 \<le> max_ref \<or> 0 \<le> autoselect)\<rparr>"

text \<open>
  The test of HEVC or AV1; \<open>h264_max_ref\<close> is the result of H.264 with limited reference frames. The
  encoder is the one with the capabilities known so far.
\<close>

definition test_codec :: "probe_env \<Rightarrow> bool \<Rightarrow> int \<Rightarrow> int \<Rightarrow> encoder_t \<Rightarrow> codec_t \<Rightarrow> codec_t option" where
  "test_codec env tested video_format h264_max_ref e c =
     (let max_ref_config = config_max_ref_frames\<lparr>sc_videoFormat := video_format\<rparr>;
          autoselect_config = config_autoselect\<lparr>sc_videoFormat := video_format\<rparr>
      in if \<not> tested then Some (set_all False c)
         else if \<not> de_codec_supported (pe_display env) (cd_name c) autoselect_config then Some (set_all False c)
         else Option.bind (validate_config env e max_ref_config) (\<lambda>max_ref.
           map_option (\<lambda>autoselect. judge_codec max_ref autoselect c)
             (if 0 \<le> max_ref \<or> 0 \<le> h264_max_ref then Some max_ref else validate_config env e autoselect_config)))"

definition test_hdr_and_yuv444 :: "probe_env \<Rightarrow> int \<Rightarrow> encoder_t \<Rightarrow> codec_t \<Rightarrow> codec_t option" where
  "test_hdr_and_yuv444 env video_format e c =
     (let config = generic_hdr_config\<lparr>sc_videoFormat := video_format\<rparr>;
          works = (\<lambda>config. if de_codec_supported (pe_display env) (cd_name c) config
            then map_option (\<lambda>r. 0 \<le> r) (validate_config env e config) else Some False)
      in if \<not> cd_passed c then Some c
         else Option.bind (if has_flag e YUV444_SUPPORT then works (config\<lparr>sc_chromaSamplingType := 1\<rparr>) else Some False) (\<lambda>yuv444.
           if yuv444 then Some (c\<lparr>cd_dynamic_range := True, cd_yuv444 := True\<rparr>)
           else map_option (\<lambda>hdr. c\<lparr>cd_yuv444 := False, cd_dynamic_range := hdr\<rparr>) (works config)))"

text \<open>
  \<^verbatim>\<open>validate_encoder\<close>: whether the encoder works, and the encoder with its capabilities. Before the
  test every capability is set.
\<close>

definition fresh_encoder :: "encoder_t \<Rightarrow> encoder_t" where
  "fresh_encoder e = e\<lparr>en_h264 := set_all True (en_h264 e), en_hevc := set_all True (en_hevc e), en_av1 := set_all True (en_av1 e)\<rparr>"

definition tests_codec :: "int \<Rightarrow> encoder_t \<Rightarrow> bool" where
  "tests_codec mode e \<longleftrightarrow> 2 \<le> mode \<or> mode = 0 \<and> \<not> has_flag e H264_ONLY"

text \<open>The first part: H.264 and which of the other codecs pass at all; \<open>Inl\<close> when the encoder fails.\<close>

definition test_codecs :: "probe_env \<Rightarrow> int \<Rightarrow> int \<Rightarrow> bool \<Rightarrow> encoder_t \<Rightarrow> (encoder_t + encoder_t) option" where
  "test_codecs env hevc_mode av1_mode expect_failure e =
     Option.bind (if expect_failure then Some (-1) else validate_config env e config_max_ref_frames) (\<lambda>max_ref.
     Option.bind (if 0 \<le> max_ref then Some max_ref else validate_config env e config_autoselect) (\<lambda>autoselect.
       if autoselect < 0 then Some (Inl e)
       else Option.bind (if expect_failure then validate_config env e config_max_ref_frames else Some max_ref) (\<lambda>max_ref.
         let e = e\<lparr>en_h264 := judge_codec max_ref autoselect (en_h264 e)\<rparr>
         in Option.bind (test_codec env (tests_codec hevc_mode e) 1 max_ref e (en_hevc e)) (\<lambda>hevc.
            let e = e\<lparr>en_hevc := hevc\<rparr>
            in map_option (\<lambda>av1. Inr (e\<lparr>en_av1 := av1\<rparr>)) (test_codec env (tests_codec av1_mode e) 2 max_ref e (en_av1 e))))))"

text \<open>The second part: 4:4:4 and HDR.\<close>

definition test_formats :: "probe_env \<Rightarrow> encoder_t \<Rightarrow> (bool \<times> encoder_t) option" where
  "test_formats env e =
     Option.bind (if \<not> has_flag e YUV444_SUPPORT then Some False
         else if \<not> de_codec_supported (pe_display env) (cd_name (en_h264 e)) config_h264_yuv444 then Some False
         else map_option (\<lambda>r. 0 \<le> r) (validate_config env e config_h264_yuv444)) (\<lambda>yuv444.
       let e = e\<lparr>en_h264 := (en_h264 e)\<lparr>cd_yuv444 := yuv444\<rparr>\<rparr>
       in if \<not> reset_display env e generic_hdr_config then Some (False, e)
          else let e = e\<lparr>en_h264 := (en_h264 e)\<lparr>cd_dynamic_range := False\<rparr>\<rparr>
          in Option.bind (test_hdr_and_yuv444 env 1 e (en_hevc e)) (\<lambda>hevc.
             let e = e\<lparr>en_hevc := hevc\<rparr>
             in map_option (\<lambda>av1. (True, e\<lparr>en_av1 := av1\<rparr>)) (test_hdr_and_yuv444 env 2 e (en_av1 e))))"

definition force_headers :: "bool \<Rightarrow> encoder_t \<Rightarrow> encoder_t" where
  "force_headers force e =
     e\<lparr>en_h264 := (en_h264 e)\<lparr>cd_vui_parameters := cd_vui_parameters (en_h264 e) \<and> \<not> force\<rparr>,
       en_hevc := (en_hevc e)\<lparr>cd_vui_parameters := cd_vui_parameters (en_hevc e) \<and> \<not> force\<rparr>\<rparr>"

definition validate_encoder :: "probe_env \<Rightarrow> int \<Rightarrow> int \<Rightarrow> bool \<Rightarrow> encoder_t \<Rightarrow> (bool \<times> encoder_t) option" where
  "validate_encoder env hevc_mode av1_mode expect_failure e =
     (let e = fresh_encoder e
      in if \<not> reset_display env e config_autoselect then Some (False, e)
         else if \<not> de_codec_supported (pe_display env) (cd_name (en_h264 e)) config_autoselect then Some (False, e)
         else Option.bind (test_codecs env hevc_mode av1_mode expect_failure e) (\<lambda>r.
           case r of
             Inl e \<Rightarrow> Some (False, e)
           | Inr e \<Rightarrow> map_option (\<lambda>(ok, e). if ok then (True, force_headers (pe_force_header_replace env) e) else (False, e))
               (test_formats env e)))"

section \<open>The choice\<close>

record probe_state =
  pb_encoders :: "encoder_t list"
  pb_chosen :: "nat option"
  pb_hevc_mode :: int
  pb_av1_mode :: int
  pb_ref_frames_invalidation :: bool
  pb_yuv444 :: "bool \<times> bool \<times> bool"

definition adjust_mode :: "codec_t \<Rightarrow> int \<Rightarrow> int" where
  "adjust_mode c mode =
     (if mode = 3 \<and> \<not> cd_dynamic_range c then 0 else if mode = 2 \<and> \<not> cd_passed c then 0 else mode)"

definition adjust_encoder_constraints :: "nat \<Rightarrow> probe_state \<Rightarrow> probe_state" where
  "adjust_encoder_constraints i s =
     s\<lparr>pb_hevc_mode := adjust_mode (en_hevc (pb_encoders s ! i)) (pb_hevc_mode s),
       pb_av1_mode := adjust_mode (en_av1 (pb_encoders s ! i)) (pb_av1_mode s)\<rparr>"

text \<open>Validation of one encoder of the table; the second argument is the encoder chosen before.\<close>

definition validate_at :: "probe_env \<Rightarrow> nat option \<Rightarrow> nat \<Rightarrow> probe_state \<Rightarrow> (bool \<times> probe_state) option" where
  "validate_at env previous i s =
     map_option (\<lambda>(ok, e). (ok, s\<lparr>pb_encoders := (pb_encoders s)[i := e]\<rparr>))
       (validate_encoder env (pb_hevc_mode s) (pb_av1_mode s) (previous \<noteq> None \<and> previous \<noteq> Some i) (pb_encoders s ! i))"

text \<open>The three loops, each with the list of the encoders that are left.\<close>

fun probe_configured :: "probe_env \<Rightarrow> nat option \<Rightarrow> nat list \<Rightarrow> probe_state \<Rightarrow> (nat list \<times> probe_state) option" where
  "probe_configured env previous [] s = Some ([], s)"
| "probe_configured env previous (i # is) s =
     (if en_name (pb_encoders s ! i) = pe_encoder env
      then map_option (\<lambda>(ok, s). if ok then (i # is, (adjust_encoder_constraints i s)\<lparr>pb_chosen := Some i\<rparr>) else (is, s))
        (validate_at env previous i s)
      else map_option (\<lambda>(is, s). (i # is, s)) (probe_configured env previous is s))"

definition lacks_modes :: "probe_state \<Rightarrow> encoder_t \<Rightarrow> bool" where
  "lacks_modes s e \<longleftrightarrow>
     2 \<le> pb_hevc_mode s \<and> \<not> cd_passed (en_hevc e) \<or> 2 \<le> pb_av1_mode s \<and> \<not> cd_passed (en_av1 e) \<or>
     pb_hevc_mode s = 3 \<and> \<not> cd_dynamic_range (en_hevc e) \<or> pb_av1_mode s = 3 \<and> \<not> cd_dynamic_range (en_av1 e)"

fun probe_required :: "probe_env \<Rightarrow> nat option \<Rightarrow> nat list \<Rightarrow> probe_state \<Rightarrow> (nat list \<times> probe_state) option" where
  "probe_required env previous [] s = Some ([], s)"
| "probe_required env previous (i # is) s =
     Option.bind (validate_at env previous i s) (\<lambda>(ok, s).
       if \<not> ok then probe_required env previous is s
       else if lacks_modes s (pb_encoders s ! i)
       then map_option (\<lambda>(is, s). (i # is, s)) (probe_required env previous is s)
       else Some (i # is, s\<lparr>pb_chosen := Some i\<rparr>))"

fun probe_any :: "probe_env \<Rightarrow> nat option \<Rightarrow> nat list \<Rightarrow> probe_state \<Rightarrow> probe_state option" where
  "probe_any env previous [] s = Some s"
| "probe_any env previous (i # is) s =
     Option.bind (validate_at env previous i s) (\<lambda>(ok, s).
       if \<not> ok then probe_any env previous is s
       else Some ((adjust_encoder_constraints i s)\<lparr>pb_chosen := Some i\<rparr>))"

definition default_mode :: "codec_t \<Rightarrow> int \<Rightarrow> int" where
  "default_mode c mode = (if mode = 0 then if cd_passed c then if cd_dynamic_range c then 3 else 2 else 1 else mode)"

text \<open>What is published of the chosen encoder.\<close>

definition publish_encoder :: "nat \<Rightarrow> probe_state \<Rightarrow> probe_state" where
  "publish_encoder i s =
     (let e = pb_encoders s ! i; yuv444 = (\<lambda>c. cd_passed c \<and> cd_yuv444 c)
      in s\<lparr>pb_ref_frames_invalidation := has_flag e REF_FRAMES_INVALIDATION,
           pb_yuv444 := (yuv444 (en_h264 e), yuv444 (en_hevc e), yuv444 (en_av1 e)),
           pb_hevc_mode := default_mode (en_hevc e) (pb_hevc_mode s), pb_av1_mode := default_mode (en_av1 e) (pb_av1_mode s)\<rparr>)"

definition probe_encoders :: "probe_env \<Rightarrow> probe_state \<Rightarrow> (int \<times> probe_state) option" where
  "probe_encoders env s =
     (if \<not> pe_allowed env then Some (-1, s)
      else if (case pb_chosen s of None \<Rightarrow> False | Some i \<Rightarrow> \<not> has_flag (pb_encoders s ! i) ALWAYS_REPROBE) \<and> \<not> pe_needs_reenumeration env
      then Some (0, s)
      else let previous = pb_chosen s;
               s = s\<lparr>pb_chosen := None, pb_hevc_mode := pe_hevc_mode env, pb_av1_mode := pe_av1_mode env,
                 pb_ref_frames_invalidation := False\<rparr>;
               list = [0..<length (pb_encoders s)]
           in Option.bind (if pe_encoder env \<noteq> [] then probe_configured env previous list s else Some (list, s)) (\<lambda>(list, s).
              Option.bind (if pb_chosen s = None \<and> (2 \<le> pb_hevc_mode s \<or> 2 \<le> pb_av1_mode s)
                then probe_required env previous list s else Some (list, s)) (\<lambda>(list, s).
              map_option (\<lambda>s. case pb_chosen s of None \<Rightarrow> (-1, s) | Some i \<Rightarrow> (0, publish_encoder i s))
                (if pb_chosen s = None then probe_any env previous list s else Some s))))"

end
