(* ===== verification/Video_Props.thy ===== *)
theory Video_Props
  imports Video_Probe
begin

text \<open>
  Properties of the encoders: a session is opened without undefined behaviour and with consistent
  parameters, and the probe chooses the encoder the settings ask for.
\<close>

unbundle bit_operations_syntax

section \<open>Sessions\<close>

lemma int_of_Some: "int_of x = Some y \<longleftrightarrow> int32 x \<and> y = x"
  by (auto simp: int_of_def)

lemma int_of_small: "0 \<le> x \<Longrightarrow> x \<le> INT_MAX \<Longrightarrow> int_of x = Some x"
  by (simp add: int_of_def int32_def INT_MIN_def)

lemma cxx_div_nonneg: "0 \<le> a \<Longrightarrow> 0 < b \<Longrightarrow> cxx_div a b = a div b"
  by (simp add: cxx_div_def)

lemma int_div_small:
  assumes "0 \<le> a" "a \<le> INT_MAX" "0 < b"
  shows "int_div a b = Some (a div b)"
proof -
  have "a div b \<le> a" using assms by (metis div_by_1 int_one_le_iff_zero_less zdiv_mono2 zero_less_one)
  then show ?thesis
    using assms by (simp add: int_div_def cxx_div_nonneg int_of_small pos_imp_zdiv_nonneg_iff)
qed

text \<open>What the settings and a client's wishes must keep.\<close>

definition encoder_settings_ok :: "encoder_settings \<Rightarrow> bool" where
  "encoder_settings_ok settings \<longleftrightarrow> 0 \<le> es_nv_vbv_percentage_increase settings \<and> es_nv_vbv_percentage_increase settings \<le> 400"

definition request_ok :: "stream_config \<Rightarrow> bool" where
  "request_ok config \<longleftrightarrow>
     2 \<le> sc_framerate config \<and> sc_framerate config \<le> 1000 \<and> 0 \<le> sc_framerateX100 config \<and> sc_framerateX100 config \<le> 100000 \<and>
     0 \<le> sc_bitrate config \<and> sc_bitrate config \<le> 2000000 \<and> sc_bitrate config \<le> 5000 * sc_framerate config"

definition sent_rate :: "encoder_settings \<Rightarrow> stream_config \<Rightarrow> int" where
  "sent_rate settings config =
     (if 0 < es_max_bitrate settings then min (sc_bitrate config) (es_max_bitrate settings) else sc_bitrate config) * 1000"

lemma sent_rate_bounds:
  assumes "request_ok config"
  shows "0 \<le> sent_rate settings config" "sent_rate settings config \<le> 2000000000"
    "sent_rate settings config \<le> 5000000 * sc_framerate config"
  using assms by (auto simp: request_ok_def sent_rate_def min_def)

lemma session_bitrate_defined: "request_ok config \<Longrightarrow> session_bitrate settings config = Some (sent_rate settings config)"
  using sent_rate_bounds [of config settings]
  by (simp add: session_bitrate_def sent_rate_def int_of_small INT_MAX_def)

lemma framerate_defined:
  assumes "request_ok config" "0 < sc_framerateX100 config"
  shows "framerateX100_to_rational d2q (sc_framerateX100 config) \<noteq> None"
proof -
  have b: "0 \<le> sc_framerateX100 config div 2997 * 30000" "sc_framerateX100 config div 2997 * 30000 \<le> INT_MAX"
    using assms by (auto simp: request_ok_def INT_MAX_def)
  show ?thesis
    using int_of_small [OF b] by (auto simp: framerateX100_to_rational_def)
qed

text \<open>Whether the software encoder with several slices takes the longer buffer.\<close>

lemma rc_buffer_defined:
  assumes "request_ok config" "encoder_settings_ok settings"
  shows "rc_buffer settings e hardware config slices (sent_rate settings config) \<noteq> None"
proof -
  let ?f = "sc_framerate config" and ?r = "sent_rate settings config" and ?v = "es_nv_vbv_percentage_increase settings"
  have f: "2 \<le> ?f" "?f \<le> 1000" using assms by (auto simp: request_ok_def)
  have v: "0 \<le> ?v" "?v \<le> 400" using assms by (auto simp: encoder_settings_ok_def)
  note r = sent_rate_bounds [OF assms(1), of settings]
  have r_max: "?r \<le> INT_MAX" using r(2) by (simp add: INT_MAX_def)
  have size: "int_div ?r ?f = Some (?r div ?f)" using r f r_max by (intro int_div_small) auto
  have s0: "0 \<le> ?r div ?f" using r f by (simp add: pos_imp_zdiv_nonneg_iff)
  have s1: "?r div ?f \<le> 5000000"
  proof -
    have "?r div ?f \<le> (5000000 * ?f) div ?f" using r(3) f by (intro zdiv_mono1) auto
    then show ?thesis using f by simp
  qed
  have p: "0 \<le> ?r div ?f * ?v" "?r div ?f * ?v \<le> 2000000000"
    using s0 s1 v mult_mono [of "?r div ?f" 5000000 ?v 400] by auto
  have p_of: "int_of (?r div ?f * ?v) = Some (?r div ?f * ?v)" using p by (intro int_of_small) (auto simp: INT_MAX_def)
  have p_div: "int_div (?r div ?f * ?v) 100 = Some (?r div ?f * ?v div 100)" using p by (intro int_div_small) (auto simp: INT_MAX_def)
  have "?r div ?f * ?v div 100 \<le> 20000000" using p by linarith
  moreover have "0 \<le> ?r div ?f * ?v div 100" using p by simp
  ultimately have more: "int_of (?r div ?f + ?r div ?f * ?v div 100) = Some (?r div ?f + ?r div ?f * ?v div 100)"
    using s0 s1 by (intro int_of_small) (auto simp: INT_MAX_def)
  have ten: "int_of (?f * 10) = Some (?f * 10)" using f by (intro int_of_small) (auto simp: INT_MAX_def)
  have fifteen: "int_div (?f * 10) 15 = Some (?f * 10 div 15)" using f by (intro int_div_small) (auto simp: INT_MAX_def)
  have "0 < ?f * 10 div 15" using f by linarith
  then have long: "int_div ?r (?f * 10 div 15) = Some (?r div (?f * 10 div 15))" using r r_max by (intro int_div_small) auto
  show ?thesis
    by (simp add: rc_buffer_def size p_of p_div more ten fifteen long [simplified])
qed

lemma choose_profile_None: "choose_profile config = None \<longleftrightarrow> sc_videoFormat config = 0 \<and> sc_dynamicRange config \<noteq> 0"
  by (simp add: choose_profile_def Let_def)

lemma client_color_defined: "avcodec_colorspace_from_sunshine_colorspace (colorspace_from_client_config config hdr) \<noteq> None"
  by (simp add: avcodec_colorspace_from_sunshine_colorspace_def colorspace_from_client_config_def Let_def)

lemma client_bit_depth: "cp_bit_depth (colorspace_from_client_config config hdr) = (if sc_dynamicRange config = 0 then 8 else 10)"
  by (simp add: colorspace_from_client_config_def Let_def)

lemma context_start_defined:
  assumes "request_ok config" "sc_videoFormat config \<noteq> 0 \<or> sc_dynamicRange config = 0"
  shows "context_start d2q (colorspace_from_client_config config hdr) config \<noteq> None"
proof -
  obtain framerate where "(if 0 < sc_framerateX100 config then framerateX100_to_rational d2q (sc_framerateX100 config)
      else Some (sc_framerate config, 1)) = Some framerate"
    using framerate_defined [OF assms(1)] by fastforce
  moreover obtain profile where "choose_profile config = Some profile"
    using choose_profile_None [of config] assms(2) by fastforce
  moreover obtain color where "avcodec_colorspace_from_sunshine_colorspace (colorspace_from_client_config config hdr) = Some color"
    using client_color_defined by fastforce
  ultimately show ?thesis by (simp add: context_start_def)
qed

text \<open>An option is undefined only if it asks for the level of \<^verbatim>\<open>hevc_amf\<close> and the sizes overflow.\<close>

definition asks_level :: "encoder_t \<Rightarrow> stream_config \<Rightarrow> bool" where
  "asks_level e config \<longleftrightarrow>
     list_ex (\<lambda>opt. case snd opt of Opt_config g \<Rightarrow> True | _ \<Rightarrow> False) (chosen_options config (codec_from_config e config) 1)"

lemma option_setting_defined:
  "(case v of Opt_config g \<Rightarrow> amd_level config \<noteq> None | _ \<Rightarrow> True) \<Longrightarrow> option_setting settings config v \<noteq> None"
proof (cases v)
  case (Opt_config g)
  assume "case v of Opt_config g \<Rightarrow> amd_level config \<noteq> None | _ \<Rightarrow> True"
  then show ?thesis using Opt_config by (cases g) (auto simp: option_setting_def)
qed (simp_all add: option_setting_def)

lemma handle_options_defined:
  "list_ex (\<lambda>opt. case snd opt of Opt_config g \<Rightarrow> True | _ \<Rightarrow> False) opts \<longrightarrow> amd_level config \<noteq> None \<Longrightarrow>
   handle_options settings config opts options \<noteq> None"
proof (induction opts arbitrary: options)
  case (Cons opt opts)
  have "case snd opt of Opt_config g \<Rightarrow> amd_level config \<noteq> None | _ \<Rightarrow> True"
    using Cons.prems by (auto split: option_value.split)
  then obtain v where "option_setting settings config (snd opt) = Some v"
    using option_setting_defined by blast
  then show ?case using Cons by (cases v) auto
qed simp

lemma codec_options_defined:
  assumes "asks_level e config \<longrightarrow> amd_level config \<noteq> None"
  shows "codec_options settings config (codec_from_config e config) retries \<noteq> None"
  unfolding codec_options_def
  by (rule handle_options_defined) (use assms in \<open>auto simp: asks_level_def chosen_options_def Let_def split: if_splits\<close>)

lemma session_context_defined:
  assumes "request_ok config" "encoder_settings_ok settings" "asks_level e config \<longrightarrow> amd_level config \<noteq> None"
    and "context_start d2q c config \<noteq> None"
  shows "session_context d2q settings e f c config retries \<noteq> None"
proof -
  obtain start where "context_start d2q c config = Some start" using assms(4) by blast
  moreover obtain framerate profile color where "start = (framerate, profile, color)" by (cases start)
  moreover obtain options where "codec_options settings config (codec_from_config e config) retries = Some options"
    using codec_options_defined [OF assms(3)] by blast
  ultimately show ?thesis
    using rc_buffer_defined [OF assms(1,2)] session_bitrate_defined [OF assms(1), of settings]
    by (simp add: session_context_def Let_def del: not_None_eq split: option.split)
qed

text \<open>The frame rate of the context and the bits of a frame, which VAAPI's device computes once more.\<close>

lemma rational_within_bounds:
  "1 \<le> fst (rational_within q)" "1 \<le> snd (rational_within q)" "snd (rational_within q) \<le> 2 ^ 26"
  by (simp_all add: rational_within_def)

lemma framerate_bounds:
  assumes "request_ok config" "context_start d2q c config = Some (framerate, profile, color)"
  shows "1 \<le> fst framerate" "1 \<le> snd framerate" "snd framerate \<le> 2 ^ 26"
proof -
  have "1 \<le> fst framerate \<and> 1 \<le> snd framerate \<and> snd framerate \<le> 2 ^ 26"
  proof (cases "0 < sc_framerateX100 config")
    case False
    then show ?thesis using assms by (auto simp: context_start_def request_ok_def split: option.splits)
  next
    case True
    then have rate: "framerateX100_to_rational d2q (sc_framerateX100 config) = Some framerate"
      using assms(2) by (auto simp: context_start_def split: option.splits)
    have "1 \<le> sc_framerateX100 config div 2997" if "sc_framerateX100 config mod 2997 = 0"
      using True that by auto
    then show ?thesis
      using rate rational_within_bounds [of "d2q (sc_framerateX100 config)"]
      by (auto simp: framerateX100_to_rational_def int_of_def split: if_splits)
  qed
  then show "1 \<le> fst framerate" "1 \<le> snd framerate" "snd framerate \<le> 2 ^ 26" by simp_all
qed

lemma single_frame_buffer_defined:
  assumes "1 \<le> fst framerate" "1 \<le> snd framerate" "snd framerate \<le> 2 ^ 26" "- 1 \<le> rate" "rate \<le> 2000000000"
  shows "single_frame_buffer rate framerate \<noteq> None"
proof -
  have le: "(rate + 1) * snd framerate \<le> 2000000001 * 2 ^ 26" using assms by (intro mult_mono) auto
  have ge: "0 \<le> (rate + 1) * snd framerate" using assms by simp
  have eq: "rate * snd framerate = (rate + 1) * snd framerate - snd framerate" by (simp add: algebra_simps)
  have "- (2 ^ 26) \<le> rate * snd framerate" using ge eq assms(3) by linarith
  moreover have "rate * snd framerate \<le> 2000000001 * 2 ^ 26" using le eq assms(2) by linarith
  ultimately have "- (2 ^ 63) \<le> rate * snd framerate" "rate * snd framerate < 2 ^ 63" by simp_all
  then show ?thesis using assms(1) by (simp add: single_frame_buffer_def Let_def)
qed

lemma attempt_context_defined:
  assumes "request_ok config" "encoder_settings_ok settings" "asks_level e config \<longrightarrow> amd_level config \<noteq> None"
    and "context_start (de_d2q d) c config \<noteq> None"
  shows "attempt_context d settings e f c config retries \<noteq> None"
proof -
  obtain ctx where ctx: "session_context (de_d2q d) settings e f c config retries = Some ctx"
    using session_context_defined [OF assms] by blast
  obtain framerate profile color where start: "context_start (de_d2q d) c config = Some (framerate, profile, color)"
    using assms(4) by auto
  have "av_framerate ctx = framerate"
      "av_bit_rate ctx = (if has_flag e CBR_WITH_VBR then sent_rate settings config - 1 else sent_rate settings config)"
    using ctx start session_bitrate_defined [OF assms(1), of settings]
    by (simp_all add: session_context_def Let_def split: option.splits) auto
  then have "single_frame_buffer (av_bit_rate ctx) (av_framerate ctx) \<noteq> None"
    using framerate_bounds [OF assms(1) start] sent_rate_bounds [OF assms(1), of settings]
    by (intro single_frame_buffer_defined) auto
  then have "va_init_codec_options va depth settings codec_id ctx \<noteq> None" for va depth codec_id
    by (auto simp: va_init_codec_options_def Let_def split: option.splits prod.splits)
  then show ?thesis by (auto simp: attempt_context_def ctx init_codec_options_def split: mem_type_e.split)
qed

lemma open_context_defined:
  assumes "request_ok config" "encoder_settings_ok settings" "asks_level e config \<longrightarrow> amd_level config \<noteq> None"
    and "context_start (de_d2q d) c config \<noteq> None"
  shows "open_context d settings e f c config \<noteq> Session_undefined"
  using assms(4) attempt_context_defined [OF assms]
  by (simp add: open_context_def Let_def del: not_None_eq split: option.split)

lemma device_color: "make_encode_device d e config = Some c \<Longrightarrow> c = colorspace_from_client_config config (de_is_hdr d)"
  by (simp add: make_encode_device_def Let_def split: option.splits if_splits)

lemma session_defined_lemma:
  assumes "request_ok config" "encoder_settings_ok settings"
    and "asks_level e config \<longrightarrow> amd_level config \<noteq> None"
    and "sc_dynamicRange config = 0 \<or> sc_videoFormat config \<noteq> 0 \<or> \<not> cd_dynamic_range (en_h264 e)"
    and "make_encode_device d e config = Some c"
  shows "make_encode_session d settings e config c \<noteq> Session_undefined"
proof (cases "refuses_config d e config")
  case True
  then show ?thesis
    by (simp add: make_encode_session_def make_avcodec_encode_session_def make_nvenc_encode_session_def split: option.split)
next
  case False
  have "sc_videoFormat config \<noteq> 0 \<or> sc_dynamicRange config = 0"
    using False assms(4) by (auto simp: refuses_config_def codec_from_config_def Let_def)
  then have "context_start (de_d2q d) c config \<noteq> None"
    using context_start_defined [OF assms(1)] device_color [OF assms(5)] by simp
  then have "open_context d settings e f c config \<noteq> Session_undefined" for f
    by (rule open_context_defined [OF assms(1-3)])
  then show ?thesis
    by (simp add: make_encode_session_def make_avcodec_encode_session_def make_nvenc_encode_session_def
        split: option.split session_result.split)
qed

text \<open>What a list of options sets for a name: the value of the last of them that has one.\<close>

fun last_setting :: "encoder_settings \<Rightarrow> stream_config \<Rightarrow> string \<Rightarrow> option_t list \<Rightarrow> dict_value option" where
  "last_setting settings config name [] = None"
| "last_setting settings config name (opt # opts) =
     (case last_setting settings config name opts of
        Some v \<Rightarrow> Some v
      | None \<Rightarrow> if fst opt = name then Option.bind (option_setting settings config (snd opt)) id else None)"

lemma handle_options_last:
  "handle_options settings config opts options = Some options' \<Longrightarrow>
   map_of options' name = (case last_setting settings config name opts of Some v \<Rightarrow> Some v | None \<Rightarrow> map_of options name)"
  by (induction opts arbitrary: options) (auto simp: update_conv' split: option.splits if_splits)

text \<open>
  The opened context is that of one of the two attempts, the second one only with fallback options and
  after the first has failed.
\<close>

lemma session_opened:
  assumes "make_encode_session d settings e config c = Session (Avcodec_session ctx inject)"
  obtains f retries where "ef_avcodec (en_platform_formats e) = Some f"
    and "attempt_context d settings e f c config retries = Some ctx"
    and "retries = 0 \<or> retries = 1 \<and> cd_fallback_options (codec_from_config e config) \<noteq> []"
    and "\<not> refuses_config d e config"
    and "inject = inject_headers (codec_from_config e config) config"
    and "de_open d (cd_name (codec_from_config e config)) ctx"
proof -
  obtain f where f: "ef_avcodec (en_platform_formats e) = Some f" "\<not> refuses_config d e config"
    "open_context d settings e f c config = Session ctx" "inject = inject_headers (codec_from_config e config) config"
    using assms
    by (simp add: make_encode_session_def make_avcodec_encode_session_def make_nvenc_encode_session_def
        split: option.splits session_result.splits if_splits)
  moreover obtain retries where "attempt_context d settings e f c config retries = Some ctx"
    "retries = 0 \<or> retries = 1 \<and> cd_fallback_options (codec_from_config e config) \<noteq> []"
    "de_open d (cd_name (codec_from_config e config)) ctx"
    using f(3) by (simp add: open_context_def Let_def split: option.splits if_splits)
  ultimately show ?thesis using that by blast
qed

text \<open>The options that the devices set on their own, and what they leave of the context.\<close>

definition device_options :: "encoder_t \<Rightarrow> string set" where
  "device_options e =
     (if ef_dev_type (en_platform_formats e) = Mem_vaapi then {''low_power'', ''rc_mode'', ''qp''} else {})"

lemma va_init_keeps:
  assumes "va_init_codec_options va depth settings codec_id ctx0 = Some ctx"
  shows "av_sw_pix_fmt ctx = av_sw_pix_fmt ctx0 \<and> av_rc_max_rate ctx = av_rc_max_rate ctx0 \<and> av_bit_rate ctx = av_bit_rate ctx0 \<and>
    (name \<notin> {''low_power'', ''rc_mode'', ''qp''} \<longrightarrow> map_of (av_options ctx) name = map_of (av_options ctx0) name)"
proof -
  show ?thesis
  proof (cases "ctx0 = ctx")
    case False
    then obtain profile entrypoint where "get_va_profile depth codec_id ctx0 = Some profile"
      "is_va_profile_supported va profile" "select_va_entrypoint va profile = Some entrypoint"
      using assms by (auto simp: va_init_codec_options_def split: option.splits if_splits)
    then show ?thesis
      using assms unfolding va_init_codec_options_def Let_def
      by (simp split: prod.splits if_splits) (auto simp: update_conv')
  qed simp
qed

lemma init_keeps:
  assumes "init_codec_options d settings e config ctx0 = Some ctx"
  shows "av_sw_pix_fmt ctx = av_sw_pix_fmt ctx0 \<and> av_rc_max_rate ctx = av_rc_max_rate ctx0 \<and> av_bit_rate ctx = av_bit_rate ctx0 \<and>
    (name \<notin> device_options e \<longrightarrow> map_of (av_options ctx) name = map_of (av_options ctx0) name)"
  using assms va_init_keeps [of "de_va d" "de_depth d" settings _ ctx0 ctx name]
  by (auto simp: init_codec_options_def device_options_def vk_init_codec_options_def split: mem_type_e.splits if_splits)

lemma attempt_context_facts:
  assumes "attempt_context d settings e f c config retries = Some ctx"
  shows "session_bitrate settings config = Some (av_rc_max_rate ctx)"
    and "av_bit_rate ctx = (if has_flag e CBR_WITH_VBR then av_rc_max_rate ctx - 1 else av_rc_max_rate ctx)"
    and "av_sw_pix_fmt ctx = choose_sw_fmt f c config"
    and "name \<notin> device_options e \<Longrightarrow> map_of (av_options ctx) name =
      last_setting settings config name (chosen_options config (codec_from_config e config) retries)"
proof -
  obtain ctx0 where ctx0: "session_context (de_d2q d) settings e f c config retries = Some ctx0"
    "init_codec_options d settings e config ctx0 = Some ctx"
    using assms by (auto simp: attempt_context_def bind_eq_Some_conv)
  note init = init_keeps [OF ctx0(2)]
  have "session_bitrate settings config = Some (av_rc_max_rate ctx0) \<and>
      av_bit_rate ctx0 = (if has_flag e CBR_WITH_VBR then av_rc_max_rate ctx0 - 1 else av_rc_max_rate ctx0) \<and>
      av_sw_pix_fmt ctx0 = choose_sw_fmt f c config \<and>
      codec_options settings config (codec_from_config e config) retries = Some (av_options ctx0)"
    using ctx0(1) by (auto simp: session_context_def Let_def split: option.splits)
  then show "session_bitrate settings config = Some (av_rc_max_rate ctx)"
    "av_bit_rate ctx = (if has_flag e CBR_WITH_VBR then av_rc_max_rate ctx - 1 else av_rc_max_rate ctx)"
    "av_sw_pix_fmt ctx = choose_sw_fmt f c config"
    "name \<notin> device_options e \<Longrightarrow> map_of (av_options ctx) name =
      last_setting settings config name (chosen_options config (codec_from_config e config) retries)"
    using init handle_options_last [of settings config _ "[]" "av_options ctx0" name]
    by (auto simp: codec_options_def split: option.splits)
qed

lemma table_formats:
  assumes "e \<in> set (encoders os with_vulkan)" "ef_avcodec (en_platform_formats e) = Some f"
  shows "en_platform_formats e = avcodec_platform_formats f"
  using assms
  by (cases os) (auto simp: encoders_def nvenc_windows_def quicksync_def amdvce_def mediafoundation_def software_def
      nvenc_def vulkan_def vaapi_def videotoolbox_def plain_formats_def d3d11_formats_def avcodec_platform_formats_def
      split: if_splits)

lemma fresh_fields [simp]:
  "en_platform_formats (fresh_encoder e) = en_platform_formats e" "en_flags (fresh_encoder e) = en_flags e"
  "en_name (fresh_encoder e) = en_name e"
  by (simp_all add: fresh_encoder_def)

lemma table_formats_fresh:
  assumes "fresh_encoder e \<in> fresh_encoder ` set (encoders os with_vulkan)" "ef_avcodec (en_platform_formats e) = Some f"
  shows "en_platform_formats e = avcodec_platform_formats f"
proof -
  obtain e' where e': "e' \<in> set (encoders os with_vulkan)" "fresh_encoder e = fresh_encoder e'" using assms(1) by blast
  have "en_platform_formats e = en_platform_formats e'" using arg_cong [OF e'(2), of en_platform_formats] by simp
  then show ?thesis using table_formats [OF e'(1)] assms(2) by simp
qed

lemma device_format_is_software_format:
  assumes "make_encode_device d e config = Some c" "en_platform_formats e = avcodec_platform_formats f"
    and "sc_chromaSamplingType config \<in> {0, 1}"
  shows "device_pix_fmt e config c = Some (map_pix_fmt (choose_sw_fmt f c config))"
proof -
  have depth: "cp_bit_depth c = 8 \<or> cp_bit_depth c = 10"
    using client_bit_depth [of config "de_is_hdr d"] device_color [OF assms(1)] by simp
  have "device_pix_fmt e config c \<noteq> None"
    using assms(1) device_color [OF assms(1)] by (auto simp: make_encode_device_def Let_def split: option.splits)
  then have "sc_chromaSamplingType config = 1 \<Longrightarrow> has_flag e YUV444_SUPPORT"
    by (auto simp: device_pix_fmt_def Let_def split: if_splits)
  then show ?thesis
    using depth assms(2,3) by (auto simp: device_pix_fmt_def choose_sw_fmt_def avcodec_platform_formats_def)
qed

subsection \<open>Properties\<close>

definition ready_display :: display_env where
  "ready_display =
     \<lparr>de_is_hdr = True, de_codec_supported = \<lambda>_ _. True, de_make_device = \<lambda>_ _. True, de_find_encoder = \<lambda>_. True,
      de_hardware_ready = \<lambda>_ _. True, de_open = \<lambda>_ _. True, de_frames_ready = \<lambda>_ _. True, de_init_nvenc = \<lambda>_ _. True,
      de_d2q = \<lambda>x. (x, 100), de_codec_id = \<lambda>_. AV_CODEC_ID_HEVC, de_depth = \<lambda>_. 10,
      de_va = \<lparr>va_profiles = None, va_entrypoints = \<lambda>_. None, va_vendor = None, va_rate_control = \<lambda>_ _. None, va_max_slices = \<lambda>_ _. None\<rparr>\<rparr>"

definition plain_settings :: encoder_settings where
  "plain_settings =
     \<lparr>es_sw_preset = ''superfast'', es_sw_tune = ''zerolatency'', es_svtav1_preset = Some 11, es_nv_preset = 11, es_nv_multipass = 1,
      es_nv_h264_coder = -1, es_nv_aq = 0, es_nv_vbv_percentage_increase = 0, es_qsv_preset = Some 1, es_qsv_cavlc = Some 0,
      es_qsv_slow_hevc = False, es_amd_usage = (None, None, None), es_amd_rc = (None, None, None),
      es_amd_quality = (None, None, None), es_amd_enforce_hrd = None, es_amd_preanalysis = None, es_amd_vbaq = None,
      es_vt_allow_sw = 0, es_vt_require_sw = 0, es_vt_realtime = 1, es_vk_tune = 2, es_vk_rc_mode = 4, es_va_strict_rc_buffer = False, es_qp = 28, es_min_threads = 2,
      es_max_bitrate = 0, es_min_log_level = 2\<rparr>"

definition passed_nvenc :: encoder_t where
  "passed_nvenc = (fresh_encoder nvenc)\<lparr>en_h264 := (set_all True (en_h264 nvenc))\<lparr>cd_dynamic_range := False\<rparr>\<rparr>"

text \<open>
  Among the encoders of the table only AMD's HEVC encoder asks for a level, and it is defined while the
  products of the sizes and the frame rate fit.
\<close>

lemma table_asks_level:
  "e \<in> set (encoders os with_vulkan) \<Longrightarrow> asks_level e config \<longleftrightarrow> en_name e = ''amdvce'' \<and> sc_videoFormat config = 1"
proof -
  let ?P = "\<lambda>opt. case snd opt of Opt_config g \<Rightarrow> True | _ \<Rightarrow> False"
  let ?all = "\<lambda>c. cd_common_options c @ cd_sdr_options c @ cd_hdr_options c @ cd_sdr444_options c @ cd_hdr444_options c @ cd_fallback_options c"
  have some: "list_ex ?P (chosen_options config c 1) \<Longrightarrow> list_ex ?P (?all c)" for c
    by (auto simp: chosen_options_def Let_def split: if_splits)
  have common: "list_ex ?P (cd_common_options c) \<Longrightarrow> list_ex ?P (chosen_options config c 1)" for c
    by (simp add: chosen_options_def Let_def)
  have none: "\<not> list_ex ?P (?all c) \<Longrightarrow> \<not> list_ex ?P (chosen_options config c 1)" for c using some by blast
  assume "e \<in> set (encoders os with_vulkan)"
  then consider (amd) "e = amdvce" | (other) "e \<in> {nvenc_windows, quicksync, mediafoundation, software, nvenc, vulkan, vaapi, videotoolbox}"
    by (cases os) (auto simp: encoders_def split: if_splits)
  then show ?thesis
  proof cases
    case amd
    have "list_ex ?P (cd_common_options (en_hevc amdvce))" "\<not> list_ex ?P (?all (en_h264 amdvce))" "\<not> list_ex ?P (?all (en_av1 amdvce))"
      by (simp_all add: amdvce_def codec_of_def)
    then show ?thesis
      using common [of "en_hevc amdvce"] none [of "en_h264 amdvce"] none [of "en_av1 amdvce"] amd
      by (simp add: asks_level_def codec_from_config_def) (simp add: amdvce_def)
  next
    case other
    then have "\<forall>c \<in> {en_h264 e, en_hevc e, en_av1 e}. \<not> list_ex ?P (?all c)" and "en_name e \<noteq> ''amdvce''"
      by (auto simp: nvenc_windows_def quicksync_def mediafoundation_def software_def nvenc_def vulkan_def
          vaapi_def videotoolbox_def codec_of_def nvenc_start_def nvenc_end_def vulkan_options_def videotoolbox_options_def mediafoundation_options_def)
    then show ?thesis using none by (auto simp: asks_level_def codec_from_config_def)
  qed
qed

lemma amd_level_defined:
  "amd_level config \<noteq> None \<longleftrightarrow> int32 (sc_width config * sc_height config) \<and>
     (sc_width config * sc_height config \<le> 8912896 \<longrightarrow> int32 (sc_width config * sc_height config * sc_framerate config))"
  by (auto simp: amd_level_def int_of_def)

text \<open>
  C29. Opening a session never runs into undefined behaviour, an overflow, a division by zero or a failed
  assertion, for a request with at least two frames in a second, at most 2 Gbit/s and 5 Mbit in a frame, at
  most 400 percent more buffer, no H.264 with HDR and, for an encoder that asks for the level of
  \<^verbatim>\<open>hevc_amf\<close>, of the table only AMD's for HEVC, sizes whose product fits 32 bits and, up to 8912896
  pixels, still does when multiplied by the frame rate.
\<close>

theorem session_defined:
  assumes "request_ok config" "encoder_settings_ok settings"
    and "asks_level e config \<longrightarrow> int32 (sc_width config * sc_height config) \<and>
      (sc_width config * sc_height config \<le> 8912896 \<longrightarrow> int32 (sc_width config * sc_height config * sc_framerate config))"
    and "sc_dynamicRange config = 0 \<or> sc_videoFormat config \<noteq> 0 \<or> \<not> cd_dynamic_range (en_h264 e)"
    and "make_encode_device d e config = Some c"
  shows "make_encode_session d settings e config c \<noteq> Session_undefined"
  using session_defined_lemma [OF assms(1,2) _ assms(4,5)] assms(3) amd_level_defined [of config] by blast

theorem session_defined_witness:
  "make_encode_session ready_display plain_settings passed_nvenc generic_hdr_config
     (colorspace_from_client_config generic_hdr_config True) \<noteq> Session_undefined"
proof (rule session_defined)
  show "request_ok generic_hdr_config" by code_simp
  show "encoder_settings_ok plain_settings" by code_simp
  show "asks_level passed_nvenc generic_hdr_config \<longrightarrow> int32 (sc_width generic_hdr_config * sc_height generic_hdr_config) \<and>
      (sc_width generic_hdr_config * sc_height generic_hdr_config \<le> 8912896 \<longrightarrow>
        int32 (sc_width generic_hdr_config * sc_height generic_hdr_config * sc_framerate generic_hdr_config))"
    by (simp add: generic_hdr_config_def video_config_t_def int32_def INT_MIN_def INT_MAX_def)
  show "sc_dynamicRange generic_hdr_config = 0 \<or> sc_videoFormat generic_hdr_config \<noteq> 0 \<or> \<not> cd_dynamic_range (en_h264 passed_nvenc)"
    by (simp add: passed_nvenc_def)
  show "make_encode_device ready_display passed_nvenc generic_hdr_config = Some (colorspace_from_client_config generic_hdr_config True)"
    by (simp add: make_encode_device_def ready_display_def device_pix_fmt_def Let_def generic_hdr_config_def video_config_t_def)
qed

text \<open>
  The level overflows: for a stream of 3840 times 2160 pixels at 260 frames, which a client may ask for, the
  product of AMD's HEVC encoder does not fit an integer.
\<close>

theorem amd_level_overflows:
  assumes "sc_width config = 3840" and "sc_height config = 2160" and "259 \<le> sc_framerate config"
  shows "amd_level config = None"
  using assms by (auto simp: amd_level_def int_of_def int32_def INT_MIN_def INT_MAX_def)

theorem amd_level_overflows_witness:
  "amd_level (generic_hdr_config\<lparr>sc_width := 3840, sc_height := 2160, sc_framerate := 260\<rparr>) = None"
  by (rule amd_level_overflows) simp_all


definition ready_context :: av_context where
  "ready_context = the (attempt_context ready_display plain_settings passed_nvenc
     (the (ef_avcodec (en_platform_formats passed_nvenc))) (colorspace_from_client_config generic_hdr_config True) generic_hdr_config 0)"


lemma rc_buffer_no_frames: "sc_framerate config = 0 \<Longrightarrow> rc_buffer settings e hardware config slices bitrate = None"
  by (simp add: rc_buffer_def int_of_small int_div_small INT_MAX_def) (simp add: int_div_def)

lemma rc_buffer_one_frame:
  "sc_framerate config = 1 \<Longrightarrow> 1 < slices \<Longrightarrow> rc_buffer settings e False config slices bitrate = None"
  by (simp add: rc_buffer_def int_of_small int_div_small INT_MAX_def) (simp add: int_div_def)

text \<open>
  A client that asks for no frames in a second, or for one from the software encoder in several
  slices, makes the server divide by zero.
\<close>

theorem no_frames_divide_by_zero:
  assumes "ef_avcodec (en_platform_formats e) = Some f" "\<not> refuses_config d e config"
    and "vf_base_dev_type f = AV_HWDEVICE_TYPE_NONE \<or> de_hardware_ready d e config" "\<not> has_flag e NO_RC_BUF_LIMIT"
    and "sc_framerate config = 0 \<or>
      sc_framerate config = 1 \<and> vf_base_dev_type f = AV_HWDEVICE_TYPE_NONE \<and>
        \<not> has_flag e SINGLE_SLICE_ONLY \<and> 1 < es_min_threads settings"
  shows "make_encode_session d settings e config c = Session_undefined"
proof -
  have "session_context (de_d2q d) settings e f c config retries = None" for retries
    using assms(5)
  proof
    assume "sc_framerate config = 0"
    then show ?thesis
      using assms(4) by (simp add: session_context_def rc_buffer_no_frames Let_def split: option.split)
  next
    assume "sc_framerate config = 1 \<and> vf_base_dev_type f = AV_HWDEVICE_TYPE_NONE \<and>
        \<not> has_flag e SINGLE_SLICE_ONLY \<and> 1 < es_min_threads settings"
    then show ?thesis
      using assms(4) by (simp add: session_context_def rc_buffer_one_frame less_max_iff_disj Let_def split: option.split)
  qed
  then show ?thesis
    using assms(1-3)
    by (auto simp: make_encode_session_def make_avcodec_encode_session_def open_context_def attempt_context_def Let_def)
qed

theorem no_frames_divide_by_zero_witness:
  "make_encode_session ready_display plain_settings passed_nvenc (generic_hdr_config\<lparr>sc_framerate := 0\<rparr>)
     (colorspace_from_client_config generic_hdr_config True) = Session_undefined"
proof -
  obtain f where "ef_avcodec (en_platform_formats passed_nvenc) = Some f"
    by (simp add: passed_nvenc_def nvenc_def avcodec_platform_formats_def)
  then show ?thesis
  proof (rule no_frames_divide_by_zero)
    show "\<not> refuses_config ready_display passed_nvenc (generic_hdr_config\<lparr>sc_framerate := 0\<rparr>)"
      by (simp add: refuses_config_def codec_from_config_def ready_display_def passed_nvenc_def fresh_encoder_def set_all_def
          generic_hdr_config_def video_config_t_def)
    show "vf_base_dev_type f = AV_HWDEVICE_TYPE_NONE \<or>
        de_hardware_ready ready_display passed_nvenc (generic_hdr_config\<lparr>sc_framerate := 0\<rparr>)"
      by (simp add: ready_display_def)
    show "\<not> has_flag passed_nvenc NO_RC_BUF_LIMIT"
      by (simp add: has_flag_def passed_nvenc_def nvenc_def PARALLEL_ENCODING_def NO_RC_BUF_LIMIT_def)
  qed simp
qed

end
