(* ===== verification/Video_Choice.thy ===== *)
theory Video_Choice
  imports Video_Props
begin

text \<open>
  What \<^verbatim>\<open>probe_encoders\<close> computes: the verdict on an encoder does not depend on the encoders tried before
  it, and the loops choose the encoder that a direct specification names.
\<close>

section \<open>Validation keeps the encoder\<close>

lemma set_all_set_all [simp]: "set_all b (set_all b' c) = set_all b c"
  by (simp add: set_all_def)

lemma fresh_fresh [simp]: "fresh_encoder (fresh_encoder e) = fresh_encoder e"
  by (simp add: fresh_encoder_def)

lemma judge_codec_fresh [simp]: "set_all b (judge_codec m a c) = set_all b c"
  by (simp add: set_all_def judge_codec_def)

lemma fresh_updates [simp]:
  "set_all True c = set_all True (en_h264 e) \<Longrightarrow> fresh_encoder (e\<lparr>en_h264 := c\<rparr>) = fresh_encoder e"
  "set_all True c = set_all True (en_hevc e) \<Longrightarrow> fresh_encoder (e\<lparr>en_hevc := c\<rparr>) = fresh_encoder e"
  "set_all True c = set_all True (en_av1 e) \<Longrightarrow> fresh_encoder (e\<lparr>en_av1 := c\<rparr>) = fresh_encoder e"
  by (simp_all add: fresh_encoder_def)

lemma set_all_flags [simp]:
  "set_all b (c\<lparr>cd_passed := x\<rparr>) = set_all b c" "set_all b (c\<lparr>cd_ref_frames_restrict := x\<rparr>) = set_all b c"
  "set_all b (c\<lparr>cd_dynamic_range := x\<rparr>) = set_all b c" "set_all b (c\<lparr>cd_yuv444 := x\<rparr>) = set_all b c"
  "set_all b (c\<lparr>cd_vui_parameters := x\<rparr>) = set_all b c"
  by (simp_all add: set_all_def)

lemma test_codec_fresh: "test_codec env tested format m e c = Some c' \<Longrightarrow> set_all b c' = set_all b c"
  by (auto simp: test_codec_def Let_def bind_eq_Some_conv split: if_splits)

lemma test_hdr_fresh: "test_hdr_and_yuv444 env format e c = Some c' \<Longrightarrow> set_all b c' = set_all b c"
  by (auto simp: test_hdr_and_yuv444_def Let_def bind_eq_Some_conv split: if_splits)

lemma test_codecs_fresh:
  assumes "test_codecs env hevc_mode av1_mode ef e = Some r"
  shows "fresh_encoder (case r of Inl e' \<Rightarrow> e' | Inr e' \<Rightarrow> e') = fresh_encoder e"
proof (cases r)
  case (Inl e')
  then show ?thesis using assms by (auto simp: test_codecs_def Let_def bind_eq_Some_conv split: if_splits)
next
  case (Inr e')
  then obtain max_ref autoselect hevc av1 where
    "e' = e\<lparr>en_h264 := judge_codec max_ref autoselect (en_h264 e), en_hevc := hevc, en_av1 := av1\<rparr>"
    "set_all True hevc = set_all True (en_hevc e)" "set_all True av1 = set_all True (en_av1 e)"
    using assms by (auto simp: test_codecs_def Let_def bind_eq_Some_conv dest!: test_codec_fresh [where b = True] split: if_splits)
  then show ?thesis using Inr by simp
qed

lemma test_formats_fresh:
  assumes "test_formats env e = Some (ok, e')"
  shows "fresh_encoder e' = fresh_encoder e"
  using assms
  by (auto simp: test_formats_def Let_def bind_eq_Some_conv dest!: test_hdr_fresh [where b = True] split: if_splits)

lemma force_headers_fresh [simp]: "fresh_encoder (force_headers force e) = fresh_encoder e"
  by (simp add: force_headers_def)

lemma validate_encoder_fresh:
  assumes "validate_encoder env hevc_mode av1_mode ef e = Some (ok, e')"
  shows "fresh_encoder e' = fresh_encoder e"
proof (cases "reset_display env (fresh_encoder e) config_autoselect \<and>
    de_codec_supported (pe_display env) (cd_name (en_h264 (fresh_encoder e))) config_autoselect")
  case False
  then show ?thesis using assms by (auto simp: validate_encoder_def Let_def split: if_splits)
next
  case True
  then obtain r where r: "test_codecs env hevc_mode av1_mode ef (fresh_encoder e) = Some r"
    using assms by (auto simp: validate_encoder_def Let_def bind_eq_Some_conv)
  then show ?thesis
    using assms True test_codecs_fresh [OF r] test_formats_fresh
    by (cases r) (auto simp: validate_encoder_def Let_def split: if_splits)
qed

lemma validate_encoder_cong: "fresh_encoder e = fresh_encoder e' \<Longrightarrow> validate_encoder env hm am ef e = validate_encoder env hm am ef e'"
  by (simp add: validate_encoder_def)

section \<open>The specification of the choice\<close>

text \<open>
  The verdict on entry \<open>i\<close> of the table the probe starts with, where \<open>previous\<close> is the encoder in use
  before; the encoder with the capabilities found; and the modes that follow from them.
\<close>

definition verdict :: "probe_env \<Rightarrow> probe_state \<Rightarrow> nat \<Rightarrow> (bool \<times> encoder_t) option" where
  "verdict env s i =
     validate_encoder env (pe_hevc_mode env) (pe_av1_mode env) (pb_chosen s \<noteq> None \<and> pb_chosen s \<noteq> Some i) (pb_encoders s ! i)"

definition works :: "probe_env \<Rightarrow> probe_state \<Rightarrow> nat \<Rightarrow> bool" where
  "works env s i = (case verdict env s i of None \<Rightarrow> False | Some (ok, e) \<Rightarrow> ok)"

definition tested :: "probe_env \<Rightarrow> probe_state \<Rightarrow> nat \<Rightarrow> encoder_t" where
  "tested env s i = snd (the (verdict env s i))"

definition final_mode :: "int \<Rightarrow> codec_t \<Rightarrow> int" where
  "final_mode mode c = default_mode c (adjust_mode c mode)"

definition suits :: "int \<Rightarrow> codec_t \<Rightarrow> bool" where
  "suits mode c \<longleftrightarrow> (2 \<le> mode \<longrightarrow> cd_passed c) \<and> (mode = 3 \<longrightarrow> cd_dynamic_range c)"

definition fits :: "probe_env \<Rightarrow> probe_state \<Rightarrow> nat \<Rightarrow> bool" where
  "fits env s i \<longleftrightarrow> works env s i \<and> suits (pe_hevc_mode env) (en_hevc (tested env s i)) \<and>
     suits (pe_av1_mode env) (en_av1 (tested env s i))"

text \<open>The first one that works and has the configured codecs; otherwise the first one that works.\<close>

definition later_choice :: "probe_env \<Rightarrow> probe_state \<Rightarrow> nat list \<Rightarrow> nat option" where
  "later_choice env s is = (case find (fits env s) is of Some j \<Rightarrow> Some j | None \<Rightarrow> find (works env s) is)"

text \<open>The first entry with the configured name if it works, otherwise the choice among all.\<close>

definition choice :: "probe_env \<Rightarrow> probe_state \<Rightarrow> nat option" where
  "choice env s =
     (let entries = [0..<length (pb_encoders s)]
      in case find (\<lambda>i. pe_encoder env \<noteq> [] \<and> en_name (pb_encoders s ! i) = pe_encoder env) entries of
           Some i \<Rightarrow> if works env s i then Some i else later_choice env s entries
         | None \<Rightarrow> later_choice env s entries)"

section \<open>The loops\<close>

text \<open>The state of a probe that has started in \<open>s\<close> and has not chosen yet.\<close>

definition probing :: "probe_env \<Rightarrow> probe_state \<Rightarrow> probe_state \<Rightarrow> bool" where
  "probing env s t \<longleftrightarrow>
     pb_chosen t = None \<and> pb_hevc_mode t = pe_hevc_mode env \<and> pb_av1_mode t = pe_av1_mode env \<and>
     length (pb_encoders t) = length (pb_encoders s) \<and>
     (\<forall>i<length (pb_encoders s). fresh_encoder (pb_encoders t ! i) = fresh_encoder (pb_encoders s ! i))"

text \<open>No test runs into undefined behaviour.\<close>

definition all_defined :: "probe_env \<Rightarrow> probe_state \<Rightarrow> bool" where
  "all_defined env s \<longleftrightarrow> (\<forall>i<length (pb_encoders s). verdict env s i \<noteq> None)"

lemma verdict_Some:
  "all_defined env s \<Longrightarrow> i < length (pb_encoders s) \<Longrightarrow> verdict env s i = Some (works env s i, tested env s i)"
  by (auto simp: all_defined_def works_def tested_def split: option.split)

lemma fresh_tested:
  "all_defined env s \<Longrightarrow> i < length (pb_encoders s) \<Longrightarrow> fresh_encoder (tested env s i) = fresh_encoder (pb_encoders s ! i)"
  using verdict_Some [of env s i] by (auto simp: verdict_def dest: validate_encoder_fresh)

definition record_test :: "probe_env \<Rightarrow> probe_state \<Rightarrow> nat \<Rightarrow> probe_state \<Rightarrow> probe_state" where
  "record_test env s i t = t\<lparr>pb_encoders := (pb_encoders t)[i := tested env s i]\<rparr>"

lemma validate_at_probing:
  assumes "all_defined env s" "probing env s t" "i < length (pb_encoders s)"
  shows "validate_at env (pb_chosen s) i t = Some (works env s i, record_test env s i t)"
proof -
  have "validate_encoder env (pb_hevc_mode t) (pb_av1_mode t) (pb_chosen s \<noteq> None \<and> pb_chosen s \<noteq> Some i) (pb_encoders t ! i) = verdict env s i"
    using assms(2,3) by (auto simp: verdict_def probing_def intro!: validate_encoder_cong)
  then show ?thesis
    using verdict_Some [OF assms(1,3)] by (simp add: validate_at_def record_test_def)
qed

lemma record_test_facts:
  assumes "all_defined env s" "probing env s t" "i < length (pb_encoders s)"
  shows "probing env s (record_test env s i t)" "pb_encoders (record_test env s i t) ! i = tested env s i"
  using assms fresh_tested [OF assms(1)] by (auto simp: probing_def record_test_def nth_list_update)

lemma probing_name: "probing env s t \<Longrightarrow> i < length (pb_encoders s) \<Longrightarrow> en_name (pb_encoders t ! i) = en_name (pb_encoders s ! i)"
  unfolding probing_def by (metis fresh_fields(3))

text \<open>The state in which a loop stops at \<open>i\<close>, with the modes adjusted.\<close>

definition chosen_at :: "probe_env \<Rightarrow> probe_state \<Rightarrow> nat \<Rightarrow> probe_state \<Rightarrow> bool" where
  "chosen_at env s i t \<longleftrightarrow>
     i < length (pb_encoders s) \<and> works env s i \<and> pb_chosen t = Some i \<and> length (pb_encoders t) = length (pb_encoders s) \<and>
     pb_encoders t ! i = tested env s i \<and>
     pb_hevc_mode t = adjust_mode (en_hevc (tested env s i)) (pe_hevc_mode env) \<and>
     pb_av1_mode t = adjust_mode (en_av1 (tested env s i)) (pe_av1_mode env)"

lemma adjusted_chosen:
  assumes "all_defined env s" "probing env s t" "i < length (pb_encoders s)" "works env s i"
  shows "chosen_at env s i ((adjust_encoder_constraints i (record_test env s i t))\<lparr>pb_chosen := Some i\<rparr>)"
  using record_test_facts [OF assms(1-3)] assms(3,4)
  by (simp add: chosen_at_def adjust_encoder_constraints_def probing_def)

lemma suits_adjust: "suits mode c \<Longrightarrow> adjust_mode c mode = mode"
  by (auto simp: suits_def adjust_mode_def)

lemma lacks_modes_suits:
  assumes "probing env s t"
  shows "lacks_modes t e \<longleftrightarrow> \<not> (suits (pe_hevc_mode env) (en_hevc e) \<and> suits (pe_av1_mode env) (en_av1 e))"
  using assms by (auto simp: lacks_modes_def suits_def probing_def)

lemma probe_any_correct:
  assumes "all_defined env s" "probing env s t" "\<forall>i\<in>set is. i < length (pb_encoders s)"
  shows "\<exists>t'. probe_any env (pb_chosen s) is t = Some t' \<and>
    (case find (works env s) is of None \<Rightarrow> probing env s t' | Some i \<Rightarrow> chosen_at env s i t')"
  using assms(2,3)
proof (induction "is" arbitrary: t)
  case (Cons i "is")
  then have i: "i < length (pb_encoders s)" by simp
  note v = validate_at_probing [OF assms(1) Cons.prems(1) i]
  show ?case
  proof (cases "works env s i")
    case True
    then show ?thesis using v adjusted_chosen [OF assms(1) Cons.prems(1) i] by simp
  next
    case False
    then show ?thesis
      using v Cons.IH [OF record_test_facts(1) [OF assms(1) Cons.prems(1) i]] Cons.prems(2) by simp
  qed
qed simp

lemma probe_required_correct:
  assumes "all_defined env s" "probing env s t" "\<forall>i\<in>set is. i < length (pb_encoders s)"
  shows "\<exists>is' t'. probe_required env (pb_chosen s) is t = Some (is', t') \<and>
    (case find (fits env s) is of None \<Rightarrow> probing env s t' \<and> is' = filter (works env s) is | Some i \<Rightarrow> chosen_at env s i t')"
  using assms(2,3)
proof (induction "is" arbitrary: t)
  case (Cons i "is")
  then have i: "i < length (pb_encoders s)" by simp
  let ?t = "record_test env s i t"
  note v = validate_at_probing [OF assms(1) Cons.prems(1) i]
  note facts = record_test_facts [OF assms(1) Cons.prems(1) i]
  have lacks: "lacks_modes ?t (pb_encoders ?t ! i) \<longleftrightarrow> works env s i \<and> \<not> fits env s i" if "works env s i"
    using lacks_modes_suits [OF facts(1)] facts(2) that by (simp add: fits_def)
  obtain is' t' where rest: "probe_required env (pb_chosen s) is ?t = Some (is', t')"
    "case find (fits env s) is of None \<Rightarrow> probing env s t' \<and> is' = filter (works env s) is | Some i \<Rightarrow> chosen_at env s i t'"
    using Cons.IH [OF facts(1)] Cons.prems(2) by auto
  consider "\<not> works env s i" | "works env s i" "\<not> fits env s i" | "works env s i" "fits env s i" by blast
  then show ?case
  proof cases
    case 1
    moreover from 1 have "\<not> fits env s i" by (simp add: fits_def)
    ultimately show ?thesis using v rest by (auto split: option.splits)
  next
    case 2
    then show ?thesis using v rest lacks by (auto split: option.splits)
  next
    case 3
    then have "chosen_at env s i (?t\<lparr>pb_chosen := Some i\<rparr>)"
      using facts i by (simp add: chosen_at_def probing_def fits_def suits_adjust)
    then show ?thesis using v lacks 3 by simp
  qed
qed simp

lemma probe_configured_correct:
  assumes "all_defined env s" "probing env s t" "\<forall>i\<in>set is. i < length (pb_encoders s)"
  shows "\<exists>is' t'. probe_configured env (pb_chosen s) is t = Some (is', t') \<and>
    set is' \<subseteq> set is \<and>
    (case find (\<lambda>i. en_name (pb_encoders s ! i) = pe_encoder env) is of
       None \<Rightarrow> probing env s t' \<and> is' = is
     | Some i \<Rightarrow> if works env s i then chosen_at env s i t'
         else probing env s t' \<and> filter (works env s) is' = filter (works env s) is)"
  using assms(2,3)
proof (induction "is" arbitrary: t)
  case (Cons i "is")
  then have i: "i < length (pb_encoders s)" by simp
  note v = validate_at_probing [OF assms(1) Cons.prems(1) i]
  note name = probing_name [OF Cons.prems(1) i]
  show ?case
  proof (cases "en_name (pb_encoders s ! i) = pe_encoder env")
    case True
    then show ?thesis
      using v name adjusted_chosen [OF assms(1) Cons.prems(1) i] record_test_facts(1) [OF assms(1) Cons.prems(1) i]
      by (cases "works env s i") auto
  next
    case False
    obtain is' t' where "probe_configured env (pb_chosen s) is t = Some (is', t')" "set is' \<subseteq> set is"
      "case find (\<lambda>i. en_name (pb_encoders s ! i) = pe_encoder env) is of
         None \<Rightarrow> probing env s t' \<and> is' = is
       | Some i \<Rightarrow> if works env s i then chosen_at env s i t'
           else probing env s t' \<and> filter (works env s) is' = filter (works env s) is"
      using Cons.IH [OF Cons.prems(1)] Cons.prems(2) by auto
    then show ?thesis using False name by (auto split: option.splits if_splits)
  qed
qed simp

lemma find_False [simp]: "find (\<lambda>x. False) xs = None"
  by (simp add: find_None_iff)

lemma find_filtered: "(\<And>x. P x \<Longrightarrow> Q x) \<Longrightarrow> filter Q xs = filter Q ys \<Longrightarrow> find P xs = find P ys"
proof -
  assume "\<And>x. P x \<Longrightarrow> Q x"
  then have "find P zs = find P (filter Q zs)" for zs by (induction zs) auto
  then show "filter Q xs = filter Q ys \<Longrightarrow> find P xs = find P ys" by metis
qed

text \<open>The second and the third loop together.\<close>

definition later_loops :: "probe_env \<Rightarrow> nat option \<Rightarrow> nat list \<Rightarrow> probe_state \<Rightarrow> probe_state option" where
  "later_loops env previous is t =
     Option.bind (if pb_chosen t = None \<and> (2 \<le> pb_hevc_mode t \<or> 2 \<le> pb_av1_mode t)
       then probe_required env previous is t else Some (is, t))
       (\<lambda>(is, t). if pb_chosen t = None then probe_any env previous is t else Some t)"

lemma later_loops_correct:
  assumes "all_defined env s" "probing env s t" "\<forall>i\<in>set is. i < length (pb_encoders s)"
  shows "\<exists>t'. later_loops env (pb_chosen s) is t = Some t' \<and>
    (case later_choice env s is of None \<Rightarrow> probing env s t' | Some i \<Rightarrow> chosen_at env s i t')"
proof (cases "2 \<le> pe_hevc_mode env \<or> 2 \<le> pe_av1_mode env")
  case True
  obtain is' t' where r: "probe_required env (pb_chosen s) is t = Some (is', t')"
    "case find (fits env s) is of None \<Rightarrow> probing env s t' \<and> is' = filter (works env s) is | Some i \<Rightarrow> chosen_at env s i t'"
    using probe_required_correct [OF assms] by blast
  show ?thesis
  proof (cases "find (fits env s) is")
    case None
    then have p: "probing env s t'" "is' = filter (works env s) is" using r(2) by simp_all
    then have "find (works env s) is' = find (works env s) is" by (intro find_filtered [where Q = "works env s"]) simp_all
    then show ?thesis
      using probe_any_correct [OF assms(1) p(1), of is'] p assms(2,3) r True None
      by (auto simp: later_loops_def later_choice_def probing_def)
  next
    case (Some i)
    then show ?thesis
      using r True assms(2) by (auto simp: later_loops_def later_choice_def probing_def chosen_at_def)
  qed
next
  case False
  then have "fits env s = works env s" by (auto simp: fits_def suits_def)
  then have "later_choice env s is = find (works env s) is" by (simp add: later_choice_def split: option.split)
  then show ?thesis
    using probe_any_correct [OF assms] False assms(2) by (simp add: later_loops_def probing_def)
qed

section \<open>The probe\<close>

definition must_probe :: "probe_env \<Rightarrow> probe_state \<Rightarrow> bool" where
  "must_probe env s \<longleftrightarrow>
     pe_allowed env \<and>
     ((case pb_chosen s of None \<Rightarrow> True | Some i \<Rightarrow> has_flag (pb_encoders s ! i) ALWAYS_REPROBE) \<or> pe_needs_reenumeration env)"

definition probe_start :: "probe_env \<Rightarrow> probe_state \<Rightarrow> probe_state" where
  "probe_start env s = s\<lparr>pb_chosen := None, pb_hevc_mode := pe_hevc_mode env, pb_av1_mode := pe_av1_mode env,
     pb_ref_frames_invalidation := False\<rparr>"

lemma probing_start: "probing env s (probe_start env s)"
  by (simp add: probing_def probe_start_def)

lemma probe_encoders_loops:
  assumes "must_probe env s"
  shows "probe_encoders env s =
    Option.bind (if pe_encoder env \<noteq> [] then probe_configured env (pb_chosen s) [0..<length (pb_encoders s)] (probe_start env s)
      else Some ([0..<length (pb_encoders s)], probe_start env s)) (\<lambda>(is, t).
    map_option (\<lambda>t. case pb_chosen t of None \<Rightarrow> (-1, t) | Some i \<Rightarrow> (0, publish_encoder i t)) (later_loops env (pb_chosen s) is t))"
proof -
  have "(case pb_chosen s of None \<Rightarrow> False | Some i \<Rightarrow> \<not> has_flag (pb_encoders s ! i) ALWAYS_REPROBE) \<Longrightarrow> pe_needs_reenumeration env"
    using assms by (auto simp: must_probe_def split: option.splits)
  moreover have "pe_allowed env" using assms by (simp add: must_probe_def)
  ultimately show ?thesis
    by (auto simp: probe_encoders_def later_loops_def probe_start_def Let_def map_option_bind comp_def intro!: bind_option_cong)
qed

lemma later_choice_filtered:
  assumes "filter (works env s) is = filter (works env s) js"
  shows "later_choice env s is = later_choice env s js"
proof -
  have "find (fits env s) is = find (fits env s) js" "find (works env s) is = find (works env s) js"
    using assms by (auto intro!: find_filtered [where Q = "works env s"] simp: fits_def)
  then show ?thesis by (simp add: later_choice_def split: option.split)
qed

lemma probe_loops_choice:
  assumes "must_probe env s" "all_defined env s"
  shows "\<exists>t. probe_encoders env s = Some (case choice env s of None \<Rightarrow> (-1, t) | Some i \<Rightarrow> (0, publish_encoder i t)) \<and>
    (case choice env s of None \<Rightarrow> probing env s t | Some i \<Rightarrow> chosen_at env s i t)"
proof -
  let ?all = "[0..<length (pb_encoders s)]" and ?named = "\<lambda>i. en_name (pb_encoders s ! i) = pe_encoder env"
  let ?probe = "\<lambda>is t. map_option (\<lambda>t. case pb_chosen t of None \<Rightarrow> (-1, t) | Some i \<Rightarrow> (0::int, publish_encoder i t))
    (later_loops env (pb_chosen s) is t)"
  have later: "\<exists>t'. ?probe is t = Some (case later_choice env s ?all of None \<Rightarrow> (-1, t') | Some i \<Rightarrow> (0, publish_encoder i t')) \<and>
      (case later_choice env s ?all of None \<Rightarrow> probing env s t' | Some i \<Rightarrow> chosen_at env s i t')"
    if t: "probing env s t" "set is \<subseteq> set ?all" "filter (works env s) is = filter (works env s) ?all" for "is" t
  proof -
    obtain t' where "later_loops env (pb_chosen s) is t = Some t'"
      "case later_choice env s ?all of None \<Rightarrow> probing env s t' | Some i \<Rightarrow> chosen_at env s i t'"
      using later_loops_correct [OF assms(2) t(1), of "is"] t(2) later_choice_filtered [OF t(3)] by fastforce
    then show ?thesis by (auto simp: probing_def chosen_at_def split: option.splits)
  qed
  show ?thesis
  proof (cases "pe_encoder env = []")
    case True
    then show ?thesis
      using later [OF probing_start, of ?all] by (simp add: probe_encoders_loops [OF assms(1)] choice_def Let_def)
  next
    case False
    obtain is' t' where c: "probe_configured env (pb_chosen s) ?all (probe_start env s) = Some (is', t')" "set is' \<subseteq> set ?all"
      "case find ?named ?all of None \<Rightarrow> probing env s t' \<and> is' = ?all
       | Some i \<Rightarrow> if works env s i then chosen_at env s i t'
           else probing env s t' \<and> filter (works env s) is' = filter (works env s) ?all"
      using probe_configured_correct [OF assms(2) probing_start, of ?all] by auto
    have eq: "probe_encoders env s = ?probe is' t'"
      using False c(1) by (simp add: probe_encoders_loops [OF assms(1)])
    consider i where "find ?named ?all = Some i" "works env s i" "chosen_at env s i t'"
      | "choice env s = later_choice env s ?all" "probing env s t'" "filter (works env s) is' = filter (works env s) ?all"
      using c(3) False by (auto simp: choice_def Let_def split: option.splits if_splits)
    then show ?thesis
    proof cases
      case 1
      then have "later_loops env (pb_chosen s) is' t' = Some t'" "pb_chosen t' = Some i"
        by (simp_all add: later_loops_def chosen_at_def)
      then show ?thesis using 1 False eq by (auto simp: choice_def Let_def)
    next
      case 2
      then show ?thesis using later [OF 2(2) c(2) 2(3)] eq by simp
    qed
  qed
qed

subsection \<open>No undefined behaviour\<close>

definition test_config :: "stream_config \<Rightarrow> bool" where
  "test_config config \<longleftrightarrow> request_ok config \<and> amd_level config \<noteq> None \<and> (sc_dynamicRange config = 0 \<or> sc_videoFormat config \<noteq> 0)"

lemma validate_config_defined:
  assumes "encoder_settings_ok (pe_settings env)" "test_config config"
  shows "validate_config env e config \<noteq> None"
  using session_defined_lemma [OF _ assms(1), of config e "pe_display env"] assms(2)
  by (auto simp: validate_config_def test_config_def split: option.splits session_result.splits)

lemma test_configs:
  "test_config config_max_ref_frames" "test_config config_autoselect" "test_config config_h264_yuv444"
  "test_config (config_max_ref_frames\<lparr>sc_videoFormat := v\<rparr>)" "test_config (config_autoselect\<lparr>sc_videoFormat := v\<rparr>)"
  "v \<noteq> 0 \<Longrightarrow> test_config (generic_hdr_config\<lparr>sc_videoFormat := v\<rparr>)"
  "v \<noteq> 0 \<Longrightarrow> test_config (generic_hdr_config\<lparr>sc_videoFormat := v, sc_chromaSamplingType := c\<rparr>)"
  by (simp_all only: test_config_def amd_level_defined)
    (simp_all add: int32_def INT_MIN_def INT_MAX_def request_ok_def config_max_ref_frames_def config_autoselect_def config_h264_yuv444_def
      generic_hdr_config_def video_config_t_def)

lemma bind_defined: "\<exists>x. a = Some x \<Longrightarrow> (\<And>x. a = Some x \<Longrightarrow> \<exists>y. f x = Some y) \<Longrightarrow> \<exists>y. Option.bind a f = Some y"
  by (cases a) auto

lemma test_codec_defined: "encoder_settings_ok (pe_settings env) \<Longrightarrow> test_codec env b v m e c \<noteq> None"
  using validate_config_defined [OF _ test_configs(4)] validate_config_defined [OF _ test_configs(5)]
  by (auto simp: test_codec_def Let_def intro!: bind_defined)

lemma test_hdr_defined: "encoder_settings_ok (pe_settings env) \<Longrightarrow> v \<noteq> 0 \<Longrightarrow> test_hdr_and_yuv444 env v e c \<noteq> None"
  using validate_config_defined [OF _ test_configs(6)] validate_config_defined [OF _ test_configs(7)]
  by (auto simp: test_hdr_and_yuv444_def Let_def intro!: bind_defined)

lemma test_codecs_defined: "encoder_settings_ok (pe_settings env) \<Longrightarrow> test_codecs env h a ef e \<noteq> None"
  using validate_config_defined [OF _ test_configs(1)] validate_config_defined [OF _ test_configs(2)] test_codec_defined
  by (auto simp: test_codecs_def Let_def intro!: bind_defined)

lemma test_formats_defined: "encoder_settings_ok (pe_settings env) \<Longrightarrow> test_formats env e \<noteq> None"
  using validate_config_defined [OF _ test_configs(3)] test_hdr_defined
  by (auto simp: test_formats_def Let_def simp del: split_paired_Ex intro!: bind_defined)

lemma validate_encoder_defined: "encoder_settings_ok (pe_settings env) \<Longrightarrow> validate_encoder env h a ef e \<noteq> None"
  using test_codecs_defined test_formats_defined
  by (auto simp: validate_encoder_def Let_def simp del: split_paired_Ex intro!: bind_defined split: sum.split)

lemma settings_all_defined: "encoder_settings_ok (pe_settings env) \<Longrightarrow> all_defined env s"
  using validate_encoder_defined by (simp add: all_defined_def verdict_def del: not_None_eq)

subsection \<open>Properties\<close>

text \<open>Every display opens, and FFmpeg encodes what \<open>good\<close> names.\<close>

definition probe_example :: "int \<Rightarrow> string \<Rightarrow> (string \<Rightarrow> int \<Rightarrow> bool) \<Rightarrow> probe_env" where
  "probe_example hevc_mode name good =
     \<lparr>pe_settings = plain_settings, pe_hevc_mode = hevc_mode, pe_av1_mode = 0, pe_encoder = name, pe_force_header_replace = False,
      pe_allowed = True, pe_needs_reenumeration = False, pe_opens = \<lambda>_ _ _. True, pe_display = ready_display,
      pe_convert = \<lambda>_ _. True,
      pe_packet = \<lambda>e config. if good (en_name e) (sc_videoFormat config) then Some (True, True) else None\<rparr>"

definition probe_table :: "encoder_t list \<Rightarrow> probe_state" where
  "probe_table es = \<lparr>pb_encoders = es, pb_chosen = None, pb_hevc_mode = 0, pb_av1_mode = 0,
     pb_ref_frames_invalidation = False, pb_yuv444 = (False, False, False)\<rparr>"

text \<open>
  C27. The probe does what its specification says: it takes the configured encoder if that works,
  otherwise the first in the table that works and has the codecs the settings demand, otherwise the first
  that works, and fails only if none does. What it publishes are the capabilities of that
  encoder alone.
\<close>

theorem probe_chooses:
  assumes "must_probe env s" "encoder_settings_ok (pe_settings env)"
  shows "\<exists>t. probe_encoders env s = Some (if choice env s = None then -1 else 0, t) \<and> pb_chosen t = choice env s \<and>
    (case choice env s of None \<Rightarrow> True
     | Some i \<Rightarrow> pb_encoders t ! i = tested env s i \<and>
         pb_hevc_mode t = final_mode (pe_hevc_mode env) (en_hevc (tested env s i)) \<and>
         pb_av1_mode t = final_mode (pe_av1_mode env) (en_av1 (tested env s i)) \<and>
         pb_ref_frames_invalidation t = has_flag (pb_encoders s ! i) REF_FRAMES_INVALIDATION)"
proof -
  obtain t where t: "probe_encoders env s = Some (case choice env s of None \<Rightarrow> (-1, t) | Some i \<Rightarrow> (0, publish_encoder i t))"
    "case choice env s of None \<Rightarrow> probing env s t | Some i \<Rightarrow> chosen_at env s i t"
    using probe_loops_choice [OF assms(1) settings_all_defined [OF assms(2)]] by blast
  show ?thesis
  proof (cases "choice env s")
    case None
    then show ?thesis using t by (simp add: probing_def)
  next
    case (Some i)
    then have "fresh_encoder (tested env s i) = fresh_encoder (pb_encoders s ! i)"
      using t(2) fresh_tested [OF settings_all_defined [OF assms(2)]] by (simp add: chosen_at_def)
    then have "has_flag (tested env s i) f = has_flag (pb_encoders s ! i) f" for f
      using fresh_fields(2) unfolding has_flag_def by metis
    then show ?thesis
      using t Some by (simp add: chosen_at_def publish_encoder_def final_mode_def Let_def)
  qed
qed

theorem probe_chooses_witness:
  "\<exists>t. probe_encoders (probe_example 2 ''vaapi'' (\<lambda>name format. name = ''software'' \<or> name = ''nvenc'' \<and> format \<noteq> 1))
       (probe_table (encoders Linux False)) = Some (0, t) \<and> pb_chosen t = Some 2"
proof -
  let ?env = "probe_example 2 ''vaapi'' (\<lambda>name format. name = ''software'' \<or> name = ''nvenc'' \<and> format \<noteq> 1)"
    and ?s = "probe_table (encoders Linux False)"
  have "must_probe ?env ?s" by (simp add: must_probe_def probe_example_def probe_table_def)
  moreover have "encoder_settings_ok (pe_settings ?env)"
    by (simp add: encoder_settings_ok_def probe_example_def plain_settings_def)
  moreover have "choice ?env ?s = Some 2" by code_simp
  ultimately show ?thesis using probe_chooses [of ?env ?s] by auto
qed

subsection \<open>The published modes\<close>

lemma validated_h264:
  assumes "validate_encoder env h a ef e = Some (True, e')"
  shows "cd_passed (en_h264 e') \<and> \<not> cd_dynamic_range (en_h264 e')"
proof -
  obtain r where r: "test_codecs env h a ef (fresh_encoder e) = Some r"
    using assms by (auto simp: validate_encoder_def Let_def bind_eq_Some_conv split: if_splits)
  obtain e1 e2 where e1: "test_codecs env h a ef (fresh_encoder e) = Some (Inr e1)"
    and e2: "test_formats env e1 = Some (True, e2)" "e' = force_headers (pe_force_header_replace env) e2"
    using assms r by (cases r) (auto simp: validate_encoder_def Let_def split: if_splits)
  have "cd_passed (en_h264 e1)"
    using e1 by (auto simp: test_codecs_def Let_def bind_eq_Some_conv judge_codec_def split: if_splits)
  moreover have "cd_passed (en_h264 e2) = cd_passed (en_h264 e1) \<and> \<not> cd_dynamic_range (en_h264 e2)"
    using e2(1) by (auto simp: test_formats_def Let_def bind_eq_Some_conv split: if_splits)
  ultimately show ?thesis using e2(2) by (simp add: force_headers_def)
qed

lemma choice_works: "choice env s = Some i \<Longrightarrow> works env s i \<and> i < length (pb_encoders s)"
  by (auto simp: choice_def later_choice_def Let_def fits_def find_Some_iff split: option.splits if_splits)

definition mode_holds :: "int \<Rightarrow> int \<Rightarrow> codec_t \<Rightarrow> bool" where
  "mode_holds configured mode c \<longleftrightarrow>
     mode \<in> {1, 2, 3} \<and> (mode = 2 \<longrightarrow> cd_passed c) \<and> (mode = 3 \<longrightarrow> cd_dynamic_range c \<and> (configured = 3 \<or> cd_passed c))"

lemma final_mode_holds: "0 \<le> mode \<Longrightarrow> mode \<le> 3 \<Longrightarrow> mode_holds mode (final_mode mode c) c"
  by (auto simp: mode_holds_def final_mode_def default_mode_def adjust_mode_def)

text \<open>
  C28. What a successful probe publishes is true of the encoder it chose: H.264 works and is not offered with
  HDR, and the modes of HEVC and AV1 say no more than the encoder can do, if the settings
  do not demand HDR outright.
\<close>

theorem probe_modes_supported:
  assumes "must_probe env s" "encoder_settings_ok (pe_settings env)" "probe_encoders env s = Some (0, t)"
    and "pe_hevc_mode env \<in> {0..3}" "pe_av1_mode env \<in> {0..3}"
  shows "case pb_chosen t of None \<Rightarrow> False
    | Some i \<Rightarrow> i < length (pb_encoders s) \<and>
        cd_passed (en_h264 (pb_encoders t ! i)) \<and> \<not> cd_dynamic_range (en_h264 (pb_encoders t ! i)) \<and>
        mode_holds (pe_hevc_mode env) (pb_hevc_mode t) (en_hevc (pb_encoders t ! i)) \<and>
        mode_holds (pe_av1_mode env) (pb_av1_mode t) (en_av1 (pb_encoders t ! i))"
proof -
  obtain t' where t': "probe_encoders env s = Some (case choice env s of None \<Rightarrow> (-1, t') | Some i \<Rightarrow> (0, publish_encoder i t'))"
    "case choice env s of None \<Rightarrow> probing env s t' | Some i \<Rightarrow> chosen_at env s i t'"
    using probe_loops_choice [OF assms(1) settings_all_defined [OF assms(2)]] by blast
  obtain i where i: "choice env s = Some i" "t = publish_encoder i t'" "chosen_at env s i t'"
    using t' assms(3) by (auto split: option.splits)
  have "verdict env s i = Some (True, tested env s i)"
    using choice_works [OF i(1)] verdict_Some [OF settings_all_defined [OF assms(2)]] by auto
  then have "cd_passed (en_h264 (tested env s i)) \<and> \<not> cd_dynamic_range (en_h264 (tested env s i))"
    unfolding verdict_def by (rule validated_h264)
  moreover have "pb_hevc_mode t = final_mode (pe_hevc_mode env) (en_hevc (tested env s i))"
    "pb_av1_mode t = final_mode (pe_av1_mode env) (en_av1 (tested env s i))" "pb_chosen t = Some i"
    "pb_encoders t ! i = tested env s i"
    using i(2,3) by (simp_all add: chosen_at_def publish_encoder_def final_mode_def Let_def)
  ultimately show ?thesis
    using assms(4,5) i(3) by (simp add: final_mode_holds chosen_at_def)
qed

theorem probe_modes_supported_witness:
  "\<exists>t. probe_encoders (probe_example 2 [] (\<lambda>_ format. format \<noteq> 1)) (probe_table (encoders Linux False)) = Some (0, t) \<and>
     (case pb_chosen t of None \<Rightarrow> False | Some i \<Rightarrow> mode_holds 2 (pb_hevc_mode t) (en_hevc (pb_encoders t ! i)))"
proof -
  let ?env = "probe_example 2 [] (\<lambda>_ format. format \<noteq> 1)" and ?s = "probe_table (encoders Linux False)"
  have m: "must_probe ?env ?s" by (simp add: must_probe_def probe_example_def probe_table_def)
  have o: "encoder_settings_ok (pe_settings ?env)" by (simp add: encoder_settings_ok_def probe_example_def plain_settings_def)
  have "map_option fst (probe_encoders ?env ?s) = Some 0" by code_simp
  then obtain t where t: "probe_encoders ?env ?s = Some (0, t)" by auto
  have "pe_hevc_mode ?env \<in> {0..3}" "pe_av1_mode ?env \<in> {0..3}" by (simp_all add: probe_example_def)
  from probe_modes_supported [OF m o t this] t show ?thesis
    by (auto simp: probe_example_def split: option.splits)
qed

text \<open>
  If the settings demand HEVC with HDR and the encoder fails to encode HEVC at all, the probe
  still publishes HEVC with HDR, since a codec whose test fails keeps the capabilities set before the test.
\<close>

theorem failed_hevc_stays_published:
  "map_option (\<lambda>(r, t). (r, pb_chosen t, pb_hevc_mode t, cd_passed (en_hevc (pb_encoders t ! 0))))
     (probe_encoders (probe_example 3 [] (\<lambda>_ format. format \<noteq> 1)) (probe_table (encoders Linux False))) =
   Some (0, Some 0, 3, False)"
  by code_simp

end
