(* ===== verification/Video_Capture.thy ===== *)
theory Video_Capture
  imports Video_Session Input Audio
begin

text \<open>
  The capture of a display in \<^verbatim>\<open>src/video.cpp\<close>: the list of displays and the chosen one, the pool of
  images, the mapping of a client's picture to the display, and the thread that
  hands the images to the sessions. Sessions and images are known by numbers, time is in milliseconds.
\<close>

section \<open>The display\<close>

definition index_of_name :: "string list \<Rightarrow> string \<Rightarrow> nat option" where
  "index_of_name names name = find (\<lambda>i. names ! i = name) [0..<length names]"

text \<open>
  \<^verbatim>\<open>refresh_displays\<close>: \<open>output_name\<close> is the configured one and \<open>found\<close> what the system lists.
\<close>

definition refresh_displays :: "string \<Rightarrow> string list \<Rightarrow> string list \<times> int \<Rightarrow> string list \<times> int" where
  "refresh_displays output_name found s =
     (case s of (names, index) \<Rightarrow>
       let current = (if 0 \<le> index \<and> index < int (length names) then names ! nat index else [])
       in if found = [] \<and> names \<noteq> [] then (names, index)
          else let names = (if found = [] then [output_name] else found)
               in (names, case index_of_name names (if current \<noteq> [] then current else output_name) of
                    Some i \<Rightarrow> int i | None \<Rightarrow> 0))"

text \<open>A pending switch of the display, \<^verbatim>\<open>std::clamp\<close>.\<close>

definition switch_display :: "int option \<Rightarrow> string list \<times> int \<Rightarrow> string list \<times> int" where
  "switch_display wanted s =
     (case wanted of None \<Rightarrow> s | Some n \<Rightarrow> (fst s, max 0 (min n (int (length (fst s)) - 1))))"

section \<open>The touch port\<close>

record display_geometry =
  dg_width :: int
  dg_height :: int
  dg_offset_x :: int
  dg_offset_y :: int
  dg_env_width :: int
  dg_env_height :: int
  dg_logical_width :: int
  dg_logical_height :: int
  dg_env_logical_width :: int
  dg_env_logical_height :: int

definition fl_min :: "'f float_ops \<Rightarrow> 'f \<Rightarrow> 'f \<Rightarrow> 'f" where
  "fl_min F a b = (if fl_less F b a then b else a)"

text \<open>\<open>half\<close> is 0.5.\<close>

definition make_port :: "'f float_ops \<Rightarrow> 'f \<Rightarrow> display_geometry \<Rightarrow> stream_config \<Rightarrow> 'f touch_port" where
  "make_port F half d config =
     (let fi = fl_of_int F; wd = fi (dg_width d); hd = fi (dg_height d);
          scalar = fl_min F (fl_div F (fi (sc_width config)) wd) (fl_div F (fi (sc_height config)) hd);
          scaled = (0 < dg_logical_width d \<and> 0 < dg_logical_height d \<and> 0 < dg_env_logical_width d \<and> 0 < dg_env_logical_height d);
          tp = (if scaled then fl_min F (fl_div F wd (fi (dg_logical_width d))) (fl_div F hd (fi (dg_logical_height d))) else fi 1)
      in \<lparr>tpt_port = \<lparr>pp_offset_x = dg_offset_x d, pp_offset_y = dg_offset_y d, pp_width = sc_width config,
            pp_height = sc_height config, pp_logical_width = 0, pp_logical_height = 0\<rparr>,
          tpt_env_width = dg_env_width d, tpt_env_height = dg_env_height d,
          tpt_client_offsetX = fl_mul F (fl_sub F (fi (sc_width config)) (fl_mul F scalar wd)) half,
          tpt_client_offsetY = fl_mul F (fl_sub F (fi (sc_height config)) (fl_mul F scalar hd)) half,
          tpt_scalar_inv = fl_div F (fi 1) scalar, tpt_scalar_tpcoords = tp,
          tpt_env_logical_width = (if scaled then dg_env_logical_width d else 0),
          tpt_env_logical_height = (if scaled then dg_env_logical_height d else 0)\<rparr>)"

section \<open>The pool of images\<close>

text \<open>
  The places of the pool, with the number of the image there, and the time each count of
  used images was seen last. \<open>used\<close> tells the images that someone else refers to.
\<close>

record image_pool =
  ip_imgs :: "nat option list"
  ip_timestamps :: "int option list"

definition empty_image_pool :: image_pool where
  "empty_image_pool = \<lparr>ip_imgs = replicate 12 None, ip_timestamps = []\<rparr>"

definition allocated_count :: "nat option list \<Rightarrow> nat" where
  "allocated_count imgs = length (filter (\<lambda>i. i \<noteq> None) imgs)"

definition in_use :: "(nat \<Rightarrow> bool) \<Rightarrow> nat option \<Rightarrow> bool" where
  "in_use used i = (case i of None \<Rightarrow> False | Some n \<Rightarrow> used n)"

definition used_count :: "(nat \<Rightarrow> bool) \<Rightarrow> nat option list \<Rightarrow> nat" where
  "used_count used imgs = length (filter (in_use used) imgs)"

definition see_count :: "int \<Rightarrow> nat \<Rightarrow> int option list \<Rightarrow> int option list" where
  "see_count now n ts = (ts @ replicate (n + 1 - length ts) None)[n := Some now]"

definition trim_timeout :: int where "trim_timeout = 3000"

definition recent :: "int \<Rightarrow> int option \<Rightarrow> bool" where
  "recent now t = (case t of None \<Rightarrow> False | Some w \<Rightarrow> now - w < trim_timeout)"

definition trim_target :: "int \<Rightarrow> nat \<Rightarrow> int option list \<Rightarrow> nat" where
  "trim_target now n ts = fold (\<lambda>i target. if recent now (ts ! i) then i else target) [n..<length ts] n"

text \<open>The loop from the back of the pool, \<open>n\<close> images are to go.\<close>

fun release_unused :: "(nat \<Rightarrow> bool) \<Rightarrow> nat \<Rightarrow> nat option list \<Rightarrow> nat option list" where
  "release_unused used n [] = []"
| "release_unused used n (i # is) =
     (if i \<noteq> None \<and> \<not> in_use used i then None # (if n - 1 = 0 then is else release_unused used (n - 1) is)
      else i # release_unused used n is)"

definition trim_imgs :: "(nat \<Rightarrow> bool) \<Rightarrow> int \<Rightarrow> image_pool \<Rightarrow> image_pool" where
  "trim_imgs used now p =
     (let n = used_count used (ip_imgs p); ts = see_count now n (ip_timestamps p); target = trim_target now n ts
      in if target < allocated_count (ip_imgs p)
         then \<lparr>ip_imgs = rev (release_unused used (allocated_count (ip_imgs p) - target) (rev (ip_imgs p))),
               ip_timestamps = take (target + 1) ts\<rparr>
         else p\<lparr>ip_timestamps := ts\<rparr>)"

text \<open>An element is taken out and put at the front.\<close>

definition to_front :: "nat \<Rightarrow> nat option \<Rightarrow> nat option list \<Rightarrow> nat option list" where
  "to_front i x imgs = x # take i imgs @ drop (Suc i) imgs"

text \<open>
  One pass of \<^verbatim>\<open>pull_free_image_callback\<close>; \<open>alloc\<close> is the image the display makes, if it is asked to and can.
\<close>

definition pull_once :: "(nat \<Rightarrow> bool) \<Rightarrow> nat option \<Rightarrow> int \<Rightarrow> image_pool \<Rightarrow> nat option \<times> image_pool" where
  "pull_once used alloc now p =
     (let imgs = ip_imgs p;
          (out, imgs) = (case find (\<lambda>i. imgs ! i \<noteq> None \<and> \<not> in_use used (imgs ! i)) [0..<length imgs] of
              Some i \<Rightarrow> (imgs ! i, to_front i (imgs ! i) imgs)
            | None \<Rightarrow> (case find (\<lambda>i. imgs ! i = None) [0..<length imgs] of
                Some i \<Rightarrow> (alloc, to_front i alloc imgs)
              | None \<Rightarrow> (None, imgs)))
      in case out of
           None \<Rightarrow> (None, p\<lparr>ip_imgs := imgs\<rparr>)
         | Some n \<Rightarrow> (Some n, trim_imgs (used(n := True)) now (p\<lparr>ip_imgs := imgs\<rparr>)))"

text \<open>The loop, with what it meets in each pass: whether the queue is running, the images in use, the display and the clock.\<close>

fun pull_free_image :: "(bool \<times> (nat \<Rightarrow> bool) \<times> nat option \<times> int) list \<Rightarrow> image_pool \<Rightarrow> nat option \<times> image_pool" where
  "pull_free_image [] p = (None, p)"
| "pull_free_image ((running, used, alloc, now) # passes) p =
     (if \<not> running then (None, p)
      else case pull_once used alloc now p of
          (Some n, p) \<Rightarrow> (Some n, p)
        | (None, p) \<Rightarrow> pull_free_image passes p)"

text \<open>A new display drops all images.\<close>

definition reset_pool :: "image_pool \<Rightarrow> image_pool" where
  "reset_pool p = p\<lparr>ip_imgs := map (\<lambda>_. None) (ip_imgs p)\<rparr>"

section \<open>The capture thread\<close>

text \<open>
  What a call of \<^verbatim>\<open>push_captured_image_callback\<close> meets: the sessions whose images are still wanted, whether an
  image was captured, whether the queue is running, the sessions that wait in it and whether a switch of the display is pending.
\<close>

record push_turn =
  pt_running :: "nat \<Rightarrow> bool"
  pt_captured :: bool
  pt_queue_running :: bool
  pt_incoming :: "nat list"
  pt_switch :: bool

datatype push_result = Push_on | Push_stop | Push_reinit

text \<open>The sessions afterwards, those that got the image, and the answer.\<close>

definition push_captured_image :: "push_turn \<Rightarrow> nat list \<Rightarrow> nat list \<times> nat list \<times> push_result" where
  "push_captured_image t ctxs =
     (let ctxs = filter (pt_running t) ctxs; got = (if pt_captured t then ctxs else [])
      in if \<not> pt_queue_running t then (ctxs, got, Push_stop)
         else (ctxs @ pt_incoming t, got, if pt_switch t then Push_reinit else Push_on))"

text \<open>The capture of one display, until the callback ends it or the display does; \<open>status\<close> is the display's answer.\<close>

fun capture_display :: "push_turn list \<Rightarrow> capture_e \<Rightarrow> nat list \<Rightarrow> nat list \<times> nat list list \<times> capture_e" where
  "capture_display [] status ctxs = (ctxs, [], status)"
| "capture_display (t # ts) status ctxs =
     (case push_captured_image t ctxs of (ctxs, got, r) \<Rightarrow>
       (case r of
          Push_on \<Rightarrow> (case capture_display ts status ctxs of (ctxs, images, status) \<Rightarrow> (ctxs, got # images, status))
        | Push_stop \<Rightarrow> (ctxs, [got], status)
        | Push_reinit \<Rightarrow> (ctxs, [got], if status \<noteq> Capture_error then Capture_reinit else status)))"

text \<open>
  Opening the display again: in each attempt whether the queue is running, the displays found, the
  pending switch and whether the display opens. The result has the displays tried and the one that opened, which ends the thread if there
  is none; \<open>None\<close> is the access to the first session when no session is left.
\<close>

fun reopen_display :: "string \<Rightarrow> (bool \<times> string list \<times> int option \<times> bool) list \<Rightarrow> nat list \<Rightarrow> string list \<times> int
    \<Rightarrow> ((string list \<times> int) list \<times> (string list \<times> int) option) option" where
  "reopen_display output [] ctxs s = Some ([], None)"
| "reopen_display output ((running, found, wanted, opens) # attempts) ctxs s =
     (if \<not> running then Some ([], None)
      else let s = switch_display wanted (refresh_displays output found s)
           in if ctxs = [] then None
              else if opens then Some ([s], Some s)
              else map_option (\<lambda>(tried, r). (s # tried, r)) (reopen_display output attempts ctxs s))"

text \<open>
  A round of the thread's loop: the capture, then, for a new display, the passes that wait until the old one
  is released, with the sessions still running in each, and the attempts to open the new one.
\<close>

record capture_round =
  rd_turns :: "push_turn list"
  rd_status :: capture_e
  rd_waits :: "(nat \<Rightarrow> bool) list"
  rd_attempts :: "(bool \<times> string list \<times> int option \<times> bool) list"

definition wait_for_release :: "(nat \<Rightarrow> bool) list \<Rightarrow> nat list \<Rightarrow> nat list" where
  "wait_for_release waits ctxs = fold filter waits ctxs"

text \<open>
  The rounds while the queue is running: the sessions at the end, the displays tried and the sessions that
  got each image.
\<close>

fun capture_rounds :: "string \<Rightarrow> capture_round list \<Rightarrow> nat list \<Rightarrow> string list \<times> int
    \<Rightarrow> (nat list \<times> (string list \<times> int) list \<times> nat list list) option" where
  "capture_rounds output [] ctxs s = Some (ctxs, [], [])"
| "capture_rounds output (r # rs) ctxs s =
     (case capture_display (rd_turns r) (rd_status r) ctxs of (ctxs, got, status) \<Rightarrow>
       if status \<noteq> Capture_reinit then Some (ctxs, [], got)
       else let ctxs = wait_for_release (rd_waits r) ctxs
            in (case reopen_display output (rd_attempts r) ctxs s of
                  None \<Rightarrow> None
                | Some (tried, None) \<Rightarrow> Some (ctxs, tried, got)
                | Some (tried, Some s) \<Rightarrow> map_option (\<lambda>(ctxs, tries, images). (ctxs, tried @ tries, got @ images))
                    (capture_rounds output rs ctxs s)))"

text \<open>
  \<^verbatim>\<open>captureThread\<close>: the first session, if the queue gives one, the displays found, whether the first of
  them opens, the rounds and the sessions left in the queue. The result has the sessions whose images are stopped in the end.
\<close>

definition captureThread :: "string \<Rightarrow> nat option \<Rightarrow> string list \<Rightarrow> bool \<Rightarrow> capture_round list \<Rightarrow> nat list
    \<Rightarrow> (nat list \<times> (string list \<times> int) list \<times> nat list list) option" where
  "captureThread output first found opens rounds left =
     (case first of
        None \<Rightarrow> Some (left, [], [])
      | Some c \<Rightarrow>
          let s = refresh_displays output found ([], -1)
          in if \<not> opens then Some (c # left, [s], [])
             else map_option (\<lambda>(ctxs, tried, got). (ctxs @ left, s # tried, got)) (capture_rounds output rounds [c] s))"

end
