(* ===== verification/Video_Capture_Props.thy ===== *)
theory Video_Capture_Props
  imports Video_Capture Video_Probe
begin

text \<open>
  Properties of the capture: the pool of images hands out only free images and keeps as many as were
  used at once lately, the chosen display stays valid, and the mapping of the pointer inverts the letterbox.
\<close>

section \<open>The pool of images\<close>

lemma release_unused_facts:
  "length (release_unused used n is) = length is"
  "filter (in_use used) (release_unused used n is) = filter (in_use used) is"
  "mset (filter (\<lambda>i. i \<noteq> None) (release_unused used n is)) \<subseteq># mset (filter (\<lambda>i. i \<noteq> None) is)"
  by (induction used n "is" rule: release_unused.induct)
    (auto simp: in_use_def subset_mset.add_increasing subset_mset.add_increasing2 intro: subset_mset.order_trans mset_subset_eq_add_right)

lemma release_unused_mset: "filter_mset (in_use used) (mset (release_unused used n is)) = filter_mset (in_use used) (mset is)"
  by (simp add: release_unused_facts(2) flip: mset_filter)

lemma used_le_allocated: "used_count used imgs \<le> allocated_count imgs"
  unfolding used_count_def allocated_count_def in_use_def by (induction imgs) auto

lemma release_unused_count:
  "0 < n \<Longrightarrow> n + used_count used is \<le> allocated_count is \<Longrightarrow> allocated_count (release_unused used n is) = allocated_count is - n"
proof (induction used n "is" rule: release_unused.induct)
  case (2 used n i "is")
  show ?case
  proof (cases "i \<noteq> None \<and> \<not> in_use used i")
    case True
    then show ?thesis using 2 by (cases "n = 1") (auto simp: allocated_count_def used_count_def)
  next
    case False
    have "used_count used is \<le> allocated_count is" by (rule used_le_allocated)
    then show ?thesis
      using False 2 by (cases i) (auto simp: allocated_count_def used_count_def in_use_def)
  qed
qed (simp add: allocated_count_def)

lemma count_rev [simp]: "used_count used (rev is) = used_count used is" "allocated_count (rev is) = allocated_count is"
  by (simp_all add: used_count_def allocated_count_def flip: rev_filter)

lemma trim_fold:
  fixes ts :: "int option list" and now :: int
  defines "g \<equiv> \<lambda>i target. if recent now (ts ! i) then i else target"
  shows "n \<le> m \<Longrightarrow> n \<le> fold g [n..<m] n \<and> (\<forall>i. n \<le> i \<and> i < m \<and> recent now (ts ! i) \<longrightarrow> i \<le> fold g [n..<m] n) \<and>
    (fold g [n..<m] n = n \<or> fold g [n..<m] n < m \<and> recent now (ts ! fold g [n..<m] n))"
proof (induction m)
  case (Suc m)
  show ?case
  proof (cases "n = Suc m")
    case False
    then have "n \<le> m" using Suc.prems by simp
    then show ?thesis using Suc.IH by (auto simp: g_def less_Suc_eq)
  qed simp
qed simp

lemma trim_target_facts:
  assumes "n < length ts"
  shows "n \<le> trim_target now n ts" "trim_target now n ts < length ts"
    "\<And>i. i < length ts \<Longrightarrow> recent now (ts ! i) \<Longrightarrow> i \<le> trim_target now n ts"
    "trim_target now n ts = n \<or> recent now (ts ! trim_target now n ts)"
proof -
  note f = trim_fold [of n "length ts" now ts, OF less_imp_le [OF assms], folded trim_target_def]
  show "n \<le> trim_target now n ts" "trim_target now n ts = n \<or> recent now (ts ! trim_target now n ts)"
    using f by blast+
  show "trim_target now n ts < length ts" using f assms by auto
  show "i \<le> trim_target now n ts" if "i < length ts" "recent now (ts ! i)" for i
    using f that by (cases "n \<le> i") auto
qed

lemma see_count_facts:
  "n < length (see_count now n ts)" "see_count now n ts ! n = Some now"
  "k < length ts \<Longrightarrow> k \<noteq> n \<Longrightarrow> see_count now n ts ! k = ts ! k"
  "k < length (see_count now n ts) \<Longrightarrow> k \<noteq> n \<Longrightarrow> see_count now n ts ! k = Some w \<Longrightarrow> k < length ts \<and> ts ! k = Some w"
  "length ts \<le> length (see_count now n ts)"
  by (auto simp: see_count_def nth_append nth_list_update split: if_splits)

lemma trim_imgs_facts:
  defines "n p used \<equiv> used_count used (ip_imgs p)"
  shows "length (ip_imgs (trim_imgs used now p)) = length (ip_imgs p)"
    "mset (filter (in_use used) (ip_imgs (trim_imgs used now p))) = mset (filter (in_use used) (ip_imgs p))"
    "mset (filter (\<lambda>i. i \<noteq> None) (ip_imgs (trim_imgs used now p))) \<subseteq># mset (filter (\<lambda>i. i \<noteq> None) (ip_imgs p))"
    "allocated_count (ip_imgs (trim_imgs used now p)) =
      min (allocated_count (ip_imgs p)) (trim_target now (n p used) (see_count now (n p used) (ip_timestamps p)))"
    "ip_timestamps (trim_imgs used now p) = see_count now (n p used) (ip_timestamps p) \<or>
     ip_timestamps (trim_imgs used now p) = take (trim_target now (n p used) (see_count now (n p used) (ip_timestamps p)) + 1)
       (see_count now (n p used) (ip_timestamps p))"
proof -
  let ?ts = "see_count now (n p used) (ip_timestamps p)"
  let ?t = "trim_target now (n p used) ?ts"
  show "length (ip_imgs (trim_imgs used now p)) = length (ip_imgs p)"
    by (simp add: trim_imgs_def Let_def release_unused_facts)
  show "mset (filter (in_use used) (ip_imgs (trim_imgs used now p))) = mset (filter (in_use used) (ip_imgs p))"
    by (simp add: trim_imgs_def Let_def release_unused_mset)
  show "mset (filter (\<lambda>i. i \<noteq> None) (ip_imgs (trim_imgs used now p))) \<subseteq># mset (filter (\<lambda>i. i \<noteq> None) (ip_imgs p))"
    using release_unused_facts(3) [of used "allocated_count (ip_imgs p) - ?t" "rev (ip_imgs p)"]
    by (simp add: trim_imgs_def Let_def n_def flip: rev_filter)
  show "allocated_count (ip_imgs (trim_imgs used now p)) = min (allocated_count (ip_imgs p)) ?t"
  proof (cases "?t < allocated_count (ip_imgs p)")
    case True
    have "n p used \<le> ?t" by (rule trim_target_facts(1) [OF see_count_facts(1)])
    then show ?thesis
      using True release_unused_count [of "allocated_count (ip_imgs p) - ?t" used "rev (ip_imgs p)"]
      by (simp add: trim_imgs_def Let_def n_def)
  next
    case False
    then show ?thesis by (simp add: trim_imgs_def Let_def n_def)
  qed
  show "ip_timestamps (trim_imgs used now p) = ?ts \<or> ip_timestamps (trim_imgs used now p) = take (?t + 1) ?ts"
    by (simp add: trim_imgs_def Let_def n_def)
qed

lemma mset_to_front:
  assumes "i < length imgs"
  shows "mset (to_front i x imgs) = mset imgs - {#imgs ! i#} + {#x#}"
proof -
  have "mset imgs = mset (take i imgs) + {#imgs ! i#} + mset (drop (Suc i) imgs)"
    by (subst id_take_nth_drop [OF assms]) simp
  then show ?thesis by (simp add: to_front_def)
qed

lemma find_index:
  "find P [0..<n] = Some i \<Longrightarrow> i < n \<and> P i"
  "find P [0..<n] = None \<Longrightarrow> i < n \<Longrightarrow> \<not> P i"
  by (auto simp: find_Some_iff find_None_iff)

text \<open>A pull hands out a free image of the pool or a new one, or nothing.\<close>

lemma pull_once_cases:
  assumes "pull_once used alloc now p = (out, p')"
  obtains
    (Nothing) "out = None" "mset (ip_imgs p') = mset (ip_imgs p)" "ip_timestamps p' = ip_timestamps p"
      "\<And>m. Some m \<in> set (ip_imgs p) \<Longrightarrow> used m" "alloc = None \<or> None \<notin> set (ip_imgs p)"
  | (Free) n imgs where "out = Some n" "\<not> used n" "mset imgs = mset (ip_imgs p)" "Some n \<in> set imgs"
      "p' = trim_imgs (used(n := True)) now (p\<lparr>ip_imgs := imgs\<rparr>)"
  | (New) n imgs where "out = Some n" "alloc = Some n" "None \<in># mset (ip_imgs p)"
      "mset imgs = mset (ip_imgs p) - {#None#} + {#Some n#}" "\<And>m. Some m \<in> set (ip_imgs p) \<Longrightarrow> used m"
      "p' = trim_imgs (used(n := True)) now (p\<lparr>ip_imgs := imgs\<rparr>)"
proof -
  let ?imgs = "ip_imgs p"
  let ?free = "\<lambda>i. ?imgs ! i \<noteq> None \<and> \<not> in_use used (?imgs ! i)" and ?empty = "\<lambda>i. ?imgs ! i = None"
  have all: "used m" if none: "find ?free [0..<length ?imgs] = None" and m: "Some m \<in> set ?imgs" for m
  proof -
    obtain j where "j < length ?imgs" "?imgs ! j = Some m" using m by (metis in_set_conv_nth)
    then show ?thesis using find_index(2) [OF none, of j] by (simp add: in_use_def)
  qed
  consider (free) i where "find ?free [0..<length ?imgs] = Some i"
    | (alloc) i where "find ?free [0..<length ?imgs] = None" "find ?empty [0..<length ?imgs] = Some i"
    | (none) "find ?free [0..<length ?imgs] = None" "find ?empty [0..<length ?imgs] = None" by fastforce
  then show thesis
  proof cases
    case free
    note i = find_index(1) [OF free]
    then obtain n where n: "?imgs ! i = Some n" "\<not> used n" by (auto simp: in_use_def)
    have m: "mset (to_front i (Some n) ?imgs) = mset ?imgs"
      using mset_to_front [of i ?imgs "Some n"] i n by (metis insert_DiffM2 nth_mem_mset)
    show thesis
      by (rule Free [of n "to_front i (Some n) ?imgs"])
        (use assms free n m in \<open>auto simp: pull_once_def Let_def to_front_def\<close>)
  next
    case alloc
    note i = find_index(1) [OF alloc(2)]
    have none: "None \<in># mset ?imgs" using i by (metis nth_mem_mset)
    show thesis
    proof (cases "alloc")
      case None
      then show thesis
        using assms alloc i mset_to_front [of i ?imgs None] none all [OF alloc(1)]
        by (intro Nothing) (auto simp: pull_once_def Let_def)
    next
      case (Some n)
      then show thesis
        using assms alloc i mset_to_front [of i ?imgs "Some n"] none all [OF alloc(1)]
        by (intro New [of n "to_front i (Some n) ?imgs"]) (auto simp: pull_once_def Let_def)
    qed
  next
    case none
    have "None \<notin> set ?imgs" using find_index(2) [OF none(2)] by (metis in_set_conv_nth)
    then show thesis using assms none all [OF none(1)] by (intro Nothing) (auto simp: pull_once_def Let_def)
  qed
qed

text \<open>
  The pools a capture goes through, with the clock and the history of how many images were used at once,
  the image just handed out included. A new image has a number of its own.
\<close>

inductive pool_reachable :: "int \<Rightarrow> (int \<times> nat) list \<Rightarrow> image_pool \<Rightarrow> bool" where
  pool_start: "pool_reachable now [] empty_image_pool"
| pool_reset: "pool_reachable now hist p \<Longrightarrow> pool_reachable now hist (reset_pool p)"
| pool_pull: "pool_reachable now hist p \<Longrightarrow> now \<le> now' \<Longrightarrow> alloc \<notin> Some ` {n. Some n \<in> set (ip_imgs p)} \<Longrightarrow>
    pull_once used alloc now' p = (out, p') \<Longrightarrow>
    pool_reachable now' (case out of None \<Rightarrow> hist | Some n \<Rightarrow> (now', used_count (used(n := True)) (ip_imgs p')) # hist) p'"

definition images_inv :: "int \<Rightarrow> (int \<times> nat) list \<Rightarrow> image_pool \<Rightarrow> bool" where
  "images_inv now hist p \<longleftrightarrow>
     length (ip_imgs p) = 12 \<and> (\<forall>n. count (mset (ip_imgs p)) (Some n) \<le> 1) \<and>
     (\<forall>(t, k)\<in>set hist. t \<le> now \<and>
        (now - t < trim_timeout \<longrightarrow> k < length (ip_timestamps p) \<and> (\<exists>w\<ge>t. ip_timestamps p ! k = Some w))) \<and>
     (\<forall>k w. k < length (ip_timestamps p) \<and> ip_timestamps p ! k = Some w \<longrightarrow> (w, k) \<in> set hist)"

lemma images_inv_later: "images_inv now hist p \<Longrightarrow> now \<le> now' \<Longrightarrow> images_inv now' hist p"
  unfolding images_inv_def by fastforce

text \<open>What remembering a count does to the timestamps.\<close>

lemma seen_recent:
  assumes "images_inv now hist p" "ts = see_count now N (ip_timestamps p)" "(t, k) \<in> set ((now, N) # hist)" "now - t < trim_timeout"
  shows "k < length ts \<and> (\<exists>w\<ge>t. ts ! k = Some w) \<and> recent now (ts ! k)"
proof (cases "k = N")
  case True
  then show ?thesis
    using assms see_count_facts(1,2) [where now = now and n = N and ts = "ip_timestamps p"]
    by (auto simp: images_inv_def recent_def trim_timeout_def)
next
  case False
  then obtain w where w: "k < length (ip_timestamps p)" "ip_timestamps p ! k = Some w" "t \<le> w"
    using assms by (auto simp: images_inv_def)
  then have "ts ! k = Some w" "k < length ts"
    using False assms(2) see_count_facts(3,5) [where now = now and n = N and ts = "ip_timestamps p"] by auto
  then show ?thesis using w assms(4) by (auto simp: recent_def)
qed

lemma seen_history:
  assumes "images_inv now hist p" "ts = see_count now N (ip_timestamps p)" "k < length ts" "ts ! k = Some w"
  shows "(w, k) \<in> set ((now, N) # hist)"
proof (cases "k = N")
  case True
  then show ?thesis using assms see_count_facts(2) [where now = now and n = N and ts = "ip_timestamps p"] by simp
next
  case False
  then show ?thesis
    using assms see_count_facts(4) [where now = now and n = N and ts = "ip_timestamps p"] by (auto simp: images_inv_def)
qed

lemma target_is_peak:
  assumes "images_inv now hist p" "ts = see_count now N (ip_timestamps p)"
  shows "trim_target now N ts = Max {k. \<exists>t. (t, k) \<in> set ((now, N) # hist) \<and> now - t < trim_timeout}" (is "_ = Max ?K")
proof (rule Max_eqI [symmetric])
  have "?K \<subseteq> snd ` set ((now, N) # hist)" by force
  then show "finite ?K" by (rule finite_subset) simp
next
  have N: "N < length ts" using assms(2) see_count_facts(1) by simp
  show "k \<le> trim_target now N ts" if k: "k \<in> ?K" for k
    using k seen_recent [OF assms] trim_target_facts(3) [OF N] by blast
  show "trim_target now N ts \<in> ?K"
    using trim_target_facts(4) [OF N, of now]
  proof
    assume "trim_target now N ts = N"
    then show ?thesis by (auto simp: trim_timeout_def)
  next
    let ?t = "trim_target now N ts"
    assume "recent now (ts ! ?t)"
    then obtain w where "ts ! ?t = Some w" "now - w < trim_timeout" by (auto simp: recent_def split: option.splits)
    then show ?thesis using seen_history [OF assms trim_target_facts(2) [OF N]] by blast
  qed
qed

lemma trim_keeps_inv:
  assumes "images_inv now hist p" "p' = trim_imgs used now p"
  shows "images_inv now ((now, used_count used (ip_imgs p)) # hist) p'"
proof -
  let ?N = "used_count used (ip_imgs p)"
  let ?ts = "see_count now ?N (ip_timestamps p)"
  let ?target = "trim_target now ?N ?ts"
  have N: "?N < length ?ts" by (rule see_count_facts(1))
  note facts = trim_imgs_facts [of used now p]
  have ts': "ip_timestamps p' = ?ts \<or> ip_timestamps p' = take (?target + 1) ?ts" using facts(5) assms(2) by simp
  have recent_kept: "k < length (ip_timestamps p') \<and> ip_timestamps p' ! k = ?ts ! k" if k: "k < length ?ts" "recent now (?ts ! k)" for k
    using ts' k trim_target_facts(3) [OF N k] trim_target_facts(2) [OF N, of now] by auto
  have old: "\<forall>n. count (mset (ip_imgs p)) (Some n) \<le> 1" "length (ip_imgs p) = 12" using assms(1) by (auto simp: images_inv_def)
  have "count (mset (ip_imgs p')) (Some n) \<le> count (mset (ip_imgs p)) (Some n)" for n
    using mset_subset_eq_count [OF facts(3), of "Some n"] assms(2) by simp
  then have "\<forall>n. count (mset (ip_imgs p')) (Some n) \<le> 1" using old(1) le_trans by blast
  moreover have "length (ip_imgs p') = 12" using facts(1) assms(2) old(2) by simp
  moreover have "t \<le> now \<and> (now - t < trim_timeout \<longrightarrow> k < length (ip_timestamps p') \<and> (\<exists>w\<ge>t. ip_timestamps p' ! k = Some w))"
    if tk: "(t, k) \<in> set ((now, ?N) # hist)" for t k
  proof -
    have "t \<le> now" using tk assms(1) by (auto simp: images_inv_def)
    moreover have "k < length (ip_timestamps p') \<and> (\<exists>w\<ge>t. ip_timestamps p' ! k = Some w)" if "now - t < trim_timeout"
      using seen_recent [OF assms(1) refl tk that] recent_kept by metis
    ultimately show ?thesis by blast
  qed
  moreover have "(w, k) \<in> set ((now, ?N) # hist)" if w: "k < length (ip_timestamps p')" "ip_timestamps p' ! k = Some w" for k w
    using seen_history [OF assms(1) refl, of k ?N w] w ts' by auto
  ultimately show ?thesis unfolding images_inv_def by blast
qed

lemma used_mset: "mset imgs = mset imgs' \<Longrightarrow> used_count used imgs = used_count used imgs' \<and> allocated_count imgs = allocated_count imgs'"
  unfolding used_count_def allocated_count_def by (metis mset_filter size_mset)

lemma allocated_mset: "allocated_count imgs = size (filter_mset (\<lambda>i. i \<noteq> None) (mset imgs))"
  unfolding allocated_count_def by (metis mset_filter size_mset)

lemma trim_used_count: "used_count used (ip_imgs (trim_imgs used now p)) = used_count used (ip_imgs p)"
  using trim_imgs_facts(2) [of used now p] unfolding used_count_def by (metis size_mset)

lemma trim_history:
  assumes "images_inv now hist p" "p' = trim_imgs used now p"
  shows "images_inv now ((now, used_count used (ip_imgs p')) # hist) p'"
  using trim_keeps_inv [OF assms] assms(2) trim_used_count by simp

lemma images_inv_imgs:
  assumes "images_inv now hist p" "length imgs = 12" "\<forall>n. count (mset imgs) (Some n) \<le> 1"
  shows "images_inv now hist (p\<lparr>ip_imgs := imgs\<rparr>)"
  using assms by (simp add: images_inv_def)

lemma new_image_distinct:
  assumes "\<forall>n. count (mset imgs) (Some n) \<le> 1" "Some n \<notin> set imgs" "mset imgs' = mset imgs - {#None#} + {#Some n#}"
  shows "\<forall>m. count (mset imgs') (Some m) \<le> 1"
proof
  fix m
  have "count (mset imgs) (Some n) = 0" using assms(2) by (simp add: count_eq_zero_iff)
  then show "count (mset imgs') (Some m) \<le> 1" using assms(1) by (auto simp: assms(3))
qed

lemma reachable_inv: "pool_reachable now hist p \<Longrightarrow> images_inv now hist p"
proof (induction rule: pool_reachable.induct)
  case (pool_start now)
  show ?case by (auto simp: images_inv_def empty_image_pool_def)
next
  case (pool_reset now hist p)
  have "map (\<lambda>_. None) (ip_imgs p) = replicate (length (ip_imgs p)) (None :: nat option)" by (induction "ip_imgs p") (auto simp: map_replicate_const)
  then show ?case
    using pool_reset.IH by (auto simp: images_inv_def reset_pool_def)
next
  case (pool_pull now hist p now' alloc used out p')
  note inv = images_inv_later [OF pool_pull.IH pool_pull.hyps(2)]
  then have old: "length (ip_imgs p) = 12" "\<forall>n. count (mset (ip_imgs p)) (Some n) \<le> 1" by (auto simp: images_inv_def)
  show ?case
    using pool_pull.hyps(4)
  proof (cases rule: pull_once_cases)
    case Nothing
    then have "length (ip_imgs p') = 12" using old by (metis size_mset)
    then show ?thesis using inv Nothing old by (simp add: images_inv_def)
  next
    case (Free n imgs)
    then have "length imgs = 12" using old by (metis size_mset)
    then have "images_inv now' hist (p\<lparr>ip_imgs := imgs\<rparr>)" using inv Free old by (intro images_inv_imgs) simp_all
    then show ?thesis using trim_history Free by simp
  next
    case (New n imgs)
    have "size (mset imgs) = 12" using New(3,4) old(1) by (simp add: size_Diff_singleton)
    then have "length imgs = 12" by simp
    moreover have "\<forall>m. count (mset imgs) (Some m) \<le> 1"
      using new_image_distinct [OF old(2) _ New(4)] New(2) pool_pull.hyps(3) by auto
    ultimately have "images_inv now' hist (p\<lparr>ip_imgs := imgs\<rparr>)" using inv by (intro images_inv_imgs)
    then show ?thesis using trim_history New by simp
  qed
qed

lemma trim_kept:
  "Some m \<in> set (ip_imgs p) \<Longrightarrow> used m \<Longrightarrow> Some m \<in> set (ip_imgs (trim_imgs used now p))"
proof -
  assume "Some m \<in> set (ip_imgs p)" "used m"
  then have "Some m \<in># mset (filter (in_use used) (ip_imgs p))" by (simp add: in_use_def)
  then have "Some m \<in># mset (filter (in_use used) (ip_imgs (trim_imgs used now p)))" by (simp only: trim_imgs_facts(2))
  then show ?thesis by simp
qed

lemma distinct_count: "(\<And>a. count (mset xs) a \<le> 1) \<Longrightarrow> distinct xs"
proof (induction xs)
  case (Cons x xs)
  have "count (mset xs) x = 0" using Cons.prems [of x] by simp
  moreover have "count (mset xs) a \<le> 1" for a using Cons.prems [of a] by (simp split: if_splits add: count_eq_zero_iff [THEN iffD2])
  ultimately show ?case using Cons.IH by (simp add: count_eq_zero_iff)
qed simp

text \<open>
  C31. The pool never hands out an image that is in use, keeps every image that is in use, has no image twice
  and always twelve places; it makes a new image only when all others are in use, and hands out none
  only if all twelve are in use or the display makes none.
\<close>

theorem image_pool_safe:
  assumes "pool_reachable now hist p" "now \<le> now'" "alloc \<notin> Some ` {n. Some n \<in> set (ip_imgs p)}"
    and "pull_once used alloc now' p = (out, p')"
  shows "length (ip_imgs p') = 12 \<and> distinct (filter (\<lambda>i. i \<noteq> None) (ip_imgs p')) \<and>
    {m. Some m \<in> set (ip_imgs p) \<and> used m} \<subseteq> {m. Some m \<in> set (ip_imgs p')} \<and>
    (case out of
       None \<Rightarrow> {m. Some m \<in> set (ip_imgs p)} \<subseteq> {m. used m} \<and> (alloc = None \<or> None \<notin> set (ip_imgs p))
     | Some n \<Rightarrow> Some n \<in> set (ip_imgs p') \<and>
         (if Some n \<in> set (ip_imgs p) then \<not> used n else alloc = Some n \<and> {m. Some m \<in> set (ip_imgs p)} \<subseteq> {m. used m}))"
proof -
  have inv: "length (ip_imgs p') = 12" "\<forall>n. count (mset (ip_imgs p')) (Some n) \<le> 1"
    using reachable_inv [OF pool_pull [OF assms]] by (auto simp: images_inv_def)
  have "count (mset (filter (\<lambda>i. i \<noteq> None) (ip_imgs p'))) i \<le> 1" for i
    using inv(2) by (cases i) auto
  then have d: "distinct (filter (\<lambda>i. i \<noteq> None) (ip_imgs p'))" by (rule distinct_count)
  show ?thesis
    using assms(4)
  proof (cases rule: pull_once_cases)
    case Nothing
    then have "set (ip_imgs p') = set (ip_imgs p)" by (metis set_mset_mset)
    then show ?thesis using inv(1) d Nothing by auto
  next
    case (Free n imgs)
    then have s: "set imgs = set (ip_imgs p)" by (metis set_mset_mset)
    then have "Some m \<in> set (ip_imgs p')" if "Some m \<in> set (ip_imgs p)" "used m \<or> m = n" for m
      using trim_kept [of m "p\<lparr>ip_imgs := imgs\<rparr>" "used(n := True)" now'] that Free by auto
    then show ?thesis using inv(1) d Free s by auto
  next
    case (New n imgs)
    have s: "Some m \<in> set imgs \<longleftrightarrow> Some m \<in> set (ip_imgs p) \<or> m = n" for m
    proof -
      have "Some m \<in> set imgs \<longleftrightarrow> Some m \<in># mset (ip_imgs p) - {#None#} + {#Some n#}"
        unfolding New(4) [symmetric] by simp
      then show ?thesis by (auto simp: in_diff_count)
    qed
    have "Some m \<in> set (ip_imgs p')" if "Some m \<in> set (ip_imgs p) \<and> used m \<or> m = n" for m
      using trim_kept [of m "p\<lparr>ip_imgs := imgs\<rparr>" "used(n := True)" now'] that New s by auto
    moreover have "Some n \<notin> set (ip_imgs p)" using New assms(3) by auto
    ultimately show ?thesis using inv(1) d New by auto
  qed
qed

text \<open>Two images, the first of them kept by an encoder, then nothing for more than three seconds.\<close>

definition sample_images :: image_pool where
  "sample_images = snd (pull_once (\<lambda>n. n = 7) (Some 8) 10 (snd (pull_once (\<lambda>_. False) (Some 7) 0 empty_image_pool)))"

lemma sample_reachable: "pool_reachable 10 [(10, 2), (0, 1)] sample_images"
proof -
  have 1: "pull_once (\<lambda>_. False) (Some 7) 0 empty_image_pool = (Some 7, snd (pull_once (\<lambda>_. False) (Some 7) 0 empty_image_pool))"
    by code_simp
  have r1: "pool_reachable 0 [(0, 1)] (snd (pull_once (\<lambda>_. False) (Some 7) 0 empty_image_pool))"
  proof -
    have "used_count ((\<lambda>_. False)(7 := True)) (ip_imgs (snd (pull_once (\<lambda>_. False) (Some 7) 0 empty_image_pool))) = 1" by code_simp
    moreover have "Some 7 \<notin> Some ` {n. Some n \<in> set (ip_imgs empty_image_pool)}" by (simp add: empty_image_pool_def)
    ultimately show ?thesis using pool_pull [OF pool_start [of 0] _ _ 1] by simp
  qed
  have "used_count ((\<lambda>n. n = 7)(8 := True)) (ip_imgs sample_images) = 2" by code_simp
  moreover have 2: "pull_once (\<lambda>n. n = 7) (Some 8) 10 (snd (pull_once (\<lambda>_. False) (Some 7) 0 empty_image_pool)) = (Some 8, sample_images)"
    by code_simp
  moreover have "Some 8 \<notin> Some ` {n. Some n \<in> set (ip_imgs (snd (pull_once (\<lambda>_. False) (Some 7) 0 empty_image_pool)))}"
  proof -
    have "Some 8 \<notin> set (ip_imgs (snd (pull_once (\<lambda>_. False) (Some (7::nat)) 0 empty_image_pool)))" by code_simp
    then show ?thesis by auto
  qed
  ultimately show ?thesis using pool_pull [OF r1 _ _ 2] by simp
qed

theorem image_pool_safe_witness:
  "pull_once (\<lambda>n. n = 7 \<or> n = 8) (Some 9) 20 sample_images = (Some 9, snd (pull_once (\<lambda>n. n = 7 \<or> n = 8) (Some 9) 20 sample_images)) \<and>
   Some 7 \<in> set (ip_imgs (snd (pull_once (\<lambda>n. n = 7 \<or> n = 8) (Some 9) 20 sample_images)))"
proof -
  have p: "pull_once (\<lambda>n. n = 7 \<or> n = 8) (Some 9) 20 sample_images = (Some 9, snd (pull_once (\<lambda>n. n = 7 \<or> n = 8) (Some 9) 20 sample_images))"
    by code_simp
  have "Some 9 \<notin> set (ip_imgs sample_images)" "Some 7 \<in> set (ip_imgs sample_images)" by code_simp+
  then show ?thesis using image_pool_safe [OF sample_reachable _ _ p] p by auto
qed

text \<open>
  C32. After an image has been handed out the pool holds no more images than were in use at once at
  some time in the last three seconds, and no fewer as long as it had them.
\<close>

theorem pool_keeps_recent_peak:
  assumes "pool_reachable now hist p" "now \<le> now'" "alloc \<notin> Some ` {n. Some n \<in> set (ip_imgs p)}"
    and "pull_once used alloc now' p = (Some n, p')"
  shows "allocated_count (ip_imgs p') =
    min (allocated_count (ip_imgs p) + (if Some n \<in> set (ip_imgs p) then 0 else 1))
      (Max {k. \<exists>t. (t, k) \<in> set ((now', used_count (used(n := True)) (ip_imgs p')) # hist) \<and> now' - t < trim_timeout})"
proof -
  note inv = images_inv_later [OF reachable_inv [OF assms(1)] assms(2)]
  obtain imgs where imgs: "p' = trim_imgs (used(n := True)) now' (p\<lparr>ip_imgs := imgs\<rparr>)"
    "allocated_count imgs = allocated_count (ip_imgs p) + (if Some n \<in> set (ip_imgs p) then 0 else 1)"
    using assms(4)
  proof (cases rule: pull_once_cases)
    case (Free m imgs)
    then have "Some n \<in> set (ip_imgs p)" by (metis option.inject set_mset_mset)
    then show ?thesis using that [of imgs] Free(1,5) used_mset [OF Free(3)] by simp
  next
    case (New m imgs)
    have "Some n \<notin> set (ip_imgs p)" using New assms(3) by auto
    moreover have "allocated_count imgs = Suc (allocated_count (ip_imgs p))"
      unfolding allocated_mset New(4) filter_union_mset filter_diff_mset by simp
    ultimately show ?thesis using that New by simp
  qed simp
  let ?N = "used_count (used(n := True)) imgs"
  have "trim_target now' ?N (see_count now' ?N (ip_timestamps p)) =
      Max {k. \<exists>t. (t, k) \<in> set ((now', ?N) # hist) \<and> now' - t < trim_timeout}"
    by (rule target_is_peak [OF inv refl])
  moreover have "used_count (used(n := True)) (ip_imgs p') = ?N" using imgs(1) trim_used_count by simp
  ultimately show ?thesis
    using trim_imgs_facts(4) [of "used(n := True)" now' "p\<lparr>ip_imgs := imgs\<rparr>"] imgs by simp
qed

theorem pool_keeps_recent_peak_witness:
  "allocated_count (ip_imgs (snd (pull_once (\<lambda>n. n = 7) (Some 9) 3500 sample_images))) =
     min (2 + 0) (Max {k. \<exists>t. (t, k) \<in> set ((3500::int, 2::nat) # [(10, 2), (0, 1)]) \<and> 3500 - t < trim_timeout})"
proof -
  let ?r = "pull_once (\<lambda>n. n = 7) (Some 9) 3500 sample_images"
  have p: "?r = (Some 8, snd ?r)" by code_simp
  have "Some 9 \<notin> set (ip_imgs sample_images)" "Some 8 \<in> set (ip_imgs sample_images)" "allocated_count (ip_imgs sample_images) = 2"
    "used_count ((\<lambda>n. n = 7)(8 := True)) (ip_imgs (snd ?r)) = 2"
    by code_simp+
  then show ?thesis using pool_keeps_recent_peak [OF sample_reachable _ _ p] by auto
qed

section \<open>The pointer\<close>

text \<open>Arithmetic without rounding.\<close>

definition exact :: "rat float_ops \<Rightarrow> bool" where
  "exact F \<longleftrightarrow> fl_of_int F = of_int \<and> fl_add F = (+) \<and> fl_sub F = (-) \<and> fl_mul F = (*) \<and> fl_div F = (/) \<and> fl_less F = (<)"

lemma exact_clamp: "exact F \<Longrightarrow> lo \<le> v \<Longrightarrow> v \<le> hi \<Longrightarrow> fl_clamp F v lo hi = v"
  by (auto simp: exact_def fl_clamp_def)

lemma exact_clamp_bounds: "exact F \<Longrightarrow> lo \<le> hi \<Longrightarrow> lo \<le> fl_clamp F v lo hi \<and> fl_clamp F v lo hi \<le> hi"
  by (auto simp: exact_def fl_clamp_def)

text \<open>
  One axis: \<open>W\<close> is the size of the frame, \<open>w\<close> of the display, \<open>s\<close> the factor and \<open>off\<close> the black border.
\<close>

lemma touchport_axis_inverse:
  fixes px s off tp sz w :: rat
  assumes "exact F" "0 < s" "0 < W" "0 \<le> off" "of_int W = 2 * off + s * w" "0 < tp" "0 < sz" "0 \<le> px" "px \<le> w"
  shows "touchport_axis F W o_x off (1 / s) tp ((off + px * s) * sz / of_int W) sz = px / tp + of_int o_x"
proof -
  let ?x = "off + px * s" and ?W = "rat_of_int W"
  have W: "0 < ?W" using assms(3) by simp
  have "px * s \<le> s * w" "0 \<le> px * s" using assms mult_right_mono [of px w s] by (auto simp: mult.commute)
  then have x: "0 \<le> ?x" "?x \<le> ?W" "off \<le> ?x" "?x \<le> ?W - off"
    using assms(4,5) by linarith+
  have "?x * sz \<le> ?W * sz" using x(2) assms(7) by (intro mult_right_mono) auto
  then have v: "0 \<le> ?x * sz / ?W" "?x * sz / ?W \<le> sz"
    using mult_nonneg_nonneg [OF x(1), of sz] assms(7) W by (simp_all add: pos_divide_le_eq mult.commute)
  have 1: "fl_clamp F (?x * sz / ?W) 0 sz * (?W / sz) = ?x"
    using exact_clamp [OF assms(1) v] W assms(7) by simp
  have 2: "fl_clamp F ?x off (sz * (?W / sz) - off) = ?x"
    using exact_clamp [OF assms(1) x(3)] x(4) assms(7) by simp
  show ?thesis
    using assms(1,2,6) 1 2 by (simp add: touchport_axis_def exact_def Let_def add_divide_distrib)
qed

lemma touchport_axis_bounds:
  fixes v s off tp sz w :: rat
  assumes "exact F" "0 < s" "0 < W" "0 \<le> off" "of_int W = 2 * off + s * w" "0 < tp" "0 < sz" "0 \<le> w"
  shows "of_int o_x \<le> touchport_axis F W o_x off (1 / s) tp v sz \<and> touchport_axis F W o_x off (1 / s) tp v sz \<le> of_int o_x + w / tp"
proof -
  let ?W = "rat_of_int W"
  let ?x = "fl_clamp F (fl_clamp F v 0 sz * (?W / sz)) off (sz * (?W / sz) - off)"
  have W: "sz * (?W / sz) = ?W" using assms(7) by simp
  have "off \<le> sz * (?W / sz) - off" using assms by simp
  then have "off \<le> ?x \<and> ?x \<le> sz * (?W / sz) - off" by (rule exact_clamp_bounds [OF assms(1)])
  then have "0 \<le> ?x - off" "?x - off \<le> w * s" unfolding W using assms(5) by (simp_all add: mult.commute)
  then have x: "0 \<le> (?x - off) / s" "(?x - off) / s \<le> w" using assms(2) by (simp_all add: pos_divide_le_eq)
  have eq: "touchport_axis F W o_x off (1 / s) tp v sz = (?x - off) / s / tp + of_int o_x"
    using assms(1,6) by (simp add: touchport_axis_def exact_def Let_def add_divide_distrib)
  have "0 \<le> (?x - off) / s / tp" "(?x - off) / s / tp \<le> w / tp"
    using divide_nonneg_pos [OF x(1) assms(6)] divide_right_mono [OF x(2), of tp] assms(6) by simp_all
  then show ?thesis unfolding eq by simp
qed

definition display_ok :: "display_geometry \<Rightarrow> stream_config \<Rightarrow> bool" where
  "display_ok d config \<longleftrightarrow> 0 < dg_width d \<and> 0 < dg_height d \<and> 0 < dg_env_width d \<and> 0 < dg_env_height d \<and>
     0 < sc_width config \<and> 0 < sc_height config"

text \<open>The picture keeps its proportions and stands in the middle of the frame.\<close>

definition picture_scale :: "display_geometry \<Rightarrow> stream_config \<Rightarrow> rat" where
  "picture_scale d config = min (of_int (sc_width config) / of_int (dg_width d)) (of_int (sc_height config) / of_int (dg_height d))"

definition border :: "int \<Rightarrow> rat \<Rightarrow> int \<Rightarrow> rat" where
  "border frame scale side = (of_int frame - scale * of_int side) / 2"

text \<open>Where in a frame of size \<open>sz\<close> on the client's screen the point \<open>p\<close> of the display is shown, on one axis.\<close>

definition shown_at :: "int \<Rightarrow> rat \<Rightarrow> int \<Rightarrow> rat \<Rightarrow> rat \<Rightarrow> rat" where
  "shown_at frame scale side sz p = (border frame scale side + p * scale) * sz / of_int frame"

lemma exact_min: "exact F \<Longrightarrow> fl_min F a b = min a b"
  by (auto simp: exact_def fl_min_def min_def)

lemma make_port_exact:
  assumes "exact F" "display_ok d config"
  defines "port \<equiv> make_port F (1 / 2) d config"
  shows "touch_port_valid port" "tpt_scalar_inv port = 1 / picture_scale d config" "0 < tpt_scalar_tpcoords port"
    "tpt_client_offsetX port = border (sc_width config) (picture_scale d config) (dg_width d)"
    "tpt_client_offsetY port = border (sc_height config) (picture_scale d config) (dg_height d)"
    "tpt_port port = \<lparr>pp_offset_x = dg_offset_x d, pp_offset_y = dg_offset_y d, pp_width = sc_width config,
       pp_height = sc_height config, pp_logical_width = 0, pp_logical_height = 0\<rparr>"
  using assms(1,2)
  by (simp_all add: port_def make_port_def Let_def exact_min touch_port_valid_def display_ok_def)
    (simp_all add: exact_def picture_scale_def border_def)

lemma picture_fits:
  assumes "display_ok d config"
  shows "0 < picture_scale d config" "0 \<le> border (sc_width config) (picture_scale d config) (dg_width d)"
    "0 \<le> border (sc_height config) (picture_scale d config) (dg_height d)"
    "of_int (sc_width config) = 2 * border (sc_width config) (picture_scale d config) (dg_width d) + picture_scale d config * of_int (dg_width d)"
    "of_int (sc_height config) = 2 * border (sc_height config) (picture_scale d config) (dg_height d) + picture_scale d config * of_int (dg_height d)"
proof -
  have p: "0 < rat_of_int (dg_width d)" "0 < rat_of_int (dg_height d)" "0 < rat_of_int (sc_width config)" "0 < rat_of_int (sc_height config)"
    using assms by (simp_all add: display_ok_def)
  show "0 < picture_scale d config" using p by (simp add: picture_scale_def)
  have "picture_scale d config \<le> of_int (sc_width config) / of_int (dg_width d)"
    "picture_scale d config \<le> of_int (sc_height config) / of_int (dg_height d)"
    by (simp_all add: picture_scale_def)
  then show "0 \<le> border (sc_width config) (picture_scale d config) (dg_width d)"
    "0 \<le> border (sc_height config) (picture_scale d config) (dg_height d)"
    using p by (simp_all add: border_def pos_le_divide_eq)
  show "of_int (sc_width config) = 2 * border (sc_width config) (picture_scale d config) (dg_width d) + picture_scale d config * of_int (dg_width d)"
    "of_int (sc_height config) = 2 * border (sc_height config) (picture_scale d config) (dg_height d) + picture_scale d config * of_int (dg_height d)"
    by (simp_all add: border_def field_simps)
qed

lemma client_to_touchport_exact:
  assumes "exact (en_float env)" "display_ok d config" "\<not> event_peek (ci_touch_port_event (is_clients s c))"
    and "ci_touch_port (is_clients s c) = make_port (en_float env) (1 / 2) d config"
  shows "client_to_touchport env c val sz s =
    (Some (touchport_axis (en_float env) (sc_width config) (dg_offset_x d) (border (sc_width config) (picture_scale d config) (dg_width d))
         (1 / picture_scale d config) (tpt_scalar_tpcoords (make_port (en_float env) (1 / 2) d config)) (fst val) (fst sz),
       touchport_axis (en_float env) (sc_height config) (dg_offset_y d) (border (sc_height config) (picture_scale d config) (dg_height d))
         (1 / picture_scale d config) (tpt_scalar_tpcoords (make_port (en_float env) (1 / 2) d config)) (snd val) (snd sz)), s)"
  using assms(3,4) make_port_exact [OF assms(1,2)]
  by (simp add: client_to_touchport_def refresh_touch_port_def Let_def)


text \<open>
  No position a client sends, not even one outside the frame or on its black borders, moves the
  pointer off the display it watches.
\<close>

theorem pointer_stays_on_display:
  assumes "exact (en_float env)" "display_ok d config" "\<not> event_peek (ci_touch_port_event (is_clients s c))"
    and "ci_touch_port (is_clients s c) = make_port (en_float env) (1 / 2) d config" "0 < fst sz" "0 < snd sz"
  shows "case client_to_touchport env c val sz s of
      (Some (x, y), s') \<Rightarrow> s' = s \<and>
        x \<in> {of_int (dg_offset_x d) .. of_int (dg_offset_x d) + of_int (dg_width d) / tpt_scalar_tpcoords (ci_touch_port (is_clients s c))} \<and>
        y \<in> {of_int (dg_offset_y d) .. of_int (dg_offset_y d) + of_int (dg_height d) / tpt_scalar_tpcoords (ci_touch_port (is_clients s c))}
    | (None, s') \<Rightarrow> False"
proof -
  have W: "0 < sc_width config" "0 < sc_height config" and w: "0 \<le> rat_of_int (dg_width d)" "0 \<le> rat_of_int (dg_height d)"
    using assms(2) by (simp_all add: display_ok_def)
  note fits = picture_fits [OF assms(2)]
  note tp = make_port_exact(3) [OF assms(1,2)]
  note x = touchport_axis_bounds [OF assms(1) fits(1) W(1) fits(2) fits(4) tp assms(5) w(1)]
  note y = touchport_axis_bounds [OF assms(1) fits(1) W(2) fits(3) fits(5) tp assms(6) w(2)]
  show ?thesis
    using assms(4) x y by (simp add: client_to_touchport_exact [OF assms(1-4)])
qed

definition exact_floats :: "rat float_ops" where
  "exact_floats = \<lparr>fl_of_int = of_int, fl_of_bits = \<lambda>_. 0, fl_to_int = floor, fl_add = (+), fl_sub = (-), fl_mul = (*), fl_div = (/),
     fl_less = (<), fl_eq = (=), fl_angle = \<lambda>_. 0, fl_add_half_pi = \<lambda>a. a, fl_cos = \<lambda>_. 1, fl_sin = \<lambda>_. 0, fl_hypot = \<lambda>x _. x\<rparr>"

definition exact_env :: "rat input_env" where
  "exact_env = \<lparr>en_mouse = True, en_keyboard = True, en_controller = True, en_high_resolution_scrolling = False,
     en_keybindings = \<lambda>_. None, en_key_repeat_delay = 500000000, en_key_repeat_period = 40000000,
     en_back_button_timeout = 2000000000, en_now = 1000, en_new_task = (\<lambda>live. 2 + fold max live 0),
     en_alloc_fails = (\<lambda>_ _. False), en_float = exact_floats\<rparr>"

text \<open>A display of 1920 by 1200 behind another one, streamed at 1280 by 720.\<close>

definition sample_geometry :: display_geometry where
  "sample_geometry = \<lparr>dg_width = 1920, dg_height = 1200, dg_offset_x = 2560, dg_offset_y = 0, dg_env_width = 4480, dg_env_height = 1440,
     dg_logical_width = 0, dg_logical_height = 0, dg_env_logical_width = 0, dg_env_logical_height = 0\<rparr>"

definition sample_stream :: stream_config where
  "sample_stream = video_config_t [1280, 720, 60, 6000, 1000, 1, 0, 1, 0, 0, 0]"

definition sample_pointer :: "rat input_state" where
  "sample_pointer = upd_client 0 (\<lambda>ci. ci\<lparr>ci_touch_port := make_port exact_floats (1 / 2) sample_geometry sample_stream\<rparr>)
     (initial_input exact_floats)"

lemma sample_pointer_facts:
  "exact (en_float exact_env)" "display_ok sample_geometry sample_stream"
  "\<not> event_peek (ci_touch_port_event (is_clients sample_pointer 0))"
  "ci_touch_port (is_clients sample_pointer 0) = make_port (en_float exact_env) (1 / 2) sample_geometry sample_stream"
  by (simp_all add: exact_def exact_env_def exact_floats_def display_ok_def sample_geometry_def sample_stream_def video_config_t_def
      sample_pointer_def upd_client_def initial_input_def new_client_input_def new_event_def event_peek_def)


theorem pointer_stays_on_display_witness:
  "case client_to_touchport exact_env 0 (1000, -5) (640, 360) sample_pointer of
      (Some (x, y), s') \<Rightarrow> s' = sample_pointer \<and> x \<in> {2560..4480} \<and> y \<in> {0..1200}
    | (None, s') \<Rightarrow> False"
proof -
  have "dg_width sample_geometry = 1920" "dg_height sample_geometry = 1200"
    and "dg_offset_x sample_geometry = 2560" "dg_offset_y sample_geometry = 0"
    and "tpt_scalar_tpcoords (ci_touch_port (is_clients sample_pointer 0)) = 1"
    by (simp_all add: sample_geometry_def sample_pointer_facts(4) exact_env_def make_port_def exact_floats_def Let_def)
  then show ?thesis
    using pointer_stays_on_display [OF sample_pointer_facts, of "(640, 360)" "(1000, -5)"]
    by (auto split: prod.splits option.splits)
qed

section \<open>The chosen display\<close>

definition index_valid :: "string list \<times> int \<Rightarrow> bool" where
  "index_valid s \<longleftrightarrow> 0 \<le> snd s \<and> snd s < int (length (fst s))"

lemma index_of_name_facts:
  "index_of_name names name = Some i \<Longrightarrow> i < length names \<and> names ! i = name"
  "index_of_name names name = None \<Longrightarrow> name \<notin> set names"
  by (auto simp: index_of_name_def find_Some_iff find_None_iff in_set_conv_nth)

lemma refresh_displays_valid: "index_valid s \<or> fst s = [] \<Longrightarrow> index_valid (refresh_displays output found s)"
  by (cases s) (auto simp: refresh_displays_def index_valid_def Let_def split: option.split dest: index_of_name_facts(1))

lemma switch_display_valid: "index_valid s \<Longrightarrow> index_valid (switch_display wanted s)"
  by (auto simp: switch_display_def index_valid_def split: option.split)

lemma reopen_display_valid:
  "reopen_display output attempts ctxs s = Some (tried, r) \<Longrightarrow> index_valid s \<Longrightarrow>
    (\<forall>t\<in>set tried. index_valid t) \<and> (case r of None \<Rightarrow> True | Some t \<Rightarrow> index_valid t)"
proof (induction attempts arbitrary: s tried)
  case (Cons a attempts)
  obtain running found wanted opens where a: "a = (running, found, wanted, opens)" by (metis prod_cases4)
  let ?s = "switch_display wanted (refresh_displays output found s)"
  have v: "index_valid ?s" using Cons.prems(2) by (simp add: switch_display_valid refresh_displays_valid)
  show ?case
  proof (cases "running \<and> ctxs \<noteq> [] \<and> \<not> opens")
    case True
    then obtain tried' where "reopen_display output attempts ctxs ?s = Some (tried', r)" "tried = ?s # tried'"
      using Cons.prems(1) by (auto simp: a Let_def)
    then show ?thesis using Cons.IH [OF _ v] v by auto
  next
    case False
    then show ?thesis using Cons.prems(1) v by (auto simp: a Let_def split: if_splits)
  qed
qed simp

lemma capture_rounds_valid:
  "capture_rounds output rounds ctxs s = Some (stopped, tried, got) \<Longrightarrow> index_valid s \<Longrightarrow> \<forall>t\<in>set tried. index_valid t"
proof (induction rounds arbitrary: ctxs s tried got)
  case (Cons r rounds)
  obtain ctxs1 got1 status where d: "capture_display (rd_turns r) (rd_status r) ctxs = (ctxs1, got1, status)"
    by (metis prod_cases3)
  show ?case
  proof (cases "status = Capture_reinit")
    case False
    then show ?thesis using Cons.prems d by simp
  next
    case True
    then obtain tried1 t where t: "reopen_display output (rd_attempts r) (wait_for_release (rd_waits r) ctxs1) s = Some (tried1, t)"
      using Cons.prems(1) d by (auto simp: Let_def split: option.splits)
    note v = reopen_display_valid [OF t Cons.prems(2)]
    show ?thesis
    proof (cases t)
      case None
      then show ?thesis using Cons.prems(1) d True t v by simp
    next
      case (Some s')
      then obtain tries images where "tried = tried1 @ tries"
        "capture_rounds output rounds (wait_for_release (rd_waits r) ctxs1) s' = Some (stopped, tries, images)"
        using Cons.prems(1) d True t by (auto simp: Let_def)
      then show ?thesis using Cons.IH [of _ s' tries images] v Some by auto
    qed
  qed
qed simp

text \<open>
  Every display the capture thread tries to open, at the start, after a display was lost and after any
  switch a client asks for, is one of its current list, which is never empty.
\<close>

theorem capture_display_valid:
  assumes "captureThread output session found opens rounds left = Some (stopped, tried, got)"
  shows "list_all (\<lambda>(names, index). 0 \<le> index \<and> index < int (length names)) tried"
proof -
  have v: "index_valid (refresh_displays output found ([], -1))" by (rule refresh_displays_valid) simp
  have "index_valid t" if "t \<in> set tried" for t
    using assms v that capture_rounds_valid [OF _ v]
    by (cases t) (fastforce simp: captureThread_def Let_def split: option.splits if_splits)
  then show ?thesis by (auto simp: list_all_iff index_valid_def)
qed

text \<open>A display is lost, one attempt fails, then a client switches to a display beyond the end of the list.\<close>

definition sample_rounds :: "capture_round list" where
  "sample_rounds =
     [\<lparr>rd_turns = [\<lparr>pt_running = \<lambda>_. True, pt_captured = True, pt_queue_running = True, pt_incoming = [2], pt_switch = False\<rparr>,
         \<lparr>pt_running = \<lambda>_. True, pt_captured = True, pt_queue_running = True, pt_incoming = [], pt_switch = False\<rparr>],
       rd_status = Capture_reinit, rd_waits = [\<lambda>c. c \<noteq> 1],
       rd_attempts = [(True, [], None, False), (True, [''B'', ''C''], Some 7, True)]\<rparr>]"

theorem capture_display_valid_witness:
  "list_all (\<lambda>(names, index). 0 \<le> index \<and> index < int (length names))
     [([''A'', ''B''], 1), ([''A'', ''B''], 1), ([''B'', ''C''], 1::int)]"
proof -
  have "captureThread ''B'' (Some 1) [''A'', ''B''] True sample_rounds [3] =
      Some ([2, 3], [([''A'', ''B''], 1), ([''A'', ''B''], 1), ([''B'', ''C''], 1)], [[1], [1, 2]])"
    by code_simp
  then show ?thesis by (rule capture_display_valid)
qed

text \<open>
  The thread keeps capturing the same display as long as the system lists it, keeps its list if the system lists
  none, and starts with the configured display if that is listed.
\<close>

theorem capture_follows_display:
  shows "(found = [] \<and> names \<noteq> [] \<longrightarrow> refresh_displays output found (names, index) = (names, index)) \<and>
    (0 \<le> index \<and> index < int (length names) \<and> names ! nat index \<noteq> [] \<and> names ! nat index \<in> set found \<longrightarrow>
       (case refresh_displays output found (names, index) of (names', index') \<Rightarrow>
          names' = found \<and> names' ! nat index' = names ! nat index)) \<and>
    (output \<in> set found \<longrightarrow>
       (case refresh_displays output found ([], -1) of (names', index') \<Rightarrow> names' = found \<and> names' ! nat index' = output))"
proof -
  have "names ! nat i = name" if "name \<in> set names" "i = (case index_of_name names name of Some i \<Rightarrow> int i | None \<Rightarrow> 0)" for names name i
    using that index_of_name_facts [of names name] by (auto split: option.splits)
  then show ?thesis by (auto simp: refresh_displays_def Let_def)
qed

theorem capture_follows_display_witness:
  "refresh_displays ''A'' [''C'', ''B''] ([''A'', ''B''], 1) = ([''C'', ''B''], 1)"
  using capture_follows_display [of "[''C'', ''B'']" "[''A'', ''B'']" "''A''" 1] by (simp add: refresh_displays_def index_of_name_def)

end
