(* ===== verification/Video_Sync.thy ===== *)
theory Video_Sync
  imports Video_Capture Thread_Safe
begin

text \<open>
  Capture and encoding in one thread, for encoders without \<^verbatim>\<open>PARALLEL_ENCODING\<close>: \<^verbatim>\<open>encode_run_sync\<close> and
  \<^verbatim>\<open>captureThreadSync\<close> of \<^verbatim>\<open>src/video.cpp\<close>. Sessions are known by numbers. They come through a queue that holds 30, and
  each of them waits for its join event; the theorem says which get it. Other threads put sessions into the queue
  at any time: what comes is an input at every point between two accesses of this thread to the queue.
\<close>

section \<open>State\<close>

datatype sync_call = Sync_idr nat | Sync_convert nat | Sync_encode nat int | Sync_normal nat

text \<open>
  The queue; then the contexts, the sessions with an encoder, those whose shutdown event is raised, those whose
  join event is raised, the next frame of each, and the calls of the encoders. \<open>sy_came\<close> and \<open>sy_cleared\<close> are a
  history, which the code does not keep: the sessions put into the queue, and those that were thrown out of the full queue.
\<close>

record sync_state =
  sy_queue :: "nat queue"
  sy_ctxs :: "nat list"
  sy_sessions :: "nat list"
  sy_down :: "nat list"
  sy_joined :: "nat list"
  sy_frame :: "nat \<Rightarrow> int"
  sy_calls :: "sync_call list"
  sy_came :: "nat list"
  sy_cleared :: "nat list"

text \<open>\<^verbatim>\<open>capture\<close> of a client puts its session into the queue.\<close>

definition queue_session :: "nat \<Rightarrow> sync_state \<Rightarrow> sync_state" where
  "queue_session c s =
     (let q = sy_queue s
      in s\<lparr>sy_queue := queue_raise c q, sy_came := sy_came s @ [c],
           sy_cleared := sy_cleared s @ (if q_continue q \<and> length (q_queue q) = q_max_elements q then q_queue q else [])\<rparr>)"

definition queue_sessions :: "nat list \<Rightarrow> sync_state \<Rightarrow> sync_state" where
  "queue_sessions = fold queue_session"

text \<open>
  What one call of the callback meets: which sessions come before each look at the queue, who was told to shut down, which
  new sessions get an encoder, whether an image was captured, who wants an IDR frame, whose conversion and encoding
  work, and whether a switch of the display is pending.
\<close>

record sync_turn =
  st_come :: "nat list list"
  st_shutdown :: "nat list"
  st_makes :: "nat \<Rightarrow> bool"
  st_captured :: bool
  st_idr :: "nat \<Rightarrow> bool"
  st_converts :: "nat \<Rightarrow> bool"
  st_encodes :: "nat \<Rightarrow> bool"
  st_switch :: bool

definition sync_called :: "sync_call list \<Rightarrow> sync_state \<Rightarrow> sync_state" where
  "sync_called calls s = s\<lparr>sy_calls := sy_calls s @ calls\<rparr>"

section \<open>The callback\<close>

text \<open>
  The new sessions, until a look at the queue finds none; the outcome when one gets no encoder or the queue gives none.
\<close>

lemma queue_raise_length: "length (q_queue (queue_raise c q)) \<le> Suc (length (q_queue q))"
  by (simp add: queue_raise_def)

lemma queue_sessions_length:
  "length (q_queue (sy_queue (queue_sessions cs s))) \<le> length cs + length (q_queue (sy_queue s))"
proof (induction cs arbitrary: s)
  case (Cons c cs)
  have "length (q_queue (sy_queue (queue_session c s))) \<le> Suc (length (q_queue (sy_queue s)))"
    using queue_raise_length by (simp add: queue_session_def Let_def)
  then show ?case using Cons [of "queue_session c s"] by (simp add: queue_sessions_def)
qed (simp add: queue_sessions_def)

function take_sessions :: "(nat \<Rightarrow> bool) \<Rightarrow> nat list list \<Rightarrow> sync_state \<Rightarrow> sync_state \<times> capture_e option" where
  "take_sessions makes come s =
     (let s = queue_sessions (concat (take 1 come)) s
      in if \<not> queue_peek (sy_queue s) then (s, None)
         else case queue_pop (sy_queue s) of
             (Returns (Some c), q) \<Rightarrow>
               let s = s\<lparr>sy_queue := q, sy_ctxs := sy_ctxs s @ [c]\<rparr>
               in if \<not> makes c then (s, Some Capture_error)
                  else take_sessions makes (drop 1 come) (s\<lparr>sy_sessions := sy_sessions s @ [c]\<rparr>)
           | (_, q) \<Rightarrow> (s, Some Capture_ok))"
  by pat_completeness auto
termination
proof (relation "measure (\<lambda>(makes, come, s). length (concat come) + length (q_queue (sy_queue s)))", goal_cases)
  case 1
  show ?case by simp
next
  case (2 makes come s s1)
  then have "length (q_queue (sy_queue s1)) \<le> length (concat (take 1 come)) + length (q_queue (sy_queue s))"
    using queue_sessions_length by metis
  moreover have "length (concat come) = length (concat (take 1 come)) + length (concat (drop 1 come))"
    by (metis append_take_drop_id concat_append length_append)
  ultimately show ?case using 2 by (auto simp: queue_pop_def split: if_splits list.splits)
qed

declare take_sessions.simps [simp del]

text \<open>A session that was told to shut down leaves.\<close>

definition leave :: "nat \<Rightarrow> sync_state \<Rightarrow> sync_state" where
  "leave pos s =
     (let c = sy_sessions s ! pos
      in s\<lparr>sy_joined := sy_joined s @ [c], sy_sessions := take pos (sy_sessions s) @ drop (Suc pos) (sy_sessions s),
           sy_ctxs := remove1 c (sy_ctxs s)\<rparr>)"

text \<open>
  One frame of a session: whether it worked. What fails tells the session to shut down.
\<close>

definition sync_frame :: "sync_turn \<Rightarrow> nat \<Rightarrow> sync_state \<Rightarrow> sync_state \<times> bool" where
  "sync_frame t c s =
     (let s = sync_called ((if st_idr t c then [Sync_idr c] else []) @ (if st_captured t then [Sync_convert c] else [])) s
      in if st_captured t \<and> \<not> st_converts t c then (s\<lparr>sy_down := c # sy_down s\<rparr>, False)
         else let s = (sync_called [Sync_encode c (sy_frame s c)] s)\<lparr>sy_frame := (sy_frame s)(c := sy_frame s c + 1)\<rparr>
              in if \<not> st_encodes t c then (s\<lparr>sy_down := c # sy_down s\<rparr>, False)
                 else (sync_called [Sync_normal c] s, True))"

lemma sync_frame_sessions [simp]: "sy_sessions (fst (sync_frame t c s)) = sy_sessions s"
  by (simp add: sync_frame_def sync_called_def Let_def)

lemma sync_frame_down: "\<not> snd (sync_frame t c s) \<Longrightarrow> c \<in> set (sy_down (fst (sync_frame t c s)))"
  by (simp add: sync_frame_def Let_def split: if_splits)

text \<open>
  The loop over the sessions; one that fails is visited again and leaves. \<open>False\<close> when the last session left.
\<close>

function serve_sessions :: "sync_turn \<Rightarrow> nat \<Rightarrow> sync_state \<Rightarrow> sync_state \<times> bool" where
  "serve_sessions t pos s =
     (if length (sy_sessions s) \<le> pos then (s, True)
      else let c = sy_sessions s ! pos
           in if c \<in> set (sy_down s)
              then let s = leave pos s in if sy_sessions s = [] then (s, False) else serve_sessions t pos s
              else if snd (sync_frame t c s) then serve_sessions t (Suc pos) (fst (sync_frame t c s))
              else serve_sessions t pos (fst (sync_frame t c s)))"
  by pat_completeness auto
termination
proof (relation "measure (\<lambda>(t, pos, s). 2 * (length (sy_sessions s) - pos) + (if sy_sessions s ! pos \<in> set (sy_down s) then 0 else 1))",
    goal_cases)
  case 1
  show ?case by simp
next
  case (2 t pos s c s')
  then have "length (sy_sessions s') = length (sy_sessions s) - 1" by (simp add: leave_def Let_def)
  moreover have "length (sy_sessions s) - pos = Suc (length (sy_sessions s) - Suc pos)" using 2 by simp
  ultimately show ?case using 2 by simp
next
  case (3 t pos s c)
  moreover have "length (sy_sessions s) - pos = Suc (length (sy_sessions s) - Suc pos)" using 3 by simp
  ultimately show ?case by simp
next
  case (4 t pos s c)
  then show ?case using sync_frame_down [of t c s] by simp
qed

declare serve_sessions.simps [simp del]

text \<open>
  The callback: the state, whether the capture goes on, and the outcome that overrides that of the display.
\<close>

definition push_sync :: "sync_turn \<Rightarrow> sync_state \<Rightarrow> sync_state \<times> bool \<times> capture_e" where
  "push_sync t s =
     (case take_sessions (st_makes t) (st_come t) (s\<lparr>sy_down := st_shutdown t @ sy_down s\<rparr>) of
        (s, Some ec) \<Rightarrow> (s, False, ec)
      | (s, None) \<Rightarrow>
          (case serve_sessions t 0 s of
             (s, False) \<Rightarrow> (s, False, Capture_ok)
           | (s, True) \<Rightarrow> if st_switch t then (s, False, Capture_reinit) else (s, True, Capture_ok)))"

fun capture_sync :: "sync_turn list \<Rightarrow> capture_e \<Rightarrow> sync_state \<Rightarrow> capture_e \<times> sync_state" where
  "capture_sync [] status s = (status, s)"
| "capture_sync (t # ts) status s =
     (case push_sync t s of (s, goes_on, ec) \<Rightarrow>
       if goes_on then capture_sync ts status s else (if ec \<noteq> Capture_ok then ec else status, s))"

section \<open>The thread\<close>

text \<open>
  A run: the sessions that come before it and until the capture starts, the attempts to open a display, whether it
  gives an image, which sessions get an encoder, the turns of the capture and its outcome.
\<close>

record sync_round =
  sr_come :: "nat list"
  sr_opening :: "nat list"
  sr_attempts :: "(string list \<times> int option \<times> bool) list"
  sr_image :: bool
  sr_makes :: "nat \<Rightarrow> bool"
  sr_turns :: "sync_turn list"
  sr_status :: capture_e

definition first_session :: "sync_state \<Rightarrow> sync_state option outcome" where
  "first_session s =
     (if sy_ctxs s \<noteq> [] then Returns (Some s)
      else case queue_pop (sy_queue s) of
          (Blocks, q) \<Rightarrow> Blocks
        | (Returns None, q) \<Rightarrow> Returns None
        | (Returns (Some c), q) \<Rightarrow> Returns (Some (s\<lparr>sy_queue := q, sy_ctxs := [c]\<rparr>)))"

text \<open>
  It blocks while no session comes and while no display opens; the inner option is undefined behaviour.
\<close>

definition encode_run_sync :: "string \<Rightarrow> sync_round \<Rightarrow> sync_state \<times> string list \<times> int
    \<Rightarrow> (capture_e \<times> sync_state \<times> string list \<times> int) option outcome" where
  "encode_run_sync output r sd =
     (case first_session (queue_sessions (sr_come r) (fst sd)) of
        Blocks \<Rightarrow> Blocks
      | Returns None \<Rightarrow> Returns (Some (Capture_ok, queue_sessions (sr_come r) (fst sd), snd sd))
      | Returns (Some s) \<Rightarrow>
          (let s = queue_sessions (sr_opening r) s; running = q_continue (sy_queue s)
           in case reopen_display output (map (\<lambda>a. (running, a)) (sr_attempts r)) (sy_ctxs s) (snd sd) of
               None \<Rightarrow> Returns None
             | Some (tried, None) \<Rightarrow> if running then Blocks else Returns (Some (Capture_error, s, snd sd))
             | Some (tried, Some d) \<Rightarrow>
                 if \<not> sr_image r then Returns (Some (Capture_error, s, d))
                 else if \<not> list_all (sr_makes r) (sy_ctxs s) then Returns (Some (Capture_error, s, d))
                 else if \<not> running then Returns (Some (Capture_ok, s, d))
                 else case capture_sync (sr_turns r) (sr_status r) (s\<lparr>sy_sessions := sy_ctxs s\<rparr>) of
                     (status, s) \<Rightarrow> Returns (Some (status, s, d))))"

text \<open>The guard at the end of the thread: the queue is stopped, then every session is released that the thread knows.\<close>

definition sync_guard :: "nat list \<Rightarrow> sync_state \<Rightarrow> sync_state" where
  "sync_guard late s =
     (let s = queue_sessions late (s\<lparr>sy_queue := queue_stop (sy_queue s)\<rparr>); left = q_queue (sy_queue s)
      in s\<lparr>sy_down := left @ sy_ctxs s @ sy_down s, sy_joined := sy_joined s @ sy_ctxs s @ left\<rparr>)"

text \<open>
  The thread: the sessions that come between the last round and the end of the queue, and those that come later. It
  blocks when the rounds do not end it.
\<close>

fun sync_rounds :: "string \<Rightarrow> sync_round list \<Rightarrow> nat list \<Rightarrow> nat list \<Rightarrow> sync_state \<times> string list \<times> int
    \<Rightarrow> sync_state option outcome" where
  "sync_rounds output [] ending late sd = Blocks"
| "sync_rounds output (r # rs) ending late sd =
     (case encode_run_sync output r sd of
        Blocks \<Rightarrow> Blocks
      | Returns None \<Rightarrow> Returns None
      | Returns (Some (status, sd)) \<Rightarrow>
          if status = Capture_reinit then sync_rounds output rs ending late sd
          else Returns (Some (sync_guard late (queue_sessions ending (fst sd)))))"

definition new_sync_state :: sync_state where
  "new_sync_state = \<lparr>sy_queue = new_queue 30, sy_ctxs = [], sy_sessions = [], sy_down = [], sy_joined = [],
     sy_frame = \<lambda>_. 1, sy_calls = [], sy_came = [], sy_cleared = []\<rparr>"

definition captureThreadSync :: "string \<Rightarrow> sync_round list \<Rightarrow> nat list \<Rightarrow> nat list \<Rightarrow> sync_state option outcome" where
  "captureThreadSync output rounds ending late = sync_rounds output rounds ending late (new_sync_state, [], -1)"

section \<open>No session is forgotten\<close>

text \<open>While the thread runs: where the sessions are that came, and that only a full queue loses some, 30 at a time.\<close>

definition sync_inv :: "sync_state \<Rightarrow> bool" where
  "sync_inv s \<longleftrightarrow>
     mset (sy_joined s) + mset (sy_ctxs s) + mset (q_queue (sy_queue s)) + mset (sy_cleared s) = mset (sy_came s) \<and>
     mset (sy_sessions s) \<subseteq># mset (sy_ctxs s) \<and> q_continue (sy_queue s) \<and> q_max_elements (sy_queue s) = 30 \<and>
     30 dvd length (sy_cleared s) \<and> (sy_cleared s \<noteq> [] \<longrightarrow> 30 < length (sy_came s))"

lemma queue_session_inv: "sync_inv s \<Longrightarrow> sync_inv (queue_session c s)"
proof -
  assume inv: "sync_inv s"
  then have "mset (sy_joined s @ sy_ctxs s @ q_queue (sy_queue s) @ sy_cleared s) = mset (sy_came s)"
    by (simp add: sync_inv_def add.assoc)
  then have "length (sy_joined s @ sy_ctxs s @ q_queue (sy_queue s) @ sy_cleared s) = length (sy_came s)"
    by (rule mset_eq_length)
  then have "length (q_queue (sy_queue s)) \<le> length (sy_came s)" by simp
  moreover have "mset (sy_joined s) + mset (sy_ctxs s) + mset (sy_cleared s) + mset (q_queue (sy_queue s)) = mset (sy_came s)"
    using inv by (simp add: sync_inv_def ac_simps)
  ultimately show ?thesis
    using inv by (auto simp: sync_inv_def queue_session_def queue_raise_def Let_def ac_simps)
qed

lemma queue_sessions_inv: "sync_inv s \<Longrightarrow> sync_inv (queue_sessions cs s)"
  by (induction cs arbitrary: s) (simp_all add: queue_sessions_def queue_session_inv)

lemma pop_inv:
  assumes "sync_inv s" "queue_pop (sy_queue s) = (Returns (Some c), q)"
  shows "sync_inv (s\<lparr>sy_queue := q, sy_ctxs := sy_ctxs s @ [c]\<rparr>)"
    "sync_inv (s\<lparr>sy_queue := q, sy_ctxs := sy_ctxs s @ [c], sy_sessions := sy_sessions s @ [c]\<rparr>)"
proof -
  have q: "q_queue (sy_queue s) = c # q_queue q" "q_continue q = q_continue (sy_queue s)" "q_max_elements q = q_max_elements (sy_queue s)"
    using assms(2) by (auto simp: queue_pop_def split: if_splits list.splits)
  have sub: "mset (sy_sessions s) \<subseteq># mset (sy_ctxs s)" using assms(1) by (simp add: sync_inv_def)
  then have "mset (sy_sessions s) \<subseteq># add_mset c (mset (sy_ctxs s))" by (rule subset_mset.order_trans) simp
  then show "sync_inv (s\<lparr>sy_queue := q, sy_ctxs := sy_ctxs s @ [c]\<rparr>)"
    "sync_inv (s\<lparr>sy_queue := q, sy_ctxs := sy_ctxs s @ [c], sy_sessions := sy_sessions s @ [c]\<rparr>)"
    using assms(1) q sub by (simp_all add: sync_inv_def)
qed

lemma take_sessions_inv: "sync_inv s \<Longrightarrow> sync_inv (fst (take_sessions makes come s))"
proof (induction makes come s rule: take_sessions.induct)
  case (1 makes come s)
  define s1 where "s1 = queue_sessions (concat (take 1 come)) s"
  have inv: "sync_inv s1" using 1(2) by (simp add: s1_def queue_sessions_inv)
  note eq = take_sessions.simps [of makes come s, folded s1_def]
  consider "\<not> queue_peek (sy_queue s1)"
    | c q where "queue_peek (sy_queue s1)" "queue_pop (sy_queue s1) = (Returns (Some c), q)"
    by (cases "q_queue (sy_queue s1)") (auto simp: queue_peek_def queue_pop_def)
  then show ?case
  proof cases
    case 1
    then show ?thesis using inv by (simp add: eq)
  next
    case (2 c q)
    note next' = pop_inv [OF inv 2(2)]
    show ?thesis
    proof (cases "makes c")
      case True
      from "1.IH" [OF s1_def _ 2(2) [symmetric] refl refl refl] 2(1) True next'(2) show ?thesis
        by (simp add: eq 2 Let_def)
    next
      case False
      then show ?thesis using next'(1) by (simp add: eq 2 Let_def)
    qed
  qed
qed

lemma mset_remove_nth:
  assumes "pos < length xs"
  shows "mset (take pos xs @ drop (Suc pos) xs) = mset xs - {#xs ! pos#}"
  by (subst (3) id_take_nth_drop [OF assms]) simp

lemma leave_inv:
  assumes "sync_inv s" "pos < length (sy_sessions s)"
  shows "sync_inv (leave pos s)"
proof -
  let ?c = "sy_sessions s ! pos"
  have sub: "mset (sy_sessions s) \<subseteq># mset (sy_ctxs s)" using assms(1) by (simp add: sync_inv_def)
  have "?c \<in># mset (sy_sessions s)" using assms(2) by simp
  then have "?c \<in># mset (sy_ctxs s)" using sub by (meson mset_subset_eqD)
  define R where "R = mset (sy_ctxs s) - {#?c#}"
  have R: "mset (sy_ctxs s) = add_mset ?c R" "mset (remove1 ?c (sy_ctxs s)) = R"
    using \<open>?c \<in># mset (sy_ctxs s)\<close> by (simp_all add: R_def)
  have "mset (sy_sessions s) - {#?c#} \<subseteq># R"
    unfolding R_def 
    by (rule mset_subset_eqI) (use mset_subset_eq_count [OF sub] in \<open>simp add: diff_le_mono\<close>)
  then have "mset (take pos (sy_sessions s) @ drop (Suc pos) (sy_sessions s)) \<subseteq># R"
    using mset_remove_nth [OF assms(2)] by simp
  moreover have "mset (sy_joined s) + add_mset ?c R + mset (q_queue (sy_queue s)) + mset (sy_cleared s) = mset (sy_came s)"
    using assms(1) R(1) by (simp add: sync_inv_def)
  ultimately show ?thesis using R(2) assms(1) by (simp add: sync_inv_def leave_def Let_def)
qed

lemma sync_frame_inv: "sync_inv (fst (sync_frame t c s)) = sync_inv s"
  by (simp add: sync_inv_def sync_frame_def sync_called_def Let_def)

lemma serve_sessions_inv: "sync_inv s \<Longrightarrow> sync_inv (fst (serve_sessions t pos s))"
proof (induction t pos s rule: serve_sessions.induct)
  case (1 t pos s)
  show ?case
  proof (cases "length (sy_sessions s) \<le> pos")
    case True
    then show ?thesis using 1(4) by (simp add: serve_sessions.simps [of t pos s])
  next
    case False
    then have "sync_inv (leave pos s)" using leave_inv [OF 1(4)] by simp
    then show ?thesis
      using 1 False sync_frame_inv by (simp add: serve_sessions.simps [of t pos s] Let_def)
  qed
qed

lemma push_sync_inv: "sync_inv s \<Longrightarrow> sync_inv (fst (push_sync t s))"
proof -
  assume "sync_inv s"
  then have "sync_inv (s\<lparr>sy_down := st_shutdown t @ sy_down s\<rparr>)" by (simp add: sync_inv_def)
  then have "sync_inv (fst (take_sessions (st_makes t) (st_come t) (s\<lparr>sy_down := st_shutdown t @ sy_down s\<rparr>)))"
    by (rule take_sessions_inv)
  moreover obtain s1 b1 where s1: "take_sessions (st_makes t) (st_come t) (s\<lparr>sy_down := st_shutdown t @ sy_down s\<rparr>) = (s1, b1)"
    by fastforce
  ultimately have inv1: "sync_inv s1" by simp
  obtain s2 b2 where s2: "serve_sessions t 0 s1 = (s2, b2)" by fastforce
  then have "sync_inv s2" using serve_sessions_inv [OF inv1, of t 0] by simp
  then show ?thesis using inv1 s1 s2 by (cases b1; cases b2) (simp_all add: push_sync_def)
qed

lemma capture_sync_inv: "sync_inv s \<Longrightarrow> sync_inv (snd (capture_sync ts status s))"
proof (induction ts arbitrary: s)
  case (Cons t ts)
  then show ?case using push_sync_inv [OF Cons.prems, of t] by (cases "push_sync t s") auto
qed simp

lemma first_session_inv:
  assumes "sync_inv s" "first_session s = Returns (Some s')"
  shows "sync_inv s'"
proof (cases "sy_ctxs s")
  case Nil
  then obtain c q where "queue_pop (sy_queue s) = (Returns (Some c), q)" "s' = s\<lparr>sy_queue := q, sy_ctxs := [c]\<rparr>"
    using assms(2) by (auto simp: first_session_def split: prod.splits outcome.splits option.splits)
  then show ?thesis using pop_inv(1) [OF assms(1)] Nil by force
next
  case Cons
  then show ?thesis using assms by (simp add: first_session_def)
qed

lemma encode_run_sync_inv:
  assumes "sync_inv (fst sd)" "encode_run_sync output r sd = Returns (Some (status, sd'))"
  shows "sync_inv (fst sd')"
proof (cases "first_session (queue_sessions (sr_come r) (fst sd))")
  case (Returns f)
  note come = queue_sessions_inv [OF assms(1), of "sr_come r"]
  show ?thesis
  proof (cases f)
    case None
    then show ?thesis using assms(2) come Returns by (auto simp: encode_run_sync_def)
  next
    case (Some s)
    then have "sync_inv s" using first_session_inv [OF come] Returns by simp
    then have inv: "sync_inv (queue_sessions (sr_opening r) s)" (is "sync_inv ?s") by (rule queue_sessions_inv)
    then have start: "sync_inv (?s\<lparr>sy_sessions := sy_ctxs ?s\<rparr>)" by (simp add: sync_inv_def)
    show ?thesis
      using assms(2) Some Returns inv capture_sync_inv [OF start, of "sr_turns r" "sr_status r"]
      by (auto simp: encode_run_sync_def Let_def split: option.splits if_splits prod.splits)
  qed
qed (use assms(2) in \<open>simp add: encode_run_sync_def\<close>)

text \<open>What comes after the end stays out of the queue.\<close>

lemma late_sessions:
  "\<not> q_continue (sy_queue s) \<Longrightarrow> queue_sessions late s = s\<lparr>sy_came := sy_came s @ late\<rparr>"
  by (induction late arbitrary: s) (simp_all add: queue_sessions_def queue_session_def queue_raise_def Let_def)

lemma sync_guard_joined:
  assumes "sync_inv s"
  shows "mset (sy_joined (sync_guard late s)) + mset (sy_cleared (sync_guard late s)) + mset late = mset (sy_came (sync_guard late s))"
    "30 dvd length (sy_cleared (sync_guard late s))"
    "sy_cleared (sync_guard late s) \<noteq> [] \<longrightarrow> 30 < length (sy_came (sync_guard late s))"
  using assms by (auto simp: sync_guard_def late_sessions queue_stop_def Let_def sync_inv_def ac_simps)

lemma sync_rounds_guard:
  "sync_inv (fst sd) \<Longrightarrow> sync_rounds output rounds ending late sd = Returns (Some s) \<Longrightarrow> \<exists>s'. sync_inv s' \<and> s = sync_guard late s'"
proof (induction rounds arbitrary: sd)
  case (Cons r rounds)
  obtain status sd' where r: "encode_run_sync output r sd = Returns (Some (status, sd'))"
    using Cons.prems(2) by (auto split: option.splits outcome.splits)
  note inv = encode_run_sync_inv [OF Cons.prems(1) r]
  show ?case
  proof (cases "status = Capture_reinit")
    case True
    then show ?thesis using Cons.IH [OF inv] Cons.prems(2) r by simp
  next
    case False
    then have "s = sync_guard late (queue_sessions ending (fst sd'))" using Cons.prems(2) r by simp
    then show ?thesis using queue_sessions_inv [OF inv, of ending] by blast
  qed
qed simp

text \<open>
  C34. When the thread ends, for whatever reason, the sessions that came are exactly these: those whose join event was
  raised, once each; those thrown out of the full queue, 30 at a time, and none unless more than 30 came; and those that came after
  the queue was stopped. The clients of the last two kinds wait forever; without them every session is released.
\<close>

theorem sync_sessions_joined:
  assumes "captureThreadSync output rounds ending late = Returns (Some s)"
  shows "mset (sy_joined s) + mset (sy_cleared s) + mset late = mset (sy_came s) \<and>
    30 dvd length (sy_cleared s) \<and> (sy_cleared s \<noteq> [] \<longrightarrow> 30 < length (sy_came s))"
proof -
  have "sync_inv new_sync_state" by (simp add: sync_inv_def new_sync_state_def new_queue_def)
  then obtain s' where s: "sync_inv s'" "s = sync_guard late s'"
    using assms sync_rounds_guard [of "(new_sync_state, [], -1)" "output" rounds ending late s] unfolding captureThreadSync_def by auto
  show ?thesis unfolding s(2) using sync_guard_joined [OF s(1)] by blast
qed

text \<open>
  Four sessions: the second comes while the first captures and fails to encode, then the display changes; the third comes while
  the new one opens, which gives no image, and the fourth comes too late.
\<close>

definition sample_sync :: "sync_round list" where
  "sample_sync =
     [\<lparr>sr_come = [1], sr_opening = [], sr_attempts = [([''A''], None, True)], sr_image = True, sr_makes = \<lambda>_. True,
       sr_turns = [\<lparr>st_come = [[2]], st_shutdown = [], st_makes = \<lambda>_. True, st_captured = True, st_idr = \<lambda>_. True,
         st_converts = \<lambda>_. True, st_encodes = \<lambda>c. c \<noteq> 2, st_switch = False\<rparr>], sr_status = Capture_reinit\<rparr>,
      \<lparr>sr_come = [], sr_opening = [3], sr_attempts = [([''A''], None, True)], sr_image = False, sr_makes = \<lambda>_. True, sr_turns = [],
       sr_status = Capture_ok\<rparr>]"

theorem sync_sessions_joined_witness:
  "mset (case captureThreadSync [] sample_sync [] [4] of Returns (Some s) \<Rightarrow> sy_joined s @ sy_cleared s | _ \<Rightarrow> []) + {#4#} =
     mset [1, 2, 3, 4]"
proof -
  have "(case captureThreadSync [] sample_sync [] [4] of Returns (Some s) \<Rightarrow> sy_came s | _ \<Rightarrow> []) = [1, 2, 3, 4]"
    by code_simp
  then obtain s where "captureThreadSync [] sample_sync [] [4] = Returns (Some s)" "sy_came s = [1, 2, 3, 4]"
    by (auto split: option.splits outcome.splits)
  then show ?thesis using sync_sessions_joined by fastforce
qed

text \<open>While the display opens for the first session, 31 more come: the last one throws out the 30 before it, which are never released.\<close>

lemma waiting_sessions_cleared:
  "(case captureThreadSync [] [\<lparr>sr_come = [0], sr_opening = [1..<32], sr_attempts = [([''A''], None, True)], sr_image = False,
      sr_makes = \<lambda>_. True, sr_turns = [], sr_status = Capture_ok\<rparr>] [] [] of
      Returns (Some s) \<Rightarrow> (sy_joined s, sy_cleared s) | _ \<Rightarrow> ([], [])) = ([0, 31], [1..<31])"
  by code_simp

end
