(* ===== verification/Video_Run.thy ===== *)
theory Video_Run
  imports Video_Probe Video_Capture
begin

text \<open>
  The thread that encodes for one session, \<^verbatim>\<open>encode_run\<close> and \<^verbatim>\<open>capture_async\<close> of \<^verbatim>\<open>src/video.cpp\<close>. What other
  threads do in between is an input, the calls to the encoder are the output.
\<close>

section \<open>Encoding\<close>

text \<open>The calls of the session and, for \<open>Run_packet\<close>, the packet that is sent; time stamps are numbers.\<close>

datatype run_call = Run_invalidate int int | Run_idr | Run_convert | Run_encode int "int option" | Run_normal

text \<open>
  What one turn of the loop meets: the events, the invalidations in the order they are popped, whether an image
  waits, the image popped with its time stamp, if one comes in time, whether images still come, and whether
  conversion and encoding work.
\<close>

record run_turn =
  rt_shutdown :: bool
  rt_images_running :: bool
  rt_reinit :: bool
  rt_invalidations :: "(int \<times> int) list"
  rt_idr :: bool
  rt_waiting :: bool
  rt_image :: "int option option"
  rt_still_running :: bool
  rt_converts :: bool
  rt_encodes :: bool

text \<open>The calls, the next frame and whether the loop goes on.\<close>

definition encode_frame :: "run_turn \<Rightarrow> int \<Rightarrow> run_call list \<Rightarrow> int option \<Rightarrow> run_call list \<times> int \<times> bool" where
  "encode_frame t n calls timestamp =
     (if rt_encodes t then (calls @ [Run_encode n timestamp, Run_normal], n + 1, True)
      else (calls @ [Run_encode n timestamp], n + 1, False))"

definition encode_turn :: "run_turn \<Rightarrow> int \<Rightarrow> run_call list \<times> int \<times> bool" where
  "encode_turn t n =
     (if rt_shutdown t \<or> \<not> rt_images_running t \<or> rt_reinit t \<and> 1 < n then ([], n, False)
      else let calls = map (\<lambda>(first, last). Run_invalidate first last) (rt_invalidations t) @ (if rt_idr t then [Run_idr] else [])
           in if \<not> rt_idr t \<or> rt_waiting t
              then (case rt_image t of
                  Some timestamp \<Rightarrow>
                    if \<not> rt_converts t then (calls @ [Run_convert], n, False)
                    else encode_frame t n (calls @ [Run_convert]) timestamp
                | None \<Rightarrow> if \<not> rt_still_running t then (calls, n, False) else encode_frame t n calls None)
              else encode_frame t n calls None)"

fun encode_turns :: "run_turn list \<Rightarrow> int \<Rightarrow> run_call list \<times> int" where
  "encode_turns [] n = ([], n)"
| "encode_turns (t # ts) n =
     (case encode_turn t n of (calls, n, goes_on) \<Rightarrow>
       if goes_on then (case encode_turns ts n of (rest, n) \<Rightarrow> (calls @ rest, n)) else (calls, n))"

text \<open>
  \<^verbatim>\<open>encode_run\<close>: the session, the first image, which is a dummy, and the loop. \<open>dummy\<close> is whether the dummy can be made and converted.
\<close>

definition encode_run :: "probe_env \<Rightarrow> encoder_t \<Rightarrow> stream_config \<Rightarrow> sunshine_colorspace \<Rightarrow> bool \<Rightarrow> run_turn list \<Rightarrow> int
    \<Rightarrow> (run_call list \<times> int) option" where
  "encode_run env e config c dummy turns n =
     (case make_encode_session (pe_display env) (pe_settings env) e config c of
        Session_undefined \<Rightarrow> None
      | No_session \<Rightarrow> Some ([], n)
      | Session s \<Rightarrow> if \<not> dummy then Some ([], n) else Some (encode_turns turns n))"

section \<open>The thread of a session\<close>

text \<open>
  One turn of \<^verbatim>\<open>capture_async\<close>: the events, whether the display is being opened again or gone, its geometry
  and HDR data, and the run of the encoder.
\<close>

record async_turn =
  ay_shutdown :: bool
  ay_images_running :: bool
  ay_reinit :: bool
  ay_expired :: bool
  ay_env :: probe_env
  ay_geometry :: display_geometry
  ay_hdr_metadata :: bool
  ay_dummy :: bool
  ay_turns :: "run_turn list"

datatype 'f async_call = Raise_touch_port "'f touch_port" | Raise_hdr bool | Async_run "run_call list"

fun async_turns :: "'f float_ops \<Rightarrow> 'f \<Rightarrow> encoder_t \<Rightarrow> stream_config \<Rightarrow> async_turn list \<Rightarrow> int
    \<Rightarrow> ('f async_call list \<times> int) option" where
  "async_turns F half e config [] n = Some ([], n)"
| "async_turns F half e config (t # ts) n =
     (if ay_shutdown t \<or> \<not> ay_images_running t then Some ([], n)
      else if ay_reinit t \<or> ay_expired t then async_turns F half e config ts n
      else (case make_encode_device (pe_display (ay_env t)) e config of
          None \<Rightarrow> Some ([], n)
        | Some c \<Rightarrow>
            (case encode_run (ay_env t) e config c (ay_dummy t) (ay_turns t) n of
               None \<Rightarrow> None
             | Some (calls, n) \<Rightarrow>
                 map_option (\<lambda>(rest, n).
                     ([Raise_touch_port (make_port F half (ay_geometry t) config),
                       Raise_hdr (colorspace_is_hdr c \<and> ay_hdr_metadata t), Async_run calls] @ rest, n))
                   (async_turns F half e config ts n))))"

text \<open>
  \<^verbatim>\<open>capture_async\<close>: \<open>started\<close> is whether the capture thread is there and its queue running. In the end the
  images are stopped and the shutdown event is raised, in every case.
\<close>

record 'f async_result =
  ar_queued :: bool
  ar_calls :: "'f async_call list"
  ar_images_stopped :: bool
  ar_shutdown_raised :: bool

definition capture_async :: "'f float_ops \<Rightarrow> 'f \<Rightarrow> encoder_t \<Rightarrow> stream_config \<Rightarrow> bool \<Rightarrow> bool \<Rightarrow> async_turn list
    \<Rightarrow> 'f async_result option" where
  "capture_async F half e config has_thread queue_running turns =
     (if \<not> has_thread \<or> \<not> queue_running
      then Some \<lparr>ar_queued = has_thread, ar_calls = [], ar_images_stopped = True, ar_shutdown_raised = True\<rparr>
      else map_option (\<lambda>(calls, n). \<lparr>ar_queued = True, ar_calls = calls, ar_images_stopped = True, ar_shutdown_raised = True\<rparr>)
        (async_turns F half e config turns 1))"

section \<open>Frame numbers\<close>

definition frames_of :: "run_call list \<Rightarrow> int list" where
  "frames_of calls = concat (map (\<lambda>c. case c of Run_encode n _ \<Rightarrow> [n] | _ \<Rightarrow> []) calls)"

lemma frames_of_append [simp]: "frames_of (xs @ ys) = frames_of xs @ frames_of ys"
  by (simp add: frames_of_def)

lemma frames_of_simps [simp]:
  "frames_of [] = []" "frames_of (Run_encode n ts # cs) = n # frames_of cs" "frames_of (Run_normal # cs) = frames_of cs"
  "frames_of (Run_idr # cs) = frames_of cs" "frames_of (Run_convert # cs) = frames_of cs"
  "frames_of (map (\<lambda>(first, last). Run_invalidate first last) xs) = []"
  by (induction xs) (auto simp: frames_of_def)

lemma upto_append: "a \<le> b \<Longrightarrow> b \<le> c \<Longrightarrow> [a..b - 1] @ [b..c - 1] = [a..(c::int) - 1]"
  using upto_split1 [of a "b - 1" "c - 1"] upto_split2 [of a "b - 1" "c - 1"] by (cases "a = b") auto

lemma encode_turn_frames: "encode_turn t n = (calls, n', goes_on) \<Longrightarrow> n \<le> n' \<and> frames_of calls = [n..n' - 1]"
  by (auto simp: encode_turn_def encode_frame_def Let_def split: if_splits option.splits)

lemma encode_turns_frames: "encode_turns ts n = (calls, n') \<Longrightarrow> n \<le> n' \<and> frames_of calls = [n..n' - 1]"
proof (induction ts arbitrary: n calls)
  case (Cons t ts)
  obtain calls1 n1 goes_on where t: "encode_turn t n = (calls1, n1, goes_on)" by (metis prod_cases3)
  note f = encode_turn_frames [OF t]
  show ?case
  proof (cases goes_on)
    case True
    then obtain rest where "encode_turns ts n1 = (rest, n')" "calls = calls1 @ rest"
      using Cons.prems t by (auto split: prod.splits)
    then show ?thesis using Cons.IH [of n1 rest] f upto_append [of n n1 n'] by auto
  next
    case False
    then show ?thesis using Cons.prems t f by simp
  qed
qed simp

definition async_frames :: "'f async_call list \<Rightarrow> int list" where
  "async_frames calls = concat (map (\<lambda>c. case c of Async_run rs \<Rightarrow> frames_of rs | _ \<Rightarrow> []) calls)"

lemma async_turns_frames:
  "async_turns F half e config ts n = Some (calls, n') \<Longrightarrow> n \<le> n' \<and> async_frames calls = [n..n' - 1]"
proof (induction ts arbitrary: n calls)
  case Nil
  then show ?case by (simp add: async_frames_def)
next
  case (Cons t ts)
  show ?case
  proof (cases "ay_shutdown t \<or> \<not> ay_images_running t \<or> make_encode_device (pe_display (ay_env t)) e config = None")
    case True
    then show ?thesis
      using Cons.prems Cons.IH by (auto simp: async_frames_def split: if_splits)
  next
    case False
    show ?thesis
    proof (cases "ay_reinit t \<or> ay_expired t")
      case True
      then show ?thesis using False Cons.prems Cons.IH by (simp split: if_splits)
    next
      case other: False
      obtain c where c: "make_encode_device (pe_display (ay_env t)) e config = Some c" using False by auto
      then obtain run n1 where r: "encode_run (ay_env t) e config c (ay_dummy t) (ay_turns t) n = Some (run, n1)"
        using Cons.prems False other by (auto split: option.splits)
      then have run: "n \<le> n1 \<and> frames_of run = [n..n1 - 1]"
        using encode_turns_frames [of "ay_turns t" n] by (auto simp: encode_run_def split: session_result.splits if_splits)
      obtain rest where "async_turns F half e config ts n1 = Some (rest, n')" "async_frames calls = frames_of run @ async_frames rest"
        using Cons.prems False other c r by (auto simp: async_frames_def)
      then show ?thesis using Cons.IH [of n1 rest] run upto_append [of n n1 n'] by auto
    qed
  qed
qed

text \<open>
  The frames of a session are numbered from 1 without a gap, however often the display is lost and opened again.
\<close>

theorem frames_consecutive:
  "case capture_async F half e config has_thread queue_running turns of
     None \<Rightarrow> True
   | Some r \<Rightarrow> async_frames (ar_calls r) = map (\<lambda>k. int k + 1) [0..<length (async_frames (ar_calls r))]"
proof -
  have num: "[1..m - 1] = map (\<lambda>k. int k + 1) [0..<length [1..m - 1]]" for m :: int
    by (rule nth_equalityI) auto
  show ?thesis
  proof (cases "has_thread \<and> queue_running")
    case True
    have "async_frames calls = map (\<lambda>k. int k + 1) [0..<length (async_frames calls)]"
      if "async_turns F half e config turns 1 = Some (calls, n)" for calls n
      using num [of n] async_turns_frames [OF that] by simp
    then show ?thesis using True by (auto simp: capture_async_def split: option.split)
  next
    case False
    then show ?thesis by (auto simp: capture_async_def async_frames_def)
  qed
qed

end
