(* ===== verification/Windows_Input.thy ===== *)
theory Windows_Input
  imports Input
begin

text \<open>
  Mouse, keyboard and text on Windows, \<^verbatim>\<open>src/platform/windows/input.cpp\<close> and
  \<^verbatim>\<open>src/platform/windows/keylayout.h\<close>: which \<^verbatim>\<open>INPUT\<close> each call sends. The flags of Windows are sets of named
  flags, the virtual key codes are those of the Windows headers. What Windows answers is a parameter.
\<close>

datatype mouse_flag = Mf_move | Mf_absolute | Mf_virtualdesk | Mf_leftdown | Mf_leftup | Mf_middledown | Mf_middleup
  | Mf_rightdown | Mf_rightup | Mf_xdown | Mf_xup | Mf_wheel | Mf_hwheel

datatype key_flag = Kf_extendedkey | Kf_keyup | Kf_unicode | Kf_scancode

datatype mouse_data = Md_none | Md_xbutton1 | Md_xbutton2 | Md_distance int

text \<open>\<^verbatim>\<open>Mouse_event flags dx dy mouseData\<close> and \<^verbatim>\<open>Key_event flags wVk wScan\<close>.\<close>

datatype win_input = Mouse_event "mouse_flag set" int int mouse_data | Key_event "key_flag set" u16 u16

section \<open>Sending\<close>

text \<open>
  \<^verbatim>\<open>SendInput\<close> is tried again when the desktop has changed. Each answer is whether it worked and, if not, the
  desktop found then; the result is whether it was sent and the last desktop, \<open>None\<close> when the answers end before.
\<close>

fun retry_on_desktop :: "(bool \<times> nat) list \<Rightarrow> nat \<Rightarrow> (bool \<times> nat) option" where
  "retry_on_desktop [] desk = None"
| "retry_on_desktop ((sent, hDesk) # as) desk =
     (if sent then Some (True, desk) else if desk \<noteq> hDesk then retry_on_desktop as hDesk else Some (False, desk))"

section \<open>Mouse\<close>

text \<open>\<open>lround\<close> is \<^verbatim>\<open>std::lround\<close>; 65535 is the size of \<^verbatim>\<open>target_touch_port\<close>.\<close>

definition target_size :: int where "target_size = 65535"

definition abs_mouse :: "'f float_ops \<Rightarrow> ('f \<Rightarrow> int) \<Rightarrow> platf_port \<Rightarrow> 'f \<Rightarrow> 'f \<Rightarrow> win_input" where
  "abs_mouse F lround port x y =
     (let scaled_x = lround (fl_mul F x (fl_div F (fl_of_int F target_size) (fl_of_int F (pp_width port))));
          scaled_y = lround (fl_mul F y (fl_div F (fl_of_int F target_size) (fl_of_int F (pp_height port))))
      in Mouse_event {Mf_move, Mf_absolute, Mf_virtualdesk} scaled_x scaled_y Md_none)"

definition move_mouse :: "int \<Rightarrow> int \<Rightarrow> win_input" where
  "move_mouse deltaX deltaY = Mouse_event {Mf_move} deltaX deltaY Md_none"

definition button_mouse :: "nat \<Rightarrow> bool \<Rightarrow> win_input" where
  "button_mouse button release =
     (if button = 1 then Mouse_event {if release then Mf_leftup else Mf_leftdown} 0 0 Md_none
      else if button = 2 then Mouse_event {if release then Mf_middleup else Mf_middledown} 0 0 Md_none
      else if button = 3 then Mouse_event {if release then Mf_rightup else Mf_rightdown} 0 0 Md_none
      else if button = 4 then Mouse_event {if release then Mf_xup else Mf_xdown} 0 0 Md_xbutton1
      else Mouse_event {if release then Mf_xup else Mf_xdown} 0 0 Md_xbutton2)"

definition win_scroll :: "int \<Rightarrow> win_input" where
  "win_scroll distance = Mouse_event {Mf_wheel} 0 0 (Md_distance distance)"

definition win_hscroll :: "int \<Rightarrow> win_input" where
  "win_hscroll distance = Mouse_event {Mf_hwheel} 0 0 (Md_distance distance)"

section \<open>Keys\<close>

definition VK_TO_SCANCODE_MAP :: "u16 list" where
  "VK_TO_SCANCODE_MAP =
    [0, 0, 0, 70, 0, 0, 0, 0, 14, 15, 0, 0, 76, 28, 0, 0,
     42, 29, 56, 0, 58, 0, 0, 0, 0, 0, 0, 1, 0, 0, 0, 0,
     57, 73, 81, 79, 71, 75, 72, 77, 80, 0, 0, 0, 84, 82, 83, 99,
     11, 2, 3, 4, 5, 6, 7, 8, 9, 10, 0, 0, 0, 0, 0, 0,
     0, 30, 48, 46, 32, 18, 33, 34, 35, 23, 36, 37, 38, 50, 49, 24,
     25, 16, 19, 31, 20, 22, 47, 17, 45, 21, 44, 91, 92, 93, 0, 95,
     82, 79, 80, 81, 75, 76, 77, 71, 72, 73, 55, 78, 0, 74, 83, 53,
     59, 60, 61, 62, 63, 64, 65, 66, 67, 68, 87, 88, 100, 101, 102, 103,
     104, 105, 106, 107, 108, 109, 110, 118, 0, 0, 0, 0, 0, 0, 0, 0,
     69, 70, 0, 0, 0, 0, 0, 0, 0, 0, 0, 0, 0, 0, 0, 0,
     42, 54, 29, 29, 56, 56, 106, 105, 103, 104, 101, 102, 50, 32, 46, 48,
     25, 16, 36, 34, 108, 109, 107, 33, 0, 0, 39, 13, 51, 12, 52, 53,
     41, 115, 126, 0, 0, 0, 0, 0, 0, 0, 0, 0, 0, 0, 0, 0,
     0, 0, 0, 0, 0, 0, 0, 0, 0, 0, 0, 26, 43, 27, 40, 0,
     0, 0, 86, 0, 0, 0, 0, 0, 0, 113, 92, 123, 0, 111, 90, 0,
     0, 91, 0, 95, 0, 94, 0, 0, 0, 93, 0, 98, 0, 0, 0, 0]"

definition VK_PAUSE :: u16 where "VK_PAUSE = 0x13"
definition VK_LWIN :: u16 where "VK_LWIN = 0x5B"
definition VK_RWIN :: u16 where "VK_RWIN = 0x5C"

text \<open>Left and right Windows key, right alt and control, insert, delete, home, end, page up and down, the arrows,
  division on the number pad, menu.\<close>

definition extended_keys :: "u16 list" where
  "extended_keys = [VK_LWIN, VK_RWIN, 0xA5, 0xA3, 0x2D, 0x2E, 0x24, 0x23, 0x21, 0x22, 0x26, 0x28, 0x25, 0x27, 0x6F, 0x5D]"

definition SS_KBE_FLAG_NON_NORMALIZED :: u8 where "SS_KBE_FLAG_NON_NORMALIZED = 0x01"

text \<open>\<open>MapVirtualKey\<close> gives the scan code of the current layout.\<close>

definition key_scan :: "bool \<Rightarrow> (u16 \<Rightarrow> u16) \<Rightarrow> u16 \<Rightarrow> u8 \<Rightarrow> u16" where
  "key_scan always_send_scancodes MapVirtualKey modcode flags =
     (if flags AND SS_KBE_FLAG_NON_NORMALIZED = 0 then VK_TO_SCANCODE_MAP ! unat (modcode AND 0xFF)
      else if always_send_scancodes \<and> modcode \<noteq> VK_LWIN \<and> modcode \<noteq> VK_RWIN \<and> modcode \<noteq> VK_PAUSE
      then MapVirtualKey modcode else 0)"

definition keyboard_update :: "bool \<Rightarrow> (u16 \<Rightarrow> u16) \<Rightarrow> u16 \<Rightarrow> bool \<Rightarrow> u8 \<Rightarrow> win_input" where
  "keyboard_update always_send_scancodes MapVirtualKey modcode release flags =
     (let wScan = key_scan always_send_scancodes MapVirtualKey modcode flags
      in Key_event
        ((if wScan \<noteq> 0 then {Kf_scancode} else {}) \<union> (if modcode \<in> set extended_keys then {Kf_extendedkey} else {}) \<union>
          (if release then {Kf_keyup} else {}))
        (if wScan \<noteq> 0 then 0 else modcode) wScan)"

text \<open>\<^verbatim>\<open>unicode\<close>: \<open>wide\<close> is the answer of \<^verbatim>\<open>MultiByteToWideChar\<close>, at most one unit per byte.\<close>

definition win_unicode :: "(bytes \<Rightarrow> u16 list option) \<Rightarrow> bytes \<Rightarrow> win_input list" where
  "win_unicode wide utf8 =
     (case wide utf8 of
        None \<Rightarrow> []
      | Some chars \<Rightarrow> map (\<lambda>c. Key_event {Kf_unicode} 0 c) chars @ map (\<lambda>c. Key_event {Kf_unicode, Kf_keyup} 0 c) chars)"

section \<open>Facts\<close>

text \<open>The attempts end: there is one more than the desktop changes.\<close>

lemma retry_ends: "retry_on_desktop as desk = None \<longleftrightarrow> (\<forall>i<length as. \<not> fst (as ! i) \<and> snd (as ! i) \<noteq> (desk # map snd as) ! i)"
proof (induction as desk rule: retry_on_desktop.induct)
  case (2 sent hDesk as desk)
  show ?case using 2 by (cases sent; cases "desk = hDesk") (simp_all add: All_less_Suc2)
qed simp

text \<open>A mouse button goes up on the button it went down on.\<close>

definition up_of :: "mouse_flag \<Rightarrow> mouse_flag" where
  "up_of f = (case f of Mf_leftdown \<Rightarrow> Mf_leftup | Mf_middledown \<Rightarrow> Mf_middleup | Mf_rightdown \<Rightarrow> Mf_rightup | Mf_xdown \<Rightarrow> Mf_xup | _ \<Rightarrow> f)"

lemma button_release:
  "\<exists>f d. button_mouse b False = Mouse_event {f} 0 0 d \<and> button_mouse b True = Mouse_event {up_of f} 0 0 d"
  by (simp add: button_mouse_def up_of_def)

text \<open>The keys of an ordinary keyboard.\<close>

definition plain_keys :: "u16 list" where
  "plain_keys = map of_nat ([0x30..<0x3A] @ [0x41..<0x5B] @ [0x60..<0x6C] @ [0x6D..<0x70] @ [0x70..<0x7C] @ [0x21..<0x29]) @
     [0x08, 0x09, 0x0D, 0x13, 0x14, 0x1B, 0x20, 0x2D, 0x2E, 0x5B, 0x5C, 0x5D, 0x90, 0x91, 0xA0, 0xA1, 0xA2, 0xA3, 0xA4, 0xA5,
      0xBA, 0xBB, 0xBC, 0xBD, 0xBE, 0xBF, 0xC0, 0xDB, 0xDC, 0xDD, 0xDE, 0xE2]"

definition key_code :: "u16 \<Rightarrow> u16 \<times> bool \<times> u16" where
  "key_code k = (let scan = VK_TO_SCANCODE_MAP ! unat (k AND 0xFF) in (scan, k \<in> set extended_keys, if scan = 0 then k else 0))"

lemma plain_keys_distinct: "distinct (map key_code plain_keys)"
  by code_simp

lemma keyboard_update_eq:
  assumes "flags AND SS_KBE_FLAG_NON_NORMALIZED = 0" "flags' AND SS_KBE_FLAG_NON_NORMALIZED = 0"
  shows "keyboard_update a m k r flags = keyboard_update a' m' k' r' flags' \<longleftrightarrow> key_code k = key_code k' \<and> r = r'"
proof -
  have flag_sets: "(if c then {Kf_scancode} else {}) \<union> (if e then {Kf_extendedkey} else {}) \<union> (if r then {Kf_keyup} else {}) =
      (if c' then {Kf_scancode} else {}) \<union> (if e' then {Kf_extendedkey} else {}) \<union> (if r' then {Kf_keyup} else {}) \<longleftrightarrow>
      c = c' \<and> e = e' \<and> r = r'" for c e r c' e' r'
    by (cases c; cases e; cases r; cases c'; cases e'; cases r') auto
  show ?thesis
    using assms unfolding keyboard_update_def key_scan_def key_code_def Let_def by (simp add: flag_sets) auto
qed

text \<open>
  C39. With the client's layout normalised, two keys of an ordinary keyboard never send Windows the same event, nor
  does a press the event of a release.
\<close>

theorem keys_told_apart:
  assumes "k \<in> set plain_keys" "k' \<in> set plain_keys"
    and "flags AND SS_KBE_FLAG_NON_NORMALIZED = 0" "flags' AND SS_KBE_FLAG_NON_NORMALIZED = 0"
    and "keyboard_update a m k r flags = keyboard_update a m k' r' flags'"
  shows "k = k' \<and> r = r'"
  using keyboard_update_eq [OF assms(3,4)] assms(1,2,5) plain_keys_distinct by (auto simp: distinct_map dest: inj_onD)

theorem keys_told_apart_witness: "keyboard_update False id 0x24 False 0 \<noteq> keyboard_update False id 0x67 False 0"
proof
  assume same: "keyboard_update False id 0x24 False 0 = keyboard_update False id 0x67 False 0"
  have keys: "(0x24 :: u16) \<in> set plain_keys" "(0x67 :: u16) \<in> set plain_keys" by code_simp+
  have "(0x24 :: u16) = 0x67 \<and> False = False" by (rule keys_told_apart [OF keys _ _ same]) simp_all
  then show False by simp
qed

text \<open>
  The volume, media and browser keys are sent without the extended flag, so the client's mute key types \<open>d\<close>,
  volume down and up type \<open>c\<close> and \<open>b\<close>, next and previous track \<open>p\<close> and \<open>q\<close>, stop \<open>j\<close> and play \<open>g\<close>.
\<close>

lemma media_keys_type_letters:
  "map (\<lambda>k. keyboard_update a m k r 0) [0xAD, 0xAE, 0xAF, 0xB0, 0xB1, 0xB2, 0xB3] =
   map (\<lambda>k. keyboard_update a m k r 0) [0x44, 0x43, 0x42, 0x50, 0x51, 0x4A, 0x47]"
proof -
  have "map key_code [0xAD, 0xAE, 0xAF, 0xB0, 0xB1, 0xB2, 0xB3] = map key_code [0x44, 0x43, 0x42, 0x50, 0x51, 0x4A, 0x47]"
    by code_simp
  then show ?thesis by (simp add: keyboard_update_eq)
qed

end
