(* ===== verification/Windows_Touch.thy ===== *)
theory Windows_Touch
  imports Input
begin

text \<open>
  Touch and pen on Windows, \<^verbatim>\<open>src/platform/windows/input.cpp\<close>: the ten slots of the synthetic touch device, how
  events of the client change them and what is given to \<^verbatim>\<open>InjectSyntheticPointerInput\<close>. The flags of Windows are
  sets of named flags; whether a call of Windows succeeds is an input, its arguments are recorded. The
  floating point computations are parameters.
\<close>

section \<open>Slots\<close>

datatype pointer_flag = Inrange | Incontact | Down | Up | Update | Canceled

datatype touch_mask = Mask_contactarea | Mask_orientation | Mask_pressure

record pointer_info =
  po_id :: u32
  po_flags :: "pointer_flag set"
  po_location :: "int \<times> int"

record touch_slot = pointer_info +
  to_mask :: "touch_mask set"
  to_pressure :: int
  to_contact :: "int \<times> int \<times> int \<times> int"
  to_orientation :: int

definition zero_slot :: touch_slot where
  "zero_slot = \<lparr>po_id = 0, po_flags = {}, po_location = (0, 0), to_mask = {}, to_pressure = 0, to_contact = (0, 0, 0, 0), to_orientation = 0\<rparr>"

definition slot_used :: "touch_slot \<Rightarrow> bool" where
  "slot_used t \<longleftrightarrow> po_flags t \<noteq> {}"

text \<open>\<open>n\<close> slots are left from \<open>i\<close> on; the result is the number of used slots in front.\<close>

fun compact_slots :: "nat \<Rightarrow> nat \<Rightarrow> touch_slot list \<Rightarrow> nat \<times> touch_slot list" where
  "compact_slots 0 i ts = (i, ts)"
| "compact_slots (Suc n) i ts =
     (if slot_used (ts ! i) then compact_slots n (Suc i) ts
      else case find (\<lambda>j. slot_used (ts ! j)) [Suc i..<length ts] of
          None \<Rightarrow> (i, ts)
        | Some j \<Rightarrow> compact_slots n (Suc i) (ts[i := ts ! j, j := ts ! i]))"

datatype pen_flag = Pen_barrel | Pen_eraser

datatype pen_mask = Mask_pen_pressure | Mask_rotation | Mask_tilt

record pen_info = pointer_info +
  pn_flags :: "pen_flag set"
  pn_mask :: "pen_mask set"
  pn_pressure :: int
  pn_rotation :: int
  pn_tilt :: "int \<times> int"

definition zero_pen :: pen_info where
  "zero_pen = \<lparr>po_id = 0, po_flags = {}, po_location = (0, 0), pn_flags = {}, pn_mask = {}, pn_pressure = 0,
     pn_rotation = 0, pn_tilt = (0, 0)\<rparr>"

datatype win_touch_call = Inject_touch "touch_slot list" | Inject_pen pen_info | Create_touch | Create_pen

text \<open>The client's context, with the calls so far.\<close>

record windows_client =
  wc_touch :: bool
  wc_touchInfo :: "touch_slot list"
  wc_activeTouchSlots :: nat
  wc_touchRepeatTask :: bool
  wc_pen :: bool
  wc_penInfo :: pen_info
  wc_penRepeatTask :: bool
  wc_touch_calls :: "win_touch_call list"

definition new_windows_client :: windows_client where
  "new_windows_client = \<lparr>wc_touch = False, wc_touchInfo = replicate 10 zero_slot, wc_activeTouchSlots = 0,
     wc_touchRepeatTask = False, wc_pen = False, wc_penInfo = zero_pen, wc_penRepeatTask = False, wc_touch_calls = []\<rparr>"

definition perform_touch_compaction :: "windows_client \<Rightarrow> windows_client" where
  "perform_touch_compaction raw =
     (case compact_slots (length (wc_touchInfo raw)) 0 (wc_touchInfo raw) of
        (i, ts) \<Rightarrow> raw\<lparr>wc_touchInfo := ts, wc_activeTouchSlots := i\<rparr>)"

text \<open>The slot of a pointer, a new one if there is none; \<open>None\<close> when all are used.\<close>

definition pointer_by_id :: "u32 \<Rightarrow> windows_client \<Rightarrow> nat option \<times> windows_client" where
  "pointer_by_id pointerId raw =
     (let raw = perform_touch_compaction raw; ts = wc_touchInfo raw
      in case find (\<lambda>i. po_id (ts ! i) = pointerId \<and> slot_used (ts ! i)) [0..<length ts] of
           Some i \<Rightarrow> (Some i, raw)
         | None \<Rightarrow> (case find (\<lambda>i. \<not> slot_used (ts ! i)) [0..<length ts] of
               Some i \<Rightarrow> (Some i, raw\<lparr>wc_touchInfo := ts[i := (ts ! i)\<lparr>po_id := pointerId\<rparr>], wc_activeTouchSlots := i + 1\<rparr>)
             | None \<Rightarrow> (None, raw)))"

section \<open>Events\<close>

definition LI_TOUCH_EVENT_DOWN :: u8 where "LI_TOUCH_EVENT_DOWN = 0x01"
definition LI_TOUCH_EVENT_UP :: u8 where "LI_TOUCH_EVENT_UP = 0x02"
definition LI_TOUCH_EVENT_CANCEL :: u8 where "LI_TOUCH_EVENT_CANCEL = 0x04"
definition LI_TOUCH_EVENT_BUTTON_ONLY :: u8 where "LI_TOUCH_EVENT_BUTTON_ONLY = 0x05"
definition LI_TOUCH_EVENT_HOVER_LEAVE :: u8 where "LI_TOUCH_EVENT_HOVER_LEAVE = 0x06"
definition LI_TOUCH_EVENT_CANCEL_ALL :: u8 where "LI_TOUCH_EVENT_CANCEL_ALL = 0x07"

lemmas touch_events = LI_TOUCH_EVENT_HOVER_def LI_TOUCH_EVENT_DOWN_def LI_TOUCH_EVENT_UP_def LI_TOUCH_EVENT_MOVE_def
  LI_TOUCH_EVENT_CANCEL_def LI_TOUCH_EVENT_BUTTON_ONLY_def LI_TOUCH_EVENT_HOVER_LEAVE_def LI_TOUCH_EVENT_CANCEL_ALL_def

definition pixel_location :: "'f float_ops \<Rightarrow> platf_port \<Rightarrow> 'f \<Rightarrow> 'f \<Rightarrow> int \<times> int" where
  "pixel_location F port x y =
     (fl_to_int F (fl_add F (fl_mul F x (fl_of_int F (pp_width port))) (fl_of_int F (pp_offset_x port))),
      fl_to_int F (fl_add F (fl_mul F y (fl_of_int F (pp_height port))) (fl_of_int F (pp_offset_y port))))"

text \<open>The flags of \<^verbatim>\<open>populate_common_pointer_info\<close>, and whether the location is set.\<close>

definition populate_flags :: "u8 \<Rightarrow> pointer_flag set \<Rightarrow> pointer_flag set" where
  "populate_flags eventType flags =
     (if eventType = LI_TOUCH_EVENT_HOVER then flags - {Incontact} \<union> {Inrange, Update}
      else if eventType = LI_TOUCH_EVENT_DOWN then flags \<union> {Inrange, Incontact, Down}
      else if eventType = LI_TOUCH_EVENT_UP then flags - {Incontact, Inrange} \<union> {Up}
      else if eventType = LI_TOUCH_EVENT_MOVE then flags \<union> {Inrange, Incontact, Update}
      else if eventType = LI_TOUCH_EVENT_CANCEL \<or> eventType = LI_TOUCH_EVENT_CANCEL_ALL
      then (flags \<union> (if Incontact \<in> flags then {Up} else {Update})) - {Incontact, Inrange} \<union> {Canceled}
      else if eventType = LI_TOUCH_EVENT_HOVER_LEAVE then flags - {Incontact, Inrange} \<union> {Update}
      else if eventType = LI_TOUCH_EVENT_BUTTON_ONLY then (if flags \<noteq> {} then flags \<union> {Update} else flags)
      else flags)"

definition populate_common_pointer_info :: "u8 \<Rightarrow> int \<times> int \<Rightarrow> 'a pointer_info_scheme \<Rightarrow> 'a pointer_info_scheme" where
  "populate_common_pointer_info eventType location info =
     info\<lparr>po_flags := populate_flags eventType (po_flags info),
       po_location := (if eventType \<in> {LI_TOUCH_EVENT_HOVER, LI_TOUCH_EVENT_DOWN, LI_TOUCH_EVENT_MOVE} then location else po_location info)\<rparr>"

definition EDGE_TRIGGERED_POINTER_FLAGS :: "pointer_flag set" where
  "EDGE_TRIGGERED_POINTER_FLAGS = {Down, Up, Canceled, Update}"

text \<open>\<^verbatim>\<open>cancel_all_active_touches\<close>: whether the injection works does not matter.\<close>

definition cancel_slot :: "touch_slot \<Rightarrow> touch_slot" where
  "cancel_slot t = (populate_common_pointer_info LI_TOUCH_EVENT_CANCEL_ALL (0, 0) t)\<lparr>to_mask := {}\<rparr>"

definition inject_touch :: "windows_client \<Rightarrow> windows_client" where
  "inject_touch raw = raw\<lparr>wc_touch_calls := wc_touch_calls raw @ [Inject_touch (take (wc_activeTouchSlots raw) (wc_touchInfo raw))]\<rparr>"

definition cancel_all_active_touches :: "windows_client \<Rightarrow> windows_client" where
  "cancel_all_active_touches raw =
     (let raw = perform_touch_compaction (raw\<lparr>wc_touchRepeatTask := False\<rparr>);
          raw = (if 0 < wc_activeTouchSlots raw
            then inject_touch (raw\<lparr>wc_touchInfo := map cancel_slot (take (wc_activeTouchSlots raw) (wc_touchInfo raw)) @
              drop (wc_activeTouchSlots raw) (wc_touchInfo raw)\<rparr>)
            else raw)
      in raw\<lparr>wc_touchInfo := map (\<lambda>_. zero_slot) (wc_touchInfo raw), wc_activeTouchSlots := 0\<rparr>)"

text \<open>
  What an event meets: whether Windows has the interface, whether it makes the device and takes the
  injection; \<open>we_half\<close> are the rounded halves of the contact's width and height, each rounded
  down and up, of its rotation and axes; \<open>we_tilt\<close> the tilt along both axes, of the pen's rotation and tilt.
\<close>

record 'f win_env =
  we_has_api :: bool
  we_creates :: bool
  we_injects :: bool
  we_float :: "'f float_ops"
  we_half :: "u16 \<Rightarrow> 'f \<Rightarrow> 'f \<Rightarrow> (int \<times> int) \<times> (int \<times> int)"
  we_tilt :: "u16 \<Rightarrow> u8 \<Rightarrow> int \<times> int"

definition contact_rect :: "platf_port \<Rightarrow> int \<times> int \<Rightarrow> (int \<times> int) \<times> (int \<times> int) \<Rightarrow> int \<times> int \<times> int \<times> int" where
  "contact_rect port location half =
     (case (location, half) of ((x, y), ((w_down, w_up), (h_down, h_up))) \<Rightarrow>
       (max (pp_offset_x port) (x - w_down), min (pp_offset_x port + pp_width port) (x + w_up),
        max (pp_offset_y port) (y - h_down), min (pp_offset_y port + pp_height port) (y + h_up)))"

definition fill_touch :: "'f win_env \<Rightarrow> platf_port \<Rightarrow> 'f touch_input \<Rightarrow> touch_slot \<Rightarrow> touch_slot" where
  "fill_touch env port touch t =
     (let F = we_float env; zero = fl_of_int F 0;
          t = populate_common_pointer_info (ti_eventType touch) (pixel_location F port (ti_x touch) (ti_y touch)) t;
          contact = Incontact \<in> po_flags t;
          pressure = \<not> fl_eq F (ti_pressureOrDistance touch) zero;
          area = (\<not> fl_eq F (ti_contactAreaMajor touch) zero \<and> \<not> fl_eq F (ti_contactAreaMinor touch) zero);
          rotation = (ti_rotation touch \<noteq> LI_ROT_UNKNOWN)
      in t\<lparr>to_mask := (if contact \<and> pressure then {Mask_pressure} else {}) \<union> (if contact \<and> area then {Mask_contactarea} else {}) \<union>
             (if rotation then {Mask_orientation} else {}),
           to_pressure := (if \<not> contact then 0
             else if pressure then fl_to_int F (fl_mul F (ti_pressureOrDistance touch) (fl_of_int F 1024)) else 512),
           to_contact := (if \<not> contact then (0, 0, 0, 0)
             else if area then contact_rect port (po_location t)
               (we_half env (ti_rotation touch) (ti_contactAreaMajor touch) (ti_contactAreaMinor touch))
             else to_contact t),
           to_orientation := (if rotation then uint (ti_rotation touch) else 0)\<rparr>)"

text \<open>The slot \<open>i\<close> is filled and all are injected.\<close>

definition send_touch :: "'f win_env \<Rightarrow> platf_port \<Rightarrow> 'f touch_input \<Rightarrow> nat \<Rightarrow> windows_client \<Rightarrow> windows_client" where
  "send_touch env port touch i raw =
     (let t = fill_touch env port touch (wc_touchInfo raw ! i);
          raw = inject_touch (raw\<lparr>wc_touchInfo := (wc_touchInfo raw)[i := t]\<rparr>)
      in if \<not> we_injects env then raw
         else let t = t\<lparr>po_flags := po_flags t - EDGE_TRIGGERED_POINTER_FLAGS\<rparr>
              in raw\<lparr>wc_touchInfo := (wc_touchInfo raw)[i := t],
                   wc_touchRepeatTask := (1 < wc_activeTouchSlots raw \<or> po_flags t \<noteq> {})\<rparr>)"

text \<open>\<^verbatim>\<open>touch_update\<close> with a device; \<open>None\<close> is the use of a null pointer.\<close>

definition device_touch :: "'f win_env \<Rightarrow> platf_port \<Rightarrow> 'f touch_input \<Rightarrow> windows_client \<Rightarrow> windows_client option" where
  "device_touch env port touch raw =
     (let raw = raw\<lparr>wc_touchRepeatTask := False\<rparr>
      in if ti_eventType touch = LI_TOUCH_EVENT_CANCEL_ALL then Some (cancel_all_active_touches raw)
         else case pointer_by_id (ti_pointerId touch) raw of
             (Some i, raw) \<Rightarrow> Some (send_touch env port touch i raw)
           | (None, raw) \<Rightarrow>
               (case pointer_by_id (ti_pointerId touch) (cancel_all_active_touches raw) of
                  (Some i, raw) \<Rightarrow> Some (send_touch env port touch i raw)
                | (None, raw) \<Rightarrow> None))"

definition touch_update :: "'f win_env \<Rightarrow> platf_port \<Rightarrow> 'f touch_input \<Rightarrow> windows_client \<Rightarrow> windows_client option" where
  "touch_update env port touch raw =
     (if \<not> we_has_api env then Some raw
      else if wc_touch raw then device_touch env port touch raw
      else if ti_eventType touch = LI_TOUCH_EVENT_CANCEL_ALL then Some raw
      else
        let raw = raw\<lparr>wc_touch := we_creates env, wc_touch_calls := wc_touch_calls raw @ [Create_touch]\<rparr>
        in if \<not> wc_touch raw then Some raw else device_touch env port touch raw)"

text \<open>Events one after the other, each with what it meets.\<close>

fun touch_run :: "('f win_env \<times> platf_port \<times> 'f touch_input) list \<Rightarrow> windows_client \<Rightarrow> windows_client option" where
  "touch_run [] raw = Some raw"
| "touch_run ((env, port, touch) # evs) raw = Option.bind (touch_update env port touch raw) (touch_run evs)"

text \<open>The task that repeats the touches while there is any.\<close>

definition repeat_touch :: "windows_client \<Rightarrow> windows_client" where
  "repeat_touch raw = (inject_touch raw)\<lparr>wc_touchRepeatTask := True\<rparr>"

section \<open>Pen\<close>

definition LI_TOOL_TYPE_UNKNOWN :: u8 where "LI_TOOL_TYPE_UNKNOWN = 0x00"
definition LI_TOOL_TYPE_ERASER :: u8 where "LI_TOOL_TYPE_ERASER = 0x02"
definition LI_TILT_UNKNOWN :: u8 where "LI_TILT_UNKNOWN = 0xFF"

definition pen_tool :: "u8 \<Rightarrow> u8 \<Rightarrow> pen_flag set \<Rightarrow> pen_flag set" where
  "pen_tool buttons toolType flags =
     (let flags = (if buttons \<noteq> 0 then flags \<union> {Pen_barrel} else flags - {Pen_barrel})
      in if toolType = LI_TOOL_TYPE_ERASER then flags \<union> {Pen_eraser}
         else if toolType = LI_TOOL_TYPE_UNKNOWN then flags
         else flags - {Pen_eraser})"

definition fill_pen :: "'f win_env \<Rightarrow> platf_port \<Rightarrow> 'f pen_input \<Rightarrow> pen_info \<Rightarrow> pen_info" where
  "fill_pen env port pen info =
     (let F = we_float env;
          info = populate_common_pointer_info (pi_eventType pen) (pixel_location F port (pi_x pen) (pi_y pen)) (info\<lparr>po_id := 0\<rparr>);
          pressure = (Incontact \<in> po_flags info \<and> \<not> fl_eq F (pi_pressureOrDistance pen) (fl_of_int F 0));
          rotation = (pi_rotation pen \<noteq> LI_ROT_UNKNOWN);
          tilt = (pi_tilt pen \<noteq> LI_TILT_UNKNOWN \<and> rotation)
      in info\<lparr>pn_flags := pen_tool (pi_penButtons pen) (pi_toolType pen) (pn_flags info),
           pn_mask := (if pressure then {Mask_pen_pressure} else {}) \<union> (if rotation then {Mask_rotation} else {}) \<union>
             (if tilt then {Mask_tilt} else {}),
           pn_pressure := (if pressure then fl_to_int F (fl_mul F (pi_pressureOrDistance pen) (fl_of_int F 1024)) else 0),
           pn_rotation := (if rotation then uint (pi_rotation pen) else 0),
           pn_tilt := (if tilt then we_tilt env (pi_rotation pen) (pi_tilt pen) else (0, 0))\<rparr>)"

definition inject_pen :: "windows_client \<Rightarrow> windows_client" where
  "inject_pen raw = raw\<lparr>wc_touch_calls := wc_touch_calls raw @ [Inject_pen (wc_penInfo raw)]\<rparr>"

definition device_pen :: "'f win_env \<Rightarrow> platf_port \<Rightarrow> 'f pen_input \<Rightarrow> windows_client \<Rightarrow> windows_client" where
  "device_pen env port pen raw =
     (let raw = inject_pen (raw\<lparr>wc_penRepeatTask := False, wc_penInfo := fill_pen env port pen (wc_penInfo raw)\<rparr>)
      in if \<not> we_injects env then raw
         else let info = (wc_penInfo raw)\<lparr>po_flags := po_flags (wc_penInfo raw) - EDGE_TRIGGERED_POINTER_FLAGS\<rparr>
              in raw\<lparr>wc_penInfo := info, wc_penRepeatTask := po_flags info \<noteq> {}\<rparr>)"

definition pen_update :: "'f win_env \<Rightarrow> platf_port \<Rightarrow> 'f pen_input \<Rightarrow> windows_client \<Rightarrow> windows_client" where
  "pen_update env port pen raw =
     (if \<not> we_has_api env then raw
      else if wc_pen raw then device_pen env port pen raw
      else if pi_eventType pen = LI_TOUCH_EVENT_CANCEL_ALL then raw
      else
        let raw = raw\<lparr>wc_pen := we_creates env, wc_touch_calls := wc_touch_calls raw @ [Create_pen]\<rparr>
        in if \<not> wc_pen raw then raw else device_pen env port pen raw)"

definition repeat_pen :: "windows_client \<Rightarrow> windows_client" where
  "repeat_pen raw = (inject_pen raw)\<lparr>wc_penRepeatTask := True\<rparr>"

text \<open>\<^verbatim>\<open>~client_input_raw_t\<close>: the tasks are cancelled and the devices destroyed.\<close>

definition drop_windows_client :: "windows_client \<Rightarrow> windows_client" where
  "drop_windows_client raw = raw\<lparr>wc_penRepeatTask := False, wc_touchRepeatTask := False, wc_pen := False, wc_touch := False\<rparr>"

end
