(* ===== verification/Windows_Touch_Props.thy ===== *)
theory Windows_Touch_Props
  imports Windows_Touch Input_Props
begin

text \<open>
  The slots of the touch device implement the map from the client's pointers to whether they touch or hover.
\<close>

section \<open>Compaction\<close>

lemma compact_slots_correct:
  "i + n = length ts \<Longrightarrow> \<forall>j<i. slot_used (ts ! j) \<Longrightarrow> compact_slots n i ts = (k, ts') \<Longrightarrow>
    mset ts' = mset ts \<and> k \<le> length ts \<and> (\<forall>j<k. slot_used (ts' ! j)) \<and> (\<forall>j. k \<le> j \<and> j < length ts \<longrightarrow> \<not> slot_used (ts' ! j))"
proof (induction n i ts rule: compact_slots.induct)
  case (1 i ts)
  then show ?case by auto
next
  case (2 n i ts)
  show ?case
  proof (cases "slot_used (ts ! i)")
    case True
    then have "\<forall>j<Suc i. slot_used (ts ! j)" using 2(4) by (auto simp: less_Suc_eq)
    then show ?thesis using True 2(1) [OF True] 2(3,5) by simp
  next
    case False
    show ?thesis
    proof (cases "find (\<lambda>j. slot_used (ts ! j)) [Suc i..<length ts]")
      case None
      then have "\<not> slot_used (ts ! j)" if "i \<le> j" "j < length ts" for j
        using False that by (cases "j = i") (auto simp: find_None_iff)
      then show ?thesis using 2(3-5) False None by auto
    next
      case (Some j)
      then have j: "i < j" "j < length ts" "slot_used (ts ! j)" by (auto simp: find_Some_iff)
      let ?ts = "ts[i := ts ! j, j := ts ! i]"
      have m: "mset ?ts = mset ts" using j mset_swap [of j ts i] by simp
      have len: "length ?ts = length ts" by simp
      have "slot_used (?ts ! l)" if "l < Suc i" for l
        using that j 2(4) by (cases "l = i") auto
      then show ?thesis
        using 2(2) [OF False Some] 2(3,5) False Some m len by simp
    qed
  qed
qed

definition slots_ok :: "windows_client \<Rightarrow> bool" where
  "slots_ok raw \<longleftrightarrow>
     length (wc_touchInfo raw) = 10 \<and> wc_activeTouchSlots raw \<le> 10 \<and>
     distinct (map po_id (take (wc_activeTouchSlots raw) (wc_touchInfo raw))) \<and>
     (\<forall>j. wc_activeTouchSlots raw \<le> j \<and> j < 10 \<longrightarrow> \<not> slot_used (wc_touchInfo raw ! j))"

text \<open>The active pointers with their flags.\<close>

definition active_touches :: "windows_client \<Rightarrow> u32 \<rightharpoonup> pointer_flag set" where
  "active_touches raw = map_of (map (\<lambda>t. (po_id t, po_flags t)) (filter slot_used (wc_touchInfo raw)))"

lemma filter_used_prefix:
  assumes "\<forall>j. k \<le> j \<and> j < length ts \<longrightarrow> \<not> slot_used (ts ! j)"
  shows "filter slot_used ts = filter slot_used (take k ts)"
proof -
  have "filter slot_used (drop k ts) = []"
    using assms by (auto simp: filter_empty_conv in_set_conv_nth)
  then show ?thesis by (metis append_take_drop_id append_Nil2 filter_append)
qed

lemma slots_ok_used_distinct:
  assumes "slots_ok raw"
  shows "distinct (map po_id (filter slot_used (wc_touchInfo raw)))"
proof -
  have "filter slot_used (wc_touchInfo raw) = filter slot_used (take (wc_activeTouchSlots raw) (wc_touchInfo raw))"
    using assms by (intro filter_used_prefix) (simp add: slots_ok_def)
  moreover have "distinct (map po_id (filter slot_used (take (wc_activeTouchSlots raw) (wc_touchInfo raw))))"
    using assms by (intro distinct_map_filter) (simp add: slots_ok_def)
  ultimately show ?thesis by simp
qed

lemma active_touches_Some:
  assumes "slots_ok raw"
  shows "active_touches raw q = Some f \<longleftrightarrow>
    (\<exists>j<wc_activeTouchSlots raw. slot_used (wc_touchInfo raw ! j) \<and> po_id (wc_touchInfo raw ! j) = q \<and> po_flags (wc_touchInfo raw ! j) = f)"
proof -
  have "distinct (map fst (map (\<lambda>t. (po_id t, po_flags t)) (filter slot_used (wc_touchInfo raw))))"
    using slots_ok_used_distinct [OF assms] by (simp add: comp_def)
  then have "active_touches raw q = Some f \<longleftrightarrow> (\<exists>t\<in>set (wc_touchInfo raw). slot_used t \<and> po_id t = q \<and> po_flags t = f)"
    unfolding active_touches_def by (subst map_of_eq_Some_iff) auto
  also have "\<dots> \<longleftrightarrow> (\<exists>j<10. slot_used (wc_touchInfo raw ! j) \<and> po_id (wc_touchInfo raw ! j) = q \<and> po_flags (wc_touchInfo raw ! j) = f)"
    using assms by (auto simp: slots_ok_def set_conv_nth)
  also have "\<dots> \<longleftrightarrow> (\<exists>j<wc_activeTouchSlots raw. slot_used (wc_touchInfo raw ! j) \<and> po_id (wc_touchInfo raw ! j) = q \<and>
      po_flags (wc_touchInfo raw ! j) = f)"
  proof -
    have "j < 10 \<and> slot_used (wc_touchInfo raw ! j) \<longleftrightarrow> j < wc_activeTouchSlots raw \<and> slot_used (wc_touchInfo raw ! j)" for j
    proof (cases "j < wc_activeTouchSlots raw")
      case True
      then show ?thesis using assms by (auto simp: slots_ok_def)
    next
      case False
      then show ?thesis using assms by (auto simp: slots_ok_def not_less)
    qed
    then show ?thesis by blast
  qed
  finally show ?thesis .
qed

lemma compaction_correct:
  assumes "slots_ok raw"
  defines "raw' \<equiv> perform_touch_compaction raw"
  shows "slots_ok raw'" "active_touches raw' = active_touches raw"
    "\<forall>j<wc_activeTouchSlots raw'. slot_used (wc_touchInfo raw' ! j)"
proof -
  obtain k ts where c: "compact_slots (length (wc_touchInfo raw)) 0 (wc_touchInfo raw) = (k, ts)" by fastforce
  then have raw': "raw' = raw\<lparr>wc_touchInfo := ts, wc_activeTouchSlots := k\<rparr>"
    by (simp add: raw'_def perform_touch_compaction_def)
  have len: "length (wc_touchInfo raw) = 10" using assms(1) by (simp add: slots_ok_def)
  have ts: "mset ts = mset (wc_touchInfo raw)" "k \<le> 10" "\<forall>j<k. slot_used (ts ! j)" "\<forall>j. k \<le> j \<and> j < 10 \<longrightarrow> \<not> slot_used (ts ! j)"
    using compact_slots_correct [OF _ _ c] len by simp_all
  have len': "length ts = 10" using ts(1) len by (metis size_mset)
  have "filter slot_used ts = filter slot_used (take k ts)" using ts(4) len' by (intro filter_used_prefix) simp
  also have "\<dots> = take k ts" using ts(3) len' ts(2) by (auto simp: filter_id_conv in_set_conv_nth)
  finally have prefix: "filter slot_used ts = take k ts" .
  have m: "mset (filter slot_used ts) = mset (filter slot_used (wc_touchInfo raw))" using ts(1) by simp
  have d: "distinct (map po_id (filter slot_used (wc_touchInfo raw)))" by (rule slots_ok_used_distinct [OF assms(1)])
  have "mset (map po_id (take k ts)) = mset (map po_id (filter slot_used (wc_touchInfo raw)))"
    using m prefix by simp
  then have d': "distinct (map po_id (take k ts))" using d mset_eq_imp_distinct_iff by blast
  show "slots_ok raw'" using ts d' len' by (simp add: raw' slots_ok_def)
  have "set (filter slot_used ts) = set (filter slot_used (wc_touchInfo raw))" using m by (metis set_mset_mset)
  then have "set (map (\<lambda>t. (po_id t, po_flags t)) (filter slot_used ts)) =
      set (map (\<lambda>t. (po_id t, po_flags t)) (filter slot_used (wc_touchInfo raw)))" by (simp only: set_map)
  then show "active_touches raw' = active_touches raw"
    unfolding active_touches_def raw' using d d' prefix
    by (intro map_of_inject_set [THEN iffD2]) (simp_all add: comp_def)
  show "\<forall>j<wc_activeTouchSlots raw'. slot_used (wc_touchInfo raw' ! j)" using ts(3) by (simp add: raw')
qed

section \<open>The slot of a pointer\<close>

lemma find_index_Some: "find P [0..<n] = Some i \<Longrightarrow> i < n \<and> P i \<and> (\<forall>j<i. \<not> P j)"
  by (auto simp: find_Some_iff)

lemma find_index_None: "find P [0..<n] = None \<Longrightarrow> i < n \<Longrightarrow> \<not> P i"
  by (auto simp: find_None_iff)

lemma filter_update_same:
  "i < length xs \<Longrightarrow> \<not> P (xs ! i) \<Longrightarrow> \<not> P x \<Longrightarrow> filter P (xs[i := x]) = filter P xs"
proof (induction xs arbitrary: i)
  case (Cons y ys)
  then show ?case by (cases i) auto
qed simp

text \<open>What \<^verbatim>\<open>pointer_by_id\<close> gives: a slot with that pointer, and the other pointers as before.\<close>

lemma pointer_by_id_correct:
  assumes "slots_ok raw" "pointer_by_id p raw = (Some i, raw')"
  shows "slots_ok raw'" "active_touches raw' = active_touches raw" "i < wc_activeTouchSlots raw'"
    "po_id (wc_touchInfo raw' ! i) = p"
    "po_flags (wc_touchInfo raw' ! i) = (case active_touches raw p of None \<Rightarrow> {} | Some f \<Rightarrow> f)"
    "\<forall>j<wc_activeTouchSlots raw'. j \<noteq> i \<longrightarrow> slot_used (wc_touchInfo raw' ! j)"
proof -
  let ?c = "perform_touch_compaction raw"
  let ?ts = "wc_touchInfo ?c" and ?k = "wc_activeTouchSlots ?c"
  note c = compaction_correct [OF assms(1)]
  have len: "length ?ts = 10" and k: "?k \<le> 10" using c(1) by (simp_all add: slots_ok_def)
  have unused: "\<not> slot_used (?ts ! j)" if "?k \<le> j" "j < 10" for j using c(1) that by (simp add: slots_ok_def)
  let ?is_p = "\<lambda>i. po_id (?ts ! i) = p \<and> slot_used (?ts ! i)"
  have *: "slots_ok raw' \<and> active_touches raw' = active_touches raw \<and> i < wc_activeTouchSlots raw' \<and> po_id (wc_touchInfo raw' ! i) = p \<and>
      po_flags (wc_touchInfo raw' ! i) = (case active_touches raw p of None \<Rightarrow> {} | Some f \<Rightarrow> f) \<and>
      (\<forall>j<wc_activeTouchSlots raw'. j \<noteq> i \<longrightarrow> slot_used (wc_touchInfo raw' ! j))"
  proof (cases "find ?is_p [0..<10]")
    case (Some l)
    then have "raw' = ?c" "i = l" using assms(2) len by (simp_all add: pointer_by_id_def Let_def)
    moreover have "l < 10" "?is_p l" using find_index_Some [OF Some] by simp_all
    moreover from this have "l < ?k" using unused not_le by blast
    moreover from calculation have "active_touches raw p = Some (po_flags (?ts ! l))"
      using active_touches_Some [OF c(1)] c(2) by auto
    ultimately show ?thesis using c by simp
  next
    case None
    then have no_p: "\<not> ?is_p j" if "j < 10" for j using find_index_None that by blast
    obtain l where l: "find (\<lambda>i. \<not> slot_used (?ts ! i)) [0..<10] = Some l"
      using assms(2) None len by (auto simp: pointer_by_id_def Let_def split: option.splits)
    then have lk: "l < 10" "\<not> slot_used (?ts ! l)" "\<forall>j<l. slot_used (?ts ! j)" using find_index_Some by blast+
    have "l = ?k" 
    proof (rule ccontr)
      assume "l \<noteq> ?k"
      then consider "l < ?k" | "?k < l" by linarith
      then show False using lk unused [of ?k] c(3) by cases auto
    qed
    then have raw': "raw' = ?c\<lparr>wc_touchInfo := ?ts[?k := (?ts ! ?k)\<lparr>po_id := p\<rparr>], wc_activeTouchSlots := ?k + 1\<rparr>" and i: "i = ?k"
      using assms(2) None len l by (auto simp: pointer_by_id_def Let_def)
    have kk: "?k < 10" using lk \<open>l = ?k\<close> by simp
    let ?new = "(?ts ! ?k)\<lparr>po_id := p\<rparr>"
    have new_unused: "\<not> slot_used ?new" using unused kk by (simp add: slot_used_def)
    have "p \<notin> set (map po_id (take ?k ?ts))"
    proof
      assume "p \<in> set (map po_id (take ?k ?ts))"
      then obtain j where "j < ?k" "po_id (?ts ! j) = p" using k len by (auto simp: in_set_conv_nth)
      then show False using no_p [of j] c(3) k by simp
    qed
    moreover have "take (?k + 1) (?ts[?k := ?new]) = take ?k ?ts @ [?new]"
      using kk len by (simp add: take_Suc_conv_app_nth)
    ultimately have "slots_ok raw'"
      using c(1) kk len unused new_unused
      by (auto simp: raw' slots_ok_def nth_list_update)
    moreover have "filter slot_used (?ts[?k := ?new]) = filter slot_used ?ts"
      using new_unused unused [of ?k] kk len by (intro filter_update_same) simp_all
    then have same: "active_touches raw' = active_touches raw" using c(2) by (simp add: active_touches_def raw')
    moreover have "active_touches raw p = None"
    proof (cases "active_touches raw p")
      case (Some f)
      then obtain j where "j < ?k" "slot_used (?ts ! j)" "po_id (?ts ! j) = p"
        using active_touches_Some [OF c(1), of p f] c(2) by auto
      then show ?thesis using no_p [of j] k by simp
    qed
    ultimately show ?thesis
      using kk len i c(3) unused [of ?k] by (auto simp: raw' slot_used_def nth_list_update less_Suc_eq)
  qed
  then show "slots_ok raw'" "active_touches raw' = active_touches raw" "i < wc_activeTouchSlots raw'"
    "po_id (wc_touchInfo raw' ! i) = p"
    "po_flags (wc_touchInfo raw' ! i) = (case active_touches raw p of None \<Rightarrow> {} | Some f \<Rightarrow> f)"
    "\<forall>j<wc_activeTouchSlots raw'. j \<noteq> i \<longrightarrow> slot_used (wc_touchInfo raw' ! j)"
    by blast+
qed

text \<open>When all ten slots are used and the pointer is new there is none.\<close>

lemma pointer_by_id_full:
  assumes "slots_ok raw" "pointer_by_id p raw = (None, raw')"
  shows "slots_ok raw'" "active_touches raw p = None" "card (dom (active_touches raw)) = 10"
proof -
  let ?c = "perform_touch_compaction raw"
  let ?ts = "wc_touchInfo ?c"
  note c = compaction_correct [OF assms(1)]
  have len: "length ?ts = 10" using c(1) by (simp add: slots_ok_def)
  have none: "find (\<lambda>i. po_id (?ts ! i) = p \<and> slot_used (?ts ! i)) [0..<10] = None"
    "find (\<lambda>i. \<not> slot_used (?ts ! i)) [0..<10] = None" "raw' = ?c"
    using assms(2) len by (auto simp: pointer_by_id_def Let_def split: option.splits)
  show "slots_ok raw'" using c(1) none(3) by simp
  have all: "slot_used (?ts ! j)" if "j < 10" for j using find_index_None [OF none(2) that] by simp
  have ten: "wc_activeTouchSlots ?c = 10"
  proof (rule antisym)
    show "wc_activeTouchSlots ?c \<le> 10" using c(1) by (simp add: slots_ok_def)
    show "10 \<le> wc_activeTouchSlots ?c" using c(1) all [of "wc_activeTouchSlots ?c"] by (meson not_le order_refl slots_ok_def)
  qed
  have "active_touches ?c p \<noteq> Some f" for f
    using active_touches_Some [OF c(1), of p f] find_index_None [OF none(1)] ten by auto
  then show "active_touches raw p = None" using c(2) by (metis option.exhaust)
  have "filter slot_used ?ts = ?ts" using all len by (auto simp: filter_id_conv in_set_conv_nth)
  then have "dom (active_touches ?c) = set (map po_id ?ts)" by (simp add: active_touches_def dom_map_of_conv_image_fst image_image)
  moreover have "distinct (map po_id ?ts)" using c(1) ten len by (simp add: slots_ok_def)
  ultimately show "card (dom (active_touches raw)) = 10" using c(2) len distinct_card [of "map po_id ?ts"] by simp
qed

lemma cancel_all_correct:
  assumes "slots_ok raw"
  shows "slots_ok (cancel_all_active_touches raw)" "active_touches (cancel_all_active_touches raw) = Map.empty"
    "wc_touch (cancel_all_active_touches raw) = wc_touch raw"
proof -
  have "length (wc_touchInfo (perform_touch_compaction (raw\<lparr>wc_touchRepeatTask := False\<rparr>))) = 10 \<and>
      wc_activeTouchSlots (perform_touch_compaction (raw\<lparr>wc_touchRepeatTask := False\<rparr>)) \<le> 10"
    using compaction_correct(1) [of "raw\<lparr>wc_touchRepeatTask := False\<rparr>"] assms by (simp add: slots_ok_def)
  then have "wc_touchInfo (cancel_all_active_touches raw) = replicate 10 zero_slot \<and> wc_activeTouchSlots (cancel_all_active_touches raw) = 0"
    by (simp add: cancel_all_active_touches_def inject_touch_def Let_def map_replicate_const)
  then show "slots_ok (cancel_all_active_touches raw)" "active_touches (cancel_all_active_touches raw) = Map.empty"
    by (simp_all add: slots_ok_def active_touches_def slot_used_def zero_slot_def filter_replicate)
  show "wc_touch (cancel_all_active_touches raw) = wc_touch raw"
    by (simp add: cancel_all_active_touches_def inject_touch_def perform_touch_compaction_def Let_def split: prod.split)
qed

section \<open>The map of touches\<close>

lemma touch_updated:
  assumes "slots_ok raw" "i < wc_activeTouchSlots raw" "po_id t = po_id (wc_touchInfo raw ! i)"
    and "wc_touchInfo raw' = (wc_touchInfo raw)[i := t]" "wc_activeTouchSlots raw' = wc_activeTouchSlots raw"
  shows "slots_ok raw'"
    "active_touches raw' = (active_touches raw)(po_id t := if po_flags t = {} then None else Some (po_flags t))"
proof -
  let ?ts = "wc_touchInfo raw" and ?k = "wc_activeTouchSlots raw"
  have k: "?k \<le> 10" "length ?ts = 10" and d: "distinct (map po_id (take ?k ?ts))" using assms(1) by (simp_all add: slots_ok_def)
  have "map po_id (take ?k (?ts[i := t])) = map po_id (take ?k ?ts)"
    using assms(2,3) k by (auto intro!: nth_equalityI simp: nth_list_update)
  then show ok: "slots_ok raw'" using assms k by (simp add: slots_ok_def nth_list_update)
  have inj: "j = i" if "j < ?k" "po_id (?ts ! j) = po_id t" for j
    using d that assms(2,3) k nth_eq_iff_index_eq [of "map po_id (take ?k ?ts)" j i] by simp
  show "active_touches raw' = (active_touches raw)(po_id t := if po_flags t = {} then None else Some (po_flags t))" (is "_ = ?m")
  proof
    fix q
    have "active_touches raw' q = Some f \<longleftrightarrow> ?m q = Some f" for f
    proof (cases "q = po_id t")
      case True
      have "(\<exists>j<?k. slot_used (?ts[i := t] ! j) \<and> po_id (?ts[i := t] ! j) = q \<and> po_flags (?ts[i := t] ! j) = f) \<longleftrightarrow>
          slot_used t \<and> po_flags t = f"
      proof
        assume "\<exists>j<?k. slot_used (?ts[i := t] ! j) \<and> po_id (?ts[i := t] ! j) = q \<and> po_flags (?ts[i := t] ! j) = f"
        then obtain j where j: "j < ?k" "slot_used (?ts[i := t] ! j)" "po_id (?ts[i := t] ! j) = q" "po_flags (?ts[i := t] ! j) = f"
          by blast
        have "j = i"
        proof (rule ccontr)
          assume "j \<noteq> i"
          then have "po_id (?ts ! j) = po_id t" using j(3) True by simp
          then show False using inj [OF j(1)] \<open>j \<noteq> i\<close> by blast
        qed
        then show "slot_used t \<and> po_flags t = f" using j(2,4) assms(2) k by simp
      next
        assume "slot_used t \<and> po_flags t = f"
        then show "\<exists>j<?k. slot_used (?ts[i := t] ! j) \<and> po_id (?ts[i := t] ! j) = q \<and> po_flags (?ts[i := t] ! j) = f"
          using True assms(2) k by (intro exI [of _ i]) simp
      qed
      then show ?thesis using True active_touches_Some [OF ok, of q f] assms(4,5) by (auto simp: slot_used_def)
    next
      case False
      have "slot_used (?ts[i := t] ! j) \<and> po_id (?ts[i := t] ! j) = q \<and> po_flags (?ts[i := t] ! j) = f \<longleftrightarrow>
          slot_used (?ts ! j) \<and> po_id (?ts ! j) = q \<and> po_flags (?ts ! j) = f" if "j < ?k" for j
        using False assms(3) that k by (cases "j = i") auto
      then show ?thesis using False active_touches_Some [OF ok, of q f] active_touches_Some [OF assms(1), of q f] assms(4,5) by auto
    qed
    then show "active_touches raw' q = ?m q" by (metis option.exhaust)
  qed
qed

text \<open>The specification: which pointers the client has on the screen, and whether they touch it or hover.\<close>

datatype finger = Hovering | Touching

definition fingers :: "windows_client \<Rightarrow> u32 \<rightharpoonup> finger" where
  "fingers raw = (\<lambda>p. map_option (\<lambda>flags. if Incontact \<in> flags then Touching else Hovering) (active_touches raw p))"

definition finger_event :: "u8 \<Rightarrow> finger option \<Rightarrow> finger option" where
  "finger_event ev f =
     (if ev = LI_TOUCH_EVENT_HOVER then Some Hovering
      else if ev = LI_TOUCH_EVENT_DOWN \<or> ev = LI_TOUCH_EVENT_MOVE then Some Touching
      else if ev = LI_TOUCH_EVENT_UP \<or> ev = LI_TOUCH_EVENT_CANCEL \<or> ev = LI_TOUCH_EVENT_HOVER_LEAVE then None
      else f)"

definition finger_step :: "u8 \<Rightarrow> u32 \<Rightarrow> (u32 \<rightharpoonup> finger) \<Rightarrow> (u32 \<rightharpoonup> finger)" where
  "finger_step ev p m =
     (if ev = LI_TOUCH_EVENT_CANCEL_ALL then Map.empty
      else let m = (if p \<notin> dom m \<and> card (dom m) = 10 then Map.empty else m) in m(p := finger_event ev (m p)))"

text \<open>As long as Windows takes the injections, only the two lasting flags are left in the slots.\<close>

definition touch_inv :: "windows_client \<Rightarrow> bool" where
  "touch_inv raw \<longleftrightarrow> slots_ok raw \<and> ran (active_touches raw) \<subseteq> {{Inrange}, {Inrange, Incontact}}"

definition lasting :: "finger option \<Rightarrow> pointer_flag set" where
  "lasting f = (case f of None \<Rightarrow> {} | Some Hovering \<Rightarrow> {Inrange} | Some Touching \<Rightarrow> {Inrange, Incontact})"

lemma lasting_flags:
  assumes "touch_inv raw"
  shows "(case active_touches raw p of None \<Rightarrow> {} | Some f \<Rightarrow> f) = lasting (fingers raw p)"
proof (cases "active_touches raw p")
  case (Some f)
  then have "f \<in> {{Inrange}, {Inrange, Incontact}}" using assms by (auto simp: touch_inv_def intro: ranI)
  then show ?thesis using Some by (auto simp: fingers_def lasting_def)
qed (simp add: fingers_def lasting_def)

lemma populate_lasting:
  "ev \<noteq> LI_TOUCH_EVENT_CANCEL_ALL \<Longrightarrow> populate_flags ev (lasting f) - EDGE_TRIGGERED_POINTER_FLAGS = lasting (finger_event ev f)"
  by (cases "f = None"; cases "f = Some Hovering"; cases "f = Some Touching"; cases f)
    (auto simp: populate_flags_def lasting_def finger_event_def EDGE_TRIGGERED_POINTER_FLAGS_def touch_events split: finger.splits)

lemma lasting_empty: "lasting f = {} \<longleftrightarrow> f = None" "lasting f \<noteq> {} \<Longrightarrow> lasting f \<in> {{Inrange}, {Inrange, Incontact}}"
  by (auto simp: lasting_def split: option.split finger.split)

lemma lasting_touching: "Incontact \<in> lasting f \<longleftrightarrow> f = Some Touching"
  by (auto simp: lasting_def split: option.split finger.split)

lemma fill_touch_facts:
  "po_id (fill_touch env port touch t) = po_id t"
  "po_flags (fill_touch env port touch t) = populate_flags (ti_eventType touch) (po_flags t)"
  by (simp_all add: fill_touch_def populate_common_pointer_info_def Let_def)

text \<open>What is injected: every pointer once.\<close>

definition injects :: "windows_client \<Rightarrow> u32 set \<Rightarrow> bool" where
  "injects raw ids \<longleftrightarrow> (case last (wc_touch_calls raw) of Inject_touch ts \<Rightarrow> distinct (map po_id ts) \<and> set (map po_id ts) = ids | _ \<Rightarrow> False)"

lemma send_touch_correct:
  fixes port :: platf_port
  assumes "touch_inv raw0" "pointer_by_id (ti_pointerId touch) raw0 = (Some i, raw)"
    and "we_injects env" "ti_eventType touch \<noteq> LI_TOUCH_EVENT_CANCEL_ALL"
  defines "raw' \<equiv> send_touch env port touch i raw"
  shows "touch_inv raw'"
    "fingers raw' = (fingers raw0)(ti_pointerId touch := finger_event (ti_eventType touch) (fingers raw0 (ti_pointerId touch)))"
    "injects raw' (insert (ti_pointerId touch) (dom (fingers raw0)))"
proof -
  let ?p = "ti_pointerId touch" and ?ev = "ti_eventType touch" and ?k = "wc_activeTouchSlots raw"
  note p = pointer_by_id_correct [OF _ assms(2)]
  have ok0: "slots_ok raw0" using assms(1) by (simp add: touch_inv_def)
  let ?t = "fill_touch env port touch (wc_touchInfo raw ! i)"
  let ?t' = "?t\<lparr>po_flags := po_flags ?t - EDGE_TRIGGERED_POINTER_FLAGS\<rparr>"
  have flags: "po_flags ?t' = lasting (finger_event ?ev (fingers raw0 ?p))"
    using p(5) [OF ok0] lasting_flags [OF assms(1)] populate_lasting [OF assms(4)] by (simp add: fill_touch_facts)
  have id: "po_id ?t' = ?p" using p(4) [OF ok0] by (simp add: fill_touch_facts)
  have slots: "wc_touchInfo raw' = (wc_touchInfo raw)[i := ?t']" "wc_activeTouchSlots raw' = ?k"
    using assms(3) by (simp_all add: raw'_def send_touch_def inject_touch_def Let_def)
  note upd = touch_updated [OF p(1) [OF ok0] p(3) [OF ok0] _ slots]
  have active: "active_touches raw' = (active_touches raw0)(?p := if po_flags ?t' = {} then None else Some (po_flags ?t'))"
    using upd(2) p(2,4) [OF ok0] id by simp
  have "ran (active_touches raw') \<subseteq> insert (po_flags ?t') (ran (active_touches raw0)) - {{}} \<union> ran (active_touches raw0)"
    unfolding active by (auto simp: ran_def)
  moreover have "po_flags ?t' \<noteq> {} \<Longrightarrow> po_flags ?t' \<in> {{Inrange}, {Inrange, Incontact}}"
    using lasting_empty(2) flags by metis
  ultimately show "touch_inv raw'"
    using upd(1) p(4) [OF ok0] id assms(1) unfolding touch_inv_def by auto
  show "fingers raw' = (fingers raw0)(?p := finger_event ?ev (fingers raw0 ?p))"
  proof
    fix q
    show "fingers raw' q = ((fingers raw0)(?p := finger_event ?ev (fingers raw0 ?p))) q"
    proof (cases "q = ?p")
      case True
      then show ?thesis
        using flags lasting_empty(1) [of "finger_event ?ev (fingers raw0 ?p)"] lasting_touching
        by (cases "finger_event ?ev (fingers raw0 ?p)") (auto simp: fingers_def active lasting_def split: finger.splits)
    next
      case False
      then show ?thesis by (simp add: fingers_def active)
    qed
  qed
  show "injects raw' (insert ?p (dom (fingers raw0)))"
  proof -
    have k: "?k \<le> 10" "length (wc_touchInfo raw) = 10" and d: "distinct (map po_id (take ?k (wc_touchInfo raw)))"
      using p(1) [OF ok0] by (simp_all add: slots_ok_def)
    have last: "last (wc_touch_calls raw') = Inject_touch (take ?k ((wc_touchInfo raw)[i := ?t]))"
      using assms(3) by (simp add: raw'_def send_touch_def inject_touch_def Let_def)
    have ids: "map po_id (take ?k ((wc_touchInfo raw)[i := ?t])) = map po_id (take ?k (wc_touchInfo raw))"
      using p(3) [OF ok0] k by (auto intro!: nth_equalityI simp: nth_list_update fill_touch_facts)
    have "q \<in> set (map po_id (take ?k (wc_touchInfo raw))) \<longleftrightarrow> q = ?p \<or> q \<in> dom (active_touches raw0)" for q
    proof -
      have "q \<in> set (map po_id (take ?k (wc_touchInfo raw))) \<longleftrightarrow> (\<exists>j<?k. po_id (wc_touchInfo raw ! j) = q)"
        unfolding in_set_conv_nth using k by (simp cong: conj_cong)
      also have "\<dots> \<longleftrightarrow> q = ?p \<or> (\<exists>j<?k. slot_used (wc_touchInfo raw ! j) \<and> po_id (wc_touchInfo raw ! j) = q)"
        using p(3,4,6) [OF ok0] by metis
      also have "\<dots> \<longleftrightarrow> q = ?p \<or> q \<in> dom (active_touches raw0)"
        using active_touches_Some [OF p(1) [OF ok0], of q] p(2) [OF ok0] by auto
      finally show ?thesis .
    qed
    then have "set (map po_id (take ?k (wc_touchInfo raw))) = insert ?p (dom (active_touches raw0))" by blast
    moreover have "dom (fingers raw0) = dom (active_touches raw0)" by (auto simp: fingers_def dom_def)
    ultimately show ?thesis using d last ids by (simp add: injects_def)
  qed
qed

lemma touch_inv_device: "touch_inv raw \<Longrightarrow> touch_inv (raw\<lparr>wc_touch := b, wc_touch_calls := calls, wc_touchRepeatTask := r\<rparr>)"
  "fingers (raw\<lparr>wc_touch := b, wc_touch_calls := calls, wc_touchRepeatTask := r\<rparr>) = fingers raw"
  by (simp_all add: touch_inv_def slots_ok_def active_touches_def fingers_def)

lemma touch_known:
  assumes "touch_inv raw" "we_injects env" "ti_eventType touch \<noteq> LI_TOUCH_EVENT_CANCEL_ALL"
    and "pointer_by_id (ti_pointerId touch) raw = (Some i, raw1)"
    and "ti_pointerId touch \<in> dom (fingers raw) \<or> card (dom (fingers raw)) \<noteq> 10"
  shows "touch_inv (send_touch env port touch i raw1) \<and>
    fingers (send_touch env port touch i raw1) = finger_step (ti_eventType touch) (ti_pointerId touch) (fingers raw) \<and>
    injects (send_touch env port touch i raw1) (insert (ti_pointerId touch) (dom (fingers raw)))"
  using send_touch_correct [OF assms(1,4,2,3), of port] assms(3,5) by (auto simp: finger_step_def Let_def)

text \<open>
  The update itself, once the device is there.
\<close>

lemma device_touch_correct:
  assumes "touch_inv raw" "we_injects env" "ti_eventType touch \<noteq> LI_TOUCH_EVENT_CANCEL_ALL"
  shows "\<exists>raw'. device_touch env port touch raw = Some raw' \<and> touch_inv raw' \<and>
    fingers raw' = finger_step (ti_eventType touch) (ti_pointerId touch) (fingers raw) \<and>
    injects raw' (insert (ti_pointerId touch) (dom (if card (dom (fingers raw)) = 10 \<and> ti_pointerId touch \<notin> dom (fingers raw) then Map.empty else fingers raw)))"
proof -
  let ?raw = "raw\<lparr>wc_touchRepeatTask := False\<rparr>" and ?p = "ti_pointerId touch"
  have inv: "touch_inv ?raw" using assms(1) by (simp add: touch_inv_def slots_ok_def active_touches_def)
  have same: "fingers ?raw = fingers raw" by (simp add: fingers_def active_touches_def)
  have ok: "slots_ok ?raw" using inv by (simp add: touch_inv_def)
  have dom: "dom (fingers ?raw) = dom (active_touches ?raw)" by (auto simp: fingers_def dom_def)
  obtain oi raw1 where p: "pointer_by_id ?p ?raw = (oi, raw1)" by fastforce
  show ?thesis
  proof (cases oi)
    case (Some i)
    have known: "?p \<in> dom (fingers ?raw) \<or> card (dom (fingers ?raw)) \<noteq> 10"
    proof (rule ccontr)
      assume full: "\<not> ?thesis"
      note c = pointer_by_id_correct [OF ok p [unfolded Some]]
      have "dom (active_touches raw1) = po_id ` {t \<in> set (wc_touchInfo raw1). slot_used t}"
        by (auto simp: active_touches_def dom_map_of_conv_image_fst image_image)
      moreover have "finite {t \<in> set (wc_touchInfo raw1). slot_used t}" by simp
      ultimately have "card (dom (active_touches raw1)) \<le> card {t \<in> set (wc_touchInfo raw1). slot_used t}"
        using card_image_le by metis
      also have "\<dots> < 10"
      proof -
        have len: "length (wc_touchInfo raw1) = 10" and "wc_activeTouchSlots raw1 \<le> 10" using c(1) by (simp_all add: slots_ok_def)
        then have i: "i < 10" using c(3) by simp
        have "\<not> slot_used (wc_touchInfo raw1 ! i)"
          using c(5) full dom by (auto simp: slot_used_def domIff)
        then have "length (filter slot_used (wc_touchInfo raw1)) < 10"
          using len i length_filter_less [of "wc_touchInfo raw1 ! i" "wc_touchInfo raw1" slot_used] by simp
        moreover have "card (set (filter slot_used (wc_touchInfo raw1))) \<le> length (filter slot_used (wc_touchInfo raw1))"
          by (rule card_length)
        ultimately show ?thesis by simp
      qed
      finally show False using full dom c(2) by simp
    qed
    have "device_touch env port touch raw = Some (send_touch env port touch i raw1)"
      using assms(3) p Some by (simp add: device_touch_def)
    then show ?thesis using touch_known [OF inv assms(2,3) p [unfolded Some] known, of port] known same by auto
  next
    case None
    note full = pointer_by_id_full [OF ok p [unfolded None]]
    let ?c = "cancel_all_active_touches raw1"
    note c = cancel_all_correct [OF full(1)]
    have c_inv: "touch_inv ?c" and none: "fingers ?c = Map.empty" using c by (simp_all add: touch_inv_def fingers_def)
    obtain oi2 raw2 where p2: "pointer_by_id ?p ?c = (oi2, raw2)" by fastforce
    then obtain i where i: "oi2 = Some i" using pointer_by_id_full(3) [OF c(1), of ?p raw2] c(2) by (cases oi2) auto
    have "device_touch env port touch raw = Some (send_touch env port touch i raw2)"
      using assms(3) p p2 None i by (simp add: device_touch_def)
    moreover have "?p \<notin> dom (fingers raw)" "card (dom (fingers raw)) = 10" using full(2,3) dom same by (simp_all add: domIff)
    ultimately show ?thesis
      using touch_known [OF c_inv assms(2,3) p2 [unfolded i], of port] none assms(3) by (simp add: finger_step_def)
  qed
qed

section \<open>Runs\<close>

text \<open>A frame Windows takes: some pointers, not more than the device has, each once.\<close>

definition frame_ok :: "win_touch_call \<Rightarrow> bool" where
  "frame_ok c = (case c of Inject_touch ts \<Rightarrow> ts \<noteq> [] \<and> length ts \<le> 10 \<and> distinct (map po_id ts) | _ \<Rightarrow> True)"

definition frames_ok :: "windows_client \<Rightarrow> bool" where
  "frames_ok raw \<longleftrightarrow> slots_ok raw \<and> list_all frame_ok (wc_touch_calls raw)"

lemma inject_frame:
  assumes "slots_ok raw" "0 < wc_activeTouchSlots raw"
  shows "frame_ok (Inject_touch (take (wc_activeTouchSlots raw) (wc_touchInfo raw)))"
proof -
  have "wc_touchInfo raw \<noteq> []" using assms(1) by (auto simp: slots_ok_def)
  then show ?thesis using assms by (simp add: frame_ok_def slots_ok_def)
qed

lemma frames_ok_device:
  "frames_ok (raw\<lparr>wc_touchRepeatTask := r\<rparr>) = frames_ok raw"
  "frames_ok (raw\<lparr>wc_touch := b, wc_touch_calls := wc_touch_calls raw @ [Create_touch]\<rparr>) = frames_ok raw"
  "slots_ok (raw\<lparr>wc_touchRepeatTask := r\<rparr>) = slots_ok raw"
  by (simp_all add: frames_ok_def slots_ok_def frame_ok_def)

lemma compaction_calls: "wc_touch_calls (perform_touch_compaction raw) = wc_touch_calls raw"
  by (simp add: perform_touch_compaction_def split: prod.split)

lemma pointer_by_id_calls:
  "pointer_by_id p raw = (i, raw') \<Longrightarrow> wc_touch_calls raw' = wc_touch_calls raw"
  by (auto simp: pointer_by_id_def Let_def compaction_calls split: option.splits)

lemma pointer_by_id_frames:
  assumes "frames_ok raw" "pointer_by_id p raw = (i, raw')"
  shows "frames_ok raw'"
proof (cases i)
  case None
  then show ?thesis using assms pointer_by_id_full(1) pointer_by_id_calls unfolding frames_ok_def by metis
next
  case (Some j)
  then show ?thesis using assms pointer_by_id_correct(1) pointer_by_id_calls unfolding frames_ok_def by metis
qed

lemma cancel_slot_id: "po_id \<circ> cancel_slot = po_id"
  by (simp add: fun_eq_iff cancel_slot_def populate_common_pointer_info_def)

lemma cancel_all_frames:
  assumes "frames_ok raw"
  shows "frames_ok (cancel_all_active_touches raw)"
proof -
  let ?c = "perform_touch_compaction (raw\<lparr>wc_touchRepeatTask := False\<rparr>)"
  let ?k = "wc_activeTouchSlots ?c" and ?ts = "wc_touchInfo ?c"
  have ok: "slots_ok ?c" using assms compaction_correct(1) frames_ok_device(3) unfolding frames_ok_def by blast
  have calls: "list_all frame_ok (wc_touch_calls ?c)" using assms by (simp add: frames_ok_def compaction_calls)
  have k: "?k \<le> 10" "length ?ts = 10" and d: "distinct (map po_id (take ?k ?ts))" using ok by (simp_all add: slots_ok_def)
  have "?ts \<noteq> []" using k by auto
  then have "0 < ?k \<Longrightarrow> frame_ok (Inject_touch (map cancel_slot (take ?k ?ts)))"
    using k d by (simp add: frame_ok_def cancel_slot_id)
  then have "list_all frame_ok (wc_touch_calls (cancel_all_active_touches raw))"
    using calls k by (simp add: cancel_all_active_touches_def inject_touch_def Let_def)
  then show ?thesis using cancel_all_correct(1) assms by (simp add: frames_ok_def)
qed

lemma send_touch_frames:
  assumes "frames_ok raw" "i < wc_activeTouchSlots raw"
  shows "frames_ok (send_touch env port touch i raw)"
proof -
  have ok: "slots_ok raw" using assms(1) by (simp add: frames_ok_def)
  let ?t = "fill_touch env port touch (wc_touchInfo raw ! i)"
  have upd: "slots_ok raw'" if "wc_touchInfo raw' = (wc_touchInfo raw)[i := ?t\<lparr>po_flags := f\<rparr>]"
    "wc_activeTouchSlots raw' = wc_activeTouchSlots raw" for raw' f
    using touch_updated(1) [OF ok assms(2) _ that] by (simp add: fill_touch_facts)
  let ?raw = "raw\<lparr>wc_touchInfo := (wc_touchInfo raw)[i := ?t]\<rparr>"
  have ok': "slots_ok ?raw" by (rule upd [of _ "po_flags ?t"]) simp_all
  have "list_all frame_ok (wc_touch_calls (send_touch env port touch i raw))"
    using assms inject_frame [OF ok'] by (simp add: send_touch_def inject_touch_def Let_def frames_ok_def)
  moreover have "slots_ok (send_touch env port touch i raw)"
  proof (cases "we_injects env")
    case True
    then show ?thesis by (intro upd [of _ "po_flags ?t - EDGE_TRIGGERED_POINTER_FLAGS"]) (simp_all add: send_touch_def inject_touch_def Let_def)
  next
    case False
    then show ?thesis by (intro upd [of _ "po_flags ?t"]) (simp_all add: send_touch_def inject_touch_def Let_def)
  qed
  ultimately show ?thesis by (simp add: frames_ok_def)
qed

text \<open>Whatever Windows answers, an event leaves the slots in order.\<close>

lemma device_touch_frames:
  assumes "frames_ok raw"
  shows "\<exists>raw'. device_touch env port touch raw = Some raw' \<and> frames_ok raw'"
proof -
  let ?raw = "raw\<lparr>wc_touchRepeatTask := False\<rparr>"
  have ok: "frames_ok ?raw" using assms by (simp add: frames_ok_device)
  have sok: "slots_ok r" if "frames_ok r" for r using that by (simp add: frames_ok_def)
  obtain oi raw1 where p: "pointer_by_id (ti_pointerId touch) ?raw = (oi, raw1)" by fastforce
  let ?c = "cancel_all_active_touches raw1"
  obtain oi2 raw2 where p2: "pointer_by_id (ti_pointerId touch) ?c = (oi2, raw2)" by fastforce
  have ok1: "frames_ok raw1" by (rule pointer_by_id_frames [OF ok p])
  have c: "frames_ok ?c" by (rule cancel_all_frames [OF ok1])
  have ok2: "frames_ok raw2" by (rule pointer_by_id_frames [OF c p2])
  show ?thesis
  proof (cases "ti_eventType touch = LI_TOUCH_EVENT_CANCEL_ALL")
    case True
    then show ?thesis using cancel_all_frames [OF ok] by (simp add: device_touch_def)
  next
    case False
    show ?thesis
    proof (cases oi)
      case (Some i)
      then have "i < wc_activeTouchSlots raw1" using pointer_by_id_correct(3) [OF sok [OF ok]] p by blast
      then show ?thesis using False p Some send_touch_frames [OF ok1] by (simp add: device_touch_def)
    next
      case None
      obtain i where i: "oi2 = Some i"
        using pointer_by_id_full(3) [OF sok [OF c], of "ti_pointerId touch" raw2] p2 cancel_all_correct(2) [OF sok [OF ok1]]
        by (cases oi2) auto
      then have "i < wc_activeTouchSlots raw2" using pointer_by_id_correct(3) [OF sok [OF c]] p2 by blast
      then show ?thesis using False p None p2 i send_touch_frames [OF ok2] by (simp add: device_touch_def)
    qed
  qed
qed

lemma touch_update_frames:
  assumes "frames_ok raw"
  shows "\<exists>raw'. touch_update env port touch raw = Some raw' \<and> frames_ok raw'"
proof -
  let ?new = "raw\<lparr>wc_touch := we_creates env, wc_touch_calls := wc_touch_calls raw @ [Create_touch]\<rparr>"
  have "frames_ok ?new" using assms by (simp add: frames_ok_device)
  then show ?thesis
    using device_touch_frames [OF assms, of env port touch] device_touch_frames [of ?new env port touch] assms
    by (cases "we_creates env") (simp_all add: touch_update_def Let_def)
qed

lemma new_client_ok: "frames_ok new_windows_client" "touch_inv new_windows_client" "fingers new_windows_client = Map.empty"
proof -
  have none: "active_touches new_windows_client = Map.empty"
    by (simp add: active_touches_def new_windows_client_def slot_used_def zero_slot_def filter_replicate)
  have ok: "slots_ok new_windows_client"
    by (simp add: slots_ok_def new_windows_client_def slot_used_def zero_slot_def)
  show "frames_ok new_windows_client" using ok by (simp add: frames_ok_def new_windows_client_def)
  show "touch_inv new_windows_client" using ok none by (simp add: touch_inv_def)
  show "fingers new_windows_client = Map.empty" using none by (simp add: fingers_def)
qed

lemma touch_run_frames: "frames_ok raw \<Longrightarrow> \<exists>raw'. touch_run evs raw = Some raw' \<and> frames_ok raw'"
proof (induction evs raw rule: touch_run.induct)
  case (2 env port touch evs raw)
  then show ?case using touch_update_frames [OF 2(2), of env port touch] by auto
qed simp

text \<open>
  C36. Whatever a client sends and whatever Windows answers, the touch handler of Windows never uses a missing slot,
  and each frame it injects holds between one and ten pointers, none of them twice.
\<close>

theorem touch_frames_ok:
  "\<exists>raw. touch_run evs new_windows_client = Some raw \<and> list_all frame_ok (wc_touch_calls raw)"
  using touch_run_frames [OF new_client_ok(1), of evs] by (auto simp: frames_ok_def)

text \<open>Where Windows answers well: an event is one step of the map of fingers.\<close>

lemma send_touch_device: "wc_touch (send_touch env port touch i raw) = wc_touch raw"
  by (simp add: send_touch_def inject_touch_def Let_def)

lemma pointer_by_id_device: "pointer_by_id p raw = (i, raw') \<Longrightarrow> wc_touch raw' = wc_touch raw"
  by (auto simp: pointer_by_id_def perform_touch_compaction_def Let_def split: option.splits prod.splits)

lemma cancel_all_device: "wc_touch (cancel_all_active_touches raw) = wc_touch raw"
  by (simp add: cancel_all_active_touches_def inject_touch_def perform_touch_compaction_def Let_def split: prod.split)

lemma device_touch_device: "device_touch env port touch raw = Some raw' \<Longrightarrow> wc_touch raw' = wc_touch raw"
  by (auto simp: device_touch_def Let_def send_touch_device cancel_all_device dest!: pointer_by_id_device
      split: if_splits prod.splits option.splits)

lemma device_touch_step:
  assumes "touch_inv raw" "we_injects env"
  shows "\<exists>raw'. device_touch env port touch raw = Some raw' \<and> touch_inv raw' \<and>
    fingers raw' = finger_step (ti_eventType touch) (ti_pointerId touch) (fingers raw)"
proof (cases "ti_eventType touch = LI_TOUCH_EVENT_CANCEL_ALL")
  case True
  have "slots_ok (raw\<lparr>wc_touchRepeatTask := False\<rparr>)" using assms(1) by (simp add: touch_inv_def frames_ok_device)
  from cancel_all_correct [OF this] show ?thesis
    using True by (simp add: device_touch_def finger_step_def touch_inv_def fingers_def)
next
  case False
  then show ?thesis using device_touch_correct [OF assms False, of port] by blast
qed

lemma touch_update_step:
  assumes "touch_inv raw" "\<not> wc_touch raw \<Longrightarrow> fingers raw = Map.empty"
    and "we_has_api env" "we_creates env" "we_injects env"
  shows "\<exists>raw'. touch_update env port touch raw = Some raw' \<and> touch_inv raw' \<and>
    (\<not> wc_touch raw' \<longrightarrow> fingers raw' = Map.empty) \<and>
    fingers raw' = finger_step (ti_eventType touch) (ti_pointerId touch) (fingers raw)"
proof (cases "\<not> wc_touch raw \<and> ti_eventType touch = LI_TOUCH_EVENT_CANCEL_ALL")
  case True
  then show ?thesis using assms by (simp add: touch_update_def finger_step_def)
next
  case False
  let ?new = "raw\<lparr>wc_touch := True, wc_touch_calls := wc_touch_calls raw @ [Create_touch]\<rparr>"
  let ?raw = "if wc_touch raw then raw else ?new"
  have new: "touch_inv ?new" "fingers ?new = fingers raw"
    using touch_inv_device [where raw = raw and b = True and calls = "wc_touch_calls raw @ [Create_touch]" and r = "wc_touchRepeatTask raw"] assms(1) by simp_all
  have "touch_inv ?raw" "fingers ?raw = fingers raw" using assms(1) new by simp_all
  then obtain raw' where r: "device_touch env port touch ?raw = Some raw'" "touch_inv raw'"
    "fingers raw' = finger_step (ti_eventType touch) (ti_pointerId touch) (fingers raw)"
    using device_touch_step [OF _ assms(5), of ?raw port touch] by auto
  moreover have "wc_touch raw'"
    using device_touch_device [OF r(1)] by (simp split: if_splits)
  ultimately show ?thesis using False assms(3,4) by (auto simp: touch_update_def Let_def split: if_splits)
qed

definition answers_well :: "'f win_env \<Rightarrow> bool" where
  "answers_well env \<longleftrightarrow> we_has_api env \<and> we_creates env \<and> we_injects env"

lemma touch_run_fingers:
  assumes "touch_inv raw" "\<not> wc_touch raw \<Longrightarrow> fingers raw = Map.empty" "\<forall>(env, port, touch)\<in>set evs. answers_well env"
  shows "\<exists>raw'. touch_run evs raw = Some raw' \<and> touch_inv raw' \<and>
    fingers raw' = fold (\<lambda>(env, port, touch). finger_step (ti_eventType touch) (ti_pointerId touch)) evs (fingers raw)"
  using assms
proof (induction evs raw rule: touch_run.induct)
  case (2 env port touch evs raw)
  have env: "we_has_api env" "we_creates env" "we_injects env" using 2(4) by (simp_all add: answers_well_def)
  obtain raw' where raw': "touch_update env port touch raw = Some raw'" "touch_inv raw'"
    "\<not> wc_touch raw' \<longrightarrow> fingers raw' = Map.empty"
    "fingers raw' = finger_step (ti_eventType touch) (ti_pointerId touch) (fingers raw)"
    using touch_update_step [OF 2(2,3) env, of port touch] by blast
  show ?case using 2(1) [of raw'] raw' 2(4) by simp
qed simp

text \<open>
  C35. The slots of the touch device implement the map of the client's pointers: when Windows has the interface,
  makes the device and takes every frame, then after any events the pointers in use, and which of them touch and
  which hover, are those the events say. A new pointer beyond ten clears all others first.
\<close>

theorem touch_slots_refine:
  assumes "\<forall>(env, port, touch)\<in>set evs. answers_well env"
  shows "\<exists>raw. touch_run evs new_windows_client = Some raw \<and>
    fingers raw = fold (\<lambda>(env, port, touch). finger_step (ti_eventType touch) (ti_pointerId touch)) evs Map.empty"
  using touch_run_fingers [OF new_client_ok(2) new_client_ok(3) assms] new_client_ok(3) by auto

definition sample_touch :: "u8 \<Rightarrow> u32 \<Rightarrow> int touch_input" where
  "sample_touch ev p = \<lparr>ti_eventType = ev, ti_rotation = LI_ROT_UNKNOWN, ti_pointerId = p, ti_x = 0, ti_y = 0,
     ti_pressureOrDistance = 0, ti_contactAreaMajor = 0, ti_contactAreaMinor = 0\<rparr>"

definition sample_windows :: "int win_env" where
  "sample_windows = \<lparr>we_has_api = True, we_creates = True, we_injects = True, we_float = sample_floats,
     we_half = (\<lambda>_ _ _. ((0, 0), (0, 0))), we_tilt = (\<lambda>_ _. (0, 0))\<rparr>"

definition sample_port :: platf_port where
  "sample_port = \<lparr>pp_offset_x = 0, pp_offset_y = 0, pp_width = 1920, pp_height = 1080, pp_logical_width = 1920, pp_logical_height = 1080\<rparr>"

theorem touch_slots_refine_witness:
  "\<exists>raw. touch_run [(sample_windows, sample_port, sample_touch LI_TOUCH_EVENT_DOWN 7), (sample_windows, sample_port, sample_touch LI_TOUCH_EVENT_HOVER 9),
      (sample_windows, sample_port, sample_touch LI_TOUCH_EVENT_UP 7)] new_windows_client = Some raw \<and>
    fingers raw = [9 \<mapsto> Hovering]"
proof -
  let ?evs = "[(sample_windows, sample_port, sample_touch LI_TOUCH_EVENT_DOWN 7), (sample_windows, sample_port, sample_touch LI_TOUCH_EVENT_HOVER 9),
      (sample_windows, sample_port, sample_touch LI_TOUCH_EVENT_UP 7)]"
  have "\<forall>(env, port, touch)\<in>set ?evs. answers_well env" by (simp add: answers_well_def sample_windows_def)
  from touch_slots_refine [OF this] show ?thesis
    by (auto simp: sample_touch_def finger_step_def finger_event_def touch_events Let_def)
qed

section \<open>Pen\<close>

definition pen_finger :: "pen_info \<Rightarrow> finger option" where
  "pen_finger info = (if po_flags info = {} then None else if Incontact \<in> po_flags info then Some Touching else Some Hovering)"

lemma populate_cancel_all: "populate_flags LI_TOUCH_EVENT_CANCEL_ALL f = populate_flags LI_TOUCH_EVENT_CANCEL f"
  by (simp add: populate_flags_def touch_events)

lemma populate_lasting_any:
  "populate_flags ev (lasting f) - EDGE_TRIGGERED_POINTER_FLAGS =
   lasting (if ev = LI_TOUCH_EVENT_CANCEL_ALL then None else finger_event ev f)"
proof (cases "ev = LI_TOUCH_EVENT_CANCEL_ALL")
  case True
  then show ?thesis
    using populate_lasting [of LI_TOUCH_EVENT_CANCEL f]
    by (simp add: populate_cancel_all) (simp add: touch_events finger_event_def)
qed (simp add: populate_lasting)

lemma pen_finger_lasting: "po_flags info = lasting f \<Longrightarrow> pen_finger info = f"
  by (auto simp: pen_finger_def lasting_def split: option.splits finger.splits)

text \<open>The pen is one finger of its own, and is repeated just while it is near.\<close>

lemma device_pen_step:
  fixes pen :: "'f pen_input" and env :: "'f win_env"
  assumes "po_flags (wc_penInfo raw) = lasting f" "we_injects env"
  defines "f' \<equiv> if pi_eventType pen = LI_TOUCH_EVENT_CANCEL_ALL then None else finger_event (pi_eventType pen) f"
  shows "po_flags (wc_penInfo (device_pen env port pen raw)) = lasting f'"
    "pen_finger (wc_penInfo (device_pen env port pen raw)) = f'"
    "wc_penRepeatTask (device_pen env port pen raw) \<longleftrightarrow> f' \<noteq> None"
proof -
  have "po_flags (fill_pen env port pen (wc_penInfo raw)) = populate_flags (pi_eventType pen) (lasting f)"
    using assms(1) by (simp add: fill_pen_def populate_common_pointer_info_def Let_def)
  then show flags: "po_flags (wc_penInfo (device_pen env port pen raw)) = lasting f'"
    using assms(2) populate_lasting_any by (simp add: device_pen_def inject_pen_def f'_def Let_def)
  show "pen_finger (wc_penInfo (device_pen env port pen raw)) = f'" by (rule pen_finger_lasting [OF flags])
  have "wc_penRepeatTask (device_pen env port pen raw) \<longleftrightarrow> po_flags (wc_penInfo (device_pen env port pen raw)) \<noteq> {}"
    using assms(2) by (simp add: device_pen_def inject_pen_def Let_def)
  then show "wc_penRepeatTask (device_pen env port pen raw) \<longleftrightarrow> f' \<noteq> None" using flags lasting_empty(1) by simp
qed

end
