(* ===== verification/Windows_Gamepad.thy ===== *)
theory Windows_Gamepad
  imports Complex_Main Windows_Touch Stream_Control
begin

text \<open>
  Virtual gamepads on Windows, \<^verbatim>\<open>src/platform/windows/input.cpp\<close>: the contexts of the pads, their connection to the
  ViGEm driver, the reports of both kinds of pad, and the feedback to the client. The driver is a parameter: its
  answers come from outside, the calls made are recorded. Buttons of its reports are named, not numbered, and report
  fields the code never changes are left out.
\<close>

section \<open>State\<close>

datatype xusb_button = Xb_dpad_up | Xb_dpad_down | Xb_dpad_left | Xb_dpad_right | Xb_start | Xb_back | Xb_left_thumb
  | Xb_right_thumb | Xb_left_shoulder | Xb_right_shoulder | Xb_guide | Xb_a | Xb_b | Xb_x | Xb_y

datatype ds4_button = Db_thumb_left | Db_thumb_right | Db_shoulder_left | Db_shoulder_right | Db_options | Db_share
  | Db_cross | Db_circle | Db_square | Db_triangle | Db_trigger_left | Db_trigger_right

datatype ds4_direction = Dpad_none | Dpad_north | Dpad_northeast | Dpad_east | Dpad_southeast | Dpad_south | Dpad_southwest
  | Dpad_west | Dpad_northwest

datatype ds4_special = Ds_ps | Ds_touchpad

record ds4_touch =
  dt_packetCounter :: u8
  dt_isUpTrackingNum1 :: u8
  dt_touchData1 :: bytes
  dt_isUpTrackingNum2 :: u8
  dt_touchData2 :: bytes

record ds4_report =
  d4_thumbLX :: u8
  d4_thumbLY :: u8
  d4_thumbRX :: u8
  d4_thumbRY :: u8
  d4_buttons :: "ds4_button set"
  d4_dpad :: ds4_direction
  d4_special :: "ds4_special set"
  d4_triggerL :: u8
  d4_triggerR :: u8
  d4_timestamp :: u16
  d4_batteryLvl :: u8
  d4_gyro :: "int \<times> int \<times> int"
  d4_accel :: "int \<times> int \<times> int"
  d4_batteryLvlSpecial :: u8
  d4_currentTouch :: ds4_touch

record x360_report =
  xr_buttons :: "xusb_button set"
  xr_leftTrigger :: u8
  xr_rightTrigger :: u8
  xr_thumbLX :: u16
  xr_thumbLY :: u16
  xr_thumbRX :: u16
  xr_thumbRY :: u16

definition ds4_touch_unused :: ds4_touch where
  "ds4_touch_unused = \<lparr>dt_packetCounter = 0, dt_isUpTrackingNum1 = 0x80, dt_touchData1 = [0, 0, 0],
     dt_isUpTrackingNum2 = 0x80, dt_touchData2 = [0, 0, 0]\<rparr>"

definition ds4_report_init_ex :: ds4_report where
  "ds4_report_init_ex = \<lparr>d4_thumbLX = 0x80, d4_thumbLY = 0x80, d4_thumbRX = 0x80, d4_thumbRY = 0x80, d4_buttons = {},
     d4_dpad = Dpad_none, d4_special = {}, d4_triggerL = 0, d4_triggerR = 0, d4_timestamp = 0, d4_batteryLvl = 0xFF,
     d4_gyro = (0, 0, 0), d4_accel = (0, 0, 0), d4_batteryLvlSpecial = 0x1A, d4_currentTouch = ds4_touch_unused\<rparr>"

definition x360_report_init :: x360_report where
  "x360_report_init = \<lparr>xr_buttons = {}, xr_leftTrigger = 0, xr_rightTrigger = 0, xr_thumbLX = 0, xr_thumbLY = 0,
     xr_thumbRX = 0, xr_thumbRY = 0\<rparr>"

text \<open>The union of the two reports; the kind of target says which one is meant.\<close>

datatype pad_report = Report_x360 x360_report | is_ds4: Report_ds4 ds4_report

record vigem_target =
  tg_ds4 :: bool
  tg_attached :: bool
  tg_address :: nat

record vigem_pad =
  vp_gp :: "vigem_target option"
  vp_feedback_queue :: "nat option"
  vp_report :: pad_report
  vp_pointer_id_map :: "u32 \<rightharpoonup> nat"
  vp_available_pointers :: u8
  vp_client_relative_index :: u8
  vp_repeat_task :: bool
  vp_last_report_ts :: int
  vp_last_rumble :: "u16 \<times> u16"
  vp_last_rgb_led :: "u8 \<times> u8 \<times> u8"

definition new_vigem_pad :: vigem_pad where
  "new_vigem_pad = \<lparr>vp_gp = None, vp_feedback_queue = None, vp_report = Report_x360 x360_report_init, vp_pointer_id_map = Map.empty,
     vp_available_pointers = 0, vp_client_relative_index = 0, vp_repeat_task = False, vp_last_report_ts = 0,
     vp_last_rumble = (0, 0), vp_last_rgb_led = (0, 0, 0)\<rparr>"

datatype vigem_call = Vigem_connect | Vigem_disconnect | Vigem_add nat | Vigem_remove nat | Vigem_x360_update nat x360_report
  | Vigem_ds4_update nat ds4_report

text \<open>
  \<open>vg_calls\<close> are the calls of the driver, each with whether there was a connection; \<open>vg_raised\<close> the messages
  with the number of the queue they go to.
\<close>

record vigem =
  vg_client :: bool
  vg_gamepads :: "vigem_pad list"
  vg_calls :: "(bool \<times> vigem_call) list"
  vg_raised :: "(nat \<times> gamepad_feedback) list"

definition new_vigem :: vigem where
  "new_vigem = \<lparr>vg_client = False, vg_gamepads = replicate MAX_GAMEPADS new_vigem_pad, vg_calls = [], vg_raised = []\<rparr>"

definition vg_pad :: "vigem \<Rightarrow> nat \<Rightarrow> vigem_pad" where
  "vg_pad v nr = vg_gamepads v ! nr"

definition set_pad :: "nat \<Rightarrow> vigem_pad \<Rightarrow> vigem \<Rightarrow> vigem" where
  "set_pad nr p v = v\<lparr>vg_gamepads := (vg_gamepads v)[nr := p]\<rparr>"

definition vg_call :: "vigem_call \<Rightarrow> vigem \<Rightarrow> vigem" where
  "vg_call c v = v\<lparr>vg_calls := vg_calls v @ [(vg_client v, c)]\<rparr>"

definition vg_raise :: "nat \<Rightarrow> gamepad_feedback \<Rightarrow> vigem \<Rightarrow> vigem" where
  "vg_raise q msg v = v\<lparr>vg_raised := vg_raised v @ [(q, msg)]\<rparr>"

definition pad_attached :: "vigem_pad \<Rightarrow> bool" where
  "pad_attached p \<longleftrightarrow> (case vp_gp p of Some t \<Rightarrow> tg_attached t | None \<Rightarrow> False)"

text \<open>Answers of the driver and the clock; \<open>pe_lit\<close> gives float literals.\<close>

record 'f pad_env =
  pe_connects :: bool
  pe_adds :: bool
  pe_updates :: bool
  pe_now :: int
  pe_address :: nat
  pe_float :: "'f float_ops"
  pe_lit :: "rat \<Rightarrow> 'f"

section \<open>Motion\<close>

definition LI_MOTION_TYPE_ACCEL :: u8 where "LI_MOTION_TYPE_ACCEL = 0x01"
definition LI_MOTION_TYPE_GYRO :: u8 where "LI_MOTION_TYPE_GYRO = 0x02"

definition EARTH_G :: rat where "EARTH_G = 9.80665"

definition MPS2_TO_DS4_ACCEL :: "'f pad_env \<Rightarrow> 'f \<Rightarrow> int" where
  "MPS2_TO_DS4_ACCEL env x =
     (let F = pe_float env in fl_to_int F (fl_mul F (fl_div F x (pe_lit env EARTH_G)) (fl_of_int F 8192)))"

definition DPS_TO_DS4_GYRO :: "'f pad_env \<Rightarrow> 'f \<Rightarrow> int" where
  "DPS_TO_DS4_GYRO env x = (let F = pe_float env in fl_to_int F (fl_mul F x (fl_of_int F (1024 div 64))))"

definition APPLY_CALIBRATION :: "'f pad_env \<Rightarrow> int \<Rightarrow> int \<Rightarrow> rat \<Rightarrow> int" where
  "APPLY_CALIBRATION env val bias scale =
     (let F = pe_float env in fl_to_int F (fl_div F (fl_add F (fl_of_int F val) (fl_of_int F bias)) (pe_lit env scale)))"

definition clamp16 :: "int \<Rightarrow> int" where
  "clamp16 v = max (- 32768) (min 32767 v)"

definition ds4_update_motion :: "'f pad_env \<Rightarrow> u8 \<Rightarrow> 'f \<Rightarrow> 'f \<Rightarrow> 'f \<Rightarrow> ds4_report \<Rightarrow> ds4_report" where
  "ds4_update_motion env motion_type x y z report =
     (if motion_type = LI_MOTION_TYPE_ACCEL then
        report\<lparr>d4_accel := (clamp16 (APPLY_CALIBRATION env (MPS2_TO_DS4_ACCEL env x) (- 297) 1.010796),
          clamp16 (APPLY_CALIBRATION env (MPS2_TO_DS4_ACCEL env y) (- 42) 1.014614),
          clamp16 (APPLY_CALIBRATION env (MPS2_TO_DS4_ACCEL env z) (- 512) 1.024768))\<rparr>
      else if motion_type = LI_MOTION_TYPE_GYRO then
        report\<lparr>d4_gyro := (clamp16 (APPLY_CALIBRATION env (DPS_TO_DS4_GYRO env x) 1 0.977596),
          clamp16 (APPLY_CALIBRATION env (DPS_TO_DS4_GYRO env y) 0 0.972370),
          clamp16 (APPLY_CALIBRATION env (DPS_TO_DS4_GYRO env z) 0 0.971550))\<rparr>
      else report)"

section \<open>Pads come and go\<close>

text \<open>\<open>None\<close> is the failed assertion; else whether it failed.\<close>

definition alloc_gamepad_internal :: "'f pad_env \<Rightarrow> nat \<times> u8 \<Rightarrow> nat \<Rightarrow> bool \<Rightarrow> vigem \<Rightarrow> (bool \<times> vigem) option" where
  "alloc_gamepad_internal env gamepad_id queue ds4 v =
     (let nr = fst gamepad_id; p = vg_pad v nr
      in if vp_gp p \<noteq> None then None
         else
           let p = p\<lparr>vp_client_relative_index := snd gamepad_id, vp_last_report_ts := pe_now env\<rparr>;
               v = (if vg_client v then v else (vg_call Vigem_connect v)\<lparr>vg_client := pe_connects env\<rparr>)
           in if \<not> vg_client v then Some (True, set_pad nr p v)
              else
                let F = pe_float env; zero = fl_of_int F 0;
                    p = p\<lparr>vp_gp := Some \<lparr>tg_ds4 = ds4, tg_attached = False, tg_address = pe_address env\<rparr>,
                      vp_report := (if ds4 then Report_ds4 (ds4_update_motion env LI_MOTION_TYPE_GYRO zero zero zero
                          (ds4_update_motion env LI_MOTION_TYPE_ACCEL zero (pe_lit env EARTH_G) zero ds4_report_init_ex))
                        else Report_x360 x360_report_init),
                      vp_available_pointers := (if ds4 then 0x3 else vp_available_pointers p)\<rparr>;
                    index = ucast (vp_client_relative_index p);
                    v = (if ds4 then vg_raise queue (set_motion_event_state index 100 LI_MOTION_TYPE_GYRO)
                      (vg_raise queue (set_motion_event_state index 100 LI_MOTION_TYPE_ACCEL) v) else v);
                    v = vg_call (Vigem_add nr) v
                in if \<not> pe_adds env then Some (True, set_pad nr p v)
                   else Some (False, set_pad nr (p\<lparr>vp_gp := Some \<lparr>tg_ds4 = ds4, tg_attached = True, tg_address = pe_address env\<rparr>,
                     vp_feedback_queue := Some queue\<rparr>) v))"

definition free_target :: "nat \<Rightarrow> vigem \<Rightarrow> vigem" where
  "free_target nr v =
     (let p = vg_pad v nr;
          v = (if pad_attached p then vg_call (Vigem_remove nr) v else v);
          v = set_pad nr (p\<lparr>vp_repeat_task := False, vp_gp := None\<rparr>) v
      in if list_ex pad_attached (vg_gamepads v) then v
         else (vg_call Vigem_disconnect v)\<lparr>vg_client := False\<rparr>)"

text \<open>The destructor, and which kind of pad a client gets.\<close>

definition drop_vigem :: "vigem \<Rightarrow> vigem" where
  "drop_vigem v =
     (if vg_client v then
        vg_call Vigem_disconnect (fold (\<lambda>nr v. if pad_attached (vg_pad v nr) then vg_call (Vigem_remove nr) v else v)
          [0..<length (vg_gamepads v)] v)
      else v)"

definition LI_CTYPE_XBOX :: u8 where "LI_CTYPE_XBOX = 0x01"
definition LI_CTYPE_PS :: u8 where "LI_CTYPE_PS = 0x02"
definition LI_CCAP_TOUCHPAD :: u16 where "LI_CCAP_TOUCHPAD = 0x08"
definition LI_CCAP_ACCEL :: u16 where "LI_CCAP_ACCEL = 0x10"
definition LI_CCAP_GYRO :: u16 where "LI_CCAP_GYRO = 0x20"

record gamepad_config =
  gc_gamepad :: string
  gc_motion_as_ds4 :: bool
  gc_touchpad_as_ds4 :: bool
  gc_ds4_back_as_touchpad_click :: bool

definition selected_ds4 :: "gamepad_config \<Rightarrow> gamepad_arrival \<Rightarrow> bool" where
  "selected_ds4 cfg metadata =
     (if gc_gamepad cfg = ''x360'' then False
      else if gc_gamepad cfg = ''ds4'' then True
      else if ga_type metadata = LI_CTYPE_PS then True
      else if ga_type metadata = LI_CTYPE_XBOX then False
      else if gc_motion_as_ds4 cfg \<and> ga_capabilities metadata AND (LI_CCAP_ACCEL OR LI_CCAP_GYRO) \<noteq> 0 then True
      else if gc_touchpad_as_ds4 cfg \<and> ga_capabilities metadata AND LI_CCAP_TOUCHPAD \<noteq> 0 then True
      else False)"

definition win_alloc_gamepad :: "gamepad_config \<Rightarrow> 'f pad_env \<Rightarrow> nat \<times> u8 \<Rightarrow> gamepad_arrival \<Rightarrow> nat \<Rightarrow> vigem \<Rightarrow> (bool \<times> vigem) option" where
  "win_alloc_gamepad cfg env gamepad_id metadata queue v =
     alloc_gamepad_internal env gamepad_id queue (selected_ds4 cfg metadata) v"

section \<open>Feedback\<close>

text \<open>The context of a target; \<open>None\<close> from the functions below is the use of a null queue.\<close>

definition pad_of_target :: "nat \<Rightarrow> vigem \<Rightarrow> nat option" where
  "pad_of_target address v =
     find (\<lambda>nr. case vp_gp (vg_pad v nr) of Some t \<Rightarrow> tg_address t = address | None \<Rightarrow> False) [0..<length (vg_gamepads v)]"

definition raise_feedback :: "nat \<Rightarrow> gamepad_feedback \<Rightarrow> (vigem_pad \<Rightarrow> vigem_pad) \<Rightarrow> vigem \<Rightarrow> vigem option" where
  "raise_feedback nr msg remember v =
     (case vp_feedback_queue (vg_pad v nr) of
        None \<Rightarrow> None
      | Some q \<Rightarrow> Some (set_pad nr (remember (vg_pad v nr)) (vg_raise q msg v)))"

definition vigem_rumble :: "nat \<Rightarrow> u8 \<Rightarrow> u8 \<Rightarrow> vigem \<Rightarrow> vigem option" where
  "vigem_rumble target largeMotor smallMotor v =
     (case pad_of_target target v of
        None \<Rightarrow> Some v
      | Some nr \<Rightarrow>
          let normalizedLargeMotor = push_bit 8 (ucast largeMotor); normalizedSmallMotor = push_bit 8 (ucast smallMotor)
          in if vp_last_rumble (vg_pad v nr) \<noteq> (normalizedLargeMotor, normalizedSmallMotor)
             then raise_feedback nr (rumble (ucast (vp_client_relative_index (vg_pad v nr))) normalizedLargeMotor normalizedSmallMotor)
               (\<lambda>p. p\<lparr>vp_last_rumble := (normalizedLargeMotor, normalizedSmallMotor)\<rparr>) v
             else Some v)"

definition vigem_set_rgb_led :: "nat \<Rightarrow> u8 \<times> u8 \<times> u8 \<Rightarrow> vigem \<Rightarrow> vigem option" where
  "vigem_set_rgb_led target rgb v =
     (case pad_of_target target v of
        None \<Rightarrow> Some v
      | Some nr \<Rightarrow>
          if vp_last_rgb_led (vg_pad v nr) \<noteq> rgb
          then raise_feedback nr (case rgb of (r, g, b) \<Rightarrow> set_rgb_led (ucast (vp_client_relative_index (vg_pad v nr))) r g b)
            (\<lambda>p. p\<lparr>vp_last_rgb_led := rgb\<rparr>) v
          else Some v)"

section \<open>Buttons and sticks\<close>

definition pressed :: "gamepad_state \<Rightarrow> u32 \<Rightarrow> bool" where
  "pressed gs m \<longleftrightarrow> gs_buttonFlags gs AND m \<noteq> 0"

definition buttons_of :: "gamepad_state \<Rightarrow> (u32 \<times> 'b) list \<Rightarrow> 'b set" where
  "buttons_of gs table = snd ` set (filter (\<lambda>(m, _). pressed gs m) table)"

definition x360_buttons :: "gamepad_state \<Rightarrow> xusb_button set" where
  "x360_buttons gs = buttons_of gs
     [(0x0001, Xb_dpad_up), (0x0002, Xb_dpad_down), (0x0004, Xb_dpad_left), (0x0008, Xb_dpad_right), (0x0010, Xb_start),
      (0x0020, Xb_back), (0x0040, Xb_left_thumb), (0x0080, Xb_right_thumb), (0x0100, Xb_left_shoulder),
      (0x0200, Xb_right_shoulder), (0x0400 OR 0x200000, Xb_guide), (0x1000, Xb_a), (0x2000, Xb_b), (0x4000, Xb_x), (0x8000, Xb_y)]"

definition x360_update_state :: "gamepad_state \<Rightarrow> x360_report \<Rightarrow> x360_report" where
  "x360_update_state gs report = report\<lparr>xr_buttons := x360_buttons gs, xr_leftTrigger := gs_lt gs, xr_rightTrigger := gs_rt gs,
     xr_thumbLX := gs_lsX gs, xr_thumbLY := gs_lsY gs, xr_thumbRX := gs_rsX gs, xr_thumbRY := gs_rsY gs\<rparr>"

definition ds4_dpad :: "gamepad_state \<Rightarrow> ds4_direction" where
  "ds4_dpad gs =
     (if pressed gs 0x0001 then (if pressed gs 0x0008 then Dpad_northeast else if pressed gs 0x0004 then Dpad_northwest else Dpad_north)
      else if pressed gs 0x0002 then (if pressed gs 0x0008 then Dpad_southeast else if pressed gs 0x0004 then Dpad_southwest else Dpad_south)
      else if pressed gs 0x0008 then Dpad_east
      else if pressed gs 0x0004 then Dpad_west
      else Dpad_none)"

definition ds4_buttons :: "gamepad_state \<Rightarrow> ds4_button set" where
  "ds4_buttons gs = buttons_of gs
     [(0x0040, Db_thumb_left), (0x0080, Db_thumb_right), (0x0100, Db_shoulder_left), (0x0200, Db_shoulder_right), (0x0010, Db_options),
      (0x0020, Db_share), (0x1000, Db_cross), (0x2000, Db_circle), (0x4000, Db_square), (0x8000, Db_triangle)] \<union>
     (if 0 < gs_lt gs then {Db_trigger_left} else {}) \<union> (if 0 < gs_rt gs then {Db_trigger_right} else {})"

definition ds4_special_buttons :: "gamepad_config \<Rightarrow> gamepad_state \<Rightarrow> ds4_special set" where
  "ds4_special_buttons cfg gs =
     (if pressed gs 0x0400 then {Ds_ps} else {}) \<union>
     (if pressed gs (0x100000 OR 0x200000) then {Ds_touchpad} else {}) \<union>
     (if gc_gamepad cfg = ''ds4'' \<and> gc_ds4_back_as_touchpad_click cfg \<and> pressed gs 0x0020 then {Ds_touchpad} else {})"

text \<open>Division of C, which rounds to zero.\<close>

definition c_div :: "int \<Rightarrow> int \<Rightarrow> int" where
  "c_div a b = sgn a * sgn b * (\<bar>a\<bar> div \<bar>b\<bar>)"

definition to_ds4_triggerX :: "u16 \<Rightarrow> u8" where
  "to_ds4_triggerX v = word_of_int (c_div (sint v + 65535 div 2 + 1) 257)"

definition to_ds4_triggerY :: "u16 \<Rightarrow> u8" where
  "to_ds4_triggerY v =
     (let new_v = c_div (- (65535 div 2 + sint v - 1)) 257 in if new_v = 0 then 0xFF else word_of_int new_v)"

definition ds4_update_state :: "gamepad_config \<Rightarrow> gamepad_state \<Rightarrow> ds4_report \<Rightarrow> ds4_report" where
  "ds4_update_state cfg gs report = report\<lparr>d4_buttons := ds4_buttons gs, d4_dpad := ds4_dpad gs,
     d4_special := ds4_special_buttons cfg gs, d4_triggerL := gs_lt gs, d4_triggerR := gs_rt gs,
     d4_thumbLX := to_ds4_triggerX (gs_lsX gs), d4_thumbLY := to_ds4_triggerY (gs_lsY gs),
     d4_thumbRX := to_ds4_triggerX (gs_rsX gs), d4_thumbRY := to_ds4_triggerY (gs_rsY gs)\<rparr>"

section \<open>Events\<close>

fun on_ds4 :: "(ds4_report \<Rightarrow> ds4_report) \<Rightarrow> pad_report \<Rightarrow> pad_report" where
  "on_ds4 f (Report_ds4 r) = Report_ds4 (f r)"
| "on_ds4 f (Report_x360 r) = Report_x360 r"

fun on_x360 :: "(x360_report \<Rightarrow> x360_report) \<Rightarrow> pad_report \<Rightarrow> pad_report" where
  "on_x360 f (Report_x360 r) = Report_x360 (f r)"
| "on_x360 f (Report_ds4 r) = Report_ds4 r"

definition report_call :: "nat \<Rightarrow> pad_report \<Rightarrow> vigem_call" where
  "report_call nr report = (case report of Report_x360 r \<Rightarrow> Vigem_x360_update nr r | Report_ds4 r \<Rightarrow> Vigem_ds4_update nr r)"

definition ds4_update_ts_and_send :: "'f pad_env \<Rightarrow> nat \<Rightarrow> vigem \<Rightarrow> vigem" where
  "ds4_update_ts_and_send env nr v =
     (let p = (vg_pad v nr)\<lparr>vp_repeat_task := False\<rparr>
      in if \<not> pad_attached p then set_pad nr p v
         else
           let delta_ns = pe_now env - vp_last_report_ts p;
               p = p\<lparr>vp_report := on_ds4 (\<lambda>r. r\<lparr>d4_timestamp := d4_timestamp r + word_of_int (c_div delta_ns 5333)\<rparr>) (vp_report p)\<rparr>;
               v = vg_call (report_call nr (vp_report p)) v
           in if \<not> pe_updates env then set_pad nr p v
              else set_pad nr (p\<lparr>vp_last_report_ts := pe_now env, vp_repeat_task := True\<rparr>) v)"

definition win_gamepad_update :: "gamepad_config \<Rightarrow> 'f pad_env \<Rightarrow> nat \<Rightarrow> gamepad_state \<Rightarrow> vigem \<Rightarrow> vigem" where
  "win_gamepad_update cfg env nr gs v =
     (let p = vg_pad v nr
      in case vp_gp p of
           None \<Rightarrow> v
         | Some t \<Rightarrow>
             if \<not> tg_ds4 t then
               let p = p\<lparr>vp_report := on_x360 (x360_update_state gs) (vp_report p)\<rparr>
               in vg_call (report_call nr (vp_report p)) (set_pad nr p v)
             else ds4_update_ts_and_send env nr (set_pad nr (p\<lparr>vp_report := on_ds4 (ds4_update_state cfg gs) (vp_report p)\<rparr>) v))"

text \<open>Events only a DualShock takes.\<close>

definition ds4_event :: "'f pad_env \<Rightarrow> nat \<Rightarrow> (vigem_pad \<Rightarrow> vigem_pad option) \<Rightarrow> vigem \<Rightarrow> vigem" where
  "ds4_event env nr f v =
     (case vp_gp (vg_pad v nr) of
        None \<Rightarrow> v
      | Some t \<Rightarrow>
          if \<not> tg_ds4 t then v
          else case f (vg_pad v nr) of
              None \<Rightarrow> v
            | Some p \<Rightarrow> ds4_update_ts_and_send env nr (set_pad nr p v))"

definition set_up :: "nat \<Rightarrow> ds4_touch \<Rightarrow> ds4_touch" where
  "set_up i t = (if i = 0 then t\<lparr>dt_isUpTrackingNum1 := dt_isUpTrackingNum1 t OR 0x80\<rparr>
     else t\<lparr>dt_isUpTrackingNum2 := dt_isUpTrackingNum2 t OR 0x80\<rparr>)"

definition set_down :: "nat \<Rightarrow> ds4_touch \<Rightarrow> ds4_touch" where
  "set_down i t = (if i = 0 then t\<lparr>dt_isUpTrackingNum1 := (dt_isUpTrackingNum1 t AND NOT 0x80) + 1\<rparr>
     else t\<lparr>dt_isUpTrackingNum2 := (dt_isUpTrackingNum2 t AND NOT 0x80) + 1\<rparr>)"

definition on_touch :: "(ds4_touch \<Rightarrow> ds4_touch) \<Rightarrow> vigem_pad \<Rightarrow> vigem_pad" where
  "on_touch f p = p\<lparr>vp_report := on_ds4 (\<lambda>r. r\<lparr>d4_currentTouch := f (d4_currentTouch r)\<rparr>) (vp_report p)\<rparr>"

text \<open>The finger an event is about, if the event is taken.\<close>

definition pad_finger :: "u8 \<Rightarrow> u32 \<Rightarrow> vigem_pad \<Rightarrow> (nat option \<times> vigem_pad) option" where
  "pad_finger eventType pointerId p =
     (if eventType = LI_TOUCH_EVENT_DOWN then
        let take = (\<lambda>i. Some (Some i, on_touch (set_down i) (p\<lparr>vp_pointer_id_map := (vp_pointer_id_map p)(pointerId \<mapsto> i),
              vp_available_pointers := vp_available_pointers p AND NOT (push_bit i 1)\<rparr>)))
        in if vp_available_pointers p AND 0x1 \<noteq> 0 then take 0
           else if vp_available_pointers p AND 0x2 \<noteq> 0 then take 1
           else None
      else if eventType = LI_TOUCH_EVENT_CANCEL_ALL then
        Some (None, on_touch (set_up 0 \<circ> set_up 1) (p\<lparr>vp_pointer_id_map := Map.empty, vp_available_pointers := 0x3\<rparr>))
      else case vp_pointer_id_map p pointerId of
          None \<Rightarrow> None
        | Some i \<Rightarrow>
            if eventType = LI_TOUCH_EVENT_UP \<or> eventType = LI_TOUCH_EVENT_CANCEL then
              Some (Some i, on_touch (set_up i) (p\<lparr>vp_pointer_id_map := (vp_pointer_id_map p)(pointerId := None),
                vp_available_pointers := vp_available_pointers p OR push_bit i 1\<rparr>))
            else if eventType \<noteq> LI_TOUCH_EVENT_MOVE then None
            else Some (Some i, p))"

definition touch_data :: "u16 \<Rightarrow> u16 \<Rightarrow> bytes" where
  "touch_data x y =
     [ucast (x AND 0xFF), ucast ((drop_bit 8 x AND 0x0F) OR push_bit 4 (y AND 0x0F)), ucast (drop_bit 4 y AND 0xFF)]"

definition pad_touch :: "'f pad_env \<Rightarrow> u8 \<Rightarrow> u32 \<Rightarrow> 'f \<Rightarrow> 'f \<Rightarrow> vigem_pad \<Rightarrow> vigem_pad option" where
  "pad_touch env eventType pointerId x y p =
     (case pad_finger eventType pointerId p of
        None \<Rightarrow> None
      | Some (finger, p) \<Rightarrow>
          let F = pe_float env;
              touchData = touch_data (word_of_int (fl_to_int F (fl_mul F x (fl_of_int F 1920)))) (word_of_int (fl_to_int F (fl_mul F y (fl_of_int F 943))))
          in Some (on_touch (\<lambda>t.
               let t = t\<lparr>dt_packetCounter := dt_packetCounter t + 1\<rparr>
               in case finger of None \<Rightarrow> t
                  | Some i \<Rightarrow> if i = 0 then t\<lparr>dt_touchData1 := touchData\<rparr> else t\<lparr>dt_touchData2 := touchData\<rparr>) p))"

definition win_gamepad_touch :: "'f pad_env \<Rightarrow> nat \<Rightarrow> u8 \<Rightarrow> u32 \<Rightarrow> 'f \<Rightarrow> 'f \<Rightarrow> vigem \<Rightarrow> vigem" where
  "win_gamepad_touch env nr eventType pointerId x y = ds4_event env nr (pad_touch env eventType pointerId x y)"

definition win_gamepad_motion :: "'f pad_env \<Rightarrow> nat \<Rightarrow> u8 \<Rightarrow> 'f \<Rightarrow> 'f \<Rightarrow> 'f \<Rightarrow> vigem \<Rightarrow> vigem" where
  "win_gamepad_motion env nr motionType x y z =
     ds4_event env nr (\<lambda>p. Some (p\<lparr>vp_report := on_ds4 (ds4_update_motion env motionType x y z) (vp_report p)\<rparr>))"

definition LI_BATTERY_STATE_NOT_PRESENT :: u8 where "LI_BATTERY_STATE_NOT_PRESENT = 0x01"
definition LI_BATTERY_STATE_DISCHARGING :: u8 where "LI_BATTERY_STATE_DISCHARGING = 0x02"
definition LI_BATTERY_STATE_CHARGING :: u8 where "LI_BATTERY_STATE_CHARGING = 0x03"
definition LI_BATTERY_STATE_NOT_CHARGING :: u8 where "LI_BATTERY_STATE_NOT_CHARGING = 0x04"
definition LI_BATTERY_STATE_FULL :: u8 where "LI_BATTERY_STATE_FULL = 0x05"
definition LI_BATTERY_PERCENTAGE_UNKNOWN :: u8 where "LI_BATTERY_PERCENTAGE_UNKNOWN = 0xFF"

lemmas battery_states = LI_BATTERY_STATE_NOT_PRESENT_def LI_BATTERY_STATE_DISCHARGING_def LI_BATTERY_STATE_CHARGING_def
  LI_BATTERY_STATE_NOT_CHARGING_def LI_BATTERY_STATE_FULL_def LI_BATTERY_PERCENTAGE_UNKNOWN_def

text \<open>The state of the battery, as level and special byte, and then its percentage.\<close>

definition battery_state :: "u8 \<Rightarrow> u8 \<times> u8 \<Rightarrow> u8 \<times> u8" where
  "battery_state state ls =
     (case ls of (lvl, special) \<Rightarrow>
       if state = LI_BATTERY_STATE_CHARGING \<or> state = LI_BATTERY_STATE_DISCHARGING then
         let special = (if state = LI_BATTERY_STATE_CHARGING then special OR 0x10 else special AND NOT 0x10)
         in (lvl, if special AND 0xF > 0xA then (special AND NOT 0xF) OR 0x5 else special)
       else if state = LI_BATTERY_STATE_FULL then (0xFF, 0x1B)
       else if state = LI_BATTERY_STATE_NOT_PRESENT \<or> state = LI_BATTERY_STATE_NOT_CHARGING then (lvl, 0x1F)
       else (lvl, special))"

definition battery_percentage :: "u8 \<Rightarrow> u8 \<times> u8 \<Rightarrow> u8 \<times> u8" where
  "battery_percentage percentage ls =
     (if percentage = LI_BATTERY_PERCENTAGE_UNKNOWN then ls
      else case ls of (lvl, special) \<Rightarrow>
        (word_of_int (uint percentage * 255 div 100),
         if special AND 0x10 \<noteq> 0 \<and> special AND 0xF \<le> 0xA
         then (special AND NOT 0xF) OR word_of_int ((uint percentage + 5) div 10) else special))"

definition ds4_battery :: "u8 \<Rightarrow> u8 \<Rightarrow> ds4_report \<Rightarrow> ds4_report" where
  "ds4_battery state percentage report =
     (case battery_percentage percentage (battery_state state (d4_batteryLvl report, d4_batteryLvlSpecial report)) of
        (lvl, special) \<Rightarrow> report\<lparr>d4_batteryLvl := lvl, d4_batteryLvlSpecial := special\<rparr>)"

definition win_gamepad_battery :: "'f pad_env \<Rightarrow> nat \<Rightarrow> u8 \<Rightarrow> u8 \<Rightarrow> vigem \<Rightarrow> vigem" where
  "win_gamepad_battery env nr state percentage =
     ds4_event env nr (\<lambda>p. Some (p\<lparr>vp_report := on_ds4 (ds4_battery state percentage) (vp_report p)\<rparr>))"

section \<open>Runs\<close>

text \<open>
  What the input layer does with the pads: it updates and frees only pads it got, and does not ask for one it has.
  \<open>live\<close> are the pads it has. \<open>None\<close> is the failed assertion of \<^verbatim>\<open>alloc_gamepad_internal\<close>.
\<close>

datatype 'f pad_op =
    Pad_alloc nat u8 gamepad_arrival nat
  | Pad_free nat
  | Pad_update nat gamepad_state
  | Pad_touch nat u8 u32 'f 'f
  | Pad_motion nat u8 'f 'f 'f
  | Pad_battery nat u8 u8
  | Pad_repeat nat

fun pad_event :: "gamepad_config \<Rightarrow> 'f pad_env \<Rightarrow> 'f pad_op \<Rightarrow> vigem \<Rightarrow> nat \<times> vigem" where
  "pad_event cfg env (Pad_update nr gs) v = (nr, win_gamepad_update cfg env nr gs v)"
| "pad_event cfg env (Pad_touch nr ev i x y) v = (nr, win_gamepad_touch env nr ev i x y v)"
| "pad_event cfg env (Pad_motion nr t x y z) v = (nr, win_gamepad_motion env nr t x y z v)"
| "pad_event cfg env (Pad_battery nr st percentage) v = (nr, win_gamepad_battery env nr st percentage v)"
| "pad_event cfg env (Pad_repeat nr) v = (nr, if vp_repeat_task (vg_pad v nr) then ds4_update_ts_and_send env nr v else v)"
| "pad_event cfg env (Pad_free nr) v = (nr, free_target nr v)"
| "pad_event cfg env (Pad_alloc nr i metadata q) v = (nr, v)"

definition pad_step :: "gamepad_config \<Rightarrow> 'f pad_env \<Rightarrow> 'f pad_op \<Rightarrow> vigem \<times> nat set \<Rightarrow> (vigem \<times> nat set) option" where
  "pad_step cfg env op s =
     (case (s, op) of
        ((v, live), Pad_alloc nr i metadata q) \<Rightarrow>
          if MAX_GAMEPADS \<le> nr \<or> nr \<in> live then Some (v, live)
          else map_option (\<lambda>(fails, v). (v, if fails then live else insert nr live)) (win_alloc_gamepad cfg env (nr, i) metadata q v)
      | ((v, live), _) \<Rightarrow>
          (case pad_event cfg env op v of (nr, v') \<Rightarrow>
             Some (if nr \<notin> live then (v, live) else (v', case op of Pad_free _ \<Rightarrow> live - {nr} | _ \<Rightarrow> live))))"

fun pad_run :: "gamepad_config \<Rightarrow> ('f pad_env \<times> 'f pad_op) list \<Rightarrow> vigem \<times> nat set \<Rightarrow> (vigem \<times> nat set) option" where
  "pad_run cfg [] s = Some s"
| "pad_run cfg ((env, op) # ops) s = Option.bind (pad_step cfg env op s) (pad_run cfg ops)"

end
