(* ===== verification/Windows_Gamepad_Props.thy ===== *)
theory Windows_Gamepad_Props
  imports Windows_Gamepad
begin

text \<open>
  Facts about the virtual gamepads of Windows: calls of the driver only with a connection, feedback without repeats,
  the two fingers of the touch pad, the ranges of sticks and battery.
\<close>

section \<open>Updates of the state\<close>

lemma set_pad_simps [simp]:
  "vg_client (set_pad nr p v) = vg_client v" "vg_calls (set_pad nr p v) = vg_calls v" "vg_raised (set_pad nr p v) = vg_raised v"
  "vg_gamepads (set_pad nr p v) = (vg_gamepads v)[nr := p]"
  by (simp_all add: set_pad_def)

lemma vg_call_simps [simp]:
  "vg_client (vg_call c v) = vg_client v" "vg_calls (vg_call c v) = vg_calls v @ [(vg_client v, c)]"
  "vg_raised (vg_call c v) = vg_raised v" "vg_gamepads (vg_call c v) = vg_gamepads v" "vg_pad (vg_call c v) nr = vg_pad v nr"
  by (simp_all add: vg_call_def vg_pad_def)

lemma vg_raise_simps [simp]:
  "vg_client (vg_raise q m v) = vg_client v" "vg_calls (vg_raise q m v) = vg_calls v"
  "vg_raised (vg_raise q m v) = vg_raised v @ [(q, m)]" "vg_gamepads (vg_raise q m v) = vg_gamepads v"
  "vg_pad (vg_raise q m v) nr = vg_pad v nr"
  by (simp_all add: vg_raise_def vg_pad_def)

lemma vg_pad_set [simp]: "nr < length (vg_gamepads v) \<Longrightarrow> vg_pad (set_pad nr p v) nr = p"
  by (simp add: vg_pad_def)

section \<open>The connection\<close>

text \<open>A pad is updated, added or removed only with a connection, which is made only when there is none.\<close>

fun call_ok :: "bool \<times> vigem_call \<Rightarrow> bool" where
  "call_ok (conn, Vigem_connect) = (\<not> conn)"
| "call_ok (conn, Vigem_disconnect) = True"
| "call_ok (conn, c) = conn"

definition pad_ok :: "vigem_pad \<Rightarrow> bool" where
  "pad_ok p = (case vp_gp p of None \<Rightarrow> True | Some t \<Rightarrow> tg_ds4 t \<longleftrightarrow> is_ds4 (vp_report p))"

definition connection_ok :: "vigem \<Rightarrow> bool" where
  "connection_ok v \<longleftrightarrow> (list_ex pad_attached (vg_gamepads v) \<longrightarrow> vg_client v) \<and>
     list_all pad_ok (vg_gamepads v) \<and> list_all call_ok (vg_calls v)"

lemma list_ex_update: "list_ex P (xs[i := x]) \<Longrightarrow> P x \<or> list_ex P xs"
  using set_update_subset_insert [of xs i x] by (auto simp: list_ex_iff)

lemma list_all_update: "list_all P xs \<Longrightarrow> P x \<Longrightarrow> list_all P (xs[i := x])"
  using set_update_subset_insert [of xs i x] by (auto simp: list_all_iff)

lemma connection_set_pad:
  assumes "connection_ok v" "pad_ok p" "pad_attached p \<Longrightarrow> vg_client v"
  shows "connection_ok (set_pad nr p v)"
  using assms list_ex_update list_all_update unfolding connection_ok_def by (metis set_pad_simps(1,2,4))

lemma connection_call: "connection_ok v \<Longrightarrow> call_ok (vg_client v, c) \<Longrightarrow> connection_ok (vg_call c v)"
  by (simp add: connection_ok_def)

lemma connection_pad:
  assumes "connection_ok v" "nr < length (vg_gamepads v)"
  shows "pad_ok (vg_pad v nr)" "pad_attached (vg_pad v nr) \<Longrightarrow> vg_client v"
  using assms by (auto simp: connection_ok_def vg_pad_def list_all_length list_ex_length)

lemma report_call_ok: "call_ok (conn, report_call nr r) = conn"
  by (cases r) (simp_all add: report_call_def)

lemma on_ds4_kind: "is_ds4 (on_ds4 f x) \<longleftrightarrow> is_ds4 (x)"
  by (cases x) auto

lemma on_x360_kind: "is_ds4 (on_x360 f x) \<longleftrightarrow> is_ds4 (x)"
  by (cases x) auto

lemma pad_ok_kind:
  "vp_gp p' = vp_gp p \<Longrightarrow> is_ds4 (vp_report p') \<longleftrightarrow> is_ds4 (vp_report p) \<Longrightarrow> pad_ok p' = pad_ok p"
  by (simp add: pad_ok_def split: option.split)

lemma pad_attached_gp: "vp_gp p' = vp_gp p \<Longrightarrow> pad_attached p' = pad_attached p"
  by (simp add: pad_attached_def)

lemma connection_ds4_send:
  assumes "connection_ok v" "nr < length (vg_gamepads v)"
  shows "connection_ok (ds4_update_ts_and_send env nr v)"
proof -
  note p = connection_pad [OF assms]
  show ?thesis
    unfolding ds4_update_ts_and_send_def Let_def
    using p pad_attached_gp [of "(vg_pad v nr)\<lparr>vp_repeat_task := False\<rparr>" "vg_pad v nr"] assms(1)
    by (auto intro!: connection_set_pad connection_call simp: report_call_ok pad_attached_def pad_ok_def on_ds4_kind split: option.splits)
qed

lemma connection_event:
  assumes "connection_ok v" "nr < length (vg_gamepads v)"
    and "\<And>p p'. f p = Some p' \<Longrightarrow> vp_gp p' = vp_gp p \<and> (is_ds4 (vp_report p') \<longleftrightarrow> is_ds4 (vp_report p))"
  shows "connection_ok (ds4_event env nr f v)"
proof (cases "\<exists>p. f (vg_pad v nr) = Some p")
  case False
  then show ?thesis using assms(1) by (simp add: ds4_event_def split: option.split)
next
  case True
  then obtain p where p: "f (vg_pad v nr) = Some p" by blast
  note same = assms(3) [OF p]
  have "connection_ok (set_pad nr p v)"
    using connection_pad [OF assms(1,2)] pad_ok_kind [of p "vg_pad v nr"] pad_attached_gp [of p "vg_pad v nr"] same
    by (intro connection_set_pad [OF assms(1)]) simp_all
  then show ?thesis using connection_ds4_send [of "set_pad nr p v" nr env] assms(1,2) p
    by (simp add: ds4_event_def split: option.split)
qed

lemma on_touch_kind: "vp_gp (on_touch f p) = vp_gp p" "is_ds4 (vp_report (on_touch f p)) \<longleftrightarrow> is_ds4 (vp_report p)"
  by (simp_all add: on_touch_def on_ds4_kind)

lemma pad_finger_kind:
  "pad_finger ev i p = Some (k, p') \<Longrightarrow> vp_gp p' = vp_gp p \<and> (is_ds4 (vp_report p') \<longleftrightarrow> is_ds4 (vp_report p))"
  by (auto simp: pad_finger_def Let_def on_touch_kind split: if_splits option.splits)

lemma pad_touch_kind:
  "pad_touch env ev i x y p = Some p' \<Longrightarrow> vp_gp p' = vp_gp p \<and> (is_ds4 (vp_report p') \<longleftrightarrow> is_ds4 (vp_report p))"
  by (auto simp: pad_touch_def Let_def on_touch_kind dest!: pad_finger_kind split: option.splits prod.splits)

text \<open>Events leave the targets alone.\<close>

definition targets :: "vigem \<Rightarrow> vigem_target option list" where
  "targets v = map vp_gp (vg_gamepads v)"

lemma targets_simps [simp]:
  "targets (vg_call c v) = targets v" "targets (vg_raise q m v) = targets v" "targets (v\<lparr>vg_client := b\<rparr>) = targets v"
  "targets (set_pad nr p v) = (targets v)[nr := vp_gp p]" "length (targets v) = length (vg_gamepads v)"
  by (simp_all add: targets_def map_update)

lemma targets_pad: "nr < length (vg_gamepads v) \<Longrightarrow> targets v ! nr = vp_gp (vg_pad v nr)"
  by (simp add: targets_def vg_pad_def)

lemma targets_same: "nr < length (vg_gamepads v) \<Longrightarrow> vp_gp p = vp_gp (vg_pad v nr) \<Longrightarrow> targets (set_pad nr p v) = targets v"
  by (metis targets_simps(4) targets_pad list_update_id)

lemma targets_ds4_send: "nr < length (vg_gamepads v) \<Longrightarrow> targets (ds4_update_ts_and_send env nr v) = targets v"
  by (simp add: ds4_update_ts_and_send_def Let_def targets_same del: targets_simps(4))

lemma targets_event:
  assumes "nr < length (vg_gamepads v)" "\<And>p p'. f p = Some p' \<Longrightarrow> vp_gp p' = vp_gp p"
  shows "targets (ds4_event env nr f v) = targets v"
  using assms by (auto simp: ds4_event_def targets_ds4_send targets_same simp del: targets_simps(4) split: option.split)

lemma event_ok:
  assumes "connection_ok v" "nr < length (vg_gamepads v)"
    and "\<And>p p'. f p = Some p' \<Longrightarrow> vp_gp p' = vp_gp p \<and> (is_ds4 (vp_report p') \<longleftrightarrow> is_ds4 (vp_report p))"
  shows "connection_ok (ds4_event env nr f v) \<and> targets (ds4_event env nr f v) = targets v"
  using connection_event [OF assms] targets_event [OF assms(2), of f] assms(3) by blast

lemma events_ok:
  assumes "connection_ok v" "nr < length (vg_gamepads v)" "pad_attached (vg_pad v nr)" "pad_event cfg env op v = (nr, v')"
    and "\<nexists>k. op = Pad_free k"
  shows "connection_ok v' \<and> targets v' = targets v"
proof (cases op)
  case (Pad_update k gs)
  let ?p = "vg_pad v nr" and ?f = "\<lambda>g p. p\<lparr>vp_report := g (vp_report p)\<rparr>"
  note pad = connection_pad [OF assms(1,2)]
  have "connection_ok (set_pad nr (?f (on_x360 (x360_update_state gs)) ?p) v)"
    using pad by (intro connection_set_pad [OF assms(1)]) (simp_all add: pad_ok_def on_x360_kind pad_attached_def split: option.splits)
  moreover have "connection_ok (set_pad nr (?f (on_ds4 (ds4_update_state cfg gs)) ?p) v)"
    using pad by (intro connection_set_pad [OF assms(1)]) (simp_all add: pad_ok_def on_ds4_kind pad_attached_def split: option.splits)
  ultimately show ?thesis
    using assms Pad_update pad(2) connection_ds4_send [of _ nr env]
    by (auto simp: win_gamepad_update_def Let_def report_call_ok targets_ds4_send targets_same
        simp del: targets_simps(4) intro!: connection_call split: option.splits)
next
  case (Pad_touch k ev i x y)
  have "connection_ok (ds4_event env nr (pad_touch env ev i x y) v) \<and> targets (ds4_event env nr (pad_touch env ev i x y) v) = targets v"
    by (rule event_ok [OF assms(1,2)]) (rule pad_touch_kind)
  then show ?thesis using assms(4) Pad_touch by (auto simp: win_gamepad_touch_def)
next
  case (Pad_motion k t x y z)
  then show ?thesis
    using assms(4) by (auto simp: win_gamepad_motion_def on_ds4_kind intro!: event_ok [OF assms(1,2)])
next
  case (Pad_battery k st percentage)
  then show ?thesis
    using assms(4) by (auto simp: win_gamepad_battery_def on_ds4_kind intro!: event_ok [OF assms(1,2)])
next
  case (Pad_repeat k)
  then show ?thesis using assms(1,2,4) connection_ds4_send targets_ds4_send by auto
qed (use assms in auto)

lemma free_target_ok:
  assumes "connection_ok v" "nr < length (vg_gamepads v)"
  shows "connection_ok (free_target nr v)" "targets (free_target nr v) = (targets v)[nr := None]"
proof -
  let ?p = "(vg_pad v nr)\<lparr>vp_repeat_task := False, vp_gp := None\<rparr>"
  let ?v = "set_pad nr ?p (if pad_attached (vg_pad v nr) then vg_call (Vigem_remove nr) v else v)"
  have "connection_ok ?v"
    using assms connection_pad(2) [OF assms]
    by (intro connection_set_pad) (auto intro: connection_call simp: pad_ok_def pad_attached_def)
  then show "connection_ok (free_target nr v)"
    by (auto simp: free_target_def Let_def connection_ok_def)
  show "targets (free_target nr v) = (targets v)[nr := None]"
    by (simp add: free_target_def Let_def)
qed

lemma alloc_ok:
  assumes "connection_ok v" "nr < length (vg_gamepads v)" "alloc_gamepad_internal env (nr, i) q ds4 v = Some (fails, v')"
  shows "connection_ok v'" "\<exists>t. targets v' = (targets v)[nr := t] \<and>
    (if fails then (pe_adds env \<longrightarrow> t = None) else \<exists>t'. t = Some t' \<and> tg_attached t')"
proof -
  have free: "vp_gp (vg_pad v nr) = None" using assms(3) by (auto simp: alloc_gamepad_internal_def Let_def split: if_splits)
  let ?v1 = "if vg_client v then v else (vg_call Vigem_connect v)\<lparr>vg_client := pe_connects env\<rparr>"
  have same: "vg_gamepads ?v1 = vg_gamepads v" "targets ?v1 = targets v" by simp_all
  have none: "\<not> vg_client v \<Longrightarrow> \<not> list_ex pad_attached (vg_gamepads v)" using assms(1) by (simp add: connection_ok_def)
  have ok1: "connection_ok ?v1" using assms(1) none by (simp add: connection_ok_def)
  show "connection_ok v'"
  proof (cases "vg_client ?v1")
    case False
    then have v': "v' = set_pad nr ((vg_pad v nr)\<lparr>vp_client_relative_index := i, vp_last_report_ts := pe_now env\<rparr>) ?v1"
      using assms(3) free by (auto simp: alloc_gamepad_internal_def Let_def split: if_splits)
    show ?thesis unfolding v' by (intro connection_set_pad [OF ok1]) (simp_all add: pad_ok_def pad_attached_def free)
  next
    case True
    define raised where "raised v = (if ds4 then vg_raise q (set_motion_event_state (ucast i) 100 LI_MOTION_TYPE_GYRO)
      (vg_raise q (set_motion_event_state (ucast i) 100 LI_MOTION_TYPE_ACCEL) v) else v)" for v
    have r: "connection_ok (raised w) = connection_ok w" "vg_client (raised w) = vg_client w" for w
      by (simp_all add: raised_def connection_ok_def)
    have add: "connection_ok (vg_call (Vigem_add nr) (raised ?v1))"
      using ok1 True r by (intro connection_call) simp_all
    have "\<exists>p. v' = set_pad nr p (vg_call (Vigem_add nr) (raised ?v1)) \<and> pad_ok p"
      using assms(3) free True
      by (auto simp: alloc_gamepad_internal_def raised_def Let_def pad_ok_def split: if_splits)
    then obtain p where p: "v' = set_pad nr p (vg_call (Vigem_add nr) (raised ?v1))" "pad_ok p" by blast
    show ?thesis unfolding p(1) using True r by (intro connection_set_pad [OF add p(2)]) simp
  qed
  show "\<exists>t. targets v' = (targets v)[nr := t] \<and>
    (if fails then (pe_adds env \<longrightarrow> t = None) else \<exists>t'. t = Some t' \<and> tg_attached t')"
    using assms(3) free by (auto simp: alloc_gamepad_internal_def Let_def split: if_splits)
qed

definition run_ok :: "bool \<Rightarrow> vigem \<times> nat set \<Rightarrow> bool" where
  "run_ok adds s = (case s of (v, live) \<Rightarrow>
     connection_ok v \<and> length (vg_gamepads v) = MAX_GAMEPADS \<and>
     (\<forall>nr\<in>live. nr < MAX_GAMEPADS \<and> (\<exists>t. targets v ! nr = Some t \<and> tg_attached t)) \<and>
     (adds \<longrightarrow> (\<forall>nr<MAX_GAMEPADS. targets v ! nr \<noteq> None \<longrightarrow> nr \<in> live)))"

lemma targets_length: "targets v' = (targets v)[nr := t] \<Longrightarrow> length (vg_gamepads v') = length (vg_gamepads v)"
  by (metis length_list_update targets_simps(5))

lemma pad_step_ok:
  assumes "run_ok adds s" "pad_step cfg env op s = Some s'" "adds \<Longrightarrow> pe_adds env"
  shows "run_ok adds s'"
proof -
  obtain v live where s: "s = (v, live)" by fastforce
  have ok: "connection_ok v" "length (vg_gamepads v) = MAX_GAMEPADS" using assms(1) s by (simp_all add: run_ok_def)
  show ?thesis
  proof (cases "\<exists>nr i metadata q. op = Pad_alloc nr i metadata q")
    case True
    then obtain nr i metadata q where op: "op = Pad_alloc nr i metadata q" by blast
    show ?thesis
    proof (cases "MAX_GAMEPADS \<le> nr \<or> nr \<in> live")
      case True
      then show ?thesis using assms(1,2) s op by (simp add: pad_step_def)
    next
      case False
      then obtain fails v' where v': "win_alloc_gamepad cfg env (nr, i) metadata q v = Some (fails, v')"
        and s': "s' = (v', if fails then live else insert nr live)"
        using assms(2) s op by (auto simp: pad_step_def)
      have nr: "nr < length (vg_gamepads v)" using False ok by simp
      note alloc = alloc_ok [OF ok(1) nr v' [unfolded win_alloc_gamepad_def]]
      obtain t where t: "targets v' = (targets v)[nr := t]"
        "if fails then (pe_adds env \<longrightarrow> t = None) else \<exists>t'. t = Some t' \<and> tg_attached t'" using alloc(2) by blast
      have len: "length (vg_gamepads v') = MAX_GAMEPADS" using targets_length [OF t(1)] ok(2) by simp
      have tv: "targets v' ! k = (if k = nr then t else targets v ! k)" if "k < MAX_GAMEPADS" for k
        using t(1) nr that ok(2) by (simp add: nth_list_update)
      have live: "k < MAX_GAMEPADS \<and> (\<exists>t. targets v ! k = Some t \<and> tg_attached t)" if "k \<in> live" for k
        using assms(1) s that by (simp add: run_ok_def)
      have "\<forall>k\<in>snd s'. k < MAX_GAMEPADS \<and> (\<exists>t. targets v' ! k = Some t \<and> tg_attached t)"
        using live tv t(2) False s' by (auto split: if_splits)
      moreover have "targets v' ! k \<noteq> None \<longrightarrow> k \<in> snd s'" if "adds" "k < MAX_GAMEPADS" for k
        using assms(1,3) s that tv [OF that(2)] t(2) s' by (cases "k = nr") (auto simp: run_ok_def)
      ultimately show ?thesis using s' alloc(1) len by (simp add: run_ok_def)
    qed
  next
    case False
    obtain nr v' where e: "pad_event cfg env op v = (nr, v')" by fastforce
    have s': "s' = (if nr \<notin> live then (v, live) else (v', case op of Pad_free _ \<Rightarrow> live - {nr} | _ \<Rightarrow> live))"
      using assms(2) s e False by (cases op) (auto simp: pad_step_def)
    show ?thesis
    proof (cases "nr \<in> live")
      case False
      then show ?thesis using assms(1) s s' by simp
    next
      case True
      then obtain t where nr: "nr < length (vg_gamepads v)" and t: "targets v ! nr = Some t" "tg_attached t"
        using assms(1) s by (auto simp: run_ok_def)
      then have "pad_attached (vg_pad v nr)" using targets_pad [OF nr] by (simp add: pad_attached_def)
      show ?thesis
      proof (cases "\<exists>k. op = Pad_free k")
        case True
        then have "v' = free_target nr v" "s' = (v', live - {nr})" using e s' \<open>nr \<in> live\<close> by auto
        moreover have "targets (free_target nr v) ! k = (if k = nr then None else targets v ! k)" if "k < MAX_GAMEPADS" for k
          using free_target_ok(2) [OF ok(1) nr] that ok(2) by (simp add: nth_list_update)
        moreover have "length (vg_gamepads (free_target nr v)) = MAX_GAMEPADS"
          using targets_length [OF free_target_ok(2) [OF ok(1) nr]] ok(2) by simp
        ultimately show ?thesis
          using free_target_ok(1) [OF ok(1) nr] assms(1) s by (simp add: run_ok_def)
      next
        case no_free: False
        then have "s' = (v', live)" using s' \<open>nr \<in> live\<close> by (cases op) auto
        moreover have "connection_ok v'" "targets v' = targets v"
          using events_ok [OF ok(1) nr \<open>pad_attached (vg_pad v nr)\<close> e no_free] by simp_all
        ultimately show ?thesis using assms(1) s by (simp add: run_ok_def) (metis targets_simps(5))
      qed
    qed
  qed
qed

lemma pad_step_None:
  assumes "run_ok True s" "pad_step cfg env op s = None"
  shows False
proof -
  obtain v live nr i metadata q where s: "s = (v, live)" "op = Pad_alloc nr i metadata q" "nr < MAX_GAMEPADS" "nr \<notin> live"
    and none: "alloc_gamepad_internal env (nr, i) q (selected_ds4 cfg metadata) v = None"
    using assms(2) by (cases s; cases op) (auto simp: pad_step_def win_alloc_gamepad_def split: if_splits prod.splits)
  have "vp_gp (vg_pad v nr) \<noteq> None" using none by (auto simp: alloc_gamepad_internal_def Let_def split: if_splits)
  then show False using assms(1) s targets_pad [of nr v] by (simp add: run_ok_def)
qed

lemma pad_run_ok:
  assumes "run_ok adds s" "adds \<Longrightarrow> list_all (\<lambda>(env, op). pe_adds env) ops"
  shows "case pad_run cfg ops s of None \<Rightarrow> \<not> adds | Some s' \<Rightarrow> run_ok adds s'"
  using assms
proof (induction cfg ops s rule: pad_run.induct)
  case (2 cfg env op ops s)
  show ?case
  proof (cases "pad_step cfg env op s")
    case None
    then show ?thesis using pad_step_None [of s cfg env op] 2(2) by (cases adds) auto
  next
    case (Some s')
    then have "run_ok adds s'" using pad_step_ok [OF 2(2) Some] 2(3) by auto
    then show ?thesis using 2(1) [of s'] 2(3) Some by auto
  qed
qed simp

lemma new_vigem_ok: "run_ok adds (new_vigem, {})"
  by (simp add: run_ok_def connection_ok_def new_vigem_def targets_def new_vigem_pad_def pad_ok_def pad_attached_def list_ex_iff list_all_iff)

text \<open>
  C37. Whatever the input layer asks of the pads of Windows and whatever the driver answers, a pad is added, updated and
  removed only with a connection to the driver, and a connection is made only when there is none; and unless the
  driver refuses a pad, no pad is asked for in a place that is taken.
\<close>

theorem pads_keep_connection:
  "case pad_run cfg ops (new_vigem, {}) of
     None \<Rightarrow> list_ex (\<lambda>(env, op). \<not> pe_adds env) ops
   | Some (v, live) \<Rightarrow> list_all call_ok (vg_calls v) \<and> (list_ex pad_attached (vg_gamepads v) \<longrightarrow> vg_client v)"
proof -
  let ?adds = "list_all (\<lambda>(env, op). pe_adds env) ops"
  have "case pad_run cfg ops (new_vigem, {}) of None \<Rightarrow> \<not> ?adds | Some s' \<Rightarrow> run_ok ?adds s'"
    by (rule pad_run_ok [OF new_vigem_ok]) simp
  then show ?thesis
    by (auto simp: run_ok_def connection_ok_def list_all_iff list_ex_iff split: option.splits)
qed

section \<open>Feedback\<close>

text \<open>Rumble reports of one pad, as what its client gets: each value that differs from the one before.\<close>

fun rumbles :: "nat \<Rightarrow> (u8 \<times> u8) list \<Rightarrow> vigem \<Rightarrow> vigem option" where
  "rumbles target [] v = Some v"
| "rumbles target ((large, small) # rs) v = Option.bind (vigem_rumble target large small v) (rumbles target rs)"

definition motor16 :: "u8 \<times> u8 \<Rightarrow> u16 \<times> u16" where
  "motor16 r = (case r of (large, small) \<Rightarrow> (push_bit 8 (ucast large), push_bit 8 (ucast small)))"

lemma pad_of_target_set:
  assumes "pad_of_target target v = Some nr" "vp_gp p = vp_gp (vg_pad v nr)"
  shows "pad_of_target target (set_pad nr p v) = Some nr"
proof -
  have "vp_gp (vg_pad (set_pad nr p v) k) = vp_gp (vg_pad v k)" for k
    using assms(2) by (cases "nr < length (vg_gamepads v)") (simp_all add: vg_pad_def nth_list_update list_update_beyond)
  then show ?thesis using assms(1) by (simp add: pad_of_target_def)
qed

lemma rumbles_sent:
  assumes "pad_of_target target v = Some nr" "vp_feedback_queue (vg_pad v nr) = Some q" "vp_client_relative_index (vg_pad v nr) = i"
  shows "\<exists>v'. rumbles target rs v = Some v' \<and>
    vg_raised v' = vg_raised v @ map (\<lambda>(large, small). (q, rumble (ucast i) large small))
      (tl (remdups_adj (vp_last_rumble (vg_pad v nr) # map motor16 rs)))"
  using assms
proof (induction rs arbitrary: v)
  case (Cons r rs)
  obtain large small where r: "r = (large, small)" by fastforce
  let ?m = "motor16 r" and ?p = "vg_pad v nr"
  have nr: "nr < length (vg_gamepads v)" using Cons(2) by (auto simp: pad_of_target_def find_Some_iff)
  show ?case
  proof (cases "vp_last_rumble ?p = ?m")
    case True
    then have "vigem_rumble target large small v = Some v" using Cons(2) by (simp add: vigem_rumble_def r motor16_def)
    moreover obtain v' where "rumbles target rs v = Some v'" "vg_raised v' = vg_raised v @
        map (\<lambda>(large, small). (q, rumble (ucast i) large small)) (tl (remdups_adj (vp_last_rumble ?p # map motor16 rs)))"
      using Cons(1) [OF Cons(2-4)] by blast
    moreover have "remdups_adj (vp_last_rumble ?p # map motor16 (r # rs)) = remdups_adj (vp_last_rumble ?p # map motor16 rs)"
      using True by simp
    ultimately show ?thesis using r by simp
  next
    case False
    let ?v = "set_pad nr (?p\<lparr>vp_last_rumble := ?m\<rparr>) (vg_raise q (rumble (ucast i) (fst ?m) (snd ?m)) v)"
    have step: "vigem_rumble target large small v = Some ?v"
      using Cons(2,3,4) False by (simp add: vigem_rumble_def r motor16_def raise_feedback_def Let_def)
    have same: "pad_of_target target (vg_raise q m v) = Some nr" for m using Cons(2) by (simp add: pad_of_target_def)
    have "pad_of_target target ?v = Some nr" by (rule pad_of_target_set [OF same]) simp
    moreover have pad: "vg_pad ?v nr = ?p\<lparr>vp_last_rumble := ?m\<rparr>" using nr by simp
    ultimately obtain v' where v': "rumbles target rs ?v = Some v'"
      "vg_raised v' = vg_raised ?v @ map (\<lambda>(large, small). (q, rumble (ucast i) large small)) (tl (remdups_adj (?m # map motor16 rs)))"
      using Cons(1) [of ?v] Cons(3,4) by auto
    have "remdups_adj (vp_last_rumble ?p # map motor16 (r # rs)) = vp_last_rumble ?p # remdups_adj (?m # map motor16 rs)"
      using False by simp
    moreover obtain xs where "remdups_adj (?m # map motor16 rs) = ?m # xs" by (metis remdups_adj_Cons_alt)
    ultimately show ?thesis using v' step r by (simp add: case_prod_unfold)
  qed
qed simp

lemma alloc_pad:
  assumes "alloc_gamepad_internal env (nr, i) q ds4 v = Some (False, v')" "nr < length (vg_gamepads v)"
  shows "vp_gp (vg_pad v' nr) = Some \<lparr>tg_ds4 = ds4, tg_attached = True, tg_address = pe_address env\<rparr>"
    "vp_feedback_queue (vg_pad v' nr) = Some q" "vp_client_relative_index (vg_pad v' nr) = i"
    "vp_last_rumble (vg_pad v' nr) = vp_last_rumble (vg_pad v nr)"
    "\<exists>p. vg_gamepads v' = (vg_gamepads v)[nr := p]"
  using assms by (auto simp: alloc_gamepad_internal_def Let_def split: if_splits)

lemma alloc_target:
  assumes "alloc_gamepad_internal env (nr, i) q ds4 v = Some (False, v')" "nr < length (vg_gamepads v)"
    and "list_all (\<lambda>p. case vp_gp p of None \<Rightarrow> True | Some t \<Rightarrow> tg_address t \<noteq> pe_address env) (vg_gamepads v)"
  shows "pad_of_target (pe_address env) v' = Some nr"
proof -
  obtain p where p: "vg_gamepads v' = (vg_gamepads v)[nr := p]" using alloc_pad(5) [OF assms(1,2)] by blast
  have other: "vg_pad v' k = vg_pad v k" if "k \<noteq> nr" for k using p that by (simp add: vg_pad_def)
  have "\<not> (case vp_gp (vg_pad v' k) of Some t \<Rightarrow> tg_address t = pe_address env | None \<Rightarrow> False)" if "k < nr" for k
    using less_trans [OF that assms(2)] assms(3) other [of k] that
    by (cases "vp_gp (vg_pad v k)") (auto simp: list_all_length vg_pad_def)
  then show ?thesis
    using assms(2) p alloc_pad(1) [OF assms(1,2)] by (auto simp: pad_of_target_def find_Some_iff intro!: exI [of _ nr])
qed

text \<open>
  C38. The client of a pad gets the rumble values the driver reports without repeats, in order; the first value is left
  out too when it is the last one of the pad that was in the same place before.
\<close>

theorem rumble_without_repeats:
  assumes "alloc_gamepad_internal env (nr, i) q ds4 v = Some (False, v1)" "nr < length (vg_gamepads v)"
    and "list_all (\<lambda>p. case vp_gp p of None \<Rightarrow> True | Some t \<Rightarrow> tg_address t \<noteq> pe_address env) (vg_gamepads v)"
  shows "\<exists>v2. rumbles (pe_address env) rs v1 = Some v2 \<and>
    vg_raised v2 = vg_raised v1 @ map (\<lambda>(large, small). (q, rumble (ucast i) large small))
      (tl (remdups_adj (vp_last_rumble (vg_pad v nr) # map motor16 rs)))"
  using rumbles_sent [OF alloc_target [OF assms] alloc_pad(2,3) [OF assms(1,2)], of rs] alloc_pad(4) [OF assms(1,2)] by simp

definition sample_pads :: "int pad_env" where
  "sample_pads = \<lparr>pe_connects = True, pe_adds = True, pe_updates = True, pe_now = 0, pe_address = 7,
     pe_float = \<lparr>fl_of_int = id, fl_of_bits = (\<lambda>_. 0), fl_to_int = id, fl_add = (+), fl_sub = (-),
       fl_mul = (*), fl_div = (div), fl_less = (<), fl_eq = (=), fl_angle = (\<lambda>_. 0),
       fl_add_half_pi = id, fl_cos = id, fl_sin = id, fl_hypot = (+)\<rparr>, pe_lit = floor\<rparr>"

theorem rumble_without_repeats_witness:
  "\<exists>v1 v2. alloc_gamepad_internal sample_pads (2, 1) 5 False new_vigem = Some (False, v1) \<and>
     rumbles 7 [(0, 0), (1, 2), (1, 2), (0, 0)] v1 = Some v2 \<and>
     vg_raised v2 = [(5, rumble 1 0x100 0x200), (5, rumble 1 0 0)]"
proof -
  obtain v1 where v1: "alloc_gamepad_internal sample_pads (2, 1) 5 False new_vigem = Some (False, v1)" "vg_raised v1 = []"
    by (auto simp: alloc_gamepad_internal_def sample_pads_def new_vigem_def new_vigem_pad_def vg_pad_def MAX_GAMEPADS_def Let_def)
  have "(2 :: nat) < length (vg_gamepads new_vigem)" by (simp add: new_vigem_def MAX_GAMEPADS_def)
  moreover have "list_all (\<lambda>p. case vp_gp p of None \<Rightarrow> True | Some t \<Rightarrow> tg_address t \<noteq> pe_address sample_pads) (vg_gamepads new_vigem)"
    by (simp add: new_vigem_def new_vigem_pad_def list_all_iff)
  ultimately obtain v2 where "rumbles (pe_address sample_pads) [(0, 0), (1, 2), (1, 2), (0, 0)] v1 = Some v2"
    "vg_raised v2 = vg_raised v1 @ map (\<lambda>(large, small). (5, rumble (ucast (1 :: u8)) large small))
      (tl (remdups_adj (vp_last_rumble (vg_pad new_vigem 2) # map motor16 [(0, 0), (1, 2), (1, 2), (0, 0)])))"
    using rumble_without_repeats [OF v1(1)] by blast
  then show ?thesis
    using v1 by (simp add: sample_pads_def motor16_def new_vigem_def new_vigem_pad_def vg_pad_def MAX_GAMEPADS_def push_bit_eq_mult)
qed


definition sample_pad_config :: gamepad_config where
  "sample_pad_config = \<lparr>gc_gamepad = ''auto'', gc_motion_as_ds4 = True, gc_touchpad_as_ds4 = True, gc_ds4_back_as_touchpad_click = False\<rparr>"

definition sample_pad_ops :: "(int pad_env \<times> int pad_op) list" where
  "sample_pad_ops = [(sample_pads, Pad_alloc 2 1 \<lparr>ga_type = LI_CTYPE_PS, ga_capabilities = 0, ga_supportedButtons = 0\<rparr> 5),
     (sample_pads, Pad_touch 2 LI_TOUCH_EVENT_DOWN 9 0 0), (sample_pads, Pad_update 2 gamepad_state_zero), (sample_pads, Pad_free 2)]"

theorem pads_keep_connection_witness:
  "\<exists>v live. pad_run sample_pad_config sample_pad_ops (new_vigem, {}) = Some (v, live) \<and> list_all call_ok (vg_calls v)"
proof (cases "pad_run sample_pad_config sample_pad_ops (new_vigem, {})")
  case None
  then have "list_ex (\<lambda>(env, op). \<not> pe_adds env) sample_pad_ops"
    using pads_keep_connection [where cfg = sample_pad_config and ops = sample_pad_ops] by simp
  then show ?thesis by (simp add: sample_pad_ops_def sample_pads_def)
next
  case (Some s)
  then show ?thesis using pads_keep_connection [where cfg = sample_pad_config and ops = sample_pad_ops] by (cases s) simp
qed

section \<open>The touch pad\<close>

text \<open>The two fingers: those with a number, and the numbers that are left.\<close>

definition finger_slots :: "(u32 \<rightharpoonup> nat) \<Rightarrow> u8 \<Rightarrow> bool" where
  "finger_slots m free \<longleftrightarrow> inj_on m (dom m) \<and> ran m \<subseteq> {0, 1} \<and>
     free = (if 0 \<in> ran m then 0 else 1) OR (if 1 \<in> ran m then 0 else 2)"

definition fingers_ok :: "vigem_pad \<Rightarrow> bool" where
  "fingers_ok p \<longleftrightarrow> finger_slots (vp_pointer_id_map p) (vp_available_pointers p)"

lemma fingers_ok_set: "fingers_ok (p\<lparr>vp_pointer_id_map := m, vp_available_pointers := free\<rparr>) = finger_slots m free"
  by (simp add: fingers_ok_def)

lemma available_bits:
  "((if a then 0 else 1) OR (if b then 0 else 2)) AND (1 :: u8) \<noteq> 0 \<longleftrightarrow> \<not> a"
  "((if a then 0 else 1) OR (if b then 0 else 2)) AND (2 :: u8) \<noteq> 0 \<longleftrightarrow> \<not> b"
  "((if a then 0 else 1) OR (if b then 0 else 2)) AND NOT (1 :: u8) = (if b then 0 else 2)"
  "((if a then 0 else 1) OR (if b then 0 else 2)) AND NOT (2 :: u8) = (if a then 0 else 1)"
  "((if a then 0 else 1) OR (if b then 0 else 2)) OR (1 :: u8) = 1 OR (if b then 0 else 2)"
  "((if a then 0 else 1) OR (if b then 0 else 2)) OR (2 :: u8) = (if a then 0 else 1) OR 2"
  by (cases a; cases b; simp)+

lemma on_touch_map: "vp_pointer_id_map (on_touch f p) = vp_pointer_id_map p" "vp_available_pointers (on_touch f p) = vp_available_pointers p"
  by (simp_all add: on_touch_def)

lemma fingers_ok_touch: "fingers_ok (on_touch f p) = fingers_ok p"
  by (simp add: fingers_ok_def on_touch_map)

lemma inj_map_upd: "inj_on m (dom m) \<Longrightarrow> i \<notin> ran m \<Longrightarrow> inj_on (m(k \<mapsto> i)) (dom (m(k \<mapsto> i)))"
  by (auto simp: inj_on_def ran_def split: if_splits)

lemma inj_map_del: "inj_on m (dom m) \<Longrightarrow> inj_on (m(k := None)) (dom (m(k := None)))"
  by (auto simp: inj_on_def)

lemma ran_del: "inj_on m (dom m) \<Longrightarrow> m k = Some i \<Longrightarrow> ran (m(k := None)) = ran m - {i}"
  by (auto simp: ran_def inj_on_def dom_def) (metis option.inject)

lemma ran_new: "k \<notin> dom m \<Longrightarrow> ran (m(k \<mapsto> i)) = insert i (ran m)"
  by (simp add: domIff)

lemma pad_finger_ok:
  assumes "fingers_ok p" "pad_finger ev k p = Some (f, p')" "ev = LI_TOUCH_EVENT_DOWN \<Longrightarrow> k \<notin> dom (vp_pointer_id_map p)"
  shows "fingers_ok p'"
proof -
  let ?m = "vp_pointer_id_map p"
  have inj: "inj_on ?m (dom ?m)" and ran: "ran ?m \<subseteq> {0, 1}"
    and free: "vp_available_pointers p = (if 0 \<in> ran ?m then 0 else 1) OR (if 1 \<in> ran ?m then 0 else 2)"
    using assms(1) by (simp_all add: fingers_ok_def finger_slots_def)
  consider (down) "ev = LI_TOUCH_EVENT_DOWN" | (all) "ev = LI_TOUCH_EVENT_CANCEL_ALL" "ev \<noteq> LI_TOUCH_EVENT_DOWN"
    | (up) "ev = LI_TOUCH_EVENT_UP \<or> ev = LI_TOUCH_EVENT_CANCEL" "ev \<noteq> LI_TOUCH_EVENT_DOWN" "ev \<noteq> LI_TOUCH_EVENT_CANCEL_ALL"
    | (rest) "ev \<notin> {LI_TOUCH_EVENT_DOWN, LI_TOUCH_EVENT_CANCEL_ALL, LI_TOUCH_EVENT_UP, LI_TOUCH_EVENT_CANCEL}" by blast
  then show ?thesis
  proof cases
    case down
    then have new: "k \<notin> dom ?m" using assms(3) by blast
    have taken: "fingers_ok (p\<lparr>vp_pointer_id_map := ?m(k \<mapsto> i), vp_available_pointers := vp_available_pointers p AND NOT (push_bit i 1)\<rparr>)"
      if "i \<in> {0, 1}" "i \<notin> ran ?m" for i
    proof -
      have r: "ran (?m(k \<mapsto> i)) = insert i (ran ?m)" by (rule ran_new [OF new])
      have "vp_available_pointers p AND NOT (push_bit i 1) =
          (if 0 \<in> insert i (ran ?m) then 0 else 1) OR (if 1 \<in> insert i (ran ?m) then 0 else 2)"
        unfolding free using that by (cases "i = 0"; cases "0 \<in> ran ?m"; cases "1 \<in> ran ?m") (simp_all add: push_bit_eq_mult)
      moreover have "inj_on (?m(k \<mapsto> i)) (dom (?m(k \<mapsto> i)))" by (rule inj_map_upd [OF inj that(2)])
      moreover have "insert i (ran ?m) \<subseteq> {0, 1}" using ran that(1) by blast
      ultimately show ?thesis unfolding fingers_ok_set finger_slots_def r by blast
    qed
    have "vp_available_pointers p AND 1 \<noteq> 0 \<longleftrightarrow> 0 \<notin> ran ?m" "vp_available_pointers p AND 2 \<noteq> 0 \<longleftrightarrow> 1 \<notin> ran ?m"
      unfolding free by (rule available_bits)+
    moreover define i :: nat where "i = (if 0 \<in> ran ?m then 1 else 0)"
    ultimately have "i \<in> {0, 1}" "i \<notin> ran ?m"
      "p' = on_touch (set_down i) (p\<lparr>vp_pointer_id_map := ?m(k \<mapsto> i), vp_available_pointers := vp_available_pointers p AND NOT (push_bit i 1)\<rparr>)"
      using assms(2) down unfolding pad_finger_def Let_def by (auto split: if_splits)
    then show ?thesis using taken [of i] by (simp add: fingers_ok_touch)
  next
    case all
    then have "p' = on_touch (set_up 0 \<circ> set_up 1) (p\<lparr>vp_pointer_id_map := Map.empty, vp_available_pointers := 0x3\<rparr>)"
      using assms(2) by (simp add: pad_finger_def)
    then show ?thesis by (simp add: fingers_ok_touch fingers_ok_set finger_slots_def)
  next
    case up
    then obtain i where i: "?m k = Some i"
      "p' = on_touch (set_up i) (p\<lparr>vp_pointer_id_map := ?m(k := None), vp_available_pointers := vp_available_pointers p OR push_bit i 1\<rparr>)"
      using assms(2) by (auto simp: pad_finger_def split: option.splits)
    have "i \<in> {0, 1}" using i(1) ran by (auto intro: ranI)
    then show ?thesis
    proof -
      have r: "ran (?m(k := None)) = ran ?m - {i}" by (rule ran_del [OF inj i(1)])
      have "vp_available_pointers p OR push_bit i 1 =
          (if 0 \<in> ran ?m - {i} then 0 else 1) OR (if 1 \<in> ran ?m - {i} then 0 else 2)"
        unfolding free using \<open>i \<in> {0, 1}\<close> by (cases "i = 0"; cases "0 \<in> ran ?m"; cases "1 \<in> ran ?m") (simp_all add: push_bit_eq_mult)
      moreover have "inj_on (?m(k := None)) (dom (?m(k := None)))" by (rule inj_map_del [OF inj])
      moreover have "ran ?m - {i} \<subseteq> {0, 1}" using ran by blast
      ultimately show ?thesis unfolding i(2) fingers_ok_touch fingers_ok_set finger_slots_def r by blast
    qed
  next
    case rest
    then show ?thesis using assms(1,2) by (auto simp: pad_finger_def split: option.splits if_splits)
  qed
qed

text \<open>A new pointer is refused only when both fingers are down.\<close>

lemma pad_finger_refused:
  assumes "fingers_ok p" "pad_finger LI_TOUCH_EVENT_DOWN k p = None"
  shows "ran (vp_pointer_id_map p) = {0, 1}"
proof -
  have free: "vp_available_pointers p = (if 0 \<in> ran (vp_pointer_id_map p) then 0 else 1) OR (if 1 \<in> ran (vp_pointer_id_map p) then 0 else 2)"
    and ran: "ran (vp_pointer_id_map p) \<subseteq> {0, 1}"
    using assms(1) by (simp_all add: fingers_ok_def finger_slots_def)
  have "vp_available_pointers p AND 1 \<noteq> 0 \<longleftrightarrow> 0 \<notin> ran (vp_pointer_id_map p)"
    "vp_available_pointers p AND 2 \<noteq> 0 \<longleftrightarrow> 1 \<notin> ran (vp_pointer_id_map p)"
    unfolding free by (rule available_bits)+
  then show ?thesis using assms(2) ran by (auto simp: pad_finger_def Let_def split: if_splits)
qed

text \<open>A repeated press takes a second finger, and one of them stays taken.\<close>

lemma repeated_down_leaks:
  "\<exists>p. fingers_ok p \<and> (\<exists>f1 p1 f2 p2 f3 p3. pad_finger LI_TOUCH_EVENT_DOWN 4 p = Some (f1, p1) \<and>
     pad_finger LI_TOUCH_EVENT_DOWN 4 p1 = Some (f2, p2) \<and> pad_finger LI_TOUCH_EVENT_UP 4 p2 = Some (f3, p3) \<and>
     vp_pointer_id_map p3 = Map.empty \<and> vp_available_pointers p3 = 2)"
  by (rule exI [of _ "new_vigem_pad\<lparr>vp_available_pointers := 3\<rparr>"])
    (auto simp: fingers_ok_def finger_slots_def new_vigem_pad_def pad_finger_def touch_events on_touch_def)

text \<open>
  What the fingers do, by the pointers of the client alone: who owns a finger, which are held, and how often each went
  down. A pointer that goes down gets the lower finger that is free.
\<close>

type_synonym pad_fingers = "(u32 \<rightharpoonup> nat) \<times> nat set \<times> (nat \<Rightarrow> nat)"

definition no_fingers :: pad_fingers where
  "no_fingers = (Map.empty, {}, \<lambda>_. 0)"

definition pad_finger_event :: "'f pad_op \<Rightarrow> pad_fingers \<Rightarrow> pad_fingers" where
  "pad_finger_event op fs =
     (case (op, fs) of
        (Pad_touch nr ev k x y, owner, held, downs) \<Rightarrow>
          if ev = LI_TOUCH_EVENT_DOWN then
            (case find (\<lambda>i. i \<notin> held) [0, 1] of
               None \<Rightarrow> fs
             | Some i \<Rightarrow> (owner(k \<mapsto> i), insert i held, downs(i := downs i + 1)))
          else if ev = LI_TOUCH_EVENT_CANCEL_ALL then (Map.empty, {}, downs)
          else if ev = LI_TOUCH_EVENT_UP \<or> ev = LI_TOUCH_EVENT_CANCEL then
            (case owner k of None \<Rightarrow> fs | Some i \<Rightarrow> (owner(k := None), held - {i}, downs))
          else fs
      | _ \<Rightarrow> fs)"

definition finger_run :: "('f pad_env \<times> 'f pad_op) list \<Rightarrow> pad_fingers \<Rightarrow> pad_fingers" where
  "finger_run ops = fold (\<lambda>(env, op). pad_finger_event op) ops"

text \<open>The events of a pad between its arrival and its removal, as the code takes them.\<close>

definition of_pad :: "nat \<Rightarrow> 'f pad_op \<Rightarrow> bool" where
  "of_pad nr op \<longleftrightarrow> (case op of Pad_update k _ \<Rightarrow> k = nr | Pad_touch k _ _ _ _ \<Rightarrow> k = nr | Pad_motion k _ _ _ _ \<Rightarrow> k = nr
     | Pad_battery k _ _ \<Rightarrow> k = nr | Pad_repeat k \<Rightarrow> k = nr | _ \<Rightarrow> False)"

definition pad_events :: "gamepad_config \<Rightarrow> ('f pad_env \<times> 'f pad_op) list \<Rightarrow> vigem \<Rightarrow> vigem" where
  "pad_events cfg ops v = fold (\<lambda>(env, op) v. snd (pad_event cfg env op v)) ops v"

text \<open>A finger's byte in a report, and whether it says that the finger is up.\<close>

definition tracking_byte :: "nat \<Rightarrow> ds4_report \<Rightarrow> u8" where
  "tracking_byte i r = (if i = 0 then dt_isUpTrackingNum1 (d4_currentTouch r) else dt_isUpTrackingNum2 (d4_currentTouch r))"

definition says_up :: "nat \<Rightarrow> ds4_report \<Rightarrow> bool" where
  "says_up i r \<longleftrightarrow> tracking_byte i r AND 0x80 \<noteq> 0"

text \<open>A byte after \<open>n\<close> touches.\<close>

definition tracks :: "u8 \<Rightarrow> nat \<Rightarrow> bool \<Rightarrow> bool" where
  "tracks b n down \<longleftrightarrow> b AND NOT 0x80 = of_nat (n mod 128) \<and> (b AND 0x80 \<noteq> 0 \<longleftrightarrow> \<not> down \<or> n mod 128 = 0)"

lemma number_down:
  "m < 128 \<Longrightarrow> ((of_nat m + 1) :: u8) AND NOT 0x80 = of_nat (Suc m mod 128) \<and>
     (((of_nat m + 1) :: u8) AND 0x80 \<noteq> 0 \<longleftrightarrow> Suc m mod 128 = 0)"
proof -
  assume "m < 128"
  moreover have "list_all (\<lambda>m. ((of_nat m + 1) :: u8) AND NOT 0x80 = of_nat (Suc m mod 128) \<and>
     (((of_nat m + 1) :: u8) AND 0x80 \<noteq> 0 \<longleftrightarrow> Suc m mod 128 = 0)) [0..<128]"
    by code_simp
  ultimately show ?thesis by (simp add: list_all_iff)
qed

lemma tracks_down: "tracks b n d \<Longrightarrow> tracks ((b AND NOT 0x80) + 1) (Suc n) True"
  using number_down [of "n mod 128"] by (simp add: tracks_def mod_Suc_eq)

lemma tracks_up: "tracks b n d \<Longrightarrow> tracks (b OR 0x80) n False"
proof -
  assume "tracks b n d"
  moreover have "(b OR 0x80) AND NOT 0x80 = b AND NOT 0x80" "(b OR 0x80) AND 0x80 = (0x80 :: u8)"
    by (simp only: bit.conj_disj_distrib2) (simp_all add: word_ao_absorbs)
  ultimately show ?thesis by (simp add: tracks_def)
qed

definition fingers_are :: "pad_fingers \<Rightarrow> vigem_pad \<Rightarrow> bool" where
  "fingers_are fs p \<longleftrightarrow>
     (case fs of (owner, held, downs) \<Rightarrow>
        pad_attached p \<and> map_option tg_ds4 (vp_gp p) = Some True \<and> vp_pointer_id_map p = owner \<and> ran owner \<subseteq> {0, 1} \<and> held \<subseteq> {0, 1} \<and>
        vp_available_pointers p = (if 0 \<in> held then 0 else 1) OR (if 1 \<in> held then 0 else 2) \<and>
        (\<exists>r. vp_report p = Report_ds4 r \<and> (\<forall>i\<in>{0, 1}. tracks (tracking_byte i r) (downs i) (i \<in> held))))"

lemma fingers_are_report:
  assumes "fingers_are fs p" "\<And>r. d4_currentTouch (f r) = d4_currentTouch r"
  shows "fingers_are fs (p\<lparr>vp_report := on_ds4 f (vp_report p)\<rparr>)"
  using assms by (auto simp: fingers_are_def tracking_byte_def pad_attached_def split: prod.splits)

lemma pad_of_set: "nr < length (vg_gamepads v) \<Longrightarrow> vg_pad (set_pad nr p v) nr = p"
  by (simp add: vg_pad_def set_pad_def)

lemma ds4_send_fingers:
  assumes "fingers_are fs (vg_pad v nr)" "nr < length (vg_gamepads v)"
  shows "fingers_are fs (vg_pad (ds4_update_ts_and_send env nr v) nr)"
    "\<exists>r. vp_report (vg_pad (ds4_update_ts_and_send env nr v) nr) = Report_ds4 r \<and>
       map snd (vg_calls (ds4_update_ts_and_send env nr v)) = map snd (vg_calls v) @ [Vigem_ds4_update nr r]"
proof -
  have a: "pad_attached (vg_pad v nr)" using assms(1) by (auto simp: fingers_are_def)
  let ?f = "\<lambda>r. r\<lparr>d4_timestamp := d4_timestamp r + word_of_int (c_div (pe_now env - vp_last_report_ts (vg_pad v nr)) 5333)\<rparr>"
  have "fingers_are fs ((vg_pad v nr)\<lparr>vp_report := on_ds4 ?f (vp_report (vg_pad v nr))\<rparr>)"
    by (rule fingers_are_report [OF assms(1)]) simp
  then have s: "fingers_are fs ((vg_pad v nr)\<lparr>vp_repeat_task := False, vp_report := on_ds4 ?f (vp_report (vg_pad v nr))\<rparr>)"
    by (auto simp: fingers_are_def pad_attached_def split: prod.splits)
  then show "fingers_are fs (vg_pad (ds4_update_ts_and_send env nr v) nr)"
    using a assms(2) by (auto simp: ds4_update_ts_and_send_def Let_def pad_of_set pad_attached_def fingers_are_def split: prod.splits)
  obtain r where "vp_report (vg_pad v nr) = Report_ds4 r" using assms(1) by (auto simp: fingers_are_def)
  then show "\<exists>r. vp_report (vg_pad (ds4_update_ts_and_send env nr v) nr) = Report_ds4 r \<and>
       map snd (vg_calls (ds4_update_ts_and_send env nr v)) = map snd (vg_calls v) @ [Vigem_ds4_update nr r]"
    using a assms(2) by (auto simp: ds4_update_ts_and_send_def Let_def pad_of_set pad_attached_def report_call_def)
qed

lemma sends_length [simp]: "length (vg_gamepads (ds4_update_ts_and_send env nr v)) = length (vg_gamepads v)"
  by (simp add: ds4_update_ts_and_send_def Let_def set_pad_def vg_call_def)

lemma pad_finger_are:
  assumes "fingers_are fs p"
  shows "case pad_finger ev k p of
      None \<Rightarrow> pad_finger_event (Pad_touch nr ev k x y) fs = fs
    | Some (f, p') \<Rightarrow> fingers_are (pad_finger_event (Pad_touch nr ev k x y) fs) p'"
proof -
  obtain owner held downs where fs: "fs = (owner, held, downs)" by (cases fs) auto
  obtain r where r: "vp_report p = Report_ds4 r" "\<forall>i\<in>{0, 1}. tracks (tracking_byte i r) (downs i) (i \<in> held)"
    and p: "pad_attached p" "map_option tg_ds4 (vp_gp p) = Some True" "vp_pointer_id_map p = owner" "ran owner \<subseteq> {0, 1}" "held \<subseteq> {0, 1}"
    and free: "vp_available_pointers p = (if 0 \<in> held then 0 else 1) OR (if 1 \<in> held then 0 else 2)"
    using assms by (auto simp: fingers_are_def fs)
  have bits: "vp_available_pointers p AND 1 \<noteq> 0 \<longleftrightarrow> 0 \<notin> held" "vp_available_pointers p AND 2 \<noteq> 0 \<longleftrightarrow> 1 \<notin> held"
    unfolding free by (rule available_bits)+
  consider (down) "ev = LI_TOUCH_EVENT_DOWN" | (all) "ev = LI_TOUCH_EVENT_CANCEL_ALL" "ev \<noteq> LI_TOUCH_EVENT_DOWN"
    | (up) "ev = LI_TOUCH_EVENT_UP \<or> ev = LI_TOUCH_EVENT_CANCEL" "ev \<noteq> LI_TOUCH_EVENT_DOWN" "ev \<noteq> LI_TOUCH_EVENT_CANCEL_ALL"
    | (rest) "ev \<notin> {LI_TOUCH_EVENT_DOWN, LI_TOUCH_EVENT_CANCEL_ALL, LI_TOUCH_EVENT_UP, LI_TOUCH_EVENT_CANCEL}" by blast
  then show ?thesis
  proof cases
    case down
    have taken: "fingers_are (owner(k \<mapsto> i), insert i held, downs(i := downs i + 1))
        (on_touch (set_down i) (p\<lparr>vp_pointer_id_map := owner(k \<mapsto> i), vp_available_pointers := vp_available_pointers p AND NOT (push_bit i 1)\<rparr>))"
      if i: "i \<in> {0, 1}" "i \<notin> held" for i
    proof -
      have "vp_available_pointers p AND NOT (push_bit i 1) =
          (if 0 \<in> insert i held then 0 else 1) OR (if 1 \<in> insert i held then 0 else 2)"
        unfolding free using i by (cases "i = 0"; cases "0 \<in> held"; cases "1 \<in> held") (simp_all add: push_bit_eq_mult)
      moreover have "ran (owner(k \<mapsto> i)) \<subseteq> {0, 1}" using p(4) i(1) by (auto simp: ran_def split: if_splits)
      moreover have "\<forall>j\<in>{0, 1}. tracks (tracking_byte j (r\<lparr>d4_currentTouch := set_down i (d4_currentTouch r)\<rparr>))
          ((downs(i := downs i + 1)) j) (j \<in> insert i held)"
        using r(2) i by (auto simp: tracking_byte_def set_down_def intro: tracks_down [simplified])
      ultimately show ?thesis
        using p i r(1) by (simp add: fingers_are_def on_touch_def pad_attached_def)
    qed
    show ?thesis
      using taken [of 0] taken [of 1] bits p(3) down by (simp add: pad_finger_def pad_finger_event_def fs Let_def)
  next
    case all
    have "\<forall>j\<in>{0, 1}. tracks (tracking_byte j (r\<lparr>d4_currentTouch := set_up 0 (set_up 1 (d4_currentTouch r))\<rparr>)) (downs j) False"
      using r(2) by (auto simp: tracking_byte_def set_up_def intro: tracks_up)
    then show ?thesis using all p r(1)
      by (simp add: pad_finger_def pad_finger_event_def fs fingers_are_def on_touch_def pad_attached_def)
  next
    case up
    show ?thesis
    proof (cases "owner k")
      case None
      then show ?thesis using up p(3) by (simp add: pad_finger_def pad_finger_event_def fs)
    next
      case (Some i)
      then have i: "i \<in> {0, 1}" using p(4) by (auto intro: ranI)
      have "vp_available_pointers p OR push_bit i 1 = (if 0 \<in> held - {i} then 0 else 1) OR (if 1 \<in> held - {i} then 0 else 2)"
        unfolding free using i by (cases "i = 0"; cases "0 \<in> held"; cases "1 \<in> held") (simp_all add: push_bit_eq_mult)
      moreover have "ran (owner(k := None)) \<subseteq> {0, 1}" using p(4) by (auto simp: ran_def split: if_splits)
      moreover have "\<forall>j\<in>{0, 1}. tracks (tracking_byte j (r\<lparr>d4_currentTouch := set_up i (d4_currentTouch r)\<rparr>)) (downs j) (j \<in> held - {i})"
        using r(2) i by (auto simp: tracking_byte_def set_up_def intro: tracks_up)
      ultimately show ?thesis using up p r(1) Some
        by (auto simp: pad_finger_def pad_finger_event_def fs fingers_are_def on_touch_def pad_attached_def)
    qed
  next
    case rest
    then show ?thesis using assms by (auto simp: pad_finger_def pad_finger_event_def fs split: option.splits)
  qed
qed

lemma pad_touch_are:
  assumes "fingers_are fs p"
  shows "case pad_touch env ev k x y p of
      None \<Rightarrow> pad_finger_event (Pad_touch nr ev k x y) fs = fs
    | Some p' \<Rightarrow> fingers_are (pad_finger_event (Pad_touch nr ev k x y) fs) p'"
proof (cases "pad_finger ev k p")
  case None
  then show ?thesis using pad_finger_are [OF assms, of nr ev k x y] by (simp add: pad_touch_def)
next
  case (Some fp)
  then obtain f p1 where fp: "pad_finger ev k p = Some (f, p1)" by (cases fp) auto
  then have *: "fingers_are (pad_finger_event (Pad_touch nr ev k x y) fs) p1"
    using pad_finger_are [OF assms, of nr ev k x y] by simp
  obtain owner held downs where e: "pad_finger_event (Pad_touch nr ev k x y) fs = (owner, held, downs)"
    using prod_cases3 by blast
  show ?thesis using * by (auto simp: pad_touch_def fp Let_def e fingers_are_def on_touch_def pad_attached_def tracking_byte_def split: option.split)
qed

lemma event_are:
  assumes "fingers_are fs (vg_pad v nr)" "nr < length (vg_gamepads v)"
  shows "case f (vg_pad v nr) of None \<Rightarrow> ds4_event env nr f v = v
    | Some p \<Rightarrow> fingers_are fs' p \<longrightarrow> fingers_are fs' (vg_pad (ds4_event env nr f v) nr) \<and>
        (\<exists>r. vp_report (vg_pad (ds4_event env nr f v) nr) = Report_ds4 r \<and>
          map snd (vg_calls (ds4_event env nr f v)) = map snd (vg_calls v) @ [Vigem_ds4_update nr r])"
    "length (vg_gamepads (ds4_event env nr f v)) = length (vg_gamepads v)"
proof -
  have ds4: "map_option tg_ds4 (vp_gp (vg_pad v nr)) = Some True" using assms(1) by (auto simp: fingers_are_def)
  show "length (vg_gamepads (ds4_event env nr f v)) = length (vg_gamepads v)"
    by (simp add: ds4_event_def split: option.split)
  show "case f (vg_pad v nr) of None \<Rightarrow> ds4_event env nr f v = v
    | Some p \<Rightarrow> fingers_are fs' p \<longrightarrow> fingers_are fs' (vg_pad (ds4_event env nr f v) nr) \<and>
        (\<exists>r. vp_report (vg_pad (ds4_event env nr f v) nr) = Report_ds4 r \<and>
          map snd (vg_calls (ds4_event env nr f v)) = map snd (vg_calls v) @ [Vigem_ds4_update nr r])"
    using ds4 ds4_send_fingers [of fs' "set_pad nr p v" nr env for p] assms(2)
    by (auto simp: ds4_event_def pad_of_set split: option.split)
qed

lemma pad_event_are:
  assumes "fingers_are fs (vg_pad v nr)" "nr < length (vg_gamepads v)" "of_pad nr op"
  shows "fingers_are (pad_finger_event op fs) (vg_pad (snd (pad_event cfg env op v)) nr)"
    "length (vg_gamepads (snd (pad_event cfg env op v))) = length (vg_gamepads v)"
proof -
  note ev = event_are [OF assms(1,2), where env = env]
  have rep: "fingers_are fs (vg_pad (ds4_event env nr (\<lambda>p. Some (p\<lparr>vp_report := on_ds4 f (vp_report p)\<rparr>)) v) nr)"
    if "\<And>r. d4_currentTouch (f r) = d4_currentTouch r" for f
    using ev(1) [where f = "\<lambda>p. Some (p\<lparr>vp_report := on_ds4 f (vp_report p)\<rparr>)" and fs' = fs] fingers_are_report [OF assms(1), of f] that by simp
  have "fingers_are (pad_finger_event op fs) (vg_pad (snd (pad_event cfg env op v)) nr) \<and>
    length (vg_gamepads (snd (pad_event cfg env op v))) = length (vg_gamepads v)"
  proof (cases op)
    case (Pad_update k gs)
    have "\<exists>t. vp_gp (vg_pad v nr) = Some t \<and> tg_ds4 t" using assms(1) by (auto simp: fingers_are_def)
    moreover have "fingers_are fs ((vg_pad v nr)\<lparr>vp_report := on_ds4 (ds4_update_state cfg gs) (vp_report (vg_pad v nr))\<rparr>)"
      by (rule fingers_are_report [OF assms(1)]) (simp add: ds4_update_state_def)
    ultimately show ?thesis
      using Pad_update assms(2,3) ds4_send_fingers(1) [of fs "set_pad nr p v" nr env for p]
      by (auto simp: of_pad_def win_gamepad_update_def pad_finger_event_def pad_of_set Let_def)
  next
    case (Pad_touch k t i x y)
    then show ?thesis
      using assms pad_touch_are [OF assms(1), of k t i x y env] ev(2) ev(1) [where f = "pad_touch env t i x y" and fs' = "pad_finger_event op fs"]
      by (auto simp: of_pad_def win_gamepad_touch_def split: option.splits)
  next
    case (Pad_motion k t x y z)
    have "d4_currentTouch (ds4_update_motion env t x y z r) = d4_currentTouch r" for r by (simp add: ds4_update_motion_def)
    then show ?thesis using Pad_motion assms(3) rep ev(2) by (simp add: of_pad_def win_gamepad_motion_def pad_finger_event_def)
  next
    case (Pad_battery k st percentage)
    have "d4_currentTouch (ds4_battery st percentage r) = d4_currentTouch r" for r by (simp add: ds4_battery_def split: prod.split)
    then show ?thesis using Pad_battery assms(3) rep ev(2) by (simp add: of_pad_def win_gamepad_battery_def pad_finger_event_def)
  next
    case (Pad_repeat k)
    then show ?thesis using assms ds4_send_fingers(1) [OF assms(1,2), of env] by (simp add: of_pad_def pad_finger_event_def)
  qed (use assms(3) in \<open>simp_all add: of_pad_def\<close>)
  then show "fingers_are (pad_finger_event op fs) (vg_pad (snd (pad_event cfg env op v)) nr)"
    "length (vg_gamepads (snd (pad_event cfg env op v))) = length (vg_gamepads v)" by auto
qed

lemma pad_events_are:
  assumes "fingers_are fs (vg_pad v nr)" "nr < length (vg_gamepads v)" "list_all (\<lambda>(env, op). of_pad nr op) ops"
  shows "fingers_are (finger_run ops fs) (vg_pad (pad_events cfg ops v) nr) \<and>
    length (vg_gamepads (pad_events cfg ops v)) = length (vg_gamepads v)"
  using assms
proof (induction ops arbitrary: fs v)
  case (Cons eo ops)
  obtain env op where eo: "eo = (env, op)" by (cases eo) auto
  have "of_pad nr op" "list_all (\<lambda>(env, op). of_pad nr op) ops" using Cons.prems(3) by (simp_all add: eo)
  note step = pad_event_are [OF Cons.prems(1,2) this(1), of cfg env]
  show ?case
    using Cons.IH [OF step(1)] step(2) Cons.prems(2) \<open>list_all _ ops\<close> by (simp add: eo finger_run_def pad_events_def)
qed (simp add: finger_run_def pad_events_def)

lemma new_pad_fingers:
  assumes "alloc_gamepad_internal env (nr, i) q True v = Some (False, v0)" "nr < length (vg_gamepads v)"
    and "vp_pointer_id_map (vg_pad v nr) = Map.empty"
  shows "fingers_are no_fingers (vg_pad v0 nr)" "length (vg_gamepads v0) = length (vg_gamepads v)"
proof -
  have "d4_currentTouch (ds4_update_motion env t x y z r) = d4_currentTouch r" for t x y z r by (simp add: ds4_update_motion_def)
  then show "fingers_are no_fingers (vg_pad v0 nr)" "length (vg_gamepads v0) = length (vg_gamepads v)"
    using assms
    by (auto simp: alloc_gamepad_internal_def Let_def fingers_are_def no_fingers_def pad_of_set pad_attached_def vg_raise_def
        tracking_byte_def ds4_report_init_ex_def ds4_touch_unused_def tracks_def split: if_splits)
qed

text \<open>
  C40. A finger's number on the touch pad has seven bits and the eighth says that the finger is up, but the code counts over
  all eight. So when a pointer goes down on a virtual DualShock, after any events since the pad came, the report sent to the
  game shows its finger as up exactly when this is the 128th, 256th, \<open>\<dots>\<close> touch of that finger; the other finger is
  reported as down when it is held, apart from its own 128th, 256th, \<open>\<dots>\<close> touch. It holds for both fingers: the second
  is the one that goes down while the first is held.
\<close>

theorem touch_lost_each_128th:
  assumes "alloc_gamepad_internal env (nr, i) q True v = Some (False, v0)" "nr < length (vg_gamepads v)"
    and "vp_pointer_id_map (vg_pad v nr) = Map.empty" "list_all (\<lambda>(env, op). of_pad nr op) ops"
    and "finger_run ops no_fingers = (owner, held, downs)" "find (\<lambda>f. f \<notin> held) [0, 1] = Some f"
    and "v1 = pad_events cfg ops v0"
  shows "\<exists>r. map snd (vg_calls (win_gamepad_touch env' nr LI_TOUCH_EVENT_DOWN k x y v1)) = map snd (vg_calls v1) @ [Vigem_ds4_update nr r] \<and>
    (says_up f r \<longleftrightarrow> 128 dvd Suc (downs f)) \<and>
    (says_up (1 - f) r \<longleftrightarrow> 1 - f \<notin> held \<or> 128 dvd downs (1 - f))"
proof -
  let ?op = "Pad_touch nr LI_TOUCH_EVENT_DOWN k x y" and ?v = "win_gamepad_touch env' nr LI_TOUCH_EVENT_DOWN k x y v1"
  note new = new_pad_fingers [OF assms(1,2,3)]
  have v1: "fingers_are (owner, held, downs) (vg_pad v1 nr)" "nr < length (vg_gamepads v1)"
    using pad_events_are [OF new(1) _ assms(4), of cfg] new(2) assms(2,5,7) by simp_all
  have e: "pad_finger_event ?op (owner, held, downs) = (owner(k \<mapsto> f), insert f held, downs(f := downs f + 1))"
    using assms(6) by (simp add: pad_finger_event_def)
  have f: "f \<in> {0, 1}" "f \<notin> held" using assms(6) by (auto split: if_splits)
  then have "insert f held \<noteq> held" by blast
  then have "pad_touch env' LI_TOUCH_EVENT_DOWN k x y (vg_pad v1 nr) \<noteq> None"
    using pad_touch_are [OF v1(1), of nr LI_TOUCH_EVENT_DOWN k x y env'] e by (metis Pair_inject option.simps(4))
  then obtain r where r: "vp_report (vg_pad ?v nr) = Report_ds4 r" "map snd (vg_calls ?v) = map snd (vg_calls v1) @ [Vigem_ds4_update nr r]"
    and are: "fingers_are (owner(k \<mapsto> f), insert f held, downs(f := downs f + 1)) (vg_pad ?v nr)"
    using event_are(1) [OF v1, where env = env' and f = "pad_touch env' LI_TOUCH_EVENT_DOWN k x y" and fs' = "pad_finger_event ?op (owner, held, downs)"]
      pad_touch_are [OF v1(1), of nr LI_TOUCH_EVENT_DOWN k x y env']
    unfolding e win_gamepad_touch_def by (auto split: option.splits)
  have t: "tracks (tracking_byte j r) ((downs(f := downs f + 1)) j) (j \<in> insert f held)" if "j \<in> {0, 1}" for j
    using are r(1) that by (auto simp: fingers_are_def)
  have "says_up f r \<longleftrightarrow> 128 dvd Suc (downs f)"
    using t [OF f(1)] by (simp add: tracks_def says_up_def dvd_eq_mod_eq_0)
  moreover have "1 - f \<in> {0, 1}" "1 - f \<noteq> f" using f(1) by auto
  then have "says_up (1 - f) r \<longleftrightarrow> 1 - f \<notin> held \<or> 128 dvd downs (1 - f)"
    using t [of "1 - f"] by (simp add: tracks_def says_up_def dvd_eq_mod_eq_0)
  ultimately show ?thesis using r(2) by blast
qed

text \<open>A finger held, and 127 taps of a second one.\<close>

definition sample_taps :: "(int pad_env \<times> int pad_op) list" where
  "sample_taps = (sample_pads, Pad_touch 2 LI_TOUCH_EVENT_DOWN 9 0 0) #
     concat (replicate 127 [(sample_pads, Pad_touch 2 LI_TOUCH_EVENT_DOWN 8 0 0), (sample_pads, Pad_touch 2 LI_TOUCH_EVENT_UP 8 0 0)])"

lemma taps_fingers:
  assumes "m 8 = None"
  shows "finger_run (concat (replicate n [(e, Pad_touch 2 LI_TOUCH_EVENT_DOWN 8 x y), (e, Pad_touch 2 LI_TOUCH_EVENT_UP 8 x y)]))
     (m, {0}, downs) = (m, {0}, downs(1 := downs 1 + n))" (is "finger_run (concat (replicate n ?taps)) _ = _")
proof (induction n arbitrary: downs)
  case (Suc n)
  have "insert 1 {0} - {1} = {0 :: nat}" by auto
  then have "pad_finger_event (Pad_touch 2 LI_TOUCH_EVENT_UP 8 x y) (pad_finger_event (Pad_touch 2 LI_TOUCH_EVENT_DOWN 8 x y) (m, {0}, downs))
      = (m, {0}, downs(1 := downs 1 + 1))"
    using fun_upd_idem [of m 8 None, OF assms] by (simp add: pad_finger_event_def touch_events)
  note step = this
  have "finger_run (concat (replicate (Suc n) ?taps)) (m, {0}, downs) =
      finger_run (concat (replicate n ?taps)) (pad_finger_event (Pad_touch 2 LI_TOUCH_EVENT_UP 8 x y)
        (pad_finger_event (Pad_touch 2 LI_TOUCH_EVENT_DOWN 8 x y) (m, {0}, downs)))"
    by (simp add: finger_run_def)
  also have "\<dots> = (m, {0}, (downs(1 := downs 1 + 1))(1 := (downs(1 := downs 1 + 1)) 1 + n))"
    unfolding step by (rule Suc)
  finally show ?case by (simp only: fun_upd_upd fun_upd_same add_Suc_right add_Suc plus_1_eq_Suc add.commute)
qed (simp add: finger_run_def)

theorem touch_lost_each_128th_witness:
  "\<exists>v0. alloc_gamepad_internal sample_pads (2, 1) 5 True new_vigem = Some (False, v0) \<and>
     (\<exists>r. snd (last (vg_calls (win_gamepad_touch sample_pads 2 LI_TOUCH_EVENT_DOWN 8 0 0 (pad_events sample_pad_config sample_taps v0)))) =
         Vigem_ds4_update 2 r \<and> says_up 1 r \<and> \<not> says_up 0 r)"
proof -
  obtain v0 where v0: "alloc_gamepad_internal sample_pads (2, 1) 5 True new_vigem = Some (False, v0)"
    by (auto simp: alloc_gamepad_internal_def sample_pads_def new_vigem_def new_vigem_pad_def vg_pad_def MAX_GAMEPADS_def Let_def)
  have nr: "2 < length (vg_gamepads new_vigem)" and m: "vp_pointer_id_map (vg_pad new_vigem 2) = Map.empty"
    by (simp_all add: new_vigem_def new_vigem_pad_def vg_pad_def MAX_GAMEPADS_def)
  have ops: "list_all (\<lambda>(env, op). of_pad 2 op) sample_taps"
    by (simp add: sample_taps_def of_pad_def list_all_iff)
  have "pad_finger_event (Pad_touch 2 LI_TOUCH_EVENT_DOWN 9 (0 :: int) 0) no_fingers = ([9 \<mapsto> 0], {0}, (\<lambda>_. 0)(0 := 1))"
    by (simp add: pad_finger_event_def no_fingers_def)
  then have run: "finger_run sample_taps no_fingers = ([9 \<mapsto> 0], {0}, (\<lambda>_. 0)(0 := 1, 1 := 127))"
    using taps_fingers [of "[9 \<mapsto> 0]" 127 sample_pads 0 0 "(\<lambda>_. 0)(0 := 1)"] by (simp add: sample_taps_def finger_run_def)
  have free: "find (\<lambda>f. f \<notin> {0}) [0, 1] = Some (1 :: nat)" by simp
  show ?thesis
    using touch_lost_each_128th [OF v0 nr m ops run free refl, of sample_pads 8 0 0 sample_pad_config] v0
    by (auto simp: last_map [symmetric] simp del: last_map) (metis last_map last_snoc list.map_disc_iff snoc_eq_iff_butlast)
qed

section \<open>Sticks and battery\<close>

lemma c_div_pos: "0 \<le> a \<Longrightarrow> 0 < b \<Longrightarrow> c_div a b = a div b"
  by (cases "a = 0") (simp_all add: c_div_def)

lemma c_div_neg: "a \<le> 0 \<Longrightarrow> 0 < b \<Longrightarrow> c_div a b = - (- a div b)"
  by (cases "a = 0") (simp_all add: c_div_def)

lemma sint_range: "- 32768 \<le> sint (v :: u16) \<and> sint v < 32768"
  using sint_ge [of v] sint_lt [of v] by simp

lemma stick_x: "uint (to_ds4_triggerX v) = (sint v + 32768) div 257"
proof -
  have "0 \<le> (sint v + 32768) div 257" "(sint v + 32768) div 257 \<le> 255" using sint_range [of v] by linarith+
  then show ?thesis using sint_range [of v] by (simp add: to_ds4_triggerX_def c_div_pos uint_word_of_int)
qed

lemma stick_y: "uint (to_ds4_triggerY v) = (if sint v + 32766 < 257 then 255 else 256 - (sint v + 32766) div 257)"
proof (cases "sint v + 32766 < 257")
  case True
  then have "c_div (- (65535 div 2 + sint v - 1)) 257 = 0"
    using sint_range [of v] by (cases "sint v + 32766 \<le> 0") (simp_all add: c_div_pos c_div_neg)
  then show ?thesis using True by (simp add: to_ds4_triggerY_def)
next
  case False
  let ?k = "(sint v + 32766) div 257"
  have k: "1 \<le> ?k" "?k \<le> 254" using False sint_range [of v] by linarith+
  have "c_div (- (65535 div 2 + sint v - 1)) 257 = - ?k" using False by (simp add: c_div_neg)
  moreover have "(- ?k) mod 256 = 256 - ?k" using k by (simp add: zmod_zminus1_eq_if)
  ultimately have "to_ds4_triggerY v = word_of_int (- ?k)" "uint (word_of_int (- ?k) :: u8) = 256 - ?k"
    using k by (simp_all add: to_ds4_triggerY_def Let_def uint_word_of_int del: of_int_minus)
  then show ?thesis using False by simp
qed

text \<open>Right and left reach both ends, down does too, but up never does: the two lowest values stay unused.\<close>

lemma stick_ranges:
  "sint v \<le> sint w \<Longrightarrow> to_ds4_triggerX v \<le> to_ds4_triggerX w"
  "sint v \<le> sint w \<Longrightarrow> to_ds4_triggerY w \<le> to_ds4_triggerY v"
  "2 \<le> to_ds4_triggerY v" "to_ds4_triggerX 0x8000 = 0" "to_ds4_triggerX 0x7FFF = 255" "to_ds4_triggerY 0x8000 = 255"
proof -
  show "to_ds4_triggerX v \<le> to_ds4_triggerX w" if "sint v \<le> sint w"
    using zdiv_mono1 [of "sint v + 32768" "sint w + 32768" 257] that unfolding word_le_def stick_x by simp
  show "to_ds4_triggerY w \<le> to_ds4_triggerY v" if "sint v \<le> sint w"
  proof -
    have "(sint v + 32766) div 257 \<le> (sint w + 32766) div 257" by (rule zdiv_mono1) (use that in simp_all)
    then show ?thesis unfolding word_le_def stick_y by (auto intro: order_trans)
  qed
  have "(sint v + 32766) div 257 \<le> 254" using sint_range [of v] by linarith
  then show "2 \<le> to_ds4_triggerY v" unfolding word_le_def stick_y by simp
  show "to_ds4_triggerX 0x8000 = 0" "to_ds4_triggerX 0x7FFF = 255" "to_ds4_triggerY 0x8000 = 255" by code_simp+
qed

text \<open>The battery's level is in range for a percentage that is one.\<close>

lemma battery_level:
  assumes "percentage \<le> 100"
  shows "uint (fst (battery_percentage percentage ls)) = uint percentage * 255 div 100"
proof -
  have p: "uint percentage \<le> 100" using assms by (simp add: word_le_def)
  then have "percentage \<noteq> 0xFF" by auto
  have "0 \<le> uint percentage * 255 div 100" by (intro pos_imp_zdiv_nonneg_iff [THEN iffD2]) simp_all
  moreover have "uint percentage * 255 div 100 < 256" using p by linarith
  ultimately have "uint percentage * 255 div 100 mod 256 = uint percentage * 255 div 100" by (intro mod_pos_pos_trivial)
  with \<open>percentage \<noteq> 0xFF\<close> show ?thesis
    by (cases ls) (simp only: battery_percentage_def battery_states, simp only: if_False case_prod_conv fst_conv uint_word_of_int, simp)
qed

text \<open>While it is discharged the percentage does not reach the low half of the special byte.\<close>

lemma discharging_keeps_nibble:
  "snd (battery_percentage percentage (battery_state LI_BATTERY_STATE_DISCHARGING (lvl, special))) =
   snd (battery_state LI_BATTERY_STATE_DISCHARGING (lvl, special))"
proof -
  have "list_all (\<lambda>n. snd (battery_state LI_BATTERY_STATE_DISCHARGING (0, of_nat n)) AND 0x10 = 0) [0..<256]" by code_simp
  then have all: "snd (battery_state LI_BATTERY_STATE_DISCHARGING (0, of_nat n)) AND 0x10 = 0" if "n < 256" for n
    using that by (simp add: list_all_iff)
  have "unat special < 256" using unsigned_less [of special, where ?'a = nat] by simp
  from all [OF this] have "snd (battery_state LI_BATTERY_STATE_DISCHARGING (lvl, special)) AND 0x10 = 0"
    by (simp add: battery_state_def battery_states Let_def)
  then show ?thesis by (cases "battery_state LI_BATTERY_STATE_DISCHARGING (lvl, special)") (simp add: battery_percentage_def)
qed

section \<open>Positions\<close>

lemma twelve_bits:
  fixes z :: u16
  assumes "z < 0x1000" "bit z n"
  shows "n < 12"
proof -
  have "unat z < 2 ^ 12" using assms(1) by (simp add: word_less_nat_alt)
  then have "take_bit 12 z = z" by (intro unsigned_word_eqI [where ?'a = nat]) (simp add: unsigned_take_bit_eq take_bit_nat_eq_self)
  then show ?thesis using assms(2) by (metis bit_take_bit_iff)
qed

lemma ones: "bit (0xFF :: u16) n \<longleftrightarrow> n < 8" "bit (0xF :: u16) n \<longleftrightarrow> n < 4" "bit (0xF :: u8) n \<longleftrightarrow> n < 4" "bit (0xFF :: u8) n \<longleftrightarrow> n < 8"
  "bit (0xFF :: int) n \<longleftrightarrow> n < 8" "bit (0xF :: int) n \<longleftrightarrow> n < 4"
  "bit (0xF0 :: int) n \<longleftrightarrow> 4 \<le> n \<and> n < 8" "bit (0xF0 :: u16) n \<longleftrightarrow> 4 \<le> n \<and> n < 8" "bit (0xF0 :: u8) n \<longleftrightarrow> 4 \<le> n \<and> n < 8"
proof -
  have "bit (mask 8 :: int) m \<longleftrightarrow> m < 8" "bit (mask 4 :: int) m \<longleftrightarrow> m < 4" for m by (auto simp: bit_mask_iff)
  then have i: "bit (0xFF :: int) m \<longleftrightarrow> m < 8" "bit (0xF :: int) m \<longleftrightarrow> m < 4" for m by (simp_all add: mask_eq_exp_minus_1)
  then show "bit (0xFF :: int) n \<longleftrightarrow> n < 8" "bit (0xF :: int) n \<longleftrightarrow> n < 4" by blast+
  have "bit (push_bit 4 0xF :: int) n \<longleftrightarrow> 4 \<le> n \<and> n < 8" unfolding bit_push_bit_iff_int i by auto
  then show j: "bit (0xF0 :: int) n \<longleftrightarrow> 4 \<le> n \<and> n < 8" by (simp add: push_bit_eq_mult)
  show "bit (0xF0 :: u16) n \<longleftrightarrow> 4 \<le> n \<and> n < 8" "bit (0xF0 :: u8) n \<longleftrightarrow> 4 \<le> n \<and> n < 8" by (auto simp: bit_numeral_word_iff j)
  show "bit (0xFF :: u16) n \<longleftrightarrow> n < 8" "bit (0xF :: u16) n \<longleftrightarrow> n < 4" "bit (0xF :: u8) n \<longleftrightarrow> n < 4" "bit (0xFF :: u8) n \<longleftrightarrow> n < 8"
    by (auto simp: bit_numeral_word_iff i)
qed

lemma touch_data_bits:
  assumes "touch_data x y = [a, b, c]"
  shows "bit a n \<longleftrightarrow> n < 8 \<and> bit x n" 
    "bit b n \<longleftrightarrow> n < 8 \<and> (if n < 4 then bit x (n + 8) else bit y (n - 4))"
    "bit c n \<longleftrightarrow> n < 8 \<and> bit y (n + 4)"
proof -
  have a: "a = ucast (x AND 0xFF)" and b: "b = ucast ((drop_bit 8 x AND 0x0F) OR push_bit 4 (y AND 0x0F))"
    and c: "c = ucast (drop_bit 4 y AND 0xFF)"
    using assms by (simp_all only: touch_data_def list.inject)
  show "bit a n \<longleftrightarrow> n < 8 \<and> bit x n" unfolding a by (auto simp: bit_ucast_iff bit_and_iff ones)
  show "bit b n \<longleftrightarrow> n < 8 \<and> (if n < 4 then bit x (n + 8) else bit y (n - 4))"
    unfolding b by (auto simp: bit_ucast_iff bit_and_iff bit_or_iff bit_drop_bit_eq bit_push_bit_iff ones add.commute)
  show "bit c n \<longleftrightarrow> n < 8 \<and> bit y (n + 4)" unfolding c by (auto simp: bit_ucast_iff bit_and_iff bit_drop_bit_eq ones add.commute)
qed

text \<open>
  A position on the touch pad, of twelve bits each way, is packed into three bytes from which the game reads back
  the same position.
\<close>

theorem touch_data_decode:
  assumes "x < 0x1000" "y < 0x1000" "touch_data x y = [a, b, c]"
  shows "(ucast a :: u16) OR push_bit 8 (ucast (b AND 0x0F)) = x \<and> (ucast (drop_bit 4 b) :: u16) OR push_bit 4 (ucast c) = y"
proof
  note bits = touch_data_bits [OF assms(3)]
  show "(ucast a :: u16) OR push_bit 8 (ucast (b AND 0x0F)) = x"
  proof (rule bit_word_eqI)
    fix n
    assume "n < LENGTH(16)"
    then show "bit ((ucast a :: u16) OR push_bit 8 (ucast (b AND 0x0F))) n = bit x n"
      using twelve_bits [OF assms(1), of n] by (cases "n < 8") (auto simp: bit_ucast_iff bit_and_iff bit_or_iff bit_push_bit_iff bits ones)
  qed
  show "(ucast (drop_bit 4 b) :: u16) OR push_bit 4 (ucast c) = y"
  proof (rule bit_word_eqI)
    fix n
    assume "n < LENGTH(16)"
    then show "bit ((ucast (drop_bit 4 b) :: u16) OR push_bit 4 (ucast c)) n = bit y n"
      using twelve_bits [OF assms(2), of n] by (cases "n < 4") (auto simp: bit_ucast_iff bit_drop_bit_eq bit_or_iff bit_push_bit_iff bits)
  qed
qed

theorem touch_data_decode_witness:
  "(ucast (0x7F :: u8) :: u16) OR push_bit 8 (ucast ((0xE7 :: u8) AND 0x0F)) = 0x77F"
proof -
  have "touch_data 0x77F 0x3AE = [0x7F, 0xE7, 0x3A]" by code_simp
  from touch_data_decode [OF _ _ this] show ?thesis by simp
qed

text \<open>A pad in a place used before inherits the fingers of the last one: its pointer is taken for one that is down.\<close>

lemma stale_finger:
  fixes env :: "'f pad_env"
  assumes "alloc_gamepad_internal env (nr, i) q True v = Some (False, v')" "nr < length (vg_gamepads v)"
    and "vp_pointer_id_map (vg_pad v nr) k = Some 0"
  shows "vp_available_pointers (vg_pad v' nr) = 3" "vp_pointer_id_map (vg_pad v' nr) k = Some 0"
    "pad_finger LI_TOUCH_EVENT_MOVE k (vg_pad v' nr) = Some (Some 0, vg_pad v' nr)"
proof -
  show "vp_available_pointers (vg_pad v' nr) = 3" and k: "vp_pointer_id_map (vg_pad v' nr) k = Some 0"
    using assms by (auto simp: alloc_gamepad_internal_def Let_def split: if_splits)
  then show "pad_finger LI_TOUCH_EVENT_MOVE k (vg_pad v' nr) = Some (Some 0, vg_pad v' nr)"
    by (simp add: pad_finger_def touch_events)
qed

end
