(* ===== verification/Spec2Isabelle.thy ===== *)
theory Spec2Isabelle
  imports Input_Slots Input_Release Stream_Sessions Rtsp_Props Rtsp_Server Network Nvhttp_Props Process_Props Stream_Audio_Props Stream_Ping Audio_Props
    Display_Props Web_Props Colorspace Config_Props Config_Types Video_Choice Video_Capture_Props Video_Sync Video_Run
    Windows_Input Windows_Touch_Props Windows_Gamepad_Props
begin

text \<open>
  Sunshine streams the display and the sound of a host to a Moonlight client and feeds the client's input back. This
  library models the program under \<^verbatim>\<open>src/src\<close>, called \<^verbatim>\<open>src\<close> below, and proves what its parts promise. Each
  definition carries the name of the function or type it translates where the language allows it.

  \<^bold>\<open>The program and its theories.\<close>
  A client pairs with the host and starts a session over HTTPS, negotiates the streams over RTSP, and then exchanges
  video, audio and control packets with it. The same process serves a web interface, runs the application the
  client asked for, and sets the display up for it.

  \<^item> Ground: \<open>Prelude\<close> has the machine integers and shared lemmas, \<open>Byte_Layout\<close> byte buffers, \<open>Text_Util\<close> and
    \<open>Hex_Codec\<close> the parsers of \<^verbatim>\<open>utility.h\<close>.
  \<^item> Threads: \<open>Task_Pool\<close> is \<^verbatim>\<open>task_pool.h\<close> and \<^verbatim>\<open>thread_pool.h\<close>, \<open>Thread_Safe\<close> the events, queues, alarms, shared objects
    and mailboxes of \<^verbatim>\<open>thread_safe.h\<close>. All others use them to start work and to talk to each other.
  \<^item> Input: \<open>Input_Packets\<close> (packets and their batching), \<open>Input_State\<close> and \<open>Input\<close> (globals, clients and handlers) are
    \<^verbatim>\<open>input.cpp\<close>; its calls of the platform are recorded. \<open>Windows_Input\<close>, \<open>Windows_Touch\<close> and \<open>Windows_Gamepad\<close> are what
    \<^verbatim>\<open>platform/windows/input.cpp\<close> makes of these calls.
  \<^item> Streams, \<^verbatim>\<open>stream.cpp\<close>: \<open>Stream_Fec\<close> and \<open>Stream_Video\<close> (packets of a frame), \<open>Stream_Audio\<close>, \<open>Stream_Ping\<close> (the endpoints of
    the sessions), \<open>Stream_Control\<close> (messages, sessions and peers).
  \<^item> Sessions: \<open>Pairing\<close> and \<open>Nvhttp\<close> are \<^verbatim>\<open>nvhttp.cpp\<close>, \<open>Rtsp\<close> and \<open>Rtsp_Server\<close> are \<^verbatim>\<open>rtsp.cpp\<close>, \<open>Network\<close> is \<^verbatim>\<open>network.cpp\<close>.
  \<^item> Settings and host: \<open>Config\<close> and \<open>Config_Apply\<close> are \<^verbatim>\<open>config.cpp\<close>, \<open>Process\<close> is \<^verbatim>\<open>process.cpp\<close>, \<open>Display_Device\<close> is
    \<^verbatim>\<open>display_device.cpp\<close>, \<open>Audio\<close> is \<^verbatim>\<open>audio.cpp\<close>, \<open>Web_Auth\<close> and \<open>Web_Server\<close> are \<^verbatim>\<open>confighttp.cpp\<close> with the credentials of
    \<^verbatim>\<open>httpcommon.cpp\<close>.
  \<^item> Video: \<open>Colorspace\<close> is \<^verbatim>\<open>video_colorspace.cpp\<close>. The rest is \<^verbatim>\<open>video.cpp\<close>: \<open>Video_Encoder\<close> and \<open>Encoder_Tables\<close> (types and tables),
    \<open>Video_Session\<close> (opening an encoder), \<open>Video_Probe\<close> (the choice of the encoder), \<open>Video_Capture\<close> (displays, images and the
    capture thread), \<open>Video_Run\<close> (encoding for one session), \<open>Video_Sync\<close> (both in one thread).

  A theory whose name ends in \<open>Props\<close>, and \<open>Input_Release\<close>, \<open>Input_Slots\<close>, \<open>Stream_Crypto\<close>, \<open>Stream_Sessions\<close>, \<open>Config_Types\<close> and
  \<open>Video_Choice\<close>, holds properties of the theories before it; short ones stand beside the model.

  \<^bold>\<open>How the code is modelled.\<close>
  \<^item> A class or a group of globals is a record, and an operation is a function that returns the new one. Errors, early
    returns and exceptions are values. \<open>None\<close> stands for undefined behaviour where a theory says so: an access outside of
    a buffer, the overflow of a signed number, a division by zero, a null pointer or a failed assertion. A theorem
    that a function gives \<open>Some\<close> thus says that none of these happens.
  \<^item> Integers have the width of the code as words where they wrap around, and are integers or natural numbers where their
    range is proved or assumed in the theorem. Floating point arithmetic is a parameter (\<open>float_ops\<close>), except for colours,
    which are computed with rational numbers.
  \<^item> A method that holds a mutex is one atomic step. Where threads interleave, a relation or a list of events says
    in which order: \<open>input_step\<close>, \<open>control_reachable\<close>, \<open>pool_reachable\<close>, and the functions named \<open>run\<close>.
  \<^item> Time, random bytes, what arrives on a socket and what the system answers are arguments. What is sent or asked of the
    system is recorded in the state.
  \<^item> Libraries are parameters: AES, RSA and the hashes of OpenSSL, the Reed-Solomon coder, FFmpeg and Opus, the file system,
    JSON and the HTTP servers, the display library, Windows and the ViGEm driver. Laws that a theorem needs of them
    are its hypotheses (\<open>gcm_lawful\<close>, \<open>cbc_lawful\<close>, \<open>coder_lawful\<close>), and its witness gives an instance; the one of the coder is
    \<open>Sample_Coder\<close>.
  \<^item> The client's end of a protocol is taken from the sources of Moonlight that the repository brings along, where
    a theorem says what the client gets.

  \<^bold>\<open>Loops and fuel.\<close> Loops are recursions on a list, on a number or with a measure, so they are total, with these exceptions. The
  parser of the configuration file is a partial function, and \<open>parse_config_returns\<close> is the theorem that it returns on each
  file. The drain of the task pool has as fuel the number of its entries, which is enough since each round takes one
  and the tasks push nothing. The loop that empties a channel has a fuel of its own, and the lemma \<open>drain_contents\<close>
  says that the number of elements is enough. Loops that wait for other threads take the list of what happens, one entry a
  round, and a run ends where the list does.

  \<^bold>\<open>What the lemmas show.\<close>
  \<^item> Threads: the locale \<open>deadline_queue\<close> (timers are run in the order of their deadlines, none is lost) is interpreted on the
    task pool, \<open>channel\<close> (what is read is what was sent, in order) on events and on queues; shared objects are alive
    exactly while they are held.
  \<^item> Input: the locale \<open>state_batching\<close> (merging packets changes no state that a device sees) is interpreted on the packets;
    controllers of all clients keep separate slots, no message is stranded, a reset releases what is down. On Windows the ten
    touch slots refine a map of fingers, keys stay apart, and the driver of the gamepads is used only when connected.
  \<^item> Streams: every frame up to 1000 packets reaches the client in consistent blocks; sealed packets open again, vectors are not
    reused, and forged ones do nothing; sound survives two lost packets of six; sessions and peers agree.
  \<^item> Sessions: only paired clients are admitted, the handlers refine the abstract protocol of pairing, and encryption that is demanded
    is used.
  \<^item> Settings and host: no file sets a setting out of range, saved settings are read back, commands are undone in reverse, and
    nothing changes through the web interface without credentials and, from other sites, a token.
  \<^item> Video: opening an encoder is defined, the probe computes its specification, images in use are not handed out,
    pointers hit what the client sees, and sessions of the shared thread are all released.
  \<^item> Several lemmas and theorems show where the code does not do what it means to, from concrete states or inputs.

  \<^bold>\<open>Not modelled.\<close> Capture and input of Linux and macOS, capture and sound of Windows, and the NVENC driver are calls of the system or
  of the card's library, whose behaviour is not in the repository. Port forwarding, discovery, the tray icon, logging and start up
  only call libraries. Of modelled parts the following is left out: reading the command line, the answers \<^verbatim>\<open>serverinfo\<close>,
  \<^verbatim>\<open>applist\<close> and \<^verbatim>\<open>appasset\<close>, the accept loops of the servers, the transfer of files, the creation of certificates, the
  parsing of codec headers in \<^verbatim>\<open>cbs.cpp\<close>, and floating point options.
\<close>

end
